(* ===== verification/Prelude.thy ===== *)
theory Prelude
  imports
    Complex_Main
    "HOL-Library.AList"
    "HOL-Library.Char_ord"
    "HOL-Library.List_Lexorder"
    "HOL-Library.Multiset"
    "HOL-Library.Product_Lexorder"
    "HOL-Library.Sublist"
begin

text \<open>
  What every component shares: the exceptions of the engine as values, results that are either
  an exception or a value, Python strings and dictionaries, consecutive pairs, and the contract of
  a canonical ordering.

  Conventions of the whole development.
  \<^item> An \<open>int\<close> of the code is an \<open>int\<close> (Python integers do not overflow); a \<open>float\<close> is a \<open>rat\<close>, so
    arithmetic is exact and NaN and the infinities are not modelled.
  \<^item> A \<open>str\<close> is a list of characters with code points below 256 (Latin-1), compared by code point.
  \<^item> A constructor that validates its fields in \<open>__post_init__\<close> is a function into \<open>exn + record\<close>;
    exception messages are not modelled, the class of the exception is.
  \<^item> A \<open>dict\<close> is an association list in insertion order: an assignment to a present key keeps its
    position, an assignment to a new key appends (\<open>AList.update\<close>).
\<close>

section \<open>Exceptions\<close>

text \<open>
  The class hierarchy of \<open>domain/shared/errors.py\<close> (with the subclasses that the domain packages
  declare next to their own code) and of \<open>application/errors.py\<close>. The two base classes are the
  constructors \<open>DomainError\<close> and \<open>ApplicationError\<close> of \<open>exn\<close>, so an \<open>isinstance\<close> test against a
  base class is a case distinction. Other exceptions are the ones of Python that the modelled
  code raises itself, and whatever a runtime behind a port raises.
\<close>

datatype domain_error =
    InvalidIdentifier | InvalidInterval | InvalidConfidence | FabricatedValue | ProhibitedLabel
  | IllegalSessionTransition | EvidenceLedgerViolation
  | UnsupportedCapability | ConsentViolation | TranscriptViolation | SpeechEventViolation
  | ProsodyViolation | VisualEventViolation | CalibrationViolation | QualityViolation
  | FusionViolation | ResultViolation

datatype application_error =
    NotAuthenticated | NotAuthorized | SessionNotFound | ResultNotReady
  | QuotaExceeded int | SessionBusy | BackpressureRequired int

datatype exn =
    DomainError domain_error
  | ApplicationError application_error
  | ValueError
  | KeyError
  | OtherError string

type_synonym 'a result = "exn + 'a"

definition bindR :: "'a result \<Rightarrow> ('a \<Rightarrow> 'b result) \<Rightarrow> 'b result" where
  "bindR r f = (case r of Inl e \<Rightarrow> Inl e | Inr x \<Rightarrow> f x)"

lemma bindR_simps [simp]:
  "bindR (Inl e) f = Inl e"
  "bindR (Inr x) f = f x"
  by (simp_all add: bindR_def)

lemma bindR_eq_Inr [simp]: "bindR r f = Inr y \<longleftrightarrow> (\<exists>x. r = Inr x \<and> f x = Inr y)"
  by (cases r) simp_all

lemma bindR_eq_Inl [simp]:
  "bindR r f = Inl e \<longleftrightarrow> r = Inl e \<or> (\<exists>x. r = Inr x \<and> f x = Inl e)"
  by (cases r) simp_all

lemma bindR_cong [fundef_cong]:
  "r = r' \<Longrightarrow> (\<And>x. r' = Inr x \<Longrightarrow> f x = g x) \<Longrightarrow> bindR r f = bindR r' g"
  by (cases r') auto

text \<open>A comprehension whose element expression may raise: the first exception wins.\<close>

fun mapR :: "('a \<Rightarrow> 'b result) \<Rightarrow> 'a list \<Rightarrow> 'b list result" where
  "mapR f [] = Inr []"
| "mapR f (x # xs) = bindR (f x) (\<lambda>y. bindR (mapR f xs) (\<lambda>ys. Inr (y # ys)))"

lemma mapR_eq_Inr: "mapR f xs = Inr ys \<longleftrightarrow> list_all2 (\<lambda>x y. f x = Inr y) xs ys"
proof (induction xs arbitrary: ys)
  case Nil
  then show ?case by auto
next
  case (Cons x xs)
  then show ?case by (cases ys) auto
qed

lemma mapR_Inr_length: "mapR f xs = Inr ys \<Longrightarrow> length ys = length xs"
  by (auto simp: mapR_eq_Inr dest: list_all2_lengthD)

lemma mapR_Inr_map: "(\<And>x. x \<in> set xs \<Longrightarrow> f x = Inr (g x)) \<Longrightarrow> mapR f xs = Inr (map g xs)"
  by (induction xs) auto

lemma mapR_Inr_mem:
  assumes "mapR f xs = Inr ys" and "y \<in> set ys"
  shows "\<exists>x \<in> set xs. f x = Inr y"
proof -
  from assms(2) obtain i where "i < length ys" and "y = ys ! i"
    by (auto simp: in_set_conv_nth)
  with assms(1) show ?thesis
    by (intro bexI [of _ "xs ! i"]) (auto simp: mapR_eq_Inr list_all2_conv_all_nth)
qed

lemma mapR_Inr_ex:
  assumes "\<And>x. x \<in> set xs \<Longrightarrow> \<exists>y. f x = Inr y"
  shows "\<exists>ys. mapR f xs = Inr ys"
  using assms by (induction xs) fastforce+

lemma mapR_Inl_mem: "mapR f xs = Inl e \<Longrightarrow> \<exists>x \<in> set xs. f x = Inl e"
  by (induction xs) auto

lemma list_all2_ex: "list_all2 P xs ys \<Longrightarrow> y \<in> set ys \<Longrightarrow> \<exists>x \<in> set xs. P x y"
  by (induction rule: list_all2_induct) auto

section \<open>Strings\<close>

text \<open>\<open>str.isspace\<close> on Latin-1 code points, and \<open>str.strip\<close>.\<close>

definition py_isspace :: "char \<Rightarrow> bool" where
  "py_isspace c = (let n = (of_char c :: nat) in
     9 \<le> n \<and> n \<le> 13 \<or> 28 \<le> n \<and> n \<le> 32 \<or> n = 133 \<or> n = 160)"

definition py_strip :: "string \<Rightarrow> string" where
  "py_strip s = rev (dropWhile py_isspace (rev (dropWhile py_isspace s)))"

lemma py_strip_Nil_iff: "py_strip s = [] \<longleftrightarrow> (\<forall>c \<in> set s. py_isspace c)"
proof -
  have "py_strip s = [] \<longleftrightarrow> (\<forall>c \<in> set (dropWhile py_isspace s). py_isspace c)"
    by (simp add: py_strip_def dropWhile_eq_Nil_conv)
  also have "\<dots> \<longleftrightarrow> (\<forall>c \<in> set s. py_isspace c)"
    by (metis dropWhile_eq_Nil_conv hd_dropWhile hd_in_set set_dropWhileD)
  finally show ?thesis .
qed

lemma py_strip_empty [simp]: "py_strip [] = []"
  by (simp add: py_strip_def)

text \<open>\<open>bytes\<close>: numbers below 256.\<close>

type_synonym bytes = "nat list"

section \<open>Consecutive pairs\<close>

text \<open>\<open>itertools.pairwise\<close>.\<close>

definition pairwise :: "'a list \<Rightarrow> ('a \<times> 'a) list" where
  "pairwise xs = zip xs (tl xs)"

lemma pairwise_simps [simp]:
  "pairwise [] = []"
  "pairwise [x] = []"
  "pairwise (x # y # zs) = (x, y) # pairwise (y # zs)"
  by (simp_all add: pairwise_def)

lemma length_pairwise [simp]: "length (pairwise xs) = length xs - 1"
  by (simp add: pairwise_def)

lemma pairwise_nth [simp]: "i < length xs - 1 \<Longrightarrow> pairwise xs ! i = (xs ! i, xs ! Suc i)"
  by (simp add: pairwise_def nth_tl)

lemma set_pairwise: "set (pairwise xs) = {(xs ! i, xs ! Suc i) | i. Suc i < length xs}"
proof -
  have "set (pairwise xs) = {pairwise xs ! i | i. i < length xs - 1}"
    by (simp add: set_conv_nth)
  also have "\<dots> = {(xs ! i, xs ! Suc i) | i. Suc i < length xs}"
    by (intro Collect_cong iff_exI) auto
  finally show ?thesis .
qed

lemma pairwise_mem:
  assumes "(a, b) \<in> set (pairwise xs)"
  shows "a \<in> set xs" and "b \<in> set xs"
  using assms by (auto simp: set_pairwise)

section \<open>Dictionaries in insertion order\<close>

lemma AList_update_map_of [simp]: "map_of (AList.update k v d) = (map_of d)(k \<mapsto> v)"
  by (rule update_conv')

lemma AList_update_values:
  "v' \<in> snd ` set (AList.update k v d) \<Longrightarrow> v' = v \<or> v' \<in> snd ` set d"
proof (induction d)
  case Nil
  then show ?case by simp
next
  case (Cons p d)
  then show ?case by (cases p) (auto split: if_splits)
qed

lemma map_of_values: "distinct (map fst d) \<Longrightarrow> snd ` set d = ran (map_of d)"
  by (simp add: ran_distinct)

section \<open>Canonical orderings\<close>

text \<open>
  The engine sorts by a composite key wherever an order becomes visible (tokens, ledger entries,
  fused events, annotations). The contract of such an ordering: it rearranges its input and the
  keys come out sorted. What the clients need follows from the contract: the result depends only
  on the collection, not on the order it was handed over in, once the keys are distinct (NFR-015).
\<close>

locale canonical_order =
  fixes key :: "'a \<Rightarrow> 'k::linorder"
    and ordered :: "'a list \<Rightarrow> 'a list"
  assumes mset_ordered: "mset (ordered xs) = mset xs"
    and sorted_ordered: "sorted (map key (ordered xs))"
begin

lemma set_ordered: "set (ordered xs) = set xs"
  by (metis mset_ordered set_mset_mset)

lemma length_ordered: "length (ordered xs) = length xs"
  by (metis mset_ordered size_mset)

lemma ordered_Nil_iff: "ordered xs = [] \<longleftrightarrow> xs = []"
  by (metis length_0_conv length_ordered)

lemma ordered_unique:
  assumes "mset ys = mset xs" and "sorted (map key ys)" and "inj_on key (set xs)"
  shows "ordered xs = ys"
proof -
  have "sort_key key xs = ordered xs"
    by (rule sort_key_inj_key_eq) (simp_all add: mset_ordered sorted_ordered assms(3))
  moreover have "sort_key key xs = ys"
    by (rule sort_key_inj_key_eq) (simp_all add: assms)
  ultimately show ?thesis by simp
qed

lemma ordered_perm:
  assumes "mset xs = mset ys" and "inj_on key (set xs)"
  shows "ordered xs = ordered ys"
  by (rule ordered_unique) (simp_all add: assms mset_ordered sorted_ordered)

end

lemma canonical_order_sort_key: "canonical_order key (sort_key key)"
  by unfold_locales simp_all

text \<open>Sorting by a key, with a filter: stability keeps the filtered elements in sorted order.\<close>

lemma filter_sort_key: "filter P (sort_key f xs) = sort_key f (filter P xs)"
  by (induction xs) (simp_all add: filter_insort filter_insort_triv)

section \<open>Lists\<close>

lemma sum_list_eq_0_iff_int:
  "(\<And>x. x \<in> set xs \<Longrightarrow> (0::int) \<le> f x) \<Longrightarrow> 0 \<le> sum_list (map f xs)"
  by (rule sum_list_nonneg) auto

lemma filter_set_eq_imp_prefix_mono: "prefix xs ys \<Longrightarrow> set xs \<subseteq> set ys"
  by (rule set_mono_prefix)

end
