(* ===== verification/Timeline.thy ===== *)
theory Timeline
  imports Prelude
begin

text \<open>
  The shared monotonic timeline (\<open>domain/shared/timeline.py\<close>): points on the session clock in
  integer milliseconds, half-open intervals with a declared tolerance, and the three relations
  the rest of the engine uses between intervals (overlap, gap, containment of an instant).
\<close>

section \<open>Points\<close>

text \<open>\<open>MkTime\<close> builds the value, \<open>MonotonicTime\<close> is the constructor with its check. The dataclass
  is ordered (\<open>order=True\<close>), so the type is an instance of \<open>linorder\<close>.\<close>

datatype monotonic_time = MkTime (mt_ms: int)

definition MonotonicTime :: "int \<Rightarrow> monotonic_time result" where
  "MonotonicTime ms = (if ms < 0 then Inl (DomainError InvalidInterval) else Inr (MkTime ms))"

definition mt_plus :: "monotonic_time \<Rightarrow> int \<Rightarrow> monotonic_time result" where
  "mt_plus t delta_ms = MonotonicTime (mt_ms t + delta_ms)"

definition distance_to :: "monotonic_time \<Rightarrow> monotonic_time \<Rightarrow> int" where
  "distance_to t other = \<bar>mt_ms t - mt_ms other\<bar>"

instantiation monotonic_time :: linorder
begin

definition less_eq_monotonic_time :: "monotonic_time \<Rightarrow> monotonic_time \<Rightarrow> bool" where
  "less_eq_monotonic_time a b \<longleftrightarrow> mt_ms a \<le> mt_ms b"

definition less_monotonic_time :: "monotonic_time \<Rightarrow> monotonic_time \<Rightarrow> bool" where
  "less_monotonic_time a b \<longleftrightarrow> mt_ms a < mt_ms b"

instance
  by standard
    (auto simp: less_eq_monotonic_time_def less_monotonic_time_def monotonic_time.expand)

end

lemma MonotonicTime_Inr [simp]: "MonotonicTime ms = Inr t \<longleftrightarrow> 0 \<le> ms \<and> t = MkTime ms"
  by (auto simp: MonotonicTime_def)

lemma MonotonicTime_Inl [simp]:
  "MonotonicTime ms = Inl e \<longleftrightarrow> ms < 0 \<and> e = DomainError InvalidInterval"
  by (auto simp: MonotonicTime_def)

section \<open>Intervals\<close>

definition DEFAULT_TOLERANCE_MS :: int where
  "DEFAULT_TOLERANCE_MS = 250"

record interval =
  iv_start :: monotonic_time
  iv_end :: monotonic_time
  iv_tolerance_ms :: int

definition Interval :: "monotonic_time \<Rightarrow> monotonic_time \<Rightarrow> int \<Rightarrow> interval result" where
  "Interval start fin tolerance_ms =
     (if mt_ms fin < mt_ms start then Inl (DomainError InvalidInterval)
      else if tolerance_ms < 0 then Inl (DomainError InvalidInterval)
      else Inr \<lparr>iv_start = start, iv_end = fin, iv_tolerance_ms = tolerance_ms\<rparr>)"

definition interval_of_tol :: "int \<Rightarrow> int \<Rightarrow> int \<Rightarrow> interval result" where
  "interval_of_tol start_ms end_ms tolerance_ms =
     bindR (MonotonicTime start_ms) (\<lambda>s. bindR (MonotonicTime end_ms) (\<lambda>e.
       Interval s e tolerance_ms))"

text \<open>\<open>Interval.of\<close> with the default tolerance.\<close>

definition interval_of :: "int \<Rightarrow> int \<Rightarrow> interval result" where
  "interval_of start_ms end_ms = interval_of_tol start_ms end_ms DEFAULT_TOLERANCE_MS"

abbreviation start_ms :: "interval \<Rightarrow> int" where
  "start_ms i \<equiv> mt_ms (iv_start i)"

abbreviation end_ms :: "interval \<Rightarrow> int" where
  "end_ms i \<equiv> mt_ms (iv_end i)"

definition duration_ms :: "interval \<Rightarrow> int" where
  "duration_ms i = end_ms i - start_ms i"

definition midpoint :: "interval \<Rightarrow> monotonic_time result" where
  "midpoint i = MonotonicTime (start_ms i + duration_ms i div 2)"

definition overlaps :: "interval \<Rightarrow> interval \<Rightarrow> bool" where
  "overlaps a b \<longleftrightarrow> start_ms a < end_ms b \<and> start_ms b < end_ms a"

definition gap_to :: "interval \<Rightarrow> interval \<Rightarrow> int" where
  "gap_to a b =
     (if overlaps a b then 0
      else if end_ms a \<le> start_ms b then start_ms b - end_ms a
      else start_ms a - end_ms b)"

definition contains :: "interval \<Rightarrow> monotonic_time \<Rightarrow> bool" where
  "contains i instant \<longleftrightarrow> start_ms i \<le> mt_ms instant \<and> mt_ms instant < end_ms i"

text \<open>What \<open>__post_init__\<close> guarantees of every interval the engine holds.\<close>

definition wf_interval :: "interval \<Rightarrow> bool" where
  "wf_interval i \<longleftrightarrow> 0 \<le> start_ms i \<and> start_ms i \<le> end_ms i \<and> 0 \<le> iv_tolerance_ms i"

lemma interval_of_tol_Inr:
  "interval_of_tol s e tol = Inr i \<longleftrightarrow>
     0 \<le> s \<and> s \<le> e \<and> 0 \<le> tol \<and>
     i = \<lparr>iv_start = MkTime s, iv_end = MkTime e, iv_tolerance_ms = tol\<rparr>"
  by (auto simp: interval_of_tol_def Interval_def)

lemma interval_of_tol_Inl:
  "interval_of_tol s e tol = Inl x \<longleftrightarrow>
     (s < 0 \<or> e < s \<or> tol < 0) \<and> x = DomainError InvalidInterval"
  by (auto simp: interval_of_tol_def Interval_def split: if_splits)

lemma interval_of_Inr:
  "interval_of s e = Inr i \<longleftrightarrow>
     0 \<le> s \<and> s \<le> e \<and>
     i = \<lparr>iv_start = MkTime s, iv_end = MkTime e, iv_tolerance_ms = 250\<rparr>"
  by (auto simp: interval_of_def interval_of_tol_Inr DEFAULT_TOLERANCE_MS_def)

lemma interval_of_Inl:
  "interval_of s e = Inl x \<longleftrightarrow> (s < 0 \<or> e < s) \<and> x = DomainError InvalidInterval"
  by (auto simp: interval_of_def interval_of_tol_Inl DEFAULT_TOLERANCE_MS_def)

lemma interval_of_wf: "interval_of s e = Inr i \<Longrightarrow> wf_interval i"
  by (auto simp: interval_of_Inr wf_interval_def)

lemma interval_of_ends:
  "interval_of s e = Inr i \<Longrightarrow> start_ms i = s"
  "interval_of s e = Inr i \<Longrightarrow> end_ms i = e"
  by (auto simp: interval_of_Inr)

lemma wf_interval_Interval:
  "0 \<le> mt_ms s \<Longrightarrow> Interval s e tol = Inr i \<Longrightarrow> wf_interval i"
  by (auto simp: Interval_def wf_interval_def split: if_splits)

lemma overlaps_sym: "overlaps a b \<longleftrightarrow> overlaps b a"
  by (auto simp: overlaps_def)

text \<open>An overlap is an instant inside both spans.\<close>

lemma overlaps_iff_common_instant: "overlaps a b \<longleftrightarrow> (\<exists>t. contains a t \<and> contains b t)"
  if "wf_interval a" "wf_interval b" "start_ms a < end_ms a" "start_ms b < end_ms b"
proof
  assume "overlaps a b"
  then have "contains a (MkTime (max (start_ms a) (start_ms b)))"
    and "contains b (MkTime (max (start_ms a) (start_ms b)))"
    using that by (auto simp: overlaps_def contains_def)
  then show "\<exists>t. contains a t \<and> contains b t" by blast
qed (auto simp: overlaps_def contains_def)

lemma gap_to_sym:
  assumes "wf_interval a" and "wf_interval b"
  shows "gap_to a b = gap_to b a"
  using assms by (auto simp: gap_to_def overlaps_def wf_interval_def)

lemma gap_to_nonneg:
  assumes "wf_interval a" and "wf_interval b"
  shows "0 \<le> gap_to a b"
  using assms by (auto simp: gap_to_def overlaps_def wf_interval_def)

text \<open>The gap in closed form: the distance between the nearer boundaries, never negative.\<close>

lemma gap_to_max:
  assumes "wf_interval a" and "wf_interval b"
  shows "gap_to a b = max 0 (max (start_ms b - end_ms a) (start_ms a - end_ms b))"
  using assms by (auto simp: gap_to_def overlaps_def wf_interval_def)

lemma gap_to_0_iff:
  assumes "wf_interval a" and "wf_interval b"
  shows "gap_to a b = 0 \<longleftrightarrow> start_ms b \<le> end_ms a \<and> start_ms a \<le> end_ms b"
  using assms by (auto simp: gap_to_max)

lemma midpoint_inside:
  assumes "wf_interval i"
  shows "\<exists>t. midpoint i = Inr t \<and> start_ms i \<le> mt_ms t \<and> mt_ms t \<le> end_ms i"
proof -
  have "0 \<le> duration_ms i div 2" and "duration_ms i div 2 \<le> duration_ms i"
    using assms by (auto simp: wf_interval_def duration_ms_def)
  then show ?thesis
    using assms by (auto simp: midpoint_def wf_interval_def duration_ms_def)
qed

end
