(* ===== verification/Measurement.thy ===== *)
theory Measurement
  imports Prelude
begin

text \<open>
  Calibrated confidence (\<open>domain/shared/confidence.py\<close>) and indicators that are either measured
  or unavailable with a reason (\<open>domain/shared/measurement.py\<close>).
\<close>

section \<open>Confidence\<close>

datatype calibration_state = RAW | CALIBRATED

fun calibration_value :: "calibration_state \<Rightarrow> string" where
  "calibration_value RAW = ''raw''"
| "calibration_value CALIBRATED = ''calibrated''"

datatype confidence = MkConfidence (conf_value: rat) (conf_state: calibration_state)

definition Confidence :: "rat \<Rightarrow> calibration_state \<Rightarrow> confidence result" where
  "Confidence v state =
     (if \<not> (0 \<le> v \<and> v \<le> 1) then Inl (DomainError InvalidConfidence)
      else Inr (MkConfidence v state))"

definition confidence_calibrated :: "rat \<Rightarrow> confidence result" where
  "confidence_calibrated v = Confidence v CALIBRATED"

definition confidence_raw :: "rat \<Rightarrow> confidence result" where
  "confidence_raw v = Confidence v RAW"

definition is_calibrated :: "confidence \<Rightarrow> bool" where
  "is_calibrated c \<longleftrightarrow> conf_state c = CALIBRATED"

definition meets :: "confidence \<Rightarrow> rat \<Rightarrow> bool" where
  "meets c threshold \<longleftrightarrow> is_calibrated c \<and> conf_value c \<ge> threshold"

definition wf_confidence :: "confidence \<Rightarrow> bool" where
  "wf_confidence c \<longleftrightarrow> 0 \<le> conf_value c \<and> conf_value c \<le> 1"

lemma Confidence_Inr [simp]:
  "Confidence v s = Inr c \<longleftrightarrow> 0 \<le> v \<and> v \<le> 1 \<and> c = MkConfidence v s"
  by (auto simp: Confidence_def)

lemma Confidence_Inl [simp]:
  "Confidence v s = Inl e \<longleftrightarrow> (v < 0 \<or> 1 < v) \<and> e = DomainError InvalidConfidence"
  by (auto simp: Confidence_def)

lemma confidence_constructors_wf:
  "Confidence v s = Inr c \<Longrightarrow> wf_confidence c"
  "confidence_raw v = Inr c \<Longrightarrow> wf_confidence c"
  "confidence_calibrated v = Inr c \<Longrightarrow> wf_confidence c"
  by (auto simp: wf_confidence_def confidence_raw_def confidence_calibrated_def)

lemma raw_never_meets: "conf_state c = RAW \<Longrightarrow> \<not> meets c t"
  by (simp add: meets_def is_calibrated_def)

lemma meets_antimono: "meets c t \<Longrightarrow> t' \<le> t \<Longrightarrow> meets c t'"
  by (simp add: meets_def)

section \<open>Indicators\<close>

datatype unavailability_reason =
    MODALITY_NOT_CAPTURED
  | QUALITY_BELOW_THRESHOLD
  | SUBJECT_NOT_OBSERVABLE
  | INPUT_GAP
  | PROCESSING_FAILED
  | CONFIDENCE_BELOW_THRESHOLD
  | INSUFFICIENT_OBSERVATION
  | EVIDENCE_DELETED_REASON

fun reason_value :: "unavailability_reason \<Rightarrow> string" where
  "reason_value MODALITY_NOT_CAPTURED = ''modality_not_captured''"
| "reason_value QUALITY_BELOW_THRESHOLD = ''quality_below_threshold''"
| "reason_value SUBJECT_NOT_OBSERVABLE = ''subject_not_observable''"
| "reason_value INPUT_GAP = ''input_gap''"
| "reason_value PROCESSING_FAILED = ''processing_failed''"
| "reason_value CONFIDENCE_BELOW_THRESHOLD = ''confidence_below_threshold''"
| "reason_value INSUFFICIENT_OBSERVATION = ''insufficient_observation''"
| "reason_value EVIDENCE_DELETED_REASON = ''evidence_deleted''"

text \<open>The two classes \<open>Measured\<close> and \<open>Unavailable\<close>, and their union \<open>Indicator\<close>.\<close>

datatype indicator =
    Measured (measured_value: rat) (measured_confidence: confidence) (measured_unit: string)
  | Unavailable (unavailable_reason: unavailability_reason) (unavailable_detail: string)

fun indicator_is_available :: "indicator \<Rightarrow> bool" where
  "indicator_is_available (Measured _ _ _) = True"
| "indicator_is_available (Unavailable _ _) = False"

text \<open>\<open>Unavailable.__getattr__\<close>: the attributes that do not exist; two of them raise the domain
  error, the rest an \<open>AttributeError\<close>.\<close>

definition unavailable_getattr :: "string \<Rightarrow> exn" where
  "unavailable_getattr name =
     (if name \<in> {''value'', ''confidence''} then DomainError FabricatedValue
      else OtherError ''AttributeError'')"

fun read_value :: "indicator \<Rightarrow> rat result" where
  "read_value (Measured v _ _) = Inr v"
| "read_value (Unavailable _ _) = Inl (unavailable_getattr ''value'')"

fun value_or_raise :: "indicator \<Rightarrow> rat result" where
  "value_or_raise (Unavailable _ _) = Inl (DomainError FabricatedValue)"
| "value_or_raise (Measured v _ _) = Inr v"

lemma value_or_raise_available:
  "(\<exists>v. value_or_raise i = Inr v) \<longleftrightarrow> indicator_is_available i"
  by (cases i) auto

lemma read_value_eq: "read_value i = value_or_raise i"
  by (cases i) (simp_all add: unavailable_getattr_def)

end
