(* ===== verification/Provenance.thy ===== *)
theory Provenance
  imports Prelude
begin

text \<open>
  Typed identifiers (\<open>domain/shared/identifiers.py\<close>) and provenance with its semantic versions
  (\<open>domain/shared/provenance.py\<close>), down to Python's \<open>int(str)\<close>, \<open>str.split\<close> and decimal printing,
  which \<open>SemanticVersion.parse\<close> and \<open>__str__\<close> use.
\<close>

section \<open>Identifiers\<close>

text \<open>One type per subclass of \<open>Identifier\<close>; the check of \<open>__post_init__\<close> is shared.\<close>

datatype application_id = ApplicationId (application_id_value: string)
datatype tenant_id = TenantId (tenant_id_value: string)
datatype api_key_id = ApiKeyId (api_key_id_value: string)
datatype session_id = SessionId (session_id_value: string)
datatype run_id = RunId (run_id_value: string)
datatype event_id = EventId (event_id_value: string)
datatype token_id = TokenId (token_id_value: string)
datatype evidence_ref = EvidenceRef (evidence_ref_value: string)
datatype model_version_id = ModelVersionId (model_version_id_value: string)
datatype configuration_snapshot_id = ConfigurationSnapshotId (configuration_snapshot_id_value: string)
datatype message_id = MessageId (message_id_value: string)

definition Identifier :: "(string \<Rightarrow> 'i) \<Rightarrow> string \<Rightarrow> 'i result" where
  "Identifier con v =
     (if v = [] \<or> py_strip v = [] then Inl (DomainError InvalidIdentifier) else Inr (con v))"

lemma Identifier_Inr: "Identifier con v = Inr i \<longleftrightarrow> (\<exists>c \<in> set v. \<not> py_isspace c) \<and> i = con v"
  by (auto simp: Identifier_def py_strip_Nil_iff)

lemma Identifier_nonspace_prefix:
  "\<not> py_isspace c \<Longrightarrow> Identifier con (c # v) = Inr (con (c # v))"
  by (auto simp: Identifier_Inr)

section \<open>Python integers as text\<close>

definition digit_val :: "char \<Rightarrow> int option" where
  "digit_val c = (let n = (of_char c :: int) in if 48 \<le> n \<and> n \<le> 57 then Some (n - 48) else None)"

text \<open>The digits of \<open>int(str)\<close>: decimal digits with single underscores between them. The flag
  says that the previous character was a digit.\<close>

fun int_digits :: "bool \<Rightarrow> int \<Rightarrow> string \<Rightarrow> int option" where
  "int_digits prev acc [] = (if prev then Some acc else None)"
| "int_digits prev acc (c # cs) =
     (case digit_val c of
        Some d \<Rightarrow> int_digits True (10 * acc + d) cs
      | None \<Rightarrow> if c = CHR ''_'' \<and> prev then int_digits False acc cs else None)"

definition py_int :: "string \<Rightarrow> int option" where
  "py_int s =
     (case py_strip s of
        [] \<Rightarrow> None
      | c # cs \<Rightarrow>
          if c = CHR ''-'' then map_option uminus (int_digits False 0 cs)
          else if c = CHR ''+'' then int_digits False 0 cs
          else int_digits False 0 (c # cs))"

fun show_nat :: "nat \<Rightarrow> string" where
  "show_nat n =
     (if n < 10 then [char_of (48 + n)] else show_nat (n div 10) @ [char_of (48 + n mod 10)])"

declare show_nat.simps [simp del]

definition show_int :: "int \<Rightarrow> string" where
  "show_int i = (if i < 0 then CHR ''-'' # show_nat (nat (- i)) else show_nat (nat i))"

text \<open>\<open>str.split(sep)\<close> for a one-character separator.\<close>

fun split_on :: "char \<Rightarrow> string \<Rightarrow> string list" where
  "split_on c [] = [[]]"
| "split_on c (x # xs) =
     (if x = c then [] # split_on c xs
      else (case split_on c xs of [] \<Rightarrow> [[x]] | y # ys \<Rightarrow> (x # y) # ys))"

lemma split_on_not_Nil [simp]: "split_on c xs \<noteq> []"
  by (induction xs) (auto split: list.splits)

lemma split_on_no_sep: "c \<notin> set xs \<Longrightarrow> split_on c xs = [xs]"
  by (induction xs) auto

lemma split_on_append_sep:
  "c \<notin> set xs \<Longrightarrow> split_on c (xs @ c # ys) = xs # split_on c ys"
  by (induction xs) auto

lemma digit_val_digit: "d < 10 \<Longrightarrow> digit_val (char_of (48 + d :: nat)) = Some (int d)"
proof -
  assume "d < 10"
  then have "(of_char (char_of (48 + d :: nat)) :: nat) = 48 + d"
    by (simp add: of_char_of)
  then have "(of_char (char_of (48 + d :: nat)) :: int) = 48 + int d"
    by (metis of_nat_add of_nat_numeral of_nat_of_char)
  then show ?thesis using \<open>d < 10\<close> by (simp add: digit_val_def)
qed

lemma show_nat_chars:
  "c \<in> set (show_nat n) \<Longrightarrow> \<exists>d < 10. c = char_of (48 + d :: nat)"
proof (induction n rule: show_nat.induct)
  case (1 n)
  show ?case
  proof (cases "n < 10")
    case True
    with "1.prems" show ?thesis by (auto simp: show_nat.simps [of n])
  next
    case False
    with "1.prems" have "c \<in> set (show_nat (n div 10)) \<or> c = char_of (48 + n mod 10)"
      by (auto simp: show_nat.simps [of n])
    with False "1.IH" show ?thesis
      by (metis mod_less_divisor zero_less_numeral)
  qed
qed

lemma show_nat_digit: "c \<in> set (show_nat n) \<Longrightarrow> \<exists>d. digit_val c = Some d"
  using show_nat_chars digit_val_digit by blast

lemma show_nat_not_Nil [simp]: "show_nat n \<noteq> []"
  by (subst show_nat.simps) simp

lemma int_digits_show_nat:
  "int_digits prev acc (show_nat n @ ys) =
     int_digits True (acc * 10 ^ length (show_nat n) + int n) ys"
proof (induction n arbitrary: prev acc ys rule: show_nat.induct)
  case (1 n)
  show ?case
  proof (cases "n < 10")
    case True
    then show ?thesis by (simp add: show_nat.simps [of n] digit_val_digit mult.commute)
  next
    case False
    have split: "int n = int (n div 10) * 10 + int (n mod 10)"
      by (metis div_mult_mod_eq of_nat_add of_nat_mult of_nat_numeral)
    have "n mod 10 < 10" by simp
    with False show ?thesis
      by (simp add: show_nat.simps [of n] "1.IH" digit_val_digit split algebra_simps
          del: of_nat_mod of_nat_div)
  qed
qed

lemma show_nat_no_space: "c \<in> set (show_nat n) \<Longrightarrow> \<not> py_isspace c"
  by (drule show_nat_chars) (auto simp: py_isspace_def of_char_of Let_def)

lemma py_isspace_dot [simp]: "\<not> py_isspace CHR ''.''" "\<not> py_isspace CHR ''-''"
  by (simp_all add: py_isspace_def)

lemma dropWhile_none: "(\<And>c. c \<in> set xs \<Longrightarrow> \<not> P c) \<Longrightarrow> dropWhile P xs = xs"
  by (cases xs) auto

lemma py_strip_no_space: "(\<And>c. c \<in> set xs \<Longrightarrow> \<not> py_isspace c) \<Longrightarrow> py_strip xs = xs"
proof -
  assume "\<And>c. c \<in> set xs \<Longrightarrow> \<not> py_isspace c"
  then have "dropWhile py_isspace xs = xs" and "dropWhile py_isspace (rev xs) = rev xs"
    by (auto intro: dropWhile_none)
  then show ?thesis by (simp add: py_strip_def)
qed

lemma digit_val_sign: "digit_val CHR ''-'' = None" "digit_val CHR ''+'' = None"
  "digit_val CHR ''.'' = None"
  by (simp_all add: digit_val_def)

lemma py_int_show_nat: "py_int (show_nat n) = Some (int n)"
proof -
  have strip: "py_strip (show_nat n) = show_nat n"
    by (rule py_strip_no_space) (rule show_nat_no_space)
  obtain c cs where cs: "show_nat n = c # cs"
    by (cases "show_nat n") auto
  then obtain d where "digit_val c = Some d"
    using show_nat_digit [of c n] by auto
  then have "c \<noteq> CHR ''-''" and "c \<noteq> CHR ''+''"
    by (auto simp: digit_val_sign)
  with strip cs have "py_int (show_nat n) = int_digits False 0 (show_nat n @ [])"
    by (simp add: py_int_def del: int_digits.simps)
  then show ?thesis by (simp only: int_digits_show_nat) simp
qed

section \<open>Semantic versions\<close>

datatype semantic_version = MkVersion (major: int) (minor: int) (patch: int)

definition SemanticVersion :: "int \<Rightarrow> int \<Rightarrow> int \<Rightarrow> semantic_version result" where
  "SemanticVersion mj mn pt =
     (if mj < 0 \<or> mn < 0 \<or> pt < 0 then Inl (DomainError InvalidIdentifier)
      else Inr (MkVersion mj mn pt))"

definition version_parse :: "string \<Rightarrow> semantic_version result" where
  "version_parse txt =
     (case split_on CHR ''.'' (py_strip txt) of
        [a, b, c] \<Rightarrow>
          (case (py_int a, py_int b, py_int c) of
             (Some mj, Some mn, Some pt) \<Rightarrow> SemanticVersion mj mn pt
           | _ \<Rightarrow> Inl (DomainError InvalidIdentifier))
      | _ \<Rightarrow> Inl (DomainError InvalidIdentifier))"

definition is_compatible_with :: "semantic_version \<Rightarrow> semantic_version \<Rightarrow> bool" where
  "is_compatible_with v other \<longleftrightarrow> major v = major other"

definition version_str :: "semantic_version \<Rightarrow> string" where
  "version_str v = show_int (major v) @ ''.'' @ show_int (minor v) @ ''.'' @ show_int (patch v)"

definition wf_version :: "semantic_version \<Rightarrow> bool" where
  "wf_version v \<longleftrightarrow> 0 \<le> major v \<and> 0 \<le> minor v \<and> 0 \<le> patch v"

instantiation semantic_version :: linorder
begin

definition less_eq_semantic_version :: "semantic_version \<Rightarrow> semantic_version \<Rightarrow> bool" where
  "less_eq_semantic_version a b \<longleftrightarrow> (major a, minor a, patch a) \<le> (major b, minor b, patch b)"

definition less_semantic_version :: "semantic_version \<Rightarrow> semantic_version \<Rightarrow> bool" where
  "less_semantic_version a b \<longleftrightarrow> (major a, minor a, patch a) < (major b, minor b, patch b)"

instance
  by standard
    (auto simp: less_eq_semantic_version_def less_semantic_version_def semantic_version.expand
       less_prod_def less_eq_prod_def)

end

lemma SemanticVersion_Inr:
  "SemanticVersion mj mn pt = Inr v \<longleftrightarrow> 0 \<le> mj \<and> 0 \<le> mn \<and> 0 \<le> pt \<and> v = MkVersion mj mn pt"
  by (auto simp: SemanticVersion_def)

lemma version_parse_wf: "version_parse txt = Inr v \<Longrightarrow> wf_version v"
  by (auto simp: version_parse_def wf_version_def SemanticVersion_Inr
      split: list.splits option.splits)

lemma show_int_chars: "c \<in> set (show_int i) \<Longrightarrow> \<not> py_isspace c \<and> c \<noteq> CHR ''.''"
  using show_nat_digit [of c] show_nat_no_space [of c]
  by (auto simp: show_int_def digit_val_sign split: if_splits)

lemma py_int_show_int: "py_int (show_int i) = Some i"
proof (cases "i < 0")
  case True
  have "py_strip (show_int i) = show_int i"
    by (rule py_strip_no_space) (simp add: show_int_chars)
  with True have "py_int (show_int i) = map_option uminus (int_digits False 0 (show_nat (nat (- i)) @ []))"
    by (simp add: py_int_def show_int_def del: int_digits.simps)
  with True show ?thesis by (simp only: int_digits_show_nat) simp
next
  case False
  then show ?thesis by (simp add: show_int_def py_int_show_nat)
qed

text \<open>
  Round trip of versions. Whatever its three numbers are, printing a version and parsing the
  text runs the constructor on exactly these numbers: a version of natural numbers comes back
  unchanged, and one with a negative number is refused.
\<close>

theorem version_roundtrip:
  "version_parse (version_str v) =
     (if 0 \<le> major v \<and> 0 \<le> minor v \<and> 0 \<le> patch v then Inr v
      else Inl (DomainError InvalidIdentifier))"
proof -
  have "py_strip (version_str v) = version_str v"
    by (rule py_strip_no_space) (auto simp: version_str_def dest: show_int_chars)
  moreover have dot: "CHR ''.'' \<notin> set (show_int i)" for i
    using show_int_chars by blast
  then have "split_on CHR ''.'' (version_str v) =
      [show_int (major v), show_int (minor v), show_int (patch v)]"
    by (simp add: version_str_def split_on_append_sep split_on_no_sep)
  ultimately show ?thesis
    by (simp add: version_parse_def py_int_show_int SemanticVersion_def)
qed

section \<open>Provenance\<close>

datatype modality = AUDIO | VIDEO | MULTIMODAL

fun modality_value :: "modality \<Rightarrow> string" where
  "modality_value AUDIO = ''audio''"
| "modality_value VIDEO = ''video''"
| "modality_value MULTIMODAL = ''multimodal''"

record provenance =
  prov_modality :: modality
  prov_model_version :: model_version_id
  prov_taxonomy_version :: semantic_version
  prov_configuration :: configuration_snapshot_id
  prov_evidence_ref :: evidence_ref

end
