(* ===== verification/Taxonomy.thy ===== *)
theory Taxonomy
  imports Provenance
begin

text \<open>
  The published observable taxonomy (\<open>domain/shared/taxonomy.py\<close>): an allowlist of speech and
  visual classes. The Spanish prose of an \<open>EventDefinition\<close> (display name, definition, examples) is
  documentation for annotators that no rule of the engine reads, and is not represented.
\<close>

section \<open>Enumerations\<close>

datatype event_priority = P0 | P1

datatype detection_basis = ACOUSTIC | LEXICAL | LEXICAL_CONTEXTUAL | TEMPORAL | GEOMETRIC

datatype speech_event_type =
    FILLED_PAUSE
  | LEXICAL_FILLER
  | REPETITION
  | FALSE_START
  | SELF_REPAIR
  | CUT_OFF
  | PROLONGATION
  | SILENT_PAUSE
  | UNINTELLIGIBLE

fun speech_type_value :: "speech_event_type \<Rightarrow> string" where
  "speech_type_value FILLED_PAUSE = ''filled_pause''"
| "speech_type_value LEXICAL_FILLER = ''lexical_filler''"
| "speech_type_value REPETITION = ''repetition''"
| "speech_type_value FALSE_START = ''false_start''"
| "speech_type_value SELF_REPAIR = ''self_repair''"
| "speech_type_value CUT_OFF = ''cut_off''"
| "speech_type_value PROLONGATION = ''prolongation''"
| "speech_type_value SILENT_PAUSE = ''silent_pause''"
| "speech_type_value UNINTELLIGIBLE = ''unintelligible''"

definition speech_event_types :: "speech_event_type list" where
  "speech_event_types =
     [FILLED_PAUSE, LEXICAL_FILLER, REPETITION, FALSE_START, SELF_REPAIR, CUT_OFF, PROLONGATION,
      SILENT_PAUSE, UNINTELLIGIBLE]"

datatype contextual_role = FILLER | SEMANTIC | DISCOURSE_MARKER | UNCERTAIN

fun role_value :: "contextual_role \<Rightarrow> string" where
  "role_value FILLER = ''filler''"
| "role_value SEMANTIC = ''semantic''"
| "role_value DISCOURSE_MARKER = ''discourse_marker''"
| "role_value UNCERTAIN = ''uncertain''"

definition contextual_roles :: "contextual_role list" where
  "contextual_roles = [FILLER, SEMANTIC, DISCOURSE_MARKER, UNCERTAIN]"

datatype visual_event_type =
    GAZE_TOWARD_CAMERA
  | GAZE_AWAY_FROM_CAMERA
  | FACE_VISIBILITY_LOSS
  | INSUFFICIENT_LIGHTING
  | INSUFFICIENT_FRAMING
  | POSTURE_DEVIATION
  | REPETITIVE_TORSO_MOVEMENT
  | SELF_TOUCH
  | REPETITIVE_HAND_MOVEMENT

fun visual_type_value :: "visual_event_type \<Rightarrow> string" where
  "visual_type_value GAZE_TOWARD_CAMERA = ''gaze_toward_camera''"
| "visual_type_value GAZE_AWAY_FROM_CAMERA = ''gaze_away_from_camera''"
| "visual_type_value FACE_VISIBILITY_LOSS = ''face_visibility_loss''"
| "visual_type_value INSUFFICIENT_LIGHTING = ''insufficient_lighting''"
| "visual_type_value INSUFFICIENT_FRAMING = ''insufficient_framing''"
| "visual_type_value POSTURE_DEVIATION = ''posture_deviation''"
| "visual_type_value REPETITIVE_TORSO_MOVEMENT = ''repetitive_torso_movement''"
| "visual_type_value SELF_TOUCH = ''self_touch''"
| "visual_type_value REPETITIVE_HAND_MOVEMENT = ''repetitive_hand_movement''"

definition visual_event_types :: "visual_event_type list" where
  "visual_event_types =
     [GAZE_TOWARD_CAMERA, GAZE_AWAY_FROM_CAMERA, FACE_VISIBILITY_LOSS, INSUFFICIENT_LIGHTING,
      INSUFFICIENT_FRAMING, POSTURE_DEVIATION, REPETITIVE_TORSO_MOVEMENT, SELF_TOUCH,
      REPETITIVE_HAND_MOVEMENT]"

datatype prosodic_indicator =
    MEAN_INTENSITY_DB
  | PITCH_MEAN_HZ
  | PITCH_STABILITY
  | SPEAKING_RATE_WPM
  | ARTICULATION_RATE_SPS
  | MEAN_PAUSE_DURATION_MS
  | VOICED_RATIO

fun prosodic_value :: "prosodic_indicator \<Rightarrow> string" where
  "prosodic_value MEAN_INTENSITY_DB = ''mean_intensity_db''"
| "prosodic_value PITCH_MEAN_HZ = ''pitch_mean_hz''"
| "prosodic_value PITCH_STABILITY = ''pitch_stability''"
| "prosodic_value SPEAKING_RATE_WPM = ''speaking_rate_wpm''"
| "prosodic_value ARTICULATION_RATE_SPS = ''articulation_rate_sps''"
| "prosodic_value MEAN_PAUSE_DURATION_MS = ''mean_pause_duration_ms''"
| "prosodic_value VOICED_RATIO = ''voiced_ratio''"

section \<open>Definitions\<close>

definition TAXONOMY_VERSION :: semantic_version where
  "TAXONOMY_VERSION = MkVersion 1 0 0"

record event_definition =
  ed_identifier :: string
  ed_modality :: modality
  ed_priority :: event_priority
  ed_basis :: detection_basis
  ed_display_name_es :: string
  ed_definition_es :: string
  ed_positive_example_es :: string
  ed_negative_examples_es :: "string list"

definition speech_entry ::
  "speech_event_type \<Rightarrow> event_priority \<Rightarrow> detection_basis \<Rightarrow> string \<Rightarrow> string \<Rightarrow> string \<Rightarrow>
   string list \<Rightarrow> speech_event_type \<times> event_definition"
where
  "speech_entry t priority basis display definition_es positive negatives =
     (t, \<lparr>ed_identifier = speech_type_value t, ed_modality = AUDIO, ed_priority = priority,
          ed_basis = basis, ed_display_name_es = display, ed_definition_es = definition_es,
          ed_positive_example_es = positive, ed_negative_examples_es = negatives\<rparr>)"

definition visual_entry ::
  "visual_event_type \<Rightarrow> event_priority \<Rightarrow> string \<Rightarrow> string \<Rightarrow> string \<Rightarrow>
   string list \<Rightarrow> visual_event_type \<times> event_definition"
where
  "visual_entry t priority display definition_es positive negatives =
     (t, \<lparr>ed_identifier = visual_type_value t, ed_modality = VIDEO, ed_priority = priority,
          ed_basis = GEOMETRIC, ed_display_name_es = display, ed_definition_es = definition_es,
          ed_positive_example_es = positive, ed_negative_examples_es = negatives\<rparr>)"

text \<open>
  The published texts, in Latin-1 (\<open>0xAB\<close> and \<open>0xBB\<close> are the quotation marks); the one em dash, in
  the positive example of \<open>CUT_OFF\<close>, is outside it and written as two hyphens.
\<close>

definition SPEECH_EVENT_DEFINITIONS :: "(speech_event_type \<times> event_definition) list" where
  "SPEECH_EVENT_DEFINITIONS =
     [
      speech_entry FILLED_PAUSE P0 ACOUSTIC
        ''Pausa llena''
        (''Vocalizacion sostenida sin contenido lexico que ocupa el lugar de una pausa. Se '' @
         ''decide por el sonido y su duracion, no por como el reconocedor la haya escrito: '' @
         ''el mismo sonido sale transcrito como '' @ [CHR 0x27] @ ''eh'' @ [CHR 0x27] @ '', '' @
         [CHR 0x27] @ ''he'' @ [CHR 0x27] @ '', '' @ [CHR 0x27] @ ''e'' @ [CHR 0x27] @ '' o '' @
         [CHR 0x27] @ ''y'' @ [CHR 0x27] @ '' segun el contexto.'')
        ([CHR 0xAB] @ ''El objetivo del proyecto eeeh consiste en...'' @ [CHR 0xBB])
        [(''Una conjuncion '' @ [CHR 0x27] @ ''y'' @ [CHR 0x27] @
          '' realmente pronunciada y breve entre dos sintagmas.''),
         (''El alargamiento de la vocal final de una palabra con contenido: eso es una '' @
          ''prolongacion, no una pausa llena.'')],
      speech_entry LEXICAL_FILLER P0 LEXICAL_CONTEXTUAL
        ''Muletilla lexica''
        (''Palabra o locucion existente en el idioma usada como apoyo de hesitacion en vez '' @
         ''de por su significado. Solo cuenta como muletilla cuando el rol contextual es '' @
         [CHR 0x27] @ ''filler'' @ [CHR 0x27] @
         ''; si aporta significado o estructura el discurso se anota con su rol '' @
         ''correspondiente y NO se cuenta como defecto.'')
        ([CHR 0xAB] @ ''Entonces este... pasamos al siguiente punto.'' @ [CHR 0xBB] @ '' ('' @
         [CHR 0x27] @ ''este'' @ [CHR 0x27] @ '' sin referente)'')
        [([CHR 0xAB] @ ''Este resultado contradice la hipotesis.'' @ [CHR 0xBB] @ '' ('' @
          [CHR 0x27] @ ''este'' @ [CHR 0x27] @ '' es demostrativo: rol semantico).''),
         ([CHR 0xAB] @ ''O sea, lo que quiero decir es otra cosa.'' @ [CHR 0xBB] @
          '' reformulando de verdad: rol marcador del discurso.'')],
      speech_entry REPETITION P0 LEXICAL_CONTEXTUAL
        ''Repeticion''
        (''Una o mas palabras contiguas repetidas sin que la repeticion aporte contenido '' @
         ''nuevo ni enfasis retorico deliberado.'')
        ([CHR 0xAB] @ ''Vamos a a analizar los datos.'' @ [CHR 0xBB])
        [(''Repeticion con funcion enfatica marcada por prosodia: '' @ [CHR 0xAB] @
          ''Es muy, muy importante.'' @ [CHR 0xBB]),
         ''Repeticion separada por una reformulacion: eso es autocorreccion.''],
      speech_entry FALSE_START P0 LEXICAL_CONTEXTUAL
        ''Falso inicio''
        (''Un fragmento de enunciado que se abandona antes de completarse y se sustituye '' @
         ''por otro que empieza de nuevo, sin corregir el anterior.'')
        ([CHR 0xAB] @ ''Los resultados mues... En el capitulo tres explico la metodologia.'' @
         [CHR 0xBB])
        [(''Una pausa larga en mitad de una oracion que despues SI se completa: eso es '' @
          ''pausa silenciosa.'')],
      speech_entry SELF_REPAIR P0 LEXICAL_CONTEXTUAL
        ''Autocorreccion''
        (''El hablante interrumpe lo que dice y lo reemplaza por una version corregida del '' @
         ''mismo contenido. Se distingue del falso inicio en que aqui SI hay relacion '' @
         ''entre lo abandonado y lo que sigue.'')
        ([CHR 0xAB] @ ''La muestra fue de treinta... perdon, de trescientos participantes.'' @
         [CHR 0xBB])
        [''Un cambio de tema sin relacion con lo anterior: eso es falso inicio.''],
      speech_entry CUT_OFF P0 ACOUSTIC
        ''Truncamiento''
        (''Una palabra interrumpida antes de terminarse, tipicamente con corte glotal '' @
         ''audible.'')
        ([CHR 0xAB] @ ''El resulta-- el hallazgo principal es...'' @ [CHR 0xBB])
        [''Una palabra corta pronunciada completa que suena parecida a un fragmento.''],
      speech_entry PROLONGATION P0 ACOUSTIC
        ''Alargamiento''
        (''Estiramiento anomalo de un segmento dentro de una palabra con contenido, por '' @
         ''encima de la duracion tipica de ese segmento para el hablante.'')
        ([CHR 0xAB] @ ''La metodologiiiia que empleamos...'' @ [CHR 0xBB])
        [''Alargamiento con funcion enfatica o de enumeracion.'',
         ''Una vocalizacion aislada sin palabra que la sostenga: eso es pausa llena.''],
      speech_entry SILENT_PAUSE P0 TEMPORAL
        ''Pausa silenciosa''
        (''Intervalo sin voz por encima del umbral configurado. El umbral es versionado y '' @
         ''configurable (FR-015): no es una constante del idioma, asi que cambiarlo cambia '' @
         ''la version de configuracion, no el codigo.'')
        ''Silencio de 1,8 s entre dos oraciones con el umbral en 700 ms.''
        [''La pausa respiratoria breve por debajo del umbral.'',
         ''El silencio anterior al inicio del habla y el posterior a su final.''],
      speech_entry UNINTELLIGIBLE P0 ACOUSTIC
        ''Fragmento ininteligible''
        (''Tramo con voz cuyo contenido no puede determinarse. Se marca; nunca se '' @
         ''reconstruye. US-002 lo exige de forma explicita: los fragmentos inciertos se '' @
         ''marcan en vez de inventarse.'')
        ''Un tramo de 900 ms tapado por ruido de la sala.''
        [(''Un tramo que el anotador SI entiende aunque el modelo falle: eso es un error '' @
          ''del modelo, no un fragmento ininteligible.'')]]"

definition VISUAL_EVENT_DEFINITIONS :: "(visual_event_type \<times> event_definition) list" where
  "VISUAL_EVENT_DEFINITIONS =
     [
      visual_entry GAZE_TOWARD_CAMERA P0
        ''Mirada hacia la camara''
        (''La direccion estimada de la mirada cae dentro del cono calibrado que apunta a '' @
         ''la camara. Es una ESTIMACION a partir de geometria facial: '' @ [CHR 0xA7] @
         ''5 prohibe presentarla como seguimiento ocular de grado hardware.'')
        ''El rostro y la mirada orientados al lente durante 4 s seguidos.''
        [(''Cabeza orientada al frente con la mirada claramente desviada: la orientacion de '' @
          ''cabeza no es mirada.'')],
      visual_entry GAZE_AWAY_FROM_CAMERA P0
        ''Mirada fuera de la camara''
        (''La direccion estimada de la mirada cae fuera del cono calibrado, con la '' @
         ''direccion de salida registrada cuando puede estimarse.'')
        ''Mirada dirigida hacia abajo, a los apuntes, durante 6 s.''
        [(''Perdida de deteccion del rostro: eso es perdida de visibilidad, no mirada '' @
          ''desviada.'')],
      visual_entry FACE_VISIBILITY_LOSS P0
        ''Perdida de visibilidad del rostro''
        (''El rostro deja de ser detectable con la confianza minima requerida. Es una '' @
         ''condicion de calidad, y su consecuencia es que los indicadores dependientes se '' @
         ''marcan como no disponibles con motivo, nunca en cero.'')
        ''El hablante se gira por completo hacia la pantalla proyectada.''
        [''Rostro visible pero mal iluminado: eso es iluminacion insuficiente.''],
      visual_entry INSUFFICIENT_LIGHTING P0
        ''Iluminacion insuficiente''
        (''La luminancia de la region facial cae por debajo del umbral que hace fiables '' @
         ''las estimaciones geometricas.'')
        ''Contraluz de ventana que deja el rostro en sombra.''
        [''Escena oscura con el rostro correctamente iluminado.''],
      visual_entry INSUFFICIENT_FRAMING P0
        ''Encuadre insuficiente''
        (''El encuadre no contiene la region corporal que un indicador necesita: sin '' @
         ''hombros no hay postura, sin manos no hay gesto.'')
        ''Plano cerradisimo que corta el encuadre por encima de los hombros.''
        [''Plano amplio y correcto con el hablante lejos pero completo.''],
      visual_entry POSTURE_DEVIATION P0
        ''Desviacion postural''
        (''Desviacion de la pose respecto de la postura de referencia capturada en la '' @
         ''calibracion del propio hablante. Es relativa a su linea base, no a una postura '' @
         ''ideal universal.'')
        ''Inclinacion sostenida del torso 20 grados respecto de la calibracion.''
        [(''Un cambio de postura unico y estable: eso es una nueva linea base, no una '' @
          ''desviacion sostenida.'')],
      visual_entry REPETITIVE_TORSO_MOVEMENT P0
        ''Movimiento repetitivo del torso''
        (''Oscilacion del torso con periodicidad detectable sostenida en el tiempo. Se '' @
         ''reporta el movimiento y su frecuencia; '' @ [CHR 0xA7] @
         ''5 prohibe etiquetarlo como nerviosismo.'')
        ''Balanceo lateral regular de ~0,8 Hz durante 12 s.''
        [''Un desplazamiento unico para acercarse a la pizarra.''],
      visual_entry SELF_TOUCH P1
        ''Autocontacto visible''
        (''Contacto sostenido de la mano con el rostro, el cabello, el cuello o la ropa. '' @
         ''FR-022 lo condiciona: solo se emite cuando el encuadre y la confianza superan '' @
         ''sus umbrales; en caso contrario no se emite nada.'')
        ''Mano apoyada en la nuca durante 3 s con manos y rostro visibles.''
        [''Mano que pasa por delante del rostro sin contacto.'',
         ''Gesto ilustrativo cerca de la cara.''],
      visual_entry REPETITIVE_HAND_MOVEMENT P1
        ''Movimiento repetitivo de manos''
        (''Movimiento de manos con periodicidad detectable y sin funcion ilustrativa '' @
         ''aparente en el discurso.'')
        ''Clic repetido de un boligrafo durante 8 s.''
        [''Gesticulacion variada acompanando la explicacion.'']]"

definition PROHIBITED_CONCEPTS :: "string list" where
  "PROHIBITED_CONCEPTS =
     [''emotion'', ''emotional'', ''mood'', ''affect'', ''sentiment'', ''anxiety'', ''anxious'',
      ''nervous'', ''nervousness'', ''stress'', ''stressed'', ''fear'', ''confidence_level'',
      ''insecurity'', ''insecure'', ''personality'', ''trait'', ''deception'', ''deceptive'',
      ''lying'', ''truthfulness'', ''diagnosis'', ''diagnostic'', ''disorder'', ''stutter'',
      ''stuttering'', ''pathology'', ''clinical'', ''symptom'']"

section \<open>The allowlist\<close>

text \<open>An enum called on a string: the member with that value, or \<open>ValueError\<close>.\<close>

definition enum_of :: "('e \<Rightarrow> string) \<Rightarrow> 'e list \<Rightarrow> string \<Rightarrow> 'e option" where
  "enum_of val members s = find (\<lambda>m. val m = s) members"

definition require_known_speech_event :: "string \<Rightarrow> speech_event_type result" where
  "require_known_speech_event identifier =
     (case enum_of speech_type_value speech_event_types identifier of
        Some t \<Rightarrow> Inr t
      | None \<Rightarrow> Inl (DomainError ProhibitedLabel))"

definition require_known_visual_event :: "string \<Rightarrow> visual_event_type result" where
  "require_known_visual_event identifier =
     (case enum_of visual_type_value visual_event_types identifier of
        Some t \<Rightarrow> Inr t
      | None \<Rightarrow> Inl (DomainError ProhibitedLabel))"

text \<open>\<open>definition_of\<close> dispatches on the enum it is handed; each side is a lookup that raises
  \<open>KeyError\<close> on a class without an entry.\<close>

definition speech_definition_of :: "speech_event_type \<Rightarrow> event_definition result" where
  "speech_definition_of t =
     (case map_of SPEECH_EVENT_DEFINITIONS t of Some d \<Rightarrow> Inr d | None \<Rightarrow> Inl KeyError)"

definition visual_definition_of :: "visual_event_type \<Rightarrow> event_definition result" where
  "visual_definition_of t =
     (case map_of VISUAL_EVENT_DEFINITIONS t of Some d \<Rightarrow> Inr d | None \<Rightarrow> Inl KeyError)"

definition p0_speech_events :: "speech_event_type list" where
  "p0_speech_events = map fst (filter (\<lambda>(t, d). ed_priority d = P0) SPEECH_EVENT_DEFINITIONS)"

lemma set_speech_event_types: "set speech_event_types = UNIV"
proof -
  have "t \<in> set speech_event_types" for t
    by (cases t) (simp_all add: speech_event_types_def)
  then show ?thesis by blast
qed

lemma set_visual_event_types: "set visual_event_types = UNIV"
proof -
  have "t \<in> set visual_event_types" for t
    by (cases t) (simp_all add: visual_event_types_def)
  then show ?thesis by blast
qed

lemma speech_type_value_inj: "speech_type_value a = speech_type_value b \<longleftrightarrow> a = b"
  by (cases a; cases b) simp_all

lemma visual_type_value_inj: "visual_type_value a = visual_type_value b \<longleftrightarrow> a = b"
  by (cases a; cases b) simp_all

lemma enum_of_Some: "enum_of val members s = Some m \<Longrightarrow> m \<in> set members \<and> val m = s"
  by (auto simp: enum_of_def find_Some_iff)

lemma enum_of_value:
  assumes "m \<in> set members" and "\<And>a b. val a = val b \<longleftrightarrow> a = b"
  shows "enum_of val members (val m) = Some m"
proof -
  have "enum_of val members (val m) \<noteq> None"
    using assms(1) by (auto simp: enum_of_def find_None_iff)
  then show ?thesis
    using enum_of_Some [of val members "val m"] assms(2) by auto
qed

lemma enum_of_None: "enum_of val members s = None \<longleftrightarrow> (\<forall>m \<in> set members. val m \<noteq> s)"
  by (auto simp: enum_of_def find_None_iff)

lemma require_known_speech_event_Inr:
  "require_known_speech_event s = Inr t \<longleftrightarrow> s = speech_type_value t"
  using enum_of_value [of t speech_event_types speech_type_value]
  by (auto simp: require_known_speech_event_def set_speech_event_types speech_type_value_inj
      dest: enum_of_Some split: option.splits)

lemma require_known_visual_event_Inr:
  "require_known_visual_event s = Inr t \<longleftrightarrow> s = visual_type_value t"
  using enum_of_value [of t visual_event_types visual_type_value]
  by (auto simp: require_known_visual_event_def set_visual_event_types visual_type_value_inj
      dest: enum_of_Some split: option.splits)

lemma speech_definitions_index:
  "map fst SPEECH_EVENT_DEFINITIONS = speech_event_types"
  "list_all (\<lambda>(t, d). ed_identifier d = speech_type_value t \<and> ed_modality d = AUDIO \<and> ed_priority d = P0)
     SPEECH_EVENT_DEFINITIONS"
  by (simp_all only: SPEECH_EVENT_DEFINITIONS_def speech_entry_def speech_event_types_def list.map
      list.pred_inject prod.case fst_conv event_definition.simps simp_thms)

lemma visual_definitions_index:
  "map fst VISUAL_EVENT_DEFINITIONS = visual_event_types"
  "list_all (\<lambda>(t, d). ed_identifier d = visual_type_value t \<and> ed_modality d = VIDEO)
     VISUAL_EVENT_DEFINITIONS"
  by (simp_all only: VISUAL_EVENT_DEFINITIONS_def visual_entry_def visual_event_types_def list.map
      list.pred_inject prod.case fst_conv event_definition.simps simp_thms)

lemma map_of_total:
  assumes "map fst ps = ks" "t \<in> set ks" "list_all (\<lambda>(k, d). Q k d) ps"
  shows "\<exists>d. map_of ps t = Some d \<and> Q t d"
proof -
  from assms(1,2) have "map_of ps t \<noteq> None" by (auto simp: map_of_eq_None_iff)
  then obtain d where "map_of ps t = Some d" by blast
  with assms(3) show ?thesis by (auto simp: list_all_iff dest: map_of_SomeD)
qed

lemma speech_definition_total:
  "\<exists>d. speech_definition_of t = Inr d \<and> ed_identifier d = speech_type_value t \<and> ed_modality d = AUDIO"
  using map_of_total [OF speech_definitions_index(1) _ speech_definitions_index(2), of t]
  by (auto simp: speech_definition_of_def set_speech_event_types)

lemma visual_definition_total:
  "\<exists>d. visual_definition_of t = Inr d \<and> ed_identifier d = visual_type_value t \<and> ed_modality d = VIDEO"
  using map_of_total [OF visual_definitions_index(1) _ visual_definitions_index(2), of t]
  by (auto simp: visual_definition_of_def set_visual_event_types)

lemma p0_speech_events_all: "set p0_speech_events = UNIV"
proof -
  have "p0_speech_events = map fst SPEECH_EVENT_DEFINITIONS"
    using speech_definitions_index(2)
    by (auto simp: p0_speech_events_def list_all_iff case_prod_unfold intro!: arg_cong [of _ _ "map fst"] filter_True)
  then show ?thesis by (simp add: speech_definitions_index(1) set_speech_event_types)
qed

end
