(* ===== verification/SessionClock.thy ===== *)
theory SessionClock
  imports Timeline
begin

text \<open>
  The session clock (\<open>domain/sessions/clock.py\<close>): captured milliseconds, which advance only while
  capture is running. The clock is immutable, every operation returns a new one. The contract of a
  pausable clock is a locale, and the session aggregate rests on its laws.
\<close>

section \<open>Operations\<close>

record session_clock =
  accumulated_ms :: int
  segment_started_at :: "int option"

definition SessionClock :: "int \<Rightarrow> int option \<Rightarrow> session_clock result" where
  "SessionClock acc started =
     (if acc < 0 then Inl (DomainError IllegalSessionTransition)
      else Inr \<lparr>accumulated_ms = acc, segment_started_at = started\<rparr>)"

definition fresh_clock :: session_clock where
  "fresh_clock = \<lparr>accumulated_ms = 0, segment_started_at = None\<rparr>"

definition is_running :: "session_clock \<Rightarrow> bool" where
  "is_running c \<longleftrightarrow> segment_started_at c \<noteq> None"

definition clock_start :: "session_clock \<Rightarrow> int \<Rightarrow> session_clock result" where
  "clock_start c wall_ms =
     (if is_running c then Inr c else SessionClock (accumulated_ms c) (Some wall_ms))"

definition clock_pause :: "session_clock \<Rightarrow> int \<Rightarrow> session_clock result" where
  "clock_pause c wall_ms =
     (case segment_started_at c of
        None \<Rightarrow> Inr c
      | Some started \<Rightarrow> SessionClock (accumulated_ms c + max 0 (wall_ms - started)) None)"

definition clock_now :: "session_clock \<Rightarrow> int \<Rightarrow> monotonic_time result" where
  "clock_now c wall_ms =
     (case segment_started_at c of
        None \<Rightarrow> MonotonicTime (accumulated_ms c)
      | Some started \<Rightarrow> MonotonicTime (accumulated_ms c + max 0 (wall_ms - started)))"

definition captured_ms :: "session_clock \<Rightarrow> int \<Rightarrow> int result" where
  "captured_ms c wall_ms = bindR (clock_now c wall_ms) (\<lambda>t. Inr (mt_ms t))"

definition wf_clock :: "session_clock \<Rightarrow> bool" where
  "wf_clock c \<longleftrightarrow> 0 \<le> accumulated_ms c"

section \<open>The contract of a pausable clock\<close>

text \<open>
  \<open>reading c w\<close> is the position of the clock at wall reading \<open>w\<close>. Starting and pausing never move
  the position at the moment they happen, and between two operations the position moves with the
  wall exactly when the clock is running.
\<close>

locale pausable_clock =
  fixes wf :: "'c \<Rightarrow> bool"
    and running :: "'c \<Rightarrow> bool"
    and start :: "'c \<Rightarrow> int \<Rightarrow> 'c result"
    and pause :: "'c \<Rightarrow> int \<Rightarrow> 'c result"
    and reading :: "'c \<Rightarrow> int \<Rightarrow> int result"
    and since :: "'c \<Rightarrow> int"
  assumes start_total: "wf c \<Longrightarrow> \<exists>c'. start c w = Inr c' \<and> wf c' \<and> running c'"
    and pause_total: "wf c \<Longrightarrow> \<exists>c'. pause c w = Inr c' \<and> wf c' \<and> \<not> running c'"
    and reading_total: "wf c \<Longrightarrow> \<exists>p \<ge> 0. reading c w = Inr p"
    and start_keeps: "wf c \<Longrightarrow> start c w = Inr c' \<Longrightarrow> reading c' w = reading c w"
    and pause_keeps: "wf c \<Longrightarrow> pause c w = Inr c' \<Longrightarrow> reading c' w = reading c w"
    and started_at: "wf c \<Longrightarrow> \<not> running c \<Longrightarrow> start c w = Inr c' \<Longrightarrow> since c' = w"
    and started_again: "wf c \<Longrightarrow> running c \<Longrightarrow> start c w = Inr c' \<Longrightarrow> c' = c"
    and paused_still: "wf c \<Longrightarrow> \<not> running c \<Longrightarrow> reading c w = reading c w'"
    and running_moves: "wf c \<Longrightarrow> running c \<Longrightarrow> since c \<le> w \<Longrightarrow> w \<le> w' \<Longrightarrow>
      reading c w = Inr p \<Longrightarrow> reading c w' = Inr (p + (w' - w))"
    and running_late: "wf c \<Longrightarrow> running c \<Longrightarrow> w \<le> since c \<Longrightarrow> reading c w = reading c (since c)"
begin

lemma reading_mono:
  assumes "wf c" and "w \<le> w'" and "reading c w = Inr p" and "reading c w' = Inr q"
  shows "p \<le> q"
proof (cases "running c")
  case False
  with paused_still [OF assms(1) False, of w w'] assms show ?thesis by simp
next
  case running: True
  show ?thesis
  proof (cases "since c \<le> w")
    case True
    from running_moves [OF assms(1) running True assms(2,3)] assms show ?thesis by simp
  next
    case late: False
    from assms(1) obtain p0 where p0: "reading c (since c) = Inr p0"
      using reading_total [of c "since c"] by auto
    have p: "p = p0"
      using running_late [OF assms(1) running, of w] late assms(3) p0 by simp
    show ?thesis
    proof (cases "w' \<le> since c")
      case True
      then show ?thesis
        using running_late [OF assms(1) running, of w'] assms(4) p0 p by simp
    next
      case False
      then show ?thesis
        using running_moves [OF assms(1) running _ _ p0, of w'] assms(4) p by simp
    qed
  qed
qed

text \<open>A pause followed by a resume leaves the position where it was, however long the pause.\<close>

lemma pause_resume_position:
  assumes "wf c" and "pause c w = Inr c'" and "start c' w' = Inr c''"
  shows "reading c'' w' = reading c w"
proof -
  have wf': "wf c'" and stopped: "\<not> running c'"
    using pause_total [OF assms(1), of w] assms(2) by auto
  have "reading c'' w' = reading c' w'"
    using start_keeps [OF wf' assms(3)] .
  also have "\<dots> = reading c' w"
    using paused_still [OF wf' stopped] .
  also have "\<dots> = reading c w"
    using pause_keeps [OF assms(1,2)] .
  finally show ?thesis .
qed

end

definition clock_since :: "session_clock \<Rightarrow> int" where
  "clock_since c = (case segment_started_at c of None \<Rightarrow> 0 | Some started \<Rightarrow> started)"

lemmas clock_defs = clock_start_def clock_pause_def clock_now_def captured_ms_def SessionClock_def
  is_running_def wf_clock_def clock_since_def

interpretation sc: pausable_clock wf_clock is_running clock_start clock_pause captured_ms clock_since
  by unfold_locales (auto simp: clock_defs split: option.splits if_splits)

lemma captured_ms_value:
  "wf_clock c \<Longrightarrow> captured_ms c w =
     Inr (accumulated_ms c + (case segment_started_at c of None \<Rightarrow> 0 | Some s \<Rightarrow> max 0 (w - s)))"
  by (auto simp: clock_defs split: option.splits)

lemma clock_ops_total:
  "wf_clock c \<Longrightarrow> clock_start c w \<noteq> Inl e"
  "wf_clock c \<Longrightarrow> clock_pause c w \<noteq> Inl e"
  by (auto simp: clock_defs split: option.splits)

lemma clock_start_props:
  "clock_start c w = Inr c' \<Longrightarrow> wf_clock c \<Longrightarrow> wf_clock c' \<and> is_running c'"
  by (auto simp: clock_defs split: if_splits)

lemma clock_pause_props:
  "clock_pause c w = Inr c' \<Longrightarrow> wf_clock c \<Longrightarrow> wf_clock c' \<and> \<not> is_running c'"
  by (auto simp: clock_defs split: option.splits if_splits)

end
