(* ===== verification/Lifecycle.thy ===== *)
theory Lifecycle
  imports Prelude
begin

text \<open>
  The lifecycle of a session as a state machine (\<open>domain/sessions/state.py\<close>): the modes, the
  states, the table of allowed transitions, and the queries over it.
\<close>

datatype session_mode = REALTIME | BATCH

fun session_mode_value :: "session_mode \<Rightarrow> string" where
  "session_mode_value REALTIME = ''realtime''"
| "session_mode_value BATCH = ''batch''"

datatype session_state =
    CREATED | CAPTURING | PAUSED | COMPLETING | COMPLETED | FAILED | EVIDENCE_DELETED

fun session_state_value :: "session_state \<Rightarrow> string" where
  "session_state_value CREATED = ''created''"
| "session_state_value CAPTURING = ''capturing''"
| "session_state_value PAUSED = ''paused''"
| "session_state_value COMPLETING = ''completing''"
| "session_state_value COMPLETED = ''completed''"
| "session_state_value FAILED = ''failed''"
| "session_state_value EVIDENCE_DELETED = ''evidence_deleted''"

text \<open>\<open>_ALLOWED\<close>: the frozen sets as lists, read by membership only.\<close>

fun ALLOWED :: "session_state \<Rightarrow> session_state list" where
  "ALLOWED CREATED = [CAPTURING, FAILED, EVIDENCE_DELETED]"
| "ALLOWED CAPTURING = [PAUSED, COMPLETING, FAILED]"
| "ALLOWED PAUSED = [CAPTURING, COMPLETING, FAILED]"
| "ALLOWED COMPLETING = [COMPLETED, FAILED]"
| "ALLOWED COMPLETED = [EVIDENCE_DELETED]"
| "ALLOWED FAILED = [EVIDENCE_DELETED]"
| "ALLOWED EVIDENCE_DELETED = []"

definition can_transition :: "session_state \<Rightarrow> session_state \<Rightarrow> bool" where
  "can_transition source target \<longleftrightarrow> target \<in> set (ALLOWED source)"

definition require_transition :: "session_state \<Rightarrow> session_state \<Rightarrow> session_state result" where
  "require_transition source target =
     (if \<not> can_transition source target then Inl (DomainError IllegalSessionTransition)
      else Inr target)"

definition is_terminal :: "session_state \<Rightarrow> bool" where
  "is_terminal state \<longleftrightarrow> ALLOWED state = []"

definition state_accepts_media :: "session_state \<Rightarrow> bool" where
  "state_accepts_media state \<longleftrightarrow> state = CAPTURING"

lemma require_transition_Inr [simp]:
  "require_transition s t = Inr u \<longleftrightarrow> can_transition s t \<and> u = t"
  by (auto simp: require_transition_def)

lemma require_transition_Inl [simp]:
  "require_transition s t = Inl e \<longleftrightarrow>
     \<not> can_transition s t \<and> e = DomainError IllegalSessionTransition"
  by (auto simp: require_transition_def)

text \<open>Where each state can be entered from; the rest of the lifecycle facts follow from these.\<close>

lemma can_transition_to:
  "can_transition s CREATED \<longleftrightarrow> False"
  "can_transition s CAPTURING \<longleftrightarrow> s = CREATED \<or> s = PAUSED"
  "can_transition s PAUSED \<longleftrightarrow> s = CAPTURING"
  "can_transition s COMPLETING \<longleftrightarrow> s = CAPTURING \<or> s = PAUSED"
  "can_transition s COMPLETED \<longleftrightarrow> s = COMPLETING"
  "can_transition s FAILED \<longleftrightarrow> s \<in> {CREATED, CAPTURING, PAUSED, COMPLETING}"
  "can_transition s EVIDENCE_DELETED \<longleftrightarrow> s \<in> {CREATED, COMPLETED, FAILED}"
  by (cases s; simp add: can_transition_def)+

lemma is_terminal_iff: "is_terminal s \<longleftrightarrow> s = EVIDENCE_DELETED"
  by (cases s) (simp_all add: is_terminal_def)

lemma terminal_stuck: "is_terminal s \<Longrightarrow> \<not> can_transition s t"
  by (simp add: is_terminal_def can_transition_def)

text \<open>Every state other than the terminal one can still reach deletion.\<close>

inductive moves :: "session_state \<Rightarrow> session_state \<Rightarrow> bool" where
  moves_refl: "moves s s"
| moves_step: "moves s t \<Longrightarrow> can_transition t u \<Longrightarrow> moves s u"

lemma deletion_reachable: "moves s EVIDENCE_DELETED"
proof -
  have via: "moves s EVIDENCE_DELETED" if "can_transition s FAILED" for s
    by (rule moves_step [OF moves_step [OF moves_refl that]]) (simp add: can_transition_to)
  show ?thesis
  proof (cases "s = COMPLETED \<or> s = FAILED")
    case True
    then show ?thesis
      by (intro moves_step [OF moves_refl]) (auto simp: can_transition_to)
  next
    case False
    then show ?thesis
      by (cases s) (auto simp: can_transition_to intro: via moves_refl)
  qed
qed

lemma moves_from_terminal: "moves s t \<Longrightarrow> s = EVIDENCE_DELETED \<Longrightarrow> t = EVIDENCE_DELETED"
  by (induction rule: moves.induct) (auto simp: can_transition_def)

end
