(* ===== verification/Capabilities.thy ===== *)
theory Capabilities
  imports Taxonomy
begin

text \<open>
  Capability negotiation (\<open>domain/sessions/capabilities.py\<close>): a request is either refused as a
  whole, before anything is captured, or turned into the configuration that was agreed.
\<close>

datatype audio_codec = PCM16 | FLAC | OPUS | AAC

fun audio_codec_value :: "audio_codec \<Rightarrow> string" where
  "audio_codec_value PCM16 = ''pcm16''"
| "audio_codec_value FLAC = ''flac''"
| "audio_codec_value OPUS = ''opus''"
| "audio_codec_value AAC = ''aac''"

definition audio_codecs :: "audio_codec list" where
  "audio_codecs = [PCM16, FLAC, OPUS, AAC]"

datatype video_format = JPEG_FRAMES | PNG_FRAMES | LANDMARKS

fun video_format_value :: "video_format \<Rightarrow> string" where
  "video_format_value JPEG_FRAMES = ''jpeg_frames''"
| "video_format_value PNG_FRAMES = ''png_frames''"
| "video_format_value LANDMARKS = ''landmarks''"

definition video_formats :: "video_format list" where
  "video_formats = [JPEG_FRAMES, PNG_FRAMES, LANDMARKS]"

definition SUPPORTED_SAMPLE_RATES_HZ :: "int list" where
  "SUPPORTED_SAMPLE_RATES_HZ = [16000, 22050, 24000, 44100, 48000]"

definition MIN_FRAME_RATE_FPS :: int where
  "MIN_FRAME_RATE_FPS = 5"

definition MAX_FRAME_RATE_FPS :: int where
  "MAX_FRAME_RATE_FPS = 60"

definition SUPPORTED_LOCALES :: "string list" where
  "SUPPORTED_LOCALES = [''es-PE'']"

definition LOSSY_CODECS :: "audio_codec list" where
  "LOSSY_CODECS = [OPUS, AAC]"

record capability_request =
  req_audio_codec :: string
  req_sample_rate_hz :: int
  req_locale :: string
  req_video_format :: "string option"
  req_frame_rate_fps :: "int option"

record negotiated_capabilities =
  cap_audio_codec :: audio_codec
  cap_sample_rate_hz :: int
  cap_locale :: string
  cap_video_format :: "video_format option"
  cap_frame_rate_fps :: "int option"

definition has_video :: "negotiated_capabilities \<Rightarrow> bool" where
  "has_video c \<longleftrightarrow> cap_video_format c \<noteq> None"

definition video_is_privacy_preserving :: "negotiated_capabilities \<Rightarrow> bool" where
  "video_is_privacy_preserving c \<longleftrightarrow> cap_video_format c = Some LANDMARKS"

definition requires_quality_warning :: "negotiated_capabilities \<Rightarrow> bool" where
  "requires_quality_warning c \<longleftrightarrow> cap_audio_codec c \<in> set LOSSY_CODECS"

definition resolve_codec :: "string \<Rightarrow> audio_codec result" where
  "resolve_codec requested =
     (case enum_of audio_codec_value audio_codecs requested of
        None \<Rightarrow> Inl (DomainError UnsupportedCapability)
      | Some codec \<Rightarrow> Inr codec)"

definition resolve_video :: "capability_request \<Rightarrow> (video_format option \<times> int option) result" where
  "resolve_video request =
     (case req_video_format request of
        None \<Rightarrow>
          (if req_frame_rate_fps request \<noteq> None then Inl (DomainError UnsupportedCapability)
           else Inr (None, None))
      | Some requested \<Rightarrow>
          (case enum_of video_format_value video_formats requested of
             None \<Rightarrow> Inl (DomainError UnsupportedCapability)
           | Some vf \<Rightarrow>
               (case req_frame_rate_fps request of
                  None \<Rightarrow> Inl (DomainError UnsupportedCapability)
                | Some frame_rate \<Rightarrow>
                    if \<not> (MIN_FRAME_RATE_FPS \<le> frame_rate \<and> frame_rate \<le> MAX_FRAME_RATE_FPS)
                    then Inl (DomainError UnsupportedCapability)
                    else Inr (Some vf, Some frame_rate))))"

definition negotiate :: "capability_request \<Rightarrow> negotiated_capabilities result" where
  "negotiate request =
     bindR (resolve_codec (req_audio_codec request)) (\<lambda>codec.
       if req_sample_rate_hz request \<notin> set SUPPORTED_SAMPLE_RATES_HZ
       then Inl (DomainError UnsupportedCapability)
       else if req_locale request \<notin> set SUPPORTED_LOCALES
       then Inl (DomainError UnsupportedCapability)
       else bindR (resolve_video request) (\<lambda>(vf, frame_rate).
         Inr \<lparr>cap_audio_codec = codec,
              cap_sample_rate_hz = req_sample_rate_hz request,
              cap_locale = req_locale request,
              cap_video_format = vf,
              cap_frame_rate_fps = frame_rate\<rparr>))"

section \<open>Correctness\<close>

lemma resolve_codec_Inr: "resolve_codec s = Inr codec \<longleftrightarrow> audio_codec_value codec = s"
proof -
  have "enum_of audio_codec_value audio_codecs (audio_codec_value codec) = Some codec"
    by (cases codec) (simp_all add: enum_of_def audio_codecs_def)
  then show ?thesis
    by (auto simp: resolve_codec_def dest: enum_of_Some split: option.splits)
qed

lemma video_format_enum: "enum_of video_format_value video_formats s = Some f \<longleftrightarrow> video_format_value f = s"
proof -
  have "enum_of video_format_value video_formats (video_format_value f) = Some f"
    by (cases f) (simp_all add: enum_of_def video_formats_def)
  then show ?thesis
    by (auto dest: enum_of_Some)
qed

lemma video_format_enum_value:
  "enum_of video_format_value video_formats (video_format_value f) = Some f"
  by (simp add: video_format_enum)

lemma video_format_value_inj [simp]: "video_format_value f = video_format_value g \<longleftrightarrow> f = g"
  by (cases f; cases g) simp_all

lemma resolve_video_Inr:
  "resolve_video r = Inr (vf, fps) \<longleftrightarrow>
     req_frame_rate_fps r = fps \<and> req_video_format r = map_option video_format_value vf \<and>
     (req_video_format r = None \<longleftrightarrow> fps = None) \<and> fps \<in> insert None (Some ` {5..60})"
proof (cases "req_video_format r")
  case None
  then show ?thesis
    by (auto simp: resolve_video_def)
next
  case (Some s)
  then show ?thesis
    by (cases vf; cases "req_frame_rate_fps r")
      (auto simp: resolve_video_def MIN_FRAME_RATE_FPS_def MAX_FRAME_RATE_FPS_def
        video_format_enum video_format_enum_value split: option.splits)
qed

lemma resolve_video_Inl: "resolve_video r = Inl e \<Longrightarrow> e = DomainError UnsupportedCapability"
  by (auto simp: resolve_video_def split: option.splits if_splits)

lemma resolve_codec_Inl: "resolve_codec s = Inl e \<Longrightarrow> e = DomainError UnsupportedCapability"
  by (auto simp: resolve_codec_def split: option.splits)

lemma negotiate_Inr:
  "negotiate r = Inr c \<longleftrightarrow>
     resolve_codec (req_audio_codec r) = Inr (cap_audio_codec c) \<and>
     req_sample_rate_hz r \<in> set SUPPORTED_SAMPLE_RATES_HZ \<and>
     req_locale r \<in> set SUPPORTED_LOCALES \<and>
     resolve_video r = Inr (cap_video_format c, cap_frame_rate_fps c) \<and>
     cap_sample_rate_hz c = req_sample_rate_hz r \<and> cap_locale c = req_locale r"
  by (cases c) (auto simp: negotiate_def)

lemma negotiate_Inl: "negotiate r = Inl e \<Longrightarrow> e = DomainError UnsupportedCapability"
  by (auto simp: negotiate_def dest: resolve_codec_Inl resolve_video_Inl split: if_splits)

text \<open>
  Negotiation is sound and complete: a request is agreed exactly when its codec, sample
  rate, locale and video channel are all supported (a frame rate between 5 and 60 comes with
  every video format and only with one), and the agreement restates the request without altering
  any of it. Every other request is refused with \<open>UnsupportedCapability\<close> and nothing else.
\<close>

theorem negotiate_sound_complete:
  "(negotiate r = Inr c \<longleftrightarrow>
      audio_codec_value (cap_audio_codec c) = req_audio_codec r \<and>
      cap_sample_rate_hz c = req_sample_rate_hz r \<and>
      req_sample_rate_hz r \<in> {16000, 22050, 24000, 44100, 48000} \<and>
      cap_locale c = req_locale r \<and> req_locale r = ''es-PE'' \<and>
      req_video_format r = map_option video_format_value (cap_video_format c) \<and>
      cap_frame_rate_fps c = req_frame_rate_fps r \<and>
      (req_video_format r = None \<longleftrightarrow> req_frame_rate_fps r = None) \<and>
      req_frame_rate_fps r \<in> insert None (Some ` {5..60})) \<and>
   ((\<exists>c'. negotiate r = Inr c') \<or> negotiate r = Inl (DomainError UnsupportedCapability))"
  (is "?agreed \<and> ?refused")
proof
  show ?agreed
    unfolding negotiate_Inr resolve_codec_Inr resolve_video_Inr
      SUPPORTED_SAMPLE_RATES_HZ_def SUPPORTED_LOCALES_def
    by (simp only: list.set singleton_iff) metis
  show ?refused
    by (cases "negotiate r") (auto dest: negotiate_Inl)
qed

end
