(* ===== verification/Consent.thy ===== *)
theory Consent
  imports Provenance
begin

text \<open>
  Consent receipts and retention policies (\<open>domain/sessions/consent.py\<close>). A receipt is withdrawn
  in place, it is never removed.
\<close>

record retention_policy =
  rp_policy_version :: semantic_version
  rp_retain_raw_media :: bool
  rp_raw_media_ttl_seconds :: int
  rp_retain_derived_aggregates :: bool

definition RetentionPolicy :: "semantic_version \<Rightarrow> bool \<Rightarrow> int \<Rightarrow> bool \<Rightarrow> retention_policy result" where
  "RetentionPolicy version retain ttl aggregates =
     (if ttl < 0 then Inl (DomainError ConsentViolation)
      else if retain \<and> ttl = 0 then Inl (DomainError ConsentViolation)
      else if \<not> retain \<and> ttl \<noteq> 0 then Inl (DomainError ConsentViolation)
      else Inr \<lparr>rp_policy_version = version, rp_retain_raw_media = retain,
                rp_raw_media_ttl_seconds = ttl, rp_retain_derived_aggregates = aggregates\<rparr>)"

definition ephemeral :: "semantic_version \<Rightarrow> retention_policy result" where
  "ephemeral version = RetentionPolicy version False 0 True"

record consent_receipt =
  cr_session_id :: session_id
  cr_policy_version :: semantic_version
  cr_retention :: retention_policy
  cr_granted_at_ms :: int
  cr_withdrawn_at_ms :: "int option"

definition check_receipt :: "consent_receipt \<Rightarrow> consent_receipt result" where
  "check_receipt r =
     (if cr_granted_at_ms r < 0 then Inl (DomainError ConsentViolation)
      else if (case cr_withdrawn_at_ms r of None \<Rightarrow> False | Some w \<Rightarrow> w < cr_granted_at_ms r)
      then Inl (DomainError ConsentViolation)
      else if rp_policy_version (cr_retention r) \<noteq> cr_policy_version r
      then Inl (DomainError ConsentViolation)
      else Inr r)"

definition ConsentReceipt ::
  "session_id \<Rightarrow> semantic_version \<Rightarrow> retention_policy \<Rightarrow> int \<Rightarrow> consent_receipt result" where
  "ConsentReceipt session version retention granted_at =
     check_receipt \<lparr>cr_session_id = session, cr_policy_version = version,
       cr_retention = retention, cr_granted_at_ms = granted_at, cr_withdrawn_at_ms = None\<rparr>"

definition consent_is_active :: "consent_receipt \<Rightarrow> bool" where
  "consent_is_active r \<longleftrightarrow> cr_withdrawn_at_ms r = None"

text \<open>\<open>replace\<close> runs \<open>__post_init__\<close> again, so a withdrawal is checked against the grant.\<close>

definition withdraw :: "consent_receipt \<Rightarrow> int \<Rightarrow> consent_receipt result" where
  "withdraw r at_ms =
     (if \<not> consent_is_active r then Inr r
      else check_receipt (r\<lparr>cr_withdrawn_at_ms := Some at_ms\<rparr>))"

definition require_active :: "consent_receipt \<Rightarrow> unit result" where
  "require_active r =
     (if \<not> consent_is_active r then Inl (DomainError ConsentViolation) else Inr ())"

definition wf_receipt :: "consent_receipt \<Rightarrow> bool" where
  "wf_receipt r \<longleftrightarrow>
     0 \<le> cr_granted_at_ms r \<and>
     (\<forall>w. cr_withdrawn_at_ms r = Some w \<longrightarrow> cr_granted_at_ms r \<le> w) \<and>
     rp_policy_version (cr_retention r) = cr_policy_version r"

lemma check_receipt_Inr: "check_receipt r = Inr r' \<longleftrightarrow> wf_receipt r \<and> r' = r"
  by (auto simp: check_receipt_def wf_receipt_def split: option.splits)

lemma check_receipt_Inl:
  "check_receipt r = Inl e \<longleftrightarrow> \<not> wf_receipt r \<and> e = DomainError ConsentViolation"
  by (auto simp: check_receipt_def wf_receipt_def split: option.splits)

lemma RetentionPolicy_Inr:
  "RetentionPolicy v retain ttl aggregates = Inr p \<longleftrightarrow>
     0 \<le> ttl \<and> (retain \<longleftrightarrow> 0 < ttl) \<and>
     p = \<lparr>rp_policy_version = v, rp_retain_raw_media = retain,
          rp_raw_media_ttl_seconds = ttl, rp_retain_derived_aggregates = aggregates\<rparr>"
  by (auto simp: RetentionPolicy_def)

lemma withdraw_Inr:
  assumes "wf_receipt r" and "withdraw r at_ms = Inr r'"
  shows "wf_receipt r'" and "\<not> consent_is_active r'" and "cr_session_id r' = cr_session_id r"
  using assms
  by (auto simp: withdraw_def consent_is_active_def check_receipt_Inr split: if_splits)

lemma withdraw_again: "withdraw r a = Inr r' \<Longrightarrow> wf_receipt r \<Longrightarrow> withdraw r' b = Inr r'"
  by (auto simp: withdraw_def consent_is_active_def check_receipt_Inr split: if_splits)

lemma withdraw_fails:
  assumes "wf_receipt r"
  shows "withdraw r at_ms = Inl e \<longleftrightarrow>
    consent_is_active r \<and> at_ms < cr_granted_at_ms r \<and> e = DomainError ConsentViolation"
  using assms
  by (auto simp: withdraw_def consent_is_active_def check_receipt_Inl wf_receipt_def)

end
