(* ===== verification/Session.thy ===== *)
theory Session
  imports SessionClock Lifecycle Capabilities Consent
begin

text \<open>
  The analysis session aggregate (\<open>domain/sessions/session.py\<close>): lifecycle, clock and consent gate
  together. Every operation of the class is one function into \<open>exn + session\<close>; \<open>session_step\<close> is
  the relation of the operations that succeed, \<open>apply_op\<close> runs any operation and keeps the old
  (immutable) session when it is refused.
\<close>

section \<open>State and operations\<close>

record analysis_session =
  as_id :: session_id
  as_application_id :: application_id
  as_tenant_id :: tenant_id
  as_mode :: session_mode
  as_locale :: string
  as_capabilities :: negotiated_capabilities
  as_configuration :: configuration_snapshot_id
  as_created_at_ms :: int
  as_state :: session_state
  as_clock :: session_clock
  as_consent :: "consent_receipt option"
  as_completed_at_ms :: "int option"

text \<open>The constructor with the defaults of the last four fields.\<close>

definition AnalysisSession ::
  "session_id \<Rightarrow> application_id \<Rightarrow> tenant_id \<Rightarrow> session_mode \<Rightarrow> string \<Rightarrow> negotiated_capabilities \<Rightarrow>
   configuration_snapshot_id \<Rightarrow> int \<Rightarrow> analysis_session" where
  "AnalysisSession i app tenant mode loc caps conf created =
     \<lparr>as_id = i, as_application_id = app, as_tenant_id = tenant, as_mode = mode,
      as_locale = loc, as_capabilities = caps, as_configuration = conf,
      as_created_at_ms = created, as_state = CREATED, as_clock = fresh_clock,
      as_consent = None, as_completed_at_ms = None\<rparr>"

definition with_consent :: "analysis_session \<Rightarrow> consent_receipt \<Rightarrow> analysis_session result" where
  "with_consent s receipt =
     (if cr_session_id receipt \<noteq> as_id s then Inl (DomainError ConsentViolation)
      else Inr (s\<lparr>as_consent := Some receipt\<rparr>))"

definition require_consent_for_media :: "analysis_session \<Rightarrow> consent_receipt result" where
  "require_consent_for_media s =
     (case as_consent s of
        None \<Rightarrow> Inl (DomainError ConsentViolation)
      | Some receipt \<Rightarrow> bindR (require_active receipt) (\<lambda>_. Inr receipt))"

definition begin_capture :: "analysis_session \<Rightarrow> int \<Rightarrow> analysis_session result" where
  "begin_capture s wall_ms =
     bindR (require_consent_for_media s) (\<lambda>_.
     bindR (require_transition (as_state s) CAPTURING) (\<lambda>st.
     bindR (clock_start (as_clock s) wall_ms) (\<lambda>c.
     Inr (s\<lparr>as_state := st, as_clock := c\<rparr>))))"

definition pause_capture :: "analysis_session \<Rightarrow> int \<Rightarrow> analysis_session result" where
  "pause_capture s wall_ms =
     bindR (require_transition (as_state s) PAUSED) (\<lambda>st.
     bindR (clock_pause (as_clock s) wall_ms) (\<lambda>c.
     Inr (s\<lparr>as_state := st, as_clock := c\<rparr>)))"

definition resume_capture :: "analysis_session \<Rightarrow> int \<Rightarrow> analysis_session result" where
  "resume_capture s wall_ms =
     bindR (require_consent_for_media s) (\<lambda>_.
     bindR (require_transition (as_state s) CAPTURING) (\<lambda>st.
     bindR (clock_start (as_clock s) wall_ms) (\<lambda>c.
     Inr (s\<lparr>as_state := st, as_clock := c\<rparr>))))"

definition request_completion :: "analysis_session \<Rightarrow> int \<Rightarrow> analysis_session result" where
  "request_completion s wall_ms =
     bindR (require_transition (as_state s) COMPLETING) (\<lambda>st.
     bindR (clock_pause (as_clock s) wall_ms) (\<lambda>c.
     Inr (s\<lparr>as_state := st, as_clock := c\<rparr>)))"

definition mark_completed :: "analysis_session \<Rightarrow> int \<Rightarrow> analysis_session result" where
  "mark_completed s wall_ms =
     bindR (require_transition (as_state s) COMPLETED) (\<lambda>st.
     Inr (s\<lparr>as_state := st, as_completed_at_ms := Some wall_ms\<rparr>))"

definition session_fail :: "analysis_session \<Rightarrow> int \<Rightarrow> analysis_session result" where
  "session_fail s wall_ms =
     bindR (require_transition (as_state s) FAILED) (\<lambda>st.
     bindR (clock_pause (as_clock s) wall_ms) (\<lambda>c.
     Inr (s\<lparr>as_state := st, as_clock := c, as_completed_at_ms := Some wall_ms\<rparr>)))"

definition mark_evidence_deleted :: "analysis_session \<Rightarrow> int \<Rightarrow> analysis_session result" where
  "mark_evidence_deleted s wall_ms =
     bindR (require_transition (as_state s) EVIDENCE_DELETED) (\<lambda>st.
     bindR (case as_consent s of
              None \<Rightarrow> Inr None
            | Some r \<Rightarrow> bindR (withdraw r wall_ms) (\<lambda>r'. Inr (Some r'))) (\<lambda>withdrawn.
     Inr (s\<lparr>as_state := st, as_consent := withdrawn\<rparr>)))"

definition accepts_media :: "analysis_session \<Rightarrow> bool" where
  "accepts_media s \<longleftrightarrow> state_accepts_media (as_state s)"

definition position :: "analysis_session \<Rightarrow> int \<Rightarrow> monotonic_time result" where
  "position s wall_ms = clock_now (as_clock s) wall_ms"

definition session_captured_ms :: "analysis_session \<Rightarrow> int \<Rightarrow> int result" where
  "session_captured_ms s wall_ms = captured_ms (as_clock s) wall_ms"

section \<open>Histories\<close>

datatype session_op =
    GiveConsent consent_receipt | BeginCapture | PauseCapture | ResumeCapture
  | RequestCompletion | MarkCompleted | Fail | MarkEvidenceDeleted

fun do_op :: "session_op \<Rightarrow> analysis_session \<Rightarrow> int \<Rightarrow> analysis_session result" where
  "do_op (GiveConsent r) s w = with_consent s r"
| "do_op BeginCapture s w = begin_capture s w"
| "do_op PauseCapture s w = pause_capture s w"
| "do_op ResumeCapture s w = resume_capture s w"
| "do_op RequestCompletion s w = request_completion s w"
| "do_op MarkCompleted s w = mark_completed s w"
| "do_op Fail s w = session_fail s w"
| "do_op MarkEvidenceDeleted s w = mark_evidence_deleted s w"

definition apply_op :: "analysis_session \<Rightarrow> int \<times> session_op \<Rightarrow> analysis_session" where
  "apply_op s p = (case do_op (snd p) s (fst p) of Inl _ \<Rightarrow> s | Inr s' \<Rightarrow> s')"

definition run_ops :: "analysis_session \<Rightarrow> (int \<times> session_op) list \<Rightarrow> analysis_session" where
  "run_ops s ops = foldl apply_op s ops"

inductive session_step :: "analysis_session \<Rightarrow> analysis_session \<Rightarrow> bool" where
  session_step_op: "do_op oper s w = Inr s' \<Longrightarrow> session_step s s'"

inductive session_reach :: "analysis_session \<Rightarrow> analysis_session \<Rightarrow> bool" for s0 where
  session_reach_refl: "session_reach s0 s0"
| session_reach_step: "session_reach s0 s \<Longrightarrow> session_step s s' \<Longrightarrow> session_reach s0 s'"

inductive_cases session_stepE: "session_step s s'"

lemmas session_op_defs = with_consent_def require_consent_for_media_def begin_capture_def
  pause_capture_def resume_capture_def request_completion_def mark_completed_def session_fail_def
  mark_evidence_deleted_def

lemma run_ops_simps [simp]:
  "run_ops s [] = s"
  "run_ops s (p # ps) = run_ops (apply_op s p) ps"
  by (simp_all add: run_ops_def)

lemma apply_op_step: "apply_op s p = s \<or> session_step s (apply_op s p)"
  by (auto simp: apply_op_def intro: session_step_op split: sum.splits)

lemma run_ops_reach: "session_reach s0 s \<Longrightarrow> session_reach s0 (run_ops s ops)"
proof (induction ops arbitrary: s)
  case Nil
  then show ?case by simp
next
  case (Cons p ops)
  then show ?case
    using apply_op_step [of s p] by (auto intro: session_reach_step)
qed

section \<open>The invariant of the aggregate\<close>

text \<open>The clock runs exactly while the session is capturing, and its total is never negative.\<close>

definition clock_inv :: "analysis_session \<Rightarrow> bool" where
  "clock_inv s \<longleftrightarrow>
     wf_clock (as_clock s) \<and> (is_running (as_clock s) \<longleftrightarrow> as_state s = CAPTURING)"

text \<open>Media cannot have been captured without a receipt.\<close>

definition consent_inv :: "analysis_session \<Rightarrow> bool" where
  "consent_inv s \<longleftrightarrow>
     (case as_consent s of
        None \<Rightarrow> as_state s \<notin> {CAPTURING, PAUSED, COMPLETING, COMPLETED}
      | Some r \<Rightarrow> cr_session_id r = as_id s)"

definition frozen_fields :: "analysis_session \<Rightarrow> analysis_session \<Rightarrow> bool" where
  "frozen_fields s s' \<longleftrightarrow>
     as_id s' = as_id s \<and> as_application_id s' = as_application_id s \<and>
     as_tenant_id s' = as_tenant_id s \<and> as_mode s' = as_mode s \<and> as_locale s' = as_locale s \<and>
     as_capabilities s' = as_capabilities s \<and> as_configuration s' = as_configuration s \<and>
     as_created_at_ms s' = as_created_at_ms s"

lemma require_consent_Inr:
  "require_consent_for_media s = Inr r \<longleftrightarrow> as_consent s = Some r \<and> consent_is_active r"
  by (auto simp: require_consent_for_media_def require_active_def split: option.splits)

lemma require_consent_Inl:
  "require_consent_for_media s = Inl e \<Longrightarrow> e = DomainError ConsentViolation"
  by (auto simp: require_consent_for_media_def require_active_def split: option.splits if_splits)

lemma with_consent_Inr:
  "with_consent s r = Inr s' \<longleftrightarrow> cr_session_id r = as_id s \<and> s' = s\<lparr>as_consent := Some r\<rparr>"
  by (auto simp: with_consent_def)

lemma begin_capture_Inr:
  "begin_capture s w = Inr s' \<longleftrightarrow>
     (\<exists>r. as_consent s = Some r \<and> consent_is_active r) \<and> as_state s \<in> {CREATED, PAUSED} \<and>
     (\<exists>c. clock_start (as_clock s) w = Inr c \<and> s' = s\<lparr>as_state := CAPTURING, as_clock := c\<rparr>)"
  by (simp add: begin_capture_def require_consent_Inr can_transition_to) blast

lemma resume_capture_Inr: "resume_capture s w = Inr s' \<longleftrightarrow> begin_capture s w = Inr s'"
  by (simp add: resume_capture_def begin_capture_def)

lemma pause_capture_Inr:
  "pause_capture s w = Inr s' \<longleftrightarrow> as_state s = CAPTURING \<and>
     (\<exists>c. clock_pause (as_clock s) w = Inr c \<and> s' = s\<lparr>as_state := PAUSED, as_clock := c\<rparr>)"
  by (simp add: pause_capture_def can_transition_to) blast

lemma request_completion_Inr:
  "request_completion s w = Inr s' \<longleftrightarrow> as_state s \<in> {CAPTURING, PAUSED} \<and>
     (\<exists>c. clock_pause (as_clock s) w = Inr c \<and> s' = s\<lparr>as_state := COMPLETING, as_clock := c\<rparr>)"
  by (simp add: request_completion_def can_transition_to) blast

lemma mark_completed_Inr:
  "mark_completed s w = Inr s' \<longleftrightarrow> as_state s = COMPLETING \<and>
     s' = s\<lparr>as_state := COMPLETED, as_completed_at_ms := Some w\<rparr>"
  by (simp add: mark_completed_def can_transition_to) blast

lemma session_fail_Inr:
  "session_fail s w = Inr s' \<longleftrightarrow> as_state s \<in> {CREATED, CAPTURING, PAUSED, COMPLETING} \<and>
     (\<exists>c. clock_pause (as_clock s) w = Inr c \<and>
       s' = s\<lparr>as_state := FAILED, as_clock := c, as_completed_at_ms := Some w\<rparr>)"
  by (simp add: session_fail_def can_transition_to) blast

lemma mark_evidence_deleted_Inr:
  "mark_evidence_deleted s w = Inr s' \<longleftrightarrow> as_state s \<in> {CREATED, COMPLETED, FAILED} \<and>
     (\<exists>withdrawn. s' = s\<lparr>as_state := EVIDENCE_DELETED, as_consent := withdrawn\<rparr> \<and>
       (case as_consent s of None \<Rightarrow> withdrawn = None
        | Some r \<Rightarrow> \<exists>r'. withdraw r w = Inr r' \<and> withdrawn = Some r'))"
  by (cases "as_consent s") (simp_all add: mark_evidence_deleted_def can_transition_to, blast+)

lemmas session_op_Inr = with_consent_Inr begin_capture_Inr resume_capture_Inr pause_capture_Inr
  request_completion_Inr mark_completed_Inr session_fail_Inr mark_evidence_deleted_Inr

lemma do_op_transition:
  assumes "do_op oper s w = Inr s'"
  shows "(as_state s' = as_state s \<and> (\<exists>r. oper = GiveConsent r)) \<or>
    can_transition (as_state s) (as_state s')"
  using assms by (cases oper) (auto simp: session_op_Inr can_transition_to)

lemma do_op_frozen:
  assumes "do_op oper s w = Inr s'"
  shows "frozen_fields s s'"
  using assms by (cases oper) (auto simp: session_op_Inr frozen_fields_def)

lemma clock_inv_with_consent: "clock_inv s \<Longrightarrow> with_consent s r = Inr s' \<Longrightarrow> clock_inv s'"
  by (auto simp: session_op_Inr clock_inv_def dest: clock_start_props clock_pause_props)

lemma clock_inv_begin_capture: "clock_inv s \<Longrightarrow> begin_capture s w = Inr s' \<Longrightarrow> clock_inv s'"
  by (auto simp: session_op_Inr clock_inv_def dest: clock_start_props clock_pause_props)

lemma clock_inv_pause_capture: "clock_inv s \<Longrightarrow> pause_capture s w = Inr s' \<Longrightarrow> clock_inv s'"
  by (auto simp: session_op_Inr clock_inv_def dest: clock_start_props clock_pause_props)

lemma clock_inv_request_completion: "clock_inv s \<Longrightarrow> request_completion s w = Inr s' \<Longrightarrow> clock_inv s'"
  by (auto simp: session_op_Inr clock_inv_def dest: clock_start_props clock_pause_props)

lemma clock_inv_mark_completed: "clock_inv s \<Longrightarrow> mark_completed s w = Inr s' \<Longrightarrow> clock_inv s'"
  by (auto simp: session_op_Inr clock_inv_def dest: clock_start_props clock_pause_props)

lemma clock_inv_session_fail: "clock_inv s \<Longrightarrow> session_fail s w = Inr s' \<Longrightarrow> clock_inv s'"
  by (auto simp: session_op_Inr clock_inv_def dest: clock_start_props clock_pause_props)

lemma clock_inv_mark_evidence_deleted: "clock_inv s \<Longrightarrow> mark_evidence_deleted s w = Inr s' \<Longrightarrow> clock_inv s'"
  by (auto simp: session_op_Inr clock_inv_def dest: clock_start_props clock_pause_props)

lemmas clock_inv_op = clock_inv_with_consent
  clock_inv_begin_capture
  clock_inv_pause_capture
  clock_inv_request_completion
  clock_inv_mark_completed
  clock_inv_session_fail
  clock_inv_mark_evidence_deleted

lemma do_op_clock_inv: "clock_inv s \<Longrightarrow> do_op oper s w = Inr s' \<Longrightarrow> clock_inv s'"
  by (cases oper) (simp_all only: do_op.simps resume_capture_Inr, (erule (1) clock_inv_op)+)

lemma withdraw_session: "withdraw r w = Inr r' \<Longrightarrow> cr_session_id r' = cr_session_id r"
  by (auto simp: withdraw_def check_receipt_Inr split: if_splits)

lemma consent_inv_with_consent: "consent_inv s \<Longrightarrow> with_consent s r = Inr s' \<Longrightarrow> consent_inv s'"
  by (cases "as_consent s") (auto simp: session_op_Inr consent_inv_def withdraw_session)

lemma consent_inv_begin_capture: "consent_inv s \<Longrightarrow> begin_capture s w = Inr s' \<Longrightarrow> consent_inv s'"
  by (cases "as_consent s") (auto simp: session_op_Inr consent_inv_def withdraw_session)

lemma consent_inv_pause_capture: "consent_inv s \<Longrightarrow> pause_capture s w = Inr s' \<Longrightarrow> consent_inv s'"
  by (cases "as_consent s") (auto simp: session_op_Inr consent_inv_def withdraw_session)

lemma consent_inv_request_completion: "consent_inv s \<Longrightarrow> request_completion s w = Inr s' \<Longrightarrow> consent_inv s'"
  by (cases "as_consent s") (auto simp: session_op_Inr consent_inv_def withdraw_session)

lemma consent_inv_mark_completed: "consent_inv s \<Longrightarrow> mark_completed s w = Inr s' \<Longrightarrow> consent_inv s'"
  by (cases "as_consent s") (auto simp: session_op_Inr consent_inv_def withdraw_session)

lemma consent_inv_session_fail: "consent_inv s \<Longrightarrow> session_fail s w = Inr s' \<Longrightarrow> consent_inv s'"
  by (cases "as_consent s") (auto simp: session_op_Inr consent_inv_def withdraw_session)

lemma consent_inv_mark_evidence_deleted: "consent_inv s \<Longrightarrow> mark_evidence_deleted s w = Inr s' \<Longrightarrow> consent_inv s'"
  by (cases "as_consent s") (auto simp: session_op_Inr consent_inv_def withdraw_session)

lemmas consent_inv_op = consent_inv_with_consent
  consent_inv_begin_capture
  consent_inv_pause_capture
  consent_inv_request_completion
  consent_inv_mark_completed
  consent_inv_session_fail
  consent_inv_mark_evidence_deleted

lemma do_op_consent_inv: "consent_inv s \<Longrightarrow> do_op oper s w = Inr s' \<Longrightarrow> consent_inv s'"
  by (cases oper) (simp_all only: do_op.simps resume_capture_Inr, (erule (1) consent_inv_op)+)

lemma reach_invariants:
  assumes "session_reach s0 s" and "clock_inv s0" and "consent_inv s0"
  shows "clock_inv s \<and> consent_inv s \<and> frozen_fields s0 s"
  using assms
proof (induction rule: session_reach.induct)
  case session_reach_refl
  then show ?case by (simp add: frozen_fields_def)
next
  case (session_reach_step s s')
  from \<open>session_step s s'\<close> obtain oper w where op: "do_op oper s w = Inr s'"
    by (rule session_stepE)
  show ?case
    using session_reach_step do_op_clock_inv [OF _ op] do_op_consent_inv [OF _ op]
      do_op_frozen [OF op] by (simp add: frozen_fields_def)
qed

lemma AnalysisSession_inv:
  "clock_inv (AnalysisSession i app tenant mode loc caps conf created)"
  "consent_inv (AnalysisSession i app tenant mode loc caps conf created)"
  by (simp_all add: AnalysisSession_def clock_inv_def consent_inv_def fresh_clock_def clock_defs)

section \<open>Captured time is the time spent capturing\<close>

text \<open>The specification of the captured duration: walk the history and add up the wall time that
  passes while the session is in \<open>CAPTURING\<close>, whatever the operations are and whether or not they
  are refused.\<close>

fun time_capturing :: "analysis_session \<Rightarrow> int \<Rightarrow> (int \<times> session_op) list \<Rightarrow> int \<Rightarrow> int" where
  "time_capturing s t [] w = (if as_state s = CAPTURING then w - t else 0)"
| "time_capturing s t (p # ps) w =
     (if as_state s = CAPTURING then fst p - t else 0) +
     time_capturing (apply_op s p) (fst p) ps w"

text \<open>A refused operation changes nothing; an accepted one leaves the reading of the clock where it
  is and restarts it at the wall reading of the operation, if at all.\<close>

lemma do_op_reading:
  assumes "clock_inv s" and "do_op oper s w = Inr s'"
  shows "captured_ms (as_clock s') w = captured_ms (as_clock s) w"
proof -
  have wf: "wf_clock (as_clock s)"
    using assms(1) by (simp add: clock_inv_def)
  show ?thesis
    using assms(2) sc.start_keeps [OF wf] sc.pause_keeps [OF wf]
    by (cases oper) (auto simp: session_op_Inr)
qed

lemma do_op_since:
  assumes "clock_inv s" and "do_op oper s w = Inr s'" and "as_state s' = CAPTURING"
  shows "clock_since (as_clock s') = w \<or>
    as_state s = CAPTURING \<and> clock_since (as_clock s') = clock_since (as_clock s)"
proof -
  have wf: "wf_clock (as_clock s)" and run: "is_running (as_clock s) \<longleftrightarrow> as_state s = CAPTURING"
    using assms(1) by (simp_all add: clock_inv_def)
  show ?thesis
    using assms(2,3) sc.started_at [OF wf] run
    by (cases oper) (auto simp: session_op_Inr)
qed

lemma apply_op_clock:
  assumes "clock_inv s"
  shows "clock_inv (apply_op s p)"
    and "captured_ms (as_clock (apply_op s p)) (fst p) = captured_ms (as_clock s) (fst p)"
    and "as_state (apply_op s p) = CAPTURING \<Longrightarrow>
      as_state s = CAPTURING \<and> clock_since (as_clock s) \<le> t \<or> as_state s \<noteq> CAPTURING \<Longrightarrow>
      t \<le> fst p \<Longrightarrow> clock_since (as_clock (apply_op s p)) \<le> fst p"
  using assms do_op_clock_inv do_op_reading do_op_since [of s "snd p" "fst p"]
  by (force simp: apply_op_def split: sum.splits)+

lemma captured_between:
  assumes "clock_inv s" and "as_state s = CAPTURING \<longrightarrow> clock_since (as_clock s) \<le> t"
    and "t \<le> w" and "captured_ms (as_clock s) t = Inr p"
  shows "captured_ms (as_clock s) w = Inr (p + (if as_state s = CAPTURING then w - t else 0))"
proof -
  have wf: "wf_clock (as_clock s)" and run: "is_running (as_clock s) \<longleftrightarrow> as_state s = CAPTURING"
    using assms(1) by (simp_all add: clock_inv_def)
  show ?thesis
  proof (cases "as_state s = CAPTURING")
    case True
    then show ?thesis
      using sc.running_moves [OF wf _ _ assms(3,4)] run assms(2) by simp
  next
    case False
    then show ?thesis
      using sc.paused_still [OF wf, of w t] run assms(4) by simp
  qed
qed

lemma captured_is_time_capturing_from:
  assumes "clock_inv s" and "as_state s = CAPTURING \<longrightarrow> clock_since (as_clock s) \<le> t"
    and "captured_ms (as_clock s) t = Inr p" and "sorted (t # map fst ops @ [w])"
  shows "session_captured_ms (run_ops s ops) w = Inr (p + time_capturing s t ops w)"
  using assms
proof (induction ops arbitrary: s t p)
  case Nil
  then show ?case
    using captured_between [of s t w p] by (simp add: session_captured_ms_def)
next
  case (Cons x ops)
  have le: "t \<le> fst x" and rest: "sorted (fst x # map fst ops @ [w])"
    using Cons.prems(4) by auto
  let ?p = "p + (if as_state s = CAPTURING then fst x - t else 0)"
  have "captured_ms (as_clock (apply_op s x)) (fst x) = Inr ?p"
    using apply_op_clock(2) [OF Cons.prems(1), of x]
      captured_between [OF Cons.prems(1,2) le Cons.prems(3)] by simp
  moreover have "as_state (apply_op s x) = CAPTURING \<longrightarrow>
      clock_since (as_clock (apply_op s x)) \<le> fst x"
    using apply_op_clock(3) [OF Cons.prems(1), of x t] Cons.prems(2) le by auto
  ultimately have "session_captured_ms (run_ops (apply_op s x) ops) w =
      Inr (?p + time_capturing (apply_op s x) (fst x) ops w)"
    using rest by (intro Cons.IH apply_op_clock(1) [OF Cons.prems(1)])
  then show ?case by (simp add: add.assoc)
qed

section \<open>Properties\<close>

text \<open>A session and a receipt for it, at which the theorems below are instantiated.\<close>

definition sample_session :: analysis_session where
  "sample_session = AnalysisSession (SessionId ''s'') (ApplicationId ''a'') (TenantId ''t'')
     REALTIME ''es-PE''
     \<lparr>cap_audio_codec = PCM16, cap_sample_rate_hz = 16000, cap_locale = ''es-PE'',
      cap_video_format = None, cap_frame_rate_fps = None\<rparr>
     (ConfigurationSnapshotId ''c'') 0"

definition sample_receipt :: consent_receipt where
  "sample_receipt = \<lparr>cr_session_id = SessionId ''s'', cr_policy_version = MkVersion 1 0 0,
     cr_retention = \<lparr>rp_policy_version = MkVersion 1 0 0, rp_retain_raw_media = False,
       rp_raw_media_ttl_seconds = 0, rp_retain_derived_aggregates = True\<rparr>,
     cr_granted_at_ms = 5, cr_withdrawn_at_ms = None\<rparr>"

lemmas sample_defs = sample_session_def sample_receipt_def AnalysisSession_def fresh_clock_def

text \<open>
  C30: Captured time is the time spent capturing. Whatever operations a session goes through, in
  whatever order, with readings of the wall clock that do not go backwards, and including the
  operations it refuses, \<open>captured_ms\<close> is exactly the wall time that passed while the session was in
  \<open>CAPTURING\<close>: pauses, resumptions, completion and failure neither add to it nor lose any of it.
\<close>

theorem captured_is_time_capturing:
  assumes "sorted (map fst ops @ [w])"
  shows "session_captured_ms (run_ops (AnalysisSession i app tenant mode loc caps conf t0) ops) w =
    Inr (time_capturing (AnalysisSession i app tenant mode loc caps conf t0) 0 ops w)"
proof -
  let ?s = "AnalysisSession i app tenant mode loc caps conf t0"
  have st: "as_state ?s = CREATED" and zero: "captured_ms (as_clock ?s) a = Inr 0" for a
    by (simp_all add: AnalysisSession_def fresh_clock_def clock_defs)
  have "session_captured_ms (run_ops ?s ops) w = Inr (0 + time_capturing ?s (hd (map fst ops @ [w])) ops w)"
    using assms st
    by (intro captured_is_time_capturing_from AnalysisSession_inv zero)
      (auto simp: hd_append sorted_append hd_map split: if_splits; cases ops; auto)+
  moreover have "time_capturing ?s a ops w = time_capturing ?s 0 ops w" for a
    using st by (cases ops) simp_all
  ultimately show ?thesis by simp
qed

theorem captured_is_time_capturing_witness:
  "session_captured_ms (run_ops sample_session
     [(5, GiveConsent sample_receipt), (10, BeginCapture), (40, PauseCapture), (70, PauseCapture),
      (100, ResumeCapture), (150, RequestCompletion)]) 900 = Inr 80"
proof -
  have "sorted (map fst [(5::int, GiveConsent sample_receipt), (10, BeginCapture),
      (40, PauseCapture), (70, PauseCapture), (100, ResumeCapture), (150, RequestCompletion)] @ [900])"
    by simp
  then show ?thesis
    unfolding sample_session_def
    by (subst captured_is_time_capturing)
      (simp_all add: apply_op_def session_op_defs sample_defs require_active_def
        consent_is_active_def require_transition_def can_transition_def clock_defs)
qed


text \<open>
  Deletion is final. From \<open>EVIDENCE_DELETED\<close> every operation other than attaching a receipt is
  refused, no history leaves the state, and the captured time is frozen at the value it had.
\<close>

theorem deletion_is_final:
  assumes "as_state s = EVIDENCE_DELETED"
  shows "as_state (run_ops s ops) = EVIDENCE_DELETED \<and>
    session_captured_ms (run_ops s ops) w = session_captured_ms s w \<and>
    do_op oper s w \<in> (case oper of GiveConsent r \<Rightarrow> {with_consent s r}
      | _ \<Rightarrow> {Inl (DomainError IllegalSessionTransition), Inl (DomainError ConsentViolation)})"
proof -
  have refused: "do_op oper s w \<in> (case oper of GiveConsent r \<Rightarrow> {with_consent s r}
      | _ \<Rightarrow> {Inl (DomainError IllegalSessionTransition), Inl (DomainError ConsentViolation)})"
    if "as_state s = EVIDENCE_DELETED" for s oper w
    using that
    by (cases oper; cases "require_consent_for_media s")
      (auto simp: begin_capture_def resume_capture_def pause_capture_def request_completion_def
        mark_completed_def session_fail_def mark_evidence_deleted_def require_transition_def
        can_transition_to require_consent_Inl)
  have still: "as_state (apply_op s p) = EVIDENCE_DELETED \<and> as_clock (apply_op s p) = as_clock s"
    if "as_state s = EVIDENCE_DELETED" for s p
    using refused [OF that, of "snd p" "fst p"] that
    by (cases "snd p") (auto simp: apply_op_def with_consent_def)
  have "as_state (run_ops s ops) = EVIDENCE_DELETED \<and> as_clock (run_ops s ops) = as_clock s"
    using assms
  proof (induction ops arbitrary: s)
    case (Cons p ops)
    then show ?case using still [of s p] by simp
  qed simp
  then show ?thesis
    using refused [OF assms] by (simp add: session_captured_ms_def)
qed

theorem deletion_is_final_witness:
  "as_state (run_ops (sample_session\<lparr>as_state := EVIDENCE_DELETED\<rparr>) [(6, BeginCapture), (7, Fail)]) =
     EVIDENCE_DELETED"
  by (rule deletion_is_final [THEN conjunct1]) simp

definition capture_barred :: "analysis_session \<Rightarrow> bool" where
  "capture_barred s \<longleftrightarrow> clock_inv s \<and> as_state s \<noteq> CAPTURING \<and>
     (\<forall>r. as_consent s = Some r \<longrightarrow> \<not> consent_is_active r)"

lemma barred_pause:
  "capture_barred s \<Longrightarrow> clock_pause (as_clock s) w = Inr c \<Longrightarrow> c = as_clock s"
  by (auto simp: capture_barred_def clock_inv_def clock_pause_def is_running_def split: option.splits)

lemma barred_withdraw: "capture_barred s \<Longrightarrow> as_consent s = Some r \<Longrightarrow> withdraw r w = Inr r"
  by (simp add: capture_barred_def withdraw_def)

lemma barred_begin: "capture_barred s \<Longrightarrow> begin_capture s w \<noteq> Inr s'"
  by (auto simp: capture_barred_def begin_capture_Inr)

lemma barred_do_op:
  assumes "capture_barred s" and "do_op oper s w = Inr s'" and "\<forall>r. oper \<noteq> GiveConsent r"
  shows "as_state s' \<noteq> CAPTURING \<and> as_consent s' = as_consent s \<and> as_clock s' = as_clock s"
proof (cases oper)
  case MarkEvidenceDeleted
  with assms barred_withdraw [OF assms(1)] show ?thesis
    by (cases "as_consent s") (auto simp: mark_evidence_deleted_Inr)
qed (use assms barred_begin [OF assms(1)] barred_pause [OF assms(1)] in
    \<open>force simp: session_op_Inr(3-7)\<close>)+

lemma barred_apply_op:
  assumes "capture_barred s" and "\<forall>r. snd p \<noteq> GiveConsent r"
  shows "capture_barred (apply_op s p) \<and> as_clock (apply_op s p) = as_clock s"
  using assms barred_do_op [OF assms(1) _ assms(2)] do_op_clock_inv
  by (simp add: apply_op_def capture_barred_def split: sum.splits) metis

text \<open>
  C29: Without live consent capture cannot start. A session that is not capturing and whose receipt
  is missing or withdrawn never reaches \<open>CAPTURING\<close> again, and its captured time stands still,
  through any history in which no new receipt is attached.
\<close>

theorem no_capture_without_consent:
  assumes "clock_inv s" and "as_state s \<noteq> CAPTURING"
    and "\<forall>r. as_consent s = Some r \<longrightarrow> \<not> consent_is_active r"
    and "\<forall>p \<in> set ops. \<forall>r. snd p \<noteq> GiveConsent r"
  shows "as_state (run_ops s ops) \<noteq> CAPTURING \<and>
    session_captured_ms (run_ops s ops) w = session_captured_ms s w'"
proof -
  have "capture_barred s"
    using assms(1-3) by (simp add: capture_barred_def)
  then have "capture_barred (run_ops s ops) \<and> as_clock (run_ops s ops) = as_clock s"
    using assms(4)
  proof (induction ops arbitrary: s)
    case (Cons p ops)
    then show ?case using barred_apply_op [of s p] by simp
  qed simp
  then show ?thesis
    using assms(1,2) sc.paused_still [of "as_clock s" w w']
    by (simp add: session_captured_ms_def clock_inv_def capture_barred_def)
qed

theorem no_capture_without_consent_witness:
  "as_state (run_ops sample_session [(5, BeginCapture), (6, MarkEvidenceDeleted)]) \<noteq> CAPTURING \<and>
   session_captured_ms (run_ops sample_session [(5, BeginCapture), (6, MarkEvidenceDeleted)]) 9 =
   session_captured_ms sample_session 0"
  by (rule no_capture_without_consent)
    (simp_all add: sample_session_def AnalysisSession_inv, simp_all add: AnalysisSession_def)

end
