(* ===== verification/Sequencing.thy ===== *)
theory Sequencing
  imports Prelude
begin

text \<open>
  Chunk sequencing (\<open>domain/sessions/sequencing.py\<close>): the mutable ledger of one modality's chunks,
  its verdict on every arrival, and the gaps that are confirmed when the session closes. The two
  Python sets are lists that are read by membership only.
\<close>

section \<open>The ledger\<close>

datatype chunk_verdict = ACCEPTED | DUPLICATE | GAP_DETECTED | OUT_OF_ORDER

record sequence_gap =
  first_missing :: int
  last_missing :: int

definition gap_count :: "sequence_gap \<Rightarrow> int" where
  "gap_count g = last_missing g - first_missing g + 1"

record chunk_ledger =
  highest_seen :: int
  seen_ahead :: "int list"
  accepted_chunks :: "int list"
  ledger_gaps :: "sequence_gap list"
  duplicates :: int

definition ChunkLedger :: chunk_ledger where
  "ChunkLedger = \<lparr>highest_seen = -1, seen_ahead = [], accepted_chunks = [], ledger_gaps = [],
     duplicates = 0\<rparr>"

definition accept_chunk :: "chunk_ledger \<Rightarrow> int \<Rightarrow> chunk_ledger" where
  "accept_chunk l n =
     l\<lparr>accepted_chunks := List.insert n (accepted_chunks l),
       highest_seen := max (highest_seen l) n\<rparr>"

text \<open>The \<open>while\<close> loop of \<open>_drain_ahead\<close>, on the two attributes it reads and writes.\<close>

function drain_ahead :: "int \<Rightarrow> int list \<Rightarrow> int \<times> int list" where
  "drain_ahead h ahead =
     (if h + 1 \<in> set ahead then drain_ahead (h + 1) (removeAll (h + 1) ahead) else (h, ahead))"
  by pat_completeness auto

termination
  by (relation "measure (\<lambda>(h, ahead). length ahead)") (auto intro: length_removeAll_less)

declare drain_ahead.simps [simp del]

definition drain :: "chunk_ledger \<Rightarrow> chunk_ledger" where
  "drain l = (case drain_ahead (highest_seen l) (seen_ahead l) of
     (h, ahead) \<Rightarrow> l\<lparr>highest_seen := h, seen_ahead := ahead\<rparr>)"

definition offer :: "chunk_ledger \<Rightarrow> int \<Rightarrow> (chunk_verdict \<times> chunk_ledger) result" where
  "offer l n =
     (if n < 0 then Inl ValueError
      else if n \<in> set (accepted_chunks l) then Inr (DUPLICATE, l\<lparr>duplicates := duplicates l + 1\<rparr>)
      else let expected = highest_seen l + 1 in
        if n = expected then Inr (ACCEPTED, drain (accept_chunk l n))
        else if n > expected then
          Inr (GAP_DETECTED, accept_chunk (l\<lparr>seen_ahead := List.insert n (seen_ahead l)\<rparr>) n)
        else Inr (OUT_OF_ORDER, accept_chunk l n))"

fun collapse_runs :: "int \<Rightarrow> int \<Rightarrow> int list \<Rightarrow> sequence_gap list" where
  "collapse_runs start previous [] = [\<lparr>first_missing = start, last_missing = previous\<rparr>]"
| "collapse_runs start previous (n # ns) =
     (if n = previous + 1 then collapse_runs start n ns
      else \<lparr>first_missing = start, last_missing = previous\<rparr> # collapse_runs n n ns)"

fun collapse :: "int list \<Rightarrow> sequence_gap list" where
  "collapse [] = []"
| "collapse (m # ms) = collapse_runs m m ms"

definition finalize_ledger :: "chunk_ledger \<Rightarrow> sequence_gap list \<times> chunk_ledger" where
  "finalize_ledger l =
     (let gaps = collapse (sorted_list_of_set (set [0..highest_seen l] - set (accepted_chunks l)))
      in (gaps, l\<lparr>ledger_gaps := gaps\<rparr>))"

definition missing_count :: "chunk_ledger \<Rightarrow> int" where
  "missing_count l = sum_list (map gap_count (ledger_gaps l))"

section \<open>Runs of missing numbers\<close>

definition gap_numbers :: "sequence_gap \<Rightarrow> int list" where
  "gap_numbers g = [first_missing g..last_missing g]"

lemma collapse_runs_numbers:
  "start \<le> previous \<Longrightarrow>
   concat (map gap_numbers (collapse_runs start previous ns)) = [start..previous] @ ns"
proof (induction ns arbitrary: start previous)
  case (Cons n ns)
  then show ?case
    by (simp add: gap_numbers_def upto_rec2 [of start "previous + 1"])
qed (simp add: gap_numbers_def)

lemma collapse_numbers: "concat (map gap_numbers (collapse ms)) = ms"
  by (cases ms) (simp_all add: collapse_runs_numbers)

lemma collapse_runs_nonempty:
  "start \<le> previous \<Longrightarrow> g \<in> set (collapse_runs start previous ns) \<Longrightarrow> first_missing g \<le> last_missing g"
proof (induction ns arbitrary: start previous)
  case (Cons n ns)
  show ?case
  proof (cases "n = previous + 1")
    case True
    then show ?thesis using Cons.IH [of start n] Cons.prems by simp
  next
    case False
    then show ?thesis using Cons.IH [of n n] Cons.prems by auto
  qed
qed simp

lemma collapse_nonempty: "g \<in> set (collapse ms) \<Longrightarrow> first_missing g \<le> last_missing g"
  by (cases ms) (auto dest: collapse_runs_nonempty [rotated])

text \<open>Runs are maximal: at least one number that is not missing lies between two of them.\<close>

lemma collapse_runs_separated:
  "sorted_wrt (<) (previous # ns) \<Longrightarrow> start \<le> previous \<Longrightarrow>
   sorted_wrt (\<lambda>a b. last_missing a + 1 < first_missing b) (collapse_runs start previous ns) \<and>
   (\<forall>g \<in> set (collapse_runs start previous ns). start \<le> first_missing g)"
proof (induction ns arbitrary: start previous)
  case (Cons n ns)
  show ?case
  proof (cases "n = previous + 1")
    case True
    then show ?thesis using Cons.IH [of n start] Cons.prems by simp
  next
    case False
    with Cons.prems have "previous + 1 < n" by simp
    then show ?thesis using Cons.IH [of n n] Cons.prems by fastforce
  qed
qed simp

lemma collapse_separated:
  "sorted_wrt (<) ms \<Longrightarrow> sorted_wrt (\<lambda>a b. last_missing a + 1 < first_missing b) (collapse ms)"
  by (cases ms) (use collapse_runs_separated in \<open>force+\<close>)

lemma collapse_count: "sum_list (map gap_count (collapse ms)) = int (length ms)"
proof -
  have "int (length (concat (map gap_numbers gs))) = sum_list (map gap_count gs)"
    if "\<forall>g \<in> set gs. first_missing g \<le> last_missing g" for gs
    using that by (induction gs) (simp_all add: gap_numbers_def gap_count_def)
  from this [of "collapse ms"] collapse_nonempty [of _ ms] show ?thesis
    by (simp add: collapse_numbers)
qed

section \<open>The ledger after any arrivals\<close>

fun offers :: "chunk_ledger \<Rightarrow> int list \<Rightarrow> chunk_ledger" where
  "offers l [] = l"
| "offers l (n # ns) = (case offer l n of Inl _ \<Rightarrow> offers l ns | Inr (_, l') \<Rightarrow> offers l' ns)"

text \<open>What the ledger knows, as a function of the numbers that arrived.\<close>

definition ledger_for :: "chunk_ledger \<Rightarrow> int list \<Rightarrow> bool" where
  "ledger_for l ns \<longleftrightarrow>
     set (accepted_chunks l) = set ns \<and>
     highest_seen l = Max (insert (-1) (set ns)) \<and>
     duplicates l = int (length ns) - int (card (set ns)) \<and>
     (\<forall>a \<in> set (seen_ahead l). a \<le> highest_seen l)"

lemma drain_idle: "\<forall>a \<in> set (seen_ahead l). a \<le> highest_seen l \<Longrightarrow> drain l = l"
  by (subst drain_def, subst drain_ahead.simps) auto

lemma Max_insert_bot: "Max (insert (-1) (insert n S)) = max (Max (insert (-1) S)) n"
  if "finite S" for n :: int
  using that by (subst insert_commute) (simp add: max.commute)

lemma offer_ledger_for:
  assumes "ledger_for l ns" and "offer l n = Inr (v, l')"
  shows "ledger_for l' (ns @ [n])"
proof -
  let ?h = "highest_seen l"
  have h: "?h = Max (insert (-1) (set ns))" and ahead: "\<forall>a \<in> set (seen_ahead l). a \<le> ?h"
    and acc: "set (accepted_chunks l) = set ns"
    and dup: "duplicates l = int (length ns) - int (card (set ns))"
    using assms(1) unfolding ledger_for_def by blast+
  show ?thesis
  proof (cases "n \<in> set ns")
    case True
    with assms(2) acc have "l' = l\<lparr>duplicates := duplicates l + 1\<rparr>"
      by (simp add: offer_def split: if_splits)
    moreover have "set (ns @ [n]) = set ns"
      using True by auto
    ultimately show ?thesis
      unfolding ledger_for_def using h ahead acc dup by simp
  next
    case False
    have idle: "drain (accept_chunk l n) = accept_chunk l n"
      by (rule drain_idle) (use ahead in \<open>auto simp: accept_chunk_def\<close>)
    have "l' = accept_chunk l n \<or>
        l' = accept_chunk (l\<lparr>seen_ahead := List.insert n (seen_ahead l)\<rparr>) n"
      using assms(2) False acc idle by (auto simp: offer_def Let_def split: if_splits)
    then have "set (accepted_chunks l') = insert n (set ns)" "highest_seen l' = max ?h n"
      "duplicates l' = duplicates l" "\<forall>a \<in> set (seen_ahead l'). a \<le> max ?h n"
      using ahead acc by (auto simp: accept_chunk_def intro: max.coboundedI1)
    then show ?thesis
      using h dup False by (simp add: ledger_for_def Max_insert_bot del: Max_insert)
  qed
qed

lemma offers_ledger_for:
  "ledger_for l ns \<Longrightarrow> ledger_for (offers l ms) (ns @ filter (\<lambda>n. 0 \<le> n) ms)"
proof (induction ms arbitrary: l ns)
  case (Cons m ms)
  show ?case
  proof (cases "offer l m")
    case (Inl e)
    then have "m < 0" by (auto simp: offer_def Let_def split: if_splits)
    with Inl Cons show ?thesis by simp
  next
    case (Inr p)
    moreover obtain v l' where "p = (v, l')" by (cases p)
    moreover have "0 \<le> m" using Inr by (auto simp: offer_def split: if_splits)
    ultimately show ?thesis
      using Cons.IH [OF offer_ledger_for [OF Cons.prems]] by simp
  qed
qed simp

lemma ChunkLedger_for: "ledger_for ChunkLedger []"
  by (simp add: ledger_for_def ChunkLedger_def)

lemma ledger_for_offers: "ledger_for (offers ChunkLedger ms) (filter (\<lambda>n. 0 \<le> n) ms)"
  using offers_ledger_for [OF ChunkLedger_for] by simp

section \<open>Properties\<close>

text \<open>
  The verdict on a chunk. After any arrivals a chunk is a duplicate exactly when its number
  has arrived before, accepted when it is one above the highest number seen so far, a gap when it
  is further ahead, out of order when it is behind; a negative number is refused. Duplicates are
  counted, and the highest number seen is the maximum of the arrivals.
\<close>

theorem offer_verdict:
  "let l = offers ChunkLedger ms; seen = filter (\<lambda>n. 0 \<le> n) ms; h = Max (insert (-1) (set seen))
   in highest_seen l = h \<and>
      duplicates l = int (length seen) - int (card (set seen)) \<and>
      map_sum id fst (offer l n) =
        (if n < 0 then Inl ValueError
         else if n \<in> set seen then Inr DUPLICATE
         else if n = h + 1 then Inr ACCEPTED
         else if n > h + 1 then Inr GAP_DETECTED
         else Inr OUT_OF_ORDER)"
  using ledger_for_offers [of ms]
  by (simp add: Let_def ledger_for_def offer_def del: Max_insert set_filter)

text \<open>
  The confirmed gaps. After any arrivals, in any order and with any redeliveries, \<open>finalize\<close>
  lists exactly the numbers up to the highest one seen that never arrived: the gaps read in order
  enumerate them in ascending order, each once, no gap is empty, two consecutive gaps are separated
  by a number that did arrive, and \<open>missing_count\<close> is how many there are.
\<close>

theorem finalize_gaps:
  "let l = offers ChunkLedger ms; (gaps, l') = finalize_ledger l;
       seen = {n \<in> set ms. 0 \<le> n}; missing = {0..Max (insert (-1) seen)} - seen
   in concat (map gap_numbers gaps) = sorted_list_of_set missing \<and>
      list_all (\<lambda>g. first_missing g \<le> last_missing g) gaps \<and>
      sorted_wrt (\<lambda>a b. last_missing a + 1 < first_missing b) gaps \<and>
      ledger_gaps l' = gaps \<and> missing_count l' = int (card missing)"
proof -
  let ?l = "offers ChunkLedger ms"
  let ?seen = "{n \<in> set ms. 0 \<le> n}"
  let ?missing = "{0..Max (insert (-1) ?seen)} - ?seen"
  have set_eq: "set [0..highest_seen ?l] - set (accepted_chunks ?l) = ?missing"
    using ledger_for_offers [of ms] by (simp add: ledger_for_def del: Max_insert)
  have fin: "finite ?missing" by simp
  have sorted: "sorted_wrt (<) (sorted_list_of_set ?missing)"
    by simp
  show ?thesis
    unfolding finalize_ledger_def Let_def set_eq prod.case
    using collapse_separated [OF sorted] collapse_nonempty [of _ "sorted_list_of_set ?missing"]
    by (simp add: collapse_numbers missing_count_def collapse_count list_all_iff
        del: Max_insert set_upto)
qed

text \<open>
  \<open>_drain_ahead\<close> never does anything. A chunk that arrives ahead raises \<open>highest_seen\<close> to
  itself at once, so after any arrivals and one more accepted chunk nothing waits above the highest
  number and the loop exits at its first test: the expected number is never behind a gap.
\<close>

theorem drain_is_idle: "drain (accept_chunk (offers ChunkLedger ms) n) = accept_chunk (offers ChunkLedger ms) n"
  using ledger_for_offers [of ms]
  by (intro drain_idle) (auto simp: ledger_for_def accept_chunk_def le_max_iff_disj simp del: Max_insert)

end
