(* ===== verification/Finalizable.thy ===== *)
theory Finalizable
  imports Prelude
begin

text \<open>
  The provisional-to-final life of what the engine publishes (tokens, speech events, visual
  events): \<open>finalize\<close> promotes a value once, keeps its identity and its content, and is the identity
  on what is already final. Promotion rebuilds the value, so it runs the checks of the constructor;
  the contract says they pass on a value that was built by the constructor.
\<close>

locale finalizable =
  fixes wf :: "'a \<Rightarrow> bool"
    and is_final :: "'a \<Rightarrow> bool"
    and finalize :: "'a \<Rightarrow> 'a result"
    and ident :: "'a \<Rightarrow> 'i"
    and content :: "'a \<Rightarrow> 'c"
  assumes finalize_total:
      "wf x \<Longrightarrow> \<exists>y. finalize x = Inr y \<and> wf y \<and> is_final y \<and> ident y = ident x \<and> content y = content x"
    and finalize_final: "is_final x \<Longrightarrow> finalize x = Inr x"
begin

lemma finalize_wf: "wf x \<Longrightarrow> finalize x = Inr y \<Longrightarrow> wf y"
  using finalize_total [of x] by auto

lemma finalize_is_final: "wf x \<Longrightarrow> finalize x = Inr y \<Longrightarrow> is_final y"
  using finalize_total [of x] by auto

lemma finalize_ident: "wf x \<Longrightarrow> finalize x = Inr y \<Longrightarrow> ident y = ident x"
  using finalize_total [of x] by auto

lemma finalize_content: "wf x \<Longrightarrow> finalize x = Inr y \<Longrightarrow> content y = content x"
  using finalize_total [of x] by auto

lemma finalize_no_error: "wf x \<Longrightarrow> finalize x \<noteq> Inl e"
  using finalize_total [of x] by auto

lemma finalize_idem: "wf x \<Longrightarrow> finalize x = Inr y \<Longrightarrow> finalize y = Inr y"
  using finalize_is_final finalize_final by blast

text \<open>Promoting the elements of a list that satisfy a condition.\<close>

lemma promote_total:
  assumes "\<forall>x \<in> set xs. wf x"
  shows "\<exists>ys. mapR (\<lambda>x. if P x then finalize x else Inr x) xs = Inr ys"
  by (rule mapR_Inr_ex) (use assms finalize_total in auto)

lemma promote_pointwise:
  assumes "\<forall>x \<in> set xs. wf x" and "mapR (\<lambda>x. if P x then finalize x else Inr x) xs = Inr ys"
  shows "list_all2 (\<lambda>x y. wf y \<and> ident y = ident x \<and> content y = content x \<and>
    is_final y = (is_final x \<or> P x) \<and> (is_final x \<or> \<not> P x \<longrightarrow> y = x)) xs ys"
proof -
  have pt: "list_all2 (\<lambda>x y. (if P x then finalize x else Inr x) = Inr y) xs ys"
    using assms(2) by (simp add: mapR_eq_Inr)
  have one: "wf y \<and> ident y = ident x \<and> content y = content x \<and>
      is_final y = (is_final x \<or> P x) \<and> (is_final x \<or> \<not> P x \<longrightarrow> y = x)"
    if "wf x" "(if P x then finalize x else Inr x) = Inr y" for x y
    using finalize_total [OF that(1)] finalize_final [of x] that by (cases "P x") auto
  have "list_all2 (\<lambda>x y. x \<in> set xs \<and> (if P x then finalize x else Inr x) = Inr y) xs ys"
    using pt by (simp add: list_all2_conv_all_nth)
  then show ?thesis
    by (rule list_all2_mono) (use assms(1) one in blast)
qed

lemma promote_idents:
  assumes "\<forall>x \<in> set xs. wf x" and "mapR (\<lambda>x. if P x then finalize x else Inr x) xs = Inr ys"
  shows "map ident ys = map ident xs \<and> map content ys = map content xs"
  using promote_pointwise [OF assms] by (induction rule: list_all2_induct) simp_all

lemma promote_keeps_final:
  assumes "\<forall>x \<in> set xs. wf x" and "mapR (\<lambda>x. if P x then finalize x else Inr x) xs = Inr ys"
  shows "mset (filter is_final xs) \<subseteq># mset (filter is_final ys)"
  using promote_pointwise [OF assms]
proof (induction rule: list_all2_induct)
  case (Cons x xs y ys)
  show ?case
  proof (cases "is_final x")
    case True
    with Cons.hyps(1) Cons.IH show ?thesis by simp
  next
    case False
    have "mset (filter is_final ys) \<subseteq># mset (filter is_final (y # ys))"
      by simp
    with False Cons.IH show ?thesis
      by (metis filter.simps(2) subset_mset.order_trans)
  qed
qed simp

lemma promote_again:
  assumes "\<forall>x \<in> set xs. wf x" and "mapR (\<lambda>x. if P x then finalize x else Inr x) xs = Inr ys"
    and "\<And>x y. ident x = ident y \<Longrightarrow> content x = content y \<Longrightarrow> P x = P y"
  shows "mapR (\<lambda>x. if P x then finalize x else Inr x) ys = Inr ys"
proof -
  have "\<forall>y \<in> set ys. P y \<longrightarrow> is_final y"
    using promote_pointwise [OF assms(1,2)]
  proof (induction rule: list_all2_induct)
    case (Cons x xs y ys)
    have "P y = P x" by (rule assms(3)) (use Cons.hyps(1) in blast)+
    then have "P y \<longrightarrow> is_final y" using Cons.hyps(1) by blast
    with Cons.IH show ?case by simp
  qed simp
  then have "mapR (\<lambda>x. if P x then finalize x else Inr x) ys = Inr (map (\<lambda>y. y) ys)"
    by (intro mapR_Inr_map) (auto dest: finalize_final)
  then show ?thesis by simp
qed

end

end
