(* ===== verification/Transcript.thy ===== *)
theory Transcript
  imports Timeline Measurement Provenance Finalizable
begin

text \<open>
  Word tokens (\<open>domain/transcript/tokens.py\<close>) and the verbatim transcript with its finalized
  frontier (\<open>domain/transcript/transcript.py\<close>).
\<close>

section \<open>Tokens\<close>

datatype token_status = PROVISIONAL | FINAL

record word_token =
  wt_id :: token_id
  wt_raw_text :: string
  wt_interval :: interval
  wt_confidence :: confidence
  wt_status :: token_status

definition WordToken ::
  "token_id \<Rightarrow> string \<Rightarrow> interval \<Rightarrow> confidence \<Rightarrow> token_status \<Rightarrow> word_token result" where
  "WordToken i txt iv conf status =
     (if txt = [] then Inl (DomainError TranscriptViolation)
      else Inr \<lparr>wt_id = i, wt_raw_text = txt, wt_interval = iv, wt_confidence = conf,
                wt_status = status\<rparr>)"

definition token_is_final :: "word_token \<Rightarrow> bool" where
  "token_is_final t \<longleftrightarrow> wt_status t = FINAL"

definition token_finalize :: "word_token \<Rightarrow> word_token result" where
  "token_finalize t =
     (if token_is_final t then Inr t
      else WordToken (wt_id t) (wt_raw_text t) (wt_interval t) (wt_confidence t) FINAL)"

definition token_revise ::
  "word_token \<Rightarrow> string \<Rightarrow> interval \<Rightarrow> confidence \<Rightarrow> word_token result" where
  "token_revise t txt iv conf =
     (if token_is_final t then Inl (DomainError TranscriptViolation)
      else WordToken (wt_id t) txt iv conf PROVISIONAL)"

definition wf_token :: "word_token \<Rightarrow> bool" where
  "wf_token t \<longleftrightarrow> wt_raw_text t \<noteq> [] \<and> wf_interval (wt_interval t)"

lemma WordToken_Inr:
  "WordToken i txt iv conf status = Inr t \<longleftrightarrow> txt \<noteq> [] \<and>
     t = \<lparr>wt_id = i, wt_raw_text = txt, wt_interval = iv, wt_confidence = conf, wt_status = status\<rparr>"
  by (auto simp: WordToken_def)

definition token_content :: "word_token \<Rightarrow> string \<times> interval \<times> confidence" where
  "token_content t = (wt_raw_text t, wt_interval t, wt_confidence t)"

interpretation tok: finalizable wf_token token_is_final token_finalize wt_id token_content
  by unfold_locales
    (auto simp: token_finalize_def WordToken_def wf_token_def token_is_final_def token_content_def)

section \<open>The transcript\<close>

record transcript =
  tr_tokens :: "word_token list"

definition token_ordering :: "word_token \<Rightarrow> int \<times> int \<times> string" where
  "token_ordering t = (start_ms (wt_interval t), end_ms (wt_interval t), token_id_value (wt_id t))"

definition max_default :: "int \<Rightarrow> int list \<Rightarrow> int" where
  "max_default d xs = (case xs of [] \<Rightarrow> d | y # ys \<Rightarrow> fold max ys y)"

definition finalized_frontier :: "transcript \<Rightarrow> monotonic_time result" where
  "finalized_frontier tr =
     (let finalized_ends = map (\<lambda>t. end_ms (wt_interval t)) (filter token_is_final (tr_tokens tr))
      in MonotonicTime (max_default 0 finalized_ends))"

definition final_tokens :: "transcript \<Rightarrow> word_token list" where
  "final_tokens tr = filter token_is_final (tr_tokens tr)"

definition provisional_tokens :: "transcript \<Rightarrow> word_token list" where
  "provisional_tokens tr = filter (\<lambda>t. \<not> token_is_final t) (tr_tokens tr)"

definition join_with :: "string \<Rightarrow> string list \<Rightarrow> string" where
  "join_with sep xs = (case xs of [] \<Rightarrow> [] | y # ys \<Rightarrow> y @ concat (map (\<lambda>z. sep @ z) ys))"

definition transcript_raw_text :: "transcript \<Rightarrow> string" where
  "transcript_raw_text tr = join_with '' '' (map wt_raw_text (tr_tokens tr))"

text \<open>The loop over the fresh tokens only raises, so it is a test for the first offender.\<close>

definition with_provisional :: "transcript \<Rightarrow> word_token list \<Rightarrow> transcript result" where
  "with_provisional tr incoming =
     bindR (finalized_frontier tr) (\<lambda>frontier.
       let kept = filter token_is_final (tr_tokens tr);
           fresh = sort_key token_ordering incoming
       in if \<exists>t \<in> set fresh. start_ms (wt_interval t) < mt_ms frontier
          then Inl (DomainError TranscriptViolation)
          else Inr \<lparr>tr_tokens = sort_key token_ordering (kept @ fresh)\<rparr>)"

definition finalize_through :: "transcript \<Rightarrow> monotonic_time \<Rightarrow> transcript result" where
  "finalize_through tr boundary =
     bindR (finalized_frontier tr) (\<lambda>frontier.
       if mt_ms boundary < mt_ms frontier then Inl (DomainError TranscriptViolation)
       else bindR (mapR (\<lambda>t. if end_ms (wt_interval t) \<le> mt_ms boundary then token_finalize t
                              else Inr t) (tr_tokens tr)) (\<lambda>promoted.
         Inr \<lparr>tr_tokens = promoted\<rparr>))"

definition transcript_within :: "transcript \<Rightarrow> monotonic_time \<Rightarrow> monotonic_time \<Rightarrow> word_token list" where
  "transcript_within tr start fin =
     filter (\<lambda>t. mt_ms start \<le> start_ms (wt_interval t) \<and> start_ms (wt_interval t) < mt_ms fin)
       (tr_tokens tr)"

definition transcript_count :: "transcript \<Rightarrow> token_status option \<Rightarrow> nat" where
  "transcript_count tr status =
     (case status of
        None \<Rightarrow> length (tr_tokens tr)
      | Some st \<Rightarrow> length (filter (\<lambda>t. wt_status t = st) (tr_tokens tr)))"

definition transcript_build :: "word_token list \<Rightarrow> transcript" where
  "transcript_build tokens = \<lparr>tr_tokens = sort_key token_ordering tokens\<rparr>"

interpretation tok_order: canonical_order token_ordering "sort_key token_ordering"
  by (rule canonical_order_sort_key)

section \<open>The frontier\<close>

definition wf_transcript :: "transcript \<Rightarrow> bool" where
  "wf_transcript tr \<longleftrightarrow>
     (\<forall>t \<in> set (tr_tokens tr). wf_token t) \<and> sorted (map token_ordering (tr_tokens tr))"

definition frontier_ms :: "transcript \<Rightarrow> int" where
  "frontier_ms tr = Max (insert 0 ((\<lambda>t. end_ms (wt_interval t)) ` set (final_tokens tr)))"

lemma fold_max_Max: "fold max ys (y::int) = Max (insert y (set ys))"
  by (simp add: Max.set_eq_fold [symmetric])

lemma finalized_frontier_eq:
  assumes "wf_transcript tr"
  shows "finalized_frontier tr = Inr (MkTime (frontier_ms tr))"
proof -
  let ?ends = "map (\<lambda>t. end_ms (wt_interval t)) (filter token_is_final (tr_tokens tr))"
  have nonneg: "\<forall>e \<in> set ?ends. 0 \<le> e"
    using assms by (auto simp: wf_transcript_def wf_token_def wf_interval_def)
  have "max_default 0 ?ends = Max (insert 0 (set ?ends))"
  proof (cases ?ends)
    case (Cons e es)
    then have "0 \<le> e" using nonneg by (metis list.set_intros(1))
    then have "Max (insert 0 (insert e (set es))) = Max (insert e (set es))"
      by (subst Max_insert) (auto simp: max_def Max_ge_iff)
    then show ?thesis
      by (simp only: Cons max_default_def list.case fold_max_Max list.set)
  qed (simp add: max_default_def)
  then show ?thesis
    by (simp add: finalized_frontier_def frontier_ms_def final_tokens_def Let_def del: Max_insert)
qed

lemma frontier_nonneg: "0 \<le> frontier_ms tr"
  by (simp add: frontier_ms_def del: Max_insert)

lemma frontier_mono:
  assumes "set (final_tokens tr) \<subseteq> set (final_tokens tr')"
  shows "frontier_ms tr \<le> frontier_ms tr'"
  unfolding frontier_ms_def by (rule Max_mono) (use assms in auto)

lemma frontier_le_iff:
  "frontier_ms tr \<le> b \<longleftrightarrow> 0 \<le> b \<and> (\<forall>t \<in> set (final_tokens tr). end_ms (wt_interval t) \<le> b)"
  by (simp add: frontier_ms_def del: Max_insert)

section \<open>What each operation does\<close>

lemma wf_transcript_finalD: "wf_transcript tr \<Longrightarrow> t \<in> set (tr_tokens tr) \<Longrightarrow> wf_token t"
  by (simp add: wf_transcript_def)

lemma wf_transcript_build: "\<forall>t \<in> set ts. wf_token t \<Longrightarrow> wf_transcript (transcript_build ts)"
  by (simp add: wf_transcript_def transcript_build_def tok_order.set_ordered tok_order.sorted_ordered)

lemma with_provisional_eq:
  assumes "wf_transcript tr"
  shows "with_provisional tr incoming =
    (if \<exists>t \<in> set incoming. start_ms (wt_interval t) < frontier_ms tr
     then Inl (DomainError TranscriptViolation)
     else Inr (transcript_build (final_tokens tr @ sort_key token_ordering incoming)))"
  by (simp add: with_provisional_def finalized_frontier_eq [OF assms] transcript_build_def
      final_tokens_def Let_def)

lemma with_provisional_tokens:
  assumes "wf_transcript tr" and "with_provisional tr incoming = Inr tr'"
  shows "mset (tr_tokens tr') = mset (final_tokens tr) + mset incoming"
  using assms by (auto simp: with_provisional_eq transcript_build_def split: if_splits)

lemma with_provisional_wf:
  assumes "wf_transcript tr" and "\<forall>t \<in> set incoming. wf_token t"
    and "with_provisional tr incoming = Inr tr'"
  shows "wf_transcript tr'"
  using assms
  by (auto simp: with_provisional_eq final_tokens_def wf_transcript_finalD
      intro!: wf_transcript_build split: if_splits)

text \<open>\<open>finalize_through\<close> promotes in place: everything but the status of a token stays.\<close>

lemma finalize_through_eq:
  assumes "wf_transcript tr"
  shows "finalize_through tr b =
    (if mt_ms b < frontier_ms tr then Inl (DomainError TranscriptViolation)
     else bindR (mapR (\<lambda>t. if end_ms (wt_interval t) \<le> mt_ms b then token_finalize t else Inr t)
       (tr_tokens tr)) (\<lambda>ts. Inr \<lparr>tr_tokens = ts\<rparr>))"
  by (simp add: finalize_through_def finalized_frontier_eq [OF assms])

lemma finalize_through_pointwise:
  assumes "wf_transcript tr" and "finalize_through tr b = Inr tr'"
  shows "list_all2 (\<lambda>t t'. wf_token t' \<and> wt_id t' = wt_id t \<and> token_content t' = token_content t \<and>
    token_is_final t' = (token_is_final t \<or> end_ms (wt_interval t) \<le> mt_ms b) \<and>
    (token_is_final t \<or> \<not> end_ms (wt_interval t) \<le> mt_ms b \<longrightarrow> t' = t))
    (tr_tokens tr) (tr_tokens tr')"
proof -
  have "mapR (\<lambda>t. if end_ms (wt_interval t) \<le> mt_ms b then token_finalize t else Inr t)
      (tr_tokens tr) = Inr (tr_tokens tr')"
    using assms by (auto simp: finalize_through_eq split: if_splits)
  then show ?thesis
    using assms(1) by (intro tok.promote_pointwise) (simp_all add: wf_transcript_def)
qed

lemma finalize_through_total:
  assumes "wf_transcript tr" and "frontier_ms tr \<le> mt_ms b"
  shows "\<exists>tr'. finalize_through tr b = Inr tr'"
  using tok.promote_total [of "tr_tokens tr" "\<lambda>t. end_ms (wt_interval t) \<le> mt_ms b"] assms
  by (auto simp: finalize_through_eq wf_transcript_def)

lemma token_ordering_content:
  "wt_id t' = wt_id t \<Longrightarrow> token_content t' = token_content t \<Longrightarrow> token_ordering t' = token_ordering t"
  by (simp add: token_content_def token_ordering_def)

lemma finalize_through_ordering:
  assumes "wf_transcript tr" and "finalize_through tr b = Inr tr'"
  shows "map token_ordering (tr_tokens tr') = map token_ordering (tr_tokens tr)"
  using finalize_through_pointwise [OF assms]
proof (induction rule: list_all2_induct)
  case (Cons t ts t' ts')
  then have "token_ordering t' = token_ordering t"
    by (intro token_ordering_content) simp_all
  with Cons.IH show ?case by simp
qed simp

lemma finalize_through_wf:
  assumes "wf_transcript tr" and "finalize_through tr b = Inr tr'"
  shows "wf_transcript tr'"
proof -
  have "\<forall>t \<in> set (tr_tokens tr'). wf_token t"
    using finalize_through_pointwise [OF assms] by (induction rule: list_all2_induct) simp_all
  then show ?thesis
    using assms(1) finalize_through_ordering [OF assms] by (simp add: wf_transcript_def)
qed

lemma finalize_through_finals:
  assumes "wf_transcript tr" and "finalize_through tr b = Inr tr'"
  shows "mset (final_tokens tr) \<subseteq># mset (final_tokens tr')"
proof -
  have "mapR (\<lambda>t. if end_ms (wt_interval t) \<le> mt_ms b then token_finalize t else Inr t)
      (tr_tokens tr) = Inr (tr_tokens tr')"
    using assms by (auto simp: finalize_through_eq split: if_splits)
  then show ?thesis
    unfolding final_tokens_def
    using assms(1) by (intro tok.promote_keeps_final) (simp_all add: wf_transcript_def)
qed

lemma with_provisional_finals:
  assumes "wf_transcript tr" and "with_provisional tr incoming = Inr tr'"
  shows "mset (final_tokens tr') = mset (final_tokens tr) + mset (filter token_is_final incoming)"
proof -
  have "mset (final_tokens tr') = filter_mset token_is_final (mset (tr_tokens tr'))"
    by (simp add: final_tokens_def)
  also have "\<dots> = filter_mset token_is_final (mset (final_tokens tr) + mset incoming)"
    by (simp only: with_provisional_tokens [OF assms])
  finally show ?thesis
    by (simp add: final_tokens_def filter_filter_mset)
qed

section \<open>Histories of a transcript\<close>

datatype transcript_op =
    WithProvisional "word_token list"
  | FinalizeThrough monotonic_time

fun do_transcript_op :: "transcript_op \<Rightarrow> transcript \<Rightarrow> transcript result" where
  "do_transcript_op (WithProvisional incoming) tr = with_provisional tr incoming"
| "do_transcript_op (FinalizeThrough b) tr = finalize_through tr b"

fun wf_transcript_op :: "transcript_op \<Rightarrow> bool" where
  "wf_transcript_op (WithProvisional incoming) = (\<forall>t \<in> set incoming. wf_token t)"
| "wf_transcript_op (FinalizeThrough b) = True"

definition transcript_after :: "transcript \<Rightarrow> transcript_op list \<Rightarrow> transcript" where
  "transcript_after tr ops =
     foldl (\<lambda>t oper. case do_transcript_op oper t of Inl _ \<Rightarrow> t | Inr t' \<Rightarrow> t') tr ops"

lemma do_transcript_op_wf:
  "wf_transcript tr \<Longrightarrow> wf_transcript_op oper \<Longrightarrow> do_transcript_op oper tr = Inr tr' \<Longrightarrow> wf_transcript tr'"
  by (cases oper) (auto intro: with_provisional_wf finalize_through_wf)

lemma do_transcript_op_finals:
  "wf_transcript tr \<Longrightarrow> do_transcript_op oper tr = Inr tr' \<Longrightarrow>
   mset (final_tokens tr) \<subseteq># mset (final_tokens tr')"
  by (cases oper) (auto simp: with_provisional_finals intro: finalize_through_finals)

text \<open>
  Finalized history is never rewritten. Whatever sequence of provisional replacements and
  finalizations a transcript goes through, accepted or refused, every token that was final at some
  point is there afterwards with its identity, text, boundaries and confidence unchanged and as
  often as before, the tokens stay in canonical order, and the finalized frontier never moves back.
\<close>

theorem final_tokens_never_rewritten:
  assumes "wf_transcript tr" and "list_all wf_transcript_op ops"
  shows "mset (final_tokens tr) \<subseteq># mset (final_tokens (transcript_after tr ops)) \<and>
    wf_transcript (transcript_after tr ops) \<and>
    frontier_ms tr \<le> frontier_ms (transcript_after tr ops)"
proof -
  have "mset (final_tokens tr) \<subseteq># mset (final_tokens (transcript_after tr ops)) \<and>
      wf_transcript (transcript_after tr ops)"
    using assms
  proof (induction ops arbitrary: tr)
    case (Cons oper ops)
    let ?tr = "transcript_after tr [oper]"
    have "wf_transcript ?tr \<and> mset (final_tokens tr) \<subseteq># mset (final_tokens ?tr)"
      using do_transcript_op_wf [OF Cons.prems(1), of oper]
        do_transcript_op_finals [OF Cons.prems(1), of oper] Cons.prems
      by (auto simp: transcript_after_def split: sum.splits)
    with Cons.IH [of ?tr] Cons.prems(2) show ?case
      by (auto simp: transcript_after_def intro: subset_mset.order_trans)
  qed (simp add: transcript_after_def)
  moreover have "set (final_tokens tr) \<subseteq> set (final_tokens (transcript_after tr ops))"
    using calculation set_mset_mono by fastforce
  ultimately show ?thesis
    by (simp add: frontier_mono)
qed

text \<open>Three tokens at which the theorems are instantiated.\<close>

definition sample_token :: "string \<Rightarrow> int \<Rightarrow> int \<Rightarrow> token_status \<Rightarrow> word_token" where
  "sample_token name s e status =
     \<lparr>wt_id = TokenId name, wt_raw_text = name,
      wt_interval = \<lparr>iv_start = MkTime s, iv_end = MkTime e, iv_tolerance_ms = 250\<rparr>,
      wt_confidence = MkConfidence (1/2) RAW, wt_status = status\<rparr>"

lemma sample_token_wf: "name \<noteq> [] \<Longrightarrow> 0 \<le> s \<Longrightarrow> s \<le> e \<Longrightarrow> wf_token (sample_token name s e st)"
  by (simp add: sample_token_def wf_token_def wf_interval_def)

theorem final_tokens_never_rewritten_witness:
  "let tr = transcript_build [sample_token ''este'' 0 300 FINAL, sample_token ''o'' 350 400 PROVISIONAL];
       ops = [WithProvisional [sample_token ''otro'' 340 500 PROVISIONAL], FinalizeThrough (MkTime 600),
              WithProvisional [sample_token ''tarde'' 100 200 PROVISIONAL]]
   in mset (final_tokens tr) \<subseteq># mset (final_tokens (transcript_after tr ops))"
proof -
  have "wf_transcript (transcript_build
      [sample_token ''este'' 0 300 FINAL, sample_token ''o'' 350 400 PROVISIONAL])"
    by (rule wf_transcript_build) (simp add: sample_token_wf)
  moreover have "list_all wf_transcript_op
      [WithProvisional [sample_token ''otro'' 340 500 PROVISIONAL], FinalizeThrough (MkTime 600),
       WithProvisional [sample_token ''tarde'' 100 200 PROVISIONAL]]"
    by (simp add: sample_token_wf)
  ultimately show ?thesis
    unfolding Let_def by (rule final_tokens_never_rewritten [THEN conjunct1])
qed

text \<open>
  Replacing the revisable tail. A new hypothesis is refused exactly when one of its tokens
  starts behind the frontier. Otherwise every earlier provisional token is gone, wherever it lay,
  the final tokens are the earlier ones together with what the hypothesis itself declares final,
  and the provisional ones are exactly those of the hypothesis.
\<close>

theorem provisional_tail_replaced:
  assumes "wf_transcript tr"
  shows "case with_provisional tr incoming of
      Inl e \<Rightarrow> e = DomainError TranscriptViolation \<and>
        (\<exists>t \<in> set incoming. start_ms (wt_interval t) < frontier_ms tr)
    | Inr tr' \<Rightarrow> list_all (\<lambda>t. frontier_ms tr \<le> start_ms (wt_interval t)) incoming \<and>
        mset (final_tokens tr') = mset (final_tokens tr) + mset (filter token_is_final incoming) \<and>
        mset (provisional_tokens tr') = mset (filter (\<lambda>t. \<not> token_is_final t) incoming) \<and>
        sorted (map token_ordering (tr_tokens tr'))"
proof (cases "with_provisional tr incoming")
  case (Inl e)
  with assms show ?thesis
    by (auto simp: with_provisional_eq split: if_splits)
next
  case (Inr tr')
  have "mset (provisional_tokens tr') = filter_mset (\<lambda>t. \<not> token_is_final t) (mset (tr_tokens tr'))"
    by (simp add: provisional_tokens_def)
  also have "\<dots> = mset (filter (\<lambda>t. \<not> token_is_final t) incoming)"
    by (simp add: with_provisional_tokens [OF assms Inr] final_tokens_def filter_filter_mset)
  finally show ?thesis
    using Inr assms with_provisional_finals [OF assms Inr]
    by (auto simp: with_provisional_eq transcript_build_def tok_order.sorted_ordered list_all_iff
        not_less split: if_splits)
qed

theorem provisional_tail_replaced_witness:
  "with_provisional (transcript_build [sample_token ''a'' 0 300 FINAL])
     [sample_token ''b'' 200 400 PROVISIONAL] = Inl (DomainError TranscriptViolation)"
proof -
  have wf: "wf_transcript (transcript_build [sample_token ''a'' 0 300 FINAL])"
    by (rule wf_transcript_build) (simp add: sample_token_wf)
  have "frontier_ms (transcript_build [sample_token ''a'' 0 300 FINAL]) = 300"
    by (simp add: frontier_ms_def final_tokens_def transcript_build_def sample_token_def
        token_is_final_def)
  then show ?thesis
    using provisional_tail_replaced [OF wf, of "[sample_token ''b'' 200 400 PROVISIONAL]"]
    by (auto simp: sample_token_def split: sum.splits)
qed

text \<open>
  Finalizing through a boundary. It is refused exactly when the boundary lies behind the
  frontier. Otherwise a token is final afterwards exactly when it was before or ends by the
  boundary; identities, texts, intervals, confidences and the order of the tokens are unchanged,
  the new frontier does not pass the boundary, and doing it again changes nothing.
\<close>

theorem finalize_through_boundary:
  assumes "wf_transcript tr"
  shows "case finalize_through tr b of
      Inl e \<Rightarrow> e = DomainError TranscriptViolation \<and> mt_ms b < frontier_ms tr
    | Inr tr' \<Rightarrow> frontier_ms tr \<le> mt_ms b \<and> frontier_ms tr' \<le> mt_ms b \<and>
        map (\<lambda>t. (wt_id t, token_content t)) (tr_tokens tr') =
        map (\<lambda>t. (wt_id t, token_content t)) (tr_tokens tr) \<and>
        map token_is_final (tr_tokens tr') =
        map (\<lambda>t. token_is_final t \<or> end_ms (wt_interval t) \<le> mt_ms b) (tr_tokens tr) \<and>
        finalize_through tr' b = Inr tr'"
proof (cases "finalize_through tr b")
  case (Inl e)
  then show ?thesis
    using finalize_through_total [OF assms, of b] assms
    by (auto simp: finalize_through_eq split: if_splits)
next
  case (Inr tr')
  have le: "frontier_ms tr \<le> mt_ms b"
    using Inr assms by (simp add: finalize_through_eq not_less split: if_splits)
  note pt = finalize_through_pointwise [OF assms Inr]
  have same: "map (\<lambda>t. (wt_id t, token_content t)) (tr_tokens tr') =
      map (\<lambda>t. (wt_id t, token_content t)) (tr_tokens tr)"
    using pt by (induction rule: list_all2_induct) auto
  have fin: "map token_is_final (tr_tokens tr') =
      map (\<lambda>t. token_is_final t \<or> end_ms (wt_interval t) \<le> mt_ms b) (tr_tokens tr)"
    using pt by (induction rule: list_all2_induct) auto
  have "\<forall>t \<in> set (tr_tokens tr). token_is_final t \<longrightarrow> end_ms (wt_interval t) \<le> mt_ms b"
    using le by (simp add: frontier_le_iff final_tokens_def)
  with pt have ends: "\<forall>t \<in> set (tr_tokens tr'). token_is_final t \<longleftrightarrow> end_ms (wt_interval t) \<le> mt_ms b"
    by (induction rule: list_all2_induct) (auto simp: token_content_def)
  have "0 \<le> mt_ms b"
    using le frontier_nonneg [of tr] by simp
  then have le': "frontier_ms tr' \<le> mt_ms b"
    using ends by (auto simp: frontier_le_iff final_tokens_def)
  have "mapR (\<lambda>t. if end_ms (wt_interval t) \<le> mt_ms b then token_finalize t else Inr t)
      (tr_tokens tr') = Inr (map (\<lambda>t. t) (tr_tokens tr'))"
    using ends by (intro mapR_Inr_map) (simp add: token_finalize_def)
  then have "finalize_through tr' b = Inr tr'"
    using le' by (simp add: finalize_through_eq [OF finalize_through_wf [OF assms Inr]])
  with Inr le le' same fin show ?thesis by simp
qed

theorem finalize_through_boundary_witness:
  "\<exists>tr'. finalize_through (transcript_build [sample_token ''a'' 0 300 PROVISIONAL]) (MkTime 300) = Inr tr' \<and>
    map token_is_final (tr_tokens tr') = [True] \<and> finalize_through tr' (MkTime 300) = Inr tr'"
proof -
  have wf: "wf_transcript (transcript_build [sample_token ''a'' 0 300 PROVISIONAL])"
    by (rule wf_transcript_build) (simp add: sample_token_wf)
  show ?thesis
    using finalize_through_boundary [OF wf, of "MkTime 300"]
    by (auto simp: frontier_ms_def final_tokens_def transcript_build_def sample_token_def
        token_is_final_def split: sum.splits)
qed

end
