(* ===== verification/SpeechEvents.thy ===== *)
theory SpeechEvents
  imports Timeline Measurement Taxonomy Finalizable
begin

text \<open>
  Speech events (\<open>domain/speech_events/events.py\<close>) and prosodic readings
  (\<open>domain/speech_events/prosody.py\<close>): the shapes their constructors allow, which events count as a
  disfluency, promotion to final, and the fixed unit of every prosodic indicator.
\<close>

section \<open>Speech events\<close>

definition LEXICAL_CLASSES :: "speech_event_type list" where
  "LEXICAL_CLASSES = [LEXICAL_FILLER, REPETITION, FALSE_START, SELF_REPAIR]"

definition DISFLUENT_CLASSES :: "speech_event_type list" where
  "DISFLUENT_CLASSES =
     [FILLED_PAUSE, LEXICAL_FILLER, REPETITION, FALSE_START, SELF_REPAIR, CUT_OFF, PROLONGATION]"

record speech_event =
  se_id :: event_id
  se_type :: speech_event_type
  se_interval :: interval
  se_confidence :: confidence
  se_provenance :: provenance
  se_raw_text :: string
  se_context_role :: "contextual_role option"
  se_is_final :: bool

definition require_audio_modality :: "speech_event \<Rightarrow> unit result" where
  "require_audio_modality e =
     (if prov_modality (se_provenance e) \<noteq> AUDIO then Inl (DomainError SpeechEventViolation)
      else Inr ())"

definition require_lexical_fields :: "speech_event \<Rightarrow> unit result" where
  "require_lexical_fields e =
     (if se_type e \<notin> set LEXICAL_CLASSES then Inr ()
      else if py_strip (se_raw_text e) = [] then Inl (DomainError SpeechEventViolation)
      else if se_context_role e = None then Inl (DomainError SpeechEventViolation)
      else Inr ())"

definition require_no_role_on_acoustic_classes :: "speech_event \<Rightarrow> unit result" where
  "require_no_role_on_acoustic_classes e =
     (if se_type e \<in> set LEXICAL_CLASSES \<or> se_context_role e = None then Inr ()
      else bindR (speech_definition_of (se_type e)) (\<lambda>_. Inl (DomainError SpeechEventViolation)))"

definition check_speech_event :: "speech_event \<Rightarrow> speech_event result" where
  "check_speech_event e =
     bindR (require_audio_modality e) (\<lambda>_.
     bindR (require_lexical_fields e) (\<lambda>_.
     bindR (require_no_role_on_acoustic_classes e) (\<lambda>_. Inr e)))"

definition SpeechEvent ::
  "event_id \<Rightarrow> speech_event_type \<Rightarrow> interval \<Rightarrow> confidence \<Rightarrow> provenance \<Rightarrow> string \<Rightarrow>
   contextual_role option \<Rightarrow> bool \<Rightarrow> speech_event result" where
  "SpeechEvent i t iv conf prov txt role final =
     check_speech_event \<lparr>se_id = i, se_type = t, se_interval = iv, se_confidence = conf,
       se_provenance = prov, se_raw_text = txt, se_context_role = role, se_is_final = final\<rparr>"

definition counts_as_disfluency :: "speech_event \<Rightarrow> bool" where
  "counts_as_disfluency e =
     (if se_type e \<notin> set DISFLUENT_CLASSES then False
      else if se_type e \<in> set LEXICAL_CLASSES then se_context_role e = Some FILLER
      else True)"

definition speech_basis :: "speech_event \<Rightarrow> detection_basis result" where
  "speech_basis e = bindR (speech_definition_of (se_type e)) (\<lambda>d. Inr (ed_basis d))"

definition speech_finalize :: "speech_event \<Rightarrow> speech_event result" where
  "speech_finalize e =
     (if se_is_final e then Inr e
      else SpeechEvent (se_id e) (se_type e) (se_interval e) (se_confidence e) (se_provenance e)
             (se_raw_text e) (se_context_role e) True)"

definition wf_speech_event :: "speech_event \<Rightarrow> bool" where
  "wf_speech_event e \<longleftrightarrow>
     prov_modality (se_provenance e) = AUDIO \<and>
     (if se_type e \<in> set LEXICAL_CLASSES
      then (\<exists>c \<in> set (se_raw_text e). \<not> py_isspace c) \<and> se_context_role e \<noteq> None
      else se_context_role e = None)"

lemma check_speech_event_cases:
  "check_speech_event e =
     (if wf_speech_event e then Inr e else Inl (DomainError SpeechEventViolation))"
proof -
  obtain d where "speech_definition_of (se_type e) = Inr d"
    using speech_definition_total by blast
  then show ?thesis
    by (simp add: check_speech_event_def require_audio_modality_def require_lexical_fields_def
        require_no_role_on_acoustic_classes_def wf_speech_event_def py_strip_Nil_iff)
qed

definition speech_content ::
  "speech_event \<Rightarrow> speech_event_type \<times> interval \<times> confidence \<times> provenance \<times> string \<times> contextual_role option"
where
  "speech_content e = (se_type e, se_interval e, se_confidence e, se_provenance e, se_raw_text e,
     se_context_role e)"

interpretation speech: finalizable wf_speech_event se_is_final speech_finalize se_id speech_content
  by unfold_locales
    (auto simp: speech_finalize_def SpeechEvent_def check_speech_event_cases wf_speech_event_def
      speech_content_def)

text \<open>
  What a speech event can be. The constructor accepts exactly the events that come from audio
  and whose class and lexical fields agree: a lexical class has a text that is not blank and a
  contextual role, every other class has no role. Everything else is a \<open>SpeechEventViolation\<close>.
\<close>

theorem speech_event_shape:
  "SpeechEvent i t iv conf prov txt role final =
     (if prov_modality prov = AUDIO \<and>
         (if t \<in> {LEXICAL_FILLER, REPETITION, FALSE_START, SELF_REPAIR}
          then (\<exists>c \<in> set txt. \<not> py_isspace c) \<and> role \<noteq> None else role = None)
      then Inr \<lparr>se_id = i, se_type = t, se_interval = iv, se_confidence = conf,
                se_provenance = prov, se_raw_text = txt, se_context_role = role, se_is_final = final\<rparr>
      else Inl (DomainError SpeechEventViolation))"
  by (simp add: SpeechEvent_def check_speech_event_cases wf_speech_event_def LEXICAL_CLASSES_def)

text \<open>What counts, on an event the constructor let through.\<close>

lemma counts_as_disfluency_iff:
  assumes "wf_speech_event e"
  shows "counts_as_disfluency e \<longleftrightarrow>
    se_context_role e = Some FILLER \<or> se_type e \<in> {FILLED_PAUSE, CUT_OFF, PROLONGATION}"
  using assms
  by (cases "se_type e")
    (simp_all add: counts_as_disfluency_def wf_speech_event_def LEXICAL_CLASSES_def
      DISFLUENT_CLASSES_def)

lemma uncertain_never_counts:
  "wf_speech_event e \<Longrightarrow> se_context_role e \<in> {Some UNCERTAIN, Some SEMANTIC, Some DISCOURSE_MARKER} \<Longrightarrow>
   \<not> counts_as_disfluency e"
  by (cases "se_type e")
    (auto simp: counts_as_disfluency_def wf_speech_event_def LEXICAL_CLASSES_def
      DISFLUENT_CLASSES_def)

section \<open>Prosody\<close>

fun INDICATOR_UNITS :: "prosodic_indicator \<Rightarrow> string" where
  "INDICATOR_UNITS MEAN_INTENSITY_DB = ''dBFS''"
| "INDICATOR_UNITS PITCH_MEAN_HZ = ''Hz''"
| "INDICATOR_UNITS PITCH_STABILITY = ''ratio''"
| "INDICATOR_UNITS SPEAKING_RATE_WPM = ''wpm''"
| "INDICATOR_UNITS ARTICULATION_RATE_SPS = ''syllables_per_second''"
| "INDICATOR_UNITS MEAN_PAUSE_DURATION_MS = ''ms''"
| "INDICATOR_UNITS VOICED_RATIO = ''ratio''"

record prosody_reading =
  pr_indicator :: prosodic_indicator
  pr_window :: interval
  pr_value :: indicator
  pr_provenance :: provenance

definition ProsodyReading ::
  "prosodic_indicator \<Rightarrow> interval \<Rightarrow> indicator \<Rightarrow> provenance \<Rightarrow> prosody_reading result" where
  "ProsodyReading ind window v prov =
     (let r = \<lparr>pr_indicator = ind, pr_window = window, pr_value = v, pr_provenance = prov\<rparr>
      in case v of
           Measured _ _ unit \<Rightarrow>
             if unit \<noteq> INDICATOR_UNITS ind then Inl (DomainError ProsodyViolation) else Inr r
         | Unavailable _ _ \<Rightarrow> Inr r)"

definition prosody_is_available :: "prosody_reading \<Rightarrow> bool" where
  "prosody_is_available r = indicator_is_available (pr_value r)"

definition prosody_measured ::
  "prosodic_indicator \<Rightarrow> interval \<Rightarrow> rat \<Rightarrow> confidence \<Rightarrow> provenance \<Rightarrow> prosody_reading result" where
  "prosody_measured ind window v conf prov =
     ProsodyReading ind window (Measured v conf (INDICATOR_UNITS ind)) prov"

definition prosody_unavailable ::
  "prosodic_indicator \<Rightarrow> interval \<Rightarrow> indicator \<Rightarrow> provenance \<Rightarrow> prosody_reading result" where
  "prosody_unavailable ind window u prov = ProsodyReading ind window u prov"

lemma prosody_measured_total:
  "\<exists>r. prosody_measured ind w v c p = Inr r \<and> pr_value r = Measured v c (INDICATOR_UNITS ind)"
  by (simp add: prosody_measured_def ProsodyReading_def Let_def)

lemma ProsodyReading_units:
  "ProsodyReading ind w (Measured v c u) p = Inr r \<Longrightarrow> u = INDICATOR_UNITS ind"
  by (simp add: ProsodyReading_def Let_def split: if_splits)

end
