(* ===== verification/VisualEvents.thy ===== *)
theory VisualEvents
  imports Timeline Measurement Taxonomy Finalizable
begin

text \<open>
  The per-speaker visual calibration (\<open>domain/visual_events/calibration.py\<close>) and the visual events
  (\<open>domain/visual_events/events.py\<close>) with the constraints of their constructors.
\<close>

section \<open>Calibration\<close>

record visual_calibration =
  vc_baseline_yaw_degrees :: rat
  vc_baseline_pitch_degrees :: rat
  vc_baseline_torso_degrees :: rat
  vc_gaze_cone_degrees :: rat
  vc_posture_deviation_degrees :: rat
  vc_min_landmark_visibility :: rat

definition DEFAULT_GAZE_CONE_DEGREES :: rat where "DEFAULT_GAZE_CONE_DEGREES = 20"
definition DEFAULT_POSTURE_DEVIATION_DEGREES :: rat where "DEFAULT_POSTURE_DEVIATION_DEGREES = 15"
definition DEFAULT_MIN_LANDMARK_VISIBILITY :: rat where "DEFAULT_MIN_LANDMARK_VISIBILITY = 1/2"

definition VisualCalibration ::
  "rat \<Rightarrow> rat \<Rightarrow> rat \<Rightarrow> rat \<Rightarrow> rat \<Rightarrow> rat \<Rightarrow> visual_calibration result" where
  "VisualCalibration yaw pitch torso cone posture visibility =
     (if \<not> (0 < cone \<and> cone < 90) then Inl (DomainError CalibrationViolation)
      else if posture \<le> 0 then Inl (DomainError CalibrationViolation)
      else if \<not> (0 \<le> visibility \<and> visibility \<le> 1) then Inl (DomainError CalibrationViolation)
      else Inr \<lparr>vc_baseline_yaw_degrees = yaw, vc_baseline_pitch_degrees = pitch,
                vc_baseline_torso_degrees = torso, vc_gaze_cone_degrees = cone,
                vc_posture_deviation_degrees = posture, vc_min_landmark_visibility = visibility\<rparr>)"

definition is_within_gaze_cone :: "visual_calibration \<Rightarrow> rat \<Rightarrow> rat \<Rightarrow> bool" where
  "is_within_gaze_cone c yaw pitch =
     (let yaw_offset = \<bar>yaw - vc_baseline_yaw_degrees c\<bar>;
          pitch_offset = \<bar>pitch - vc_baseline_pitch_degrees c\<bar>
      in max yaw_offset pitch_offset \<le> vc_gaze_cone_degrees c)"

definition posture_deviation :: "visual_calibration \<Rightarrow> rat \<Rightarrow> rat" where
  "posture_deviation c torso = \<bar>torso - vc_baseline_torso_degrees c\<bar>"

definition exceeds_posture_threshold :: "visual_calibration \<Rightarrow> rat \<Rightarrow> bool" where
  "exceeds_posture_threshold c torso \<longleftrightarrow> posture_deviation c torso > vc_posture_deviation_degrees c"

text \<open>Measured against the speaker: moving the camera and the head by the same angles changes
  nothing.\<close>

lemma gaze_relative_to_baseline:
  "is_within_gaze_cone (c\<lparr>vc_baseline_yaw_degrees := vc_baseline_yaw_degrees c + a,
      vc_baseline_pitch_degrees := vc_baseline_pitch_degrees c + b\<rparr>) (yaw + a) (pitch + b) =
   is_within_gaze_cone c yaw pitch"
  by (simp add: is_within_gaze_cone_def Let_def)

lemma resting_posture_never_deviates:
  "VisualCalibration y p t cone posture vis = Inr c \<Longrightarrow> \<not> exceeds_posture_threshold c t"
  by (auto simp: VisualCalibration_def exceeds_posture_threshold_def posture_deviation_def
      split: if_splits)

section \<open>Events\<close>

datatype gaze_direction = UP | DOWN | LEFT | RIGHT | UNDETERMINED

fun gaze_value :: "gaze_direction \<Rightarrow> string" where
  "gaze_value UP = ''up''"
| "gaze_value DOWN = ''down''"
| "gaze_value LEFT = ''left''"
| "gaze_value RIGHT = ''right''"
| "gaze_value UNDETERMINED = ''undetermined''"

definition gaze_directions :: "gaze_direction list" where
  "gaze_directions = [UP, DOWN, LEFT, RIGHT, UNDETERMINED]"

definition GAZE_CLASSES :: "visual_event_type list" where
  "GAZE_CLASSES = [GAZE_TOWARD_CAMERA, GAZE_AWAY_FROM_CAMERA]"

definition QUALITY_CLASSES :: "visual_event_type list" where
  "QUALITY_CLASSES = [FACE_VISIBILITY_LOSS, INSUFFICIENT_LIGHTING, INSUFFICIENT_FRAMING]"

definition OPTIONAL_CLASS_MIN_CONFIDENCE :: rat where
  "OPTIONAL_CLASS_MIN_CONFIDENCE = 3/4"

definition OPTIONAL_CLASSES :: "visual_event_type list" where
  "OPTIONAL_CLASSES = [SELF_TOUCH, REPETITIVE_HAND_MOVEMENT]"

record visual_event =
  ve_id :: event_id
  ve_type :: visual_event_type
  ve_interval :: interval
  ve_confidence :: confidence
  ve_provenance :: provenance
  ve_direction :: "gaze_direction option"
  ve_magnitude :: "rat option"
  ve_is_final :: bool

definition require_video_modality :: "visual_event \<Rightarrow> unit result" where
  "require_video_modality e =
     (if prov_modality (ve_provenance e) \<noteq> VIDEO then Inl (DomainError VisualEventViolation)
      else Inr ())"

definition require_direction_only_on_gaze :: "visual_event \<Rightarrow> unit result" where
  "require_direction_only_on_gaze e =
     (if ve_type e \<in> set GAZE_CLASSES then
        (if ve_direction e = None then Inl (DomainError VisualEventViolation) else Inr ())
      else if ve_direction e \<noteq> None then Inl (DomainError VisualEventViolation)
      else Inr ())"

definition require_threshold_on_optional_classes :: "visual_event \<Rightarrow> unit result" where
  "require_threshold_on_optional_classes e =
     (if ve_type e \<notin> set OPTIONAL_CLASSES then Inr ()
      else if \<not> meets (ve_confidence e) OPTIONAL_CLASS_MIN_CONFIDENCE
      then Inl (DomainError VisualEventViolation)
      else Inr ())"

definition check_visual_event :: "visual_event \<Rightarrow> visual_event result" where
  "check_visual_event e =
     bindR (require_video_modality e) (\<lambda>_.
     bindR (require_direction_only_on_gaze e) (\<lambda>_.
     bindR (require_threshold_on_optional_classes e) (\<lambda>_. Inr e)))"

definition VisualEvent ::
  "event_id \<Rightarrow> visual_event_type \<Rightarrow> interval \<Rightarrow> confidence \<Rightarrow> provenance \<Rightarrow> gaze_direction option \<Rightarrow>
   rat option \<Rightarrow> bool \<Rightarrow> visual_event result" where
  "VisualEvent i t iv conf prov dir mag final =
     check_visual_event \<lparr>ve_id = i, ve_type = t, ve_interval = iv, ve_confidence = conf,
       ve_provenance = prov, ve_direction = dir, ve_magnitude = mag, ve_is_final = final\<rparr>"

definition describes_capture_quality :: "visual_event \<Rightarrow> bool" where
  "describes_capture_quality e \<longleftrightarrow> ve_type e \<in> set QUALITY_CLASSES"

definition visual_finalize :: "visual_event \<Rightarrow> visual_event result" where
  "visual_finalize e =
     (if ve_is_final e then Inr e
      else VisualEvent (ve_id e) (ve_type e) (ve_interval e) (ve_confidence e) (ve_provenance e)
             (ve_direction e) (ve_magnitude e) True)"

definition wf_visual_event :: "visual_event \<Rightarrow> bool" where
  "wf_visual_event e \<longleftrightarrow>
     prov_modality (ve_provenance e) = VIDEO \<and>
     (ve_type e \<in> set GAZE_CLASSES \<longleftrightarrow> ve_direction e \<noteq> None) \<and>
     (ve_type e \<in> set OPTIONAL_CLASSES \<longrightarrow> meets (ve_confidence e) OPTIONAL_CLASS_MIN_CONFIDENCE)"

lemma check_visual_event_cases:
  "check_visual_event e =
     (if wf_visual_event e then Inr e else Inl (DomainError VisualEventViolation))"
  by (simp add: check_visual_event_def require_video_modality_def
      require_direction_only_on_gaze_def require_threshold_on_optional_classes_def
      wf_visual_event_def)

definition visual_content ::
  "visual_event \<Rightarrow>
   visual_event_type \<times> interval \<times> confidence \<times> provenance \<times> gaze_direction option \<times> rat option"
where
  "visual_content e = (ve_type e, ve_interval e, ve_confidence e, ve_provenance e, ve_direction e,
     ve_magnitude e)"

interpretation visual: finalizable wf_visual_event ve_is_final visual_finalize ve_id visual_content
  by unfold_locales
    (auto simp: visual_finalize_def VisualEvent_def check_visual_event_cases wf_visual_event_def
      visual_content_def)

text \<open>
  What a visual event can be. The constructor accepts exactly the events that come from video,
  carry a direction when and only when their class is a gaze class, and, for the two optional
  behavioural classes, have a calibrated confidence of at least 0.75: an uncalibrated score never
  gets one of these through, however high. Everything else is a \<open>VisualEventViolation\<close>.
\<close>

theorem visual_event_shape:
  "VisualEvent i t iv conf prov dir mag final =
     (if prov_modality prov = VIDEO \<and>
         (dir \<noteq> None \<longleftrightarrow> t \<in> {GAZE_TOWARD_CAMERA, GAZE_AWAY_FROM_CAMERA}) \<and>
         (if t \<in> {SELF_TOUCH, REPETITIVE_HAND_MOVEMENT}
          then conf_state conf = CALIBRATED \<and> 3/4 \<le> conf_value conf else True)
      then Inr \<lparr>ve_id = i, ve_type = t, ve_interval = iv, ve_confidence = conf,
                ve_provenance = prov, ve_direction = dir, ve_magnitude = mag, ve_is_final = final\<rparr>
      else Inl (DomainError VisualEventViolation))"
  by (auto simp: VisualEvent_def check_visual_event_cases wf_visual_event_def GAZE_CLASSES_def
      OPTIONAL_CLASSES_def OPTIONAL_CLASS_MIN_CONFIDENCE_def meets_def is_calibrated_def)

end
