(* ===== verification/Quality.thy ===== *)
theory Quality
  imports Timeline Measurement Provenance
begin

text \<open>
  Quality and availability (\<open>domain/quality/assessment.py\<close>): metrics per window, whether a modality
  can serve a window, and the report the two are published in.
\<close>

section \<open>Values\<close>

datatype quality_metric =
    SIGNAL_TO_NOISE_DB | CLIPPING_RATIO | SILENCE_RATIO | INPUT_LEVEL_DBFS
  | FACE_VISIBILITY_RATIO | MEAN_LUMINANCE | FRAMING_COVERAGE | LANDMARK_CONFIDENCE
  | CHUNK_LOSS_RATIO | AUDIO_VIDEO_SKEW_MS | EFFECTIVE_FRAME_RATE_FPS

fun quality_metric_value :: "quality_metric \<Rightarrow> string" where
  "quality_metric_value SIGNAL_TO_NOISE_DB = ''signal_to_noise_db''"
| "quality_metric_value CLIPPING_RATIO = ''clipping_ratio''"
| "quality_metric_value SILENCE_RATIO = ''silence_ratio''"
| "quality_metric_value INPUT_LEVEL_DBFS = ''input_level_dbfs''"
| "quality_metric_value FACE_VISIBILITY_RATIO = ''face_visibility_ratio''"
| "quality_metric_value MEAN_LUMINANCE = ''mean_luminance''"
| "quality_metric_value FRAMING_COVERAGE = ''framing_coverage''"
| "quality_metric_value LANDMARK_CONFIDENCE = ''landmark_confidence''"
| "quality_metric_value CHUNK_LOSS_RATIO = ''chunk_loss_ratio''"
| "quality_metric_value AUDIO_VIDEO_SKEW_MS = ''audio_video_skew_ms''"
| "quality_metric_value EFFECTIVE_FRAME_RATE_FPS = ''effective_frame_rate_fps''"

record quality_assessment =
  qa_modality :: modality
  qa_metric :: quality_metric
  qa_window :: interval
  qa_value :: indicator

definition assessment_is_available :: "quality_assessment \<Rightarrow> bool" where
  "assessment_is_available a = indicator_is_available (qa_value a)"

definition assessment_reason :: "quality_assessment \<Rightarrow> unavailability_reason option" where
  "assessment_reason a = (case qa_value a of Unavailable r _ \<Rightarrow> Some r | Measured _ _ _ \<Rightarrow> None)"

record modality_availability =
  ma_modality :: modality
  ma_window :: interval
  ma_is_usable :: bool
  ma_reason :: "unavailability_reason option"
  ma_detail :: string

definition ModalityAvailability ::
  "modality \<Rightarrow> interval \<Rightarrow> bool \<Rightarrow> unavailability_reason option \<Rightarrow> string \<Rightarrow>
   modality_availability result" where
  "ModalityAvailability m window usable reason detail =
     (if \<not> usable \<and> reason = None then Inl (DomainError QualityViolation)
      else if usable \<and> reason \<noteq> None then Inl (DomainError QualityViolation)
      else Inr \<lparr>ma_modality = m, ma_window = window, ma_is_usable = usable, ma_reason = reason,
                ma_detail = detail\<rparr>)"

definition availability_usable :: "modality \<Rightarrow> interval \<Rightarrow> modality_availability result" where
  "availability_usable m window = ModalityAvailability m window True None []"

definition availability_unusable ::
  "modality \<Rightarrow> interval \<Rightarrow> unavailability_reason \<Rightarrow> string \<Rightarrow> modality_availability result" where
  "availability_unusable m window reason detail =
     ModalityAvailability m window False (Some reason) detail"

definition as_unavailable :: "modality_availability \<Rightarrow> indicator result" where
  "as_unavailable a =
     (case ma_reason a of
        None \<Rightarrow> Inl (DomainError QualityViolation)
      | Some r \<Rightarrow> if ma_is_usable a then Inl (DomainError QualityViolation)
                  else Inr (Unavailable r (ma_detail a)))"

definition wf_availability :: "modality_availability \<Rightarrow> bool" where
  "wf_availability a \<longleftrightarrow> (ma_is_usable a \<longleftrightarrow> ma_reason a = None)"

lemma ModalityAvailability_Inr:
  "ModalityAvailability m w u r d = Inr a \<longleftrightarrow> (u \<longleftrightarrow> r = None) \<and>
     a = \<lparr>ma_modality = m, ma_window = w, ma_is_usable = u, ma_reason = r, ma_detail = d\<rparr>"
  by (auto simp: ModalityAvailability_def)

lemma availability_constructors_wf:
  "ModalityAvailability m w u r d = Inr a \<Longrightarrow> wf_availability a"
  "\<exists>a. availability_usable m w = Inr a \<and> wf_availability a \<and> ma_is_usable a"
  "\<exists>a. availability_unusable m w x d = Inr a \<and> wf_availability a \<and> as_unavailable a = Inr (Unavailable x d)"
  by (auto simp: availability_usable_def availability_unusable_def ModalityAvailability_Inr
      wf_availability_def as_unavailable_def)

section \<open>The report\<close>

record quality_report =
  qr_assessments :: "quality_assessment list"
  qr_availability :: "modality_availability list"

definition report_for_modality :: "quality_report \<Rightarrow> modality \<Rightarrow> quality_assessment list" where
  "report_for_modality q m = filter (\<lambda>a. qa_modality a = m) (qr_assessments q)"

definition report_is_usable :: "quality_report \<Rightarrow> modality \<Rightarrow> interval \<Rightarrow> bool" where
  "report_is_usable q m window =
     (let overlapping =
        filter (\<lambda>r. ma_modality r = m \<and> overlaps (ma_window r) window) (qr_availability q)
      in if overlapping = [] then False else list_all ma_is_usable overlapping)"

text \<open>The loop that returns at its first hit is \<open>find\<close>.\<close>

definition unavailability_for :: "quality_report \<Rightarrow> modality \<Rightarrow> interval \<Rightarrow> indicator option result" where
  "unavailability_for q m window =
     (case find (\<lambda>r. ma_modality r = m \<and> overlaps (ma_window r) window \<and> \<not> ma_is_usable r)
             (qr_availability q) of
        Some r \<Rightarrow> bindR (as_unavailable r) (\<lambda>u. Inr (Some u))
      | None \<Rightarrow>
          if \<not> list_ex (\<lambda>r. ma_modality r = m) (qr_availability q)
          then Inr (Some (Unavailable MODALITY_NOT_CAPTURED []))
          else Inr None)"

definition report_extended ::
  "quality_report \<Rightarrow> quality_assessment list \<Rightarrow> modality_availability list \<Rightarrow> quality_report" where
  "report_extended q assessments availability =
     \<lparr>qr_assessments = qr_assessments q @ assessments,
      qr_availability = qr_availability q @ availability\<rparr>"

definition summary_step ::
  "quality_assessment \<Rightarrow> (string \<times> rat) list \<Rightarrow> (string \<times> rat) list" where
  "summary_step a d =
     (case qa_value a of
        Measured v _ _ \<Rightarrow>
          AList.update (modality_value (qa_modality a) @ ''.'' @ quality_metric_value (qa_metric a)) v d
      | Unavailable _ _ \<Rightarrow> d)"

definition report_summary :: "quality_report \<Rightarrow> (string \<times> rat) list" where
  "report_summary q = fold summary_step (qr_assessments q) []"

definition wf_report :: "quality_report \<Rightarrow> bool" where
  "wf_report q \<longleftrightarrow> (\<forall>a \<in> set (qr_availability q). wf_availability a)"

lemma report_is_usable_iff:
  "report_is_usable q m w \<longleftrightarrow>
     (\<exists>r \<in> set (qr_availability q). ma_modality r = m \<and> overlaps (ma_window r) w) \<and>
     (\<forall>r \<in> set (qr_availability q). ma_modality r = m \<and> overlaps (ma_window r) w \<longrightarrow> ma_is_usable r)"
  by (auto simp: report_is_usable_def Let_def list_all_iff filter_empty_conv)

text \<open>An unusable stretch cannot be argued away by adding records.\<close>

lemma unusable_stays_unusable:
  assumes "r \<in> set (qr_availability q)" and "ma_modality r = m" and "overlaps (ma_window r) w"
    and "\<not> ma_is_usable r"
  shows "\<not> report_is_usable (report_extended q as avs) m w"
  using assms by (auto simp: report_is_usable_iff report_extended_def)

text \<open>The summary lists measured metrics only.\<close>

lemma report_summary_measured:
  "v \<in> snd ` set (report_summary q) \<Longrightarrow>
   \<exists>a \<in> set (qr_assessments q). \<exists>c u. qa_value a = Measured v c u"
proof -
  have "v \<in> snd ` set (fold summary_step as d) \<Longrightarrow>
      v \<in> snd ` set d \<or> (\<exists>a \<in> set as. \<exists>c u. qa_value a = Measured v c u)" for as d
  proof (induction as arbitrary: d)
    case (Cons a as)
    have "v \<in> snd ` set (summary_step a d) \<Longrightarrow>
        v \<in> snd ` set d \<or> (\<exists>c u. qa_value a = Measured v c u)"
      using AList_update_values [of v _ _ d]
      by (cases "qa_value a") (simp_all add: summary_step_def, blast)
    with Cons.IH [of "summary_step a d"] Cons.prems show ?case by auto
  qed simp
  then show "v \<in> snd ` set (report_summary q) \<Longrightarrow>
      \<exists>a \<in> set (qr_assessments q). \<exists>c u. qa_value a = Measured v c u"
    by (fastforce simp: report_summary_def)
qed

text \<open>
  Usability and its reason. On a report whose availability records were all built by their
  constructor, asking for the reason never raises, a reason is returned only for a window the
  modality cannot serve, and the only unserved windows without a reason are those that no record of
  a captured modality overlaps: \<open>is_usable\<close> says no there while \<open>unavailability_for\<close> has nothing to
  say.
\<close>

theorem usability_and_reason:
  assumes "wf_report q"
  shows "\<exists>u. unavailability_for q m w = Inr u \<and>
    (u = None \<longleftrightarrow> report_is_usable q m w \<or>
       (\<exists>r \<in> set (qr_availability q). ma_modality r = m) \<and>
       \<not> (\<exists>r \<in> set (qr_availability q). ma_modality r = m \<and> overlaps (ma_window r) w))"
proof (cases "find (\<lambda>r. ma_modality r = m \<and> overlaps (ma_window r) w \<and> \<not> ma_is_usable r)
    (qr_availability q)")
  case None
  then have "\<forall>r \<in> set (qr_availability q). ma_modality r = m \<and> overlaps (ma_window r) w \<longrightarrow> ma_is_usable r"
    by (auto simp: find_None_iff)
  with None show ?thesis
    by (auto simp: unavailability_for_def report_is_usable_iff list_ex_iff)
next
  case (Some r)
  then have r: "r \<in> set (qr_availability q)" "ma_modality r = m" "overlaps (ma_window r) w"
    "\<not> ma_is_usable r"
    by (auto simp: find_Some_iff)
  moreover from r assms obtain reason where "ma_reason r = Some reason"
    by (auto simp: wf_report_def wf_availability_def)
  ultimately show ?thesis
    using Some by (auto simp: unavailability_for_def report_is_usable_iff as_unavailable_def)
qed

theorem usability_and_reason_witness:
  "let iv = (\<lambda>s e. \<lparr>iv_start = MkTime s, iv_end = MkTime e, iv_tolerance_ms = 250\<rparr>);
       q = \<lparr>qr_assessments = [], qr_availability =
             [\<lparr>ma_modality = VIDEO, ma_window = iv 0 100, ma_is_usable = True, ma_reason = None,
               ma_detail = []\<rparr>]\<rparr>
   in unavailability_for q VIDEO (iv 200 300) = Inr None \<and> \<not> report_is_usable q VIDEO (iv 200 300)"
proof -
  let ?iv = "\<lambda>s e. \<lparr>iv_start = MkTime s, iv_end = MkTime e, iv_tolerance_ms = 250\<rparr>"
  let ?q = "\<lparr>qr_assessments = [], qr_availability =
      [\<lparr>ma_modality = VIDEO, ma_window = ?iv 0 100, ma_is_usable = True, ma_reason = None,
        ma_detail = []\<rparr>]\<rparr>"
  have "wf_report ?q"
    by (simp add: wf_report_def wf_availability_def)
  from usability_and_reason [OF this, of VIDEO "?iv 200 300"] show ?thesis
    by (auto simp: overlaps_def report_is_usable_def)
qed

end
