(* ===== verification/AppendOnly.thy ===== *)
theory AppendOnly
  imports Prelude
begin

text \<open>
  Histories that only grow. A component keeps a list of records per key (the versions of an event,
  the audit log of a tenant); every operation leaves each list as it is or extends it at its end.
  The first locale is that contract, the second adds records that freeze their list.
\<close>

locale append_only =
  fixes records :: "'s \<Rightarrow> 'k \<Rightarrow> 'r list"
    and step :: "'s \<Rightarrow> 'o \<Rightarrow> 's"
    and ok :: "'s \<Rightarrow> bool"
  assumes step_extends: "ok s \<Longrightarrow> prefix (records s k) (records (step s oper) k)"
    and step_ok: "ok s \<Longrightarrow> ok (step s oper)"
begin

lemma run_ok: "ok s \<Longrightarrow> ok (foldl step s ops)"
  by (induction ops arbitrary: s) (simp_all add: step_ok)

lemma run_extends: "ok s \<Longrightarrow> prefix (records s k) (records (foldl step s ops) k)"
proof (induction ops arbitrary: s)
  case (Cons oper ops)
  then show ?case
    using step_extends [of s k oper] step_ok [of s oper] Cons.IH [of "step s oper"]
    by (auto intro: prefix_order.trans)
qed simp

lemma record_stays:
  assumes "ok s" and "i < length (records s k)"
  shows "records (foldl step s ops) k ! i = records s k ! i"
  using run_extends [OF assms(1), of k ops] assms(2)
  by (auto simp: prefix_def nth_append)

lemma never_shorter: "ok s \<Longrightarrow> length (records s k) \<le> length (records (foldl step s ops) k)"
  using run_extends prefix_length_le by blast

end

locale freezing_history = append_only records step ok
  for records :: "'s \<Rightarrow> 'k \<Rightarrow> 'r list" and step :: "'s \<Rightarrow> 'o \<Rightarrow> 's" and ok :: "'s \<Rightarrow> bool" +
  fixes freezes :: "'r \<Rightarrow> bool"
  assumes frozen_step: "ok s \<Longrightarrow> records s k \<noteq> [] \<Longrightarrow> freezes (last (records s k)) \<Longrightarrow>
    records (step s oper) k = records s k"
begin

lemma frozen_run:
  assumes "ok s" and "records s k \<noteq> []" and "freezes (last (records s k))"
  shows "records (foldl step s ops) k = records s k"
  using assms
proof (induction ops arbitrary: s)
  case (Cons oper ops)
  then show ?case
    using frozen_step [of s k oper] step_ok [of s oper] Cons.IH [of "step s oper"] by simp
qed simp

end

end
