(* ===== verification/EvidenceLedger.thy ===== *)
theory EvidenceLedger
  imports Timeline Provenance AppendOnly
begin

text \<open>
  The evidence ledger (\<open>domain/evidence/ledger.py\<close>): the append-only history of every event of one
  run. The ledger is mutable, its operations return the entry they made together with the new
  ledger; an operation that raises leaves the ledger as it was. The payload is opaque to the ledger,
  its values are a type variable.
\<close>

section \<open>State and operations\<close>

type_synonym 'v payload = "(string \<times> 'v) list"

record 'v ledger_entry =
  le_event_id :: event_id
  le_revision :: int
  le_interval :: interval
  le_provenance :: provenance
  le_is_final :: bool
  le_payload :: "'v payload"

record 'v evidence_ledger =
  el_run_id :: run_id
  el_history :: "(event_id \<times> 'v ledger_entry list) list"

definition EvidenceLedger :: "run_id \<Rightarrow> 'v evidence_ledger" where
  "EvidenceLedger run = \<lparr>el_run_id = run, el_history = []\<rparr>"

definition payload_or_empty :: "'v payload option \<Rightarrow> 'v payload" where
  "payload_or_empty p = (case p of None \<Rightarrow> [] | Some d \<Rightarrow> d)"

definition ledger_append ::
  "'v evidence_ledger \<Rightarrow> event_id \<Rightarrow> interval \<Rightarrow> provenance \<Rightarrow> bool \<Rightarrow> 'v payload option \<Rightarrow>
   ('v ledger_entry \<times> 'v evidence_ledger) result" where
  "ledger_append l event_id iv prov final p =
     (if map_of (el_history l) event_id \<noteq> None then Inl (DomainError EvidenceLedgerViolation)
      else let entry = \<lparr>le_event_id = event_id, le_revision = 0, le_interval = iv,
             le_provenance = prov, le_is_final = final, le_payload = payload_or_empty p\<rparr>
        in Inr (entry, l\<lparr>el_history := AList.update event_id [entry] (el_history l)\<rparr>))"

definition ledger_revise ::
  "'v evidence_ledger \<Rightarrow> event_id \<Rightarrow> interval \<Rightarrow> provenance \<Rightarrow> bool \<Rightarrow> 'v payload option \<Rightarrow>
   ('v ledger_entry \<times> 'v evidence_ledger) result" where
  "ledger_revise l event_id iv prov final p =
     (case map_of (el_history l) event_id of
        None \<Rightarrow> Inl (DomainError EvidenceLedgerViolation)
      | Some versions \<Rightarrow>
          let current = last versions in
          if le_is_final current then Inl (DomainError EvidenceLedgerViolation)
          else let entry = \<lparr>le_event_id = event_id, le_revision = le_revision current + 1,
                 le_interval = iv, le_provenance = prov, le_is_final = final,
                 le_payload = payload_or_empty p\<rparr>
            in Inr (entry, l\<lparr>el_history := AList.update event_id (versions @ [entry]) (el_history l)\<rparr>))"

definition ledger_finalize ::
  "'v evidence_ledger \<Rightarrow> event_id \<Rightarrow> ('v ledger_entry \<times> 'v evidence_ledger) result" where
  "ledger_finalize l event_id =
     (case map_of (el_history l) event_id of
        None \<Rightarrow> Inl (DomainError EvidenceLedgerViolation)
      | Some versions \<Rightarrow>
          let current = last versions in
          if le_is_final current then Inr (current, l)
          else let entry = \<lparr>le_event_id = event_id, le_revision = le_revision current + 1,
                 le_interval = le_interval current, le_provenance = le_provenance current,
                 le_is_final = True, le_payload = le_payload current\<rparr>
            in Inr (entry, l\<lparr>el_history := AList.update event_id (versions @ [entry]) (el_history l)\<rparr>))"

definition ledger_current :: "'v evidence_ledger \<Rightarrow> event_id \<Rightarrow> 'v ledger_entry result" where
  "ledger_current l event_id =
     (case map_of (el_history l) event_id of
        None \<Rightarrow> Inl (DomainError EvidenceLedgerViolation)
      | Some versions \<Rightarrow> Inr (last versions))"

definition ledger_history :: "'v evidence_ledger \<Rightarrow> event_id \<Rightarrow> 'v ledger_entry list" where
  "ledger_history l event_id =
     (case map_of (el_history l) event_id of None \<Rightarrow> [] | Some versions \<Rightarrow> versions)"

definition entry_key :: "'v ledger_entry \<Rightarrow> int \<times> int \<times> string" where
  "entry_key e = (start_ms (le_interval e), end_ms (le_interval e), event_id_value (le_event_id e))"

definition ordered_current :: "'v evidence_ledger \<Rightarrow> 'v ledger_entry list" where
  "ordered_current l = sort_key entry_key (map (\<lambda>kv. last (snd kv)) (el_history l))"

definition ledger_finalized :: "'v evidence_ledger \<Rightarrow> 'v ledger_entry list" where
  "ledger_finalized l = filter le_is_final (ordered_current l)"

definition ledger_all_current :: "'v evidence_ledger \<Rightarrow> 'v ledger_entry list" where
  "ledger_all_current l = ordered_current l"

definition ledger_len :: "'v evidence_ledger \<Rightarrow> nat" where
  "ledger_len l = length (el_history l)"

definition ledger_contains :: "'v evidence_ledger \<Rightarrow> event_id \<Rightarrow> bool" where
  "ledger_contains l event_id \<longleftrightarrow> map_of (el_history l) event_id \<noteq> None"

interpretation entry_order: canonical_order entry_key "sort_key entry_key"
  by (rule canonical_order_sort_key)

section \<open>The invariant\<close>

text \<open>Versions count from zero, are about their own event, and only the newest can be final.\<close>

definition wf_versions :: "event_id \<Rightarrow> 'v ledger_entry list \<Rightarrow> bool" where
  "wf_versions k vs \<longleftrightarrow>
     vs \<noteq> [] \<and> (\<forall>i < length vs. le_revision (vs ! i) = int i \<and> le_event_id (vs ! i) = k) \<and>
     (\<forall>v \<in> set (butlast vs). \<not> le_is_final v)"

definition wf_ledger :: "'v evidence_ledger \<Rightarrow> bool" where
  "wf_ledger l \<longleftrightarrow>
     distinct (map fst (el_history l)) \<and> (\<forall>(k, vs) \<in> set (el_history l). wf_versions k vs)"

lemma wf_ledger_map_of:
  "wf_ledger l \<longleftrightarrow> distinct (map fst (el_history l)) \<and>
     (\<forall>k vs. map_of (el_history l) k = Some vs \<longrightarrow> wf_versions k vs)"
  by (auto simp: wf_ledger_def map_of_eq_Some_iff)

lemma wf_EvidenceLedger: "wf_ledger (EvidenceLedger run)"
  by (simp add: wf_ledger_def EvidenceLedger_def)

lemma wf_versions_snoc:
  assumes "wf_versions k vs" and "\<not> le_is_final (last vs)" and "le_event_id e = k"
    and "le_revision e = le_revision (last vs) + 1"
  shows "wf_versions k (vs @ [e])"
proof -
  have ne: "vs \<noteq> []" using assms(1) by (simp add: wf_versions_def)
  then have "le_revision (last vs) = int (length vs - 1)"
    using assms(1) by (simp add: wf_versions_def last_conv_nth)
  with ne have rev: "le_revision e = int (length vs)"
    using assms(4) by (simp add: of_nat_diff Suc_leI)
  have "\<forall>v \<in> set vs. \<not> le_is_final v"
  proof
    fix v assume "v \<in> set vs"
    then have "v \<in> set (butlast vs) \<or> v = last vs"
      using ne by (metis append_butlast_last_id in_set_conv_decomp_last insert_iff
          list.set(1,2) rotate1.simps(2) set_append set_rotate1 Un_iff singletonD)
    then show "\<not> le_is_final v"
      using assms(1,2) by (auto simp: wf_versions_def)
  qed
  then show ?thesis
    using assms(1,3) rev by (auto simp: wf_versions_def nth_append less_Suc_eq)
qed

lemma wf_ledger_update:
  assumes "wf_ledger l" and "wf_versions k vs"
  shows "wf_ledger (l\<lparr>el_history := AList.update k vs (el_history l)\<rparr>)"
  using assms by (auto simp: wf_ledger_map_of distinct_update split: if_splits)

section \<open>Histories of the ledger\<close>

datatype 'v ledger_op =
    LAppend event_id interval provenance bool "'v payload option"
  | LRevise event_id interval provenance bool "'v payload option"
  | LFinalize event_id

fun do_ledger_op :: "'v ledger_op \<Rightarrow> 'v evidence_ledger \<Rightarrow> ('v ledger_entry \<times> 'v evidence_ledger) result" where
  "do_ledger_op (LAppend i iv prov f p) l = ledger_append l i iv prov f p"
| "do_ledger_op (LRevise i iv prov f p) l = ledger_revise l i iv prov f p"
| "do_ledger_op (LFinalize i) l = ledger_finalize l i"

fun ledger_op_event :: "'v ledger_op \<Rightarrow> event_id" where
  "ledger_op_event (LAppend i iv prov f p) = i"
| "ledger_op_event (LRevise i iv prov f p) = i"
| "ledger_op_event (LFinalize i) = i"

definition ledger_step :: "'v evidence_ledger \<Rightarrow> 'v ledger_op \<Rightarrow> 'v evidence_ledger" where
  "ledger_step l oper = (case do_ledger_op oper l of Inl _ \<Rightarrow> l | Inr (_, l') \<Rightarrow> l')"

lemmas ledger_op_defs = ledger_append_def ledger_revise_def ledger_finalize_def Let_def

text \<open>Every operation that changes the ledger appends one entry to the versions of its event.\<close>

lemma do_ledger_op_effect:
  assumes "wf_ledger l" and "do_ledger_op oper l = Inr (e, l')"
  shows "l' = l \<and> le_is_final e \<or>
    (let k = ledger_op_event oper; vs = ledger_history l k
     in l' = l\<lparr>el_history := AList.update k (vs @ [e]) (el_history l)\<rparr> \<and> wf_versions k (vs @ [e]) \<and>
        (vs = [] \<or> \<not> le_is_final (last vs)))"
proof (cases oper)
  case (LAppend i iv prov f p)
  with assms show ?thesis
    by (auto simp: ledger_append_def ledger_history_def Let_def wf_versions_def split: if_splits)
next
  case (LRevise i iv prov f p)
  then obtain vs where vs: "map_of (el_history l) i = Some vs" and nf: "\<not> le_is_final (last vs)"
    using assms(2) by (auto simp: ledger_revise_def Let_def split: option.splits if_splits)
  then have "wf_versions i vs"
    using assms(1) by (simp add: wf_ledger_map_of)
  with LRevise assms(2) vs nf show ?thesis
    by (auto simp: ledger_revise_def ledger_history_def Let_def intro!: wf_versions_snoc)
next
  case (LFinalize i)
  then obtain vs where vs: "map_of (el_history l) i = Some vs"
    using assms(2) by (auto simp: ledger_finalize_def split: option.splits)
  then have "wf_versions i vs"
    using assms(1) by (simp add: wf_ledger_map_of)
  with LFinalize assms(2) vs show ?thesis
    by (auto simp: ledger_finalize_def ledger_history_def Let_def intro!: wf_versions_snoc
        split: if_splits)
qed

lemma ledger_step_cases:
  assumes "wf_ledger l"
  obtains "ledger_step l oper = l"
  | k e where "ledger_step l oper =
      l\<lparr>el_history := AList.update k (ledger_history l k @ [e]) (el_history l)\<rparr>"
      and "wf_versions k (ledger_history l k @ [e])"
      and "ledger_history l k = [] \<or> \<not> le_is_final (last (ledger_history l k))"
  using do_ledger_op_effect [OF assms, of oper]
  by (cases "do_ledger_op oper l") (auto simp: ledger_step_def Let_def)

lemma ledger_history_update:
  "ledger_history (l\<lparr>el_history := AList.update k vs (el_history l)\<rparr>) j =
     (if j = k then vs else ledger_history l j)"
  by (simp add: ledger_history_def)

lemma ledger_step_wf: "wf_ledger l \<Longrightarrow> wf_ledger (ledger_step l oper)"
  by (rule ledger_step_cases [of l oper]) (auto intro: wf_ledger_update)

interpretation ledger: freezing_history ledger_history ledger_step wf_ledger le_is_final
proof unfold_locales
  fix l :: "'v evidence_ledger" and k and oper :: "'v ledger_op"
  assume wf: "wf_ledger l"
  show "prefix (ledger_history l k) (ledger_history (ledger_step l oper) k)"
    by (rule ledger_step_cases [OF wf, of oper]) (auto simp: ledger_history_update)
  show "wf_ledger (ledger_step l oper)"
    using wf by (rule ledger_step_wf)
  show "ledger_history (ledger_step l oper) k = ledger_history l k"
    if "ledger_history l k \<noteq> []" "le_is_final (last (ledger_history l k))"
    by (rule ledger_step_cases [OF wf, of oper]) (use that in \<open>auto simp: ledger_history_update\<close>)
qed

definition ledger_after :: "'v evidence_ledger \<Rightarrow> 'v ledger_op list \<Rightarrow> 'v evidence_ledger" where
  "ledger_after l ops = foldl ledger_step l ops"

text \<open>
  C27: The ledger is append-only and finalized history is never rewritten. Through any sequence of
  operations, accepted or refused, the versions of every event only grow at the end: what was
  readable stays readable at its revision. Revisions count from zero without gaps, all versions are
  about their event, only the newest can be final, and once it is final the history of the event
  never changes again.
\<close>

theorem ledger_append_only:
  assumes "wf_ledger l"
  shows "prefix (ledger_history l k) (ledger_history (ledger_after l ops) k) \<and>
    map le_revision (ledger_history (ledger_after l ops) k) =
      map int [0..<length (ledger_history (ledger_after l ops) k)] \<and>
    list_all (\<lambda>e. le_event_id e = k) (ledger_history (ledger_after l ops) k) \<and>
    list_all (\<lambda>e. \<not> le_is_final e) (butlast (ledger_history (ledger_after l ops) k)) \<and>
    (ledger_history l k = [] \<or> \<not> le_is_final (last (ledger_history l k)) \<or>
     ledger_history (ledger_after l ops) k = ledger_history l k)"
proof -
  let ?h = "ledger_history (ledger_after l ops) k"
  have "wf_ledger (ledger_after l ops)"
    using ledger.run_ok [OF assms] by (simp add: ledger_after_def)
  then have "?h = [] \<or> wf_versions k ?h"
    by (auto simp: wf_ledger_map_of ledger_history_def split: option.splits)
  then have "map le_revision ?h = map int [0..<length ?h] \<and> list_all (\<lambda>e. le_event_id e = k) ?h \<and>
      list_all (\<lambda>e. \<not> le_is_final e) (butlast ?h)"
    by (auto simp: wf_versions_def list_all_iff in_set_conv_nth intro!: nth_equalityI)
  then show ?thesis
    using ledger.run_extends [OF assms, of k ops] ledger.frozen_run [OF assms, of k ops]
    by (auto simp: ledger_after_def)
qed

definition sample_prov :: "modality \<Rightarrow> provenance" where
  "sample_prov m = \<lparr>prov_modality = m, prov_model_version = ModelVersionId ''m'',
     prov_taxonomy_version = MkVersion 1 0 0, prov_configuration = ConfigurationSnapshotId ''c'',
     prov_evidence_ref = EvidenceRef ''e''\<rparr>"

definition sample_interval :: "int \<Rightarrow> int \<Rightarrow> interval" where
  "sample_interval s e = \<lparr>iv_start = MkTime s, iv_end = MkTime e, iv_tolerance_ms = 250\<rparr>"

definition sample_ledger :: "int evidence_ledger" where
  "sample_ledger = ledger_after (EvidenceLedger (RunId ''r''))
     [LAppend (EventId ''e'') (sample_interval 0 5) (sample_prov AUDIO) True None,
      LAppend (EventId ''f'') (sample_interval 0 3) (sample_prov AUDIO) False None]"

lemma sample_ledger_wf: "wf_ledger sample_ledger"
  by (simp add: sample_ledger_def ledger_after_def ledger_step_wf wf_EvidenceLedger)

lemma sample_ledger_history:
  "\<exists>e. ledger_history sample_ledger (EventId ''e'') = [e] \<and> le_is_final e"
  by (simp add: sample_ledger_def ledger_after_def ledger_step_def ledger_append_def Let_def
      EvidenceLedger_def ledger_history_def)

theorem ledger_append_only_witness:
  "ledger_history (ledger_after sample_ledger
     [LRevise (EventId ''e'') (sample_interval 1 9) (sample_prov AUDIO) False None]) (EventId ''e'') =
   ledger_history sample_ledger (EventId ''e'')"
  using ledger_append_only [OF sample_ledger_wf, of "EventId ''e''"
      "[LRevise (EventId ''e'') (sample_interval 1 9) (sample_prov AUDIO) False None]"]
    sample_ledger_history by auto

section \<open>Reads\<close>

text \<open>The ordered reads depend on the contents of the ledger, not on the order of arrival.\<close>

definition current_version :: "'v evidence_ledger \<Rightarrow> event_id \<Rightarrow> 'v ledger_entry option" where
  "current_version l k = map_option last (map_of (el_history l) k)"

lemma ordered_current_set:
  assumes "wf_ledger l"
  shows "set (ordered_current l) = {e. \<exists>k. current_version l k = Some e}"
  using assms
  by (force simp: ordered_current_def entry_order.set_ordered current_version_def wf_ledger_def)

lemma current_version_event:
  assumes "wf_ledger l" and "current_version l k = Some e"
  shows "le_event_id e = k"
proof -
  obtain vs where vs: "map_of (el_history l) k = Some vs" and e: "e = last vs"
    using assms(2) by (auto simp: current_version_def)
  have "wf_versions k vs"
    using assms(1) vs by (simp add: wf_ledger_map_of)
  then show ?thesis
    by (simp add: wf_versions_def e last_conv_nth)
qed

lemma ordered_current_distinct:
  assumes "wf_ledger l"
  shows "distinct (map le_event_id (ordered_current l))"
proof -
  have "map (\<lambda>kv. le_event_id (last (snd kv))) (el_history l) = map fst (el_history l)"
    using assms by (auto simp: wf_ledger_def wf_versions_def last_conv_nth)
  then have "map le_event_id (map (\<lambda>kv. last (snd kv)) (el_history l)) = map fst (el_history l)"
    by (simp only: map_map comp_def)
  then have "distinct (map le_event_id (map (\<lambda>kv. last (snd kv)) (el_history l)))"
    using assms by (simp only: wf_ledger_def)
  moreover have "mset (map le_event_id (ordered_current l)) =
      mset (map le_event_id (map (\<lambda>kv. last (snd kv)) (el_history l)))"
    by (simp only: ordered_current_def mset_map entry_order.mset_ordered)
  ultimately show ?thesis
    using mset_eq_imp_distinct_iff by blast
qed

text \<open>
  Reading the ledger. What a reader sees is a function of the current versions alone. Two
  well-formed ledgers that hold the same current version for every event, however and in whatever
  order they came to hold them, list the same entries in the same order; the list is complete, every
  event is in it once, it ascends by start, end and identifier, and the finalized view is exactly
  its final entries.
\<close>

theorem ledger_reads_canonical:
  assumes "wf_ledger l" and "wf_ledger l'" and "current_version l = current_version l'"
  shows "ledger_all_current l = ledger_all_current l' \<and>
    set (ledger_all_current l) = {e. \<exists>k. current_version l k = Some e} \<and>
    distinct (map le_event_id (ledger_all_current l)) \<and>
    sorted (map entry_key (ledger_all_current l)) \<and>
    ledger_finalized l = filter le_is_final (ledger_all_current l)"
proof -
  have same: "set (ordered_current l) = set (ordered_current l')"
    using assms by (simp add: ordered_current_set)
  have dist: "distinct (ordered_current l)" "distinct (ordered_current l')"
    using ordered_current_distinct assms(1,2) by (auto simp: distinct_map)
  then have "mset (ordered_current l) = mset (ordered_current l')"
    using same by (simp add: set_eq_iff_mset_eq_distinct)
  moreover have "inj_on entry_key (set (ordered_current l))"
    using assms(1) current_version_event [OF assms(1)] ordered_current_distinct [OF assms(1)]
    by (auto simp: inj_on_def entry_key_def distinct_map event_id.expand)
  moreover have "ordered_current l = sort_key entry_key (ordered_current l)" for l :: "'a evidence_ledger"
    by (simp add: ordered_current_def sort_key_id_if_sorted)
  ultimately have "ordered_current l = ordered_current l'"
    by (metis entry_order.ordered_perm)
  then show ?thesis
    using ordered_current_set [OF assms(1)] ordered_current_distinct [OF assms(1)]
    by (simp add: ledger_all_current_def ledger_finalized_def)
      (simp add: ordered_current_def entry_order.sorted_ordered)
qed

theorem ledger_reads_canonical_witness:
  "let l' = ledger_after (EvidenceLedger (RunId ''r''))
     [LAppend (EventId ''f'') (sample_interval 0 3) (sample_prov AUDIO) False None,
      LAppend (EventId ''e'') (sample_interval 0 5) (sample_prov AUDIO) True None]
   in ledger_all_current sample_ledger = ledger_all_current l'"
proof -
  let ?l' = "ledger_after (EvidenceLedger (RunId ''r''))
     [LAppend (EventId ''f'') (sample_interval 0 3) (sample_prov AUDIO) False (None :: int payload option),
      LAppend (EventId ''e'') (sample_interval 0 5) (sample_prov AUDIO) True None]"
  have "wf_ledger ?l'"
    by (simp add: ledger_after_def ledger_step_wf wf_EvidenceLedger)
  moreover have "current_version sample_ledger = current_version ?l'"
    by (rule ext) (simp add: sample_ledger_def ledger_after_def ledger_step_def ledger_append_def
        Let_def EvidenceLedger_def current_version_def)
  ultimately show ?thesis
    using ledger_reads_canonical [OF sample_ledger_wf] by simp
qed

end
