(* ===== verification/Cooccurrence.thy ===== *)
theory Cooccurrence
  imports Timeline Provenance
begin

text \<open>
  Temporal co-occurrence (\<open>domain/evidence/cooccurrence.py\<close>): two events near each other under a
  versioned window, and the deterministic pairing of speech and visual events.
\<close>

section \<open>Windows and pairs\<close>

definition DEFAULT_FUSION_WINDOW_MS :: int where
  "DEFAULT_FUSION_WINDOW_MS = 500"

record fusion_window =
  fw_width_ms :: int
  fw_configuration :: configuration_snapshot_id

definition FusionWindow :: "int \<Rightarrow> configuration_snapshot_id \<Rightarrow> fusion_window result" where
  "FusionWindow width conf =
     (if width < 0 then Inl (DomainError FusionViolation)
      else Inr \<lparr>fw_width_ms = width, fw_configuration = conf\<rparr>)"

definition admits :: "fusion_window \<Rightarrow> int \<Rightarrow> bool" where
  "admits w gap_ms \<longleftrightarrow> gap_ms \<le> fw_width_ms w"

record multimodal_cooccurrence =
  mc_speech_event_id :: event_id
  mc_visual_event_id :: event_id
  mc_temporal_distance_ms :: int
  mc_window :: fusion_window

text \<open>The class constant: the same for every co-occurrence, with no field behind it.\<close>

definition causal_inference :: "multimodal_cooccurrence \<Rightarrow> bool" where
  "causal_inference c = False"

definition MultimodalCooccurrence ::
  "event_id \<Rightarrow> event_id \<Rightarrow> int \<Rightarrow> fusion_window \<Rightarrow> multimodal_cooccurrence result" where
  "MultimodalCooccurrence speech visual distance window =
     (if distance < 0 then Inl (DomainError FusionViolation)
      else if \<not> admits window distance then Inl (DomainError FusionViolation)
      else Inr \<lparr>mc_speech_event_id = speech, mc_visual_event_id = visual,
                mc_temporal_distance_ms = distance, mc_window = window\<rparr>)"

record timed_event =
  te_id :: event_id
  te_interval :: interval

definition timed_key :: "timed_event \<Rightarrow> int \<times> int \<times> string" where
  "timed_key e = (start_ms (te_interval e), end_ms (te_interval e), event_id_value (te_id e))"

definition timed_ordered :: "timed_event list \<Rightarrow> timed_event list" where
  "timed_ordered events = sort_key timed_key events"

interpretation timed: canonical_order timed_key timed_ordered
  unfolding timed_ordered_def by (rule canonical_order_sort_key)

section \<open>The pairing loops\<close>

fun pair_speech_event ::
  "timed_event \<Rightarrow> timed_event list \<Rightarrow> fusion_window \<Rightarrow> multimodal_cooccurrence list result" where
  "pair_speech_event s [] window = Inr []"
| "pair_speech_event s (v # vs) window =
     (let gap = gap_to (te_interval s) (te_interval v) in
      if \<not> admits window gap then pair_speech_event s vs window
      else bindR (MultimodalCooccurrence (te_id s) (te_id v) gap window) (\<lambda>p.
           bindR (pair_speech_event s vs window) (\<lambda>ps. Inr (p # ps))))"

fun pair_all ::
  "timed_event list \<Rightarrow> timed_event list \<Rightarrow> fusion_window \<Rightarrow> multimodal_cooccurrence list result" where
  "pair_all [] vs window = Inr []"
| "pair_all (s # ss) vs window =
     bindR (pair_speech_event s vs window) (\<lambda>ps.
     bindR (pair_all ss vs window) (\<lambda>qs. Inr (ps @ qs)))"

definition correlate ::
  "timed_event list \<Rightarrow> timed_event list \<Rightarrow> fusion_window \<Rightarrow> multimodal_cooccurrence list result" where
  "correlate speech visual window = pair_all (timed_ordered speech) (timed_ordered visual) window"

section \<open>Correctness\<close>

definition near :: "fusion_window \<Rightarrow> timed_event \<times> timed_event \<Rightarrow> bool" where
  "near w p = admits w (gap_to (te_interval (fst p)) (te_interval (snd p)))"

definition cooccurrence_of :: "fusion_window \<Rightarrow> timed_event \<times> timed_event \<Rightarrow> multimodal_cooccurrence" where
  "cooccurrence_of w p =
     \<lparr>mc_speech_event_id = te_id (fst p), mc_visual_event_id = te_id (snd p),
      mc_temporal_distance_ms = gap_to (te_interval (fst p)) (te_interval (snd p)), mc_window = w\<rparr>"

abbreviation wf_events :: "timed_event list \<Rightarrow> bool" where
  "wf_events es \<equiv> \<forall>e \<in> set es. wf_interval (te_interval e)"

lemma pair_speech_event_eq:
  assumes "wf_interval (te_interval s)" and "wf_events vs"
  shows "pair_speech_event s vs w =
    Inr (map (cooccurrence_of w) (filter (near w) (map (Pair s) vs)))"
  using assms(2)
proof (induction vs)
  case (Cons v vs)
  then have "0 \<le> gap_to (te_interval s) (te_interval v)"
    using assms(1) by (simp add: gap_to_nonneg)
  with Cons show ?case
    by (simp add: Let_def MultimodalCooccurrence_def near_def cooccurrence_of_def)
qed simp

lemma pair_all_eq:
  assumes "wf_events ss" and "wf_events vs"
  shows "pair_all ss vs w = Inr (map (cooccurrence_of w) (filter (near w) (List.product ss vs)))"
  using assms by (induction ss) (simp_all add: pair_speech_event_eq)

lemma correlate_eq:
  assumes "wf_events speech" and "wf_events visual"
  shows "correlate speech visual w = Inr (map (cooccurrence_of w)
    (filter (near w) (List.product (timed_ordered speech) (timed_ordered visual))))"
  unfolding correlate_def
  by (rule pair_all_eq) (use assms in \<open>simp_all add: timed.set_ordered\<close>)

lemma near_iff:
  assumes "wf_interval (te_interval s)" and "wf_interval (te_interval v)" and "0 \<le> fw_width_ms w"
  shows "near w (s, v) \<longleftrightarrow>
    start_ms (te_interval v) \<le> end_ms (te_interval s) + fw_width_ms w \<and>
    start_ms (te_interval s) \<le> end_ms (te_interval v) + fw_width_ms w"
  using assms by (auto simp: near_def admits_def gap_to_max)

lemma mset_product: "mset (List.product xs ys) = (\<Sum>x\<in>#mset xs. image_mset (Pair x) (mset ys))"
  by (induction xs) simp_all


definition sample_event :: "string \<Rightarrow> int \<Rightarrow> int \<Rightarrow> timed_event" where
  "sample_event name s e =
     \<lparr>te_id = EventId name,
      te_interval = \<lparr>iv_start = MkTime s, iv_end = MkTime e, iv_tolerance_ms = 250\<rparr>\<rparr>"

definition sample_window :: "int \<Rightarrow> fusion_window" where
  "sample_window width = \<lparr>fw_width_ms = width, fw_configuration = ConfigurationSnapshotId ''c''\<rparr>"

lemmas sample_event_defs = sample_event_def sample_window_def wf_interval_def


text \<open>
  Fusion does not depend on the order of its inputs. Two presentations of the same speech and
  visual events give the same pairs in the same order, provided that no two distinct events of a
  side agree in start, end and identifier.
\<close>

theorem correlate_order_independent:
  assumes "mset speech = mset speech'" and "mset visual = mset visual'"
    and "inj_on timed_key (set speech)" and "inj_on timed_key (set visual)"
  shows "correlate speech visual w = correlate speech' visual' w"
  unfolding correlate_def
  using timed.ordered_perm [OF assms(1,3)] timed.ordered_perm [OF assms(2,4)] by simp

theorem correlate_order_independent_witness:
  "correlate [sample_event ''a'' 0 10, sample_event ''b'' 0 10] [sample_event ''c'' 5 8] (sample_window 3) =
   correlate [sample_event ''b'' 0 10, sample_event ''a'' 0 10] [sample_event ''c'' 5 8] (sample_window 3)"
  by (rule correlate_order_independent) (simp_all add: inj_on_def timed_key_def sample_event_def)

end
