(* ===== verification/Document.thy ===== *)
theory Document
  imports SpeechEvents VisualEvents Transcript Quality Cooccurrence
begin

text \<open>
  The evidence document (\<open>domain/evidence/document.py\<close>): its manifest, its queries, and the check on
  the serialized payload that keeps ranking vocabulary out of every published result.
\<close>

section \<open>The document\<close>

definition FORBIDDEN_RESULT_KEYS :: "string list" where
  "FORBIDDEN_RESULT_KEYS =
     [''rank'', ''ranking'', ''ranked'', ''score'', ''scores'', ''priority'', ''priority_score'',
      ''severity'', ''top_k'', ''topk'', ''selected'', ''recommendation'', ''recommendations'',
      ''intervention'', ''interventions'', ''exercise'', ''exercises'']"

record provenance_manifest =
  pm_pipeline_version :: semantic_version
  pm_schema_version :: semantic_version
  pm_taxonomy_version :: semantic_version
  pm_configuration :: configuration_snapshot_id
  pm_models :: "(modality \<times> model_version_id) list"

definition ProvenanceManifest ::
  "semantic_version \<Rightarrow> semantic_version \<Rightarrow> semantic_version \<Rightarrow> configuration_snapshot_id \<Rightarrow>
   (modality \<times> model_version_id) list \<Rightarrow> provenance_manifest result" where
  "ProvenanceManifest pipeline schema taxonomy conf models =
     (if taxonomy \<noteq> TAXONOMY_VERSION then Inl (DomainError ResultViolation)
      else Inr \<lparr>pm_pipeline_version = pipeline, pm_schema_version = schema,
                pm_taxonomy_version = taxonomy, pm_configuration = conf, pm_models = models\<rparr>)"

record evidence_document =
  ed_session_id :: session_id
  ed_run_id :: run_id
  ed_manifest :: provenance_manifest
  ed_transcript :: transcript
  ed_quality :: quality_report
  ed_speech_events :: "speech_event list"
  ed_visual_events :: "visual_event list"
  ed_prosody :: "prosody_reading list"
  ed_cooccurrences :: "multimodal_cooccurrence list"

definition ranking_authority :: "evidence_document \<Rightarrow> string" where
  "ranking_authority d = ''none''"

definition has_speech_evidence :: "evidence_document \<Rightarrow> bool" where
  "has_speech_evidence d \<longleftrightarrow> tr_tokens (ed_transcript d) \<noteq> [] \<or> ed_speech_events d \<noteq> []"

definition has_visual_evidence :: "evidence_document \<Rightarrow> bool" where
  "has_visual_evidence d \<longleftrightarrow> ed_visual_events d \<noteq> []"

definition unavailable_indicators :: "evidence_document \<Rightarrow> prosody_reading list" where
  "unavailable_indicators d = filter (\<lambda>r. \<not> prosody_is_available r) (ed_prosody d)"

definition events_from :: "evidence_document \<Rightarrow> modality \<Rightarrow> nat" where
  "events_from d m =
     (if m = AUDIO then length (ed_speech_events d)
      else if m = VIDEO then length (ed_visual_events d)
      else length (ed_cooccurrences d))"

section \<open>The ranking check\<close>

text \<open>A serialized payload, as \<open>_forbidden_keys_in\<close> tells its nodes apart: mappings (with string
  keys), sequences, and everything it does not descend into.\<close>

datatype json =
    JMap "(string \<times> json) list"
  | JSeq "json list"
  | JStr string
  | JBytes string
  | JInt int
  | JFloat rat
  | JBool bool
  | JNull

text \<open>\<open>str.lower\<close> on Latin-1 code points.\<close>

definition char_lower :: "char \<Rightarrow> char" where
  "char_lower c = (let n = (of_char c :: nat) in
     if 65 \<le> n \<and> n \<le> 90 \<or> 192 \<le> n \<and> n \<le> 222 \<and> n \<noteq> 215 then char_of (n + 32) else c)"

definition py_lower :: "string \<Rightarrow> string" where
  "py_lower s = map char_lower s"

definition child_path :: "string \<Rightarrow> string \<Rightarrow> string" where
  "child_path path key = (if path \<noteq> [] then path @ ''.'' @ key else key)"

definition index_path :: "string \<Rightarrow> nat \<Rightarrow> string" where
  "index_path path i = path @ ''['' @ show_int (int i) @ '']''"

text \<open>The set of offending paths, as a list with repetitions.\<close>

fun forbidden_keys_in :: "json \<Rightarrow> string \<Rightarrow> string list"
  and forbidden_in_items :: "(string \<times> json) list \<Rightarrow> string \<Rightarrow> string list"
  and forbidden_in_seq :: "json list \<Rightarrow> nat \<Rightarrow> string \<Rightarrow> string list" where
  "forbidden_keys_in (JMap items) path = forbidden_in_items items path"
| "forbidden_keys_in (JSeq xs) path = forbidden_in_seq xs 0 path"
| "forbidden_keys_in (JStr s) path = []"
| "forbidden_keys_in (JBytes s) path = []"
| "forbidden_keys_in (JInt i) path = []"
| "forbidden_keys_in (JFloat q) path = []"
| "forbidden_keys_in (JBool b) path = []"
| "forbidden_keys_in JNull path = []"
| "forbidden_in_items [] path = []"
| "forbidden_in_items ((key, v) # items) path =
     (let here = child_path path key
      in (if py_lower key \<in> set FORBIDDEN_RESULT_KEYS then [here] else []) @
         forbidden_keys_in v here @ forbidden_in_items items path)"
| "forbidden_in_seq [] i path = []"
| "forbidden_in_seq (v # vs) i path =
     forbidden_keys_in v (index_path path i) @ forbidden_in_seq vs (Suc i) path"

definition assert_carries_no_ranking :: "(string \<times> json) list \<Rightarrow> unit result" where
  "assert_carries_no_ranking payload =
     (let offenders = forbidden_keys_in (JMap payload) []
      in if offenders \<noteq> [] then Inl (DomainError ResultViolation) else Inr ())"

text \<open>The specification: a key that occurs anywhere inside.\<close>

inductive key_inside :: "json \<Rightarrow> string \<Rightarrow> bool" where
  key_here: "(key, v) \<in> set items \<Longrightarrow> key_inside (JMap items) key"
| key_in_value: "(k, v) \<in> set items \<Longrightarrow> key_inside v key \<Longrightarrow> key_inside (JMap items) key"
| key_in_element: "v \<in> set vs \<Longrightarrow> key_inside v key \<Longrightarrow> key_inside (JSeq vs) key"

inductive_simps key_inside_simps:
  "key_inside (JMap items) key"
  "key_inside (JSeq vs) key"
  "key_inside (JStr s) key"
  "key_inside (JBytes s) key"
  "key_inside (JInt i) key"
  "key_inside (JFloat q) key"
  "key_inside (JBool b) key"
  "key_inside JNull key"

definition forbidden_key :: "string \<Rightarrow> bool" where
  "forbidden_key key \<longleftrightarrow> py_lower key \<in> set FORBIDDEN_RESULT_KEYS"

lemma forbidden_found:
  "forbidden_keys_in node path \<noteq> [] \<longleftrightarrow> (\<exists>key. key_inside node key \<and> forbidden_key key)"
  "forbidden_in_items items path \<noteq> [] \<longleftrightarrow>
     (\<exists>(k, v) \<in> set items. forbidden_key k \<or> (\<exists>key. key_inside v key \<and> forbidden_key key))"
  "forbidden_in_seq vs i path \<noteq> [] \<longleftrightarrow>
     (\<exists>v \<in> set vs. \<exists>key. key_inside v key \<and> forbidden_key key)"
proof (induction node path and items path and vs i path
    rule: forbidden_keys_in_forbidden_in_items_forbidden_in_seq.induct)
  case (1 items path)
  then show ?case by (simp only: forbidden_keys_in.simps key_inside_simps) blast
next
  case (2 xs path)
  then show ?case by (simp only: forbidden_keys_in.simps key_inside_simps) blast
next
  case (10 key v items path)
  then show ?case by (simp add: Let_def forbidden_key_def)
qed (simp_all add: key_inside_simps)

text \<open>
  C36: The ranking check is sound and complete. A payload passes exactly when no mapping at any
  depth, inside mappings, sequences or both, has a key that is a forbidden name up to letter case;
  otherwise the check raises \<open>ResultViolation\<close>.
\<close>

theorem no_ranking_sound_complete:
  "assert_carries_no_ranking payload =
     (if \<exists>key. key_inside (JMap payload) key \<and> py_lower key \<in> set FORBIDDEN_RESULT_KEYS
      then Inl (DomainError ResultViolation) else Inr ())"
  using forbidden_found(1) [of "JMap payload" "[]"]
  by (simp add: assert_carries_no_ranking_def forbidden_key_def)

end
