(* ===== verification/Sha256.thy ===== *)
theory Sha256
  imports Prelude "HOL-Library.Word"
begin

text \<open>
  The part of Python's \<open>hashlib\<close> and \<open>str.encode\<close> that the engine uses: SHA-256 on 32-bit words, with
  its padding, its compression function and the hexadecimal digest, and UTF-8 for the Latin-1 code
  points strings are made of here.
\<close>

unbundle bit_operations_syntax

type_synonym w32 = "32 word"

text \<open>The round constants (the first 32 bits of the fractional parts of the cube roots of the first 64
  primes) and the initial state.\<close>

definition sha_K :: "w32 list" where
  "sha_K =
     [1116352408, 1899447441, 3049323471, 3921009573, 961987163, 1508970993, 2453635748,
      2870763221, 3624381080, 310598401, 607225278, 1426881987, 1925078388, 2162078206,
      2614888103, 3248222580, 3835390401, 4022224774, 264347078, 604807628, 770255983,
      1249150122, 1555081692, 1996064986, 2554220882, 2821834349, 2952996808, 3210313671,
      3336571891, 3584528711, 113926993, 338241895, 666307205, 773529912, 1294757372,
      1396182291, 1695183700, 1986661051, 2177026350, 2456956037, 2730485921, 2820302411,
      3259730800, 3345764771, 3516065817, 3600352804, 4094571909, 275423344, 430227734,
      506948616, 659060556, 883997877, 958139571, 1322822218, 1537002063, 1747873779,
      1955562222, 2024104815, 2227730452, 2361852424, 2428436474, 2756734187, 3204031479,
      3329325298]"

definition sha_H0 :: "w32 list" where
  "sha_H0 =
     [0x6a09e667, 0xbb67ae85, 0x3c6ef372, 0xa54ff53a, 0x510e527f, 0x9b05688c, 0x1f83d9ab,
      0x5be0cd19]"

text \<open>UTF-8: one byte below 128, two bytes otherwise.\<close>

definition utf8_char :: "char \<Rightarrow> nat list" where
  "utf8_char c = (let n = (of_char c :: nat) in if n < 128 then [n] else [192 + n div 64, 128 + n mod 64])"

definition utf8 :: "string \<Rightarrow> nat list" where
  "utf8 s = concat (map utf8_char s)"

text \<open>The message is closed by a one bit, zeros, and its length in bits as eight bytes.\<close>

definition sha_pad :: "nat list \<Rightarrow> nat list" where
  "sha_pad bs =
     (let n = length bs; zeros = (119 - n mod 64) mod 64
      in bs @ [128] @ replicate zeros 0 @
         map (\<lambda>i. (8 * n) div 256 ^ i mod 256) [7, 6, 5, 4, 3, 2, 1, 0])"

definition word_of_bytes :: "nat list \<Rightarrow> w32" where
  "word_of_bytes bs = fold (\<lambda>b acc. acc * 256 + of_nat b) bs 0"

fun chunks :: "nat \<Rightarrow> nat \<Rightarrow> 'a list \<Rightarrow> 'a list list" where
  "chunks n 0 xs = []"
| "chunks n (Suc k) xs = take n xs # chunks n k (drop n xs)"

definition rotr32 :: "nat \<Rightarrow> w32 \<Rightarrow> w32" where
  "rotr32 n x = drop_bit n x OR push_bit (32 - n) x"

definition small_sigma0 :: "w32 \<Rightarrow> w32" where
  "small_sigma0 x = rotr32 7 x XOR rotr32 18 x XOR drop_bit 3 x"

definition small_sigma1 :: "w32 \<Rightarrow> w32" where
  "small_sigma1 x = rotr32 17 x XOR rotr32 19 x XOR drop_bit 10 x"

definition big_sigma0 :: "w32 \<Rightarrow> w32" where
  "big_sigma0 x = rotr32 2 x XOR rotr32 13 x XOR rotr32 22 x"

definition big_sigma1 :: "w32 \<Rightarrow> w32" where
  "big_sigma1 x = rotr32 6 x XOR rotr32 11 x XOR rotr32 25 x"

text \<open>The message schedule, newest word first.\<close>

fun sha_extend :: "nat \<Rightarrow> w32 list \<Rightarrow> w32 list" where
  "sha_extend 0 ws = ws"
| "sha_extend (Suc k) ws =
     sha_extend k ((small_sigma1 (ws ! 1) + ws ! 6 + small_sigma0 (ws ! 14) + ws ! 15) # ws)"

definition sha_round :: "w32 \<times> w32 \<Rightarrow> w32 list \<Rightarrow> w32 list" where
  "sha_round kw st =
     (case st of
        [a, b, c, d, e, f, g, h] \<Rightarrow>
          let t1 = h + big_sigma1 e + ((e AND f) XOR (NOT e AND g)) + fst kw + snd kw;
              t2 = big_sigma0 a + ((a AND b) XOR (a AND c) XOR (b AND c))
          in [t1 + t2, a, b, c, d + t1, e, f, g]
      | _ \<Rightarrow> st)"

definition sha_block :: "nat list \<Rightarrow> w32 list \<Rightarrow> w32 list" where
  "sha_block block st =
     (let ws = rev (sha_extend 48 (rev (map word_of_bytes (chunks 4 16 block))))
      in map2 (+) st (fold sha_round (zip sha_K ws) st))"

definition sha256 :: "nat list \<Rightarrow> w32 list" where
  "sha256 bs = (let p = sha_pad bs in fold sha_block (chunks 64 (length p div 64) p) sha_H0)"

text \<open>\<open>hexdigest\<close>.\<close>

definition hex_char :: "nat \<Rightarrow> char" where
  "hex_char n = ''0123456789abcdef'' ! n"

definition hex_word :: "w32 \<Rightarrow> string" where
  "hex_word w = map (\<lambda>i. hex_char (unat (drop_bit (4 * i) w AND 15))) [7, 6, 5, 4, 3, 2, 1, 0]"

definition sha256_hexdigest :: "string \<Rightarrow> string" where
  "sha256_hexdigest s = concat (map hex_word (sha256 (utf8 s)))"

lemma length_chunks [simp]: "length (chunks n k xs) = k"
  by (induction k arbitrary: xs) simp_all

lemma length_sha_round: "length st = 8 \<Longrightarrow> length (sha_round kw st) = 8"
  by (auto simp: sha_round_def Let_def split: list.splits)

lemma length_fold_rounds: "length st = 8 \<Longrightarrow> length (fold sha_round kws st) = 8"
  by (induction kws arbitrary: st) (simp_all add: length_sha_round)

lemma length_sha256: "length (sha256 bs) = 8"
proof -
  have "length (fold sha_block blocks st) = 8" if "length st = 8" for blocks st
    using that by (induction blocks arbitrary: st) (simp_all add: sha_block_def Let_def length_fold_rounds)
  then show ?thesis
    by (simp add: sha256_def Let_def sha_H0_def)
qed

lemma length_hexdigest: "length (sha256_hexdigest s) = 64"
proof -
  have "sum_list (map (length \<circ> hex_word) ws) = 8 * length ws" for ws
    by (induction ws) (simp_all add: hex_word_def)
  then show ?thesis
    by (simp add: sha256_hexdigest_def length_concat length_sha256)
qed

end
