(* ===== verification/Ports.thy ===== *)
theory Ports
  imports Cooccurrence VisualEvents SpeechEvents
begin

text \<open>
  The values that cross the ports of the application layer (\<open>application/ports/platform.py\<close> and
  \<open>application/ports/runtimes.py\<close>): callers and scopes, quota decisions, configuration snapshots,
  model versions, and the hypotheses the model runtimes return. Audio samples and pixels are opaque
  strings of bytes.
\<close>

section \<open>Control plane\<close>

datatype scope = SESSIONS_WRITE | SESSIONS_READ | RESULTS_READ | EVIDENCE_DELETE | JOBS_WRITE | ADMIN

record authenticated_caller =
  ac_application :: application_id
  ac_tenant :: tenant_id
  ac_key_id :: api_key_id
  ac_scopes :: "scope list"
  ac_trace_id :: string

definition caller_allows :: "authenticated_caller \<Rightarrow> scope \<Rightarrow> bool" where
  "caller_allows c s \<longleftrightarrow> s \<in> set (ac_scopes c) \<or> ADMIN \<in> set (ac_scopes c)"

record quota_decision =
  qd_allowed :: bool
  qd_remaining :: int
  qd_retry_after_seconds :: int
  qd_reason :: string

record configuration_snapshot =
  cs_id :: configuration_snapshot_id
  cs_taxonomy_version :: semantic_version
  cs_pipeline_version :: semantic_version
  cs_schema_version :: semantic_version
  cs_fusion_window :: fusion_window
  cs_speech_thresholds :: "(string \<times> rat) list"
  cs_visual_thresholds :: "(string \<times> rat) list"
  cs_silence_threshold_ms :: int
  cs_calibration :: "visual_calibration option"

datatype approval_state = DRAFT | EVALUATED | APPROVED | CANARY | PRODUCTION | ROLLED_BACK | DISABLED

record model_version =
  mv_id :: model_version_id
  mv_modality :: modality
  mv_artifact_digest :: string
  mv_dataset_version :: string
  mv_approval :: approval_state
  mv_metrics :: "(string \<times> rat) list"
  mv_rollback_to :: "model_version_id option"

section \<open>Runtimes\<close>

record audio_window =
  aw_session_position_ms :: int
  aw_duration_ms :: int
  aw_sample_rate_hz :: int
  aw_samples :: string
  aw_is_final_window :: bool

record word_hypothesis =
  wh_raw_text :: string
  wh_start_ms :: int
  wh_end_ms :: int
  wh_score :: rat

record speech_event_hypothesis =
  sh_type :: speech_event_type
  sh_start_ms :: int
  sh_end_ms :: int
  sh_score :: rat
  sh_raw_text :: string
  sh_context_role :: "contextual_role option"

record prosody_hypothesis =
  ph_indicator :: prosodic_indicator
  ph_start_ms :: int
  ph_end_ms :: int
  ph_value :: "rat option"
  ph_score :: rat

record speech_result =
  sr_model_version :: model_version_id
  sr_words :: "word_hypothesis list"
  sr_events :: "speech_event_hypothesis list"
  sr_prosody :: "prosody_hypothesis list"
  sr_stable_through_ms :: int

record visual_frame =
  vf_session_position_ms :: int
  vf_pixels :: "string option"
  vf_landmarks :: "rat list"

record visual_event_hypothesis =
  vh_type :: visual_event_type
  vh_start_ms :: int
  vh_end_ms :: int
  vh_score :: rat
  vh_direction :: "gaze_direction option"
  vh_magnitude :: "rat option"

record visual_quality_signal =
  vq_start_ms :: int
  vq_end_ms :: int
  vq_face_visibility :: rat
  vq_mean_luminance :: rat
  vq_framing_coverage :: rat
  vq_landmark_confidence :: rat

record visual_result =
  vr_model_version :: model_version_id
  vr_events :: "visual_event_hypothesis list"
  vr_quality :: "visual_quality_signal list"

end
