(* ===== verification/ScoreCalibration.thy ===== *)
theory ScoreCalibration
  imports Measurement
begin

text \<open>
  Confidence calibration (\<open>application/services/calibration.py\<close>): monotone piecewise-linear curves
  from raw scores to probabilities, and the calibrator that applies the curve of a class or marks
  the score as raw when the class has none.
\<close>

section \<open>Operations\<close>

datatype calibration_curve = MkCurve (curve_points: "(rat \<times> rat) list")

definition CalibrationCurve :: "(rat \<times> rat) list \<Rightarrow> calibration_curve result" where
  "CalibrationCurve points =
     (if length points < 2 then Inl ValueError
      else let raws = map fst points in
        if raws \<noteq> sort raws then Inl ValueError
        else let probs = map snd points in
          if probs \<noteq> sort probs then Inl ValueError
          else if \<not> list_all (\<lambda>p. 0 \<le> p \<and> p \<le> 1) probs then Inl ValueError
          else Inr (MkCurve points))"

text \<open>The loop over consecutive points; \<open>None\<close> is the fall-through after the loop.\<close>

fun segment_value :: "((rat \<times> rat) \<times> (rat \<times> rat)) list \<Rightarrow> rat \<Rightarrow> rat option" where
  "segment_value [] c = None"
| "segment_value (((x0, y0), (x1, y1)) # segs) c =
     (if x0 \<le> c \<and> c \<le> x1 then
        (if x1 = x0 then Some y1
         else let ratio = (c - x0) / (x1 - x0) in Some (y0 + ratio * (y1 - y0)))
      else segment_value segs c)"

definition curve_apply :: "calibration_curve \<Rightarrow> rat \<Rightarrow> rat" where
  "curve_apply curve raw_score =
     (let points = curve_points curve;
          clamped = min (max raw_score (fst (hd points))) (fst (last points))
      in case segment_value (pairwise points) clamped of
           Some y \<Rightarrow> y
         | None \<Rightarrow> snd (last points))"

definition clamp_unit :: "rat \<Rightarrow> rat" where
  "clamp_unit v = min (max v 0) 1"

datatype calibrator = MkCalibrator (calibrator_curves: "(string \<times> calibration_curve) list")

definition calibrate :: "calibrator \<Rightarrow> string \<Rightarrow> rat \<Rightarrow> confidence result" where
  "calibrate cal class_identifier raw_score =
     (case map_of (calibrator_curves cal) class_identifier of
        None \<Rightarrow> confidence_raw (clamp_unit raw_score)
      | Some curve \<Rightarrow> confidence_calibrated (clamp_unit (curve_apply curve raw_score)))"

definition has_curve_for :: "calibrator \<Rightarrow> string \<Rightarrow> bool" where
  "has_curve_for cal class_identifier \<longleftrightarrow> map_of (calibrator_curves cal) class_identifier \<noteq> None"

section \<open>Curves\<close>

definition wf_points :: "(rat \<times> rat) list \<Rightarrow> bool" where
  "wf_points ps \<longleftrightarrow> 2 \<le> length ps \<and> sorted (map fst ps) \<and> sorted (map snd ps) \<and>
     (\<forall>p \<in> set ps. 0 \<le> snd p \<and> snd p \<le> 1)"

lemma sort_eq_iff: "sort xs = xs \<longleftrightarrow> sorted xs"
  by (metis sorted_sort sorted_sort_id)

lemma CalibrationCurve_Inr: "CalibrationCurve ps = Inr c \<longleftrightarrow> wf_points ps \<and> c = MkCurve ps"
  by (auto simp: CalibrationCurve_def wf_points_def Let_def list_all_iff eq_commute [of _ "sort _"]
      sort_eq_iff)

lemma CalibrationCurve_Inl: "CalibrationCurve ps = Inl e \<Longrightarrow> e = ValueError"
  by (auto simp: CalibrationCurve_def Let_def split: if_splits)

text \<open>A linear piece stays between its ends and rises with its argument.\<close>

lemma linear_between:
  fixes x0 :: rat
  assumes "x0 < x1" and "y0 \<le> y1" and "x0 \<le> c" and "c \<le> d" and "d \<le> x1"
  shows "y0 \<le> y0 + (c - x0) / (x1 - x0) * (y1 - y0)"
    and "y0 + (c - x0) / (x1 - x0) * (y1 - y0) \<le> y0 + (d - x0) / (x1 - x0) * (y1 - y0)"
    and "y0 + (d - x0) / (x1 - x0) * (y1 - y0) \<le> y1"
proof -
  have pos: "0 < x1 - x0" using assms(1) by simp
  have "0 \<le> (c - x0) / (x1 - x0)" and "(c - x0) / (x1 - x0) \<le> (d - x0) / (x1 - x0)"
    and "(d - x0) / (x1 - x0) \<le> 1"
    using pos assms by (simp_all add: divide_right_mono)
  moreover have "0 \<le> r * h \<and> r * h \<le> s * h \<and> s * h \<le> h"
    if "0 \<le> r" "r \<le> s" "s \<le> 1" "0 \<le> h" for r s h :: rat
    using that by (intro conjI mult_nonneg_nonneg mult_right_mono mult_left_le_one_le) auto
  ultimately have "0 \<le> (c - x0) / (x1 - x0) * (y1 - y0) \<and>
      (c - x0) / (x1 - x0) * (y1 - y0) \<le> (d - x0) / (x1 - x0) * (y1 - y0) \<and>
      (d - x0) / (x1 - x0) * (y1 - y0) \<le> y1 - y0"
    using assms(2) by (simp only: diff_ge_0_iff_ge)
  then show "y0 \<le> y0 + (c - x0) / (x1 - x0) * (y1 - y0)"
    and "y0 + (c - x0) / (x1 - x0) * (y1 - y0) \<le> y0 + (d - x0) / (x1 - x0) * (y1 - y0)"
    and "y0 + (d - x0) / (x1 - x0) * (y1 - y0) \<le> y1"
    by linarith+
qed

text \<open>Inside the range some segment brackets the score: the fall-through is never taken.\<close>

lemma segment_value_bounds:
  assumes "sorted (map fst ps)" and "sorted (map snd ps)" and "2 \<le> length ps"
    and "fst (hd ps) \<le> c" and "c \<le> fst (last ps)"
  shows "\<exists>y. segment_value (pairwise ps) c = Some y \<and> snd (hd ps) \<le> y \<and> y \<le> snd (last ps)"
  using assms
proof (induction ps rule: induct_list012)
  case (3 p q ps)
  obtain x0 y0 where p: "p = (x0, y0)" by (cases p)
  obtain x1 y1 where q: "q = (x1, y1)" by (cases q)
  have le: "x0 \<le> x1" "y0 \<le> y1" "x0 \<le> c" using 3 by (auto simp: p q)
  have last: "y1 \<le> snd (last (q # ps))"
    using "3.prems"(2) by (cases ps rule: rev_cases) (auto simp: p q)
  show ?case
  proof (cases "c \<le> x1")
    case True
    show ?thesis
    proof (cases "x1 = x0")
      case eq: True
      with True le last show ?thesis by (auto simp: p q)
    next
      case False
      then have "x0 < x1" using le by simp
      with True False le last linear_between [of x0 x1 y0 y1 c c] show ?thesis
        by (auto simp: p q Let_def intro: order_trans)
    qed
  next
    case False
    then have "ps \<noteq> []" using 3 by (auto simp: p q)
    then have "\<exists>y. segment_value (pairwise (q # ps)) c = Some y \<and> y1 \<le> y \<and> y \<le> snd (last (q # ps))"
      using "3.IH"(2) "3.prems" False by (auto simp: p q Suc_le_eq)
    with False le show ?thesis by (auto simp: p q intro: order_trans)
  qed
qed simp_all

lemma segment_value_mono:
  assumes "sorted (map fst ps)" and "sorted (map snd ps)" and "2 \<le> length ps"
    and "fst (hd ps) \<le> c" and "c \<le> d" and "d \<le> fst (last ps)"
    and "segment_value (pairwise ps) c = Some y" and "segment_value (pairwise ps) d = Some z"
  shows "y \<le> z"
  using assms
proof (induction ps rule: induct_list012)
  case (3 p q ps)
  obtain x0 y0 where p: "p = (x0, y0)" by (cases p)
  obtain x1 y1 where q: "q = (x1, y1)" by (cases q)
  have le: "x0 \<le> x1" "y0 \<le> y1" "x0 \<le> c" "c \<le> d" using 3 by (auto simp: p q)
  show ?case
  proof (cases "d \<le> x1")
    case True
    then show ?thesis
    proof (cases "x1 = x0")
      case False
      then have "x0 < x1" using le by simp
      with True linear_between(2) [of x0 x1 y0 y1 c d] False le "3.prems" show ?thesis
        by (auto simp: p q Let_def)
    qed (use le "3.prems" in \<open>auto simp: p q\<close>)
  next
    case False
    then have ne: "ps \<noteq> []" using 3 by (auto simp: p q)
    have z: "segment_value (pairwise (q # ps)) d = Some z"
      using "3.prems" False by (simp add: p q)
    then have bound: "y1 \<le> z"
      using segment_value_bounds [of "q # ps" d] "3.prems" False ne by (auto simp: p q Suc_le_eq)
    show ?thesis
    proof (cases "c \<le> x1")
      case True
      then have "y \<le> y1"
        using "3.prems"(7) le linear_between(3) [of x0 x1 y0 y1 c c]
        by (auto simp: p q Let_def split: if_splits)
      with bound show ?thesis by simp
    next
      case c: False
      then show ?thesis
        using "3.IH"(2) "3.prems" z ne by (auto simp: p q Suc_le_eq)
    qed
  qed
qed simp_all

lemma curve_apply_wf:
  assumes "wf_points ps"
  shows "\<exists>y. segment_value (pairwise ps) (min (max r (fst (hd ps))) (fst (last ps))) = Some y \<and>
    curve_apply (MkCurve ps) r = y \<and> snd (hd ps) \<le> y \<and> y \<le> snd (last ps)"
proof -
  have ends: "fst (hd ps) \<le> fst (last ps)"
    using assms by (cases ps) (auto simp: wf_points_def)
  then show ?thesis
    using segment_value_bounds [of ps "min (max r (fst (hd ps))) (fst (last ps))"] assms
    by (auto simp: wf_points_def curve_apply_def Let_def)
qed

lemma sorted_hd_last:
  "sorted xs \<Longrightarrow> x \<in> set xs \<Longrightarrow> hd xs \<le> x \<and> x \<le> last xs"
  by (induction xs) (auto split: if_splits)

lemma wf_points_ends:
  assumes "wf_points ps" and "(x, y) \<in> set ps"
  shows "fst (hd ps) \<le> x" and "x \<le> fst (last ps)"
proof -
  have "ps \<noteq> []" and "x \<in> set (map fst ps)" and "sorted (map fst ps)"
    using assms by (auto simp: wf_points_def rev_image_eqI)
  then show "fst (hd ps) \<le> x" and "x \<le> fst (last ps)"
    using sorted_hd_last [of "map fst ps" x] by (simp_all add: hd_map last_map)
qed

lemma curve_apply_mono:
  assumes "wf_points ps" and "r \<le> s"
  shows "curve_apply (MkCurve ps) r \<le> curve_apply (MkCurve ps) s"
proof -
  let ?cl = "\<lambda>r. min (max r (fst (hd ps))) (fst (last ps))"
  have ends: "fst (hd ps) \<le> fst (last ps)"
    using assms by (cases ps) (auto simp: wf_points_def)
  obtain y where y: "segment_value (pairwise ps) (?cl r) = Some y" "curve_apply (MkCurve ps) r = y"
    using curve_apply_wf [OF assms(1), of r] by blast
  obtain z where z: "segment_value (pairwise ps) (?cl s) = Some z" "curve_apply (MkCurve ps) s = z"
    using curve_apply_wf [OF assms(1), of s] by blast
  have "?cl r \<le> ?cl s"
    using assms(2) by (intro min.mono max.mono order_refl)
  then have "y \<le> z"
    using segment_value_mono [OF _ _ _ _ _ _ y(1) z(1)] assms(1) ends
    by (simp add: wf_points_def)
  then show ?thesis by (simp add: y z)
qed

lemma curve_apply_ends:
  assumes "wf_points ps"
  shows "0 \<le> curve_apply (MkCurve ps) r" and "curve_apply (MkCurve ps) r \<le> 1"
proof -
  have "hd ps \<in> set ps" "last ps \<in> set ps"
    using assms by (cases ps; auto simp: wf_points_def)+
  then show "0 \<le> curve_apply (MkCurve ps) r" and "curve_apply (MkCurve ps) r \<le> 1"
    using curve_apply_wf [OF assms, of r] assms by (force simp: wf_points_def)+
qed

text \<open>A curve whose raw scores are distinct takes the fitted value at every fitted point.\<close>

lemma segment_value_at_point:
  assumes "sorted_wrt (<) (map fst ps)" and "2 \<le> length ps" and "(x, y) \<in> set ps"
  shows "segment_value (pairwise ps) x = Some y"
  using assms
proof (induction ps rule: induct_list012)
  case (3 p q ps)
  obtain x0 y0 where p: "p = (x0, y0)" by (cases p)
  obtain x1 y1 where q: "q = (x1, y1)" by (cases q)
  have less: "x0 < x1" "\<forall>r \<in> set ps. x1 < fst r" using "3.prems"(1) by (auto simp: p q)
  consider "(x, y) = p" | "(x, y) = q" | "(x, y) \<in> set ps"
    using "3.prems"(3) by auto
  then show ?case
  proof cases
    case 3
    then have "ps \<noteq> []" "x1 < x" using less by auto
    then show ?thesis
      using "3.IH"(2) "3.prems" 3 by (auto simp: p q Suc_le_eq)
  qed (use less in \<open>auto simp: p q\<close>)
qed simp_all

text \<open>
  A calibration curve. Every curve the constructor accepts maps every raw score into the unit
  interval without ever taking the fall-through after its loop, is monotone, is constant outside the
  fitted range, and where the fitted scores are distinct takes exactly the fitted probabilities.
\<close>

theorem calibration_curve_correct:
  assumes "CalibrationCurve points = Inr curve"
  shows "0 \<le> curve_apply curve r \<and> curve_apply curve r \<le> 1 \<and>
    segment_value (pairwise points) (min (max r (fst (hd points))) (fst (last points))) =
      Some (curve_apply curve r) \<and>
    mono (curve_apply curve) \<and>
    curve_apply curve (max r (fst (last points))) = curve_apply curve (fst (last points)) \<and>
    curve_apply curve (min r (fst (hd points))) = curve_apply curve (fst (hd points)) \<and>
    (\<not> sorted_wrt (<) (map fst points) \<or> list_all (\<lambda>(x, y). curve_apply curve x = y) points)"
proof -
  have wf: "wf_points points" and curve: "curve = MkCurve points"
    using assms by (simp_all add: CalibrationCurve_Inr)
  have ends: "fst (hd points) \<le> fst (last points)"
    using wf by (cases points) (auto simp: wf_points_def)
  have at_points: "curve_apply curve x = y"
    if strict: "sorted_wrt (<) (map fst points)" and xy: "(x, y) \<in> set points" for x y
  proof -
    have "fst (hd points) \<le> x" and "x \<le> fst (last points)"
      using wf_points_ends [OF wf xy] .
    then show ?thesis
      using segment_value_at_point [OF strict _ xy] wf
      by (simp add: curve curve_apply_def Let_def wf_points_def)
  qed
  have "mono (curve_apply curve)"
    using curve_apply_mono [OF wf] by (simp add: curve mono_def)
  moreover have "curve_apply curve (max r (fst (last points))) = curve_apply curve (fst (last points))"
    and "curve_apply curve (min r (fst (hd points))) = curve_apply curve (fst (hd points))"
    using ends by (simp_all add: curve curve_apply_def Let_def)
  ultimately show ?thesis
    using curve_apply_ends [OF wf, of r] curve_apply_wf [OF wf, of r] at_points
    by (auto simp: curve list_all_iff)
qed

theorem calibration_curve_correct_witness:
  "curve_apply (MkCurve [(0, 1/10), (1/2, 3/10), (1, 9/10)]) (1/2) = 3/10"
proof -
  have "CalibrationCurve [(0, 1/10), (1/2, 3/10), (1, 9/10)] =
      Inr (MkCurve [(0, 1/10), (1/2, 3/10), (1, 9/10)])"
    by (simp add: CalibrationCurve_Inr wf_points_def)
  from calibration_curve_correct [OF this, of 0] show ?thesis
    by simp
qed

section \<open>The calibrator\<close>

definition wf_calibrator :: "calibrator \<Rightarrow> bool" where
  "wf_calibrator cal \<longleftrightarrow> (\<forall>curve \<in> ran (map_of (calibrator_curves cal)). wf_points (curve_points curve))"

lemma clamp_unit_range: "0 \<le> clamp_unit v" "clamp_unit v \<le> 1"
  by (simp_all add: clamp_unit_def)

text \<open>Calibrating never raises, and only a class with a curve is ever marked calibrated.\<close>

lemma calibrate_Inr:
  "calibrate cal cls r = Inr (MkConfidence
     (case map_of (calibrator_curves cal) cls of
        None \<Rightarrow> clamp_unit r | Some curve \<Rightarrow> clamp_unit (curve_apply curve r))
     (if has_curve_for cal cls then CALIBRATED else RAW))"
  by (simp add: calibrate_def has_curve_for_def confidence_raw_def confidence_calibrated_def
      clamp_unit_range split: option.splits)

lemma calibrate_wf: "\<exists>c. calibrate cal cls r = Inr c \<and> wf_confidence c \<and>
    (is_calibrated c \<longleftrightarrow> has_curve_for cal cls)"
  by (auto simp: calibrate_Inr wf_confidence_def is_calibrated_def clamp_unit_range
      split: option.splits)

lemma uncalibrated_class_never_meets:
  "\<not> has_curve_for cal cls \<Longrightarrow> calibrate cal cls r = Inr c \<Longrightarrow> \<not> meets c t"
  by (auto simp: calibrate_Inr meets_def is_calibrated_def)

end
