(* ===== verification/EventIdentity.thy ===== *)
theory EventIdentity
  imports Provenance Sha256
begin

text \<open>
  Stable event and token identifiers (\<open>application/services/event_identity.py\<close>): derived from the
  run, the class, the bucket of the position and a discriminator, and from nothing else.
\<close>

definition POSITION_BUCKET_MS :: int where
  "POSITION_BUCKET_MS = 100"

definition event_material :: "run_id \<Rightarrow> string \<Rightarrow> int \<Rightarrow> string \<Rightarrow> string" where
  "event_material run event_type start_ms discriminator =
     (let bucket = start_ms div POSITION_BUCKET_MS
      in run_id_value run @ ''|'' @ event_type @ ''|'' @ show_int bucket @ ''|'' @ discriminator)"

definition derive_event_id :: "run_id \<Rightarrow> string \<Rightarrow> int \<Rightarrow> string \<Rightarrow> event_id result" where
  "derive_event_id run event_type start_ms discriminator =
     (let digest = take 32 (sha256_hexdigest (event_material run event_type start_ms discriminator))
      in Identifier EventId (''ev_'' @ digest))"

definition token_material :: "run_id \<Rightarrow> int \<Rightarrow> string \<Rightarrow> string" where
  "token_material run start_ms raw_text =
     (let bucket = start_ms div POSITION_BUCKET_MS
      in run_id_value run @ ''|'' @ show_int bucket @ ''|'' @ raw_text)"

definition derive_token_id :: "run_id \<Rightarrow> int \<Rightarrow> string \<Rightarrow> string" where
  "derive_token_id run start_ms raw_text =
     (let digest = take 32 (sha256_hexdigest (token_material run start_ms raw_text))
      in ''tok_'' @ digest)"

lemma py_isspace_letters: "\<not> py_isspace (CHR ''e'')" "\<not> py_isspace (CHR ''t'')"
  by (simp_all add: py_isspace_def)

lemma derive_event_id_total:
  "derive_event_id run t s d =
     Inr (EventId (''ev_'' @ take 32 (sha256_hexdigest (event_material run t s d))))"
  by (simp add: derive_event_id_def Let_def Identifier_nonspace_prefix py_isspace_letters)

lemma derive_token_id_total:
  "Identifier TokenId (derive_token_id run s txt) = Inr (TokenId (derive_token_id run s txt))"
  by (simp add: derive_token_id_def Let_def Identifier_nonspace_prefix py_isspace_letters)

text \<open>The decimal text of a bucket contains no separator, so it can be told from what follows.\<close>

lemma show_nat_no_bar: "CHR ''|'' \<notin> set (show_nat n)"
  using show_nat_digit [of "CHR ''|''" n] by (auto simp: digit_val_def)

lemma show_int_no_bar: "CHR ''|'' \<notin> set (show_int i)"
  by (simp add: show_int_def show_nat_no_bar)

lemma append_sep_eq:
  assumes "c \<notin> set xs" and "c \<notin> set ys" and "xs @ c # us = ys @ c # vs"
  shows "xs = ys \<and> us = vs"
  using assms
proof (induction xs arbitrary: ys)
  case Nil
  then show ?case by (cases ys) auto
next
  case (Cons x xs)
  then show ?case by (cases ys) auto
qed

lemma show_nat_inj: "show_nat m = show_nat n \<longleftrightarrow> m = n"
proof
  assume "show_nat m = show_nat n"
  then have "py_int (show_nat m) = py_int (show_nat n)" by simp
  then show "m = n" by (simp add: py_int_show_nat)
qed simp

lemma show_int_inj: "show_int i = show_int j \<longleftrightarrow> i = j"
proof -
  have "show_nat n \<noteq> CHR ''-'' # s" for n s
    using show_nat_digit [of "CHR ''-''" n] by (auto simp: digit_val_def)
  then show ?thesis
    by (auto simp: show_int_def show_nat_inj nat_eq_iff dest: sym)
qed

lemma event_material_eq:
  "event_material run t s d = event_material run t s' d' \<longleftrightarrow> s div 100 = s' div 100 \<and> d = d'"
proof -
  have "show_int b @ CHR ''|'' # d = show_int b' @ CHR ''|'' # d' \<longleftrightarrow> b = b' \<and> d = d'" for b b'
    using append_sep_eq [OF show_int_no_bar show_int_no_bar] by (auto simp: show_int_inj)
  then show ?thesis
    by (auto simp: event_material_def Let_def POSITION_BUCKET_MS_def)
qed

text \<open>
  Identity of an event. Deriving an identifier never fails. For one run and one class the
  hashed text is the same exactly when both positions fall into the same 100 ms bucket and the
  discriminators agree, so every re-detection inside the bucket gets the same identifier, and
  nothing else about the event can change it.
\<close>

theorem event_identity_by_bucket:
  "(event_material run t s d = event_material run t s' d' \<longleftrightarrow> s div 100 = s' div 100 \<and> d = d') \<and>
   derive_event_id run t s d = derive_event_id run t (100 * (s div 100)) d \<and>
   (\<exists>i. derive_event_id run t s d = Inr i \<and> length (event_id_value i) = 35)"
proof -
  have "event_material run t s d = event_material run t (100 * (s div 100)) d"
    by (simp add: event_material_eq)
  then have "derive_event_id run t s d = derive_event_id run t (100 * (s div 100)) d"
    by (simp only: derive_event_id_total)
  then show ?thesis
    by (simp only: event_material_eq) (simp add: derive_event_id_total length_hexdigest)
qed

text \<open>
  The bucket boundary. Jitter is absorbed inside a bucket only: an onset that moves by a single
  millisecond from 99 ms to 100 ms is hashed as different evidence, for every run, class and
  discriminator.
\<close>

theorem event_identity_jitter:
  "event_material run t 99 d \<noteq> event_material run t 100 d \<and>
   event_material run t 0 d = event_material run t 99 d"
  by (simp add: event_material_eq)

end
