(* ===== verification/SpeechAssembly.thy ===== *)
theory SpeechAssembly
  imports Ports ScoreCalibration EventIdentity Transcript
begin

text \<open>
  Turning what a speech runtime returned into domain evidence
  (\<open>application/services/speech_assembly.py\<close>), and deriving silent pauses from the gaps between words.
  The assembler is the run, the configuration and the calibrator it was built with.
\<close>

section \<open>The assembler\<close>

definition ASSEMBLY_LEXICAL_CLASSES :: "speech_event_type list" where
  "ASSEMBLY_LEXICAL_CLASSES = [LEXICAL_FILLER, REPETITION, FALSE_START, SELF_REPAIR]"

record assembled_speech =
  asp_tokens :: "word_token list"
  asp_events :: "speech_event list"
  asp_prosody :: "prosody_reading list"
  asp_stable_through_ms :: int

record assembler =
  asm_run_id :: run_id
  asm_configuration :: configuration_snapshot
  asm_calibrator :: calibrator

definition make_provenance ::
  "assembler \<Rightarrow> modality \<Rightarrow> model_version_id \<Rightarrow> string \<Rightarrow> provenance result" where
  "make_provenance a m model ref_prefix =
     bindR (Identifier EvidenceRef (ref_prefix @ run_id_value (asm_run_id a))) (\<lambda>ref.
       Inr \<lparr>prov_modality = m, prov_model_version = model,
            prov_taxonomy_version = cs_taxonomy_version (asm_configuration a),
            prov_configuration = cs_id (asm_configuration a), prov_evidence_ref = ref\<rparr>)"

definition speech_provenance :: "assembler \<Rightarrow> speech_result \<Rightarrow> provenance result" where
  "speech_provenance a r = make_provenance a AUDIO (sr_model_version r) ''audio:''"

definition assemble_token :: "assembler \<Rightarrow> word_hypothesis \<Rightarrow> word_token result" where
  "assemble_token a w =
     bindR (Identifier TokenId (derive_token_id (asm_run_id a) (wh_start_ms w) (wh_raw_text w))) (\<lambda>i.
     bindR (interval_of (wh_start_ms w) (wh_end_ms w)) (\<lambda>iv.
     bindR (calibrate (asm_calibrator a) ''word'' (wh_score w)) (\<lambda>conf.
     WordToken i (wh_raw_text w) iv conf PROVISIONAL)))"

definition role_for :: "speech_event_hypothesis \<Rightarrow> contextual_role option" where
  "role_for h =
     (if sh_type h \<notin> set ASSEMBLY_LEXICAL_CLASSES then None
      else case sh_context_role h of Some r \<Rightarrow> Some r | None \<Rightarrow> Some UNCERTAIN)"

definition assemble_event ::
  "assembler \<Rightarrow> provenance \<Rightarrow> speech_event_hypothesis \<Rightarrow> speech_event result" where
  "assemble_event a prov h =
     bindR (derive_event_id (asm_run_id a) (speech_type_value (sh_type h)) (sh_start_ms h)
              (sh_raw_text h)) (\<lambda>i.
     bindR (interval_of (sh_start_ms h) (sh_end_ms h)) (\<lambda>iv.
     bindR (calibrate (asm_calibrator a) (speech_type_value (sh_type h)) (sh_score h)) (\<lambda>conf.
     SpeechEvent i (sh_type h) iv conf prov (sh_raw_text h) (role_for h) False)))"

definition unmeasured_detail :: "prosody_hypothesis \<Rightarrow> string" where
  "unmeasured_detail h =
     ''the runtime could not measure '' @ prosodic_value (ph_indicator h) @ '' over ['' @
     show_int (ph_start_ms h) @ '', '' @ show_int (ph_end_ms h) @ '') ms''"

definition assemble_prosody ::
  "assembler \<Rightarrow> provenance \<Rightarrow> prosody_hypothesis \<Rightarrow> prosody_reading result" where
  "assemble_prosody a prov h =
     bindR (interval_of (ph_start_ms h) (ph_end_ms h)) (\<lambda>window.
       case ph_value h of
         None \<Rightarrow> prosody_unavailable (ph_indicator h) window
                  (Unavailable INSUFFICIENT_OBSERVATION (unmeasured_detail h)) prov
       | Some v \<Rightarrow>
           bindR (calibrate (asm_calibrator a) (prosodic_value (ph_indicator h)) (ph_score h)) (\<lambda>conf.
           prosody_measured (ph_indicator h) window v conf prov))"

definition assemble_speech :: "assembler \<Rightarrow> speech_result \<Rightarrow> assembled_speech result" where
  "assemble_speech a r =
     bindR (speech_provenance a r) (\<lambda>prov.
     bindR (mapR (assemble_token a) (sr_words r)) (\<lambda>tokens.
     bindR (mapR (assemble_event a prov) (sr_events r)) (\<lambda>events.
     bindR (mapR (assemble_prosody a prov) (sr_prosody r)) (\<lambda>prosody.
     Inr \<lparr>asp_tokens = tokens, asp_events = events, asp_prosody = prosody,
          asp_stable_through_ms = sr_stable_through_ms r\<rparr>))))"

section \<open>Silent pauses\<close>

fun pauses_between ::
  "int \<Rightarrow> provenance \<Rightarrow> run_id \<Rightarrow> (word_token \<times> word_token) list \<Rightarrow> speech_event list result" where
  "pauses_between threshold_ms prov run [] = Inr []"
| "pauses_between threshold_ms prov run ((previous, following) # ps) =
     (let gap_ms = start_ms (wt_interval following) - end_ms (wt_interval previous) in
      if gap_ms < threshold_ms then pauses_between threshold_ms prov run ps
      else let from_ms = end_ms (wt_interval previous) in
        bindR (derive_event_id run (speech_type_value SILENT_PAUSE) from_ms []) (\<lambda>i.
        bindR (interval_of from_ms (start_ms (wt_interval following))) (\<lambda>iv.
        bindR (confidence_calibrated 1) (\<lambda>conf.
        bindR (SpeechEvent i SILENT_PAUSE iv conf prov [] None False) (\<lambda>e.
        bindR (pauses_between threshold_ms prov run ps) (\<lambda>es. Inr (e # es)))))))"

definition silent_pauses ::
  "word_token list \<Rightarrow> int \<Rightarrow> provenance \<Rightarrow> run_id \<Rightarrow> speech_event list result" where
  "silent_pauses tokens threshold_ms prov run =
     pauses_between threshold_ms prov run
       (pairwise (sort_key (\<lambda>t. start_ms (wt_interval t)) tokens))"

section \<open>What assembly yields\<close>

definition valid_span :: "int \<Rightarrow> int \<Rightarrow> bool" where
  "valid_span s e \<longleftrightarrow> 0 \<le> s \<and> s \<le> e"

lemma interval_of_valid: "(\<exists>iv. interval_of s e = Inr iv) \<longleftrightarrow> valid_span s e"
  by (auto simp: interval_of_Inr valid_span_def)

lemma make_provenance_total:
  "ref_prefix \<noteq> [] \<Longrightarrow> \<not> py_isspace (hd ref_prefix) \<Longrightarrow> \<exists>prov. make_provenance a m model ref_prefix = Inr prov \<and>
     prov_modality prov = m \<and> prov_model_version prov = model \<and>
     prov_taxonomy_version prov = cs_taxonomy_version (asm_configuration a) \<and>
     prov_configuration prov = cs_id (asm_configuration a)"
  by (cases ref_prefix) (simp_all add: make_provenance_def Identifier_nonspace_prefix)

lemma speech_provenance_total:
  "\<exists>prov. speech_provenance a r = Inr prov \<and> prov_modality prov = AUDIO \<and>
     prov_model_version prov = sr_model_version r"
  using make_provenance_total [of "''audio:''" a AUDIO "sr_model_version r"]
  by (auto simp: speech_provenance_def py_isspace_def)

lemma assemble_token_Inr:
  "assemble_token a w = Inr t \<longleftrightarrow>
     wh_raw_text w \<noteq> [] \<and>
     (\<exists>iv conf. interval_of (wh_start_ms w) (wh_end_ms w) = Inr iv \<and>
       calibrate (asm_calibrator a) ''word'' (wh_score w) = Inr conf \<and>
       t = \<lparr>wt_id = TokenId (derive_token_id (asm_run_id a) (wh_start_ms w) (wh_raw_text w)),
            wt_raw_text = wh_raw_text w, wt_interval = iv, wt_confidence = conf,
            wt_status = PROVISIONAL\<rparr>)"
  by (auto simp: assemble_token_def derive_token_id_total WordToken_Inr)

lemma assemble_token_wf: "assemble_token a w = Inr t \<Longrightarrow> wf_token t \<and> \<not> token_is_final t"
  by (auto simp: assemble_token_Inr wf_token_def token_is_final_def interval_of_wf)

definition valid_event_hypothesis :: "speech_event_hypothesis \<Rightarrow> bool" where
  "valid_event_hypothesis h \<longleftrightarrow>
     valid_span (sh_start_ms h) (sh_end_ms h) \<and>
     (sh_type h \<notin> set LEXICAL_CLASSES \<or> (\<exists>c \<in> set (sh_raw_text h). \<not> py_isspace c))"

lemma assembly_lexical [simp]: "ASSEMBLY_LEXICAL_CLASSES = LEXICAL_CLASSES"
  by (simp add: ASSEMBLY_LEXICAL_CLASSES_def LEXICAL_CLASSES_def)

lemma assemble_event_Inr:
  assumes "prov_modality prov = AUDIO"
  shows "assemble_event a prov h = Inr e \<longleftrightarrow>
     valid_event_hypothesis h \<and>
     (\<exists>i iv conf. derive_event_id (asm_run_id a) (speech_type_value (sh_type h)) (sh_start_ms h)
         (sh_raw_text h) = Inr i \<and>
       interval_of (sh_start_ms h) (sh_end_ms h) = Inr iv \<and>
       calibrate (asm_calibrator a) (speech_type_value (sh_type h)) (sh_score h) = Inr conf \<and>
       e = \<lparr>se_id = i, se_type = sh_type h, se_interval = iv, se_confidence = conf,
            se_provenance = prov, se_raw_text = sh_raw_text h, se_context_role = role_for h,
            se_is_final = False\<rparr>)"
  using assms
  by (auto simp: assemble_event_def SpeechEvent_def check_speech_event_cases wf_speech_event_def
      valid_event_hypothesis_def role_for_def interval_of_Inr valid_span_def
      split: if_splits option.splits)

lemma assemble_event_exists:
  assumes "prov_modality prov = AUDIO" and "valid_event_hypothesis h"
  shows "\<exists>e. assemble_event a prov h = Inr e"
  using assms by (auto simp: assemble_event_Inr derive_event_id_total calibrate_Inr
      valid_event_hypothesis_def simp flip: interval_of_valid)

lemma assemble_event_wf:
  assumes "assemble_event a prov h = Inr e" and "prov_modality prov = AUDIO"
  shows "wf_speech_event e \<and> \<not> se_is_final e \<and> wf_interval (se_interval e)"
proof -
  have "wf_speech_event e"
    using assms(1) by (auto simp: assemble_event_def SpeechEvent_def check_speech_event_cases
        split: if_splits)
  then show ?thesis
    using assms by (auto simp: assemble_event_Inr interval_of_wf)
qed

lemma assemble_prosody_exists:
  assumes "valid_span (ph_start_ms h) (ph_end_ms h)"
  shows "\<exists>r. assemble_prosody a prov h = Inr r"
proof -
  obtain iv where iv: "interval_of (ph_start_ms h) (ph_end_ms h) = Inr iv"
    using assms interval_of_valid by blast
  obtain c where c: "calibrate (asm_calibrator a) (prosodic_value (ph_indicator h)) (ph_score h) = Inr c"
    using calibrate_wf by blast
  show ?thesis
    by (cases "ph_value h") (auto simp: assemble_prosody_def prosody_unavailable_def
        ProsodyReading_def prosody_measured_def Let_def iv c)
qed

lemma assemble_prosody_Inr:
  "assemble_prosody a prov h = Inr r \<Longrightarrow>
     valid_span (ph_start_ms h) (ph_end_ms h) \<and> pr_indicator r = ph_indicator h \<and>
     (case ph_value h of
        None \<Rightarrow> \<not> prosody_is_available r
      | Some v \<Rightarrow> prosody_is_available r \<and> read_value (pr_value r) = Inr v)"
  by (auto simp: assemble_prosody_def prosody_unavailable_def ProsodyReading_def
      prosody_measured_def prosody_is_available_def Let_def simp flip: interval_of_valid
      split: option.splits)

lemma mapR_exists_iff:
  "(\<exists>ys. mapR f xs = Inr ys) \<longleftrightarrow> (\<forall>x \<in> set xs. \<exists>y. f x = Inr y)"
proof
  assume "\<exists>ys. mapR f xs = Inr ys"
  then show "\<forall>x \<in> set xs. \<exists>y. f x = Inr y"
    by (auto simp: mapR_eq_Inr list_all2_conv_all_nth in_set_conv_nth)
qed (auto intro: mapR_Inr_ex)

definition valid_speech_result :: "speech_result \<Rightarrow> bool" where
  "valid_speech_result r \<longleftrightarrow>
     list_all (\<lambda>w. wh_raw_text w \<noteq> [] \<and> valid_span (wh_start_ms w) (wh_end_ms w)) (sr_words r) \<and>
     list_all valid_event_hypothesis (sr_events r) \<and>
     list_all (\<lambda>h. valid_span (ph_start_ms h) (ph_end_ms h)) (sr_prosody r)"

text \<open>
  C35: Speech assembly filters nothing and invents nothing. A runtime result is assembled exactly
  when its words have text, its lexical events have a text that is not blank and all its spans are
  ordered and non-negative; one token, event or reading then comes out for every hypothesis, in
  order. Every word keeps its literal text; every event keeps its class and its text however low
  its score, a lexical event without a decided role is \<open>UNCERTAIN\<close>, an acoustic one has none; an
  unmeasured indicator becomes an absence, never a number.
\<close>

theorem speech_assembly_complete:
  "case assemble_speech a r of
     Inl _ \<Rightarrow> \<not> valid_speech_result r
   | Inr s \<Rightarrow> valid_speech_result r \<and> asp_stable_through_ms s = sr_stable_through_ms r \<and>
       map wt_raw_text (asp_tokens s) = map wh_raw_text (sr_words r) \<and>
       map (\<lambda>t. (start_ms (wt_interval t), end_ms (wt_interval t))) (asp_tokens s) =
         map (\<lambda>w. (wh_start_ms w, wh_end_ms w)) (sr_words r) \<and>
       map (\<lambda>e. (se_type e, se_raw_text e, se_context_role e)) (asp_events s) =
         map (\<lambda>h. (sh_type h, sh_raw_text h,
           if sh_type h \<in> {LEXICAL_FILLER, REPETITION, FALSE_START, SELF_REPAIR}
           then Some (case sh_context_role h of Some role \<Rightarrow> role | None \<Rightarrow> UNCERTAIN)
           else None)) (sr_events r) \<and>
       map (\<lambda>p. (pr_indicator p, prosody_is_available p)) (asp_prosody s) =
         map (\<lambda>h. (ph_indicator h, ph_value h \<noteq> None)) (sr_prosody r)"
proof -
  obtain prov where prov: "speech_provenance a r = Inr prov" "prov_modality prov = AUDIO"
    using speech_provenance_total by blast
  have words: "(\<exists>t. assemble_token a w = Inr t) \<longleftrightarrow>
      wh_raw_text w \<noteq> [] \<and> valid_span (wh_start_ms w) (wh_end_ms w)" for w
    by (auto simp: assemble_token_Inr calibrate_Inr simp flip: interval_of_valid)
  have events: "(\<exists>e. assemble_event a prov h = Inr e) \<longleftrightarrow> valid_event_hypothesis h" for h
    using assemble_event_exists [OF prov(2)] assemble_event_Inr [OF prov(2)] by blast
  have prosody: "(\<exists>p. assemble_prosody a prov h = Inr p) \<longleftrightarrow> valid_span (ph_start_ms h) (ph_end_ms h)" for h
    using assemble_prosody_exists assemble_prosody_Inr by blast
  have ok: "(\<exists>s. assemble_speech a r = Inr s) \<longleftrightarrow>
      (\<exists>ts. mapR (assemble_token a) (sr_words r) = Inr ts) \<and>
      (\<exists>es. mapR (assemble_event a prov) (sr_events r) = Inr es) \<and>
      (\<exists>ps. mapR (assemble_prosody a prov) (sr_prosody r) = Inr ps)"
    by (auto simp: assemble_speech_def prov(1))
  then have valid: "(\<exists>s. assemble_speech a r = Inr s) \<longleftrightarrow> valid_speech_result r"
    unfolding mapR_exists_iff words events prosody by (simp add: valid_speech_result_def list_all_iff)
  show ?thesis
  proof (cases "assemble_speech a r")
    case (Inl e)
    then show ?thesis using valid by auto
  next
    case (Inr s)
    then have "list_all2 (\<lambda>w t. assemble_token a w = Inr t) (sr_words r) (asp_tokens s)"
      and "list_all2 (\<lambda>h e. assemble_event a prov h = Inr e) (sr_events r) (asp_events s)"
      and "list_all2 (\<lambda>h p. assemble_prosody a prov h = Inr p) (sr_prosody r) (asp_prosody s)"
      and stable: "asp_stable_through_ms s = sr_stable_through_ms r"
      by (auto simp: assemble_speech_def prov(1) mapR_eq_Inr)
    moreover have "map wt_raw_text ts = map wh_raw_text ws \<and>
        map (\<lambda>t. (start_ms (wt_interval t), end_ms (wt_interval t))) ts =
          map (\<lambda>w. (wh_start_ms w, wh_end_ms w)) ws"
      if "list_all2 (\<lambda>w t. assemble_token a w = Inr t) ws ts" for ws ts
      using that by (induction rule: list_all2_induct) (auto simp: assemble_token_Inr interval_of_Inr)
    moreover have "map (\<lambda>e. (se_type e, se_raw_text e, se_context_role e)) es =
        map (\<lambda>h. (sh_type h, sh_raw_text h,
           if sh_type h \<in> {LEXICAL_FILLER, REPETITION, FALSE_START, SELF_REPAIR}
           then Some (case sh_context_role h of Some role \<Rightarrow> role | None \<Rightarrow> UNCERTAIN)
           else None)) hs"
      if "list_all2 (\<lambda>h e. assemble_event a prov h = Inr e) hs es" for hs es
      using that by (induction rule: list_all2_induct)
        (auto simp: assemble_event_Inr [OF prov(2)] role_for_def LEXICAL_CLASSES_def split: option.splits)
    moreover have "map (\<lambda>p. (pr_indicator p, prosody_is_available p)) ps =
        map (\<lambda>h. (ph_indicator h, ph_value h \<noteq> None)) hs"
      if "list_all2 (\<lambda>h p. assemble_prosody a prov h = Inr p) hs ps" for hs ps
      using that by (induction rule: list_all2_induct)
        (auto dest!: assemble_prosody_Inr split: option.splits)
    ultimately show ?thesis using Inr valid by auto
  qed
qed

section \<open>Silent pauses are the interior gaps\<close>

definition starts_ordered :: "word_token list \<Rightarrow> word_token list" where
  "starts_ordered tokens = sort_key (\<lambda>t. start_ms (wt_interval t)) tokens"

interpretation starts: canonical_order "\<lambda>t. start_ms (wt_interval t)" starts_ordered
  unfolding starts_ordered_def by (rule canonical_order_sort_key)

definition long_gap :: "int \<Rightarrow> word_token \<times> word_token \<Rightarrow> bool" where
  "long_gap threshold p = (threshold \<le> start_ms (wt_interval (snd p)) - end_ms (wt_interval (fst p)))"

definition is_pause_between :: "provenance \<Rightarrow> word_token \<times> word_token \<Rightarrow> speech_event \<Rightarrow> bool" where
  "is_pause_between prov p e \<longleftrightarrow>
     se_type e = SILENT_PAUSE \<and> se_confidence e = MkConfidence 1 CALIBRATED \<and>
     se_provenance e = prov \<and> \<not> se_is_final e \<and> wf_speech_event e \<and>
     start_ms (se_interval e) = end_ms (wt_interval (fst p)) \<and>
     end_ms (se_interval e) = start_ms (wt_interval (snd p))"

lemma pauses_between_eq:
  assumes "prov_modality prov = AUDIO" and "0 \<le> threshold"
    and "\<forall>p \<in> set ps. wf_token (fst p)"
  shows "\<exists>es. pauses_between threshold prov run ps = Inr es \<and>
    list_all2 (is_pause_between prov) (filter (long_gap threshold) ps) es"
  using assms(3)
proof (induction ps)
  case (Cons p ps)
  obtain pre fol where p: "p = (pre, fol)" by (cases p)
  from Cons obtain es where es: "pauses_between threshold prov run ps = Inr es"
    "list_all2 (is_pause_between prov) (filter (long_gap threshold) ps) es" by auto
  show ?case
  proof (cases "long_gap threshold p")
    case False
    then have "start_ms (wt_interval fol) - end_ms (wt_interval pre) < threshold"
      by (simp add: p long_gap_def)
    with es False show ?thesis by (simp add: p Let_def)
  next
    case True
    then have long: "threshold \<le> start_ms (wt_interval fol) - end_ms (wt_interval pre)"
      by (simp add: p long_gap_def)
    have "0 \<le> end_ms (wt_interval pre)" "end_ms (wt_interval pre) \<le> start_ms (wt_interval fol)"
      using True Cons.prems assms(2) by (auto simp: p long_gap_def wf_token_def wf_interval_def)
    then obtain iv where iv: "interval_of (end_ms (wt_interval pre)) (start_ms (wt_interval fol)) = Inr iv"
      using interval_of_valid [of "end_ms (wt_interval pre)"] by (auto simp: valid_span_def)
    obtain i where i: "derive_event_id run (speech_type_value SILENT_PAUSE) (end_ms (wt_interval pre)) [] = Inr i"
      by (simp add: derive_event_id_total)
    let ?e = "\<lparr>se_id = i, se_type = SILENT_PAUSE, se_interval = iv,
      se_confidence = MkConfidence 1 CALIBRATED, se_provenance = prov, se_raw_text = [],
      se_context_role = None, se_is_final = False\<rparr>"
    have wf: "wf_speech_event ?e"
      using assms(1) by (simp add: wf_speech_event_def LEXICAL_CLASSES_def)
    then have "pauses_between threshold prov run (p # ps) = Inr (?e # es)"
      using long es i iv
      by (simp add: p Let_def SpeechEvent_def check_speech_event_cases
          confidence_calibrated_def Confidence_def)
    moreover have "is_pause_between prov p ?e"
      using wf interval_of_ends [OF iv] by (simp add: p is_pause_between_def)
    ultimately show ?thesis
      using True es(2) by simp
  qed
qed simp

lemma silent_pauses_eq:
  assumes "prov_modality prov = AUDIO" and "0 \<le> threshold" and "\<forall>t \<in> set tokens. wf_token t"
  shows "\<exists>es. silent_pauses tokens threshold prov run = Inr es \<and>
    list_all2 (is_pause_between prov)
      (filter (long_gap threshold) (pairwise (starts_ordered tokens))) es"
  unfolding silent_pauses_def starts_ordered_def [symmetric]
proof (rule pauses_between_eq [OF assms(1,2)], rule ballI)
  fix p assume "p \<in> set (pairwise (starts_ordered tokens))"
  then have "fst p \<in> set (starts_ordered tokens)"
    using pairwise_mem(1) [of "fst p" "snd p"] by simp
  then show "wf_token (fst p)"
    using assms(3) by (simp add: starts.set_ordered)
qed

text \<open>
  Silent pauses are exactly the interior gaps. With a non-negative threshold, deriving the
  pauses of well-formed tokens never raises, and yields one event for every two consecutive tokens,
  in order of their starts, whose gap reaches the threshold, spanning exactly from the end of the
  earlier to the start of the later, certain, provisional and not counted as a disfluency; nothing
  before the first or after the last word.
\<close>

theorem silent_pauses_interior_gaps:
  assumes "prov_modality prov = AUDIO" and "0 \<le> threshold" and "\<forall>t \<in> set tokens. wf_token t"
  shows "\<exists>es. silent_pauses tokens threshold prov run = Inr es \<and>
    map (\<lambda>e. (start_ms (se_interval e), end_ms (se_interval e))) es =
      map (\<lambda>(pre, fol). (end_ms (wt_interval pre), start_ms (wt_interval fol)))
        (filter (\<lambda>(pre, fol). threshold \<le> start_ms (wt_interval fol) - end_ms (wt_interval pre))
          (pairwise (sort_key (\<lambda>t. start_ms (wt_interval t)) tokens))) \<and>
    list_all (\<lambda>e. se_type e = SILENT_PAUSE \<and> se_confidence e = MkConfidence 1 CALIBRATED \<and>
      \<not> se_is_final e \<and> \<not> counts_as_disfluency e) es"
proof -
  obtain es where es: "silent_pauses tokens threshold prov run = Inr es"
    "list_all2 (is_pause_between prov)
      (filter (long_gap threshold) (pairwise (starts_ordered tokens))) es"
    using silent_pauses_eq [OF assms] by blast
  have spans: "map (\<lambda>e. (start_ms (se_interval e), end_ms (se_interval e))) es =
        map (\<lambda>(pre, fol). (end_ms (wt_interval pre), start_ms (wt_interval fol))) ps \<and>
      list_all (\<lambda>e. se_type e = SILENT_PAUSE \<and> se_confidence e = MkConfidence 1 CALIBRATED \<and>
        \<not> se_is_final e \<and> \<not> counts_as_disfluency e) es"
    if "list_all2 (is_pause_between prov) ps es" for ps es
    using that by (induction rule: list_all2_induct)
      (auto simp: is_pause_between_def counts_as_disfluency_def DISFLUENT_CLASSES_def)
  have "long_gap threshold =
      (\<lambda>(pre, fol). threshold \<le> start_ms (wt_interval fol) - end_ms (wt_interval pre))"
    by (auto simp: long_gap_def)
  then show ?thesis
    using es(1) spans [OF es(2)] by (simp add: starts_ordered_def)
qed

theorem silent_pauses_interior_gaps_witness:
  "\<exists>es. silent_pauses [sample_token ''b'' 1200 1500 FINAL, sample_token ''a'' 100 300 FINAL] 700
     \<lparr>prov_modality = AUDIO, prov_model_version = ModelVersionId ''m'',
      prov_taxonomy_version = MkVersion 1 0 0, prov_configuration = ConfigurationSnapshotId ''c'',
      prov_evidence_ref = EvidenceRef ''e''\<rparr> (RunId ''r'') = Inr es \<and>
     map (\<lambda>e. (start_ms (se_interval e), end_ms (se_interval e))) es = [(300, 1200)]"
proof -
  let ?prov = "\<lparr>prov_modality = AUDIO, prov_model_version = ModelVersionId ''m'',
    prov_taxonomy_version = MkVersion 1 0 0, prov_configuration = ConfigurationSnapshotId ''c'',
    prov_evidence_ref = EvidenceRef ''e''\<rparr>"
  have "\<forall>t \<in> set [sample_token ''b'' 1200 1500 FINAL, sample_token ''a'' 100 300 FINAL]. wf_token t"
    by (simp add: sample_token_wf)
  from silent_pauses_interior_gaps [OF _ _ this, of ?prov 700 "RunId ''r''"] show ?thesis
    by (auto simp: sample_token_def)
qed

text \<open>
  A pause does not run over speech when no word is nested in another. If the words, taken in
  the order of their starts, also end in that order, no derived pause overlaps any word and the
  pauses follow one another without overlapping.
\<close>

theorem silent_pauses_avoid_words:
  assumes "prov_modality prov = AUDIO" and "0 \<le> threshold" and "\<forall>t \<in> set tokens. wf_token t"
    and "sorted (map (\<lambda>t. end_ms (wt_interval t)) (sort_key (\<lambda>t. start_ms (wt_interval t)) tokens))"
  shows "\<exists>es. silent_pauses tokens threshold prov run = Inr es \<and>
    list_all (\<lambda>e. list_all (\<lambda>t. \<not> overlaps (se_interval e) (wt_interval t)) tokens) es"
proof -
  let ?ts = "starts_ordered tokens"
  obtain es where es: "silent_pauses tokens threshold prov run = Inr es"
    "list_all2 (is_pause_between prov) (filter (long_gap threshold) (pairwise ?ts)) es"
    using silent_pauses_eq [OF assms(1-3)] by blast
  have avoid: "\<not> overlaps (se_interval e) (wt_interval t)"
    if e: "e \<in> set es" and t: "t \<in> set tokens" for e t
  proof -
    obtain p where p: "p \<in> set (pairwise ?ts)" "is_pause_between prov p e"
      using list_all2_ex [OF es(2) e] by auto
    then obtain i where i: "Suc i < length ?ts" "p = (?ts ! i, ?ts ! Suc i)"
      by (auto simp: set_pairwise)
    obtain j where j: "j < length ?ts" "t = ?ts ! j"
      using t by (metis in_set_conv_nth starts.set_ordered)
    have starts: "start_ms (wt_interval (?ts ! k)) \<le> start_ms (wt_interval (?ts ! l))"
      if "k \<le> l" "l < length ?ts" for k l
      using starts.sorted_ordered [of tokens] that by (auto simp: sorted_iff_nth_mono)
    have ends: "end_ms (wt_interval (?ts ! k)) \<le> end_ms (wt_interval (?ts ! l))"
      if "k \<le> l" "l < length ?ts" for k l
      using assms(4) that by (auto simp: sorted_iff_nth_mono starts_ordered_def)
    show ?thesis
    proof (cases "j \<le> i")
      case True
      then show ?thesis
        using ends [of j i] i j p(2) by (simp add: overlaps_def is_pause_between_def)
    next
      case False
      then show ?thesis
        using starts [of "Suc i" j] i j p(2) by (simp add: overlaps_def is_pause_between_def)
    qed
  qed
  then show ?thesis
    using es(1) by (auto simp: list_all_iff)
qed

theorem silent_pauses_avoid_words_witness:
  "\<exists>es. silent_pauses [sample_token ''b'' 1200 1500 FINAL, sample_token ''a'' 100 300 FINAL] 700
     \<lparr>prov_modality = AUDIO, prov_model_version = ModelVersionId ''m'',
      prov_taxonomy_version = MkVersion 1 0 0, prov_configuration = ConfigurationSnapshotId ''c'',
      prov_evidence_ref = EvidenceRef ''e''\<rparr> (RunId ''r'') = Inr es \<and>
     list_all (\<lambda>e. list_all (\<lambda>t. \<not> overlaps (se_interval e) (wt_interval t))
       [sample_token ''b'' 1200 1500 FINAL, sample_token ''a'' 100 300 FINAL]) es"
  by (rule silent_pauses_avoid_words) (simp_all add: sample_token_wf, simp_all add: sample_token_def)

text \<open>
  A pause can run over speech when a word is nested in another. The tokens are compared by
  their starts only: with one word over [0, 1000), one inside it over [100, 200) and one from 1200,
  a pause is reported over [200, 1200), during which the first word is still being spoken.
\<close>

theorem silent_pause_over_nested_word:
  "\<exists>e. silent_pauses [sample_token ''a'' 0 1000 FINAL, sample_token ''b'' 100 200 FINAL,
       sample_token ''c'' 1200 1300 FINAL] 700
     \<lparr>prov_modality = AUDIO, prov_model_version = ModelVersionId ''m'',
      prov_taxonomy_version = MkVersion 1 0 0, prov_configuration = ConfigurationSnapshotId ''c'',
      prov_evidence_ref = EvidenceRef ''e''\<rparr> (RunId ''r'') = Inr [e] \<and>
     start_ms (se_interval e) = 200 \<and> end_ms (se_interval e) = 1200 \<and>
     overlaps (se_interval e) (wt_interval (sample_token ''a'' 0 1000 FINAL))"
proof -
  let ?ts = "[sample_token ''a'' 0 1000 FINAL, sample_token ''b'' 100 200 FINAL,
    sample_token ''c'' 1200 1300 FINAL]"
  let ?prov = "\<lparr>prov_modality = AUDIO, prov_model_version = ModelVersionId ''m'',
    prov_taxonomy_version = MkVersion 1 0 0, prov_configuration = ConfigurationSnapshotId ''c'',
    prov_evidence_ref = EvidenceRef ''e''\<rparr>"
  have "\<forall>t \<in> set ?ts. wf_token t"
    by (simp add: sample_token_wf)
  from silent_pauses_eq [OF _ _ this, of ?prov 700 "RunId ''r''"] obtain es where
    es: "silent_pauses ?ts 700 ?prov (RunId ''r'') = Inr es"
      "list_all2 (is_pause_between ?prov) (filter (long_gap 700) (pairwise (starts_ordered ?ts))) es"
    by auto
  have "filter (long_gap 700) (pairwise (starts_ordered ?ts)) =
      [(sample_token ''b'' 100 200 FINAL, sample_token ''c'' 1200 1300 FINAL)]"
    by (simp add: starts_ordered_def sample_token_def long_gap_def)
  with es show ?thesis
    by (auto simp: list_all2_Cons1 is_pause_between_def sample_token_def overlaps_def)
qed

end
