(* ===== verification/VisualAssembly.thy ===== *)
theory VisualAssembly
  imports SpeechAssembly Quality
begin

text \<open>
  Turning what a vision runtime returned into visual evidence and quality records
  (\<open>application/services/visual_assembly.py\<close>), and temporal fusion
  (\<open>application/services/fusion.py\<close>).
\<close>

section \<open>The assembler\<close>

definition GATED_CLASSES :: "visual_event_type list" where
  "GATED_CLASSES = [SELF_TOUCH, REPETITIVE_HAND_MOVEMENT]"

definition DEFAULT_MIN_FACE_VISIBILITY :: rat where "DEFAULT_MIN_FACE_VISIBILITY = 1/2"
definition DEFAULT_MIN_LUMINANCE :: rat where "DEFAULT_MIN_LUMINANCE = 3/20"
definition DEFAULT_MIN_FRAMING_COVERAGE :: rat where "DEFAULT_MIN_FRAMING_COVERAGE = 3/5"

record assembled_visual =
  avi_events :: "visual_event list"
  avi_assessments :: "quality_assessment list"
  avi_availability :: "modality_availability list"
  avi_gated_out :: int

definition visual_provenance :: "assembler \<Rightarrow> visual_result \<Rightarrow> provenance result" where
  "visual_provenance a r = make_provenance a VIDEO (vr_model_version r) ''video:''"

definition gate_threshold :: "assembler \<Rightarrow> visual_event_type \<Rightarrow> rat" where
  "gate_threshold a t =
     (case map_of (cs_visual_thresholds (asm_configuration a)) (visual_type_value t) of
        Some threshold \<Rightarrow> threshold
      | None \<Rightarrow> OPTIONAL_CLASS_MIN_CONFIDENCE)"

text \<open>The event, or \<open>None\<close> when the gate rejects the hypothesis.\<close>

definition assemble_visual_event ::
  "assembler \<Rightarrow> provenance \<Rightarrow> visual_event_hypothesis \<Rightarrow> visual_event option result" where
  "assemble_visual_event a prov h =
     bindR (calibrate (asm_calibrator a) (visual_type_value (vh_type h)) (vh_score h)) (\<lambda>conf.
       if vh_type h \<in> set GATED_CLASSES \<and> \<not> meets conf (gate_threshold a (vh_type h)) then Inr None
       else
         bindR (derive_event_id (asm_run_id a) (visual_type_value (vh_type h)) (vh_start_ms h) []) (\<lambda>i.
         bindR (interval_of (vh_start_ms h) (vh_end_ms h)) (\<lambda>iv.
         bindR (VisualEvent i (vh_type h) iv conf prov (vh_direction h) (vh_magnitude h) False) (\<lambda>e.
         Inr (Some e)))))"

fun assemble_visual_events ::
  "assembler \<Rightarrow> provenance \<Rightarrow> visual_event_hypothesis list \<Rightarrow> (visual_event list \<times> int) result" where
  "assemble_visual_events a prov [] = Inr ([], 0)"
| "assemble_visual_events a prov (h # hs) =
     bindR (assemble_visual_event a prov h) (\<lambda>built.
     bindR (assemble_visual_events a prov hs) (\<lambda>(events, gated_out).
       case built of
         None \<Rightarrow> Inr (events, gated_out + 1)
       | Some e \<Rightarrow> Inr (e # events, gated_out)))"

definition signal_assessments :: "visual_quality_signal \<Rightarrow> quality_assessment list result" where
  "signal_assessments s =
     bindR (interval_of (vq_start_ms s) (vq_end_ms s)) (\<lambda>window.
     bindR (confidence_calibrated 1) (\<lambda>certain.
     let assess = (\<lambda>metric v. \<lparr>qa_modality = VIDEO, qa_metric = metric, qa_window = window,
           qa_value = Measured v certain ''ratio''\<rparr>)
     in Inr [assess FACE_VISIBILITY_RATIO (vq_face_visibility s),
             assess MEAN_LUMINANCE (vq_mean_luminance s),
             assess FRAMING_COVERAGE (vq_framing_coverage s),
             assess LANDMARK_CONFIDENCE (vq_landmark_confidence s)]))"

text \<open>The format \<open>:.0%\<close>: the percentage rounded to the nearest integer, ties to even.\<close>

definition round_half_even :: "rat \<Rightarrow> int" where
  "round_half_even q =
     (let f = \<lfloor>q\<rfloor>; d = q - of_int f
      in if d < 1/2 then f else if d > 1/2 then f + 1 else if even f then f else f + 1)"

definition percent0 :: "rat \<Rightarrow> string" where
  "percent0 q = show_int (round_half_even (100 * q)) @ ''%''"

definition signal_availability :: "visual_quality_signal \<Rightarrow> modality_availability result" where
  "signal_availability s =
     bindR (interval_of (vq_start_ms s) (vq_end_ms s)) (\<lambda>window.
       if vq_face_visibility s < DEFAULT_MIN_FACE_VISIBILITY then
         availability_unusable VIDEO window SUBJECT_NOT_OBSERVABLE
           (''face visible in '' @ percent0 (vq_face_visibility s) @ '' of the window'')
       else if vq_mean_luminance s < DEFAULT_MIN_LUMINANCE then
         availability_unusable VIDEO window QUALITY_BELOW_THRESHOLD
           ''the face region is too dark for reliable geometry''
       else if vq_framing_coverage s < DEFAULT_MIN_FRAMING_COVERAGE then
         availability_unusable VIDEO window QUALITY_BELOW_THRESHOLD
           ''the framing does not contain the region these indicators need''
       else availability_usable VIDEO window)"

fun assemble_signals ::
  "visual_quality_signal list \<Rightarrow> (quality_assessment list \<times> modality_availability list) result" where
  "assemble_signals [] = Inr ([], [])"
| "assemble_signals (s # ss) =
     bindR (signal_assessments s) (\<lambda>assessments.
     bindR (signal_availability s) (\<lambda>availability.
     bindR (assemble_signals ss) (\<lambda>(as, avs). Inr (assessments @ as, availability # avs))))"

definition assemble_visual :: "assembler \<Rightarrow> visual_result \<Rightarrow> assembled_visual result" where
  "assemble_visual a r =
     bindR (visual_provenance a r) (\<lambda>prov.
     bindR (assemble_visual_events a prov (vr_events r)) (\<lambda>(events, gated_out).
     bindR (assemble_signals (vr_quality r)) (\<lambda>(assessments, availability).
     Inr \<lparr>avi_events = events, avi_assessments = assessments, avi_availability = availability,
          avi_gated_out = gated_out\<rparr>)))"

definition modality_not_captured :: "interval list \<Rightarrow> modality \<Rightarrow> modality_availability list result" where
  "modality_not_captured windows m =
     mapR (\<lambda>window. availability_unusable m window MODALITY_NOT_CAPTURED []) windows"

section \<open>Fusion\<close>

definition project_speech :: "speech_event list \<Rightarrow> bool \<Rightarrow> timed_event list" where
  "project_speech events finalized_only =
     map (\<lambda>e. \<lparr>te_id = se_id e, te_interval = se_interval e\<rparr>)
       (filter (\<lambda>e. se_is_final e \<or> \<not> finalized_only) events)"

definition project_visual :: "visual_event list \<Rightarrow> bool \<Rightarrow> timed_event list" where
  "project_visual events finalized_only =
     map (\<lambda>e. \<lparr>te_id = ve_id e, te_interval = ve_interval e\<rparr>)
       (filter (\<lambda>e. ve_is_final e \<or> \<not> finalized_only) events)"

definition fuse ::
  "speech_event list \<Rightarrow> visual_event list \<Rightarrow> fusion_window \<Rightarrow> bool \<Rightarrow>
   multimodal_cooccurrence list result" where
  "fuse speech_events visual_events window finalized_only =
     (let speech = project_speech speech_events finalized_only;
          visual = project_visual visual_events finalized_only
      in if speech = [] \<or> visual = [] then Inr [] else correlate speech visual window)"

section \<open>What assembly yields\<close>

definition passes_gate :: "assembler \<Rightarrow> visual_event_hypothesis \<Rightarrow> bool" where
  "passes_gate a h \<longleftrightarrow> vh_type h \<notin> {SELF_TOUCH, REPETITIVE_HAND_MOVEMENT} \<or>
     (case calibrate (asm_calibrator a) (visual_type_value (vh_type h)) (vh_score h) of
        Inl _ \<Rightarrow> False | Inr conf \<Rightarrow> meets conf (gate_threshold a (vh_type h)))"

definition valid_visual_hypothesis :: "visual_event_hypothesis \<Rightarrow> bool" where
  "valid_visual_hypothesis h \<longleftrightarrow> valid_span (vh_start_ms h) (vh_end_ms h) \<and>
     (vh_direction h \<noteq> None \<longleftrightarrow> vh_type h \<in> {GAZE_TOWARD_CAMERA, GAZE_AWAY_FROM_CAMERA})"

definition strict_gate :: "assembler \<Rightarrow> bool" where
  "strict_gate a \<longleftrightarrow> OPTIONAL_CLASS_MIN_CONFIDENCE \<le> gate_threshold a SELF_TOUCH \<and>
     OPTIONAL_CLASS_MIN_CONFIDENCE \<le> gate_threshold a REPETITIVE_HAND_MOVEMENT"

definition is_event_of :: "assembler \<Rightarrow> visual_event_hypothesis \<Rightarrow> visual_event \<Rightarrow> bool" where
  "is_event_of a h e \<longleftrightarrow> ve_type e = vh_type h \<and> ve_direction e = vh_direction h \<and>
     start_ms (ve_interval e) = vh_start_ms h \<and> end_ms (ve_interval e) = vh_end_ms h \<and>
     ve_magnitude e = vh_magnitude h \<and> \<not> ve_is_final e \<and>
     calibrate (asm_calibrator a) (visual_type_value (vh_type h)) (vh_score h) = Inr (ve_confidence e) \<and>
     wf_visual_event e"

lemma assemble_visual_event_rejected:
  assumes "\<not> passes_gate a h"
  shows "assemble_visual_event a prov h = Inr None"
proof -
  obtain conf where "calibrate (asm_calibrator a) (visual_type_value (vh_type h)) (vh_score h) = Inr conf"
    using calibrate_wf by blast
  with assms show ?thesis
    by (simp add: passes_gate_def assemble_visual_event_def GATED_CLASSES_def)
qed

lemma assemble_visual_event_built:
  assumes "passes_gate a h" and "valid_visual_hypothesis h" and "strict_gate a"
    and "prov_modality prov = VIDEO"
  shows "\<exists>e. assemble_visual_event a prov h = Inr (Some e) \<and> is_event_of a h e"
proof -
  obtain conf where conf: "calibrate (asm_calibrator a) (visual_type_value (vh_type h)) (vh_score h) = Inr conf"
    using calibrate_wf by blast
  obtain i where i: "derive_event_id (asm_run_id a) (visual_type_value (vh_type h)) (vh_start_ms h) [] = Inr i"
    by (simp add: derive_event_id_total)
  obtain iv where iv: "interval_of (vh_start_ms h) (vh_end_ms h) = Inr iv"
    using assms(2) interval_of_valid unfolding valid_visual_hypothesis_def by blast
  have open_gate: "\<not> (vh_type h \<in> set GATED_CLASSES \<and> \<not> meets conf (gate_threshold a (vh_type h)))"
    using assms(1) conf by (auto simp: passes_gate_def GATED_CLASSES_def)
  have "vh_type h \<in> set OPTIONAL_CLASSES \<Longrightarrow> meets conf OPTIONAL_CLASS_MIN_CONFIDENCE"
    using assms(1,3) conf meets_antimono
    by (auto simp: passes_gate_def OPTIONAL_CLASSES_def strict_gate_def)
  then have "wf_visual_event \<lparr>ve_id = i, ve_type = vh_type h, ve_interval = iv, ve_confidence = conf,
      ve_provenance = prov, ve_direction = vh_direction h, ve_magnitude = vh_magnitude h,
      ve_is_final = False\<rparr>"
    using assms(2,4) by (auto simp: wf_visual_event_def GAZE_CLASSES_def valid_visual_hypothesis_def)
  then show ?thesis
    using conf i iv open_gate interval_of_ends [OF iv]
    by (simp add: assemble_visual_event_def VisualEvent_def check_visual_event_cases is_event_of_def)
qed

lemma assemble_visual_events_eq:
  assumes "list_all valid_visual_hypothesis hs" and "strict_gate a" and "prov_modality prov = VIDEO"
  shows "\<exists>es. assemble_visual_events a prov hs = Inr (es, int (length (filter (\<lambda>h. \<not> passes_gate a h) hs))) \<and>
    list_all2 (is_event_of a) (filter (passes_gate a) hs) es"
  using assms(1)
proof (induction hs)
  case (Cons h hs)
  then obtain es where es: "assemble_visual_events a prov hs =
      Inr (es, int (length (filter (\<lambda>h. \<not> passes_gate a h) hs)))"
    "list_all2 (is_event_of a) (filter (passes_gate a) hs) es" by auto
  show ?case
  proof (cases "passes_gate a h")
    case True
    then obtain e where "assemble_visual_event a prov h = Inr (Some e)" "is_event_of a h e"
      using assemble_visual_event_built [OF _ _ assms(2,3)] Cons.prems by auto
    with True es show ?thesis by simp
  next
    case False
    then show ?thesis using es assemble_visual_event_rejected [OF False] by simp
  qed
qed simp

definition serves :: "visual_quality_signal \<Rightarrow> bool" where
  "serves s \<longleftrightarrow> 1/2 \<le> vq_face_visibility s \<and> 3/20 \<le> vq_mean_luminance s \<and> 3/5 \<le> vq_framing_coverage s"

lemma signal_availability_eq:
  assumes "valid_span (vq_start_ms s) (vq_end_ms s)"
  shows "\<exists>av. signal_availability s = Inr av \<and> wf_availability av \<and> ma_modality av = VIDEO \<and>
    (ma_is_usable av \<longleftrightarrow> serves s) \<and>
    (ma_reason av = Some SUBJECT_NOT_OBSERVABLE \<longleftrightarrow> vq_face_visibility s < 1/2)"
proof -
  obtain iv where "interval_of (vq_start_ms s) (vq_end_ms s) = Inr iv"
    using assms interval_of_valid by blast
  then show ?thesis
    by (auto simp: signal_availability_def serves_def DEFAULT_MIN_FACE_VISIBILITY_def
        DEFAULT_MIN_LUMINANCE_def DEFAULT_MIN_FRAMING_COVERAGE_def availability_unusable_def
        availability_usable_def ModalityAvailability_def wf_availability_def)
qed

lemma signal_assessments_eq:
  assumes "valid_span (vq_start_ms s) (vq_end_ms s)"
  shows "\<exists>as. signal_assessments s = Inr as \<and> length as = 4 \<and> list_all assessment_is_available as"
proof -
  obtain iv where "interval_of (vq_start_ms s) (vq_end_ms s) = Inr iv"
    using assms interval_of_valid by blast
  then show ?thesis
    by (simp add: signal_assessments_def confidence_calibrated_def Confidence_def Let_def
        assessment_is_available_def)
qed

lemma assemble_signals_eq:
  assumes "list_all (\<lambda>s. valid_span (vq_start_ms s) (vq_end_ms s)) ss"
  shows "\<exists>as avs. assemble_signals ss = Inr (as, avs) \<and> length as = 4 * length ss \<and>
    list_all assessment_is_available as \<and> map ma_is_usable avs = map serves ss \<and>
    list_all wf_availability avs"
  using assms
proof (induction ss)
  case (Cons s ss)
  then obtain as avs where "assemble_signals ss = Inr (as, avs)" "length as = 4 * length ss"
    "list_all assessment_is_available as" "map ma_is_usable avs = map serves ss"
    "list_all wf_availability avs" by auto
  moreover obtain av where "signal_availability s = Inr av" "wf_availability av"
    "ma_is_usable av = serves s"
    using signal_availability_eq [of s] Cons.prems by auto
  moreover obtain as' where "signal_assessments s = Inr as'" "length as' = 4"
    "list_all assessment_is_available as'"
    using signal_assessments_eq [of s] Cons.prems by auto
  ultimately show ?case by simp
qed simp

text \<open>
  Visual assembly accounts for every hypothesis. With well-formed hypotheses and no configured
  threshold below 0.75 for the two gated classes, assembling never raises: the hypotheses that pass
  the gate come out as provisional events, in order, with their class, direction, span, magnitude
  and calibrated score; the rest are exactly the ones counted in \<open>gated_out\<close>. Every signal yields
  four measured metrics and one availability record, usable exactly when face visibility, luminance
  and framing reach their minimum.
\<close>

theorem visual_assembly_accounts:
  assumes "list_all valid_visual_hypothesis (vr_events r)" and "strict_gate a"
    and "list_all (\<lambda>s. valid_span (vq_start_ms s) (vq_end_ms s)) (vr_quality r)"
  shows "\<exists>v. assemble_visual a r = Inr v \<and>
    list_all2 (is_event_of a) (filter (passes_gate a) (vr_events r)) (avi_events v) \<and>
    int (length (avi_events v)) + avi_gated_out v = int (length (vr_events r)) \<and>
    length (avi_assessments v) = 4 * length (vr_quality r) \<and>
    list_all assessment_is_available (avi_assessments v) \<and>
    map ma_is_usable (avi_availability v) = map serves (vr_quality r) \<and>
    list_all wf_availability (avi_availability v)"
proof -
  obtain prov where prov: "visual_provenance a r = Inr prov" "prov_modality prov = VIDEO"
    using make_provenance_total [of "''video:''" a VIDEO "vr_model_version r"]
    by (auto simp: visual_provenance_def py_isspace_def)
  obtain es where es: "assemble_visual_events a prov (vr_events r) =
      Inr (es, int (length (filter (\<lambda>h. \<not> passes_gate a h) (vr_events r))))"
    "list_all2 (is_event_of a) (filter (passes_gate a) (vr_events r)) es"
    using assemble_visual_events_eq [OF assms(1,2) prov(2)] by blast
  obtain as avs where "assemble_signals (vr_quality r) = Inr (as, avs)"
    "length as = 4 * length (vr_quality r)" "list_all assessment_is_available as"
    "map ma_is_usable avs = map serves (vr_quality r)" "list_all wf_availability avs"
    using assemble_signals_eq [OF assms(3)] by blast
  then show ?thesis
    using prov es list_all2_lengthD [OF es(2)] sum_length_filter_compl [of "passes_gate a" "vr_events r"]
    by (simp add: assemble_visual_def)
qed

definition sample_configuration :: "(string \<times> rat) list \<Rightarrow> configuration_snapshot" where
  "sample_configuration thresholds =
     \<lparr>cs_id = ConfigurationSnapshotId ''c'', cs_taxonomy_version = MkVersion 1 0 0,
      cs_pipeline_version = MkVersion 1 0 0, cs_schema_version = MkVersion 1 0 0,
      cs_fusion_window = sample_window 500, cs_speech_thresholds = [],
      cs_visual_thresholds = thresholds, cs_silence_threshold_ms = 700, cs_calibration = None\<rparr>"

definition sample_assembler :: "(string \<times> rat) list \<Rightarrow> assembler" where
  "sample_assembler thresholds =
     \<lparr>asm_run_id = RunId ''r'', asm_configuration = sample_configuration thresholds,
      asm_calibrator = MkCalibrator [(''self_touch'', MkCurve [(0, 0), (1, 1)])]\<rparr>"

definition sample_touch :: "rat \<Rightarrow> visual_event_hypothesis" where
  "sample_touch score = \<lparr>vh_type = SELF_TOUCH, vh_start_ms = 0, vh_end_ms = 400, vh_score = score,
     vh_direction = None, vh_magnitude = None\<rparr>"

lemmas sample_assembler_defs = sample_assembler_def sample_configuration_def sample_touch_def

theorem visual_assembly_accounts_witness:
  "\<exists>v. assemble_visual (sample_assembler [])
     \<lparr>vr_model_version = ModelVersionId ''m'', vr_events = [sample_touch (1/2), sample_touch (9/10)],
      vr_quality = []\<rparr> = Inr v \<and> int (length (avi_events v)) + avi_gated_out v = 2"
  using visual_assembly_accounts [of "\<lparr>vr_model_version = ModelVersionId ''m'',
      vr_events = [sample_touch (1/2), sample_touch (9/10)], vr_quality = []\<rparr>" "sample_assembler []"]
  by (auto simp: sample_assembler_defs valid_visual_hypothesis_def valid_span_def strict_gate_def
      gate_threshold_def OPTIONAL_CLASS_MIN_CONFIDENCE_def)

text \<open>
  A configured threshold below 0.75 turns the gate into a failure. With the threshold of
  \<open>self_touch\<close> configured at 0.5, a hypothesis calibrated at 0.6 passes the gate and is then refused
  by the constructor of the event, so the whole batch raises \<open>VisualEventViolation\<close>, together with a
  well-formed hypothesis that comes with it.
\<close>

theorem low_threshold_fails_batch:
  "assemble_visual (sample_assembler [(''self_touch'', 1/2)])
     \<lparr>vr_model_version = ModelVersionId ''m'', vr_events = [sample_touch (9/10), sample_touch (3/5)],
      vr_quality = []\<rparr> = Inl (DomainError VisualEventViolation)"
proof -
  let ?a = "sample_assembler [(''self_touch'', 1/2)]"
  obtain prov where prov: "visual_provenance ?a
      \<lparr>vr_model_version = ModelVersionId ''m'', vr_events = [sample_touch (9/10), sample_touch (3/5)],
       vr_quality = []\<rparr> = Inr prov"
    using make_provenance_total [of "''video:''" ?a VIDEO "ModelVersionId ''m''"]
    by (auto simp: visual_provenance_def py_isspace_def)
  have conf: "calibrate (asm_calibrator ?a) ''self_touch'' q = Inr (MkConfidence q CALIBRATED)"
    if "0 \<le> q" "q \<le> 1" for q
    using that
    by (simp add: sample_assembler_def calibrate_def curve_apply_def confidence_calibrated_def
        clamp_unit_def Let_def)
  have "assemble_visual_event ?a prov (sample_touch (3/5)) = Inl (DomainError VisualEventViolation)"
    by (simp add: assemble_visual_event_def sample_touch_def conf GATED_CLASSES_def gate_threshold_def
        derive_event_id_total VisualEvent_def check_visual_event_cases wf_visual_event_def
        OPTIONAL_CLASSES_def OPTIONAL_CLASS_MIN_CONFIDENCE_def meets_def is_calibrated_def
        interval_of_def interval_of_tol_def Interval_def MonotonicTime_def DEFAULT_TOLERANCE_MS_def)
      (simp add: sample_assembler_def sample_configuration_def)
  moreover have "assemble_visual_event ?a prov (sample_touch (9/10)) \<in>
      {Inl (DomainError VisualEventViolation), Inr None} \<union> range (\<lambda>e. Inr (Some e))"
    by (simp add: assemble_visual_event_def sample_touch_def conf
        derive_event_id_total VisualEvent_def check_visual_event_cases
        interval_of_def interval_of_tol_def Interval_def MonotonicTime_def DEFAULT_TOLERANCE_MS_def)
  ultimately show ?thesis
    using prov by (auto simp: assemble_visual_def)
qed

section \<open>What fusion yields\<close>

lemma image_of_projections:
  assumes "S = f ` A" and "V = g ` B" and "\<And>a. a \<in> A \<longleftrightarrow> a \<in> A' \<and> P a" and "\<And>b. b \<in> B \<longleftrightarrow> b \<in> B' \<and> Q b"
    and "\<And>a. i (f a) = i' a" and "\<And>b. j (g b) = j' b"
  shows "(\<lambda>(s, v). (i s, j v)) ` {p \<in> S \<times> V. near w p} =
    {(i' a, j' b) | a b. a \<in> A' \<and> b \<in> B' \<and> P a \<and> Q b \<and> near w (f a, g b)}"
proof -
  have "{p \<in> S \<times> V. near w p} = (\<lambda>(a, b). (f a, g b)) ` {(a, b). a \<in> A \<and> b \<in> B \<and> near w (f a, g b)}"
    unfolding assms(1,2) by auto
  then have "(\<lambda>(s, v). (i s, j v)) ` {p \<in> S \<times> V. near w p} =
      (\<lambda>(a, b). (i' a, j' b)) ` {(a, b). a \<in> A \<and> b \<in> B \<and> near w (f a, g b)}"
    by (simp add: image_image case_prod_unfold assms(5,6))
  then show ?thesis
    by (auto simp: assms(3,4))
qed

text \<open>
  Fusion publishes finalized history only, and all of it. With valid intervals and window,
  fusing never raises, and a pair of identifiers is published exactly when both events are final
  and their intervals come within the window; a modality with nothing final contributes no pair
  and no error.
\<close>

theorem fuse_finalized_pairs:
  assumes "\<forall>e \<in> set speech. wf_interval (se_interval e)"
    and "\<forall>e \<in> set visual. wf_interval (ve_interval e)" and "0 \<le> fw_width_ms w"
  shows "\<exists>pairs. fuse speech visual w True = Inr pairs \<and>
    (\<lambda>c. (mc_speech_event_id c, mc_visual_event_id c)) ` set pairs =
      {(se_id s, ve_id v) | s v. s \<in> set speech \<and> v \<in> set visual \<and> se_is_final s \<and> ve_is_final v \<and>
        start_ms (ve_interval v) \<le> end_ms (se_interval s) + fw_width_ms w \<and>
        start_ms (se_interval s) \<le> end_ms (ve_interval v) + fw_width_ms w}"
proof -
  let ?ss = "project_speech speech True" and ?vs = "project_visual visual True"
  have wf: "wf_events ?ss" "wf_events ?vs"
    using assms(1,2) by (auto simp: project_speech_def project_visual_def)
  have "fuse speech visual w True = Inr (map (cooccurrence_of w)
      (filter (near w) (List.product (timed_ordered ?ss) (timed_ordered ?vs))))"
    using correlate_eq [OF wf, of w]
    by (cases "?ss = [] \<or> ?vs = []") (auto simp: fuse_def Let_def filter_empty_conv timed.set_ordered)
  moreover have "(\<lambda>c. (mc_speech_event_id c, mc_visual_event_id c)) ` set (map (cooccurrence_of w)
      (filter (near w) (List.product (timed_ordered ?ss) (timed_ordered ?vs)))) =
      (\<lambda>(s, v). (te_id s, te_id v)) ` {p \<in> set ?ss \<times> set ?vs. near w p}"
    by (simp add: timed.set_ordered image_image cooccurrence_of_def case_prod_unfold)
  moreover have "\<dots> = {(se_id s, ve_id v) | s v. s \<in> set speech \<and> v \<in> set visual \<and> se_is_final s \<and>
      ve_is_final v \<and> near w (\<lparr>te_id = se_id s, te_interval = se_interval s\<rparr>,
        \<lparr>te_id = ve_id v, te_interval = ve_interval v\<rparr>)}"
    by (rule image_of_projections [where A = "{e \<in> set speech. se_is_final e}"
          and B = "{e \<in> set visual. ve_is_final e}"])
      (simp_all add: project_speech_def project_visual_def)
  moreover have "\<dots> = {(se_id s, ve_id v) | s v. s \<in> set speech \<and> v \<in> set visual \<and>
      se_is_final s \<and> ve_is_final v \<and>
      start_ms (ve_interval v) \<le> end_ms (se_interval s) + fw_width_ms w \<and>
      start_ms (se_interval s) \<le> end_ms (ve_interval v) + fw_width_ms w}"
    using near_iff [OF _ _ assms(3)] assms(1,2) by (intro Collect_cong ex_cong1) auto
  ultimately show ?thesis by auto
qed

theorem fuse_finalized_pairs_witness:
  "fuse [] [] (sample_window 500) True = Inr []"
  using fuse_finalized_pairs [of "[]" "[]" "sample_window 500"]
  by (auto simp: sample_window_def)

end
