(* ===== verification/Actions.thy ===== *)
theory Actions
  imports Prelude
begin

text \<open>
  Operations on mutable state that may raise: a function from the state to the new state and a
  result. What was written before an exception stays written, as in the code.
\<close>

type_synonym ('s, 'a) action = "'s \<Rightarrow> 's \<times> 'a result"

definition returnA :: "'a \<Rightarrow> ('s, 'a) action" where
  "returnA x s = (s, Inr x)"

definition raiseA :: "exn \<Rightarrow> ('s, 'a) action" where
  "raiseA e s = (s, Inl e)"

definition bindA :: "('s, 'a) action \<Rightarrow> ('a \<Rightarrow> ('s, 'b) action) \<Rightarrow> ('s, 'b) action" where
  "bindA m f s = (case m s of (s', Inl e) \<Rightarrow> (s', Inl e) | (s', Inr x) \<Rightarrow> f x s')"

text \<open>\<open>seqA\<close> runs one action after another, \<open>getA\<close> reads the state, \<open>modifyA\<close> writes it, \<open>liftA\<close>
  runs a pure computation that may raise.\<close>

definition seqA :: "('s, 'a) action \<Rightarrow> ('s, 'b) action \<Rightarrow> ('s, 'b) action" where
  "seqA m n = bindA m (\<lambda>_. n)"

definition getA :: "('s \<Rightarrow> 'a) \<Rightarrow> ('s, 'a) action" where
  "getA f s = (s, Inr (f s))"

definition modifyA :: "('s \<Rightarrow> 's) \<Rightarrow> ('s, unit) action" where
  "modifyA f s = (f s, Inr ())"

definition liftA :: "'a result \<Rightarrow> ('s, 'a) action" where
  "liftA r s = (s, r)"

text \<open>An operation of a component whose state is a part of the whole.\<close>

definition zoomA :: "('s \<Rightarrow> 't) \<Rightarrow> (('t \<Rightarrow> 't) \<Rightarrow> 's \<Rightarrow> 's) \<Rightarrow> ('t \<Rightarrow> ('a \<times> 't) result) \<Rightarrow> ('s, 'a) action" where
  "zoomA get upd oper s = (case oper (get s) of Inl e \<Rightarrow> (s, Inl e) | Inr (x, t) \<Rightarrow> (upd (\<lambda>_. t) s, Inr x))"

text \<open>\<open>try: m finally: n\<close>: \<open>n\<close> runs whether \<open>m\<close> returned or raised; an exception of \<open>n\<close> wins.\<close>

definition finallyA :: "('s, 'a) action \<Rightarrow> ('s, unit) action \<Rightarrow> ('s, 'a) action" where
  "finallyA m n s = (case m s of (s', r) \<Rightarrow>
     (case n s' of (s'', Inl e) \<Rightarrow> (s'', Inl e) | (s'', Inr _) \<Rightarrow> (s'', r)))"

text \<open>\<open>for x in xs: f(x)\<close>, and the comprehension that collects the results.\<close>

fun forA :: "('a \<Rightarrow> ('s, 'b) action) \<Rightarrow> 'a list \<Rightarrow> ('s, 'b list) action" where
  "forA f [] = returnA []"
| "forA f (x # xs) = bindA (f x) (\<lambda>y. bindA (forA f xs) (\<lambda>ys. returnA (y # ys)))"

lemma returnA_run [simp]: "returnA x s = (s, Inr x)"
  by (simp add: returnA_def)

lemma raiseA_run [simp]: "raiseA e s = (s, Inl e)"
  by (simp add: raiseA_def)

lemma getA_run [simp]: "getA f s = (s, Inr (f s))"
  by (simp add: getA_def)

lemma modifyA_run [simp]: "modifyA f s = (f s, Inr ())"
  by (simp add: modifyA_def)

lemma liftA_run [simp]: "liftA r s = (s, r)"
  by (simp add: liftA_def)

lemma seqA_run [simp]: "seqA m n s = bindA m (\<lambda>_. n) s"
  by (simp add: seqA_def)

lemma bindA_run:
  "bindA m f s = (case snd (m s) of Inl e \<Rightarrow> (fst (m s), Inl e) | Inr x \<Rightarrow> f x (fst (m s)))"
  by (simp add: bindA_def split: prod.splits sum.splits)

lemma bindA_Inr: "m s = (s', Inr x) \<Longrightarrow> bindA m f s = f x s'"
  by (simp add: bindA_def)

lemma bindA_Inl: "m s = (s', Inl e) \<Longrightarrow> bindA m f s = (s', Inl e)"
  by (simp add: bindA_def)

section \<open>Reasoning about actions\<close>

text \<open>\<open>preserves P m\<close>: running \<open>m\<close> keeps \<open>P\<close>, whether it returns or raises.\<close>

definition preserves :: "('s \<Rightarrow> bool) \<Rightarrow> ('s, 'a) action \<Rightarrow> bool" where
  "preserves P m \<longleftrightarrow> (\<forall>s. P s \<longrightarrow> P (fst (m s)))"

lemma preservesI: "(\<And>s. P s \<Longrightarrow> P (fst (m s))) \<Longrightarrow> preserves P m"
  by (simp add: preserves_def)

lemma preservesD: "preserves P m \<Longrightarrow> P s \<Longrightarrow> P (fst (m s))"
  by (simp add: preserves_def)

named_theorems preserves_rules

lemma preserves_return [preserves_rules]: "preserves P (returnA x)"
  by (simp add: preserves_def)

lemma preserves_raise [preserves_rules]: "preserves P (raiseA e)"
  by (simp add: preserves_def)

lemma preserves_get [preserves_rules]: "preserves P (getA f)"
  by (simp add: preserves_def)

lemma preserves_lift [preserves_rules]: "preserves P (liftA r)"
  by (simp add: preserves_def)

lemma preserves_bind [preserves_rules]:
  "preserves P m \<Longrightarrow> (\<And>x. preserves P (f x)) \<Longrightarrow> preserves P (bindA m f)"
  by (auto simp: preserves_def bindA_run split: sum.splits)

lemma preserves_seq [preserves_rules]:
  "preserves P m \<Longrightarrow> preserves P n \<Longrightarrow> preserves P (seqA m n)"
  by (auto simp: preserves_def bindA_run split: sum.splits)

lemma preserves_finally [preserves_rules]:
  "preserves P m \<Longrightarrow> preserves P n \<Longrightarrow> preserves P (finallyA m n)"
  by (auto simp: preserves_def finallyA_def split: prod.splits sum.splits)

lemma preserves_for [preserves_rules]: "(\<And>x. preserves P (f x)) \<Longrightarrow> preserves P (forA f xs)"
  by (induction xs) (auto intro!: preserves_rules)

lemma preserves_if [preserves_rules]:
  "(b \<Longrightarrow> preserves P m) \<Longrightarrow> (\<not> b \<Longrightarrow> preserves P n) \<Longrightarrow> preserves P (if b then m else n)"
  by simp

lemma preserves_modify: "(\<And>s. P s \<Longrightarrow> P (f s)) \<Longrightarrow> preserves P (modifyA f)"
  by (simp add: preserves_def)

lemma preserves_conj: "preserves P m \<Longrightarrow> preserves Q m \<Longrightarrow> preserves (\<lambda>s. P s \<and> Q s) m"
  by (simp add: preserves_def)

end
