(* ===== verification/Streaming.thy ===== *)
theory Streaming
  imports Actions Sequencing VisualAssembly Document EvidenceLedger
begin

text \<open>
  The streaming coordinator (\<open>application/workflows/streaming.py\<close>) with the messages of its channel
  (\<open>application/ports/streaming.py\<close>). The ingest of a chunk is modelled in the two parts the event
  loop separates: up to the call of the runtime (the coroutine yields there, other chunks may be
  handled meanwhile) and from its answer on. The answer of a runtime is a parameter: a result, or
  the name of the exception class it raised.

  The channel and the telemetry are the logs of what was sent to them; that sending itself fails is
  not modelled.
\<close>

section \<open>Messages\<close>

datatype server_message_type =
    SESSION_ACCEPTED | QUALITY_WARNING | TRANSCRIPT_PARTIAL | TRANSCRIPT_FINAL
  | SPEECH_EVENT_PARTIAL | SPEECH_EVENT_FINAL | VISUAL_EVENT_FINAL | COOCCURRENCE_FINAL
  | BACKPRESSURE_REQUESTED | PROCESSING_DEGRADED | SESSION_COMPLETED | ERROR

record outbound_event =
  oe_type :: server_message_type
  oe_session_id :: session_id
  oe_monotonic_time_ms :: int
  oe_payload :: "(string \<times> json) list"

record degradation_notice =
  dn_modality :: modality
  dn_reason :: string
  dn_detail :: string

text \<open>The two methods of the channel, as they were called.\<close>

datatype channel_call =
    Publish outbound_event
  | RequestBackpressure session_id int

section \<open>State\<close>

definition DEFAULT_MAX_QUEUE_DEPTH :: int where
  "DEFAULT_MAX_QUEUE_DEPTH = 8"

record streaming_state =
  ss_run_id :: run_id
  ss_session_id :: session_id
  ss_transcript :: transcript
  ss_audio_chunks :: chunk_ledger
  ss_video_chunks :: chunk_ledger
  ss_speech_events :: "(string \<times> speech_event) list"
  ss_visual_events :: "(string \<times> visual_event) list"
  ss_prosody :: "prosody_reading list"
  ss_quality :: quality_report
  ss_in_flight :: int
  ss_degraded_modalities :: "modality list"

definition StreamingState :: "run_id \<Rightarrow> session_id \<Rightarrow> streaming_state" where
  "StreamingState run session =
     \<lparr>ss_run_id = run, ss_session_id = session, ss_transcript = \<lparr>tr_tokens = []\<rparr>,
      ss_audio_chunks = ChunkLedger, ss_video_chunks = ChunkLedger, ss_speech_events = [],
      ss_visual_events = [], ss_prosody = [],
      ss_quality = \<lparr>qr_assessments = [], qr_availability = []\<rparr>, ss_in_flight = 0,
      ss_degraded_modalities = []\<rparr>"

definition ledger_for_modality :: "streaming_state \<Rightarrow> modality \<Rightarrow> chunk_ledger" where
  "ledger_for_modality s m = (if m = AUDIO then ss_audio_chunks s else ss_video_chunks s)"

text \<open>What the coordinator reads and never writes, and what it writes.\<close>

record coordinator_config =
  cc_configuration :: configuration_snapshot
  cc_speech_assembler :: assembler
  cc_visual_assembler :: assembler
  cc_max_queue_depth :: int

record world =
  w_state :: streaming_state
  w_ledger :: "json evidence_ledger"
  w_channel :: "channel_call list"
  w_counters :: "(string \<times> int \<times> string) list"

definition modify_state :: "(streaming_state \<Rightarrow> streaming_state) \<Rightarrow> (world, unit) action" where
  "modify_state f = modifyA (\<lambda>w. w\<lparr>w_state := f (w_state w)\<rparr>)"

definition publish :: "outbound_event \<Rightarrow> (world, unit) action" where
  "publish e = modifyA (\<lambda>w. w\<lparr>w_channel := w_channel w @ [Publish e]\<rparr>)"

definition request_backpressure :: "session_id \<Rightarrow> int \<Rightarrow> (world, unit) action" where
  "request_backpressure session depth =
     modifyA (\<lambda>w. w\<lparr>w_channel := w_channel w @ [RequestBackpressure session depth]\<rparr>)"

definition counter :: "string \<Rightarrow> int \<Rightarrow> string \<Rightarrow> (world, unit) action" where
  "counter name v label = modifyA (\<lambda>w. w\<lparr>w_counters := w_counters w @ [(name, v, label)]\<rparr>)"

definition frontier_now :: "world \<Rightarrow> monotonic_time result" where
  "frontier_now w = finalized_frontier (ss_transcript (w_state w))"

text \<open>An exception while reading the frontier, which is evaluated inside an expression.\<close>

definition read_frontier :: "(world, int) action" where
  "read_frontier = bindA (getA frontier_now) (\<lambda>r. liftA (bindR r (\<lambda>t. Inr (mt_ms t))))"

section \<open>Publishing\<close>

definition token_payload :: "word_token \<Rightarrow> json" where
  "token_payload t = JMap
     [(''id'', JStr (token_id_value (wt_id t))),
      (''raw_text'', JStr (wt_raw_text t)),
      (''start_ms'', JInt (start_ms (wt_interval t))),
      (''end_ms'', JInt (end_ms (wt_interval t))),
      (''tolerance_ms'', JInt (iv_tolerance_ms (wt_interval t))),
      (''confidence'', JFloat (conf_value (wt_confidence t))),
      (''calibration'', JStr (calibration_value (conf_state (wt_confidence t))))]"

definition speech_payload :: "speech_event \<Rightarrow> json" where
  "speech_payload e = JMap
     [(''id'', JStr (event_id_value (se_id e))),
      (''type'', JStr (speech_type_value (se_type e))),
      (''start_ms'', JInt (start_ms (se_interval e))),
      (''end_ms'', JInt (end_ms (se_interval e))),
      (''tolerance_ms'', JInt (iv_tolerance_ms (se_interval e))),
      (''confidence'', JFloat (conf_value (se_confidence e))),
      (''calibration'', JStr (calibration_value (conf_state (se_confidence e)))),
      (''raw_text'', JStr (se_raw_text e)),
      (''context_role'', (case se_context_role e of None \<Rightarrow> JNull | Some r \<Rightarrow> JStr (role_value r))),
      (''modality'', JStr (modality_value (prov_modality (se_provenance e)))),
      (''model_version'', JStr (model_version_id_value (prov_model_version (se_provenance e)))),
      (''taxonomy_version'', JStr (version_str (prov_taxonomy_version (se_provenance e)))),
      (''evidence_ref'', JStr (evidence_ref_value (prov_evidence_ref (se_provenance e))))]"

definition publish_transcript :: "bool \<Rightarrow> (world, unit) action" where
  "publish_transcript is_final =
     bindA (getA w_state) (\<lambda>s.
       let tokens = (if is_final then final_tokens (ss_transcript s)
                     else provisional_tokens (ss_transcript s))
       in if tokens = [] then returnA ()
          else publish \<lparr>oe_type = (if is_final then TRANSCRIPT_FINAL else TRANSCRIPT_PARTIAL),
                 oe_session_id = ss_session_id s,
                 oe_monotonic_time_ms = end_ms (wt_interval (last tokens)),
                 oe_payload = [(''tokens'', JSeq (map token_payload tokens))]\<rparr>)"

definition publish_speech :: "speech_event list \<Rightarrow> bool \<Rightarrow> (world, unit) action" where
  "publish_speech events is_final =
     bindA (getA w_state) (\<lambda>s.
       if events = [] then returnA ()
       else publish \<lparr>oe_type = (if is_final then SPEECH_EVENT_FINAL else SPEECH_EVENT_PARTIAL),
              oe_session_id = ss_session_id s,
              oe_monotonic_time_ms = max_default 0 (map (\<lambda>e. end_ms (se_interval e)) events),
              oe_payload = [(''events'', JSeq (map speech_payload events))]\<rparr>)"

definition window_payload :: "modality_availability \<Rightarrow> json" where
  "window_payload r = JMap
     [(''modality'', JStr (modality_value (ma_modality r))),
      (''reason'', JStr (case ma_reason r of None \<Rightarrow> [] | Some x \<Rightarrow> reason_value x)),
      (''detail'', JStr (ma_detail r)),
      (''start_ms'', JInt (start_ms (ma_window r))),
      (''end_ms'', JInt (end_ms (ma_window r)))]"

definition publish_quality_warnings :: "modality_availability list \<Rightarrow> (world, unit) action" where
  "publish_quality_warnings availability =
     (let unusable = filter (\<lambda>r. \<not> ma_is_usable r) availability in
      if unusable = [] then returnA ()
      else bindA (getA w_state) (\<lambda>s. bindA read_frontier (\<lambda>frontier.
        publish \<lparr>oe_type = QUALITY_WARNING, oe_session_id = ss_session_id s,
          oe_monotonic_time_ms = frontier,
          oe_payload = [(''windows'', JSeq (map window_payload unusable))]\<rparr>)))"

section \<open>Shared steps\<close>

definition admit :: "coordinator_config \<Rightarrow> (world, unit) action" where
  "admit cfg =
     bindA (getA w_state) (\<lambda>s.
       if ss_in_flight s < cc_max_queue_depth cfg then returnA ()
       else seqA (request_backpressure (ss_session_id s) (ss_in_flight s))
           (seqA (counter ''backpressure.requested'' 1 [])
             (raiseA (ApplicationError (BackpressureRequired (ss_in_flight s))))))"

definition DegradationNotice_of :: "modality \<Rightarrow> string \<Rightarrow> degradation_notice" where
  "DegradationNotice_of m failure =
     \<lparr>dn_modality = m, dn_reason = failure,
      dn_detail = modality_value m @ '' processing failed; its indicators will be reported '' @
        ''as unavailable for the affected windows''\<rparr>"

definition degrade :: "modality \<Rightarrow> string \<Rightarrow> (world, unit) action" where
  "degrade m failure =
     bindA (getA (\<lambda>w. m \<notin> set (ss_degraded_modalities (w_state w)))) (\<lambda>first_time.
     seqA (modify_state (\<lambda>s. s\<lparr>ss_degraded_modalities := List.insert m (ss_degraded_modalities s)\<rparr>))
     (seqA (counter ''modality.degraded'' 1 (modality_value m))
       (if \<not> first_time then returnA ()
        else let notice = DegradationNotice_of m failure in
          bindA (getA w_state) (\<lambda>s. bindA read_frontier (\<lambda>frontier.
            publish \<lparr>oe_type = PROCESSING_DEGRADED, oe_session_id = ss_session_id s,
              oe_monotonic_time_ms = frontier,
              oe_payload = [(''modality'', JStr (modality_value (dn_modality notice))),
                            (''reason'', JStr (dn_reason notice)),
                            (''detail'', JStr (dn_detail notice))]\<rparr>)))))"

definition ledger_action ::
  "(json evidence_ledger \<Rightarrow> (json ledger_entry \<times> json evidence_ledger) result) \<Rightarrow>
   (world, json ledger_entry) action" where
  "ledger_action oper = zoomA w_ledger (\<lambda>f w. w\<lparr>w_ledger := f (w_ledger w)\<rparr>) oper"

definition record_event :: "speech_event \<Rightarrow> (world, unit) action" where
  "record_event e =
     bindA (getA (\<lambda>w. ledger_contains (w_ledger w) (se_id e))) (\<lambda>present.
       if present then
         bindA (ledger_action (\<lambda>l. ledger_finalize l (se_id e))) (\<lambda>_. returnA ())
       else
         bindA (ledger_action (\<lambda>l. ledger_append l (se_id e) (se_interval e) (se_provenance e) True
             (Some [(''type'', JStr (speech_type_value (se_type e))),
                    (''raw_text'', JStr (se_raw_text e))]))) (\<lambda>_. returnA ()))"

definition put_speech_event :: "string \<Rightarrow> speech_event \<Rightarrow> (world, unit) action" where
  "put_speech_event key e =
     modify_state (\<lambda>s. s\<lparr>ss_speech_events := AList.update key e (ss_speech_events s)\<rparr>)"

definition borrowed_provenance :: "streaming_state \<Rightarrow> speech_event list \<Rightarrow> provenance option" where
  "borrowed_provenance s events =
     (case events of
        e # _ \<Rightarrow> Some (se_provenance e)
      | [] \<Rightarrow> (case ss_speech_events s of (_, e) # _ \<Rightarrow> Some (se_provenance e) | [] \<Rightarrow> None))"

definition derive_pause :: "speech_event \<Rightarrow> (world, speech_event list) action" where
  "derive_pause pause =
     bindA (getA w_state) (\<lambda>s.
       if map_of (ss_speech_events s) (event_id_value (se_id pause)) \<noteq> None then returnA []
       else bindA (liftA (speech_finalize pause)) (\<lambda>final_pause.
         seqA (put_speech_event (event_id_value (se_id pause)) final_pause)
         (seqA (record_event final_pause) (returnA [final_pause]))))"

definition derive_pauses ::
  "coordinator_config \<Rightarrow> speech_event list \<Rightarrow> (world, speech_event list) action" where
  "derive_pauses cfg newly_final =
     bindA (getA w_state) (\<lambda>s.
       let finals = final_tokens (ss_transcript s) in
       if length finals < 2 then returnA []
       else case borrowed_provenance s newly_final of
         None \<Rightarrow> returnA []
       | Some prov \<Rightarrow>
           bindA (liftA (silent_pauses finals
             (cs_silence_threshold_ms (cc_configuration cfg)) prov (ss_run_id s))) (\<lambda>pauses.
           bindA (forA derive_pause pauses) (\<lambda>derived. returnA (concat derived))))"

text \<open>One turn of the loop over the snapshot \<open>list(speech_events.items())\<close>.\<close>

definition finalize_speech_item ::
  "int \<Rightarrow> string \<times> speech_event \<Rightarrow> (world, speech_event list) action" where
  "finalize_speech_item stable_through_ms item =
     (let key = fst item; e = snd item in
      if se_is_final e \<or> end_ms (se_interval e) > stable_through_ms then returnA []
      else bindA (liftA (speech_finalize e)) (\<lambda>finalized.
        seqA (put_speech_event key finalized)
        (seqA (record_event finalized) (returnA [finalized]))))"

definition put_transcript :: "transcript result \<Rightarrow> (world, unit) action" where
  "put_transcript r = bindA (liftA r) (\<lambda>tr. modify_state (\<lambda>s. s\<lparr>ss_transcript := tr\<rparr>))"

definition coordinator_finalize_through :: "coordinator_config \<Rightarrow> int \<Rightarrow> (world, unit) action" where
  "coordinator_finalize_through cfg stable_through_ms =
     bindA read_frontier (\<lambda>frontier.
       if stable_through_ms \<le> frontier then returnA ()
       else bindA (liftA (MonotonicTime stable_through_ms)) (\<lambda>boundary.
         bindA (getA w_state) (\<lambda>s.
         seqA (put_transcript (finalize_through (ss_transcript s) boundary))
         (bindA (getA (\<lambda>w. ss_speech_events (w_state w))) (\<lambda>items.
          bindA (forA (finalize_speech_item stable_through_ms) items) (\<lambda>finalized.
          let newly_final = concat finalized in
          bindA (derive_pauses cfg newly_final) (\<lambda>pauses.
          seqA (publish_transcript True)
            (publish_speech (newly_final @ pauses) True))))))))"

section \<open>Ingesting a chunk\<close>

text \<open>Up to the call of the runtime: the chunk is done with a verdict, or it is admitted and a window
  is in flight.\<close>

datatype admission = Done chunk_verdict | Admitted chunk_verdict

definition offer_action :: "modality \<Rightarrow> int \<Rightarrow> (world, chunk_verdict) action" where
  "offer_action m sequence =
     (if m = AUDIO
      then zoomA (\<lambda>w. ss_audio_chunks (w_state w))
             (\<lambda>f w. w\<lparr>w_state := (w_state w)\<lparr>ss_audio_chunks := f (ss_audio_chunks (w_state w))\<rparr>\<rparr>)
             (\<lambda>l. offer l sequence)
      else zoomA (\<lambda>w. ss_video_chunks (w_state w))
             (\<lambda>f w. w\<lparr>w_state := (w_state w)\<lparr>ss_video_chunks := f (ss_video_chunks (w_state w))\<rparr>\<rparr>)
             (\<lambda>l. offer l sequence))"

definition add_in_flight :: "int \<Rightarrow> (world, unit) action" where
  "add_in_flight d = modify_state (\<lambda>s. s\<lparr>ss_in_flight := ss_in_flight s + d\<rparr>)"

definition ingest_begin :: "coordinator_config \<Rightarrow> modality \<Rightarrow> int \<Rightarrow> (world, admission) action" where
  "ingest_begin cfg m sequence =
     bindA (offer_action m sequence) (\<lambda>verdict.
       if verdict = DUPLICATE then
         seqA (counter ''chunks.duplicate'' 1 (modality_value m)) (returnA (Done verdict))
       else seqA (admit cfg) (seqA (add_in_flight 1) (returnA (Admitted verdict))))"

text \<open>From the answer of the runtime on; \<open>Inl\<close> is the name of the exception it raised.\<close>

definition extend_speech :: "assembled_speech \<Rightarrow> (world, unit) action" where
  "extend_speech assembled =
     bindA (getA w_state) (\<lambda>s.
       seqA (put_transcript (with_provisional (ss_transcript s) (asp_tokens assembled)))
       (seqA (bindA (forA (\<lambda>e. put_speech_event (event_id_value (se_id e)) e) (asp_events assembled))
                (\<lambda>_. returnA ()))
         (modify_state (\<lambda>s. s\<lparr>ss_prosody := ss_prosody s @ asp_prosody assembled\<rparr>))))"

definition ingest_audio_end ::
  "coordinator_config \<Rightarrow> chunk_verdict \<Rightarrow> string + speech_result \<Rightarrow> (world, chunk_verdict) action"
where
  "ingest_audio_end cfg verdict outcome =
     (case outcome of
        Inl failure \<Rightarrow>
          finallyA (seqA (degrade AUDIO failure) (returnA ACCEPTED)) (add_in_flight (- 1))
      | Inr result \<Rightarrow>
          seqA (add_in_flight (- 1))
          (bindA (liftA (assemble_speech (cc_speech_assembler cfg) result)) (\<lambda>assembled.
           seqA (extend_speech assembled)
           (seqA (publish_speech (asp_events assembled) False)
           (seqA (coordinator_finalize_through cfg (asp_stable_through_ms assembled))
             (returnA verdict))))))"

definition extend_visual :: "assembled_visual \<Rightarrow> (world, unit) action" where
  "extend_visual assembled =
     seqA (bindA (forA (\<lambda>e. modify_state (\<lambda>s. s\<lparr>ss_visual_events :=
              AList.update (event_id_value (ve_id e)) e (ss_visual_events s)\<rparr>)) (avi_events assembled))
            (\<lambda>_. returnA ()))
       (modify_state (\<lambda>s. s\<lparr>ss_quality := report_extended (ss_quality s)
              (avi_assessments assembled) (avi_availability assembled)\<rparr>))"

definition ingest_video_end ::
  "coordinator_config \<Rightarrow> chunk_verdict \<Rightarrow> string + visual_result \<Rightarrow> (world, chunk_verdict) action"
where
  "ingest_video_end cfg verdict outcome =
     (case outcome of
        Inl failure \<Rightarrow>
          finallyA (seqA (degrade VIDEO failure) (returnA ACCEPTED)) (add_in_flight (- 1))
      | Inr result \<Rightarrow>
          seqA (add_in_flight (- 1))
          (bindA (liftA (assemble_visual (cc_visual_assembler cfg) result)) (\<lambda>assembled.
           seqA (extend_visual assembled)
           (seqA (if avi_gated_out assembled \<noteq> 0
                  then counter ''visual_events.gated_out'' (avi_gated_out assembled) []
                  else returnA ())
           (seqA (publish_quality_warnings (avi_availability assembled))
             (returnA verdict))))))"

text \<open>The two methods, when no other chunk is handled while the runtime works.\<close>

definition ingest_audio ::
  "coordinator_config \<Rightarrow> (audio_window \<Rightarrow> string + speech_result) \<Rightarrow> int \<Rightarrow> audio_window \<Rightarrow>
   (world, chunk_verdict) action" where
  "ingest_audio cfg transcribe sequence window =
     bindA (ingest_begin cfg AUDIO sequence) (\<lambda>a.
       case a of
         Done verdict \<Rightarrow> returnA verdict
       | Admitted verdict \<Rightarrow> ingest_audio_end cfg verdict (transcribe window))"

definition ingest_video ::
  "coordinator_config \<Rightarrow> (visual_frame list \<Rightarrow> string + visual_result) \<Rightarrow> int \<Rightarrow> visual_frame list \<Rightarrow>
   (world, chunk_verdict) action" where
  "ingest_video cfg observe sequence frames =
     bindA (ingest_begin cfg VIDEO sequence) (\<lambda>a.
       case a of
         Done verdict \<Rightarrow> returnA verdict
       | Admitted verdict \<Rightarrow> ingest_video_end cfg verdict (observe frames))"

end
