(* ===== verification/StreamingFacts.thy ===== *)
theory StreamingFacts
  imports Streaming
begin

text \<open>
  Invariants of the streaming coordinator. Two locales state what a property of the whole state has
  to be stable under (the primitive writes of the audio path and of the video path); inside them
  every operation of the path is shown to preserve it, once, and each invariant is an
  interpretation. \<open>coord_step\<close> is the system of one coordinator with any number of chunks in flight:
  chunks begin and end in any interleaving.
\<close>

section \<open>The audio path\<close>

locale audio_invariant =
  fixes P :: "world \<Rightarrow> bool"
  assumes publish_ok: "P w \<Longrightarrow> oe_type e \<noteq> PROCESSING_DEGRADED \<Longrightarrow>
      P (w\<lparr>w_channel := w_channel w @ [Publish e]\<rparr>)"
    and append_ok: "P w \<Longrightarrow> ledger_append (w_ledger w) i iv prov True pl = Inr (x, l) \<Longrightarrow>
      P (w\<lparr>w_ledger := l\<rparr>)"
    and ledger_finalize_ok: "P w \<Longrightarrow> ledger_finalize (w_ledger w) i = Inr (x, l) \<Longrightarrow> P (w\<lparr>w_ledger := l\<rparr>)"
    and provisional_ok: "P w \<Longrightarrow> \<forall>t \<in> set ts. wf_token t \<Longrightarrow>
      with_provisional (ss_transcript (w_state w)) ts = Inr tr \<Longrightarrow>
      P (w\<lparr>w_state := (w_state w)\<lparr>ss_transcript := tr\<rparr>\<rparr>)"
    and finalize_ok: "P w \<Longrightarrow> finalize_through (ss_transcript (w_state w)) b = Inr tr \<Longrightarrow>
      P (w\<lparr>w_state := (w_state w)\<lparr>ss_transcript := tr\<rparr>\<rparr>)"
    and event_ok: "P w \<Longrightarrow>
      P (w\<lparr>w_state := (w_state w)\<lparr>ss_speech_events := d\<rparr>\<rparr>)"
    and prosody_ok: "P w \<Longrightarrow> P (w\<lparr>w_state := (w_state w)\<lparr>ss_prosody := ps\<rparr>\<rparr>)"
begin

lemma publish_pres: "oe_type e \<noteq> PROCESSING_DEGRADED \<Longrightarrow> preserves P (publish e)"
  unfolding publish_def by (rule preserves_modify) (simp add: publish_ok)

lemma put_event_pres: "preserves P (put_speech_event k e)"
  unfolding put_speech_event_def modify_state_def by (rule preserves_modify) (simp add: event_ok)

lemma record_pres: "preserves P (record_event e)"
proof (rule preservesI)
  fix w assume "P w"
  then show "P (fst (record_event e w))"
    using append_ok [of w] ledger_finalize_ok [of w]
    by (auto simp: record_event_def bindA_run ledger_action_def zoomA_def split: sum.splits prod.splits)
qed

lemma read_frontier_pres: "preserves P read_frontier"
  unfolding read_frontier_def by (intro preserves_rules)

lemma publish_speech_pres: "preserves P (publish_speech es f)"
  unfolding publish_speech_def by (intro preserves_rules publish_pres) simp

lemma publish_transcript_pres: "preserves P (publish_transcript f)"
  unfolding publish_transcript_def Let_def by (intro preserves_rules publish_pres) simp

lemma derive_pause_pres: "preserves P (derive_pause e)"
  unfolding derive_pause_def by (intro preserves_rules put_event_pres record_pres)

lemma derive_pauses_pres: "preserves P (derive_pauses cfg es)"
proof -
  have "preserves P (case p of None \<Rightarrow> returnA []
      | Some prov \<Rightarrow> bindA (liftA (silent_pauses ts th prov r)) (\<lambda>pauses.
          bindA (forA derive_pause pauses) (\<lambda>derived. returnA (concat derived))))" for p ts th r
    by (cases p) (auto intro!: preserves_rules derive_pause_pres)
  then show ?thesis
    unfolding derive_pauses_def Let_def by (intro preserves_rules)
qed

lemma finalize_item_pres: "preserves P (finalize_speech_item b it)"
  unfolding finalize_speech_item_def Let_def
  by (intro preserves_rules put_event_pres record_pres)

lemma finalize_transcript_pres:
  "preserves P (bindA (getA w_state) (\<lambda>s.
     seqA (put_transcript (finalize_through (ss_transcript s) b)) n))"
  if "preserves P n"
proof (rule preservesI)
  fix w assume "P w"
  then show "P (fst (bindA (getA w_state) (\<lambda>s.
      seqA (put_transcript (finalize_through (ss_transcript s) b)) n) w))"
    using that finalize_ok [of w b]
    by (auto simp: bindA_run put_transcript_def modify_state_def preserves_def split: sum.splits)
qed

lemma coordinator_finalize_pres: "preserves P (coordinator_finalize_through cfg b)"
  unfolding coordinator_finalize_through_def Let_def
  by (intro preserves_rules read_frontier_pres finalize_transcript_pres finalize_item_pres
      derive_pauses_pres publish_transcript_pres publish_speech_pres)

lemma extend_speech_pres:
  assumes "\<forall>t \<in> set (asp_tokens a). wf_token t"
  shows "preserves P (extend_speech a)"
proof (rule preservesI)
  fix w assume w: "P w"
  let ?rest = "seqA (bindA (forA (\<lambda>e. put_speech_event (event_id_value (se_id e)) e) (asp_events a))
      (\<lambda>_. returnA ()))
    (modify_state (\<lambda>s. s\<lparr>ss_prosody := ss_prosody s @ asp_prosody a\<rparr>))"
  have "preserves P ?rest"
    unfolding modify_state_def
    by (intro preserves_rules put_event_pres preserves_modify) (simp add: prosody_ok)
  then show "P (fst (extend_speech a w))"
    using w provisional_ok [OF w assms]
    by (auto simp: extend_speech_def bindA_run put_transcript_def modify_state_def preserves_def
        split: sum.splits)
qed

text \<open>Everything an answer of the speech runtime leads to, after the in-flight count is released.\<close>

lemma answer_pres:
  assumes "assemble_speech asm r = Inr a"
  shows "preserves P (seqA (extend_speech a) (seqA (publish_speech (asp_events a) False)
    (seqA (coordinator_finalize_through cfg (asp_stable_through_ms a)) (returnA v))))"
proof -
  have "\<forall>t \<in> set (asp_tokens a). wf_token t"
    using assms assemble_token_wf
    by (auto simp: assemble_speech_def dest: mapR_Inr_mem)
  then show ?thesis
    by (intro preserves_rules extend_speech_pres publish_speech_pres coordinator_finalize_pres)
qed

lemma audio_answer:
  assumes "P (fst (add_in_flight (- 1) w))"
  shows "P (fst (ingest_audio_end cfg v (Inr r) w))"
proof -
  have "preserves P (bindA (liftA (assemble_speech (cc_speech_assembler cfg) r)) (\<lambda>a.
      seqA (extend_speech a) (seqA (publish_speech (asp_events a) False)
        (seqA (coordinator_finalize_through cfg (asp_stable_through_ms a)) (returnA v)))))"
  proof (cases "assemble_speech (cc_speech_assembler cfg) r")
    case (Inl e)
    then show ?thesis by (simp add: preserves_def bindA_run)
  next
    case (Inr a)
    then show ?thesis
      using answer_pres [OF Inr, of cfg v] by (simp add: preserves_def bindA_run)
  qed
  from preservesD [OF this assms] show ?thesis
    by (simp add: ingest_audio_end_def add_in_flight_def modify_state_def bindA_run)
qed

end

section \<open>The video path\<close>

locale video_invariant =
  fixes P :: "world \<Rightarrow> bool"
  assumes publish_ok: "P w \<Longrightarrow> oe_type e \<noteq> PROCESSING_DEGRADED \<Longrightarrow>
      P (w\<lparr>w_channel := w_channel w @ [Publish e]\<rparr>)"
    and counter_ok: "P w \<Longrightarrow> P (w\<lparr>w_counters := cs\<rparr>)"
    and visual_ok: "P w \<Longrightarrow> P (w\<lparr>w_state := (w_state w)\<lparr>ss_visual_events := d\<rparr>\<rparr>)"
    and quality_ok: "P w \<Longrightarrow> P (w\<lparr>w_state := (w_state w)\<lparr>ss_quality := q\<rparr>\<rparr>)"
begin

lemma extend_visual_pres: "preserves P (extend_visual a)"
  unfolding extend_visual_def modify_state_def
  by (intro preserves_rules preserves_modify) (simp_all add: visual_ok quality_ok)

lemma warnings_pres: "preserves P (publish_quality_warnings avs)"
  unfolding publish_quality_warnings_def Let_def publish_def read_frontier_def
  by (intro preserves_rules preserves_modify) (simp add: publish_ok)

lemma counter_pres: "preserves P (counter name v label)"
  unfolding counter_def by (rule preserves_modify) (simp add: counter_ok)

lemma video_answer:
  assumes "P (fst (add_in_flight (- 1) w))"
  shows "P (fst (ingest_video_end cfg v (Inr r) w))"
proof -
  have "preserves P (bindA (liftA (assemble_visual (cc_visual_assembler cfg) r)) (\<lambda>a.
      seqA (extend_visual a)
        (seqA (if avi_gated_out a \<noteq> 0 then counter ''visual_events.gated_out'' (avi_gated_out a) []
               else returnA ())
        (seqA (publish_quality_warnings (avi_availability a)) (returnA v)))))"
    by (intro preserves_rules extend_visual_pres counter_pres warnings_pres)
  from preservesD [OF this assms] show ?thesis
    by (simp add: ingest_video_end_def add_in_flight_def modify_state_def bindA_run)
qed

end

section \<open>Failures and admission\<close>

lemma degrade_state:
  "w_state (fst (degrade m f w)) =
     (w_state w)\<lparr>ss_degraded_modalities := List.insert m (ss_degraded_modalities (w_state w))\<rparr>"
  "w_ledger (fst (degrade m f w)) = w_ledger w"
  by (auto simp: degrade_def bindA_run modify_state_def counter_def publish_def read_frontier_def
      Let_def split: sum.splits)

definition degraded_notice :: "modality \<Rightarrow> channel_call \<Rightarrow> bool" where
  "degraded_notice m c = (case c of
     Publish e \<Rightarrow> oe_type e = PROCESSING_DEGRADED \<and>
       map_of (oe_payload e) ''modality'' = Some (JStr (modality_value m))
   | RequestBackpressure _ _ \<Rightarrow> False)"

lemma modality_value_inj: "modality_value m = modality_value n \<longleftrightarrow> m = n"
  by (cases m; cases n) simp_all

lemma degrade_channel:
  assumes "wf_transcript (ss_transcript (w_state w))"
  shows "filter (degraded_notice n) (w_channel (fst (degrade m f w))) =
      filter (degraded_notice n) (w_channel w) @
        (if m \<in> set (ss_degraded_modalities (w_state w)) \<or> n \<noteq> m then []
         else [last (w_channel (fst (degrade m f w)))])"
    and "snd (degrade m f w) = Inr ()"
  using finalized_frontier_eq [OF assms]
  by (auto simp: degrade_def bindA_run modify_state_def counter_def publish_def read_frontier_def
      Let_def frontier_now_def degraded_notice_def DegradationNotice_of_def modality_value_inj)

lemma offer_action_frame:
  "w_ledger (fst (offer_action m n w)) = w_ledger w"
  "w_channel (fst (offer_action m n w)) = w_channel w"
  "w_counters (fst (offer_action m n w)) = w_counters w"
  "ss_in_flight (w_state (fst (offer_action m n w))) = ss_in_flight (w_state w)"
  "ss_transcript (w_state (fst (offer_action m n w))) = ss_transcript (w_state w)"
  "ss_degraded_modalities (w_state (fst (offer_action m n w))) = ss_degraded_modalities (w_state w)"
  "ss_speech_events (w_state (fst (offer_action m n w))) = ss_speech_events (w_state w)"
  "ss_visual_events (w_state (fst (offer_action m n w))) = ss_visual_events (w_state w)"
  "ss_prosody (w_state (fst (offer_action m n w))) = ss_prosody (w_state w)"
  "ss_quality (w_state (fst (offer_action m n w))) = ss_quality (w_state w)"
  by (simp_all add: offer_action_def zoomA_def split: sum.splits prod.splits)

text \<open>What the first part of an ingest does: it stops with an exception or a verdict and the number of
  windows in flight unchanged, or admits one more window below the ceiling.\<close>

lemma ingest_begin_cases:
  obtains (stopped) r where "snd (ingest_begin cfg m n w) = r" "\<forall>v. r \<noteq> Inr (Admitted v)"
      "ss_in_flight (w_state (fst (ingest_begin cfg m n w))) = ss_in_flight (w_state w)"
  | (admitted) v where "snd (ingest_begin cfg m n w) = Inr (Admitted v)"
      "ss_in_flight (w_state w) < cc_max_queue_depth cfg"
      "ss_in_flight (w_state (fst (ingest_begin cfg m n w))) = ss_in_flight (w_state w) + 1"
proof (cases "snd (offer_action m n w)")
  case (Inl e)
  then show ?thesis
    using stopped [of "Inl e"] by (simp add: ingest_begin_def bindA_run offer_action_frame)
next
  case (Inr v)
  show ?thesis
  proof (cases "v = DUPLICATE")
    case True
    then show ?thesis
      using Inr stopped [of "Inr (Done DUPLICATE)"]
      by (simp add: ingest_begin_def bindA_run counter_def offer_action_frame)
  next
    case False
    show ?thesis
    proof (cases "ss_in_flight (w_state w) < cc_max_queue_depth cfg")
      case True
      then show ?thesis
        using Inr False admitted [of v]
        by (simp add: ingest_begin_def bindA_run admit_def add_in_flight_def modify_state_def
            offer_action_frame)
    next
      case full: False
      then show ?thesis
        using Inr False stopped [of "Inl (ApplicationError (BackpressureRequired (ss_in_flight (w_state w))))"]
        by (simp add: ingest_begin_def bindA_run admit_def request_backpressure_def counter_def
            offer_action_frame)
    qed
  qed
qed

lemma ingest_begin_frame:
  "w_ledger (fst (ingest_begin cfg m n w)) = w_ledger w"
  "ss_transcript (w_state (fst (ingest_begin cfg m n w))) = ss_transcript (w_state w)"
  "ss_degraded_modalities (w_state (fst (ingest_begin cfg m n w))) = ss_degraded_modalities (w_state w)"
  "ss_speech_events (w_state (fst (ingest_begin cfg m n w))) = ss_speech_events (w_state w)"
  "ss_prosody (w_state (fst (ingest_begin cfg m n w))) = ss_prosody (w_state w)"
  "ss_visual_events (w_state (fst (ingest_begin cfg m n w))) = ss_visual_events (w_state w)"
  "ss_quality (w_state (fst (ingest_begin cfg m n w))) = ss_quality (w_state w)"
  "filter (degraded_notice k) (w_channel (fst (ingest_begin cfg m n w))) =
     filter (degraded_notice k) (w_channel w)"
  by (simp_all add: ingest_begin_def bindA_run admit_def add_in_flight_def modify_state_def
      request_backpressure_def counter_def offer_action_frame degraded_notice_def split: sum.splits)

end
