(* ===== verification/StreamingProperties.thy ===== *)
theory StreamingProperties
  imports StreamingFacts
begin

text \<open>
  The system of one coordinator under any interleaving of its chunks, and what holds of it: the
  bounded queue, one degradation notice per modality, finalized history, the shape of the ledger;
  and what single calls do: redelivery, independence of the modalities, backpressure.
\<close>

section \<open>The system\<close>

type_synonym system = "world \<times> (modality \<times> chunk_verdict) list"

inductive coord_step :: "coordinator_config \<Rightarrow> system \<Rightarrow> system \<Rightarrow> bool" for cfg where
  chunk_admitted: "ingest_begin cfg m n w = (w', Inr (Admitted v)) \<Longrightarrow>
    coord_step cfg (w, ps) (w', ps @ [(m, v)])"
| chunk_stopped: "ingest_begin cfg m n w = (w', r) \<Longrightarrow> \<forall>v. r \<noteq> Inr (Admitted v) \<Longrightarrow>
    coord_step cfg (w, ps) (w', ps)"
| audio_answered: "(AUDIO, v) \<in> set ps \<Longrightarrow> ingest_audio_end cfg v outcome w = (w', r) \<Longrightarrow>
    coord_step cfg (w, ps) (w', remove1 (AUDIO, v) ps)"
| video_answered: "(VIDEO, v) \<in> set ps \<Longrightarrow> ingest_video_end cfg v outcome' w = (w', r') \<Longrightarrow>
    coord_step cfg (w, ps) (w', remove1 (VIDEO, v) ps)"

inductive coord_reach :: "coordinator_config \<Rightarrow> system \<Rightarrow> system \<Rightarrow> bool" for cfg s0 where
  coord_refl: "coord_reach cfg s0 s0"
| coord_trans: "coord_reach cfg s0 s \<Longrightarrow> coord_step cfg s s' \<Longrightarrow> coord_reach cfg s0 s'"

inductive_cases coord_stepE: "coord_step cfg s s'"

text \<open>A step is one of the three calls; an invariant that survives each of them holds throughout.\<close>

lemma coord_step_cases:
  assumes "coord_step cfg (w, ps) (w', ps')"
  obtains (started) m n where "w' = fst (ingest_begin cfg m n w)"
  | (audio) v outcome where "w' = fst (ingest_audio_end cfg v outcome w)" "(AUDIO, v) \<in> set ps"
  | (video) v outcome where "w' = fst (ingest_video_end cfg v outcome w)" "(VIDEO, v) \<in> set ps"
  using assms
proof (cases rule: coord_step.cases)
  case (chunk_admitted m n v)
  then show ?thesis using started [of m n] by simp
next
  case (chunk_stopped m n r)
  then show ?thesis using started [of m n] by simp
next
  case (audio_answered v outcome r)
  then show ?thesis using audio [of v outcome] by simp
next
  case (video_answered v outcome r)
  then show ?thesis using video [of v outcome] by simp
qed

lemma coord_reach_invariant:
  assumes "coord_reach cfg s0 s" and "P (fst s0)"
    and "\<And>m n w. P w \<Longrightarrow> P (fst (ingest_begin cfg m n w))"
    and "\<And>v x w. P w \<Longrightarrow> P (fst (ingest_audio_end cfg v x w))"
    and "\<And>v x w. P w \<Longrightarrow> P (fst (ingest_video_end cfg v x w))"
  shows "P (fst s)"
  using assms(1,2)
proof (induction rule: coord_reach.induct)
  case (coord_trans s s')
  obtain w ps w' ps' where s: "s = (w, ps)" "s' = (w', ps')" by (cases s; cases s')
  have "P w" using coord_trans s by simp
  have "coord_step cfg (w, ps) (w', ps')" using coord_trans s by simp
  then have "P w'"
    by (rule coord_step_cases) (use assms(3-5) \<open>P w\<close> in auto)
  then show ?case by (simp add: s)
qed

section \<open>The invariants\<close>

lemma add_in_flight_frame:
  "w_ledger (fst (add_in_flight d w)) = w_ledger w"
  "w_channel (fst (add_in_flight d w)) = w_channel w"
  "ss_transcript (w_state (fst (add_in_flight d w))) = ss_transcript (w_state w)"
  "ss_degraded_modalities (w_state (fst (add_in_flight d w))) = ss_degraded_modalities (w_state w)"
  "ss_in_flight (w_state (fst (add_in_flight d w))) = ss_in_flight (w_state w) + d"
  by (simp_all add: add_in_flight_def modify_state_def)

lemma failed_end:
  "ingest_audio_end cfg v (Inl f) w =
     (case degrade AUDIO f w of (w', r) \<Rightarrow> (fst (add_in_flight (- 1) w'), bindR r (\<lambda>_. Inr ACCEPTED)))"
  "ingest_video_end cfg v (Inl f) w =
     (case degrade VIDEO f w of (w', r) \<Rightarrow> (fst (add_in_flight (- 1) w'), bindR r (\<lambda>_. Inr ACCEPTED)))"
  by (simp_all add: ingest_audio_end_def ingest_video_end_def finallyA_def bindA_run
      add_in_flight_def modify_state_def split: prod.splits sum.splits)

text \<open>The windows in flight.\<close>

interpretation flight_audio: audio_invariant "\<lambda>w. ss_in_flight (w_state w) = n" for n
  by unfold_locales simp_all

interpretation flight_video: video_invariant "\<lambda>w. ss_in_flight (w_state w) = n" for n
  by unfold_locales simp_all

lemma audio_end_in_flight:
  "ss_in_flight (w_state (fst (ingest_audio_end cfg v x w))) = ss_in_flight (w_state w) - 1"
proof (cases x)
  case (Inl f)
  then show ?thesis
    by (simp add: failed_end add_in_flight_frame degrade_state case_prod_unfold)
next
  case (Inr r)
  then show ?thesis
    using flight_audio.audio_answer [of w "ss_in_flight (w_state w) - 1" cfg v r]
    by (simp add: add_in_flight_frame)
qed

lemma video_end_in_flight:
  "ss_in_flight (w_state (fst (ingest_video_end cfg v x w))) = ss_in_flight (w_state w) - 1"
proof (cases x)
  case (Inl f)
  then show ?thesis
    by (simp add: failed_end add_in_flight_frame degrade_state case_prod_unfold)
next
  case (Inr r)
  then show ?thesis
    using flight_video.video_answer [of w "ss_in_flight (w_state w) - 1" cfg v r]
    by (simp add: add_in_flight_frame)
qed

text \<open>The transcript stays well formed and keeps the final tokens it has.\<close>

definition keeps_finals :: "word_token list \<Rightarrow> world \<Rightarrow> bool" where
  "keeps_finals ts w \<longleftrightarrow> wf_transcript (ss_transcript (w_state w)) \<and>
     mset ts \<subseteq># mset (final_tokens (ss_transcript (w_state w)))"

interpretation finals_audio: audio_invariant "keeps_finals ts" for ts
proof unfold_locales
  fix w toks tr
  assume "keeps_finals ts w" and "\<forall>t \<in> set toks. wf_token t"
    and "with_provisional (ss_transcript (w_state w)) toks = Inr tr"
  then show "keeps_finals ts (w\<lparr>w_state := (w_state w)\<lparr>ss_transcript := tr\<rparr>\<rparr>)"
    using with_provisional_wf with_provisional_finals
    by (auto simp: keeps_finals_def intro: subset_mset.order_trans)
next
  fix w b tr
  assume "keeps_finals ts w" and "finalize_through (ss_transcript (w_state w)) b = Inr tr"
  then show "keeps_finals ts (w\<lparr>w_state := (w_state w)\<lparr>ss_transcript := tr\<rparr>\<rparr>)"
    using finalize_through_wf finalize_through_finals
    by (auto simp: keeps_finals_def intro: subset_mset.order_trans)
qed (simp_all add: keeps_finals_def)

interpretation finals_video: video_invariant "keeps_finals ts" for ts
  by unfold_locales (simp_all add: keeps_finals_def)

text \<open>Every event in the ledger has one version, which is final, and what an earlier ledger \<open>L\<close> held is
  still there.\<close>

definition ledger_of_finals :: "json evidence_ledger \<Rightarrow> world \<Rightarrow> bool" where
  "ledger_of_finals L w \<longleftrightarrow>
     (\<forall>k vs. map_of (el_history (w_ledger w)) k = Some vs \<longrightarrow>
        (\<exists>e. vs = [e] \<and> le_is_final e \<and> le_event_id e = k)) \<and>
     map_of (el_history L) \<subseteq>\<^sub>m map_of (el_history (w_ledger w))"

interpretation recorded_audio: audio_invariant "ledger_of_finals L" for L
proof unfold_locales
  fix w i iv prov pl x l
  assume "ledger_of_finals L w" and "ledger_append (w_ledger w) i iv prov True pl = Inr (x, l)"
  then show "ledger_of_finals L (w\<lparr>w_ledger := l\<rparr>)"
    by (auto simp: ledger_of_finals_def ledger_append_def Let_def map_le_def split: if_splits)
      (metis domI option.distinct(1))
next
  fix w i x l
  assume inv: "ledger_of_finals L w" and fin: "ledger_finalize (w_ledger w) i = Inr (x, l)"
  then obtain vs where vs: "map_of (el_history (w_ledger w)) i = Some vs"
    by (auto simp: ledger_finalize_def split: option.splits)
  then obtain e where "vs = [e]" "le_is_final e"
    using inv by (auto simp: ledger_of_finals_def)
  then have "l = w_ledger w"
    using fin vs by (simp add: ledger_finalize_def)
  then show "ledger_of_finals L (w\<lparr>w_ledger := l\<rparr>)"
    using inv by (simp add: ledger_of_finals_def)
qed (simp_all add: ledger_of_finals_def)

interpretation recorded_video: video_invariant "ledger_of_finals L" for L
  by unfold_locales (simp_all add: ledger_of_finals_def)

text \<open>One notice for every degraded modality, none for the others.\<close>

definition notices_match :: "world \<Rightarrow> bool" where
  "notices_match w \<longleftrightarrow> wf_transcript (ss_transcript (w_state w)) \<and>
     (\<forall>m. length (filter (degraded_notice m) (w_channel w)) =
       (if m \<in> set (ss_degraded_modalities (w_state w)) then 1 else 0))"

interpretation notices_audio: audio_invariant notices_match
  by unfold_locales
    (auto simp: notices_match_def degraded_notice_def intro: with_provisional_wf finalize_through_wf)

interpretation notices_video: video_invariant notices_match
  by unfold_locales (auto simp: notices_match_def degraded_notice_def)

lemma notices_degrade:
  assumes "notices_match w"
  shows "notices_match (fst (degrade m f w))"
proof -
  have wf: "wf_transcript (ss_transcript (w_state w))"
    using assms by (simp add: notices_match_def)
  show ?thesis
    using assms degrade_channel(1) [OF wf, of _ m f]
    by (auto simp: notices_match_def degrade_state)
qed

text \<open>Each invariant through the three calls.\<close>

lemma add_in_flight_invariants:
  "keeps_finals ts (fst (add_in_flight d w)) = keeps_finals ts w"
  "ledger_of_finals L (fst (add_in_flight d w)) = ledger_of_finals L w"
  "notices_match (fst (add_in_flight d w)) = notices_match w"
  by (simp_all add: keeps_finals_def ledger_of_finals_def notices_match_def add_in_flight_frame)

lemma begin_invariants:
  "keeps_finals ts w \<Longrightarrow> keeps_finals ts (fst (ingest_begin cfg m n w))"
  "ledger_of_finals L w \<Longrightarrow> ledger_of_finals L (fst (ingest_begin cfg m n w))"
  "notices_match w \<Longrightarrow> notices_match (fst (ingest_begin cfg m n w))"
  by (simp_all add: keeps_finals_def ledger_of_finals_def notices_match_def ingest_begin_frame)

lemma audio_end_invariants:
  "keeps_finals ts w \<Longrightarrow> keeps_finals ts (fst (ingest_audio_end cfg v x w))"
  "ledger_of_finals L w \<Longrightarrow> ledger_of_finals L (fst (ingest_audio_end cfg v x w))"
  "notices_match w \<Longrightarrow> notices_match (fst (ingest_audio_end cfg v x w))"
  using notices_degrade
  by (cases x; simp add: failed_end case_prod_unfold add_in_flight_invariants degrade_state
      keeps_finals_def [of ts "fst (degrade AUDIO _ _)"] ledger_of_finals_def [of L "fst (degrade AUDIO _ _)"]
      finals_audio.audio_answer recorded_audio.audio_answer notices_audio.audio_answer;
      simp add: keeps_finals_def ledger_of_finals_def)+

lemma video_end_invariants:
  "keeps_finals ts w \<Longrightarrow> keeps_finals ts (fst (ingest_video_end cfg v x w))"
  "ledger_of_finals L w \<Longrightarrow> ledger_of_finals L (fst (ingest_video_end cfg v x w))"
  "notices_match w \<Longrightarrow> notices_match (fst (ingest_video_end cfg v x w))"
  using notices_degrade
  by (cases x; simp add: failed_end case_prod_unfold add_in_flight_invariants degrade_state
      keeps_finals_def [of ts "fst (degrade VIDEO _ _)"] ledger_of_finals_def [of L "fst (degrade VIDEO _ _)"]
      finals_video.video_answer recorded_video.video_answer notices_video.video_answer;
      simp add: keeps_finals_def ledger_of_finals_def)+

section \<open>Properties of every interleaving\<close>

definition fresh_world :: "streaming_state \<Rightarrow> world" where
  "fresh_world st = \<lparr>w_state = st, w_ledger = EvidenceLedger (ss_run_id st), w_channel = [],
     w_counters = []\<rparr>"

definition new_world :: "run_id \<Rightarrow> session_id \<Rightarrow> world" where
  "new_world run session = fresh_world (StreamingState run session)"

lemma new_world_invariants:
  "ss_in_flight (w_state (new_world run session)) = 0"
  "notices_match (new_world run session)"
  "ledger_of_finals (EvidenceLedger run) (new_world run session)"
  by (simp_all add: new_world_def fresh_world_def StreamingState_def notices_match_def
      wf_transcript_def ledger_of_finals_def EvidenceLedger_def)

lemma flight_step:
  assumes "coord_step cfg (w, ps) (w', ps')"
    and "ss_in_flight (w_state w) = int (length ps)" and "int (length ps) \<le> cc_max_queue_depth cfg"
  shows "ss_in_flight (w_state w') = int (length ps') \<and> int (length ps') \<le> cc_max_queue_depth cfg"
  using assms(1)
proof (cases rule: coord_step.cases)
  case (chunk_admitted m n v)
  then show ?thesis
    using assms(2,3) by (cases rule: ingest_begin_cases [of cfg m n w]) auto
next
  case (chunk_stopped m n r)
  then show ?thesis
    using assms(2,3) by (cases rule: ingest_begin_cases [of cfg m n w]) auto
next
  case (audio_answered v outcome r)
  then have "ps \<noteq> []" by auto
  then show ?thesis
    using assms(2,3) audio_answered audio_end_in_flight [of cfg v outcome w]
    by (simp add: length_remove1 of_nat_diff Suc_leI)
next
  case (video_answered v outcome r)
  then have "ps \<noteq> []" by auto
  then show ?thesis
    using assms(2,3) video_answered video_end_in_flight [of cfg v outcome w]
    by (simp add: length_remove1 of_nat_diff Suc_leI)
qed

text \<open>
  C32: The queue is bounded and never leaks. Under any interleaving of arriving chunks, runtime
  answers, runtime failures, refusals and redeliveries, of both modalities, the number of windows
  in flight is exactly the number of admitted chunks still waiting for their runtime, and it never
  exceeds the configured depth.
\<close>

theorem queue_bounded:
  assumes "coord_reach cfg (new_world run session, []) (w, ps)" and "0 \<le> cc_max_queue_depth cfg"
  shows "ss_in_flight (w_state w) = int (length ps) \<and> int (length ps) \<le> cc_max_queue_depth cfg"
proof -
  have "ss_in_flight (w_state (fst s)) = int (length (snd s)) \<and>
      int (length (snd s)) \<le> cc_max_queue_depth cfg"
    if "coord_reach cfg (new_world run session, []) s" for s
    using that
  proof (induction rule: coord_reach.induct)
    case coord_refl
    then show ?case using assms(2) by (simp add: new_world_invariants)
  next
    case (coord_trans s s')
    then show ?case
      using flight_step [of cfg "fst s" "snd s" "fst s'" "snd s'"] by simp
  qed
  from this [OF assms(1)] show ?thesis by simp
qed

text \<open>
  One degradation notice per modality. Under any interleaving the channel carries exactly one
  \<open>processing.degraded\<close> message for every modality that has failed, however often it failed, and
  none for a modality that has not.
\<close>

theorem degradation_notified_once:
  assumes "coord_reach cfg (new_world run session, []) (w, ps)"
  shows "length (filter (degraded_notice m) (w_channel w)) =
    (if m \<in> set (ss_degraded_modalities (w_state w)) then 1 else 0)"
proof -
  have "notices_match (fst (w, ps))"
    by (rule coord_reach_invariant [OF assms])
      (simp_all add: new_world_invariants begin_invariants audio_end_invariants video_end_invariants)
  then show ?thesis
    by (simp add: notices_match_def)
qed

text \<open>
  C3: Streaming never rewrites finalized words. From any state with a well-formed transcript and
  under any interleaving, failures and exceptions included, every token that is final stays in the
  transcript unchanged, the transcript stays well formed and in canonical order, and its frontier
  does not move back.
\<close>

theorem streaming_keeps_final_tokens:
  assumes "coord_reach cfg (w, ps) (w', ps')" and "wf_transcript (ss_transcript (w_state w))"
  shows "mset (final_tokens (ss_transcript (w_state w))) \<subseteq>#
      mset (final_tokens (ss_transcript (w_state w'))) \<and>
    wf_transcript (ss_transcript (w_state w')) \<and>
    frontier_ms (ss_transcript (w_state w)) \<le> frontier_ms (ss_transcript (w_state w'))"
proof -
  let ?ts = "final_tokens (ss_transcript (w_state w))"
  have "keeps_finals ?ts (fst (w', ps'))"
    by (rule coord_reach_invariant [OF assms(1)])
      (use assms(2) in \<open>simp_all add: keeps_finals_def [of ?ts w] begin_invariants
        audio_end_invariants video_end_invariants\<close>)
  then have inv: "wf_transcript (ss_transcript (w_state w'))"
    "mset ?ts \<subseteq># mset (final_tokens (ss_transcript (w_state w')))"
    by (simp_all add: keeps_finals_def)
  then have "set ?ts \<subseteq> set (final_tokens (ss_transcript (w_state w')))"
    using set_mset_mono by fastforce
  with inv show ?thesis by (simp add: frontier_mono)
qed

text \<open>
  C4: What streaming records is final and stays. Under any interleaving from a new session, the
  ledger holds exactly one version of every event it knows, that version is final, and once recorded
  an event is still recorded with the same content later on.
\<close>

theorem streaming_ledger_final:
  assumes "coord_reach cfg (new_world run session, []) (w, ps)"
    and "coord_reach cfg (w, ps) (w', ps')"
  shows "(case map_of (el_history (w_ledger w)) k of
      None \<Rightarrow> True
    | Some vs \<Rightarrow> (\<exists>e. vs = [e] \<and> le_is_final e \<and> le_event_id e = k) \<and>
        map_of (el_history (w_ledger w')) k = Some vs)"
proof -
  have w: "ledger_of_finals (EvidenceLedger run) (fst (w, ps))"
    by (rule coord_reach_invariant [OF assms(1)])
      (simp_all add: new_world_invariants begin_invariants audio_end_invariants video_end_invariants)
  have "ledger_of_finals (w_ledger w) (fst (w', ps'))"
    by (rule coord_reach_invariant [OF assms(2)])
      (use w in \<open>simp_all add: ledger_of_finals_def [of _ w] begin_invariants
        audio_end_invariants video_end_invariants\<close>)
  then show ?thesis
    using w by (auto simp: ledger_of_finals_def map_le_def dom_def split: option.splits)
qed

text \<open>A run at which the theorems are instantiated: one audio chunk is admitted, then its runtime
  fails.\<close>

definition sample_cfg :: coordinator_config where
  "sample_cfg = \<lparr>cc_configuration = sample_configuration [], cc_speech_assembler = sample_assembler [],
     cc_visual_assembler = sample_assembler [], cc_max_queue_depth = 8\<rparr>"

definition sample_world :: world where
  "sample_world = new_world (RunId ''r'') (SessionId ''s'')"

definition sample_admitted :: world where
  "sample_admitted = fst (ingest_begin sample_cfg AUDIO 0 sample_world)"

definition sample_failed :: world where
  "sample_failed = fst (ingest_audio_end sample_cfg ACCEPTED (Inl ''TimeoutError'') sample_admitted)"

lemma sample_admission: "snd (ingest_begin sample_cfg AUDIO 0 sample_world) = Inr (Admitted ACCEPTED)"
  by (simp add: sample_world_def new_world_def fresh_world_def StreamingState_def ChunkLedger_def
      ingest_begin_def bindA_run offer_action_def zoomA_def offer_def drain_def accept_chunk_def
      drain_ahead.simps admit_def sample_cfg_def add_in_flight_def modify_state_def)

lemma sample_reach:
  "coord_reach sample_cfg (sample_world, []) (sample_admitted, [(AUDIO, ACCEPTED)])"
  "coord_reach sample_cfg (sample_admitted, [(AUDIO, ACCEPTED)]) (sample_failed, [])"
  "coord_reach sample_cfg (sample_world, []) (sample_failed, [])"
proof -
  have "ingest_begin sample_cfg AUDIO 0 sample_world = (sample_admitted, Inr (Admitted ACCEPTED))"
    by (simp add: sample_admitted_def prod_eq_iff sample_admission)
  from chunk_admitted [OF this, of "[]"]
  have one: "coord_step sample_cfg (sample_world, []) (sample_admitted, [(AUDIO, ACCEPTED)])"
    by simp
  have "ingest_audio_end sample_cfg ACCEPTED (Inl ''TimeoutError'') sample_admitted =
      (sample_failed, snd (ingest_audio_end sample_cfg ACCEPTED (Inl ''TimeoutError'') sample_admitted))"
    by (simp add: sample_failed_def)
  from audio_answered [OF _ this, of "[(AUDIO, ACCEPTED)]"]
  have two: "coord_step sample_cfg (sample_admitted, [(AUDIO, ACCEPTED)]) (sample_failed, [])"
    by simp
  show "coord_reach sample_cfg (sample_world, []) (sample_admitted, [(AUDIO, ACCEPTED)])"
    and "coord_reach sample_cfg (sample_admitted, [(AUDIO, ACCEPTED)]) (sample_failed, [])"
    and "coord_reach sample_cfg (sample_world, []) (sample_failed, [])"
    using one two by (blast intro: coord_refl coord_trans)+
qed

theorem queue_bounded_witness: "ss_in_flight (w_state sample_admitted) = 1"
  using queue_bounded [OF sample_reach(1) [unfolded sample_world_def]] by (simp add: sample_cfg_def)

theorem degradation_notified_once_witness:
  "length (filter (degraded_notice AUDIO) (w_channel sample_failed)) = 1 \<and>
   length (filter (degraded_notice VIDEO) (w_channel sample_failed)) = 0"
proof -
  have "set (ss_degraded_modalities (w_state sample_failed)) = {AUDIO}"
    by (simp add: sample_failed_def failed_end case_prod_unfold add_in_flight_frame degrade_state
        sample_admitted_def ingest_begin_frame sample_world_def new_world_def fresh_world_def
        StreamingState_def)
  then show ?thesis
    using degradation_notified_once [OF sample_reach(3) [unfolded sample_world_def]] by simp
qed

section \<open>Properties of single calls\<close>

text \<open>
  C31: Redelivery is idempotent, for audio chunks and for video batches. A chunk whose number was
  accepted before in its modality is answered with \<open>DUPLICATE\<close>, whatever the runtime would have said and
  however full the queue is: the runtime is not consulted, and nothing changes but the two counters of
  duplicates.
\<close>

theorem redelivery_idempotent:
  assumes "0 \<le> n"
    and "n \<in> set (accepted_chunks ((if m = AUDIO then ss_audio_chunks else ss_video_chunks) (w_state w)))"
  shows "if m = AUDIO
    then ingest_audio cfg transcribe n window w =
      (w\<lparr>w_state := (w_state w)\<lparr>ss_audio_chunks := (ss_audio_chunks (w_state w))
           \<lparr>duplicates := duplicates (ss_audio_chunks (w_state w)) + 1\<rparr>\<rparr>,
         w_counters := w_counters w @ [(''chunks.duplicate'', 1, ''audio'')]\<rparr>, Inr DUPLICATE)
    else ingest_video cfg observe n frames w =
      (w\<lparr>w_state := (w_state w)\<lparr>ss_video_chunks := (ss_video_chunks (w_state w))
           \<lparr>duplicates := duplicates (ss_video_chunks (w_state w)) + 1\<rparr>\<rparr>,
         w_counters := w_counters w @ [(''chunks.duplicate'', 1, ''video'')]\<rparr>, Inr DUPLICATE)"
  using assms
  by (cases m)
    (simp_all add: ingest_audio_def ingest_video_def ingest_begin_def bindA_run offer_action_def zoomA_def
      offer_def counter_def)

theorem redelivery_idempotent_witness:
  "snd (ingest_audio sample_cfg (\<lambda>_. Inl ''TimeoutError'') 0
     \<lparr>aw_session_position_ms = 0, aw_duration_ms = 20, aw_sample_rate_hz = 16000, aw_samples = [],
      aw_is_final_window = False\<rparr> sample_admitted) = Inr DUPLICATE \<and>
   snd (ingest_video sample_cfg (\<lambda>_. Inl ''TimeoutError'') 0 []
     (fst (ingest_begin sample_cfg VIDEO 0 sample_world))) = Inr DUPLICATE"
proof -
  have "0 \<in> set (accepted_chunks (ss_audio_chunks (w_state sample_admitted)))"
    "0 \<in> set (accepted_chunks (ss_video_chunks (w_state (fst (ingest_begin sample_cfg VIDEO 0 sample_world)))))"
    by (simp_all add: sample_admitted_def sample_world_def new_world_def fresh_world_def
        StreamingState_def ChunkLedger_def ingest_begin_def bindA_run offer_action_def zoomA_def
        offer_def drain_def accept_chunk_def drain_ahead.simps admit_def sample_cfg_def
        add_in_flight_def modify_state_def)
  then show ?thesis
    using redelivery_idempotent [where m = AUDIO] redelivery_idempotent [where m = VIDEO] by simp
qed

text \<open>
  Backpressure consumes the chunk it refuses. While the queue is full a new chunk is refused
  with \<open>BackpressureRequired\<close>, but its number has been recorded: when the client slows down and sends
  it again, with the queue empty, it is answered \<open>DUPLICATE\<close>, its audio never reaches the runtime,
  and the gaps confirmed at the end do not list it as missing.
\<close>

theorem backpressure_consumes_chunk:
  assumes "0 \<le> n" and "n \<notin> set (accepted_chunks (ss_audio_chunks (w_state w)))"
    and "cc_max_queue_depth cfg \<le> ss_in_flight (w_state w)"
  shows "let (w1, r1) = ingest_audio cfg transcribe n window w;
      drained = w1\<lparr>w_state := (w_state w1)\<lparr>ss_in_flight := 0\<rparr>\<rparr>;
      gaps = fst (finalize_ledger (ss_audio_chunks (w_state w1)))
    in r1 = Inl (ApplicationError (BackpressureRequired (ss_in_flight (w_state w)))) \<and>
       snd (ingest_audio cfg transcribe n window drained) = Inr DUPLICATE \<and>
       n \<notin> set (concat (map gap_numbers gaps))"
proof -
  have "\<exists>v l. offer c n = Inr (v, l) \<and> v \<noteq> DUPLICATE" if "n \<notin> set (accepted_chunks c)" for c
    using that assms(1)
    by (cases "n = highest_seen c + 1"; cases "n > highest_seen c + 1") (simp_all add: offer_def)
  then obtain v l where offer: "offer (ss_audio_chunks (w_state w)) n = Inr (v, l)" and v: "v \<noteq> DUPLICATE"
    using assms(2) by blast
  have acc: "n \<in> set (accepted_chunks l)"
    using offer assms(1,2)
    by (auto simp: offer_def Let_def drain_def accept_chunk_def split: if_splits prod.splits)
  let ?w1 = "w\<lparr>w_state := (w_state w)\<lparr>ss_audio_chunks := l\<rparr>,
      w_channel := w_channel w @ [RequestBackpressure (ss_session_id (w_state w)) (ss_in_flight (w_state w))],
      w_counters := w_counters w @ [(''backpressure.requested'', 1, [])]\<rparr>"
  have one: "ingest_audio cfg transcribe n window w =
      (?w1, Inl (ApplicationError (BackpressureRequired (ss_in_flight (w_state w)))))"
    using offer v assms(3)
    by (simp add: ingest_audio_def ingest_begin_def bindA_run offer_action_def zoomA_def admit_def
        request_backpressure_def counter_def)
  have two: "snd (ingest_audio cfg transcribe n window
      (?w1\<lparr>w_state := (w_state ?w1)\<lparr>ss_in_flight := 0\<rparr>\<rparr>)) = Inr DUPLICATE"
    using acc assms(1)
    by (simp add: ingest_audio_def ingest_begin_def bindA_run offer_action_def zoomA_def offer_def
        counter_def)
  have "n \<notin> set (concat (map gap_numbers (fst (finalize_ledger l))))"
    using acc by (simp add: finalize_ledger_def Let_def collapse_numbers del: set_concat set_map)
  then show ?thesis
    unfolding one Let_def prod.case using two by simp
qed

theorem backpressure_consumes_chunk_witness:
  "snd (ingest_audio sample_cfg (\<lambda>_. Inl ''TimeoutError'') 0
     \<lparr>aw_session_position_ms = 0, aw_duration_ms = 20, aw_sample_rate_hz = 16000, aw_samples = [],
      aw_is_final_window = False\<rparr>
     (sample_world\<lparr>w_state := (w_state sample_world)\<lparr>ss_in_flight := 8\<rparr>\<rparr>)) =
   Inl (ApplicationError (BackpressureRequired 8))"
  using backpressure_consumes_chunk [of 0 "sample_world\<lparr>w_state := (w_state sample_world)\<lparr>ss_in_flight := 8\<rparr>\<rparr>"
      sample_cfg "\<lambda>_. Inl ''TimeoutError''" "\<lparr>aw_session_position_ms = 0, aw_duration_ms = 20,
      aw_sample_rate_hz = 16000, aw_samples = [], aw_is_final_window = False\<rparr>"]
  by (simp add: sample_cfg_def sample_world_def new_world_def fresh_world_def StreamingState_def
      ChunkLedger_def Let_def case_prod_unfold)

text \<open>What the audio path owns.\<close>

definition speech_side ::
  "world \<Rightarrow> transcript \<times> (string \<times> speech_event) list \<times> prosody_reading list \<times> chunk_ledger \<times>
     json evidence_ledger" where
  "speech_side w = (ss_transcript (w_state w), ss_speech_events (w_state w), ss_prosody (w_state w),
     ss_audio_chunks (w_state w), w_ledger w)"

interpretation speech_side_video: video_invariant "\<lambda>w. speech_side w = x" for x
  by unfold_locales (simp_all add: speech_side_def)

lemma speech_side_degrade: "speech_side (fst (degrade m f w)) = speech_side w"
  by (simp add: speech_side_def degrade_state)

lemma speech_side_add_in_flight: "speech_side (fst (add_in_flight d w)) = speech_side w"
  by (simp add: speech_side_def add_in_flight_def modify_state_def)

lemma speech_side_begin: "speech_side (fst (ingest_begin cfg VIDEO n w)) = speech_side w"
  by (simp add: speech_side_def ingest_begin_def bindA_run offer_action_def zoomA_def admit_def
      add_in_flight_def modify_state_def request_backpressure_def counter_def
      split: sum.splits prod.splits)

lemma speech_side_video_end: "speech_side (fst (ingest_video_end cfg v x w)) = speech_side w"
proof (cases x)
  case (Inl f)
  then show ?thesis
    by (simp add: failed_end case_prod_unfold speech_side_add_in_flight speech_side_degrade)
next
  case (Inr r)
  then show ?thesis
    using speech_side_video.video_answer [of w "speech_side w" cfg v r]
    by (simp add: speech_side_add_in_flight)
qed

text \<open>
  A camera never touches speech. Ingesting video, whatever it returns or raises, leaves the
  transcript, the speech events, the prosody, the audio sequence and the evidence ledger as they
  were. When the vision runtime fails, the call does not fail with it: it answers with a verdict (or
  refuses the chunk before the runtime is asked), and no visual event and no quality record is made
  up.
\<close>

theorem video_leaves_speech_alone:
  assumes "wf_transcript (ss_transcript (w_state w))"
  shows "let (w', r) = ingest_video cfg observe n frames w
    in speech_side w' = speech_side w \<and>
       (case observe frames of
          Inl failure \<Rightarrow>
            r \<in> {Inr DUPLICATE, Inr ACCEPTED, Inl ValueError} \<union>
              range (\<lambda>d. Inl (ApplicationError (BackpressureRequired d))) \<and>
            ss_visual_events (w_state w') = ss_visual_events (w_state w) \<and>
            ss_quality (w_state w') = ss_quality (w_state w)
        | Inr _ \<Rightarrow> True)"
proof -
  let ?b = "ingest_begin cfg VIDEO n w"
  have r_begin: "snd ?b \<in> {Inr (Done DUPLICATE), Inl ValueError} \<union> range (\<lambda>v. Inr (Admitted v)) \<union>
      range (\<lambda>d. Inl (ApplicationError (BackpressureRequired d)))"
    by (auto simp: ingest_begin_def bindA_run offer_action_def zoomA_def offer_def Let_def admit_def
        add_in_flight_def modify_state_def request_backpressure_def counter_def)
  have stop: "ingest_video cfg observe n frames w = (fst ?b, bindR (snd ?b) (\<lambda>a. case a of
      Done v \<Rightarrow> Inr v | Admitted v \<Rightarrow> Inr v))" if "\<forall>v. snd ?b \<noteq> Inr (Admitted v)"
    using that by (auto simp: ingest_video_def bindA_run split: sum.splits admission.splits)
  have goes: "ingest_video cfg observe n frames w = ingest_video_end cfg v (observe frames) (fst ?b)"
    if "snd ?b = Inr (Admitted v)" for v
    using that by (simp add: ingest_video_def bindA_run)
  have fails: "snd (ingest_video_end cfg v (Inl f) (fst ?b)) = Inr ACCEPTED \<and>
      ss_visual_events (w_state (fst (ingest_video_end cfg v (Inl f) (fst ?b)))) = ss_visual_events (w_state w) \<and>
      ss_quality (w_state (fst (ingest_video_end cfg v (Inl f) (fst ?b)))) = ss_quality (w_state w)" for v f
    using degrade_channel(2) [of "fst ?b" VIDEO f] assms
    by (simp add: failed_end case_prod_unfold add_in_flight_def modify_state_def degrade_state
        ingest_begin_frame)
  show ?thesis
  proof (cases "\<exists>v. snd ?b = Inr (Admitted v)")
    case True
    then obtain v where v: "snd ?b = Inr (Admitted v)" by blast
    show ?thesis
      using fails [of v] speech_side_video_end [of cfg v "observe frames" "fst ?b"]
      by (auto simp: goes [OF v] Let_def case_prod_unfold speech_side_begin split: sum.splits)
  next
    case False
    with r_begin show ?thesis
      by (auto simp: stop Let_def case_prod_unfold speech_side_begin ingest_begin_frame
          split: sum.splits)
  qed
qed

theorem video_leaves_speech_alone_witness:
  "speech_side (fst (ingest_video sample_cfg (\<lambda>_. Inl ''TimeoutError'') 0 [] sample_admitted)) =
   speech_side sample_admitted"
proof -
  have "wf_transcript (ss_transcript (w_state sample_admitted))"
    by (simp add: sample_admitted_def ingest_begin_frame sample_world_def new_world_def fresh_world_def
        StreamingState_def wf_transcript_def)
  from video_leaves_speech_alone [OF this, of sample_cfg "\<lambda>_. Inl ''TimeoutError''" 0 "[]"] show ?thesis
    by (simp add: Let_def case_prod_unfold)
qed

section \<open>A finalized event that is detected again\<close>

text \<open>A runtime that reports one filled pause, stable through 1000 ms, and the states after two such
  answers that differ in the end of the pause.\<close>

definition pause_result :: "int \<Rightarrow> speech_result" where
  "pause_result fin = \<lparr>sr_model_version = ModelVersionId ''m'', sr_words = [],
     sr_events = [\<lparr>sh_type = FILLED_PAUSE, sh_start_ms = 0, sh_end_ms = fin, sh_score = 1/2,
       sh_raw_text = [], sh_context_role = None\<rparr>], sr_prosody = [], sr_stable_through_ms = 1000\<rparr>"

definition pause_event :: "int \<Rightarrow> bool \<Rightarrow> speech_event" where
  "pause_event fin final = \<lparr>se_id = EventId (''ev_'' @ take 32 (sha256_hexdigest
       (event_material (RunId ''r'') ''filled_pause'' 0 []))), se_type = FILLED_PAUSE,
     se_interval = \<lparr>iv_start = MkTime 0, iv_end = MkTime fin, iv_tolerance_ms = 250\<rparr>,
     se_confidence = MkConfidence (1/2) RAW,
     se_provenance = \<lparr>prov_modality = AUDIO, prov_model_version = ModelVersionId ''m'',
       prov_taxonomy_version = MkVersion 1 0 0, prov_configuration = ConfigurationSnapshotId ''c'',
       prov_evidence_ref = EvidenceRef ''audio:r''\<rparr>,
     se_raw_text = [], se_context_role = None, se_is_final = final\<rparr>"

lemma assemble_pause:
  assumes "0 \<le> fin"
  shows "assemble_speech (sample_assembler []) (pause_result fin) =
    Inr \<lparr>asp_tokens = [], asp_events = [pause_event fin False], asp_prosody = [], asp_stable_through_ms = 1000\<rparr>"
proof -
  have "interval_of 0 fin = Inr \<lparr>iv_start = MkTime 0, iv_end = MkTime fin, iv_tolerance_ms = 250\<rparr>"
    using assms by (simp add: interval_of_Inr)
  then show ?thesis
    by (simp add: assemble_speech_def pause_result_def speech_provenance_def make_provenance_def
      sample_assembler_def sample_configuration_def Identifier_def py_strip_Nil_iff py_isspace_def
      assemble_event_def derive_event_id_total calibrate_def confidence_raw_def clamp_unit_def
      SpeechEvent_def check_speech_event_cases wf_speech_event_def LEXICAL_CLASSES_def role_for_def
      pause_event_def)
qed

abbreviation pause_key :: string where
  "pause_key \<equiv> ''ev_'' @ take 32 (sha256_hexdigest (event_material (RunId ''r'') ''filled_pause'' 0 []))"

lemmas ingest_defs = ingest_audio_def ingest_begin_def ingest_audio_end_def bindA_run
  offer_action_def zoomA_def offer_def drain_def accept_chunk_def drain_ahead.simps admit_def
  add_in_flight_def modify_state_def extend_speech_def put_transcript_def with_provisional_def
  finalized_frontier_def max_default_def publish_speech_def publish_def put_speech_event_def
  coordinator_finalize_through_def read_frontier_def frontier_now_def finalize_through_def
  finalize_speech_item_def record_event_def ledger_action_def derive_pauses_def final_tokens_def
  publish_transcript_def

lemma pause_event_sel [simp]:
  "se_id (pause_event fin f) = EventId pause_key" "se_is_final (pause_event fin f) = f"
  "end_ms (se_interval (pause_event fin f)) = fin"
  by (simp_all add: pause_event_def)

lemma finalize_pause: "speech_finalize (pause_event fin False) = Inr (pause_event fin True)"
  by (simp add: pause_event_def speech_finalize_def SpeechEvent_def check_speech_event_cases wf_speech_event_def LEXICAL_CLASSES_def)

lemma sample_cfg_asm: "cc_speech_assembler sample_cfg = sample_assembler []"
  "cc_max_queue_depth sample_cfg = 8"
  by (simp_all add: sample_cfg_def)

definition pause_world :: "int \<Rightarrow> int list \<Rightarrow> (string \<times> speech_event) list \<Rightarrow> json evidence_ledger \<Rightarrow> channel_call list \<Rightarrow> world" where
  "pause_world h acc d l ch = \<lparr>w_state = (StreamingState (RunId ''r'') (SessionId ''s''))
     \<lparr>ss_audio_chunks := ChunkLedger\<lparr>highest_seen := h, accepted_chunks := acc\<rparr>, ss_speech_events := d\<rparr>,
     w_ledger = l, w_channel = ch, w_counters = []\<rparr>"

definition final_call :: "int \<Rightarrow> channel_call" where
  "final_call fin = Publish \<lparr>oe_type = SPEECH_EVENT_FINAL, oe_session_id = SessionId ''s'',
     oe_monotonic_time_ms = fin, oe_payload = [(''events'', JSeq [speech_payload (pause_event fin True)])]\<rparr>"

definition partial_call :: "int \<Rightarrow> channel_call" where
  "partial_call fin = Publish \<lparr>oe_type = SPEECH_EVENT_PARTIAL, oe_session_id = SessionId ''s'',
     oe_monotonic_time_ms = fin, oe_payload = [(''events'', JSeq [speech_payload (pause_event fin False)])]\<rparr>"


definition pause_ledger :: "json evidence_ledger" where
  "pause_ledger = \<lparr>el_run_id = RunId ''r'', el_history = [(EventId pause_key,
     [\<lparr>le_event_id = EventId pause_key, le_revision = 0, le_interval = se_interval (pause_event 500 True),
       le_provenance = se_provenance (pause_event 500 True), le_is_final = True,
       le_payload = [(''type'', JStr ''filled_pause''), (''raw_text'', JStr [])]\<rparr>])]\<rparr>"

lemma pause_event_more [simp]: "se_type (pause_event fin f) = FILLED_PAUSE" "se_raw_text (pause_event fin f) = []"
  by (simp_all add: pause_event_def)

lemma first_call: "ingest_audio sample_cfg (\<lambda>_. Inr (pause_result 500)) 0 win sample_world =
   (pause_world 0 [0] [(pause_key, pause_event 500 True)] pause_ledger [partial_call 500, final_call 500], Inr ACCEPTED)"
  by (simp add: pause_world_def ingest_defs sample_cfg_asm assemble_pause finalize_pause StreamingState_def ChunkLedger_def
    MonotonicTime_def ledger_contains_def ledger_append_def sample_world_def new_world_def fresh_world_def EvidenceLedger_def
    partial_call_def final_call_def pause_ledger_def payload_or_empty_def Let_def)

lemma second_call: "ingest_audio sample_cfg (\<lambda>_. Inr (pause_result 900)) 1 win 
   (pause_world 0 [0] [(pause_key, pause_event 500 True)] pause_ledger ch) = 
   (pause_world 1 [1,0] [(pause_key, pause_event 900 True)] pause_ledger (ch @ [partial_call 900, final_call 900]), Inr ACCEPTED)"
  by (simp add: pause_world_def ingest_defs sample_cfg_asm assemble_pause finalize_pause StreamingState_def ChunkLedger_def
    MonotonicTime_def ledger_contains_def ledger_finalize_def
    partial_call_def final_call_def pause_ledger_def payload_or_empty_def Let_def)

lemma final_call_published:
  assumes "final_call fin \<in> set cs"
  shows "\<exists>c. Publish c \<in> set cs \<and> oe_type c = SPEECH_EVENT_FINAL \<and>
    oe_payload c = [(''events'', JSeq [speech_payload (pause_event fin True)])]"
  using assms unfolding final_call_def by (intro exI conjI, assumption) simp_all

text \<open>Both calls are runs of the coordinator.\<close>

definition short_window :: audio_window where
  "short_window = \<lparr>aw_session_position_ms = 0, aw_duration_ms = 20, aw_sample_rate_hz = 16000, aw_samples = [],
     aw_is_final_window = False\<rparr>"

lemma ingest_audio_reach:
  assumes "snd (ingest_begin cfg AUDIO n w) = Inr (Admitted v)" and "ingest_audio cfg f n win w = (w', r)"
  shows "coord_reach cfg (w, []) (w', [])"
proof -
  obtain w1 where begun: "ingest_begin cfg AUDIO n w = (w1, Inr (Admitted v))"
    using assms(1) by (metis prod.collapse)
  then have "ingest_audio_end cfg v (f win) w1 = (w', r)"
    using assms(2) by (simp add: ingest_audio_def bindA_run)
  then have "coord_step cfg (w1, [(AUDIO, v)]) (w', [])"
    using audio_answered [of v "[(AUDIO, v)]"] by simp
  moreover have "coord_step cfg (w, []) (w1, [(AUDIO, v)])"
    using chunk_admitted [OF begun, of "[]"] by simp
  ultimately show ?thesis
    by (rule coord_trans [OF coord_trans [OF coord_refl], rotated])
qed

text \<open>A coordinator whose transcript holds a final word takes a chunk in.\<close>

definition spoken_world :: world where
  "spoken_world = sample_world\<lparr>w_state := (w_state sample_world)
     \<lparr>ss_transcript := transcript_build [sample_token ''hola'' 0 300 FINAL]\<rparr>\<rparr>"

lemma spoken_admission: "snd (ingest_begin sample_cfg AUDIO 0 spoken_world) = Inr (Admitted ACCEPTED)"
  by (simp add: spoken_world_def sample_world_def new_world_def fresh_world_def ingest_defs sample_cfg_asm
      StreamingState_def ChunkLedger_def)

theorem streaming_keeps_final_tokens_witness:
  "sample_token ''hola'' 0 300 FINAL \<in> set (final_tokens (ss_transcript (w_state
     (fst (ingest_audio sample_cfg (\<lambda>_. Inr (pause_result 500)) 0 short_window spoken_world)))))"
proof -
  let ?t = "sample_token ''hola'' 0 300 FINAL"
  have "coord_reach sample_cfg (spoken_world, [])
      (fst (ingest_audio sample_cfg (\<lambda>_. Inr (pause_result 500)) 0 short_window spoken_world), [])"
    by (rule ingest_audio_reach [OF spoken_admission]) (rule prod.collapse [symmetric])
  moreover have "wf_transcript (ss_transcript (w_state spoken_world))"
    unfolding spoken_world_def by (simp add: wf_transcript_build sample_token_wf)
  ultimately have "mset (final_tokens (ss_transcript (w_state spoken_world))) \<subseteq># mset (final_tokens (ss_transcript (w_state
      (fst (ingest_audio sample_cfg (\<lambda>_. Inr (pause_result 500)) 0 short_window spoken_world)))))"
    using streaming_keeps_final_tokens by blast
  moreover have "?t \<in> set (final_tokens (ss_transcript (w_state spoken_world)))"
    by (simp add: spoken_world_def final_tokens_def transcript_build_def token_is_final_def sample_token_def)
  ultimately show ?thesis by (meson mset_subset_eqD set_mset_mset in_multiset_in_set)
qed

abbreviation after_first :: world where
  "after_first \<equiv> pause_world 0 [0] [(pause_key, pause_event 500 True)] pause_ledger [partial_call 500, final_call 500]"

lemma second_admission: "snd (ingest_begin sample_cfg AUDIO 1 after_first) = Inr (Admitted ACCEPTED)"
  by (simp add: pause_world_def ingest_defs sample_cfg_asm StreamingState_def ChunkLedger_def)

theorem streaming_ledger_final_witness:
  "let w1 = fst (ingest_audio sample_cfg (\<lambda>_. Inr (pause_result 500)) 0 short_window sample_world);
       w2 = fst (ingest_audio sample_cfg (\<lambda>_. Inr (pause_result 900)) 1 short_window w1)
   in \<exists>e. map_of (el_history (w_ledger w1)) (EventId pause_key) = Some [e] \<and> le_is_final e \<and>
        map_of (el_history (w_ledger w2)) (EventId pause_key) = Some [e]"
proof -
  have "coord_reach sample_cfg (sample_world, []) (after_first, [])"
    by (rule ingest_audio_reach [OF sample_admission first_call])
  moreover have "coord_reach sample_cfg (after_first, [])
      (fst (ingest_audio sample_cfg (\<lambda>_. Inr (pause_result 900)) 1 short_window after_first), [])"
    by (rule ingest_audio_reach [OF second_admission]) (rule prod.collapse [symmetric])
  moreover have "map_of (el_history (w_ledger after_first)) (EventId pause_key) =
      Some [snd (hd (el_history pause_ledger)) ! 0]"
    by (simp add: pause_world_def pause_ledger_def)
  ultimately show ?thesis
    using streaming_ledger_final [of sample_cfg "RunId ''r''" "SessionId ''s''" after_first "[]"
        "fst (ingest_audio sample_cfg (\<lambda>_. Inr (pause_result 900)) 1 short_window after_first)" "[]" "EventId pause_key"]
    unfolding Let_def first_call fst_conv by (auto simp: sample_world_def)
qed

text \<open>
  A finalized speech event can be published again with different content. When the runtime
  detects the same pause again after it was finalized, now ending at 900 ms instead of 500 ms, the
  event derives the same identifier, replaces the final event in the state, is finalized a second
  time and published as final with the new end, while the ledger keeps the first version: what the
  client was told is final has changed, and the state and the ledger disagree.
\<close>

theorem finalized_event_republished:
  "let w1 = fst (ingest_audio sample_cfg (\<lambda>_. Inr (pause_result 500)) 0 win sample_world);
       w2 = fst (ingest_audio sample_cfg (\<lambda>_. Inr (pause_result 900)) 1 win w1)
   in \<exists>k e e'. ss_speech_events (w_state w1) = [(k, e)] \<and> ss_speech_events (w_state w2) = [(k, e')] \<and>
        se_is_final e \<and> se_is_final e' \<and> se_id e = se_id e' \<and>
        end_ms (se_interval e) = 500 \<and> end_ms (se_interval e') = 900 \<and>
        (\<exists>c. Publish c \<in> set (w_channel w2) \<and> oe_type c = SPEECH_EVENT_FINAL \<and>
           oe_payload c = [(''events'', JSeq [speech_payload e])]) \<and>
        (\<exists>c. Publish c \<in> set (w_channel w2) \<and> oe_type c = SPEECH_EVENT_FINAL \<and>
           oe_payload c = [(''events'', JSeq [speech_payload e'])]) \<and>
        map_sum id le_interval (ledger_current (w_ledger w2) (se_id e)) = Inr (se_interval e)"
  unfolding Let_def first_call second_call fst_conv
  by (rule exI [of _ pause_key], rule exI [of _ "pause_event 500 True"],
      rule exI [of _ "pause_event 900 True"], intro conjI final_call_published;
      simp add: pause_world_def pause_ledger_def ledger_current_def)

end
