(* ===== verification/Stores.thy ===== *)
theory Stores
  imports AppendOnly Session Document
begin

text \<open>
  The repositories of \<open>application/ports/repositories.py\<close> as \<open>adapters/outbound/persistence/in_memory.py\<close>
  implements them: sessions and idempotency keys, processing runs, evidence bundles and documents,
  and the audit log. A method that awaits nothing outside its own dictionaries runs without
  interruption, so each is one function on the state of its repository.

  Three interfaces: a store keyed by what identifies a record, a store whose tenants do not
  see each other, and the append-only contract of the audit log.
\<close>

section \<open>The entries of a dictionary\<close>

lemma entries_of_update:
  "distinct (map fst d) \<Longrightarrow>
   set (AList.update k v d) = insert (k, v) {p \<in> set d. fst p \<noteq> k}"
proof (induction d)
  case (Cons p d)
  then show ?case by (cases p) (auto simp: image_iff)
qed simp

section \<open>Interfaces\<close>

text \<open>Reading back what was written, under one key; other keys are untouched.\<close>

locale keyed_store =
  fixes lookup :: "'s \<Rightarrow> 'k \<Rightarrow> 'v option"
    and put :: "'s \<Rightarrow> 'v \<Rightarrow> 's"
    and key :: "'v \<Rightarrow> 'k"
  assumes lookup_put: "lookup (put s v) k = (if k = key v then Some v else lookup s k)"
begin

lemma lookup_own [simp]: "lookup (put s v) (key v) = Some v"
  by (simp add: lookup_put)

lemma lookup_after_puts:
  "lookup (foldl put s vs) k =
     (case filter (\<lambda>v. key v = k) (rev vs) of [] \<Rightarrow> lookup s k | v # _ \<Rightarrow> Some v)"
  by (induction vs rule: rev_induct) (auto simp: lookup_put)

lemma put_foreign:
  assumes "\<And>v. v \<in> set vs \<Longrightarrow> key v \<noteq> k"
  shows "lookup (foldl put s vs) k = lookup s k"
proof -
  have "filter (\<lambda>v. key v = k) (rev vs) = []"
    using assms by (auto simp: filter_empty_conv)
  then show ?thesis by (simp add: lookup_after_puts)
qed

end

text \<open>Tenants do not see each other (NFR-013): what a tenant can read depends on nothing but the
  operations made in its own name.\<close>

locale tenant_isolation =
  fixes view :: "'t \<Rightarrow> 's \<Rightarrow> 'v"
    and step :: "'s \<Rightarrow> 'o \<Rightarrow> 's"
    and tenant_of :: "'o \<Rightarrow> 't"
  assumes foreign_step: "tenant_of oper \<noteq> t \<Longrightarrow> view t (step s oper) = view t s"
    and own_step: "view t s = view t s' \<Longrightarrow> tenant_of oper = t \<Longrightarrow>
      view t (step s oper) = view t (step s' oper)"
begin

lemma noninterference:
  assumes "view t s = view t s'"
  shows "view t (foldl step s ops) = view t (foldl step s' (filter (\<lambda>oper. tenant_of oper = t) ops))"
  using assms
proof (induction ops arbitrary: s s')
  case (Cons oper ops)
  show ?case
  proof (cases "tenant_of oper = t")
    case True
    with Cons.IH [OF own_step [OF Cons.prems True]] show ?thesis by simp
  next
    case False
    with Cons.IH [of "step s oper" s'] foreign_step [OF False, of s] Cons.prems show ?thesis by simp
  qed
qed simp

lemma foreign_run:
  assumes "\<And>oper. oper \<in> set ops \<Longrightarrow> tenant_of oper \<noteq> t"
  shows "view t (foldl step s ops) = view t s"
proof -
  have "filter (\<lambda>oper. tenant_of oper = t) ops = []"
    using assms by (auto simp: filter_empty_conv)
  then show ?thesis using noninterference [of t s s ops] by simp
qed

end

section \<open>Values\<close>

datatype run_state = RUN_PENDING | RUN_RUNNING | RUN_COMPLETED | RUN_FAILED

record processing_run =
  pr_id :: run_id
  pr_session_id :: session_id
  pr_pipeline_version :: semantic_version
  pr_state :: run_state
  pr_started_at_ms :: int
  pr_completed_at_ms :: "int option"
  pr_completed_stages :: "string list"

record evidence_bundle =
  eb_run_id :: run_id
  eb_session_id :: session_id
  eb_tenant :: tenant_id
  eb_transcript :: transcript
  eb_quality :: quality_report
  eb_speech_events :: "speech_event list"
  eb_visual_events :: "visual_event list"
  eb_prosody :: "prosody_reading list"
  eb_cooccurrences :: "multimodal_cooccurrence list"

record audit_record =
  au_actor :: string
  au_action :: string
  au_resource :: string
  au_timestamp_ms :: int
  au_trace_id :: string
  au_outcome :: string
  au_tenant :: "tenant_id option"
  au_detail :: string

section \<open>Sessions\<close>

type_synonym tenant_key = "string \<times> string"

record session_repository =
  sp_sessions :: "(tenant_key \<times> analysis_session) list"
  sp_idempotency :: "(tenant_key \<times> session_id) list"

definition empty_sessions :: session_repository where
  "empty_sessions = \<lparr>sp_sessions = [], sp_idempotency = []\<rparr>"

definition session_key :: "analysis_session \<Rightarrow> tenant_key" where
  "session_key s = (tenant_id_value (as_tenant_id s), session_id_value (as_id s))"

definition sessions_add :: "session_repository \<Rightarrow> analysis_session \<Rightarrow> session_repository" where
  "sessions_add r s = r\<lparr>sp_sessions := AList.update (session_key s) s (sp_sessions r)\<rparr>"

definition sessions_get :: "session_repository \<Rightarrow> tenant_id \<Rightarrow> session_id \<Rightarrow> analysis_session option" where
  "sessions_get r tenant i = map_of (sp_sessions r) (tenant_id_value tenant, session_id_value i)"

definition sessions_save :: "session_repository \<Rightarrow> analysis_session \<Rightarrow> session_repository" where
  "sessions_save r s = r\<lparr>sp_sessions := AList.update (session_key s) s (sp_sessions r)\<rparr>"

definition find_by_idempotency_key ::
  "session_repository \<Rightarrow> application_id \<Rightarrow> string \<Rightarrow> analysis_session option" where
  "find_by_idempotency_key r app key =
     (case map_of (sp_idempotency r) (application_id_value app, key) of
        None \<Rightarrow> None
      | Some i \<Rightarrow> find (\<lambda>s. as_id s = i \<and> as_application_id s = app) (map snd (sp_sessions r)))"

definition claim_idempotency_key ::
  "session_repository \<Rightarrow> application_id \<Rightarrow> string \<Rightarrow> session_id \<Rightarrow> bool \<times> session_repository" where
  "claim_idempotency_key r app key i =
     (let composite = (application_id_value app, key) in
      if map_of (sp_idempotency r) composite \<noteq> None then (False, r)
      else (True, r\<lparr>sp_idempotency := AList.update composite i (sp_idempotency r)\<rparr>))"

section \<open>Runs\<close>

record run_repository =
  rp_runs :: "(string \<times> processing_run) list"

definition empty_runs :: run_repository where
  "empty_runs = \<lparr>rp_runs = []\<rparr>"

definition runs_add :: "run_repository \<Rightarrow> processing_run \<Rightarrow> run_repository" where
  "runs_add r run = r\<lparr>rp_runs := AList.update (run_id_value (pr_id run)) run (rp_runs r)\<rparr>"

definition runs_get :: "run_repository \<Rightarrow> run_id \<Rightarrow> processing_run option" where
  "runs_get r i = map_of (rp_runs r) (run_id_value i)"

definition runs_save :: "run_repository \<Rightarrow> processing_run \<Rightarrow> run_repository" where
  "runs_save r run = r\<lparr>rp_runs := AList.update (run_id_value (pr_id run)) run (rp_runs r)\<rparr>"

text \<open>\<open>max(xs, key=f)\<close>: the first of the elements with the greatest key.\<close>

fun max_by :: "('a \<Rightarrow> int) \<Rightarrow> 'a \<Rightarrow> 'a list \<Rightarrow> 'a" where
  "max_by f best [] = best"
| "max_by f best (x # xs) = max_by f (if f best < f x then x else best) xs"

definition latest_for_session :: "run_repository \<Rightarrow> session_id \<Rightarrow> processing_run option" where
  "latest_for_session r i =
     (case filter (\<lambda>run. pr_session_id run = i) (map snd (rp_runs r)) of
        [] \<Rightarrow> None
      | run # runs \<Rightarrow> Some (max_by pr_started_at_ms run runs))"

section \<open>Evidence\<close>

record evidence_repository =
  ep_bundles :: "(tenant_key \<times> evidence_bundle) list"
  ep_documents :: "(tenant_key \<times> evidence_document) list"

definition empty_evidence :: evidence_repository where
  "empty_evidence = \<lparr>ep_bundles = [], ep_documents = []\<rparr>"

definition evidence_store :: "evidence_repository \<Rightarrow> evidence_bundle \<Rightarrow> evidence_repository" where
  "evidence_store r b = r\<lparr>ep_bundles :=
     AList.update (tenant_id_value (eb_tenant b), run_id_value (eb_run_id b)) b (ep_bundles r)\<rparr>"

definition evidence_load :: "evidence_repository \<Rightarrow> tenant_id \<Rightarrow> run_id \<Rightarrow> evidence_bundle option" where
  "evidence_load r tenant run = map_of (ep_bundles r) (tenant_id_value tenant, run_id_value run)"

definition load_document :: "evidence_repository \<Rightarrow> tenant_id \<Rightarrow> session_id \<Rightarrow> evidence_document option" where
  "load_document r tenant i = map_of (ep_documents r) (tenant_id_value tenant, session_id_value i)"

definition store_document ::
  "evidence_repository \<Rightarrow> evidence_document \<times> tenant_id \<Rightarrow> evidence_repository" where
  "store_document r dt = (case dt of (document, tenant) \<Rightarrow> r\<lparr>ep_documents :=
     AList.update (tenant_id_value tenant, session_id_value (ed_session_id document)) document
       (ep_documents r)\<rparr>)"

definition bundle_of_session :: "tenant_id \<Rightarrow> session_id \<Rightarrow> tenant_key \<times> evidence_bundle \<Rightarrow> bool" where
  "bundle_of_session tenant i kb \<longleftrightarrow>
     fst (fst kb) = tenant_id_value tenant \<and> eb_session_id (snd kb) = i"

definition evidence_delete_for_session ::
  "evidence_repository \<Rightarrow> tenant_id \<Rightarrow> session_id \<Rightarrow> int \<times> evidence_repository" where
  "evidence_delete_for_session r tenant i =
     (let keys = filter (bundle_of_session tenant i) (ep_bundles r);
          r' = r\<lparr>ep_bundles := filter (\<lambda>kb. \<not> bundle_of_session tenant i kb) (ep_bundles r)\<rparr>;
          removed = int (length keys);
          dkey = (tenant_id_value tenant, session_id_value i)
      in if map_of (ep_documents r) dkey \<noteq> None
         then (removed + 1, r'\<lparr>ep_documents := AList.delete dkey (ep_documents r)\<rparr>)
         else (removed, r'))"

section \<open>The audit log\<close>

definition audit_append :: "audit_record list \<Rightarrow> audit_record \<Rightarrow> audit_record list" where
  "audit_append entries e = entries @ [e]"

text \<open>The slice \<open>xs[i:]\<close>, for either sign of \<open>i\<close>.\<close>

definition slice_from :: "'a list \<Rightarrow> int \<Rightarrow> 'a list" where
  "slice_from xs i = (if 0 \<le> i then drop (nat i) xs else drop (length xs - nat (- i)) xs)"

definition for_resource :: "audit_record list \<Rightarrow> string \<Rightarrow> int \<Rightarrow> audit_record list" where
  "for_resource entries resource limit =
     (let matching = filter (\<lambda>e. au_resource e = resource) entries
      in slice_from matching (- limit))"

section \<open>Laws\<close>

lemma tenant_key_eq:
  "(tenant_id_value t, session_id_value i) = session_key s \<longleftrightarrow> as_tenant_id s = t \<and> as_id s = i"
  by (cases t; cases i; cases "as_tenant_id s"; cases "as_id s") (auto simp: session_key_def)

lemma sessions_add_save: "sessions_add = sessions_save"
  by (rule ext)+ (simp add: sessions_add_def sessions_save_def)

lemma sessions_get_save:
  "sessions_get (sessions_save r s) t i =
     (if as_tenant_id s = t \<and> as_id s = i then Some s else sessions_get r t i)"
  using tenant_key_eq [of t i s] by (simp add: sessions_get_def sessions_save_def)

interpretation sessions: keyed_store "\<lambda>r (t, i). sessions_get r t i" sessions_save
    "\<lambda>s. (as_tenant_id s, as_id s)"
  by unfold_locales (auto simp: sessions_get_save split: if_split_asm)

lemma runs_get_save: "runs_get (runs_save r run) i = (if i = pr_id run then Some run else runs_get r i)"
  by (cases i; cases "pr_id run") (simp add: runs_get_def runs_save_def)

interpretation runs: keyed_store runs_get runs_save pr_id
  by unfold_locales (rule runs_get_save)

lemma evidence_load_store:
  "evidence_load (evidence_store r b) t run =
     (if t = eb_tenant b \<and> run = eb_run_id b then Some b else evidence_load r t run)"
  by (cases t; cases run; cases "eb_tenant b"; cases "eb_run_id b")
    (simp add: evidence_load_def evidence_store_def)

interpretation bundles: keyed_store "\<lambda>r (t, run). evidence_load r t run" evidence_store
    "\<lambda>b. (eb_tenant b, eb_run_id b)"
  by unfold_locales (auto simp: evidence_load_store split: if_split_asm)

lemma load_document_store:
  "load_document (store_document r (d, t)) t' i =
     (if t' = t \<and> i = ed_session_id d then Some d else load_document r t' i)"
  by (cases t; cases t'; cases i; cases "ed_session_id d")
    (auto simp: load_document_def store_document_def)

lemma load_document_bundles [simp]:
  "load_document (evidence_store r b) = load_document r"
  "evidence_load (store_document r dt) = evidence_load r"
  by (intro ext; simp add: load_document_def evidence_store_def evidence_load_def store_document_def
      split: prod.splits)+

interpretation audit: append_only "\<lambda>entries resource. filter (\<lambda>e. au_resource e = resource) entries"
    audit_append "\<lambda>_. True"
  by unfold_locales (simp_all add: audit_append_def)

text \<open>Reading the trail of a resource: with a positive limit the most recent entries, with limit 0
  everything (the slice \<open>[-0:]\<close>).\<close>

lemma for_resource_latest:
  assumes "0 < limit"
  shows "suffix (for_resource es res limit) (filter (\<lambda>e. au_resource e = res) es)"
    and "length (for_resource es res limit) =
      min (nat limit) (length (filter (\<lambda>e. au_resource e = res) es))"
  using assms by (auto simp: for_resource_def slice_from_def suffix_drop Let_def)

lemma for_resource_zero: "for_resource es res 0 = filter (\<lambda>e. au_resource e = res) es"
  by (simp add: for_resource_def slice_from_def)

lemma max_by_greatest: "max_by f b xs \<in> set (b # xs) \<and> (\<forall>x \<in> set (b # xs). f x \<le> f (max_by f b xs))"
proof (induction xs arbitrary: b)
  case (Cons x xs)
  show ?case using Cons.IH [of x] Cons.IH [of b] by (cases "f b < f x") auto
qed simp

lemma latest_for_session_latest:
  assumes "latest_for_session r i = Some run"
  shows "run \<in> snd ` set (rp_runs r)" "pr_session_id run = i"
    and "\<And>other. other \<in> snd ` set (rp_runs r) \<Longrightarrow> pr_session_id other = i \<Longrightarrow>
      pr_started_at_ms other \<le> pr_started_at_ms run"
proof -
  from assms obtain x xs where l: "filter (\<lambda>run. pr_session_id run = i) (map snd (rp_runs r)) = x # xs"
    and m: "run = max_by pr_started_at_ms x xs"
    by (auto simp: latest_for_session_def split: list.splits)
  have s: "set (x # xs) = {run \<in> snd ` set (rp_runs r). pr_session_id run = i}"
    unfolding l [symmetric] by auto
  show "run \<in> snd ` set (rp_runs r)" "pr_session_id run = i"
    using max_by_greatest [of pr_started_at_ms x xs] s unfolding m by blast+
  show "pr_started_at_ms other \<le> pr_started_at_ms run"
    if "other \<in> snd ` set (rp_runs r)" "pr_session_id other = i" for other
    using max_by_greatest [of pr_started_at_ms x xs] s that unfolding m by blast
qed

section \<open>Tenants\<close>

text \<open>The entries of one tenant in a dictionary whose keys start with the tenant.\<close>

definition tenant_part :: "tenant_id \<Rightarrow> (tenant_key \<times> 'v) list \<Rightarrow> (tenant_key \<times> 'v) list" where
  "tenant_part t d = filter (\<lambda>kv. fst (fst kv) = tenant_id_value t) d"

lemma tenant_part_update:
  "tenant_part t (AList.update k v d) =
     (if fst k = tenant_id_value t then AList.update k v (tenant_part t d) else tenant_part t d)"
  unfolding tenant_part_def by (induction d) auto

lemma tenant_part_delete:
  "tenant_part t (AList.delete k d) =
     (if fst k = tenant_id_value t then AList.delete k (tenant_part t d) else tenant_part t d)"
  unfolding tenant_part_def AList.delete_eq by (induction d) (auto split: if_splits)

lemma tenant_part_filter: "tenant_part t (filter P d) = filter P (tenant_part t d)"
  by (simp add: tenant_part_def conj_commute)

lemma map_of_tenant_part: "map_of (tenant_part t d) (tenant_id_value t, i) = map_of d (tenant_id_value t, i)"
  unfolding tenant_part_def by (induction d) auto

lemma map_of_tenant_cong:
  "tenant_part t d = tenant_part t d' \<Longrightarrow>
   map_of d (tenant_id_value t, i) = map_of d' (tenant_id_value t, i)"
  by (metis map_of_tenant_part)

datatype evidence_op =
    StoreBundle evidence_bundle
  | StoreDocument evidence_document tenant_id
  | DeleteForSession tenant_id session_id

fun do_evidence_op :: "evidence_repository \<Rightarrow> evidence_op \<Rightarrow> evidence_repository" where
  "do_evidence_op r (StoreBundle b) = evidence_store r b"
| "do_evidence_op r (StoreDocument d t) = store_document r (d, t)"
| "do_evidence_op r (DeleteForSession t i) = snd (evidence_delete_for_session r t i)"

fun evidence_op_tenant :: "evidence_op \<Rightarrow> tenant_id" where
  "evidence_op_tenant (StoreBundle b) = eb_tenant b"
| "evidence_op_tenant (StoreDocument d t) = t"
| "evidence_op_tenant (DeleteForSession t i) = t"

definition evidence_view ::
  "tenant_id \<Rightarrow> evidence_repository \<Rightarrow> (tenant_key \<times> evidence_bundle) list \<times> (tenant_key \<times> evidence_document) list"
where
  "evidence_view t r = (tenant_part t (ep_bundles r), tenant_part t (ep_documents r))"

lemma filter_foreign_bundles:
  "t' \<noteq> t \<Longrightarrow> filter (\<lambda>kb. \<not> bundle_of_session t' i kb) (tenant_part t d) = tenant_part t d"
  by (cases t; cases t') (auto simp: tenant_part_def bundle_of_session_def intro!: filter_cong)

lemma evidence_view_delete:
  "evidence_view t (snd (evidence_delete_for_session r t' i)) =
     (if t' = t then
        (filter (\<lambda>kb. \<not> bundle_of_session t i kb) (tenant_part t (ep_bundles r)),
         AList.delete (tenant_id_value t, session_id_value i) (tenant_part t (ep_documents r)))
      else evidence_view t r)"
proof -
  have none: "AList.delete k d = d" if "map_of d k = None" for k and d :: "(tenant_key \<times> evidence_document) list"
    using that by (simp add: map_of_eq_None_iff AList.delete_eq filter_id_conv image_iff case_prod_unfold)
  have "AList.delete (tenant_id_value t, k) (tenant_part t d) = tenant_part t d"
    if "map_of d (tenant_id_value t, k) = None" for k and d :: "(tenant_key \<times> evidence_document) list"
    using that by (intro none) (simp add: map_of_tenant_part)
  then show ?thesis
    by (cases "t' = t") (auto simp: evidence_view_def evidence_delete_for_session_def Let_def
        tenant_part_filter tenant_part_delete filter_foreign_bundles tenant_id.expand)
qed

lemma evidence_view_store:
  "evidence_view t (evidence_store r b) =
     (if eb_tenant b = t
      then (AList.update (tenant_id_value t, run_id_value (eb_run_id b)) b (tenant_part t (ep_bundles r)),
            tenant_part t (ep_documents r))
      else evidence_view t r)"
  by (cases t; cases "eb_tenant b") (simp add: evidence_view_def evidence_store_def tenant_part_update)

lemma evidence_view_store_document:
  "evidence_view t (store_document r (d, t')) =
     (if t' = t
      then (tenant_part t (ep_bundles r),
            AList.update (tenant_id_value t, session_id_value (ed_session_id d)) d
              (tenant_part t (ep_documents r)))
      else evidence_view t r)"
  by (cases t; cases t') (simp add: evidence_view_def store_document_def tenant_part_update)

lemmas evidence_view_ops = evidence_view_delete evidence_view_store evidence_view_store_document

interpretation evidence: tenant_isolation evidence_view do_evidence_op evidence_op_tenant
proof (unfold_locales, goal_cases)
  case (1 oper t s)
  then show ?case by (cases oper) (simp_all add: evidence_view_ops)
next
  case (2 t s s' oper)
  then show ?case by (cases oper) (simp_all add: evidence_view_ops, simp_all add: evidence_view_def)
qed

interpretation session_tenants: tenant_isolation "\<lambda>t r. tenant_part t (sp_sessions r)" sessions_save as_tenant_id
proof (unfold_locales, goal_cases)
  case (1 oper t s)
  then show ?case
    by (cases t; cases "as_tenant_id oper") (auto simp: sessions_save_def session_key_def tenant_part_update)
next
  case (2 t s s' oper)
  then show ?case by (simp add: sessions_save_def session_key_def tenant_part_update)
qed

text \<open>
  Tenants do not see each other's evidence (NFR-013). After any sequence of stores and deletions
  by any tenants, the bundles and documents a tenant can load are the ones it would load if only its
  own operations had been made.
\<close>

theorem evidence_tenants_isolated:
  "(let all = foldl do_evidence_op r ops;
        own = foldl do_evidence_op r (filter (\<lambda>oper. evidence_op_tenant oper = t) ops)
    in evidence_load all t run = evidence_load own t run \<and> load_document all t i = load_document own t i)"
  using evidence.noninterference [OF refl, of t r ops]
  by (simp add: Let_def evidence_view_def evidence_load_def load_document_def)
    (intro conjI map_of_tenant_cong; simp)

text \<open>After a deletion nothing of the session is left for its tenant.\<close>

lemma evidence_deleted:
  assumes "evidence_delete_for_session r t i = (n, r')"
  shows "load_document r' t i = None"
    and "\<And>run b. evidence_load r' t run = Some b \<Longrightarrow> eb_session_id b \<noteq> i"
    and "n = int (length (filter (bundle_of_session t i) (ep_bundles r))) +
      (if load_document r t i = None then 0 else 1)"
proof -
  from assms show "load_document r' t i = None"
    by (auto simp: evidence_delete_for_session_def load_document_def Let_def delete_conv' split: if_splits)
  from assms have b: "ep_bundles r' = filter (\<lambda>kb. \<not> bundle_of_session t i kb) (ep_bundles r)"
    by (auto simp: evidence_delete_for_session_def Let_def split: if_splits)
  show "eb_session_id x \<noteq> i" if "evidence_load r' t run = Some x" for run x
    using map_of_SomeD [OF that [unfolded evidence_load_def b]] by (auto simp: bundle_of_session_def)
  from assms show "n = int (length (filter (bundle_of_session t i) (ep_bundles r))) +
      (if load_document r t i = None then 0 else 1)"
    by (auto simp: evidence_delete_for_session_def load_document_def Let_def split: if_splits)
qed

end
