(* ===== verification/Cache.thy ===== *)
theory Cache
  imports Ports Sequencing
begin

text \<open>
  \<open>adapters/outbound/cache/in_memory.py\<close>: the ephemeral state of a stream with its processing lease,
  and the fixed-window quotas. The clock's answer (\<open>epoch_ms\<close>) is an argument of each operation, one
  per reading where an operation reads it twice.
\<close>

section \<open>Stream state and leases\<close>

record stream_snapshot =
  sn_session_id :: session_id
  sn_highest_audio_seq :: int
  sn_highest_video_seq :: int
  sn_finalized_through_ms :: int
  sn_queue_depth :: int
  sn_gaps :: "sequence_gap list"

record stream_state =
  st_snapshots :: "(string \<times> stream_snapshot \<times> int) list"
  st_leases :: "(string \<times> int) list"

definition empty_stream_state :: stream_state where
  "empty_stream_state = \<lparr>st_snapshots = [], st_leases = []\<rparr>"

definition stream_load ::
  "int \<Rightarrow> stream_state \<Rightarrow> session_id \<Rightarrow> stream_snapshot option \<times> stream_state" where
  "stream_load now s i =
     (case map_of (st_snapshots s) (session_id_value i) of
        None \<Rightarrow> (None, s)
      | Some (snapshot, expires_at) \<Rightarrow>
          if expires_at \<le> now
          then (None, s\<lparr>st_snapshots := AList.delete (session_id_value i) (st_snapshots s)\<rparr>)
          else (Some snapshot, s))"

definition stream_save :: "int \<Rightarrow> stream_state \<Rightarrow> stream_snapshot \<Rightarrow> int \<Rightarrow> stream_state" where
  "stream_save now s snapshot ttl_seconds = s\<lparr>st_snapshots :=
     AList.update (session_id_value (sn_session_id snapshot)) (snapshot, now + ttl_seconds * 1000)
       (st_snapshots s)\<rparr>"

definition stream_clear :: "stream_state \<Rightarrow> session_id \<Rightarrow> stream_state" where
  "stream_clear s i = s\<lparr>st_snapshots := AList.delete (session_id_value i) (st_snapshots s),
     st_leases := AList.delete (session_id_value i) (st_leases s)\<rparr>"

definition acquire_lease :: "int \<Rightarrow> stream_state \<Rightarrow> session_id \<Rightarrow> int \<Rightarrow> bool \<times> stream_state" where
  "acquire_lease now s i ttl_seconds =
     (if (case map_of (st_leases s) (session_id_value i) of
            None \<Rightarrow> False | Some held_until \<Rightarrow> now < held_until)
      then (False, s)
      else (True, s\<lparr>st_leases :=
              AList.update (session_id_value i) (now + ttl_seconds * 1000) (st_leases s)\<rparr>))"

definition release_lease :: "stream_state \<Rightarrow> session_id \<Rightarrow> stream_state" where
  "release_lease s i = s\<lparr>st_leases := AList.delete (session_id_value i) (st_leases s)\<rparr>"

text \<open>The calls of several handlers, in the order the event loop runs them, each with the time of the
  call.\<close>

datatype stream_op =
    Load session_id
  | Save stream_snapshot int
  | Clear session_id
  | Acquire session_id int
  | Release session_id

fun do_stream_op :: "stream_state \<Rightarrow> int \<times> stream_op \<Rightarrow> stream_state" where
  "do_stream_op s (now, Load i) = snd (stream_load now s i)"
| "do_stream_op s (now, Save sn ttl) = stream_save now s sn ttl"
| "do_stream_op s (now, Clear i) = stream_clear s i"
| "do_stream_op s (now, Acquire i ttl) = snd (acquire_lease now s i ttl)"
| "do_stream_op s (now, Release i) = release_lease s i"

text \<open>Who holds the lease: the deadline recorded for the session.\<close>

definition lease_until :: "stream_state \<Rightarrow> session_id \<Rightarrow> int option" where
  "lease_until s i = map_of (st_leases s) (session_id_value i)"

lemma session_value_eq [simp]: "session_id_value i = session_id_value j \<longleftrightarrow> i = j"
  by (cases i; cases j) simp

lemma acquire_lease_iff:
  "fst (acquire_lease now s i ttl) \<longleftrightarrow>
     (case lease_until s i of None \<Rightarrow> True | Some held_until \<Rightarrow> held_until \<le> now)"
  by (auto simp: acquire_lease_def lease_until_def split: option.splits)

lemma lease_until_ops:
  "lease_until (do_stream_op s (now, oper)) i =
     (case oper of
        Clear j \<Rightarrow> if j = i then None else lease_until s i
      | Release j \<Rightarrow> if j = i then None else lease_until s i
      | Acquire j ttl \<Rightarrow>
          if j = i \<and> fst (acquire_lease now s j ttl) then Some (now + ttl * 1000) else lease_until s i
      | _ \<Rightarrow> lease_until s i)"
  by (cases oper)
    (auto simp: lease_until_def stream_load_def stream_save_def stream_clear_def release_lease_def
       acquire_lease_def delete_conv' split: option.splits prod.splits)

definition keeps_lease :: "session_id \<Rightarrow> int \<Rightarrow> int \<times> stream_op \<Rightarrow> bool" where
  "keeps_lease i deadline x \<longleftrightarrow>
     fst x < deadline \<and> snd x \<noteq> Clear i \<and> snd x \<noteq> Release i"

lemma lease_kept:
  assumes "lease_until s i = Some deadline" and "list_all (keeps_lease i deadline) ops"
  shows "lease_until (foldl do_stream_op s ops) i = Some deadline"
  using assms
proof (induction ops arbitrary: s)
  case (Cons x ops)
  obtain now oper where x: "x = (now, oper)" by (cases x)
  with Cons.prems have "lease_until (do_stream_op s x) i = Some deadline"
    by (auto simp: lease_until_ops keeps_lease_def acquire_lease_iff split: stream_op.splits)
  with Cons show ?case by simp
qed simp

text \<open>
  C33: One handler per session. Once a lease was acquired, and until its deadline, every attempt to
  acquire it again fails, whatever other operations handlers interleave (loads, saves, failed
  attempts, anything on other sessions), as long as nobody releases or clears this session's
  lease. After the deadline it can be taken over, so a handler that died does not lock the
  session out.
\<close>

theorem lease_exclusive:
  assumes "acquire_lease now s i ttl = (True, s1)"
    and "list_all (keeps_lease i (now + ttl * 1000)) ops"
  shows "fst (acquire_lease later (foldl do_stream_op s1 ops) i ttl') \<longleftrightarrow> now + ttl * 1000 \<le> later"
proof -
  have "s1 = do_stream_op s (now, Acquire i ttl)" using assms(1) by simp
  then have "lease_until s1 i = Some (now + ttl * 1000)"
    using assms(1) lease_until_ops [of s now "Acquire i ttl" i] by simp
  from lease_kept [OF this assms(2)] show ?thesis
    by (simp add: acquire_lease_iff)
qed

theorem lease_exclusive_witness:
  "\<not> fst (acquire_lease 29999 (foldl do_stream_op
      (snd (acquire_lease 0 empty_stream_state (SessionId ''s'') 30))
      [(5, Acquire (SessionId ''s'') 30), (7, Release (SessionId ''t''))]) (SessionId ''s'') 30)"
proof -
  have "acquire_lease 0 empty_stream_state (SessionId ''s'') 30 =
      (True, snd (acquire_lease 0 empty_stream_state (SessionId ''s'') 30))"
    by (simp add: acquire_lease_def empty_stream_state_def)
  from lease_exclusive [OF this, of "[(5, Acquire (SessionId ''s'') 30), (7, Release (SessionId ''t''))]" 29999 30]
  show ?thesis by (simp add: keeps_lease_def)
qed

text \<open>
  A lease has no owner. When the first handler's lease has expired and a second handler has taken
  the session over, the first handler's release on its way out drops the second handler's lease,
  and a third handler is let in while the second still holds the session.
\<close>

theorem late_release_drops_foreign_lease:
  "(let (first, s1) = acquire_lease t0 s i 1;
        (second, s2) = acquire_lease (t0 + 1000) s1 i 30;
        s3 = release_lease s2 i;
        (third, s4) = acquire_lease (t0 + 1001) s3 i 30
    in (if first then second \<and> third \<and> lease_until s2 i = Some (t0 + 31000) else s1 = s))"
  by (simp add: acquire_lease_def release_lease_def lease_until_def delete_conv' split: option.splits)

section \<open>Quotas\<close>

record quota_guard =
  qg_limits :: "(string \<times> int) list"
  qg_window_ms :: int
  qg_counts :: "((string \<times> string \<times> int) \<times> int) list"

definition QuotaGuard :: "(string \<times> int) list \<Rightarrow> int \<Rightarrow> quota_guard" where
  "QuotaGuard limits window_seconds =
     \<lparr>qg_limits = limits, qg_window_ms = window_seconds * 1000, qg_counts = []\<rparr>"

definition quota_key :: "int \<Rightarrow> quota_guard \<Rightarrow> application_id \<Rightarrow> string \<Rightarrow> string \<times> string \<times> int" where
  "quota_key now g app u = (application_id_value app, u, now div qg_window_ms g)"

definition seconds_to_window_end :: "int \<Rightarrow> quota_guard \<Rightarrow> int" where
  "seconds_to_window_end now g =
     (let elapsed = now mod qg_window_ms g in max 1 ((qg_window_ms g - elapsed) div 1000))"

text \<open>A \<open>defaultdict(int)\<close>: reading a missing key stores 0 under it.\<close>

definition counts_get ::
  "((string \<times> string \<times> int) \<times> int) list \<Rightarrow> string \<times> string \<times> int \<Rightarrow>
   int \<times> ((string \<times> string \<times> int) \<times> int) list" where
  "counts_get d k = (case map_of d k of Some n \<Rightarrow> (n, d) | None \<Rightarrow> (0, AList.update k 0 d))"

definition quota_check ::
  "int \<Rightarrow> int \<Rightarrow> quota_guard \<Rightarrow> application_id \<Rightarrow> string \<Rightarrow> int \<Rightarrow> quota_decision \<times> quota_guard" where
  "quota_check now now' g app u amount =
     (case map_of (qg_limits g) u of
        None \<Rightarrow> (\<lparr>qd_allowed = True, qd_remaining = - 1, qd_retry_after_seconds = 0, qd_reason = []\<rparr>, g)
      | Some limit \<Rightarrow>
          let (used, counts) = counts_get (qg_counts g) (quota_key now g app u);
              remaining = limit - used;
              g' = g\<lparr>qg_counts := counts\<rparr>
          in if used + amount > limit
             then (\<lparr>qd_allowed = False, qd_remaining = max remaining 0,
                    qd_retry_after_seconds = seconds_to_window_end now' g,
                    qd_reason = u @ '' quota of '' @ show_int limit @ '' per window exhausted''\<rparr>, g')
             else (\<lparr>qd_allowed = True, qd_remaining = remaining - amount,
                    qd_retry_after_seconds = 0, qd_reason = []\<rparr>, g'))"

definition quota_consume :: "int \<Rightarrow> quota_guard \<Rightarrow> application_id \<Rightarrow> string \<Rightarrow> int \<Rightarrow> quota_guard" where
  "quota_consume now g app u amount =
     (let k = quota_key now g app u; (used, counts) = counts_get (qg_counts g) k
      in g\<lparr>qg_counts := AList.update k (used + amount) counts\<rparr>)"

text \<open>What was consumed in the window of an instant.\<close>

definition consumed :: "int \<Rightarrow> quota_guard \<Rightarrow> application_id \<Rightarrow> string \<Rightarrow> int" where
  "consumed now g app u =
     (case map_of (qg_counts g) (quota_key now g app u) of None \<Rightarrow> 0 | Some n \<Rightarrow> n)"

lemma application_value_eq [simp]: "application_id_value i = application_id_value j \<longleftrightarrow> i = j"
  by (cases i; cases j) simp

lemma counts_get_fst: "fst (counts_get d k) = (case map_of d k of None \<Rightarrow> 0 | Some n \<Rightarrow> n)"
  by (simp add: counts_get_def split: option.splits)

lemma counts_get_snd:
  "map_of (snd (counts_get d k)) k' = (if k' = k \<and> map_of d k = None then Some 0 else map_of d k')"
  by (auto simp: counts_get_def split: option.splits)

lemma quota_check_frame [simp]:
  "qg_limits (snd (quota_check now now' g app u n)) = qg_limits g"
  "qg_window_ms (snd (quota_check now now' g app u n)) = qg_window_ms g"
  "qg_limits (quota_consume now g app u n) = qg_limits g"
  "qg_window_ms (quota_consume now g app u n) = qg_window_ms g"
  by (simp_all add: quota_check_def quota_consume_def Let_def split: option.splits prod.splits)

lemma consumed_check [simp]:
  "consumed t (snd (quota_check now now' g app u n)) app' u' = consumed t g app' u'"
proof (cases "map_of (qg_limits g) u")
  case (Some limit)
  obtain used counts where c: "counts_get (qg_counts g) (quota_key now g app u) = (used, counts)"
    by (cases "counts_get (qg_counts g) (quota_key now g app u)")
  have "map_of counts k = (if k = quota_key now g app u \<and> map_of (qg_counts g) (quota_key now g app u) = None
      then Some 0 else map_of (qg_counts g) k)" for k
    using counts_get_snd [of "qg_counts g" "quota_key now g app u" k] c by simp
  then show ?thesis
    using Some c by (auto simp: quota_check_def consumed_def quota_key_def Let_def split: option.splits if_splits)
qed (simp add: quota_check_def)

lemma consumed_consume:
  "consumed t (quota_consume now g app u n) app' u' =
     consumed t g app' u' + (if app' = app \<and> u' = u \<and> t div qg_window_ms g = now div qg_window_ms g
                             then n else 0)"
proof -
  obtain used counts where c: "counts_get (qg_counts g) (quota_key now g app u) = (used, counts)"
    by (cases "counts_get (qg_counts g) (quota_key now g app u)")
  have "used = consumed now g app u"
    using counts_get_fst [of "qg_counts g" "quota_key now g app u"] c by (simp add: consumed_def)
  moreover have "map_of counts k = (if k = quota_key now g app u \<and> map_of (qg_counts g) (quota_key now g app u) = None
      then Some 0 else map_of (qg_counts g) k)" for k
    using counts_get_snd [of "qg_counts g" "quota_key now g app u" k] c by simp
  ultimately show ?thesis
    using c by (auto simp: quota_consume_def consumed_def quota_key_def Let_def split: option.splits)
qed

text \<open>The client's protocol: ask, and consume when allowed (\<open>CreateSession.execute\<close>).\<close>

definition ask_and_consume ::
  "quota_guard \<Rightarrow> int \<times> application_id \<times> string \<times> int \<Rightarrow> quota_guard" where
  "ask_and_consume g req = (case req of (now, app, u, n) \<Rightarrow>
     let (d, g') = quota_check now now g app u n
     in if qd_allowed d then quota_consume now g' app u n else g')"

definition within_limits :: "quota_guard \<Rightarrow> bool" where
  "within_limits g \<longleftrightarrow> (\<forall>t app u limit. map_of (qg_limits g) u = Some limit \<longrightarrow> consumed t g app u \<le> max 0 limit)"

lemma quota_check_allowed:
  "qd_allowed (fst (quota_check now now' g app u n)) \<longleftrightarrow>
     (case map_of (qg_limits g) u of None \<Rightarrow> True | Some limit \<Rightarrow> consumed now g app u + n \<le> limit)"
  using counts_get_fst [of "qg_counts g" "quota_key now g app u"]
  by (auto simp: quota_check_def consumed_def Let_def split: option.splits prod.splits)

lemma ask_and_consume_within:
  assumes "within_limits g"
  shows "within_limits (ask_and_consume g req)"
proof -
  obtain now app u n where req: "req = (now, app, u, n)" by (cases req)
  obtain d g' where c: "quota_check now now g app u n = (d, g')"
    by (cases "quota_check now now g app u n")
  have g': "qg_limits g' = qg_limits g" "qg_window_ms g' = qg_window_ms g"
      "\<And>t a u'. consumed t g' a u' = consumed t g a u'"
    using quota_check_frame(1,2) [of now now g app u n] consumed_check [of _ now now g app u n] c by simp_all
  have run: "ask_and_consume g req = (if qd_allowed d then quota_consume now g' app u n else g')"
    by (simp add: ask_and_consume_def req c)
  have old: "consumed t g a u' \<le> max 0 limit" if "map_of (qg_limits g) u' = Some limit" for t a u' limit
    using assms that by (simp add: within_limits_def)
  have "consumed t (ask_and_consume g req) a u' \<le> max 0 limit"
    if lim: "map_of (qg_limits g) u' = Some limit" for t a u' limit
  proof (cases "qd_allowed d \<and> a = app \<and> u' = u \<and> t div qg_window_ms g = now div qg_window_ms g")
    case True
    then have "consumed t g a u' = consumed now g app u"
      by (simp add: consumed_def quota_key_def)
    moreover have "consumed now g app u + n \<le> limit"
      using quota_check_allowed [of now now g app u n] c lim True by simp
    ultimately show ?thesis using True by (simp add: run consumed_consume g')
  next
    case False
    then show ?thesis using old [OF lim, of t a] by (auto simp: run consumed_consume g')
  qed
  moreover have "qg_limits (ask_and_consume g req) = qg_limits g"
    by (simp add: run g')
  ultimately show ?thesis by (simp add: within_limits_def)
qed

text \<open>
  Quotas hold. Starting from a fresh guard, after any sequence of requests of any applications
  that each ask first and consume only when allowed, no application has consumed more than the
  limit of a unit in any window.
\<close>

theorem quota_never_exceeded:
  "(let g = foldl ask_and_consume (QuotaGuard limits window_seconds) reqs
    in (case map_of limits u of None \<Rightarrow> True | Some limit \<Rightarrow> consumed t g app u \<le> max 0 limit))"
proof -
  have "within_limits (foldl ask_and_consume g reqs)" if "within_limits g" for g
    using that by (induction reqs arbitrary: g) (simp_all add: ask_and_consume_within)
  moreover have "within_limits (QuotaGuard limits window_seconds)"
    by (simp add: within_limits_def QuotaGuard_def consumed_def)
  moreover have "qg_limits (foldl ask_and_consume g reqs) = qg_limits g" for g
    by (induction reqs arbitrary: g)
      (auto simp: ask_and_consume_def Let_def split: prod.splits dest!: arg_cong [of _ _ snd])
  ultimately show ?thesis
    by (simp add: within_limits_def QuotaGuard_def Let_def split: option.splits)
qed

text \<open>The advice when a quota is exhausted: whole seconds, at least one. Rounding down sends the
  client back up to a second before the window rolls over.\<close>

lemma retry_after_bounds:
  assumes "1000 \<le> qg_window_ms g"
  shows "1 \<le> seconds_to_window_end now g"
    and "1000 * seconds_to_window_end now g \<le> max 1000 (qg_window_ms g - now mod qg_window_ms g)"
    and "qg_window_ms g - now mod qg_window_ms g < 1000 * (seconds_to_window_end now g + 1)"
  using assms by (auto simp: seconds_to_window_end_def Let_def)

lemma retry_too_early:
  "(let g = QuotaGuard limits 60; now = 58001
    in seconds_to_window_end now g = 1 \<and>
       (now + 1000 * seconds_to_window_end now g) div qg_window_ms g = now div qg_window_ms g)"
  by (simp add: seconds_to_window_end_def QuotaGuard_def)

end
