(* ===== verification/MediaStore.thy ===== *)
theory MediaStore
  imports Stores Sha256
begin

text \<open>
  \<open>application/ports/storage.py\<close> and \<open>adapters/outbound/object_storage/in_memory.py\<close>: protected media
  with a deadline per object, tracked signatures, and deletion per session. The clock's answer is an
  argument; a signature is what \<open>secrets.token_urlsafe\<close> returned. Payloads are lists of bytes.
\<close>

section \<open>State and operations\<close>

datatype media_kind = RAW_MEDIA | DERIVED_FEATURES

fun media_kind_value :: "media_kind \<Rightarrow> string" where
  "media_kind_value RAW_MEDIA = ''raw_media''"
| "media_kind_value DERIVED_FEATURES = ''derived_features''"

record stored_object =
  so_ref :: evidence_ref
  so_tenant :: tenant_id
  so_session_id :: session_id
  so_kind :: media_kind
  so_size_bytes :: int
  so_content_type :: string
  so_expires_at_ms :: int

record signed_url =
  su_url :: string
  su_expires_at_ms :: int

record media_entry =
  me_stored :: stored_object
  me_payload :: bytes

record media_store =
  ms_objects :: "(tenant_key \<times> media_entry) list"
  ms_signatures :: "(string \<times> string list) list"

definition empty_media :: media_store where
  "empty_media = \<lparr>ms_objects = [], ms_signatures = []\<rparr>"

definition bytes_hexdigest :: "bytes \<Rightarrow> string" where
  "bytes_hexdigest bs = concat (map hex_word (sha256 bs))"

definition media_ref_text :: "media_kind \<Rightarrow> session_id \<Rightarrow> bytes \<Rightarrow> string" where
  "media_ref_text kind i payload =
     media_kind_value kind @ '':'' @ session_id_value i @ '':'' @ take 16 (bytes_hexdigest payload)"

definition media_put ::
  "media_store \<Rightarrow> tenant_id \<Rightarrow> session_id \<Rightarrow> media_kind \<Rightarrow> string \<Rightarrow> bytes \<Rightarrow> int \<Rightarrow>
   (stored_object \<times> media_store) result" where
  "media_put s tenant i kind content_type payload expires_at_ms =
     bindR (Identifier EvidenceRef (media_ref_text kind i payload)) (\<lambda>ref.
       let stored = \<lparr>so_ref = ref, so_tenant = tenant, so_session_id = i, so_kind = kind,
             so_size_bytes = int (length payload), so_content_type = content_type,
             so_expires_at_ms = expires_at_ms\<rparr>
       in Inr (stored, s\<lparr>ms_objects :=
            AList.update (tenant_id_value tenant, evidence_ref_value ref)
              \<lparr>me_stored = stored, me_payload = payload\<rparr> (ms_objects s)\<rparr>))"

definition expired :: "int \<Rightarrow> media_entry \<Rightarrow> bool" where
  "expired now e \<longleftrightarrow> so_expires_at_ms (me_stored e) \<le> now"

definition live ::
  "int \<Rightarrow> media_store \<Rightarrow> tenant_id \<Rightarrow> evidence_ref \<Rightarrow> media_entry option \<times> media_store" where
  "live now s tenant ref =
     (let key = (tenant_id_value tenant, evidence_ref_value ref) in
      case map_of (ms_objects s) key of
        None \<Rightarrow> (None, s)
      | Some e \<Rightarrow>
          if expired now e then (None, s\<lparr>ms_objects := AList.delete key (ms_objects s)\<rparr>)
          else (Some e, s))"

definition media_open :: "int \<Rightarrow> media_store \<Rightarrow> tenant_id \<Rightarrow> evidence_ref \<Rightarrow> bytes result \<times> media_store" where
  "media_open now s tenant ref =
     (case live now s tenant ref of
        (None, s') \<Rightarrow> (Inl (OtherError ''FileNotFoundError''), s')
      | (Some e, s') \<Rightarrow> (Inr (me_payload e), s'))"

definition media_exists :: "int \<Rightarrow> media_store \<Rightarrow> tenant_id \<Rightarrow> evidence_ref \<Rightarrow> bool \<times> media_store" where
  "media_exists now s tenant ref = (case live now s tenant ref of (e, s') \<Rightarrow> (e \<noteq> None, s'))"

definition media_delete :: "media_store \<Rightarrow> tenant_id \<Rightarrow> evidence_ref \<Rightarrow> bool \<times> media_store" where
  "media_delete s tenant ref =
     (let key = (tenant_id_value tenant, evidence_ref_value ref) in
      (map_of (ms_objects s) key \<noteq> None, s\<lparr>ms_objects := AList.delete key (ms_objects s)\<rparr>))"

definition object_of_session :: "tenant_id \<Rightarrow> session_id \<Rightarrow> tenant_key \<times> media_entry \<Rightarrow> bool" where
  "object_of_session tenant i ke \<longleftrightarrow>
     fst (fst ke) = tenant_id_value tenant \<and> so_session_id (me_stored (snd ke)) = i"

definition media_delete_for_session :: "media_store \<Rightarrow> tenant_id \<Rightarrow> session_id \<Rightarrow> int \<times> media_store" where
  "media_delete_for_session s tenant i =
     (int (length (filter (object_of_session tenant i) (ms_objects s))),
      s\<lparr>ms_objects := filter (\<lambda>ke. \<not> object_of_session tenant i ke) (ms_objects s)\<rparr>)"

definition media_count_for_session :: "int \<Rightarrow> media_store \<Rightarrow> tenant_id \<Rightarrow> session_id \<Rightarrow> int" where
  "media_count_for_session now s tenant i =
     int (length (filter (\<lambda>ke. object_of_session tenant i ke \<and> \<not> expired now (snd ke)) (ms_objects s)))"

definition signatures_of :: "media_store \<Rightarrow> session_id \<Rightarrow> string list" where
  "signatures_of s i = (case map_of (ms_signatures s) (session_id_value i) of None \<Rightarrow> [] | Some xs \<Rightarrow> xs)"

definition sign_upload ::
  "int \<Rightarrow> string \<Rightarrow> media_store \<Rightarrow> tenant_id \<Rightarrow> session_id \<Rightarrow> media_kind \<Rightarrow> string \<Rightarrow> int \<Rightarrow> signed_url \<times> media_store"
where
  "sign_upload now signature s tenant i kind content_type ttl_seconds =
     (\<lparr>su_url = ''memory://'' @ tenant_id_value tenant @ ''/'' @ session_id_value i @ ''/'' @
         media_kind_value kind @ ''?sig='' @ signature,
       su_expires_at_ms = now + ttl_seconds * 1000\<rparr>,
      s\<lparr>ms_signatures := AList.update (session_id_value i) (List.insert signature (signatures_of s i))
          (ms_signatures s)\<rparr>)"

definition revoke_signatures :: "media_store \<Rightarrow> tenant_id \<Rightarrow> session_id \<Rightarrow> media_store" where
  "revoke_signatures s tenant i = s\<lparr>ms_signatures := AList.delete (session_id_value i) (ms_signatures s)\<rparr>"

definition signature_count :: "media_store \<Rightarrow> session_id \<Rightarrow> int" where
  "signature_count s i = int (length (signatures_of s i))"

section \<open>Laws\<close>

lemma media_kind_nonblank: "Identifier EvidenceRef (media_ref_text kind i payload) = Inr (EvidenceRef (media_ref_text kind i payload))"
  by (cases kind) (simp_all add: Identifier_def media_ref_text_def py_strip_Nil_iff py_isspace_def)

lemma media_put_total:
  "media_put s t i kind ct payload deadline =
     Inr (\<lparr>so_ref = EvidenceRef (media_ref_text kind i payload), so_tenant = t, so_session_id = i,
           so_kind = kind, so_size_bytes = int (length payload), so_content_type = ct,
           so_expires_at_ms = deadline\<rparr>,
      s\<lparr>ms_objects := AList.update (tenant_id_value t, media_ref_text kind i payload)
          \<lparr>me_stored = \<lparr>so_ref = EvidenceRef (media_ref_text kind i payload), so_tenant = t,
             so_session_id = i, so_kind = kind, so_size_bytes = int (length payload),
             so_content_type = ct, so_expires_at_ms = deadline\<rparr>, me_payload = payload\<rparr> (ms_objects s)\<rparr>)"
  by (simp add: media_put_def media_kind_nonblank Let_def)

text \<open>The calls, to run sequences of them.\<close>

datatype media_op =
    Put session_id media_kind string bytes int
  | Open evidence_ref
  | Exists evidence_ref
  | Delete evidence_ref
  | DeleteSession session_id
  | Sign string session_id media_kind string int
  | Revoke session_id

fun do_media_op :: "media_store \<Rightarrow> int \<times> tenant_id \<times> media_op \<Rightarrow> media_store" where
  "do_media_op s (now, t, Put i kind ct payload deadline) =
     (case media_put s t i kind ct payload deadline of Inl _ \<Rightarrow> s | Inr (_, s') \<Rightarrow> s')"
| "do_media_op s (now, t, Open ref) = snd (media_open now s t ref)"
| "do_media_op s (now, t, Exists ref) = snd (media_exists now s t ref)"
| "do_media_op s (now, t, Delete ref) = snd (media_delete s t ref)"
| "do_media_op s (now, t, DeleteSession i) = snd (media_delete_for_session s t i)"
| "do_media_op s (now, t, Sign sg i kind ct ttl) = snd (sign_upload now sg s t i kind ct ttl)"
| "do_media_op s (now, t, Revoke i) = revoke_signatures s t i"

lemma snd_live:
  "ms_objects (snd (live now s t ref)) =
     (if fst (live now s t ref) = None then AList.delete (tenant_id_value t, evidence_ref_value ref) (ms_objects s)
      else ms_objects s)"
  by (auto simp: live_def Let_def AList.delete_eq map_of_eq_None_iff filter_id_conv image_iff
      case_prod_unfold split: option.splits) force?

lemma media_open_exists_state [simp]:
  "snd (media_open now s t ref) = snd (live now s t ref)"
  "snd (media_exists now s t ref) = snd (live now s t ref)"
  by (simp_all add: media_open_def media_exists_def split: prod.splits option.splits)

lemma fst_live:
  "fst (live now s t ref) =
     (case map_of (ms_objects s) (tenant_id_value t, evidence_ref_value ref) of
        None \<Rightarrow> None | Some e \<Rightarrow> if expired now e then None else Some e)"
  by (simp add: live_def Let_def split: option.splits)

text \<open>Nothing of a session that was deleted is left, until something is put again.\<close>

definition no_object_of :: "tenant_id \<Rightarrow> session_id \<Rightarrow> media_store \<Rightarrow> bool" where
  "no_object_of t i s \<longleftrightarrow> list_all (\<lambda>ke. \<not> object_of_session t i ke) (ms_objects s)"

definition puts_into :: "tenant_id \<Rightarrow> session_id \<Rightarrow> int \<times> tenant_id \<times> media_op \<Rightarrow> bool" where
  "puts_into t i x \<longleftrightarrow> (case x of (_, t', Put j _ _ _ _) \<Rightarrow> t' = t \<and> j = i | _ \<Rightarrow> False)"

lemma tenant_value_eq [simp]: "tenant_id_value i = tenant_id_value j \<longleftrightarrow> i = j"
  by (cases i; cases j) simp

lemma set_update_subset: "set (AList.update k v d) \<subseteq> insert (k, v) (set d)"
  by (induction d) auto

lemma set_delete_subset: "set (AList.delete k d) \<subseteq> set d"
  by (auto simp: AList.delete_eq)

lemma no_object_of_subset:
  "no_object_of t i s \<Longrightarrow> set (ms_objects s') \<subseteq> set (ms_objects s) \<Longrightarrow> no_object_of t i s'"
  by (auto simp: no_object_of_def list_all_iff)

lemma no_object_of_op:
  assumes "no_object_of t i s" and "\<not> puts_into t i x"
  shows "no_object_of t i (do_media_op s x)"
proof -
  obtain now t' oper where x: "x = (now, t', oper)" by (cases x) auto
  show ?thesis
  proof (cases oper)
    case (Put j kind ct payload deadline)
    with assms x show ?thesis
      using set_update_subset [of "(tenant_id_value t', media_ref_text kind j payload)" _ "ms_objects s"]
      by (fastforce simp: no_object_of_def list_all_iff media_put_total puts_into_def object_of_session_def)
  qed (rule no_object_of_subset [OF assms(1)];
      use x in \<open>auto simp: snd_live media_delete_def media_delete_for_session_def sign_upload_def
        revoke_signatures_def Let_def dest: subsetD [OF set_delete_subset] split: if_splits\<close>)+
qed

lemma no_object_of_run:
  assumes "no_object_of t i s" and "list_all (\<lambda>x. \<not> puts_into t i x) ops"
  shows "no_object_of t i (foldl do_media_op s ops)"
  using assms by (induction ops arbitrary: s) (simp_all add: no_object_of_op)

lemma no_object_of_reads:
  assumes "no_object_of t i s"
  shows "media_count_for_session now s t i = 0"
    and "\<And>ref e. fst (live now s t ref) = Some e \<Longrightarrow> so_session_id (me_stored e) \<noteq> i"
proof -
  show "media_count_for_session now s t i = 0"
    using assms by (auto simp: no_object_of_def list_all_iff media_count_for_session_def filter_empty_conv)
  show "so_session_id (me_stored e) \<noteq> i" if "fst (live now s t ref) = Some e" for ref e
    using that assms
    by (auto simp: fst_live no_object_of_def list_all_iff object_of_session_def
        dest!: map_of_SomeD split: option.splits if_splits)
qed

lemma delete_for_session_none: "no_object_of t i (snd (media_delete_for_session s t i))"
  by (auto simp: no_object_of_def list_all_iff media_delete_for_session_def)

text \<open>
  Deletion leaves nothing behind (QA-04). After the media of a session were deleted, and after any
  further operations of any tenants that do not store new media into it, the session counts no
  object, and no reference opens to an object of that session.
\<close>

theorem deleted_media_unreachable:
  assumes "list_all (\<lambda>x. \<not> puts_into t i x) ops"
  shows "let s' = foldl do_media_op (snd (media_delete_for_session s t i)) ops
    in media_count_for_session now s' t i = 0 \<and>
       (\<forall>ref. map_option (so_session_id \<circ> me_stored) (fst (live now s' t ref)) \<noteq> Some i)"
  using no_object_of_reads [OF no_object_of_run [OF delete_for_session_none assms]]
  by (auto simp: Let_def)

theorem deleted_media_unreachable_witness:
  "media_count_for_session 5 (foldl do_media_op
     (snd (media_delete_for_session (snd (projr (media_put empty_media (TenantId ''t'') (SessionId ''s'')
        RAW_MEDIA ''audio/wav'' [1, 2, 3] 1000))) (TenantId ''t'') (SessionId ''s'')))
     [(1, TenantId ''t'', Put (SessionId ''other'') RAW_MEDIA ''audio/wav'' [4] 1000),
      (2, TenantId ''u'', Put (SessionId ''s'') RAW_MEDIA ''audio/wav'' [4] 1000)])
     (TenantId ''t'') (SessionId ''s'') = 0"
proof -
  have "list_all (\<lambda>x. \<not> puts_into (TenantId ''t'') (SessionId ''s'') x)
     [(1, TenantId ''t'', Put (SessionId ''other'') RAW_MEDIA ''audio/wav'' [4] 1000),
      (2, TenantId ''u'', Put (SessionId ''s'') RAW_MEDIA ''audio/wav'' [4] 1000)]"
    by (simp add: puts_into_def)
  from deleted_media_unreachable [OF this] show ?thesis
    by (simp only: Let_def)
qed

text \<open>
  Retention deadlines are enforced on read (NFR-011). What was put is returned, byte for byte,
  until its deadline and for its own tenant only; from the deadline on, opening it raises, whether
  or not anything swept the store.
\<close>

theorem media_read_back:
  "(case media_put s t i kind ct payload deadline of
      Inl _ \<Rightarrow> False
    | Inr (stored, s') \<Rightarrow>
        fst (media_open now s' t (so_ref stored)) =
          (if now < deadline then Inr payload else Inl (OtherError ''FileNotFoundError'')) \<and>
        (if t' = t then True else
          fst (media_open now s' t' (so_ref stored)) = fst (media_open now s t' (so_ref stored))))"
  by (auto simp: media_put_total media_open_def live_def Let_def expired_def split: option.splits)

end
