(* ===== verification/Configuration.thy ===== *)
theory Configuration
  imports Ports
begin

text \<open>
  \<open>adapters/outbound/persistence/configuration.py\<close>: the store of published configuration snapshots,
  bound to sessions, and the model registry with approval gates and rollback targets.
\<close>

definition ConfigurationError :: exn where
  "ConfigurationError = OtherError ''ConfigurationError''"

section \<open>Configuration snapshots\<close>

text \<open>Two snapshots are equal as dataclasses when their fields are; the thresholds are mappings, equal
  when they map the same keys to the same values.\<close>

definition dict_eq :: "(string \<times> 'v) list \<Rightarrow> (string \<times> 'v) list \<Rightarrow> bool" where
  "dict_eq d d' \<longleftrightarrow> list_all (\<lambda>k. map_of d k = map_of d' k) (map fst d @ map fst d')"

definition snapshot_eq :: "configuration_snapshot \<Rightarrow> configuration_snapshot \<Rightarrow> bool" where
  "snapshot_eq a b \<longleftrightarrow>
     cs_id a = cs_id b \<and> cs_taxonomy_version a = cs_taxonomy_version b \<and>
     cs_pipeline_version a = cs_pipeline_version b \<and> cs_schema_version a = cs_schema_version b \<and>
     cs_fusion_window a = cs_fusion_window b \<and>
     dict_eq (cs_speech_thresholds a) (cs_speech_thresholds b) \<and>
     dict_eq (cs_visual_thresholds a) (cs_visual_thresholds b) \<and>
     cs_silence_threshold_ms a = cs_silence_threshold_ms b \<and> cs_calibration a = cs_calibration b"

record configuration_store =
  cfs_published :: "(string \<times> configuration_snapshot) list"
  cfs_current_by_tenant :: "(string \<times> configuration_snapshot) list"
  cfs_default :: configuration_snapshot
  cfs_by_session :: "(string \<times> configuration_snapshot_id) list"

definition ConfigurationStore :: "configuration_snapshot \<Rightarrow> configuration_store" where
  "ConfigurationStore initial =
     \<lparr>cfs_published = [(configuration_snapshot_id_value (cs_id initial), initial)],
      cfs_current_by_tenant = [], cfs_default = initial, cfs_by_session = []\<rparr>"

definition config_publish ::
  "configuration_store \<Rightarrow> configuration_snapshot \<Rightarrow> tenant_id option \<Rightarrow> configuration_store result" where
  "config_publish s snapshot tenant =
     (let key = configuration_snapshot_id_value (cs_id snapshot) in
      if (case map_of (cfs_published s) key of
            None \<Rightarrow> False | Some existing \<Rightarrow> \<not> snapshot_eq existing snapshot)
      then Inl ConfigurationError
      else let s' = s\<lparr>cfs_published := AList.update key snapshot (cfs_published s)\<rparr> in
        Inr (case tenant of
               None \<Rightarrow> s'
             | Some t \<Rightarrow> s'\<lparr>cfs_current_by_tenant :=
                 AList.update (tenant_id_value t) snapshot (cfs_current_by_tenant s')\<rparr>))"

definition config_current :: "configuration_store \<Rightarrow> tenant_id \<Rightarrow> configuration_snapshot" where
  "config_current s tenant =
     (case map_of (cfs_current_by_tenant s) (tenant_id_value tenant) of
        None \<Rightarrow> cfs_default s | Some snapshot \<Rightarrow> snapshot)"

definition config_get ::
  "configuration_store \<Rightarrow> configuration_snapshot_id \<Rightarrow> configuration_snapshot option" where
  "config_get s i = map_of (cfs_published s) (configuration_snapshot_id_value i)"

definition config_freeze ::
  "configuration_store \<Rightarrow> configuration_snapshot \<Rightarrow> session_id \<Rightarrow> configuration_store" where
  "config_freeze s snapshot i =
     (let key = configuration_snapshot_id_value (cs_id snapshot) in
      s\<lparr>cfs_published := (if map_of (cfs_published s) key = None
           then AList.update key snapshot (cfs_published s) else cfs_published s),
        cfs_by_session := AList.update (session_id_value i) (cs_id snapshot) (cfs_by_session s)\<rparr>)"

definition config_for_session ::
  "configuration_store \<Rightarrow> session_id \<Rightarrow> configuration_snapshot option" where
  "config_for_session s i =
     (case map_of (cfs_by_session s) (session_id_value i) of
        None \<Rightarrow> None
      | Some snapshot_id \<Rightarrow> map_of (cfs_published s) (configuration_snapshot_id_value snapshot_id))"

datatype config_op =
    PublishConfig configuration_snapshot "tenant_id option"
  | Freeze configuration_snapshot session_id

fun do_config_op :: "configuration_store \<Rightarrow> config_op \<Rightarrow> configuration_store" where
  "do_config_op s (PublishConfig snapshot tenant) =
     (case config_publish s snapshot tenant of Inl _ \<Rightarrow> s | Inr s' \<Rightarrow> s')"
| "do_config_op s (Freeze snapshot i) = config_freeze s snapshot i"

fun freezes_session :: "session_id \<Rightarrow> config_op \<Rightarrow> bool" where
  "freezes_session i (Freeze snapshot j) \<longleftrightarrow> i = j"
| "freezes_session i (PublishConfig snapshot tenant) \<longleftrightarrow> False"

lemma dict_eq_iff: "dict_eq d d' \<longleftrightarrow> map_of d = map_of d'"
proof
  assume "dict_eq d d'"
  then have eq: "map_of d k = map_of d' k" if "k \<in> fst ` set d \<or> k \<in> fst ` set d'" for k
    using that by (auto simp: dict_eq_def list_all_iff)
  show "map_of d = map_of d'"
  proof
    fix k
    show "map_of d k = map_of d' k"
    proof (cases "k \<in> fst ` set d \<or> k \<in> fst ` set d'")
      case False
      then have "map_of d k = None" "map_of d' k = None" by (simp_all add: map_of_eq_None_iff)
      then show ?thesis by simp
    qed (rule eq)
  qed
qed (simp add: dict_eq_def list_all_iff)

lemma snapshot_eq_refl [simp]: "snapshot_eq a a"
  and snapshot_eq_sym: "snapshot_eq a b \<Longrightarrow> snapshot_eq b a"
  and snapshot_eq_trans: "snapshot_eq a b \<Longrightarrow> snapshot_eq b c \<Longrightarrow> snapshot_eq a c"
  by (auto simp: snapshot_eq_def dict_eq_iff)

lemma snapshot_id_value_eq [simp]:
  "configuration_snapshot_id_value i = configuration_snapshot_id_value j \<longleftrightarrow> i = j"
  by (cases i; cases j) simp

lemma session_id_value_inj [simp]: "session_id_value i = session_id_value j \<longleftrightarrow> i = j"
  by (cases i; cases j) simp

lemma config_get_op:
  assumes "config_get s i = Some a"
  shows "\<exists>b. config_get (do_config_op s oper) i = Some b \<and> snapshot_eq a b"
  using assms by (cases oper; cases i)
    (auto simp: config_get_def config_publish_def config_freeze_def Let_def
       split: option.splits if_splits sum.splits)

lemma config_get_run:
  assumes "config_get s i = Some a"
  shows "\<exists>b. config_get (foldl do_config_op s ops) i = Some b \<and> snapshot_eq a b"
  using assms
proof (induction ops arbitrary: s a)
  case (Cons oper ops)
  from config_get_op [OF Cons.prems, of oper] obtain b
    where b: "config_get (do_config_op s oper) i = Some b" "snapshot_eq a b" by blast
  from Cons.IH [OF b(1)] b(2) show ?case by (auto intro: snapshot_eq_trans)
qed simp

lemma by_session_run:
  assumes "list_all (\<lambda>oper. \<not> freezes_session i oper) ops"
  shows "map_of (cfs_by_session (foldl do_config_op s ops)) (session_id_value i) =
    map_of (cfs_by_session s) (session_id_value i)"
  using assms
proof (induction ops arbitrary: s)
  case (Cons oper ops)
  have "map_of (cfs_by_session (do_config_op s oper)) (session_id_value i) =
      map_of (cfs_by_session s) (session_id_value i)"
    using Cons.prems by (cases oper)
      (auto simp: config_publish_def config_freeze_def Let_def split: option.splits sum.splits)
  with Cons show ?case by simp
qed simp

text \<open>
  C34: A session keeps the configuration it ran under (US-008). Once a published snapshot is frozen for
  a session, then whatever snapshots are published afterwards for whatever tenants, and whatever
  other sessions freeze, the session resolves to a snapshot with the same content.
\<close>

theorem frozen_configuration_immutable:
  assumes "config_get s (cs_id snapshot) = Some snapshot"
    and "list_all (\<lambda>oper. \<not> freezes_session i oper) ops"
  shows "map_option (snapshot_eq snapshot)
    (config_for_session (foldl do_config_op (config_freeze s snapshot i) ops) i) = Some True"
proof -
  have "config_get (config_freeze s snapshot i) (cs_id snapshot) = Some snapshot"
    using assms(1) by (simp add: config_get_def config_freeze_def Let_def)
  from config_get_run [OF this, of ops] by_session_run [OF assms(2), of "config_freeze s snapshot i"]
  show ?thesis
    by (auto simp: config_for_session_def config_get_def config_freeze_def Let_def)
qed

definition snapshot_at :: "int \<Rightarrow> configuration_snapshot" where
  "snapshot_at n = \<lparr>cs_id = ConfigurationSnapshotId ''c'', cs_taxonomy_version = MkVersion 1 0 0,
     cs_pipeline_version = MkVersion 1 0 0, cs_schema_version = MkVersion 1 0 0,
     cs_fusion_window = \<lparr>fw_width_ms = 500, fw_configuration = ConfigurationSnapshotId ''c''\<rparr>,
     cs_speech_thresholds = [], cs_visual_thresholds = [], cs_silence_threshold_ms = n,
     cs_calibration = None\<rparr>"

theorem frozen_configuration_immutable_witness:
  "map_option (snapshot_eq (snapshot_at 700))
     (config_for_session (foldl do_config_op
        (config_freeze (ConfigurationStore (snapshot_at 700)) (snapshot_at 700) (SessionId ''s''))
        [PublishConfig (snapshot_at 900) (Some (TenantId ''t'')), Freeze (snapshot_at 1) (SessionId ''r'')])
       (SessionId ''s'')) = Some True"
proof -
  have "config_get (ConfigurationStore (snapshot_at 700)) (cs_id (snapshot_at 700)) = Some (snapshot_at 700)"
    by (simp add: config_get_def ConfigurationStore_def)
  moreover have "list_all (\<lambda>oper. \<not> freezes_session (SessionId ''s'') oper)
      [PublishConfig (snapshot_at 900) (Some (TenantId ''t'')), Freeze (snapshot_at 1) (SessionId ''r'')]"
    by simp
  ultimately show ?thesis by (rule frozen_configuration_immutable)
qed

text \<open>Publishing an identifier again with other content is refused and changes nothing.\<close>

lemma republish_refused:
  assumes "config_get s (cs_id snapshot) = Some old" and "\<not> snapshot_eq old snapshot"
  shows "config_publish s snapshot tenant = Inl ConfigurationError"
  using assms by (simp add: config_publish_def config_get_def Let_def)

text \<open>What the store hands out as current for a tenant is a published snapshot.\<close>

definition current_published :: "configuration_store \<Rightarrow> bool" where
  "current_published s \<longleftrightarrow>
     (\<forall>t. \<exists>b. config_get s (cs_id (config_current s t)) = Some b \<and> snapshot_eq (config_current s t) b)"

lemma config_get_publish:
  "config_publish s snapshot tenant = Inr s' \<Longrightarrow>
   config_get s' i = (if i = cs_id snapshot then Some snapshot else config_get s i)"
  by (auto simp: config_publish_def config_get_def Let_def split: option.splits if_splits)

lemma config_current_publish:
  "config_publish s snapshot tenant = Inr s' \<Longrightarrow>
   config_current s' t = (if tenant = Some t then snapshot else config_current s t)"
  by (cases t) (auto simp: config_publish_def config_current_def Let_def tenant_id.expand
      split: option.splits if_splits)

section \<open>The model registry\<close>

definition PROMOTABLE :: "approval_state list" where
  "PROMOTABLE = [EVALUATED, APPROVED, CANARY]"

record model_registry =
  mr_versions :: "(string \<times> model_version) list"
  mr_active :: "(modality \<times> model_version_id) list"

definition empty_registry :: model_registry where
  "empty_registry = \<lparr>mr_versions = [], mr_active = []\<rparr>"

definition registry_register :: "model_registry \<Rightarrow> model_version \<Rightarrow> bool \<Rightarrow> model_registry" where
  "registry_register r version make_active =
     (let r' = r\<lparr>mr_versions := AList.update (model_version_id_value (mv_id version)) version (mr_versions r)\<rparr>
      in if make_active
         then r'\<lparr>mr_active := AList.update (mv_modality version) (mv_id version) (mr_active r')\<rparr>
         else r')"

definition registry_version :: "model_registry \<Rightarrow> model_version_id \<Rightarrow> model_version result" where
  "registry_version r i =
     (case map_of (mr_versions r) (model_version_id_value i) of None \<Rightarrow> Inl KeyError | Some v \<Rightarrow> Inr v)"

definition active_for :: "model_registry \<Rightarrow> modality \<Rightarrow> model_version result" where
  "active_for r m =
     (case map_of (mr_active r) m of
        None \<Rightarrow> Inl ConfigurationError
      | Some i \<Rightarrow> registry_version r i)"

definition registry_get :: "model_registry \<Rightarrow> model_version_id \<Rightarrow> model_version option" where
  "registry_get r i = map_of (mr_versions r) (model_version_id_value i)"

definition registry_promote ::
  "model_registry \<Rightarrow> model_version_id \<Rightarrow> int \<Rightarrow> (model_version \<times> model_registry) result" where
  "registry_promote r i canary_percent =
     (case map_of (mr_versions r) (model_version_id_value i) of
        None \<Rightarrow> Inl ConfigurationError
      | Some version \<Rightarrow>
          if mv_approval version \<notin> set PROMOTABLE then Inl ConfigurationError
          else if \<not> (0 \<le> canary_percent \<and> canary_percent \<le> 100) then Inl ConfigurationError
          else let promoted = version\<lparr>
                 mv_approval := (if canary_percent = 100 then PRODUCTION else CANARY),
                 mv_rollback_to := map_of (mr_active r) (mv_modality version)\<rparr>
            in Inr (promoted, r\<lparr>
                 mr_versions := AList.update (model_version_id_value (mv_id promoted)) promoted (mr_versions r),
                 mr_active := AList.update (mv_modality promoted) (mv_id promoted) (mr_active r)\<rparr>))"

definition registry_rollback :: "model_registry \<Rightarrow> modality \<Rightarrow> (model_version \<times> model_registry) result" where
  "registry_rollback r m =
     bindR (active_for r m) (\<lambda>current.
       case mv_rollback_to current of
         None \<Rightarrow> Inl ConfigurationError
       | Some target_id \<Rightarrow>
           bindR (registry_version r target_id) (\<lambda>target.
             Inr (target, r\<lparr>
               mr_versions := AList.update (model_version_id_value (mv_id current))
                 (current\<lparr>mv_approval := ROLLED_BACK\<rparr>) (mr_versions r),
               mr_active := AList.update m (mv_id target) (mr_active r)\<rparr>)))"

definition list_versions :: "model_registry \<Rightarrow> modality \<Rightarrow> model_version list" where
  "list_versions r m = filter (\<lambda>v. mv_modality v = m) (map snd (mr_versions r))"

text \<open>The registry as it is kept: versions under their own identifiers, and every active identifier
  registered, for its own modality.\<close>

definition wf_registry :: "model_registry \<Rightarrow> bool" where
  "wf_registry r \<longleftrightarrow>
     (\<forall>k v. map_of (mr_versions r) k = Some v \<longrightarrow> k = model_version_id_value (mv_id v)) \<and>
     (\<forall>m i. map_of (mr_active r) m = Some i \<longrightarrow>
        (\<exists>v. map_of (mr_versions r) (model_version_id_value i) = Some v \<and> mv_modality v = m))"

lemma model_id_value_eq [simp]: "model_version_id_value i = model_version_id_value j \<longleftrightarrow> i = j"
  by (cases i; cases j) simp

lemma wf_registry_id:
  "wf_registry r \<Longrightarrow> map_of (mr_versions r) (model_version_id_value j) = Some v \<Longrightarrow> mv_id v = j"
  by (fastforce simp: wf_registry_def)

lemma registry_promote_Inr:
  assumes "wf_registry r" and "registry_promote r i pct = Inr (v, r')"
  obtains old where "map_of (mr_versions r) (model_version_id_value i) = Some old" "mv_id old = i"
    "v = old\<lparr>mv_approval := (if pct = 100 then PRODUCTION else CANARY),
             mv_rollback_to := map_of (mr_active r) (mv_modality old)\<rparr>"
    "r' = r\<lparr>mr_versions := AList.update (model_version_id_value i) v (mr_versions r),
             mr_active := AList.update (mv_modality old) i (mr_active r)\<rparr>"
proof -
  from assms(2) obtain old where old: "map_of (mr_versions r) (model_version_id_value i) = Some old"
    by (auto simp: registry_promote_def split: option.splits)
  moreover from wf_registry_id [OF assms(1) old] have "mv_id old = i" .
  moreover from assms(2) old \<open>mv_id old = i\<close> have
    "v = old\<lparr>mv_approval := (if pct = 100 then PRODUCTION else CANARY),
             mv_rollback_to := map_of (mr_active r) (mv_modality old)\<rparr> \<and>
     r' = r\<lparr>mr_versions := AList.update (model_version_id_value i) v (mr_versions r),
             mr_active := AList.update (mv_modality old) i (mr_active r)\<rparr>"
    by (auto simp: registry_promote_def Let_def split: if_splits)
  ultimately show thesis using that by blast
qed

lemma wf_registry_promote:
  assumes "wf_registry r" and "registry_promote r i pct = Inr (v, r')"
  shows "wf_registry r'"
proof -
  obtain old where old: "map_of (mr_versions r) (model_version_id_value i) = Some old" "mv_id old = i"
    "v = old\<lparr>mv_approval := (if pct = 100 then PRODUCTION else CANARY),
             mv_rollback_to := map_of (mr_active r) (mv_modality old)\<rparr>"
    "r' = r\<lparr>mr_versions := AList.update (model_version_id_value i) v (mr_versions r),
             mr_active := AList.update (mv_modality old) i (mr_active r)\<rparr>"
    using registry_promote_Inr [OF assms] .
  have "mv_modality v = mv_modality old" "mv_id v = i" using old by simp_all
  then show ?thesis
    using assms(1) old(1,2,4) unfolding wf_registry_def by (simp add: fun_upd_def) (metis option.inject)
qed

text \<open>
  Rolling back a promotion (QA-03). When a registered model of the same modality, other than the
  active one, is promoted and then rolled back, the model that was active before is returned and
  active again, with the content it had, and the promoted one is marked rolled back.
\<close>

theorem rollback_restores_previous:
  assumes "wf_registry r" and "active_for r m = Inr prev"
    and "registry_promote r i pct = Inr (v, r1)" and "mv_modality v = m" and "mv_id prev \<noteq> i"
  shows "\<exists>r2. registry_rollback r1 m = Inr (prev, r2) \<and> active_for r2 m = Inr prev \<and>
    map_option mv_approval (registry_get r2 i) = Some ROLLED_BACK"
proof -
  obtain j where j: "map_of (mr_active r) m = Some j" "map_of (mr_versions r) (model_version_id_value j) = Some prev"
    using assms(2) by (auto simp: active_for_def registry_version_def split: option.splits)
  have pj: "mv_id prev = j"
    using wf_registry_id [OF assms(1) j(2)] .
  obtain old where old: "map_of (mr_versions r) (model_version_id_value i) = Some old" "mv_id old = i"
    "v = old\<lparr>mv_approval := (if pct = 100 then PRODUCTION else CANARY),
             mv_rollback_to := map_of (mr_active r) (mv_modality old)\<rparr>"
    "r1 = r\<lparr>mr_versions := AList.update (model_version_id_value i) v (mr_versions r),
             mr_active := AList.update (mv_modality old) i (mr_active r)\<rparr>"
    using registry_promote_Inr [OF assms(1,3)] .
  then have m: "mv_modality old = m" using assms(4) by simp
  have "active_for r1 m = Inr v" "registry_version r1 j = Inr prev"
    using assms(5) pj j(2) old(4) m by (simp_all add: active_for_def registry_version_def)
  then show ?thesis
    using assms(5) pj j old m
    by (simp add: registry_rollback_def active_for_def registry_version_def registry_get_def)
qed

definition model_at :: "string \<Rightarrow> approval_state \<Rightarrow> model_version" where
  "model_at i a = \<lparr>mv_id = ModelVersionId i, mv_modality = AUDIO, mv_artifact_digest = ''d'',
     mv_dataset_version = ''1'', mv_approval = a, mv_metrics = [], mv_rollback_to = None\<rparr>"

definition sample_registry :: model_registry where
  "sample_registry = registry_register (registry_register empty_registry (model_at ''a'' PRODUCTION) True)
     (model_at ''b'' EVALUATED) False"

lemmas registry_defs = sample_registry_def registry_register_def empty_registry_def model_at_def Let_def

theorem rollback_restores_previous_witness:
  "\<exists>r2. registry_rollback (snd (projr (registry_promote sample_registry (ModelVersionId ''b'') 100))) AUDIO =
     Inr (model_at ''a'' PRODUCTION, r2)"
proof -
  have "wf_registry sample_registry"
    by (auto simp: wf_registry_def registry_defs split: if_splits)
  moreover have "active_for sample_registry AUDIO = Inr (model_at ''a'' PRODUCTION)"
    by (simp add: registry_defs active_for_def registry_version_def)
  moreover obtain v r1 where p: "registry_promote sample_registry (ModelVersionId ''b'') 100 = Inr (v, r1)"
      and "mv_modality v = AUDIO"
    by (simp add: registry_defs registry_promote_def PROMOTABLE_def)
  moreover have "mv_id (model_at ''a'' PRODUCTION) \<noteq> ModelVersionId ''b''"
    by (simp add: model_at_def)
  ultimately show ?thesis
    using rollback_restores_previous [of sample_registry AUDIO "model_at ''a'' PRODUCTION" "ModelVersionId ''b''" 100 v r1]
    by (simp only: p sum.sel snd_conv) blast
qed

text \<open>
  A canary that goes to production cannot be rolled back. Promoting the model that is already
  active, which is what a canary at 100 percent is, records the model itself as its rollback target:
  rolling back then answers with the unchanged model, leaves it active, and marks it rolled back.
\<close>

theorem full_promotion_loses_rollback:
  assumes "wf_registry r" and "registry_promote r i canary = Inr (v1, r1)" and "canary < 100"
  shows "\<exists>v2 r2 r3. registry_promote r1 i 100 = Inr (v2, r2) \<and>
    mv_rollback_to v2 = Some i \<and>
    registry_rollback r2 (mv_modality v1) = Inr (v2, r3) \<and>
    map_option mv_approval (registry_get r3 i) = Some ROLLED_BACK \<and>
    map_sum id mv_id (active_for r3 (mv_modality v1)) = Inr i"
proof -
  obtain old where old: "map_of (mr_versions r) (model_version_id_value i) = Some old" "mv_id old = i"
    "v1 = old\<lparr>mv_approval := (if canary = 100 then PRODUCTION else CANARY),
             mv_rollback_to := map_of (mr_active r) (mv_modality old)\<rparr>"
    "r1 = r\<lparr>mr_versions := AList.update (model_version_id_value i) v1 (mr_versions r),
        mr_active := AList.update (mv_modality old) i (mr_active r)\<rparr>"
    using registry_promote_Inr [OF assms(1,2)] .
  then have v1: "mv_id v1 = i" "mv_approval v1 = CANARY" "map_of (mr_versions r1) (model_version_id_value i) = Some v1"
      "map_of (mr_active r1) (mv_modality v1) = Some i"
    using assms(3) by simp_all
  define v2 where "v2 = v1\<lparr>mv_approval := PRODUCTION, mv_rollback_to := Some i\<rparr>"
  define r2 where "r2 = r1\<lparr>mr_versions := AList.update (model_version_id_value i) v2 (mr_versions r1),
      mr_active := AList.update (mv_modality v1) i (mr_active r1)\<rparr>"
  have v2: "mv_id v2 = i" "mv_rollback_to v2 = Some i" "mv_modality v2 = mv_modality v1"
    using v1(1) by (simp_all add: v2_def)
  have promote: "registry_promote r1 i 100 = Inr (v2, r2)"
    using v1 by (simp add: registry_promote_def PROMOTABLE_def Let_def v2_def r2_def)
  have r2: "map_of (mr_versions r2) (model_version_id_value i) = Some v2"
      "map_of (mr_active r2) (mv_modality v1) = Some i"
    by (simp_all add: r2_def)
  then have "registry_rollback r2 (mv_modality v1) = Inr (v2, r2\<lparr>mr_versions :=
      AList.update (model_version_id_value i) (v2\<lparr>mv_approval := ROLLED_BACK\<rparr>) (mr_versions r2),
      mr_active := AList.update (mv_modality v1) i (mr_active r2)\<rparr>)"
    using v2 by (simp add: registry_rollback_def active_for_def registry_version_def)
  with promote v2 show ?thesis
    by (auto simp: registry_get_def active_for_def registry_version_def)
qed

theorem full_promotion_loses_rollback_witness:
  "\<exists>v2 r2 r3. registry_promote (snd (projr (registry_promote sample_registry (ModelVersionId ''b'') 10)))
      (ModelVersionId ''b'') 100 = Inr (v2, r2) \<and>
    registry_rollback r2 AUDIO = Inr (v2, r3) \<and>
    map_option mv_approval (registry_get r3 (ModelVersionId ''b'')) = Some ROLLED_BACK"
proof -
  have "wf_registry sample_registry"
    by (auto simp: wf_registry_def registry_defs split: if_splits)
  moreover obtain v1 r1 where p: "registry_promote sample_registry (ModelVersionId ''b'') 10 = Inr (v1, r1)"
      and m: "mv_modality v1 = AUDIO"
    by (simp add: registry_defs registry_promote_def PROMOTABLE_def)
  ultimately obtain v2 r2 r3 where "registry_promote r1 (ModelVersionId ''b'') 100 = Inr (v2, r2)"
      "registry_rollback r2 AUDIO = Inr (v2, r3)"
      "map_option mv_approval (registry_get r3 (ModelVersionId ''b'')) = Some ROLLED_BACK"
    using full_promotion_loses_rollback [of sample_registry "ModelVersionId ''b''" 10 v1 r1]
    by (simp only: m) fastforce
  then show ?thesis unfolding p sum.sel snd_conv by blast
qed

end
