(* ===== verification/Identity.thy ===== *)
theory Identity
  imports Ports Sha256
begin

text \<open>
  \<open>adapters/outbound/persistence/identity.py\<close>: API keys, stored as a peppered SHA-256 hash and
  resolved to callers. The random part of a new secret and the identifier of its record are
  arguments, as is the clock's answer.
\<close>

definition KEY_PREFIX :: string where
  "KEY_PREFIX = ''oek_''"

record api_key_record =
  ak_id :: api_key_id
  ak_application :: application_id
  ak_tenant :: tenant_id
  ak_hashed_secret :: string
  ak_prefix :: string
  ak_scopes :: "scope list"
  ak_expires_at_ms :: "int option"
  ak_revoked_at_ms :: "int option"

definition is_usable :: "api_key_record \<Rightarrow> int \<Rightarrow> bool" where
  "is_usable r now_ms =
     (if ak_revoked_at_ms r \<noteq> None then False
      else case ak_expires_at_ms r of None \<Rightarrow> True | Some t \<Rightarrow> now_ms < t)"

definition hash_secret :: "string \<Rightarrow> string \<Rightarrow> string" where
  "hash_secret secret pepper = sha256_hexdigest (pepper @ '':'' @ secret)"

definition generate_secret :: "string \<Rightarrow> string" where
  "generate_secret token = KEY_PREFIX @ token"

record api_key_directory =
  kd_pepper :: string
  kd_by_hash :: "(string \<times> api_key_record) list"

definition ApiKeyDirectory :: "string \<Rightarrow> api_key_directory" where
  "ApiKeyDirectory pepper = \<lparr>kd_pepper = pepper, kd_by_hash = []\<rparr>"

definition key_register :: "api_key_directory \<Rightarrow> api_key_record \<Rightarrow> api_key_directory" where
  "key_register d r = d\<lparr>kd_by_hash := AList.update (ak_hashed_secret r) r (kd_by_hash d)\<rparr>"

definition key_issue ::
  "string \<Rightarrow> api_key_id \<Rightarrow> api_key_directory \<Rightarrow> application_id \<Rightarrow> tenant_id \<Rightarrow> scope list \<Rightarrow> int option \<Rightarrow>
   (string \<times> api_key_record) \<times> api_key_directory" where
  "key_issue token key_id d app tenant scopes expires_at_ms =
     (let secret = generate_secret token;
          r = \<lparr>ak_id = key_id, ak_application = app, ak_tenant = tenant,
            ak_hashed_secret = hash_secret secret (kd_pepper d),
            ak_prefix = take (length KEY_PREFIX + 6) secret, ak_scopes = scopes,
            ak_expires_at_ms = expires_at_ms, ak_revoked_at_ms = None\<rparr>
      in ((secret, r), key_register d r))"

text \<open>The loop of \<open>revoke\<close> stops at the first record with the identifier.\<close>

fun revoke_first ::
  "(string \<times> api_key_record) list \<Rightarrow> api_key_id \<Rightarrow> int \<Rightarrow> bool \<times> (string \<times> api_key_record) list" where
  "revoke_first [] key_id at_ms = (False, [])"
| "revoke_first ((hashed, r) # d) key_id at_ms =
     (if ak_id r \<noteq> key_id
      then (case revoke_first d key_id at_ms of (b, d') \<Rightarrow> (b, (hashed, r) # d'))
      else (True, (hashed, r\<lparr>ak_revoked_at_ms := Some at_ms\<rparr>) # d))"

definition key_revoke :: "api_key_directory \<Rightarrow> api_key_id \<Rightarrow> int \<Rightarrow> bool \<times> api_key_directory" where
  "key_revoke d key_id at_ms =
     (case revoke_first (kd_by_hash d) key_id at_ms of (b, d') \<Rightarrow> (b, d\<lparr>kd_by_hash := d'\<rparr>))"

text \<open>The walk over every record keeps the last match.\<close>

fun last_match :: "(string \<times> api_key_record) list \<Rightarrow> string \<Rightarrow> api_key_record option \<Rightarrow> api_key_record option" where
  "last_match [] candidate matched = matched"
| "last_match ((stored_hash, r) # d) candidate matched =
     last_match d candidate (if stored_hash = candidate then Some r else matched)"

definition authenticate ::
  "int \<Rightarrow> api_key_directory \<Rightarrow> string \<Rightarrow> string \<Rightarrow> authenticated_caller option" where
  "authenticate now d presented_secret trace_id =
     (case last_match (kd_by_hash d) (hash_secret presented_secret (kd_pepper d)) None of
        None \<Rightarrow> None
      | Some matched \<Rightarrow>
          if \<not> is_usable matched now then None
          else Some \<lparr>ac_application = ak_application matched, ac_tenant = ak_tenant matched,
                 ac_key_id = ak_id matched, ac_scopes = ak_scopes matched, ac_trace_id = trace_id\<rparr>)"

section \<open>The walk is a lookup\<close>

text \<open>A directory built by its operations: hashes are distinct and each record sits under its own.\<close>

definition wf_directory :: "api_key_directory \<Rightarrow> bool" where
  "wf_directory d \<longleftrightarrow> distinct (map fst (kd_by_hash d)) \<and>
     list_all (\<lambda>(h, r). ak_hashed_secret r = h) (kd_by_hash d)"

lemma last_match_lookup:
  "distinct (map fst d) \<Longrightarrow>
   last_match d c m = (case map_of d c of None \<Rightarrow> m | Some r \<Rightarrow> Some r)"
proof (induction d arbitrary: m)
  case (Cons p d)
  then show ?case
    by (cases p) (auto simp: map_of_eq_None_iff image_iff split: option.splits dest: map_of_SomeD)
qed simp

lemma revoke_first_keys: "map fst (snd (revoke_first d i t)) = map fst d"
  by (induction d i t rule: revoke_first.induct) (auto split: prod.splits)

lemma revoke_first_hashes:
  "list_all (\<lambda>(h, r). ak_hashed_secret r = h) d \<Longrightarrow>
   list_all (\<lambda>(h, r). ak_hashed_secret r = h) (snd (revoke_first d i t))"
  by (induction d i t rule: revoke_first.induct) (auto split: prod.splits)

lemma revoke_first_lookup:
  assumes "distinct (map fst d)" and "map_of d h = Some r" and "ak_id r = i"
    and "\<And>h' r'. map_of d h' = Some r' \<Longrightarrow> ak_id r' = i \<Longrightarrow> h' = h"
  shows "map_of (snd (revoke_first d i t)) h = Some (r\<lparr>ak_revoked_at_ms := Some t\<rparr>)"
  using assms
proof (induction d)
  case (Cons p d)
  obtain h0 r0 where p: "p = (h0, r0)" by (cases p)
  show ?case
  proof (cases "ak_id r0 = i")
    case True
    with Cons.prems(4) [of h0 r0] p have "h0 = h" by simp
    with Cons.prems(2) p True show ?thesis by simp
  next
    case False
    then have "h0 \<noteq> h" using Cons.prems(2,3) p by auto
    moreover have "map_of (snd (revoke_first d i t)) h = Some (r\<lparr>ak_revoked_at_ms := Some t\<rparr>)"
    proof (rule Cons.IH)
      show "h' = h" if "map_of d h' = Some r'" "ak_id r' = i" for h' r'
      proof (rule Cons.prems(4))
        have "h' \<in> fst ` set d" using that(1) by (force dest: map_of_SomeD)
        then have "h' \<noteq> h0" using Cons.prems(1) p by auto
        then show "map_of (p # d) h' = Some r'" using that p by simp
      qed (rule that)
    qed (use Cons.prems \<open>h0 \<noteq> h\<close> p in auto)
    ultimately show ?thesis using False p by (cases "revoke_first d i t") simp
  qed
qed simp

lemma revoke_first_found: "(h, r) \<in> set d \<Longrightarrow> ak_id r = i \<Longrightarrow> fst (revoke_first d i t)"
  by (induction d i t rule: revoke_first.induct) (auto simp: case_prod_unfold)

lemma wf_directory_register: "wf_directory d \<Longrightarrow> wf_directory (key_register d r)"
proof -
  have "list_all (\<lambda>(h, r). ak_hashed_secret r = h) (AList.update (ak_hashed_secret r) r xs)"
    if "list_all (\<lambda>(h, r). ak_hashed_secret r = h) xs" for xs
    using that by (induction xs) auto
  then show "wf_directory d \<Longrightarrow> wf_directory (key_register d r)"
    by (simp add: wf_directory_def key_register_def distinct_update)
qed

lemma wf_directory_revoke: "wf_directory d \<Longrightarrow> wf_directory (snd (key_revoke d i t))"
  using revoke_first_keys [of "kd_by_hash d" i t] revoke_first_hashes [of "kd_by_hash d" i t]
  by (cases "revoke_first (kd_by_hash d) i t") (simp add: wf_directory_def key_revoke_def)

lemma authenticate_lookup:
  assumes "wf_directory d"
  shows "authenticate now d secret trace =
     (case map_of (kd_by_hash d) (hash_secret secret (kd_pepper d)) of
        None \<Rightarrow> None
      | Some r \<Rightarrow> if is_usable r now
          then Some \<lparr>ac_application = ak_application r, ac_tenant = ak_tenant r, ac_key_id = ak_id r,
             ac_scopes = ak_scopes r, ac_trace_id = trace\<rparr> else None)"
  using assms by (auto simp: authenticate_def wf_directory_def last_match_lookup split: option.splits)

text \<open>
  What an issued key opens (US-006). Right after a key is issued, the secret handed out
  authenticates as a caller of exactly the application, tenant, key and scopes it was issued for,
  until it expires; and any secret whose peppered hash is different is answered as it was before.
\<close>

theorem issued_key_authenticates:
  assumes "wf_directory d" and "key_issue token i d app tenant scopes expiry = ((secret, r), d')"
  shows "authenticate now d' secret trace =
      (if (case expiry of None \<Rightarrow> True | Some t \<Rightarrow> now < t)
       then Some \<lparr>ac_application = app, ac_tenant = tenant, ac_key_id = i, ac_scopes = scopes,
                  ac_trace_id = trace\<rparr> else None) \<and>
    (if hash_secret other (kd_pepper d) = hash_secret secret (kd_pepper d) then True
      else authenticate now d' other trace = authenticate now d other trace)"
proof (rule conjI)
  have d': "d' = key_register d r" "secret = generate_secret token"
      "r = \<lparr>ak_id = i, ak_application = app, ak_tenant = tenant,
            ak_hashed_secret = hash_secret secret (kd_pepper d),
            ak_prefix = take (length KEY_PREFIX + 6) secret, ak_scopes = scopes,
            ak_expires_at_ms = expiry, ak_revoked_at_ms = None\<rparr>"
    using assms(2) by (auto simp: key_issue_def Let_def)
  have wf: "wf_directory d'"
    using assms(1) d'(1) by (simp add: wf_directory_register)
  have "authenticate now d' secret trace = Some \<lparr>ac_application = app, ac_tenant = tenant,
      ac_key_id = i, ac_scopes = scopes, ac_trace_id = trace\<rparr>" if "is_usable r now"
    using that by (simp add: authenticate_lookup [OF wf]) (simp add: d' key_register_def)
  moreover have "authenticate now d' secret trace = None" if "\<not> is_usable r now"
    using that by (simp add: authenticate_lookup [OF wf]) (simp add: d' key_register_def)
  moreover have "is_usable r now \<longleftrightarrow> (case expiry of None \<Rightarrow> True | Some t \<Rightarrow> now < t)"
    by (simp add: d' is_usable_def)
  ultimately show "authenticate now d' secret trace =
      (if (case expiry of None \<Rightarrow> True | Some t \<Rightarrow> now < t)
       then Some \<lparr>ac_application = app, ac_tenant = tenant, ac_key_id = i, ac_scopes = scopes,
                  ac_trace_id = trace\<rparr> else None)"
    by presburger
  show "if hash_secret other (kd_pepper d) = hash_secret secret (kd_pepper d) then True
      else authenticate now d' other trace = authenticate now d other trace"
    using wf assms(1) by (simp add: authenticate_lookup) (simp add: d' key_register_def)
qed

definition sample_issue :: "(string \<times> api_key_record) \<times> api_key_directory" where
  "sample_issue = key_issue ''abc'' (ApiKeyId ''k'') (ApiKeyDirectory ''pepper'') (ApplicationId ''a'')
     (TenantId ''t'') [SESSIONS_WRITE] (Some 100)"

lemma sample_issue_eq:
  "key_issue ''abc'' (ApiKeyId ''k'') (ApiKeyDirectory ''pepper'') (ApplicationId ''a'')
     (TenantId ''t'') [SESSIONS_WRITE] (Some 100) =
   ((fst (fst sample_issue), snd (fst sample_issue)), snd sample_issue)"
  by (simp add: sample_issue_def)

lemma wf_directory_empty: "wf_directory (ApiKeyDirectory pepper)"
  by (simp add: wf_directory_def ApiKeyDirectory_def)

theorem issued_key_authenticates_witness:
  "authenticate 99 (snd sample_issue) (fst (fst sample_issue)) ''x'' =
     Some \<lparr>ac_application = ApplicationId ''a'', ac_tenant = TenantId ''t'', ac_key_id = ApiKeyId ''k'',
       ac_scopes = [SESSIONS_WRITE], ac_trace_id = ''x''\<rparr> \<and>
   authenticate 100 (snd sample_issue) (fst (fst sample_issue)) ''x'' = None"
  using issued_key_authenticates [OF wf_directory_empty sample_issue_eq, of 99 "''x''"]
    issued_key_authenticates [OF wf_directory_empty sample_issue_eq, of 100 "''x''"]
  by simp

datatype key_op =
    Issue string api_key_id application_id tenant_id "scope list" "int option"
  | RevokeKey api_key_id int

fun do_key_op :: "api_key_directory \<Rightarrow> key_op \<Rightarrow> api_key_directory" where
  "do_key_op d (Issue token i app tenant scopes expiry) = snd (key_issue token i d app tenant scopes expiry)"
| "do_key_op d (RevokeKey i t) = snd (key_revoke d i t)"

definition reissues :: "api_key_directory \<Rightarrow> string \<Rightarrow> key_op \<Rightarrow> bool" where
  "reissues d secret oper \<longleftrightarrow> (case oper of
     Issue token _ _ _ _ _ \<Rightarrow>
       hash_secret (generate_secret token) (kd_pepper d) = hash_secret secret (kd_pepper d)
   | RevokeKey _ _ \<Rightarrow> False)"

definition revoked_under :: "api_key_directory \<Rightarrow> string \<Rightarrow> bool" where
  "revoked_under d h \<longleftrightarrow> (\<exists>r. map_of (kd_by_hash d) h = Some r \<and> ak_revoked_at_ms r \<noteq> None)"

lemma revoke_first_keeps_revoked:
  "map_of d h = Some r \<Longrightarrow> ak_revoked_at_ms r \<noteq> None \<Longrightarrow>
   \<exists>r'. map_of (snd (revoke_first d i t)) h = Some r' \<and> ak_revoked_at_ms r' \<noteq> None"
  by (induction d i t rule: revoke_first.induct) (auto split: prod.splits if_splits)

lemma kd_pepper_ops [simp]: "kd_pepper (do_key_op d oper) = kd_pepper d"
  by (cases oper) (simp_all add: key_issue_def Let_def key_register_def key_revoke_def split: prod.splits)

lemma reissues_op [simp]: "reissues (do_key_op d oper) secret = reissues d secret"
  by (rule ext) (simp add: reissues_def split: key_op.split)

lemma revoked_under_op:
  assumes "revoked_under d (hash_secret secret (kd_pepper d))" and "\<not> reissues d secret oper"
  shows "revoked_under (do_key_op d oper) (hash_secret secret (kd_pepper d))"
proof (cases oper)
  case (Issue token i app tenant scopes expiry)
  with assms show ?thesis
    by (auto simp: revoked_under_def reissues_def key_issue_def Let_def key_register_def)
next
  case (RevokeKey i t)
  from assms(1) obtain r where "map_of (kd_by_hash d) (hash_secret secret (kd_pepper d)) = Some r"
      "ak_revoked_at_ms r \<noteq> None"
    by (auto simp: revoked_under_def)
  from revoke_first_keeps_revoked [OF this, of i t] RevokeKey show ?thesis
    by (auto simp: revoked_under_def key_revoke_def split: prod.splits)
qed

lemma wf_directory_op: "wf_directory d \<Longrightarrow> wf_directory (do_key_op d oper)"
  by (cases oper)
    (simp_all add: wf_directory_revoke key_issue_def Let_def wf_directory_register)

lemma revoked_stays:
  assumes "wf_directory d" and "revoked_under d (hash_secret secret (kd_pepper d))"
    and "list_all (\<lambda>oper. \<not> reissues d secret oper) ops"
  shows "authenticate now (foldl do_key_op d ops) secret trace = None"
  using assms
proof (induction ops arbitrary: d)
  case Nil
  then show ?case
    by (auto simp: authenticate_lookup revoked_under_def is_usable_def split: option.splits)
next
  case (Cons oper ops)
  then show ?case using Cons.IH [of "do_key_op d oper"]
    by (simp add: wf_directory_op revoked_under_op)
qed

text \<open>
  Revocation blocks new calls immediately and for good (US-006). After a key was revoked, its
  secret authenticates nobody at any later time, and re-issuing or revoking other keys does not
  bring it back, as long as no record is registered under the same hash.
\<close>

theorem revoked_key_stays_out:
  assumes "wf_directory d" and "key_issue token i d app tenant scopes expiry = ((secret, r), d1)"
    and "list_all (\<lambda>(h, r'). ak_id r' \<noteq> i) (kd_by_hash d)"
    and "key_revoke d1 i t = (b, d2)"
    and "list_all (\<lambda>oper. \<not> reissues d secret oper) ops"
  shows "b \<and> authenticate now (foldl do_key_op d2 ops) secret trace = None"
proof -
  define h where "h = hash_secret secret (kd_pepper d)"
  have d1: "d1 = key_register d r" and r: "ak_hashed_secret r = h" "ak_id r = i"
    using assms(2) unfolding key_issue_def Let_def h_def prod.inject by (blast, force, force)
  have keep: "map_of (kd_by_hash d1) h = Some r"
    by (simp add: d1 key_register_def r)
  have wf: "wf_directory d1" using assms(1) d1 by (simp add: wf_directory_register)
  have only: "h' = h" if "map_of (kd_by_hash d1) h' = Some r'" "ak_id r' = i" for h' r'
  proof (rule ccontr)
    assume "h' \<noteq> h"
    with that(1) have "map_of (kd_by_hash d) h' = Some r'"
      by (simp add: d1 key_register_def r)
    with assms(3) that(2) show False
      by (auto simp: list_all_iff dest!: map_of_SomeD)
  qed
  have d2: "kd_by_hash d2 = snd (revoke_first (kd_by_hash d1) i t)" "b = fst (revoke_first (kd_by_hash d1) i t)"
      "kd_pepper d2 = kd_pepper d"
  proof -
    obtain b' ks where run: "revoke_first (kd_by_hash d1) i t = (b', ks)"
      by (cases "revoke_first (kd_by_hash d1) i t")
    have "b' = b" "d2 = d1\<lparr>kd_by_hash := ks\<rparr>"
      using assms(4) by (simp_all add: key_revoke_def run)
    then show "kd_by_hash d2 = snd (revoke_first (kd_by_hash d1) i t)"
        "b = fst (revoke_first (kd_by_hash d1) i t)" "kd_pepper d2 = kd_pepper d"
      by (simp_all add: run) (simp add: d1 key_register_def)
  qed
  have "map_of (kd_by_hash d2) h = Some (r\<lparr>ak_revoked_at_ms := Some t\<rparr>)"
  proof -
    have "distinct (map fst (kd_by_hash d1))" using wf by (simp add: wf_directory_def)
    from revoke_first_lookup [OF this keep r(2) only] show ?thesis unfolding d2(1) .
  qed
  then have rev: "revoked_under d2 (hash_secret secret (kd_pepper d2))"
    by (simp add: revoked_under_def h_def d2(3))
  have "wf_directory d2"
    using wf_directory_revoke [OF wf, of i t] assms(4) by simp
  moreover note rev
  moreover have "list_all (\<lambda>oper. \<not> reissues d2 secret oper) ops"
    using assms(5) unfolding reissues_def d2(3) .
  ultimately have "authenticate now (foldl do_key_op d2 ops) secret trace = None"
    by (rule revoked_stays)
  moreover have b
    unfolding d2(2) by (rule revoke_first_found [OF map_of_SomeD [OF keep] r(2)])
  ultimately show ?thesis by (intro conjI)
qed

theorem revoked_key_stays_out_witness:
  "authenticate 50 (foldl do_key_op (snd (key_revoke (snd sample_issue) (ApiKeyId ''k'') 40))
     [RevokeKey (ApiKeyId ''k'') 45]) (fst (fst sample_issue)) ''x'' = None"
proof -
  have "list_all (\<lambda>(h, r'). ak_id r' \<noteq> ApiKeyId ''k'') (kd_by_hash (ApiKeyDirectory ''pepper''))"
    by (simp add: ApiKeyDirectory_def)
  moreover have "key_revoke (snd sample_issue) (ApiKeyId ''k'') 40 =
     (fst (key_revoke (snd sample_issue) (ApiKeyId ''k'') 40), snd (key_revoke (snd sample_issue) (ApiKeyId ''k'') 40))"
    by simp
  moreover have "list_all (\<lambda>oper. \<not> reissues (ApiKeyDirectory ''pepper'') (fst (fst sample_issue)) oper)
      [RevokeKey (ApiKeyId ''k'') 45]"
    by (simp add: reissues_def)
  ultimately show ?thesis
    using revoked_key_stays_out [OF wf_directory_empty sample_issue_eq] by blast
qed

end
