(* ===== verification/UseCases.thy ===== *)
theory UseCases
  imports Stores Cache MediaStore Configuration Actions
begin

text \<open>
  The use cases that change a stored session (\<open>application/commands\<close>: \<open>capture_control.py\<close>,
  \<open>open_run.py\<close>, \<open>create_session.py\<close>, \<open>delete_evidence.py\<close>) and the queries of
  \<open>application/queries/read_session.py\<close>, over the in-memory adapters. Every reading of a clock is an
  argument, in the order in which the code takes them, and so are the random identifiers. Awaiting
  an in-memory adapter does not yield to the event loop, so a use case runs without interruption.
\<close>

section \<open>The engine\<close>

record engine =
  en_sessions :: session_repository
  en_runs :: run_repository
  en_evidence :: evidence_repository
  en_audit :: "audit_record list"
  en_media :: media_store
  en_stream :: stream_state
  en_quota :: quota_guard
  en_configuration :: configuration_store

definition save_session :: "analysis_session \<Rightarrow> (engine, unit) action" where
  "save_session s = modifyA (\<lambda>e. e\<lparr>en_sessions := sessions_save (en_sessions e) s\<rparr>)"

definition record_audit :: "audit_record \<Rightarrow> (engine, unit) action" where
  "record_audit r = modifyA (\<lambda>e. e\<lparr>en_audit := audit_append (en_audit e) r\<rparr>)"

text \<open>The common head of the use cases: the scope, then the session within the caller's tenant.\<close>

definition require_session ::
  "scope \<Rightarrow> authenticated_caller \<Rightarrow> session_id \<Rightarrow> (engine, analysis_session) action" where
  "require_session needed caller i =
     (if \<not> caller_allows caller needed then raiseA (ApplicationError NotAuthorized)
      else bindA (getA (\<lambda>e. sessions_get (en_sessions e) (ac_tenant caller) i)) (\<lambda>found.
        case found of
          None \<Rightarrow> raiseA (ApplicationError SessionNotFound)
        | Some s \<Rightarrow> returnA s))"

section \<open>Capture control\<close>

definition change_session ::
  "(analysis_session \<Rightarrow> analysis_session result) \<Rightarrow> authenticated_caller \<Rightarrow> session_id \<Rightarrow>
   (engine, analysis_session) action" where
  "change_session oper caller i =
     bindA (require_session SESSIONS_WRITE caller i) (\<lambda>s.
     bindA (liftA (oper s)) (\<lambda>updated.
     seqA (save_session updated) (returnA updated)))"

definition capture_begin :: "int \<Rightarrow> authenticated_caller \<Rightarrow> session_id \<Rightarrow> (engine, analysis_session) action" where
  "capture_begin wall_ms = change_session (\<lambda>s. begin_capture s wall_ms)"

definition capture_pause :: "int \<Rightarrow> authenticated_caller \<Rightarrow> session_id \<Rightarrow> (engine, analysis_session) action" where
  "capture_pause wall_ms = change_session (\<lambda>s. pause_capture s wall_ms)"

definition capture_resume :: "int \<Rightarrow> authenticated_caller \<Rightarrow> session_id \<Rightarrow> (engine, analysis_session) action" where
  "capture_resume wall_ms = change_session (\<lambda>s. resume_capture s wall_ms)"

section \<open>Processing runs\<close>

definition open_run ::
  "run_id \<Rightarrow> int \<Rightarrow> semantic_version \<Rightarrow> authenticated_caller \<Rightarrow> session_id \<Rightarrow> (engine, processing_run) action"
where
  "open_run fresh epoch_ms pipeline_version caller i =
     bindA (require_session SESSIONS_WRITE caller i) (\<lambda>_.
       let run = \<lparr>pr_id = fresh, pr_session_id = i, pr_pipeline_version = pipeline_version,
             pr_state = RUN_RUNNING, pr_started_at_ms = epoch_ms, pr_completed_at_ms = None,
             pr_completed_stages = []\<rparr>
       in seqA (modifyA (\<lambda>e. e\<lparr>en_runs := runs_add (en_runs e) run\<rparr>)) (returnA run))"

definition close_run :: "int \<Rightarrow> run_id \<Rightarrow> bool \<Rightarrow> (engine, unit) action" where
  "close_run epoch_ms i succeeded =
     bindA (getA (\<lambda>e. runs_get (en_runs e) i)) (\<lambda>found.
       case found of
         None \<Rightarrow> returnA ()
       | Some run \<Rightarrow> modifyA (\<lambda>e. e\<lparr>en_runs := runs_save (en_runs e)
           (run\<lparr>pr_state := (if succeeded then RUN_COMPLETED else RUN_FAILED),
                pr_completed_at_ms := Some epoch_ms\<rparr>)\<rparr>))"

section \<open>Creating a session\<close>

record create_session_command =
  csc_mode :: session_mode
  csc_capabilities :: capability_request
  csc_consent_policy_version :: semantic_version
  csc_retention :: retention_policy
  csc_idempotency_key :: "string option"

record stream_grant =
  gr_session_id :: session_id
  gr_tenant :: tenant_id
  gr_application :: application_id
  gr_key_id :: api_key_id
  gr_expires_at_ms :: int
  gr_scopes :: "scope list"

definition STREAM_SCOPES :: "scope list" where
  "STREAM_SCOPES = [SESSIONS_WRITE, SESSIONS_READ]"

definition STREAM_TOKEN_TTL_MS :: int where
  "STREAM_TOKEN_TTL_MS = 300000"

record created_session =
  cd_session :: analysis_session
  cd_stream_token :: string
  cd_stream_token_expires_at_ms :: int
  cd_was_existing :: bool

text \<open>The minter is a port: an argument from grants to tokens.\<close>

definition mint_grant ::
  "(stream_grant \<Rightarrow> string) \<Rightarrow> authenticated_caller \<Rightarrow> session_id \<Rightarrow> int \<Rightarrow> string \<times> int" where
  "mint_grant mint caller i now_ms =
     (let expires_at_ms = now_ms + STREAM_TOKEN_TTL_MS;
          grant = \<lparr>gr_session_id = i, gr_tenant = ac_tenant caller,
            gr_application = ac_application caller, gr_key_id = ac_key_id caller,
            gr_expires_at_ms = expires_at_ms, gr_scopes = STREAM_SCOPES\<rparr>
      in (mint grant, expires_at_ms))"

definition replay ::
  "(stream_grant \<Rightarrow> string) \<Rightarrow> int \<Rightarrow> authenticated_caller \<Rightarrow> create_session_command \<Rightarrow> session_repository \<Rightarrow>
   created_session option" where
  "replay mint epoch_ms caller command repo =
     (case csc_idempotency_key command of
        None \<Rightarrow> None
      | Some key \<Rightarrow>
          (case find_by_idempotency_key repo (ac_application caller) key of
             None \<Rightarrow> None
           | Some found \<Rightarrow>
               let (token, expires_at_ms) = mint_grant mint caller (as_id found) epoch_ms
               in Some \<lparr>cd_session = found, cd_stream_token = token,
                    cd_stream_token_expires_at_ms = expires_at_ms, cd_was_existing = True\<rparr>))"

text \<open>The readings of the clock in one execution, in textual order.\<close>

record create_clock =
  cl_replay :: int
  cl_quota_key :: int
  cl_quota_end :: int
  cl_now :: int
  cl_replay_again :: int
  cl_consume :: int

definition check_quota :: "create_clock \<Rightarrow> authenticated_caller \<Rightarrow> (engine, unit) action" where
  "check_quota clk caller =
     bindA (zoomA en_quota (\<lambda>f e. e\<lparr>en_quota := f (en_quota e)\<rparr>)
        (\<lambda>g. Inr (quota_check (cl_quota_key clk) (cl_quota_end clk) g (ac_application caller) ''sessions'' 1)))
       (\<lambda>d. if qd_allowed d then returnA ()
             else raiseA (ApplicationError (QuotaExceeded (qd_retry_after_seconds d))))"

definition new_session ::
  "session_id \<Rightarrow> int \<Rightarrow> authenticated_caller \<Rightarrow> create_session_command \<Rightarrow> negotiated_capabilities \<Rightarrow>
   configuration_snapshot \<Rightarrow> analysis_session result" where
  "new_session fresh now_ms caller command caps snapshot =
     bindR (ConsentReceipt fresh (csc_consent_policy_version command) (csc_retention command) now_ms)
       (\<lambda>receipt.
         with_consent (AnalysisSession fresh (ac_application caller) (ac_tenant caller) (csc_mode command)
           (cap_locale caps) caps (cs_id snapshot) now_ms) receipt)"

definition creation_record :: "authenticated_caller \<Rightarrow> session_id \<Rightarrow> int \<Rightarrow> session_mode \<Rightarrow> string \<Rightarrow> audit_record" where
  "creation_record caller i now_ms mode loc =
     \<lparr>au_actor = application_id_value (ac_application caller), au_action = ''session.create'',
      au_resource = session_id_value i, au_timestamp_ms = now_ms, au_trace_id = ac_trace_id caller,
      au_outcome = ''created'', au_tenant = Some (ac_tenant caller),
      au_detail = ''mode='' @ session_mode_value mode @ '' locale='' @ loc\<rparr>"

text \<open>Reserving the key: what another request already stored under it, if it was taken.\<close>

definition claim_key ::
  "(stream_grant \<Rightarrow> string) \<Rightarrow> create_clock \<Rightarrow> authenticated_caller \<Rightarrow> create_session_command \<Rightarrow> session_id \<Rightarrow>
   (engine, created_session option) action" where
  "claim_key mint clk caller command i =
     (case csc_idempotency_key command of
        None \<Rightarrow> returnA None
      | Some key \<Rightarrow>
          bindA (zoomA en_sessions (\<lambda>f e. e\<lparr>en_sessions := f (en_sessions e)\<rparr>)
              (\<lambda>r. Inr (claim_idempotency_key r (ac_application caller) key i))) (\<lambda>claimed.
            if claimed then returnA None
            else getA (\<lambda>e. replay mint (cl_replay_again clk) caller command (en_sessions e))))"

definition store_new_session ::
  "(stream_grant \<Rightarrow> string) \<Rightarrow> create_clock \<Rightarrow> authenticated_caller \<Rightarrow> analysis_session \<Rightarrow>
   configuration_snapshot \<Rightarrow> (engine, created_session) action" where
  "store_new_session mint clk caller s snapshot =
     seqA (modifyA (\<lambda>e. e\<lparr>en_sessions := sessions_add (en_sessions e) s,
         en_configuration := config_freeze (en_configuration e) snapshot (as_id s)\<rparr>))
     (let (token, expires_at_ms) = mint_grant mint caller (as_id s) (cl_now clk) in
      seqA (record_audit (creation_record caller (as_id s) (cl_now clk) (as_mode s) (as_locale s)))
      (seqA (modifyA (\<lambda>e. e\<lparr>en_quota :=
          quota_consume (cl_consume clk) (en_quota e) (ac_application caller) ''sessions'' 1\<rparr>))
        (returnA \<lparr>cd_session = s, cd_stream_token = token,
           cd_stream_token_expires_at_ms = expires_at_ms, cd_was_existing = False\<rparr>)))"

definition create_session ::
  "(stream_grant \<Rightarrow> string) \<Rightarrow> session_id \<Rightarrow> create_clock \<Rightarrow> authenticated_caller \<Rightarrow>
   create_session_command \<Rightarrow> (engine, created_session) action" where
  "create_session mint fresh clk caller command =
     (if \<not> caller_allows caller SESSIONS_WRITE then raiseA (ApplicationError NotAuthorized)
      else bindA (getA (\<lambda>e. replay mint (cl_replay clk) caller command (en_sessions e))) (\<lambda>existing.
        case existing of
          Some c \<Rightarrow> returnA c
        | None \<Rightarrow>
            seqA (check_quota clk caller)
            (bindA (liftA (negotiate (csc_capabilities command))) (\<lambda>caps.
             bindA (getA (\<lambda>e. config_current (en_configuration e) (ac_tenant caller))) (\<lambda>snapshot.
             bindA (liftA (new_session fresh (cl_now clk) caller command caps snapshot)) (\<lambda>s.
             bindA (claim_key mint clk caller command fresh) (\<lambda>replayed.
               case replayed of
                 Some c \<Rightarrow> returnA c
               | None \<Rightarrow> store_new_session mint clk caller s snapshot)))))))"

section \<open>Deleting evidence\<close>

record deletion_receipt =
  dr_session_id :: session_id
  dr_media_objects_deleted :: int
  dr_evidence_records_deleted :: int
  dr_was_already_deleted :: bool

definition deletion_record :: "authenticated_caller \<Rightarrow> session_id \<Rightarrow> int \<Rightarrow> int \<Rightarrow> int \<Rightarrow> audit_record" where
  "deletion_record caller i now_ms media evidence =
     \<lparr>au_actor = application_id_value (ac_application caller), au_action = ''evidence.delete'',
      au_resource = session_id_value i, au_timestamp_ms = now_ms, au_trace_id = ac_trace_id caller,
      au_outcome = ''deleted'', au_tenant = Some (ac_tenant caller),
      au_detail = ''media_objects='' @ show_int media @ '' evidence_records='' @ show_int evidence\<rparr>"

text \<open>What is erased before the session is marked: signatures, media, evidence, stream state.\<close>

definition erase :: "tenant_id \<Rightarrow> session_id \<Rightarrow> (engine, int \<times> int) action" where
  "erase tenant i e =
     (let (media, m) = media_delete_for_session (revoke_signatures (en_media e) tenant i) tenant i;
          (evidence, ev) = evidence_delete_for_session (en_evidence e) tenant i
      in (e\<lparr>en_media := m, en_evidence := ev, en_stream := stream_clear (en_stream e) i\<rparr>,
          Inr (media, evidence)))"

definition delete_evidence ::
  "int \<Rightarrow> authenticated_caller \<Rightarrow> session_id \<Rightarrow> (engine, deletion_receipt) action" where
  "delete_evidence epoch_ms caller i =
     bindA (require_session EVIDENCE_DELETE caller i) (\<lambda>s.
       if as_state s = EVIDENCE_DELETED then
         returnA \<lparr>dr_session_id = i, dr_media_objects_deleted = 0, dr_evidence_records_deleted = 0,
           dr_was_already_deleted = True\<rparr>
       else bindA (erase (ac_tenant caller) i) (\<lambda>(media, evidence).
         bindA (liftA (mark_evidence_deleted s epoch_ms)) (\<lambda>deleted.
         seqA (save_session deleted)
         (seqA (record_audit (deletion_record caller i epoch_ms media evidence))
           (returnA \<lparr>dr_session_id = i, dr_media_objects_deleted = media,
              dr_evidence_records_deleted = evidence, dr_was_already_deleted = False\<rparr>)))))"

definition verify_deletion ::
  "int \<Rightarrow> authenticated_caller \<Rightarrow> session_id \<Rightarrow> (engine, bool) action" where
  "verify_deletion epoch_ms caller i =
     (if \<not> caller_allows caller EVIDENCE_DELETE then raiseA (ApplicationError NotAuthorized)
      else getA (\<lambda>e. media_count_for_session epoch_ms (en_media e) (ac_tenant caller) i = 0))"

section \<open>Queries\<close>

definition read_session :: "authenticated_caller \<Rightarrow> session_id \<Rightarrow> (engine, analysis_session) action" where
  "read_session = require_session SESSIONS_READ"

definition read_result :: "authenticated_caller \<Rightarrow> session_id \<Rightarrow> (engine, evidence_document) action" where
  "read_result caller i =
     bindA (require_session RESULTS_READ caller i) (\<lambda>s.
       if as_state s = EVIDENCE_DELETED then raiseA (ApplicationError ResultNotReady)
       else if as_state s \<noteq> COMPLETED then raiseA (ApplicationError ResultNotReady)
       else bindA (getA (\<lambda>e. load_document (en_evidence e) (ac_tenant caller) i)) (\<lambda>document.
         case document of
           None \<Rightarrow> raiseA (ApplicationError ResultNotReady)
         | Some d \<Rightarrow> returnA d))"

record capabilities =
  cps_schema_version :: semantic_version
  cps_taxonomy_version :: semantic_version
  cps_audio_codecs :: "string list"
  cps_sample_rates_hz :: "int list"
  cps_video_formats :: "string list"
  cps_frame_rate_range_fps :: "int \<times> int"
  cps_locales :: "string list"
  cps_speech_event_types :: "string list"
  cps_visual_event_types :: "string list"
  cps_ranking_authority :: string

definition read_capabilities :: "semantic_version \<Rightarrow> capabilities" where
  "read_capabilities schema_version =
     \<lparr>cps_schema_version = schema_version, cps_taxonomy_version = TAXONOMY_VERSION,
      cps_audio_codecs = sort (map audio_codec_value audio_codecs),
      cps_sample_rates_hz = sort SUPPORTED_SAMPLE_RATES_HZ,
      cps_video_formats = sort (map video_format_value video_formats),
      cps_frame_rate_range_fps = (MIN_FRAME_RATE_FPS, MAX_FRAME_RATE_FPS),
      cps_locales = sort SUPPORTED_LOCALES,
      cps_speech_event_types = sort (map speech_type_value speech_event_types),
      cps_visual_event_types = sort (map visual_type_value visual_event_types),
      cps_ranking_authority = ''none''\<rparr>"

end
