(* ===== verification/Completion.thy ===== *)
theory Completion
  imports UseCases Streaming
begin

text \<open>
  \<open>application/commands/complete_session.py\<close>: closing capture, confirming chunk loss, fusing the
  finalized events, assembling and storing the evidence document. It works on the engine and on the
  streaming state of the connection, which it also changes: confirming the gaps is an effect on the
  chunk ledgers.
\<close>

section \<open>Parts\<close>

definition loss_ratio :: "int \<Rightarrow> int \<Rightarrow> rat" where
  "loss_ratio missing highest =
     (let expected = highest + 1 in if expected \<le> 0 then 0 else of_int missing / of_int expected)"

definition add_model :: "(modality \<times> model_version_id) list \<Rightarrow> provenance \<Rightarrow> (modality \<times> model_version_id) list" where
  "add_model models p =
     (if map_of models (prov_modality p) = None
      then AList.update (prov_modality p) (prov_model_version p) models else models)"

definition models_used :: "speech_event list \<Rightarrow> visual_event list \<Rightarrow> (modality \<times> model_version_id) list" where
  "models_used speech_events visual_events =
     foldl add_model (foldl add_model [] (map se_provenance speech_events)) (map ve_provenance visual_events)"

definition loss_assessment :: "modality \<Rightarrow> interval \<Rightarrow> chunk_ledger \<Rightarrow> confidence \<Rightarrow> quality_assessment" where
  "loss_assessment m captured l certain =
     \<lparr>qa_modality = m, qa_metric = CHUNK_LOSS_RATIO, qa_window = captured,
      qa_value = Measured (loss_ratio (missing_count l) (highest_seen l)) certain ''ratio''\<rparr>"

definition with_transport_quality ::
  "analysis_session \<Rightarrow> int \<Rightarrow> streaming_state \<Rightarrow> (quality_report \<times> streaming_state) result" where
  "with_transport_quality s wall_ms st =
     bindR (session_captured_ms s wall_ms) (\<lambda>ms.
     bindR (interval_of 0 (max ms 0)) (\<lambda>captured.
     bindR (confidence_calibrated 1) (\<lambda>certain.
       let audio = snd (finalize_ledger (ss_audio_chunks st));
           video = snd (finalize_ledger (ss_video_chunks st));
           st' = st\<lparr>ss_audio_chunks := audio, ss_video_chunks := video\<rparr>;
           assessments = loss_assessment AUDIO captured audio certain #
             (if 0 \<le> highest_seen video then [loss_assessment VIDEO captured video certain] else [])
       in Inr (report_extended (ss_quality st) assessments [], st'))))"

text \<open>The payload that is walked for ranking keys: identifiers and classes.\<close>

definition id_and_type :: "event_id \<Rightarrow> string \<Rightarrow> json" where
  "id_and_type i t = JMap [(''id'', JStr (event_id_value i)), (''type'', JStr t)]"

definition checked_payload :: "speech_event list \<Rightarrow> visual_event list \<Rightarrow> (string \<times> json) list" where
  "checked_payload speech visual =
     [(''speech_events'', JSeq (map (\<lambda>e. id_and_type (se_id e) (speech_type_value (se_type e))) speech)),
      (''visual_events'', JSeq (map (\<lambda>e. id_and_type (ve_id e) (visual_type_value (ve_type e))) visual))]"

definition completion_record ::
  "authenticated_caller \<Rightarrow> session_id \<Rightarrow> int \<Rightarrow> nat \<Rightarrow> nat \<Rightarrow> nat \<Rightarrow> audit_record" where
  "completion_record caller i now_ms n_speech n_visual n_co =
     \<lparr>au_actor = application_id_value (ac_application caller), au_action = ''session.complete'',
      au_resource = session_id_value i, au_timestamp_ms = now_ms, au_trace_id = ac_trace_id caller,
      au_outcome = ''completed'', au_tenant = Some (ac_tenant caller),
      au_detail = ''speech_events='' @ show_int (int n_speech) @ '' visual_events='' @
        show_int (int n_visual) @ '' cooccurrences='' @ show_int (int n_co)\<rparr>"

section \<open>The use case\<close>

record completed_session =
  cm_session :: analysis_session
  cm_document :: evidence_document

definition assemble_document ::
  "authenticated_caller \<Rightarrow> session_id \<Rightarrow> configuration_snapshot \<Rightarrow> quality_report \<Rightarrow> streaming_state \<Rightarrow>
   (evidence_bundle \<times> evidence_document) result" where
  "assemble_document caller i configuration quality st =
     bindR (mapR speech_finalize (map snd (ss_speech_events st))) (\<lambda>speech_events.
     bindR (mapR visual_finalize (map snd (ss_visual_events st))) (\<lambda>visual_events.
     bindR (fuse speech_events visual_events (cs_fusion_window configuration) True) (\<lambda>cooccurrences.
     let bundle = \<lparr>eb_run_id = ss_run_id st, eb_session_id = i, eb_tenant = ac_tenant caller,
           eb_transcript = ss_transcript st, eb_quality = quality, eb_speech_events = speech_events,
           eb_visual_events = visual_events, eb_prosody = ss_prosody st,
           eb_cooccurrences = cooccurrences\<rparr>
     in bindR (ProvenanceManifest (cs_pipeline_version configuration) (cs_schema_version configuration)
          (cs_taxonomy_version configuration) (cs_id configuration)
          (models_used speech_events visual_events)) (\<lambda>manifest.
        let document = \<lparr>ed_session_id = i, ed_run_id = ss_run_id st, ed_manifest = manifest,
              ed_transcript = eb_transcript bundle, ed_quality = eb_quality bundle,
              ed_speech_events = eb_speech_events bundle, ed_visual_events = eb_visual_events bundle,
              ed_prosody = eb_prosody bundle, ed_cooccurrences = eb_cooccurrences bundle\<rparr>
        in bindR (assert_carries_no_ranking (checked_payload speech_events visual_events)) (\<lambda>_.
           Inr (bundle, document))))))"

definition on_engine :: "(engine, 'a) action \<Rightarrow> (engine \<times> 't, 'a) action" where
  "on_engine m es = (case m (fst es) of (e', r) \<Rightarrow> ((e', snd es), r))"

definition store_evidence ::
  "evidence_bundle \<Rightarrow> evidence_document \<Rightarrow> tenant_id \<Rightarrow> (engine, unit) action" where
  "store_evidence bundle document tenant =
     modifyA (\<lambda>e. e\<lparr>en_evidence := store_document (evidence_store (en_evidence e) bundle) (document, tenant)\<rparr>)"

definition complete_session ::
  "int \<Rightarrow> int \<Rightarrow> authenticated_caller \<Rightarrow> session_id \<Rightarrow> configuration_snapshot \<Rightarrow>
   (engine \<times> streaming_state, completed_session) action" where
  "complete_session wall_ms epoch_ms caller i configuration =
     bindA (on_engine (require_session SESSIONS_WRITE caller i)) (\<lambda>s.
     bindA (liftA (request_completion s wall_ms)) (\<lambda>s1.
     seqA (on_engine (save_session s1))
     (bindA (zoomA snd (\<lambda>f (e, st). (e, f st)) (with_transport_quality s1 wall_ms)) (\<lambda>quality.
      bindA (getA snd) (\<lambda>st.
      bindA (liftA (assemble_document caller i configuration quality st)) (\<lambda>(bundle, document).
      seqA (on_engine (store_evidence bundle document (ac_tenant caller)))
      (bindA (liftA (mark_completed s1 epoch_ms)) (\<lambda>s2.
       seqA (on_engine (save_session s2))
       (seqA (on_engine (record_audit (completion_record caller i epoch_ms
                (length (ed_speech_events document)) (length (ed_visual_events document))
                (length (ed_cooccurrences document)))))
         (returnA \<lparr>cm_session = s2, cm_document = document\<rparr>))))))))))"

end
