(* ===== verification/UseCaseFacts.thy ===== *)
theory UseCaseFacts
  imports Completion
begin

text \<open>
  How each use case runs, step by step, and the invariant of the stored sessions: every session sits
  under its own tenant and identifier, satisfies the invariants of the aggregate, and every claimed
  idempotency key resolves to a stored session of its application.
\<close>

section \<open>Runs\<close>

lemma require_session_run [simp]:
  "require_session n caller i e =
     (if caller_allows caller n
      then (e, case sessions_get (en_sessions e) (ac_tenant caller) i of
                 None \<Rightarrow> Inl (ApplicationError SessionNotFound) | Some s \<Rightarrow> Inr s)
      else (e, Inl (ApplicationError NotAuthorized)))"
  by (simp add: require_session_def bindA_run split: option.splits)

lemma save_session_run [simp]:
  "save_session s e = (e\<lparr>en_sessions := sessions_save (en_sessions e) s\<rparr>, Inr ())"
  by (simp add: save_session_def)

lemma record_audit_run [simp]:
  "record_audit r e = (e\<lparr>en_audit := en_audit e @ [r]\<rparr>, Inr ())"
  by (simp add: record_audit_def audit_append_def)

lemma change_session_run:
  "change_session oper caller i e =
     (case snd (require_session SESSIONS_WRITE caller i e) of
        Inl x \<Rightarrow> (e, Inl x)
      | Inr s \<Rightarrow> (case oper s of
          Inl x \<Rightarrow> (e, Inl x)
        | Inr s' \<Rightarrow> (e\<lparr>en_sessions := sessions_save (en_sessions e) s'\<rparr>, Inr s')))"
  by (simp add: change_session_def bindA_run split: option.splits sum.splits)

lemma on_engine_run [simp]: "on_engine m (e, st) = ((fst (m e), st), snd (m e))"
  by (simp add: on_engine_def split: prod.splits)

lemma mark_completed_COMPLETING:
  "request_completion s w = Inr s1 \<Longrightarrow>
   mark_completed s1 epoch = Inr (s1\<lparr>as_state := COMPLETED, as_completed_at_ms := Some epoch\<rparr>)"
  by (auto simp: request_completion_Inr mark_completed_def can_transition_def)

definition completed :: "analysis_session \<Rightarrow> int \<Rightarrow> analysis_session" where
  "completed s1 epoch = s1\<lparr>as_state := COMPLETED, as_completed_at_ms := Some epoch\<rparr>"

lemma complete_session_run:
  "complete_session wall epoch caller i cfg (e, st) =
     (case snd (require_session SESSIONS_WRITE caller i e) of
        Inl x \<Rightarrow> ((e, st), Inl x)
      | Inr s \<Rightarrow> (case request_completion s wall of
          Inl x \<Rightarrow> ((e, st), Inl x)
        | Inr s1 \<Rightarrow> let e1 = e\<lparr>en_sessions := sessions_save (en_sessions e) s1\<rparr> in
           (case with_transport_quality s1 wall st of
              Inl x \<Rightarrow> ((e1, st), Inl x)
            | Inr (q, st') \<Rightarrow> (case assemble_document caller i cfg q st' of
                Inl x \<Rightarrow> ((e1, st'), Inl x)
              | Inr (b, d) \<Rightarrow>
                  ((e1\<lparr>en_evidence := store_document (evidence_store (en_evidence e) b) (d, ac_tenant caller),
                      en_sessions := sessions_save (en_sessions e1) (completed s1 epoch),
                      en_audit := en_audit e @ [completion_record caller i epoch (length (ed_speech_events d))
                        (length (ed_visual_events d)) (length (ed_cooccurrences d))]\<rparr>, st'),
                   Inr \<lparr>cm_session = completed s1 epoch, cm_document = d\<rparr>)))))"
proof (cases "snd (require_session SESSIONS_WRITE caller i e)")
  case (Inr s)
  then have r: "require_session SESSIONS_WRITE caller i e = (e, Inr s)"
    by (auto split: if_splits)
  show ?thesis
  proof (cases "request_completion s wall")
    case (Inl x)
    with r show ?thesis
      by (simp add: complete_session_def bindA_run del: require_session_run)
  next
    case s1: (Inr s1)
    let ?e1 = "e\<lparr>en_sessions := sessions_save (en_sessions e) s1\<rparr>"
    show ?thesis
    proof (cases "with_transport_quality s1 wall st")
      case (Inl x)
      with r s1 show ?thesis
        by (simp add: complete_session_def bindA_run zoomA_def Let_def del: require_session_run)
    next
      case q: (Inr qs)
      obtain q' st' where qs: "qs = (q', st')" by (cases qs)
      show ?thesis
        using r s1 q mark_completed_COMPLETING [OF s1, of epoch]
        by (cases "assemble_document caller i cfg q' st'")
          (simp_all add: complete_session_def bindA_run zoomA_def qs Let_def store_evidence_def
             completed_def case_prod_unfold del: require_session_run)
    qed
  qed
next
  case (Inl x)
  then have "require_session SESSIONS_WRITE caller i e = (e, Inl x)"
    by (auto split: if_splits)
  then show ?thesis
    by (simp add: complete_session_def bindA_run del: require_session_run)
qed

lemma delete_evidence_run:
  "delete_evidence epoch caller i e =
     (case snd (require_session EVIDENCE_DELETE caller i e) of
        Inl x \<Rightarrow> (e, Inl x)
      | Inr s \<Rightarrow>
          if as_state s = EVIDENCE_DELETED then
            (e, Inr \<lparr>dr_session_id = i, dr_media_objects_deleted = 0, dr_evidence_records_deleted = 0,
              dr_was_already_deleted = True\<rparr>)
          else let e1 = fst (erase (ac_tenant caller) i e);
                   n = fst (media_delete_for_session (revoke_signatures (en_media e) (ac_tenant caller) i) (ac_tenant caller) i);
                   k = fst (evidence_delete_for_session (en_evidence e) (ac_tenant caller) i)
            in (case mark_evidence_deleted s epoch of
                  Inl x \<Rightarrow> (e1, Inl x)
                | Inr s' \<Rightarrow> (e1\<lparr>en_sessions := sessions_save (en_sessions e) s',
                      en_audit := en_audit e @ [deletion_record caller i epoch n k]\<rparr>,
                    Inr \<lparr>dr_session_id = i, dr_media_objects_deleted = n,
                      dr_evidence_records_deleted = k, dr_was_already_deleted = False\<rparr>)))"
  by (simp add: delete_evidence_def bindA_run erase_def Let_def case_prod_unfold split: option.splits sum.splits)

text \<open>Creating, from the moment the key was found free.\<close>

lemma replay_None_key:
  "replay mint t caller command repo = None \<Longrightarrow> csc_idempotency_key command = Some key \<Longrightarrow>
   find_by_idempotency_key repo (ac_application caller) key = None"
  by (auto simp: replay_def case_prod_unfold Let_def split: option.splits)

section \<open>The invariant\<close>

definition repo_inv :: "session_repository \<Rightarrow> bool" where
  "repo_inv r \<longleftrightarrow>
     distinct (map fst (sp_sessions r)) \<and>
     (\<forall>(k, s) \<in> set (sp_sessions r). k = session_key s \<and> clock_inv s \<and> consent_inv s) \<and>
     (\<forall>app key i. ((application_id_value app, key), i) \<in> set (sp_idempotency r) \<longrightarrow>
        (\<exists>s \<in> snd ` set (sp_sessions r). as_id s = i \<and> as_application_id s = app))"

lemma repo_invD:
  assumes "repo_inv r"
  shows "distinct (map fst (sp_sessions r))"
    and "(k, s) \<in> set (sp_sessions r) \<Longrightarrow> k = session_key s \<and> clock_inv s \<and> consent_inv s"
    and "((application_id_value app, key), i) \<in> set (sp_idempotency r) \<Longrightarrow>
      \<exists>s \<in> snd ` set (sp_sessions r). as_id s = i \<and> as_application_id s = app"
  using assms unfolding repo_inv_def by blast+

lemma sessions_get_mem:
  "sessions_get r t i = Some s \<Longrightarrow> ((tenant_id_value t, session_id_value i), s) \<in> set (sp_sessions r)"
  by (simp add: sessions_get_def map_of_SomeD)

lemma sessions_get_own:
  assumes "repo_inv r" and "sessions_get r t i = Some s"
  shows "as_tenant_id s = t" "as_id s = i" "clock_inv s" "consent_inv s"
  using sessions_get_mem [OF assms(2)] assms(1) tenant_key_eq [of t i s]
  by (auto simp: repo_inv_def)

lemma sessions_get_iff:
  assumes "repo_inv r"
  shows "sessions_get r (as_tenant_id s) (as_id s) = Some s \<longleftrightarrow> s \<in> snd ` set (sp_sessions r)"
proof
  assume "s \<in> snd ` set (sp_sessions r)"
  then obtain k where k: "(k, s) \<in> set (sp_sessions r)" by force
  with assms have "k = session_key s" by (auto simp: repo_inv_def)
  with k assms show "sessions_get r (as_tenant_id s) (as_id s) = Some s"
    by (simp add: sessions_get_def repo_inv_def session_key_def)
next
  assume "sessions_get r (as_tenant_id s) (as_id s) = Some s"
  from sessions_get_mem [OF this] show "s \<in> snd ` set (sp_sessions r)" by force
qed

text \<open>Saving a later version of a stored session.\<close>

lemma repo_inv_save:
  assumes "repo_inv r" and "sessions_get r t i = Some s" and "frozen_fields s s'"
    and "clock_inv s'" and "consent_inv s'"
  shows "repo_inv (sessions_save r s')"
proof -
  have own: "as_tenant_id s = t" "as_id s = i" using sessions_get_own [OF assms(1,2)] by simp_all
  have key: "session_key s' = session_key s"
    using assms(3) by (simp add: frozen_fields_def session_key_def)
  have d: "distinct (map fst (sp_sessions r))" using assms(1) by (simp add: repo_inv_def)
  have set': "set (sp_sessions (sessions_save r s')) =
      insert (session_key s, s') {p \<in> set (sp_sessions r). fst p \<noteq> session_key s}"
    using entries_of_update [OF d] by (simp add: sessions_save_def key)
  have "\<exists>x' \<in> snd ` set (sp_sessions (sessions_save r s')).
      as_id x' = as_id x \<and> as_application_id x' = as_application_id x"
    if x: "x \<in> snd ` set (sp_sessions r)" for x
  proof (cases "session_key x = session_key s")
    case True
    have "x = s"
    proof -
      have "sessions_get r (as_tenant_id x) (as_id x) = Some x"
        using sessions_get_iff [OF assms(1)] x by simp
      moreover have "as_tenant_id x = t" "as_id x = i"
        using True own tenant_key_eq [of "as_tenant_id s" "as_id s" x]
        by (auto simp: session_key_def [of s])
      ultimately show ?thesis using assms(2) by simp
    qed
    with assms(3) show ?thesis by (auto simp: set' frozen_fields_def)
  next
    case False
    from x obtain k where k: "(k, x) \<in> set (sp_sessions r)" by force
    with assms(1) have "k = session_key x" by (auto simp: repo_inv_def)
    with k False have "x \<in> snd ` set (sp_sessions (sessions_save r s'))"
      unfolding set' by force
    then show ?thesis by blast
  qed
  moreover have "distinct (map fst (sp_sessions (sessions_save r s')))"
    using d by (simp add: sessions_save_def distinct_update)
  moreover have "\<forall>(k, x) \<in> set (sp_sessions (sessions_save r s')). k = session_key x \<and> clock_inv x \<and> consent_inv x"
    using assms(1,4,5) unfolding set' by (auto simp: repo_inv_def key)
  moreover have "sp_idempotency (sessions_save r s') = sp_idempotency r"
    by (simp add: sessions_save_def)
  moreover have "\<exists>x \<in> snd ` set (sp_sessions (sessions_save r s')). as_id x = j \<and> as_application_id x = app"
    if "((application_id_value app, key'), j) \<in> set (sp_idempotency r)" for app key' j
  proof -
    from assms(1) that obtain x where "x \<in> snd ` set (sp_sessions r)" "as_id x = j" "as_application_id x = app"
      unfolding repo_inv_def by blast
    with calculation(1) [of x] show ?thesis by auto
  qed
  ultimately show ?thesis unfolding repo_inv_def by simp
qed

text \<open>Adding a session under a fresh identifier, and claiming a key for it.\<close>

lemma repo_inv_add:
  assumes "repo_inv r" and "\<And>x. x \<in> snd ` set (sp_sessions r) \<Longrightarrow> as_id x \<noteq> as_id s"
    and "clock_inv s" and "consent_inv s"
    and "sp_sessions r' = AList.update (session_key s) s (sp_sessions r)"
    and "sp_idempotency r' = sp_idempotency r \<or>
      sp_idempotency r' = AList.update (application_id_value (as_application_id s), key) (as_id s) (sp_idempotency r)"
  shows "repo_inv r'"
proof -
  have new: "session_key s \<notin> fst ` set (sp_sessions r)"
  proof
    assume "session_key s \<in> fst ` set (sp_sessions r)"
    then obtain x where x: "(session_key s, x) \<in> set (sp_sessions r)" by force
    from repo_invD(2) [OF assms(1) x] have "session_key x = session_key s" by simp
    then have "as_id x = as_id s" by (simp add: session_key_def)
    with assms(2) x show False by force
  qed
  have d: "distinct (map fst (sp_sessions r))" by (rule repo_invD(1) [OF assms(1)])
  have set': "set (sp_sessions r') = insert (session_key s, s) (set (sp_sessions r))"
  proof -
    have "{p \<in> set (sp_sessions r). fst p \<noteq> session_key s} = set (sp_sessions r)"
      using new by (auto simp: image_iff)
    then show ?thesis by (simp add: assms(5) entries_of_update [OF d])
  qed
  have idem: "((application_id_value app, k), i) \<in> set (sp_idempotency r) \<or> app = as_application_id s \<and> i = as_id s"
    if "((application_id_value app, k), i) \<in> set (sp_idempotency r')" for app k i
    using that assms(6)
      set_update_subset [of "(application_id_value (as_application_id s), key)" "as_id s" "sp_idempotency r"]
    by (elim disjE; auto dest!: subsetD)
  have "distinct (map fst (sp_sessions r'))"
    using d by (simp add: assms(5) distinct_update)
  moreover have "\<forall>(k, x) \<in> set (sp_sessions r'). k = session_key x \<and> clock_inv x \<and> consent_inv x"
    using repo_invD(2) [OF assms(1)] assms(3,4) unfolding set' by auto
  moreover have "\<exists>x \<in> snd ` set (sp_sessions r'). as_id x = i \<and> as_application_id x = app"
    if "((application_id_value app, k), i) \<in> set (sp_idempotency r')" for app k i
    using idem [OF that]
  proof
    assume "((application_id_value app, k), i) \<in> set (sp_idempotency r)"
    from repo_invD(3) [OF assms(1) this] show ?thesis unfolding set' by auto
  qed (auto simp: set')
  ultimately show ?thesis unfolding repo_inv_def by simp
qed

text \<open>Under the invariant a claimed key always resolves, so losing the race always replays.\<close>

lemma claimed_key_resolves:
  assumes "repo_inv r" and "map_of (sp_idempotency r) (application_id_value app, key) = Some i"
  obtains s where "find_by_idempotency_key r app key = Some s" "as_id s = i" "as_application_id s = app"
proof -
  from assms have "\<exists>s \<in> snd ` set (sp_sessions r). as_id s = i \<and> as_application_id s = app"
    unfolding repo_inv_def by (blast dest: map_of_SomeD)
  then have "find (\<lambda>s. as_id s = i \<and> as_application_id s = app) (map snd (sp_sessions r)) \<noteq> None"
    by (auto simp: find_None_iff)
  then obtain s where s: "find (\<lambda>s. as_id s = i \<and> as_application_id s = app) (map snd (sp_sessions r)) = Some s"
    by blast
  then have "as_id s = i" "as_application_id s = app"
    by (auto simp: find_Some_iff)
  with s assms(2) that show thesis by (simp add: find_by_idempotency_key_def)
qed

end
