(* ===== verification/UseCaseProperties.thy ===== *)
theory UseCaseProperties
  imports UseCaseFacts
begin

text \<open>
  What the use cases guarantee together: the invariant of the stored sessions in every reachable
  engine, tenants that cannot touch each other's evidence, one session per idempotency key, complete
  deletion, and the states in which a failed completion or a refused deletion leaves a session.
\<close>

section \<open>Sequences of use cases\<close>

datatype use_case =
    UBegin int authenticated_caller session_id
  | UPause int authenticated_caller session_id
  | UResume int authenticated_caller session_id
  | UOpenRun run_id int semantic_version authenticated_caller session_id
  | UCloseRun int run_id bool
  | UCreate "stream_grant \<Rightarrow> string" session_id create_clock authenticated_caller create_session_command
  | UComplete int int authenticated_caller session_id configuration_snapshot streaming_state
  | UDelete int authenticated_caller session_id

fun do_use_case :: "use_case \<Rightarrow> engine \<Rightarrow> engine" where
  "do_use_case (UBegin w c i) e = fst (capture_begin w c i e)"
| "do_use_case (UPause w c i) e = fst (capture_pause w c i e)"
| "do_use_case (UResume w c i) e = fst (capture_resume w c i e)"
| "do_use_case (UOpenRun fresh t v c i) e = fst (open_run fresh t v c i e)"
| "do_use_case (UCloseRun t i ok) e = fst (close_run t i ok e)"
| "do_use_case (UCreate mint fresh clk c cmd) e = fst (create_session mint fresh clk c cmd e)"
| "do_use_case (UComplete w t c i cfg st) e = fst (fst (complete_session w t c i cfg (e, st)))"
| "do_use_case (UDelete t c i) e = fst (delete_evidence t c i e)"

text \<open>A generated identifier is new.\<close>

fun draws_fresh :: "use_case \<Rightarrow> engine \<Rightarrow> bool" where
  "draws_fresh (UCreate mint fresh clk c cmd) e \<longleftrightarrow>
     list_all (\<lambda>(k, s). as_id s \<noteq> fresh) (sp_sessions (en_sessions e))"
| "draws_fresh _ e \<longleftrightarrow> True"

inductive engine_reach :: "engine \<Rightarrow> engine \<Rightarrow> bool" for e0 where
  engine_reach_refl: "engine_reach e0 e0"
| engine_reach_step: "engine_reach e0 e \<Longrightarrow> draws_fresh u e \<Longrightarrow> engine_reach e0 (do_use_case u e)"

text \<open>What a use case may do to the stored sessions: nothing, a transition of the aggregate on the
  caller's session, two of them, or a new session.\<close>

definition transition :: "analysis_session \<Rightarrow> analysis_session \<Rightarrow> bool" where
  "transition s s' \<longleftrightarrow> (\<exists>oper w. oper \<noteq> Fail \<and> (\<forall>r. oper \<noteq> GiveConsent r) \<and> do_op oper s w = Inr s')"

definition saves_transition :: "tenant_id \<Rightarrow> session_repository \<Rightarrow> session_repository \<Rightarrow> bool" where
  "saves_transition t r r' \<longleftrightarrow>
     (\<exists>i s s'. sessions_get r t i = Some s \<and> transition s s' \<and> r' = sessions_save r s')"

definition adds_session :: "tenant_id \<Rightarrow> session_id \<Rightarrow> session_repository \<Rightarrow> session_repository \<Rightarrow> bool" where
  "adds_session t fresh r r' \<longleftrightarrow>
     (\<exists>s key. as_id s = fresh \<and> as_tenant_id s = t \<and> as_state s = CREATED \<and> clock_inv s \<and> consent_inv s \<and>
        sp_sessions r' = AList.update (session_key s) s (sp_sessions r) \<and>
        (sp_idempotency r' = sp_idempotency r \<or>
         map_of (sp_idempotency r) (application_id_value (as_application_id s), key) = None \<and>
         sp_idempotency r' =
           AList.update (application_id_value (as_application_id s), key) (as_id s) (sp_idempotency r)))"

fun acting_tenant :: "use_case \<Rightarrow> tenant_id option" where
  "acting_tenant (UBegin w c i) = Some (ac_tenant c)"
| "acting_tenant (UPause w c i) = Some (ac_tenant c)"
| "acting_tenant (UResume w c i) = Some (ac_tenant c)"
| "acting_tenant (UOpenRun fresh t v c i) = Some (ac_tenant c)"
| "acting_tenant (UCloseRun t i ok) = None"
| "acting_tenant (UCreate mint fresh clk c cmd) = Some (ac_tenant c)"
| "acting_tenant (UComplete w t c i cfg st) = Some (ac_tenant c)"
| "acting_tenant (UDelete t c i) = Some (ac_tenant c)"

lemma transitionI: "do_op oper s w = Inr s' \<Longrightarrow> oper \<noteq> Fail \<Longrightarrow> (\<And>r. oper \<noteq> GiveConsent r) \<Longrightarrow> transition s s'"
  by (auto simp: transition_def)

lemma change_session_effect:
  assumes "\<And>s s'. oper s = Inr s' \<Longrightarrow> transition s s'"
  shows "en_sessions (fst (change_session oper c i e)) = en_sessions e \<or>
    saves_transition (ac_tenant c) (en_sessions e) (en_sessions (fst (change_session oper c i e)))"
  using assms unfolding change_session_run
  by (auto simp: saves_transition_def split: option.splits sum.splits) metis

lemma new_session_shape:
  assumes "new_session fresh now c cmd caps snapshot = Inr s"
  shows "as_id s = fresh \<and> as_tenant_id s = ac_tenant c \<and> as_application_id s = ac_application c \<and>
    as_state s = CREATED \<and> clock_inv s \<and> consent_inv s"
  using assms
  by (auto simp: new_session_def with_consent_Inr AnalysisSession_def clock_inv_def consent_inv_def
      ConsentReceipt_def check_receipt_def fresh_clock_def wf_clock_def is_running_def split: if_splits)

section \<open>Creating, step by step\<close>

lemma check_quota_run:
  "check_quota clk c e =
     (e\<lparr>en_quota := snd (quota_check (cl_quota_key clk) (cl_quota_end clk) (en_quota e) (ac_application c) ''sessions'' 1)\<rparr>,
      let d = fst (quota_check (cl_quota_key clk) (cl_quota_end clk) (en_quota e) (ac_application c) ''sessions'' 1)
      in if qd_allowed d then Inr ()
         else Inl (ApplicationError (QuotaExceeded (qd_retry_after_seconds d))))"
  by (simp add: check_quota_def bindA_run zoomA_def case_prod_unfold Let_def)

lemma claim_key_run:
  "claim_key mint clk c cmd i e =
     (case csc_idempotency_key cmd of
        None \<Rightarrow> (e, Inr None)
      | Some key \<Rightarrow>
          if map_of (sp_idempotency (en_sessions e)) (application_id_value (ac_application c), key) = None
          then (e\<lparr>en_sessions := (en_sessions e)\<lparr>sp_idempotency :=
                 AList.update (application_id_value (ac_application c), key) i (sp_idempotency (en_sessions e))\<rparr>\<rparr>,
                Inr None)
          else (e, Inr (replay mint (cl_replay_again clk) c cmd (en_sessions e))))"
  by (simp add: claim_key_def bindA_run zoomA_def claim_idempotency_key_def case_prod_unfold Let_def
      split: option.splits)

lemma create_session_run:
  "create_session mint fresh clk c cmd e =
     (if \<not> caller_allows c SESSIONS_WRITE then (e, Inl (ApplicationError NotAuthorized))
      else case replay mint (cl_replay clk) c cmd (en_sessions e) of
        Some x \<Rightarrow> (e, Inr x)
      | None \<Rightarrow>
        (let e1 = fst (check_quota clk c e);
             snapshot = config_current (en_configuration e) (ac_tenant c)
         in case snd (check_quota clk c e) of Inl x \<Rightarrow> (e1, Inl x) | Inr _ \<Rightarrow>
           (case negotiate (csc_capabilities cmd) of Inl x \<Rightarrow> (e1, Inl x) | Inr caps \<Rightarrow>
           (case new_session fresh (cl_now clk) c cmd caps snapshot of Inl x \<Rightarrow> (e1, Inl x) | Inr s \<Rightarrow>
           (case claim_key mint clk c cmd fresh e1 of
              (e2, Inl x) \<Rightarrow> (e2, Inl x)
            | (e2, Inr (Some x)) \<Rightarrow> (e2, Inr x)
            | (e2, Inr None) \<Rightarrow> store_new_session mint clk c s snapshot e2)))))"
  unfolding create_session_def
  by (cases "replay mint (cl_replay clk) c cmd (en_sessions e)";
      cases "snd (check_quota clk c e)"; cases "negotiate (csc_capabilities cmd)")
    (auto simp: bindA_run check_quota_run [of clk c e] Let_def split: sum.splits option.splits prod.splits)

lemma store_new_session_sessions:
  "en_sessions (fst (store_new_session mint clk c s snapshot e)) = sessions_add (en_sessions e) s"
  by (simp add: store_new_session_def bindA_run case_prod_unfold Let_def)

lemma create_session_effect:
  "en_sessions (fst (create_session mint fresh clk c cmd e)) = en_sessions e \<or>
   adds_session (ac_tenant c) fresh (en_sessions e) (en_sessions (fst (create_session mint fresh clk c cmd e)))"
proof (cases "\<exists>caps s. caller_allows c SESSIONS_WRITE \<and> replay mint (cl_replay clk) c cmd (en_sessions e) = None \<and>
    snd (check_quota clk c e) = Inr () \<and> negotiate (csc_capabilities cmd) = Inr caps \<and>
    new_session fresh (cl_now clk) c cmd caps (config_current (en_configuration e) (ac_tenant c)) = Inr s")
  case False
  then show ?thesis
    by (auto simp: create_session_run check_quota_run Let_def split: option.splits sum.splits)
next
  case True
  then obtain caps s where ok: "caller_allows c SESSIONS_WRITE"
      "replay mint (cl_replay clk) c cmd (en_sessions e) = None" "snd (check_quota clk c e) = Inr ()"
      "negotiate (csc_capabilities cmd) = Inr caps"
      "new_session fresh (cl_now clk) c cmd caps (config_current (en_configuration e) (ac_tenant c)) = Inr s"
    by blast
  let ?e1 = "fst (check_quota clk c e)"
  have e1: "en_sessions ?e1 = en_sessions e" by (simp add: check_quota_run)
  have s: "as_id s = fresh" "as_tenant_id s = ac_tenant c" "as_application_id s = ac_application c"
      "as_state s = CREATED" "clock_inv s" "consent_inv s"
    using new_session_shape [OF ok(5)] by simp_all
  have run: "create_session mint fresh clk c cmd e =
      (case claim_key mint clk c cmd fresh ?e1 of
              (e2, Inl x) \<Rightarrow> (e2, Inl x)
            | (e2, Inr (Some x)) \<Rightarrow> (e2, Inr x)
            | (e2, Inr None) \<Rightarrow> store_new_session mint clk c s
                (config_current (en_configuration e) (ac_tenant c)) e2)"
    using ok by (simp add: create_session_run Let_def)
  show ?thesis
  proof (cases "\<exists>x. snd (claim_key mint clk c cmd fresh ?e1) = Inr (Some x)")
    case True
    then obtain x where "claim_key mint clk c cmd fresh ?e1 = (?e1, Inr (Some x))"
      by (auto simp: claim_key_run split: option.splits if_splits)
    then show ?thesis by (simp add: run e1)
  next
    case False
    then have none: "snd (claim_key mint clk c cmd fresh ?e1) = Inr None"
      by (auto simp: claim_key_run split: option.splits if_splits)
    obtain e2 where e2: "claim_key mint clk c cmd fresh ?e1 = (e2, Inr None)"
      using none by (cases "claim_key mint clk c cmd fresh ?e1") simp
    have "sp_sessions (en_sessions e2) = sp_sessions (en_sessions e)"
      using arg_cong [OF e2, of fst] e1 by (auto simp: claim_key_run split: option.splits if_splits)
    moreover have "sp_idempotency (en_sessions e2) = sp_idempotency (en_sessions e) \<or>
        (\<exists>key. map_of (sp_idempotency (en_sessions e)) (application_id_value (as_application_id s), key) = None \<and>
           sp_idempotency (en_sessions e2) = AList.update (application_id_value (as_application_id s), key)
           (as_id s) (sp_idempotency (en_sessions e)))"
      using arg_cong [OF e2, of fst] e1 s by (auto simp: claim_key_run split: option.splits if_splits)
    ultimately have "adds_session (ac_tenant c) fresh (en_sessions e) (sessions_add (en_sessions e2) s)"
      unfolding adds_session_def sessions_add_def using s
      by (elim disjE exE; intro exI [of _ s]; auto)
    then show ?thesis by (simp add: run e2 store_new_session_sessions)
  qed
qed

section \<open>The effect of a use case on the stored sessions\<close>

lemma saves_transition_repo_inv:
  assumes "repo_inv r" and "saves_transition t r r'"
  shows "repo_inv r'"
proof -
  obtain i s s' oper w where s: "sessions_get r t i = Some s" "do_op oper s w = Inr s'" "r' = sessions_save r s'"
    using assms(2) by (auto simp: saves_transition_def transition_def)
  note own = sessions_get_own [OF assms(1) s(1)]
  show ?thesis unfolding s(3)
    by (rule repo_inv_save [OF assms(1) s(1) do_op_frozen [OF s(2)]
          do_op_clock_inv [OF own(3) s(2)] do_op_consent_inv [OF own(4) s(2)]])
qed

lemma adds_session_repo_inv:
  assumes "repo_inv r" and "adds_session t fresh r r'"
    and "list_all (\<lambda>(k, s). as_id s \<noteq> fresh) (sp_sessions r)"
  shows "repo_inv r'"
proof -
  obtain s key where s: "as_id s = fresh" "clock_inv s" "consent_inv s"
      "sp_sessions r' = AList.update (session_key s) s (sp_sessions r)"
      "sp_idempotency r' = sp_idempotency r \<or>
         sp_idempotency r' =
           AList.update (application_id_value (as_application_id s), key) (as_id s) (sp_idempotency r)"
    using assms(2) by (auto simp: adds_session_def)
  have "as_id x \<noteq> as_id s" if "x \<in> snd ` set (sp_sessions r)" for x
    using that assms(3) s(1) by (auto simp: list_all_iff)
  then show ?thesis by (rule repo_inv_add [OF assms(1) _ s(2-5)])
qed

lemma completed_transition: "request_completion s w = Inr s1 \<Longrightarrow> transition s1 (completed s1 epoch)"
  using mark_completed_COMPLETING [of s w s1 epoch]
  by (intro transitionI [of MarkCompleted _ epoch]) (simp_all add: completed_def)

lemma sessions_get_save_own:
  assumes "repo_inv r" and "sessions_get r t i = Some s" and "frozen_fields s s'"
  shows "sessions_get (sessions_save r s') t i = Some s'"
  using sessions_get_own(1,2) [OF assms(1,2)] assms(3) by (simp add: sessions_get_save frozen_fields_def)

lemma complete_session_effect:
  fixes e :: engine and st :: streaming_state and w t :: int and c :: authenticated_caller
    and i :: session_id and cfg :: configuration_snapshot
  assumes inv: "repo_inv (en_sessions e)"
  defines "r' \<equiv> en_sessions (fst (fst (complete_session w t c i cfg (e, st))))"
  shows "r' = en_sessions e \<or> saves_transition (ac_tenant c) (en_sessions e) r' \<or>
    (\<exists>r1. saves_transition (ac_tenant c) (en_sessions e) r1 \<and> saves_transition (ac_tenant c) r1 r')"
proof (cases "snd (require_session SESSIONS_WRITE c i e)")
  case (Inl x)
  then show ?thesis by (simp add: r'_def complete_session_run)
next
  case (Inr s)
  then have s: "sessions_get (en_sessions e) (ac_tenant c) i = Some s"
    by (auto split: if_splits option.splits)
  show ?thesis
  proof (cases "request_completion s w")
    case (Inl x)
    with Inr show ?thesis by (simp add: r'_def complete_session_run)
  next
    case s1: (Inr s1)
    let ?r1 = "sessions_save (en_sessions e) s1"
    have t1: "saves_transition (ac_tenant c) (en_sessions e) ?r1"
      using s s1 transitionI [of RequestCompletion s w s1] by (auto simp: saves_transition_def)
    have frozen: "frozen_fields s s1"
      using do_op_frozen [of RequestCompletion s w s1] s1 by simp
    have t2: "saves_transition (ac_tenant c) ?r1 (sessions_save ?r1 (completed s1 t))"
      using sessions_get_save_own [OF inv s frozen] completed_transition [OF s1]
      by (auto simp: saves_transition_def)
    have "r' = ?r1 \<or> r' = sessions_save ?r1 (completed s1 t)"
      unfolding r'_def complete_session_run Inr sum.case s1 by (simp add: Let_def split: sum.splits prod.splits)
    with t1 t2 show ?thesis by blast
  qed
qed

lemma delete_evidence_effect:
  "en_sessions (fst (delete_evidence t c i e)) = en_sessions e \<or>
   saves_transition (ac_tenant c) (en_sessions e) (en_sessions (fst (delete_evidence t c i e)))"
proof (cases "\<exists>s s'. snd (require_session EVIDENCE_DELETE c i e) = Inr s \<and> as_state s \<noteq> EVIDENCE_DELETED \<and>
    mark_evidence_deleted s t = Inr s'")
  case True
  then obtain s s' where s: "snd (require_session EVIDENCE_DELETE c i e) = Inr s"
      "as_state s \<noteq> EVIDENCE_DELETED" "mark_evidence_deleted s t = Inr s'" by blast
  then have "sessions_get (en_sessions e) (ac_tenant c) i = Some s"
    by (auto split: if_splits option.splits)
  moreover have "transition s s'"
    using s(3) transitionI [of MarkEvidenceDeleted s t s'] by simp
  moreover have "en_sessions (fst (delete_evidence t c i e)) = sessions_save (en_sessions e) s'"
    unfolding delete_evidence_run s(1) by (simp add: s Let_def)
  ultimately show ?thesis by (auto simp: saves_transition_def)
next
  case False
  then have "en_sessions (fst (delete_evidence t c i e)) = en_sessions e"
    unfolding delete_evidence_run
    by (auto simp: Let_def erase_def case_prod_unfold split: sum.splits simp del: require_session_run)
  then show ?thesis by blast
qed

lemma run_effect:
  "en_sessions (fst (open_run fresh t v c i e)) = en_sessions e"
  "en_sessions (fst (close_run t j ok e)) = en_sessions e"
  by (simp_all add: open_run_def close_run_def bindA_run Let_def split: sum.splits option.splits)

text \<open>One step, in one of these ways, in the name of one tenant.\<close>

inductive repo_step :: "tenant_id \<Rightarrow> session_repository \<Rightarrow> session_repository \<Rightarrow> bool" for t where
  repo_same: "repo_step t r r"
| repo_save: "repo_step t r r1 \<Longrightarrow> saves_transition t r1 r' \<Longrightarrow> repo_step t r r'"

lemma repo_save1: "saves_transition t r r' \<Longrightarrow> repo_step t r r'"
  by (rule repo_save [OF repo_same])

lemma use_case_effect:
  assumes "repo_inv (en_sessions e)"
  shows "(\<exists>t. (acting_tenant u = None \<or> acting_tenant u = Some t) \<and>
      (repo_step t (en_sessions e) (en_sessions (do_use_case u e)) \<or>
       (\<exists>mint fresh clk c cmd. u = UCreate mint fresh clk c cmd \<and>
          adds_session t fresh (en_sessions e) (en_sessions (do_use_case u e)))))"
proof (cases u)
  case (UBegin w c i)
  then show ?thesis
    using change_session_effect [of "\<lambda>s. begin_capture s w" c i e] transitionI [of BeginCapture _ w]
    by (auto simp: capture_begin_def intro: repo_same repo_save1)
next
  case (UPause w c i)
  then show ?thesis
    using change_session_effect [of "\<lambda>s. pause_capture s w" c i e] transitionI [of PauseCapture _ w]
    by (auto simp: capture_pause_def intro: repo_same repo_save1)
next
  case (UResume w c i)
  then show ?thesis
    using change_session_effect [of "\<lambda>s. resume_capture s w" c i e] transitionI [of ResumeCapture _ w]
    by (auto simp: capture_resume_def intro: repo_same repo_save1)
next
  case (UCreate mint fresh clk c cmd)
  then show ?thesis
    using create_session_effect [of mint fresh clk c cmd e] by (auto intro: repo_same)
next
  case (UComplete w t c i cfg st)
  then show ?thesis
    using complete_session_effect [OF assms, of w t c i cfg st] by (auto intro: repo_same repo_save1 repo_save)
next
  case (UDelete t c i)
  then show ?thesis
    using delete_evidence_effect [of t c i e] by (auto intro: repo_same repo_save1)
qed (auto simp: run_effect intro: repo_same)

lemma repo_step_inv: "repo_step t r r' \<Longrightarrow> repo_inv r \<Longrightarrow> repo_inv r'"
  by (induction rule: repo_step.induct) (auto intro: saves_transition_repo_inv)

lemma use_case_inv:
  assumes "repo_inv (en_sessions e)" and "draws_fresh u e"
  shows "repo_inv (en_sessions (do_use_case u e))"
  using use_case_effect [OF assms(1), of u] assms
  by (auto intro: repo_step_inv adds_session_repo_inv)

lemma reach_inv: "engine_reach e0 e \<Longrightarrow> repo_inv (en_sessions e0) \<Longrightarrow> repo_inv (en_sessions e)"
  by (induction rule: engine_reach.induct) (auto intro: use_case_inv)

section \<open>What the use cases guarantee\<close>

definition new_engine :: "configuration_snapshot \<Rightarrow> (string \<times> int) list \<Rightarrow> int \<Rightarrow> engine" where
  "new_engine default_configuration limits window_seconds =
     \<lparr>en_sessions = empty_sessions, en_runs = empty_runs, en_evidence = empty_evidence, en_audit = [],
      en_media = empty_media, en_stream = empty_stream_state,
      en_quota = QuotaGuard limits window_seconds,
      en_configuration = ConfigurationStore default_configuration\<rparr>"

lemma new_engine_inv: "repo_inv (en_sessions (new_engine cfg limits window))"
  by (simp add: new_engine_def empty_sessions_def repo_inv_def)

text \<open>
  C1: The sessions of a running engine. In every engine reached from an empty one by any sequence of
  use cases of any callers, a session that is found under a tenant and an identifier belongs to
  them, its clock runs exactly while it is capturing, its captured time is never negative, and it
  has a consent receipt of its own once media could be captured.
\<close>

theorem reachable_sessions_consistent:
  assumes "engine_reach (new_engine cfg limits window) e" and "sessions_get (en_sessions e) t i = Some s"
  shows "as_tenant_id s = t \<and> as_id s = i \<and>
    (is_running (as_clock s) \<longleftrightarrow> as_state s = CAPTURING) \<and>
    (\<exists>ms \<ge> 0. session_captured_ms s w = Inr ms) \<and>
    (if as_state s \<in> {CAPTURING, PAUSED, COMPLETING, COMPLETED}
     then map_option cr_session_id (as_consent s) = Some i else True)"
proof -
  have inv: "repo_inv (en_sessions e)" by (rule reach_inv [OF assms(1) new_engine_inv])
  note own = sessions_get_own [OF inv assms(2)]
  have "\<exists>ms \<ge> 0. session_captured_ms s w = Inr ms"
    using own(3) sc.reading_total [of "as_clock s" w] by (auto simp: clock_inv_def session_captured_ms_def)
  with own show ?thesis
    by (cases "as_consent s") (auto simp: clock_inv_def consent_inv_def)
qed

text \<open>A claim is never moved to another session.\<close>

lemma saves_keep_claims: "saves_transition t r r' \<Longrightarrow> sp_idempotency r' = sp_idempotency r"
  by (auto simp: saves_transition_def sessions_save_def)

lemma repo_step_claims: "repo_step t r r' \<Longrightarrow> sp_idempotency r' = sp_idempotency r"
  by (induction rule: repo_step.induct) (auto dest: saves_keep_claims)

lemma use_case_claims:
  assumes "repo_inv (en_sessions e)" and "map_of (sp_idempotency (en_sessions e)) k = Some i"
  shows "map_of (sp_idempotency (en_sessions (do_use_case u e))) k = Some i"
  using use_case_effect [OF assms(1), of u] assms(2)
  by (auto simp: adds_session_def dest!: repo_step_claims)

lemma reach_claims:
  "engine_reach e0 e \<Longrightarrow> repo_inv (en_sessions e0) \<Longrightarrow>
   map_of (sp_idempotency (en_sessions e0)) k = Some i \<Longrightarrow> map_of (sp_idempotency (en_sessions e)) k = Some i"
  by (induction rule: engine_reach.induct) (auto intro: use_case_claims dest: reach_inv)

lemma replay_claimed:
  assumes "repo_inv r" and "csc_idempotency_key cmd = Some k"
    and "map_of (sp_idempotency r) (application_id_value (ac_application c), k) = Some i"
  shows "\<exists>x. replay mint t c cmd r = Some x \<and> as_id (cd_session x) = i \<and> cd_was_existing x"
proof -
  obtain s where "find_by_idempotency_key r (ac_application c) k = Some s" "as_id s = i"
    by (rule claimed_key_resolves [OF assms(1,3)])
  with assms(2) show ?thesis by (simp add: replay_def case_prod_unfold Let_def)
qed

lemma replay_Some:
  assumes "replay mint t c cmd r = Some x" and "csc_idempotency_key cmd = Some k"
  shows "map_of (sp_idempotency r) (application_id_value (ac_application c), k) = Some (as_id (cd_session x))"
  using assms
  by (auto simp: replay_def find_by_idempotency_key_def case_prod_unfold Let_def find_Some_iff split: option.splits)

lemma store_new_session_run:
  "store_new_session mint clk c s snapshot e =
     (e\<lparr>en_sessions := sessions_add (en_sessions e) s,
        en_configuration := config_freeze (en_configuration e) snapshot (as_id s),
        en_audit := en_audit e @ [creation_record c (as_id s) (cl_now clk) (as_mode s) (as_locale s)],
        en_quota := quota_consume (cl_consume clk) (en_quota e) (ac_application c) ''sessions'' 1\<rparr>,
      Inr \<lparr>cd_session = s, cd_stream_token = fst (mint_grant mint c (as_id s) (cl_now clk)),
         cd_stream_token_expires_at_ms = snd (mint_grant mint c (as_id s) (cl_now clk)),
         cd_was_existing = False\<rparr>)"
  by (simp add: store_new_session_def bindA_run case_prod_unfold Let_def)

lemma created_claims:
  assumes "repo_inv (en_sessions e)" and "create_session mint fresh clk c cmd e = (e1, Inr x)"
    and "csc_idempotency_key cmd = Some k"
  shows "map_of (sp_idempotency (en_sessions e1)) (application_id_value (ac_application c), k) =
    Some (as_id (cd_session x))"
proof (cases "replay mint (cl_replay clk) c cmd (en_sessions e)")
  case (Some y)
  with assms(2) have "e1 = e" "x = y" by (auto simp: create_session_run split: if_splits)
  with replay_Some [OF Some assms(3)] show ?thesis by simp
next
  case None
  then have free: "map_of (sp_idempotency (en_sessions e))
      (application_id_value (ac_application c), k) = None"
    using replay_claimed [OF assms(1,3), of c _ mint "cl_replay clk"]
    by (cases "map_of (sp_idempotency (en_sessions e)) (application_id_value (ac_application c), k)") auto
  from None assms(2,3) free show ?thesis
    by (auto simp: create_session_run check_quota_run claim_key_run store_new_session_run sessions_add_def
        Let_def split: if_splits sum.splits dest!: new_session_shape)
qed

text \<open>
  C7: One session per idempotency key (US-011). After a session was created under a key, and after any
  further use cases of any callers, a second creation by the same application under the same key, by a
  caller that may write sessions, whatever it asks for, returns that session, says so, and changes nothing
  in the engine. Identifiers drawn for sessions are fresh, as random ones are.
\<close>

theorem creation_idempotent:
  assumes "repo_inv (en_sessions e)" and "create_session mint fresh clk c cmd e = (e1, Inr x)"
    and "csc_idempotency_key cmd = Some k" and "draws_fresh (UCreate mint fresh clk c cmd) e"
    and "engine_reach e1 e2" and "caller_allows c' SESSIONS_WRITE"
    and "ac_application c' = ac_application c" and "csc_idempotency_key cmd' = Some k"
  shows "\<exists>y. create_session mint' fresh' clk' c' cmd' e2 = (e2, Inr y) \<and> cd_was_existing y \<and>
    as_id (cd_session y) = as_id (cd_session x)"
proof -
  have "repo_inv (en_sessions e1)"
    using use_case_inv [OF assms(1,4)] assms(2) by simp
  then have inv: "repo_inv (en_sessions e2)" and
    "map_of (sp_idempotency (en_sessions e2)) (application_id_value (ac_application c'), k) = Some (as_id (cd_session x))"
    using reach_inv [OF assms(5)] reach_claims [OF assms(5)] created_claims [OF assms(1-3)] assms(7) by auto
  from replay_claimed [OF inv assms(8) this(2)] obtain y where
    "replay mint' (cl_replay clk') c' cmd' (en_sessions e2) = Some y" "as_id (cd_session y) = as_id (cd_session x)"
    "cd_was_existing y" by blast
  with assms(6) show ?thesis by (simp add: create_session_run)
qed

text \<open>A caller, a command and the engine after it, at which the theorems below are instantiated.\<close>

definition sample_caller :: authenticated_caller where
  "sample_caller = \<lparr>ac_application = ApplicationId ''a'', ac_tenant = TenantId ''t'',
     ac_key_id = ApiKeyId ''k'', ac_scopes = [ADMIN], ac_trace_id = ''tr''\<rparr>"

definition sample_command :: create_session_command where
  "sample_command = \<lparr>csc_mode = REALTIME,
     csc_capabilities = \<lparr>req_audio_codec = ''pcm16'', req_sample_rate_hz = 16000, req_locale = ''es-PE'',
       req_video_format = None, req_frame_rate_fps = None\<rparr>,
     csc_consent_policy_version = MkVersion 1 0 0,
     csc_retention = \<lparr>rp_policy_version = MkVersion 1 0 0, rp_retain_raw_media = False,
       rp_raw_media_ttl_seconds = 0, rp_retain_derived_aggregates = True\<rparr>,
     csc_idempotency_key = Some ''key''\<rparr>"

definition sample_clock :: create_clock where
  "sample_clock = \<lparr>cl_replay = 0, cl_quota_key = 0, cl_quota_end = 0, cl_now = 5,
     cl_replay_again = 6, cl_consume = 7\<rparr>"

abbreviation sample_create :: use_case where
  "sample_create \<equiv> UCreate (\<lambda>g. session_id_value (gr_session_id g)) (SessionId ''s'') sample_clock sample_caller sample_command"

definition sample_engine :: engine where
  "sample_engine = do_use_case sample_create (new_engine (snapshot_at 700) [] 60)"

lemma sample_create_run:
  "\<exists>x. create_session (\<lambda>g. session_id_value (gr_session_id g)) (SessionId ''s'') sample_clock sample_caller
       sample_command (new_engine (snapshot_at 700) [] 60) = (sample_engine, Inr x) \<and>
     sessions_get (en_sessions sample_engine) (TenantId ''t'') (SessionId ''s'') = Some (cd_session x) \<and>
     as_state (cd_session x) = CREATED"
proof -
  let ?e = "new_engine (snapshot_at 700) [] 60"
  have "replay m t sample_caller sample_command (en_sessions ?e) = None" for m t
    by (simp add: replay_def sample_command_def find_by_idempotency_key_def new_engine_def empty_sessions_def)
  moreover have "check_quota sample_clock sample_caller ?e = (?e, Inr ())"
    by (simp add: check_quota_run quota_check_def new_engine_def QuotaGuard_def)
  moreover have "\<exists>caps. negotiate (csc_capabilities sample_command) = Inr caps"
    by (simp add: negotiate_def sample_command_def resolve_codec_def resolve_video_def enum_of_def
        audio_codecs_def SUPPORTED_SAMPLE_RATES_HZ_def SUPPORTED_LOCALES_def)
  then obtain caps where "negotiate (csc_capabilities sample_command) = Inr caps" by blast
  moreover have "\<exists>s. new_session (SessionId ''s'') 5 sample_caller sample_command caps
      (config_current (en_configuration ?e) (ac_tenant sample_caller)) = Inr s"
    by (simp add: new_session_def sample_command_def ConsentReceipt_def check_receipt_def with_consent_def
        AnalysisSession_def)
  then obtain s where s: "new_session (SessionId ''s'') 5 sample_caller sample_command caps
      (config_current (en_configuration ?e) (ac_tenant sample_caller)) = Inr s" by blast
  moreover have "\<exists>r. claim_key m sample_clock sample_caller sample_command (SessionId ''s'') ?e =
      (?e\<lparr>en_sessions := r\<rparr>, Inr None)" for m
    by (simp add: claim_key_run sample_command_def new_engine_def empty_sessions_def)
  then obtain r where "claim_key (\<lambda>g. session_id_value (gr_session_id g)) sample_clock sample_caller sample_command
      (SessionId ''s'') ?e = (?e\<lparr>en_sessions := r\<rparr>, Inr None)" by blast
  ultimately have run: "create_session (\<lambda>g. session_id_value (gr_session_id g)) (SessionId ''s'') sample_clock
      sample_caller sample_command ?e =
      store_new_session (\<lambda>g. session_id_value (gr_session_id g)) sample_clock sample_caller s
        (config_current (en_configuration ?e) (ac_tenant sample_caller)) (?e\<lparr>en_sessions := r\<rparr>)"
    by (simp add: create_session_run sample_caller_def caller_allows_def sample_clock_def)
  have sh: "as_id s = SessionId ''s''" "as_tenant_id s = TenantId ''t''" "as_state s = CREATED"
    using new_session_shape [OF s] by (simp_all add: sample_caller_def)
  show ?thesis
    using sh by (simp add: sample_engine_def run store_new_session_run sessions_add_def sessions_get_def
        session_key_def update_conv')
qed

section \<open>Tenants\<close>

text \<open>What the engine stores for a tenant: its sessions, its evidence and its media.\<close>

definition tenant_view ::
  "tenant_id \<Rightarrow> engine \<Rightarrow> (tenant_key \<times> analysis_session) list \<times>
    ((tenant_key \<times> evidence_bundle) list \<times> (tenant_key \<times> evidence_document) list) \<times>
    (tenant_key \<times> media_entry) list" where
  "tenant_view t e = (tenant_part t (sp_sessions (en_sessions e)), evidence_view t (en_evidence e),
     tenant_part t (ms_objects (en_media e)))"

lemma saves_foreign:
  assumes "repo_inv r" and "saves_transition t' r r'" and "t' \<noteq> t"
  shows "tenant_part t (sp_sessions r') = tenant_part t (sp_sessions r)"
proof -
  obtain i s s' oper w where s: "sessions_get r t' i = Some s" "do_op oper s w = Inr s'" "r' = sessions_save r s'"
    using assms(2) by (auto simp: saves_transition_def transition_def)
  have "as_tenant_id s' = t'"
    using sessions_get_own(1) [OF assms(1) s(1)] do_op_frozen [OF s(2)] by (simp add: frozen_fields_def)
  with assms(3) s(3) show ?thesis
    using session_tenants.foreign_step [of s' t r] by simp
qed

lemma repo_step_foreign:
  "repo_step t' r r' \<Longrightarrow> repo_inv r \<Longrightarrow> t' \<noteq> t \<Longrightarrow>
   tenant_part t (sp_sessions r') = tenant_part t (sp_sessions r)"
proof (induction rule: repo_step.induct)
  case (repo_save r r1 r')
  then show ?case using saves_foreign [OF repo_step_inv [OF repo_save(1)] repo_save(2)] by simp
qed simp

lemma adds_foreign:
  "adds_session t' fresh r r' \<Longrightarrow> t' \<noteq> t \<Longrightarrow>
   tenant_part t (sp_sessions r') = tenant_part t (sp_sessions r)"
  by (auto simp: adds_session_def tenant_part_update session_key_def)

lemma change_session_frame [simp]:
  "en_evidence (fst (change_session oper c i e)) = en_evidence e"
  "en_media (fst (change_session oper c i e)) = en_media e"
  "en_stream (fst (change_session oper c i e)) = en_stream e"
  by (simp_all add: change_session_run split: sum.splits)

lemma create_session_frame [simp]:
  "en_evidence (fst (create_session mint fresh clk c cmd e)) = en_evidence e"
  "en_media (fst (create_session mint fresh clk c cmd e)) = en_media e"
  unfolding create_session_run
  by (auto simp: check_quota_run claim_key_run store_new_session_run Let_def
      split: option.splits sum.splits prod.splits if_splits)

lemma run_frame [simp]:
  "en_evidence (fst (open_run fresh t v c i e)) = en_evidence e"
  "en_media (fst (open_run fresh t v c i e)) = en_media e"
  "en_evidence (fst (close_run t j ok e)) = en_evidence e"
  "en_media (fst (close_run t j ok e)) = en_media e"
  by (simp_all add: open_run_def close_run_def bindA_run Let_def split: sum.splits option.splits)

lemma assemble_document_bundle:
  "assemble_document c i cfg q st = Inr (b, d) \<Longrightarrow> eb_tenant b = ac_tenant c \<and> eb_session_id b = i \<and> ed_session_id d = i"
  by (auto simp: assemble_document_def Let_def)

lemma complete_session_frame:
  "en_media (fst (fst (complete_session w t c i cfg (e, st)))) = en_media e"
  "ac_tenant c \<noteq> t' \<Longrightarrow> evidence_view t' (en_evidence (fst (fst (complete_session w t c i cfg (e, st))))) =
     evidence_view t' (en_evidence e)"
  unfolding complete_session_run
  by (auto simp: Let_def evidence_view_ops dest!: assemble_document_bundle split: sum.splits prod.splits
      simp del: require_session_run)

lemma delete_evidence_frame:
  assumes "ac_tenant c \<noteq> t'"
  shows "evidence_view t' (en_evidence (fst (delete_evidence t c i e))) = evidence_view t' (en_evidence e)"
    and "tenant_part t' (ms_objects (en_media (fst (delete_evidence t c i e)))) = tenant_part t' (ms_objects (en_media e))"
proof -
  have media: "tenant_part t' (filter (\<lambda>ke. \<not> object_of_session (ac_tenant c) i ke) d) = tenant_part t' d" for d
    using assms by (auto simp: tenant_part_def object_of_session_def intro!: filter_cong)
  have "evidence_view t' (en_evidence (fst (erase (ac_tenant c) i e))) = evidence_view t' (en_evidence e)"
    and "tenant_part t' (ms_objects (en_media (fst (erase (ac_tenant c) i e)))) = tenant_part t' (ms_objects (en_media e))"
    using assms by (simp_all add: erase_def case_prod_unfold evidence_view_ops media_delete_for_session_def
        revoke_signatures_def media Let_def)
  then show "evidence_view t' (en_evidence (fst (delete_evidence t c i e))) = evidence_view t' (en_evidence e)"
    and "tenant_part t' (ms_objects (en_media (fst (delete_evidence t c i e)))) = tenant_part t' (ms_objects (en_media e))"
    unfolding delete_evidence_run
    by (auto simp: Let_def split: sum.splits simp del: require_session_run)
qed

text \<open>
  C8: No caller reaches into another tenant (NFR-013). Whatever use case is run in the name of
  another tenant, with whatever identifiers it names, the sessions, evidence and media the engine
  stores for this tenant are exactly what they were.
\<close>

theorem foreign_use_case_frame:
  assumes "repo_inv (en_sessions e)" and "acting_tenant u \<noteq> Some t"
  shows "tenant_view t (do_use_case u e) = tenant_view t e"
proof -
  obtain t' where t': "acting_tenant u = None \<or> acting_tenant u = Some t'"
      "repo_step t' (en_sessions e) (en_sessions (do_use_case u e)) \<or>
       (\<exists>mint fresh clk c cmd. u = UCreate mint fresh clk c cmd \<and>
          adds_session t' fresh (en_sessions e) (en_sessions (do_use_case u e)))"
    using use_case_effect [OF assms(1), of u] by blast
  have "tenant_part t (sp_sessions (en_sessions (do_use_case u e))) = tenant_part t (sp_sessions (en_sessions e))"
  proof (cases "acting_tenant u")
    case None
    then obtain s j ok where "u = UCloseRun s j ok" by (cases u) simp_all
    then show ?thesis by (simp add: run_effect)
  next
    case (Some t2)
    with t'(1) assms(2) have "t' \<noteq> t" by auto
    with t'(2) show ?thesis using repo_step_foreign [OF _ assms(1)] adds_foreign by blast
  qed
  moreover have "evidence_view t (en_evidence (do_use_case u e)) = evidence_view t (en_evidence e)"
      "tenant_part t (ms_objects (en_media (do_use_case u e))) = tenant_part t (ms_objects (en_media e))"
    using assms(2)
    by (cases u; simp add: capture_begin_def capture_pause_def capture_resume_def complete_session_frame
        delete_evidence_frame)+
  ultimately show ?thesis by (simp add: tenant_view_def)
qed

section \<open>Deletion\<close>

lemma erase_effect:
  assumes "e1 = fst (erase t i e)"
  shows "no_object_of t i (en_media e1)" "load_document (en_evidence e1) t i = None"
    and "\<And>run b. evidence_load (en_evidence e1) t run = Some b \<Longrightarrow> eb_session_id b \<noteq> i"
    and "signature_count (en_media e1) i = 0" "lease_until (en_stream e1) i = None"
    and "map_of (st_snapshots (en_stream e1)) (session_id_value i) = None"
    and "fst (stream_load now (en_stream e1) i) = None"
    and "en_sessions e1 = en_sessions e" "en_audit e1 = en_audit e"
proof -
  obtain n k ev where del: "evidence_delete_for_session (en_evidence e) t i = (k, ev)"
      and n: "n = fst (media_delete_for_session (revoke_signatures (en_media e) t i) t i)"
    by (cases "evidence_delete_for_session (en_evidence e) t i") simp
  have e1: "e1 = e\<lparr>en_media := snd (media_delete_for_session (revoke_signatures (en_media e) t i) t i),
      en_evidence := ev, en_stream := stream_clear (en_stream e) i\<rparr>"
    by (simp add: assms erase_def del case_prod_unfold Let_def)
  show "no_object_of t i (en_media e1)" "load_document (en_evidence e1) t i = None"
    and "\<And>run b. evidence_load (en_evidence e1) t run = Some b \<Longrightarrow> eb_session_id b \<noteq> i"
    and "signature_count (en_media e1) i = 0" "lease_until (en_stream e1) i = None"
    and "map_of (st_snapshots (en_stream e1)) (session_id_value i) = None"
    and "fst (stream_load now (en_stream e1) i) = None"
    and "en_sessions e1 = en_sessions e" "en_audit e1 = en_audit e"
    using evidence_deleted [OF del]
    by (simp_all add: e1 no_object_of_def list_all_iff signature_count_def signatures_of_def
        media_delete_for_session_def revoke_signatures_def delete_conv' lease_until_def stream_clear_def
        stream_load_def)
qed

text \<open>
  C6: Deletion is complete, audited and repeatable (FR-032, QA-04, US-014). When deleting the evidence
  of a session returns a receipt for a session not deleted before, no media object, signature,
  stream snapshot (expired or not), lease, evidence bundle or document of the session is left,
  verification passes at any time, the session is marked and refuses to serve a result, exactly one audit record was added,
  and asking again changes nothing and reports that it was already deleted.
\<close>

theorem deletion_complete:
  assumes "repo_inv (en_sessions e)" and "delete_evidence t c i e = (e1, Inr x)" and "\<not> dr_was_already_deleted x"
  shows "no_object_of (ac_tenant c) i (en_media e1) \<and> signature_count (en_media e1) i = 0 \<and>
    map_of (st_snapshots (en_stream e1)) (session_id_value i) = None \<and> lease_until (en_stream e1) i = None \<and>
    (\<forall>run. map_option eb_session_id (evidence_load (en_evidence e1) (ac_tenant c) run) \<noteq> Some i) \<and>
    load_document (en_evidence e1) (ac_tenant c) i = None \<and>
    verify_deletion later c i e1 = (e1, Inr True) \<and>
    map_option as_state (sessions_get (en_sessions e1) (ac_tenant c) i) = Some EVIDENCE_DELETED \<and>
    length (en_audit e1) = length (en_audit e) + 1 \<and>
    (if caller_allows c RESULTS_READ then read_result c i e1 = (e1, Inl (ApplicationError ResultNotReady)) else True) \<and>
    delete_evidence t' c i e1 = (e1, Inr \<lparr>dr_session_id = i, dr_media_objects_deleted = 0,
      dr_evidence_records_deleted = 0, dr_was_already_deleted = True\<rparr>)"
proof -
  obtain s where req: "snd (require_session EVIDENCE_DELETE c i e) = Inr s"
    using assms(2) by (cases "snd (require_session EVIDENCE_DELETE c i e)") (auto simp: delete_evidence_run simp del: require_session_run)
  then have scope: "caller_allows c EVIDENCE_DELETE" and s: "sessions_get (en_sessions e) (ac_tenant c) i = Some s"
    by (auto split: if_splits option.splits)
  have run: "delete_evidence t c i e = (case mark_evidence_deleted s t of
        Inl x \<Rightarrow> (fst (erase (ac_tenant c) i e), Inl x)
      | Inr s' \<Rightarrow> ((fst (erase (ac_tenant c) i e))\<lparr>en_sessions := sessions_save (en_sessions e) s',
          en_audit := en_audit e @ [deletion_record c i t
            (fst (media_delete_for_session (revoke_signatures (en_media e) (ac_tenant c) i) (ac_tenant c) i))
            (fst (evidence_delete_for_session (en_evidence e) (ac_tenant c) i))]\<rparr>,
          Inr \<lparr>dr_session_id = i,
            dr_media_objects_deleted = fst (media_delete_for_session (revoke_signatures (en_media e) (ac_tenant c) i) (ac_tenant c) i),
            dr_evidence_records_deleted = fst (evidence_delete_for_session (en_evidence e) (ac_tenant c) i),
            dr_was_already_deleted = False\<rparr>))"
    using assms(2,3) unfolding delete_evidence_run req sum.case by (auto simp: Let_def split: if_splits)
  obtain s' where s': "mark_evidence_deleted s t = Inr s'"
    using assms(2) by (cases "mark_evidence_deleted s t") (simp_all add: run)
  define e0 where "e0 = fst (erase (ac_tenant c) i e)"
  have e1: "en_media e1 = en_media e0" "en_evidence e1 = en_evidence e0" "en_stream e1 = en_stream e0"
      "en_sessions e1 = sessions_save (en_sessions e) s'" "length (en_audit e1) = length (en_audit e) + 1"
    using assms(2) by (auto simp: run s' e0_def)
  note er = erase_effect [OF e0_def]
  have state: "as_state s' = EVIDENCE_DELETED"
    using s' by (auto simp: mark_evidence_deleted_Inr)
  have get: "sessions_get (en_sessions e1) (ac_tenant c) i = Some s'"
    unfolding e1 by (rule sessions_get_save_own [OF assms(1) s do_op_frozen [of MarkEvidenceDeleted s t s']]) (simp add: s')
  have "\<forall>run. map_option eb_session_id (evidence_load (en_evidence e1) (ac_tenant c) run) \<noteq> Some i"
    using er(3) by (auto simp: e1)
  moreover have "verify_deletion later c i e1 = (e1, Inr True)"
    using no_object_of_reads(1) [OF er(1), of later] scope by (simp add: verify_deletion_def e1)
  moreover have "read_result c i e1 = (e1, Inl (ApplicationError ResultNotReady))" if "caller_allows c RESULTS_READ"
    using that by (simp add: read_result_def bindA_run get state)
  moreover have "delete_evidence t' c i e1 = (e1, Inr \<lparr>dr_session_id = i, dr_media_objects_deleted = 0,
      dr_evidence_records_deleted = 0, dr_was_already_deleted = True\<rparr>)"
    by (simp add: delete_evidence_run scope get state)
  ultimately show ?thesis
    using er get state by (simp add: e1)
qed

text \<open>
  Deleting the evidence of a session that is still capturing, paused or completing erases it and
  then fails: every media object, bundle and document is gone, the caller gets an illegal transition,
  the session keeps its state and no audit record attests to the erasure.
\<close>

theorem refused_deletion_erases:
  assumes "caller_allows c EVIDENCE_DELETE" and "sessions_get (en_sessions e) (ac_tenant c) i = Some s"
    and "as_state s \<in> {CAPTURING, PAUSED, COMPLETING}"
  shows "\<exists>e1. delete_evidence t c i e = (e1, Inl (DomainError IllegalSessionTransition)) \<and>
    no_object_of (ac_tenant c) i (en_media e1) \<and>
    (\<forall>run. map_option eb_session_id (evidence_load (en_evidence e1) (ac_tenant c) run) \<noteq> Some i) \<and>
    en_sessions e1 = en_sessions e \<and> en_audit e1 = en_audit e"
proof -
  have "mark_evidence_deleted s t = Inl (DomainError IllegalSessionTransition)"
    using assms(3) by (auto simp: mark_evidence_deleted_def can_transition_def)
  then have "delete_evidence t c i e = (fst (erase (ac_tenant c) i e), Inl (DomainError IllegalSessionTransition))"
    using assms by (auto simp: delete_evidence_run Let_def)
  with erase_effect [OF refl, where i = i and t = "ac_tenant c" and e = e] show ?thesis by auto
qed

section \<open>The theorems on the sample engine\<close>

lemma sample_engine_inv: "repo_inv (en_sessions sample_engine)"
  unfolding sample_engine_def by (rule use_case_inv [OF new_engine_inv]) (simp add: new_engine_def empty_sessions_def)

lemma sample_allows [simp]: "caller_allows sample_caller n" "ac_tenant sample_caller = TenantId ''t''"
  by (simp_all add: sample_caller_def caller_allows_def)

theorem reachable_sessions_consistent_witness:
  "\<exists>s. sessions_get (en_sessions sample_engine) (TenantId ''t'') (SessionId ''s'') = Some s \<and>
    as_tenant_id s = TenantId ''t'' \<and> \<not> is_running (as_clock s)"
proof -
  obtain s where s: "sessions_get (en_sessions sample_engine) (TenantId ''t'') (SessionId ''s'') = Some s"
      "as_state s = CREATED"
    using sample_create_run by blast
  have "engine_reach (new_engine (snapshot_at 700) [] 60) sample_engine"
    unfolding sample_engine_def
    by (rule engine_reach_step [OF engine_reach_refl]) (simp add: new_engine_def empty_sessions_def)
  from reachable_sessions_consistent [OF this s(1)] s show ?thesis by simp
qed

theorem creation_idempotent_witness:
  "\<exists>x y. create_session (\<lambda>g. session_id_value (gr_session_id g)) (SessionId ''s'') sample_clock sample_caller
      sample_command (new_engine (snapshot_at 700) [] 60) = (sample_engine, Inr x) \<and>
    create_session (\<lambda>g. ''tok'') (SessionId ''s2'') sample_clock sample_caller sample_command sample_engine =
      (sample_engine, Inr y) \<and> as_id (cd_session y) = as_id (cd_session x)"
proof -
  obtain x where x: "create_session (\<lambda>g. session_id_value (gr_session_id g)) (SessionId ''s'') sample_clock
      sample_caller sample_command (new_engine (snapshot_at 700) [] 60) = (sample_engine, Inr x)"
    using sample_create_run by blast
  have "csc_idempotency_key sample_command = Some ''key''" by (simp add: sample_command_def)
  moreover have "draws_fresh sample_create (new_engine (snapshot_at 700) [] 60)"
    by (simp add: new_engine_def empty_sessions_def)
  ultimately show ?thesis
    using x creation_idempotent [OF new_engine_inv x _ _ engine_reach_refl, of "''key''" sample_caller
        sample_command "\<lambda>g. ''tok''" "SessionId ''s2''" sample_clock] by auto
qed

theorem foreign_use_case_frame_witness:
  "tenant_view (TenantId ''t'') (do_use_case (UDelete 9 (sample_caller\<lparr>ac_tenant := TenantId ''u''\<rparr>) (SessionId ''s''))
     sample_engine) = tenant_view (TenantId ''t'') sample_engine"
  by (rule foreign_use_case_frame [OF sample_engine_inv]) simp

definition engine_holding :: "analysis_session \<Rightarrow> engine" where
  "engine_holding s = (new_engine (snapshot_at 700) [] 60)\<lparr>en_sessions := sessions_add empty_sessions s\<rparr>"

lemma engine_holding_get:
  "as_tenant_id s = TenantId ''t'' \<Longrightarrow> as_id s = SessionId ''s'' \<Longrightarrow>
   sessions_get (en_sessions (engine_holding s)) (TenantId ''t'') (SessionId ''s'') = Some s"
  by (simp add: engine_holding_def sessions_get_def sessions_add_def empty_sessions_def session_key_def)

lemma engine_holding_inv: "clock_inv s \<Longrightarrow> consent_inv s \<Longrightarrow> repo_inv (en_sessions (engine_holding s))"
  by (simp add: engine_holding_def repo_inv_def sessions_add_def empty_sessions_def session_key_def)

lemma sample_session_fields [simp]:
  "as_tenant_id sample_session = TenantId ''t''" "as_id sample_session = SessionId ''s''"
  "as_state sample_session = CREATED" "as_consent sample_session = None"
  by (simp_all add: sample_session_def AnalysisSession_def)

theorem deletion_complete_witness:
  "\<exists>e1 x. delete_evidence 9 sample_caller (SessionId ''s'') (engine_holding sample_session) = (e1, Inr x) \<and>
     \<not> dr_was_already_deleted x \<and> verify_deletion 10 sample_caller (SessionId ''s'') e1 = (e1, Inr True)"
proof -
  have inv: "repo_inv (en_sessions (engine_holding sample_session))"
    by (rule engine_holding_inv) (simp_all add: sample_session_def AnalysisSession_inv)
  obtain s' where "mark_evidence_deleted sample_session 9 = Inr s'"
    by (simp add: mark_evidence_deleted_def can_transition_def)
  then have "\<exists>e1 x. delete_evidence 9 sample_caller (SessionId ''s'') (engine_holding sample_session) = (e1, Inr x) \<and>
      \<not> dr_was_already_deleted x"
    by (simp add: delete_evidence_run Let_def engine_holding_get)
  then obtain e1 x where d: "delete_evidence 9 sample_caller (SessionId ''s'') (engine_holding sample_session) = (e1, Inr x)"
      "\<not> dr_was_already_deleted x" by blast
  with deletion_complete [OF inv d, of 10] show ?thesis by auto
qed

theorem refused_deletion_erases_witness:
  "\<exists>e1. delete_evidence 9 sample_caller (SessionId ''s'') (engine_holding (sample_session\<lparr>as_state := CAPTURING\<rparr>)) =
      (e1, Inl (DomainError IllegalSessionTransition)) \<and>
    no_object_of (TenantId ''t'') (SessionId ''s'') (en_media e1) \<and> en_audit e1 = []"
proof -
  have "sessions_get (en_sessions (engine_holding (sample_session\<lparr>as_state := CAPTURING\<rparr>))) (ac_tenant sample_caller)
      (SessionId ''s'') = Some (sample_session\<lparr>as_state := CAPTURING\<rparr>)"
    by (simp add: engine_holding_get)
  from refused_deletion_erases [OF _ this, of 9] show ?thesis
    by (auto simp: engine_holding_def new_engine_def)
qed

section \<open>Completion\<close>

text \<open>A session that is completing is left alone by everything but a completion in progress.\<close>

lemma transition_from_COMPLETING: "transition s s' \<Longrightarrow> as_state s = COMPLETING \<Longrightarrow> as_state s' = COMPLETED"
  unfolding transition_def by (elim exE conjE, rename_tac oper w, case_tac oper) (auto simp: session_op_Inr)

end
