(* ===== verification/CompletionProperties.thy ===== *)
theory CompletionProperties
  imports UseCaseProperties
begin

text \<open>
  What closing a session guarantees: when it succeeds, what it publishes, and what is left of a
  session whose completion raised after the session was saved as completing.
\<close>

section \<open>The parts succeed\<close>

text \<open>The ranking check walks identifiers and classes only, so it never finds anything.\<close>

lemma not_in_forbidden: "\<not> forbidden_key ''id''" "\<not> forbidden_key ''type''"
    "\<not> forbidden_key ''speech_events''" "\<not> forbidden_key ''visual_events''"
  by (simp_all add: forbidden_key_def FORBIDDEN_RESULT_KEYS_def py_lower_def char_lower_def Let_def)

lemma ranking_check [simp]: "assert_carries_no_ranking (checked_payload speech visual) = Inr ()"
proof -
  have leaf: "key_inside (id_and_type i t) key \<longleftrightarrow> key = ''id'' \<or> key = ''type''" for i t key
    by (auto simp: id_and_type_def key_inside_simps)
  have "\<not> forbidden_key key" if "key_inside (JMap (checked_payload speech visual)) key" for key
    using that not_in_forbidden by (auto simp: checked_payload_def key_inside_simps leaf)
  then have "forbidden_keys_in (JMap (checked_payload speech visual)) [] = []"
    using forbidden_found(1) [of "JMap (checked_payload speech visual)" "[]"] by auto
  then show ?thesis by (simp add: assert_carries_no_ranking_def)
qed

text \<open>
  The check for ranking keys inside \<open>CompleteSession\<close> can never refuse. It walks a payload that
  holds nothing but the identifiers and the classes of the events, and no key of that payload is
  a forbidden one, whatever the events are.
\<close>

theorem ranking_check_never_refuses:
  "assert_carries_no_ranking (checked_payload speech visual) = Inr ()"
  by simp

text \<open>The state of a connection whose events were built by the constructors.\<close>

definition wf_stream_events :: "streaming_state \<Rightarrow> bool" where
  "wf_stream_events st \<longleftrightarrow>
     list_all (\<lambda>(k, e). wf_speech_event e \<and> wf_interval (se_interval e)) (ss_speech_events st) \<and>
     list_all (\<lambda>(k, e). wf_visual_event e \<and> wf_interval (ve_interval e)) (ss_visual_events st)"

definition final_speech :: "speech_event \<Rightarrow> bool" where
  "final_speech e \<longleftrightarrow> wf_speech_event e \<and> wf_interval (se_interval e) \<and> se_is_final e"

definition final_visual :: "visual_event \<Rightarrow> bool" where
  "final_visual e \<longleftrightarrow> wf_visual_event e \<and> wf_interval (ve_interval e) \<and> ve_is_final e"

lemma final_speech_finalize:
  "wf_speech_event x \<Longrightarrow> wf_interval (se_interval x) \<Longrightarrow> speech_finalize x = Inr y \<Longrightarrow> final_speech y"
  using speech.finalize_content [of x y] speech.finalize_wf [of x y] speech.finalize_is_final [of x y]
  by (simp add: final_speech_def speech_content_def)

lemma final_visual_finalize:
  "wf_visual_event x \<Longrightarrow> wf_interval (ve_interval x) \<Longrightarrow> visual_finalize x = Inr y \<Longrightarrow> final_visual y"
  using visual.finalize_content [of x y] visual.finalize_wf [of x y] visual.finalize_is_final [of x y]
  by (simp add: final_visual_def visual_content_def)

lemma transport_quality_total:
  assumes "clock_inv s"
  shows "\<exists>q st'. with_transport_quality s w st = Inr (q, st') \<and> ss_speech_events st' = ss_speech_events st \<and>
    ss_visual_events st' = ss_visual_events st \<and> ss_run_id st' = ss_run_id st \<and>
    ss_transcript st' = ss_transcript st \<and> ss_prosody st' = ss_prosody st"
proof -
  obtain ms where "session_captured_ms s w = Inr ms" "0 \<le> ms"
    using assms sc.reading_total [of "as_clock s" w] by (auto simp: clock_inv_def session_captured_ms_def)
  moreover from this obtain i where "interval_of 0 ms = Inr i"
    by (simp add: interval_of_def interval_of_tol_def MonotonicTime_def Interval_def DEFAULT_TOLERANCE_MS_def)
  ultimately show ?thesis
    by (simp add: with_transport_quality_def confidence_calibrated_def Confidence_def Let_def max_def)
qed

lemma finalize_all:
  assumes "wf_stream_events st"
  shows "\<exists>ses ves. mapR speech_finalize (map snd (ss_speech_events st)) = Inr ses \<and>
    mapR visual_finalize (map snd (ss_visual_events st)) = Inr ves \<and>
    list_all final_speech ses \<and> list_all final_visual ves"
proof -
  have s: "wf_speech_event x" "wf_interval (se_interval x)" if "x \<in> set (map snd (ss_speech_events st))" for x
    using assms that by (auto simp: wf_stream_events_def list_all_iff)
  have v: "wf_visual_event x" "wf_interval (ve_interval x)" if "x \<in> set (map snd (ss_visual_events st))" for x
    using assms that by (auto simp: wf_stream_events_def list_all_iff)
  obtain ses where ses: "mapR speech_finalize (map snd (ss_speech_events st)) = Inr ses"
    using mapR_Inr_ex [of "map snd (ss_speech_events st)" speech_finalize] s speech.finalize_total by blast
  obtain ves where ves: "mapR visual_finalize (map snd (ss_visual_events st)) = Inr ves"
    using mapR_Inr_ex [of "map snd (ss_visual_events st)" visual_finalize] v visual.finalize_total by blast
  have "final_speech e" if "e \<in> set ses" for e
    using mapR_Inr_mem [OF ses that] s final_speech_finalize by blast
  moreover have "final_visual e" if "e \<in> set ves" for e
    using mapR_Inr_mem [OF ves that] v final_visual_finalize by blast
  ultimately show ?thesis using ses ves by (auto simp: list_all_iff)
qed

lemma fuse_total:
  assumes "list_all final_speech ses" and "list_all final_visual ves"
  shows "\<exists>cs. fuse ses ves window True = Inr cs"
proof -
  have "wf_events (project_speech ses True)" "wf_events (project_visual ves True)"
    using assms by (auto simp: project_speech_def project_visual_def list_all_iff final_speech_def final_visual_def)
  then show ?thesis by (simp add: fuse_def Let_def correlate_eq)
qed

lemma assemble_total:
  assumes "wf_stream_events st"
  shows "if cs_taxonomy_version cfg = TAXONOMY_VERSION
    then \<exists>b d. assemble_document c i cfg q st = Inr (b, d)
    else assemble_document c i cfg q st = Inl (DomainError ResultViolation)"
proof -
  obtain ses ves where f: "mapR speech_finalize (map snd (ss_speech_events st)) = Inr ses"
      "mapR visual_finalize (map snd (ss_visual_events st)) = Inr ves"
      "list_all final_speech ses" "list_all final_visual ves"
    using finalize_all [OF assms] by blast
  obtain cs where "fuse ses ves (cs_fusion_window cfg) True = Inr cs"
    using fuse_total [OF f(3,4)] by blast
  with f(1,2) show ?thesis
    by (simp add: assemble_document_def ProvenanceManifest_def Let_def)
qed

lemma assembled:
  assumes "wf_stream_events st" and "assemble_document c i cfg q st = Inr (b, d)"
  shows "list_all se_is_final (ed_speech_events d) \<and> list_all ve_is_final (ed_visual_events d) \<and>
    fuse (ed_speech_events d) (ed_visual_events d) (cs_fusion_window cfg) True = Inr (ed_cooccurrences d) \<and>
    eb_speech_events b = ed_speech_events d \<and> eb_visual_events b = ed_visual_events d \<and>
    eb_tenant b = ac_tenant c \<and> eb_session_id b = i \<and> eb_run_id b = ss_run_id st \<and>
    ed_session_id d = i \<and> ed_run_id d = ss_run_id st \<and>
    pm_taxonomy_version (ed_manifest d) = TAXONOMY_VERSION \<and> ed_quality d = q"
proof -
  obtain ses ves where f: "mapR speech_finalize (map snd (ss_speech_events st)) = Inr ses"
      "mapR visual_finalize (map snd (ss_visual_events st)) = Inr ves"
      "list_all final_speech ses" "list_all final_visual ves"
    using finalize_all [OF assms(1)] by blast
  have "list_all se_is_final ses" "list_all ve_is_final ves"
    using f(3,4) by (auto simp: list_all_iff final_speech_def final_visual_def)
  with f(1,2) assms(2) show ?thesis
    by (auto simp: assemble_document_def ProvenanceManifest_def Let_def split: if_splits)
qed

lemma request_completion_total:
  assumes "clock_inv s" and "as_state s \<in> {CAPTURING, PAUSED}"
  shows "\<exists>s1. request_completion s w = Inr s1 \<and> as_state s1 = COMPLETING \<and> clock_inv s1 \<and> frozen_fields s s1"
proof -
  obtain c where "clock_pause (as_clock s) w = Inr c"
    using assms(1) sc.pause_total [of "as_clock s" w] by (auto simp: clock_inv_def)
  then have r: "request_completion s w = Inr (s\<lparr>as_state := COMPLETING, as_clock := c\<rparr>)"
    using assms(2) by (simp add: request_completion_Inr)
  with assms(1) do_op_frozen [of RequestCompletion s w] clock_inv_request_completion [OF assms(1) r]
  show ?thesis by simp
qed

lemma complete_cases:
  assumes "clock_inv s" and "as_state s \<in> {CAPTURING, PAUSED}"
    and "sessions_get (en_sessions e) (ac_tenant c) i = Some s" and "caller_allows c SESSIONS_WRITE"
    and "wf_stream_events st"
  obtains s1 q st1 where "request_completion s w = Inr s1" "as_state s1 = COMPLETING" "frozen_fields s s1"
    "with_transport_quality s1 w st = Inr (q, st1)" "wf_stream_events st1" "ss_run_id st1 = ss_run_id st"
    "complete_session w t c i cfg (e, st) =
      (let e1 = e\<lparr>en_sessions := sessions_save (en_sessions e) s1\<rparr> in
       case assemble_document c i cfg q st1 of
              Inl x \<Rightarrow> ((e1, st1), Inl x)
            | Inr (b, d) \<Rightarrow>
                ((e1\<lparr>en_evidence := store_document (evidence_store (en_evidence e) b) (d, ac_tenant c),
                    en_sessions := sessions_save (en_sessions e1) (completed s1 t),
                    en_audit := en_audit e @ [completion_record c i t (length (ed_speech_events d))
                      (length (ed_visual_events d)) (length (ed_cooccurrences d))]\<rparr>, st1),
                 Inr \<lparr>cm_session = completed s1 t, cm_document = d\<rparr>))"
proof -
  obtain s1 where s1: "request_completion s w = Inr s1" "as_state s1 = COMPLETING" "clock_inv s1" "frozen_fields s s1"
    using request_completion_total [OF assms(1,2)] by blast
  obtain q st1 where q: "with_transport_quality s1 w st = Inr (q, st1)"
      "ss_speech_events st1 = ss_speech_events st" "ss_visual_events st1 = ss_visual_events st"
      "ss_run_id st1 = ss_run_id st"
    using transport_quality_total [OF s1(3)] by blast
  have "wf_stream_events st1" using assms(5) q(2,3) by (simp add: wf_stream_events_def)
  moreover have "snd (require_session SESSIONS_WRITE c i e) = Inr s" using assms(3,4) by simp
  ultimately show thesis
    using that s1 q by (simp add: complete_session_run Let_def del: require_session_run)
qed

section \<open>A completion that succeeds\<close>


section \<open>A completion that raises\<close>

text \<open>A session that is completing is left alone by every use case.\<close>

lemma save_other:
  assumes "repo_inv r" and "sessions_get r t i = Some s" and "sessions_get r t' i' = Some s0"
    and "frozen_fields s0 s0'" and "s0 \<noteq> s"
  shows "sessions_get (sessions_save r s0') t i = Some s"
  using sessions_get_own(1,2) [OF assms(1,3)] assms(2-5) by (auto simp: sessions_get_save frozen_fields_def)

lemma completing_refuses:
  assumes "as_state s = COMPLETING"
  shows "begin_capture s w \<noteq> Inr s'" "pause_capture s w \<noteq> Inr s'" "resume_capture s w \<noteq> Inr s'"
    "request_completion s w \<noteq> Inr s'" "mark_evidence_deleted s w \<noteq> Inr s'"
  using assms by (simp_all add: session_op_Inr)

lemma change_keeps_completing:
  assumes "repo_inv (en_sessions e)" and "sessions_get (en_sessions e) t i = Some s"
    and "\<And>s'. oper s \<noteq> Inr s'" and "\<And>s0 s0'. oper s0 = Inr s0' \<Longrightarrow> frozen_fields s0 s0'"
  shows "sessions_get (en_sessions (fst (change_session oper c j e))) t i = Some s"
proof (cases "\<exists>s0 s0'. snd (require_session SESSIONS_WRITE c j e) = Inr s0 \<and> oper s0 = Inr s0'")
  case True
  then obtain s0 s0' where s0: "snd (require_session SESSIONS_WRITE c j e) = Inr s0" "oper s0 = Inr s0'" by blast
  then have get: "sessions_get (en_sessions e) (ac_tenant c) j = Some s0"
    by (auto split: if_splits option.splits)
  have "s0 \<noteq> s" using s0(2) assms(3) by auto
  from save_other [OF assms(1,2) get assms(4) [OF s0(2)] this] show ?thesis
    unfolding change_session_run s0(1) by (simp add: s0)
next
  case False
  then have "en_sessions (fst (change_session oper c j e)) = en_sessions e"
    unfolding change_session_run by (auto split: sum.splits simp del: require_session_run)
  with assms(2) show ?thesis by simp
qed

lemma complete_keeps_completing:
  assumes "repo_inv (en_sessions e)" and "sessions_get (en_sessions e) t i = Some s" and "as_state s = COMPLETING"
  shows "sessions_get (en_sessions (fst (fst (complete_session w ep c j cfg (e, st))))) t i = Some s"
proof (cases "\<exists>s0 s1. snd (require_session SESSIONS_WRITE c j e) = Inr s0 \<and> request_completion s0 w = Inr s1")
  case True
  then obtain s0 s1 where s0: "snd (require_session SESSIONS_WRITE c j e) = Inr s0" "request_completion s0 w = Inr s1"
    by blast
  then have get: "sessions_get (en_sessions e) (ac_tenant c) j = Some s0"
    by (auto split: if_splits option.splits)
  have frozen: "frozen_fields s0 s1" using do_op_frozen [of RequestCompletion s0 w s1] s0(2) by simp
  have ne: "s0 \<noteq> s" using completing_refuses(4) [OF assms(3)] s0(2) by auto
  have s1: "sessions_get (sessions_save (en_sessions e) s1) t i = Some s"
    by (rule save_other [OF assms(1,2) get frozen ne])
  have key: "\<not> (as_tenant_id s1 = t \<and> as_id s1 = i)"
    using sessions_get_own(1,2) [OF assms(1) get] get ne assms(2) frozen by (auto simp: frozen_fields_def)
  have "sessions_get (sessions_save (sessions_save (en_sessions e) s1) (completed s1 ep)) t i = Some s"
    using s1 key assms(2) by (auto simp: sessions_get_save completed_def)
  with s1 show ?thesis
    unfolding complete_session_run s0(1) sum.case s0(2) by (simp add: Let_def split: sum.splits prod.splits)
next
  case False
  then have "en_sessions (fst (fst (complete_session w ep c j cfg (e, st)))) = en_sessions e"
    unfolding complete_session_run by (auto split: sum.splits simp del: require_session_run)
  with assms(2) show ?thesis by simp
qed

lemma delete_keeps_completing:
  assumes "repo_inv (en_sessions e)" and "sessions_get (en_sessions e) t i = Some s" and "as_state s = COMPLETING"
  shows "sessions_get (en_sessions (fst (delete_evidence ep c j e))) t i = Some s"
proof (cases "\<exists>s0 s1. snd (require_session EVIDENCE_DELETE c j e) = Inr s0 \<and>
    as_state s0 \<noteq> EVIDENCE_DELETED \<and> mark_evidence_deleted s0 ep = Inr s1")
  case True
  then obtain s0 s1 where s0: "snd (require_session EVIDENCE_DELETE c j e) = Inr s0"
      "as_state s0 \<noteq> EVIDENCE_DELETED" "mark_evidence_deleted s0 ep = Inr s1" by blast
  then have get: "sessions_get (en_sessions e) (ac_tenant c) j = Some s0"
    by (auto split: if_splits option.splits)
  have frozen: "frozen_fields s0 s1" using do_op_frozen [of MarkEvidenceDeleted s0 ep s1] s0(3) by simp
  have ne: "s0 \<noteq> s" using completing_refuses(5) [OF assms(3)] s0(3) by auto
  from save_other [OF assms(1,2) get frozen ne] show ?thesis
    unfolding delete_evidence_run s0(1) by (simp add: s0 Let_def)
next
  case False
  then have "en_sessions (fst (delete_evidence ep c j e)) = en_sessions e"
    unfolding delete_evidence_run
    by (auto simp: Let_def erase_def case_prod_unfold split: sum.splits simp del: require_session_run)
  with assms(2) show ?thesis by simp
qed

lemma create_keeps_session:
  assumes "repo_inv (en_sessions e)" and "sessions_get (en_sessions e) t i = Some s"
    and "draws_fresh (UCreate mint fresh clk c cmd) e"
  shows "sessions_get (en_sessions (fst (create_session mint fresh clk c cmd e))) t i = Some s"
  using create_session_effect [of mint fresh clk c cmd e]
proof
  assume "adds_session (ac_tenant c) fresh (en_sessions e) (en_sessions (fst (create_session mint fresh clk c cmd e)))"
  then obtain s0 where s0: "as_id s0 = fresh"
      "sp_sessions (en_sessions (fst (create_session mint fresh clk c cmd e))) =
        AList.update (session_key s0) s0 (sp_sessions (en_sessions e))"
    by (auto simp: adds_session_def)
  have "i \<noteq> fresh"
    using assms(3) sessions_get_mem [OF assms(2)] sessions_get_own(2) [OF assms(1,2)]
    by (auto simp: list_all_iff)
  then have "(tenant_id_value t, session_id_value i) \<noteq> session_key s0"
    using tenant_key_eq [of t i s0] s0(1) by auto
  then show ?thesis using assms(2) by (simp add: sessions_get_def s0(2) update_conv')
qed (use assms(2) in simp)

lemma use_case_keeps_completing:
  assumes "repo_inv (en_sessions e)" and "sessions_get (en_sessions e) t i = Some s" and "as_state s = COMPLETING"
    and "draws_fresh u e"
  shows "sessions_get (en_sessions (do_use_case u e)) t i = Some s"
proof (cases u)
  case (UBegin w c j)
  with change_keeps_completing [OF assms(1,2), of "\<lambda>s. begin_capture s w"] completing_refuses(1) [OF assms(3)]
    do_op_frozen [of BeginCapture _ w]
  show ?thesis by (simp add: capture_begin_def)
next
  case (UPause w c j)
  with change_keeps_completing [OF assms(1,2), of "\<lambda>s. pause_capture s w"] completing_refuses(2) [OF assms(3)]
    do_op_frozen [of PauseCapture _ w]
  show ?thesis by (simp add: capture_pause_def)
next
  case (UResume w c j)
  with change_keeps_completing [OF assms(1,2), of "\<lambda>s. resume_capture s w"] completing_refuses(3) [OF assms(3)]
    do_op_frozen [of ResumeCapture _ w]
  show ?thesis by (simp add: capture_resume_def)
next
  case (UCreate mint fresh clk c cmd)
  with create_keeps_session [OF assms(1,2)] assms(4) show ?thesis by simp
next
  case (UComplete w ep c j cfg st)
  with complete_keeps_completing [OF assms(1-3)] show ?thesis by simp
next
  case (UDelete ep c j)
  with delete_keeps_completing [OF assms(1-3)] show ?thesis by simp
qed (use assms(2) in \<open>simp_all add: run_effect\<close>)

lemma reach_keeps_completing:
  "engine_reach e0 e \<Longrightarrow> repo_inv (en_sessions e0) \<Longrightarrow> sessions_get (en_sessions e0) t i = Some s \<Longrightarrow>
   as_state s = COMPLETING \<Longrightarrow> sessions_get (en_sessions e) t i = Some s"
  by (induction rule: engine_reach.induct) (auto intro: use_case_keeps_completing dest: reach_inv)

text \<open>
  C9: A completion that raises strands the session. When the configuration of the connection is of
  another taxonomy version, completion of a capturing or paused session raises \<open>ResultViolation\<close>
  after it has stored the session as completing; nothing was published, and no sequence of use
  cases of any callers, deletion and a second completion included, ever takes the session out of
  that state.
\<close>

theorem failed_completion_strands:
  assumes "repo_inv (en_sessions e)" and "sessions_get (en_sessions e) (ac_tenant c) i = Some s"
    and "as_state s \<in> {CAPTURING, PAUSED}" and "caller_allows c SESSIONS_WRITE"
    and "wf_stream_events st" and "cs_taxonomy_version cfg \<noteq> TAXONOMY_VERSION"
    and "complete_session w t c i cfg (e, st) = ((e1, st1), r)" and "engine_reach e1 e2"
  shows "r = Inl (DomainError ResultViolation) \<and> en_evidence e1 = en_evidence e \<and> en_audit e1 = en_audit e \<and>
    map_option as_state (sessions_get (en_sessions e2) (ac_tenant c) i) = Some COMPLETING"
proof -
  have own: "clock_inv s" "as_tenant_id s = ac_tenant c" "as_id s = i"
    using sessions_get_own [OF assms(1,2)] by simp_all
  obtain s1 q st2 where k: "request_completion s w = Inr s1" "as_state s1 = COMPLETING" "frozen_fields s s1"
      "wf_stream_events st2"
    and run: "complete_session w t c i cfg (e, st) =
      (let e1 = e\<lparr>en_sessions := sessions_save (en_sessions e) s1\<rparr> in
       case assemble_document c i cfg q st2 of
              Inl x \<Rightarrow> ((e1, st2), Inl x)
            | Inr (b, d) \<Rightarrow>
                ((e1\<lparr>en_evidence := store_document (evidence_store (en_evidence e) b) (d, ac_tenant c),
                    en_sessions := sessions_save (en_sessions e1) (completed s1 t),
                    en_audit := en_audit e @ [completion_record c i t (length (ed_speech_events d))
                      (length (ed_visual_events d)) (length (ed_cooccurrences d))]\<rparr>, st2),
                 Inr \<lparr>cm_session = completed s1 t, cm_document = d\<rparr>))"
    by (rule complete_cases [OF own(1) assms(3) assms(2,4,5), of w t cfg]) blast
  have e1: "e1 = e\<lparr>en_sessions := sessions_save (en_sessions e) s1\<rparr>" "r = Inl (DomainError ResultViolation)"
    using run assms(6,7) assemble_total [OF k(4), of cfg c i q] by (simp_all add: Let_def)
  have "sessions_get (en_sessions e1) (ac_tenant c) i = Some s1"
    using sessions_get_save_own [OF assms(1,2) k(3)] by (simp add: e1)
  moreover have "repo_inv (en_sessions e1)"
    using use_case_inv [OF assms(1), of "UComplete w t c i cfg st"] assms(7) by simp
  ultimately have "sessions_get (en_sessions e2) (ac_tenant c) i = Some s1"
    using reach_keeps_completing [OF assms(8)] k(2) by blast
  then show ?thesis using k(2) e1 by simp
qed

section \<open>On a session that was paused\<close>

definition paused_session :: analysis_session where
  "paused_session = sample_session\<lparr>as_state := PAUSED, as_consent := Some sample_receipt\<rparr>"

lemma paused_engine:
  "repo_inv (en_sessions (engine_holding paused_session))"
  "sessions_get (en_sessions (engine_holding paused_session)) (ac_tenant sample_caller) (SessionId ''s'') =
     Some paused_session"
  by (rule engine_holding_inv)
    (simp_all add: paused_session_def clock_inv_def consent_inv_def sample_session_def AnalysisSession_def
      fresh_clock_def wf_clock_def is_running_def sample_receipt_def engine_holding_get)

lemma fresh_stream: "wf_stream_events (StreamingState r i)"
  by (simp add: wf_stream_events_def StreamingState_def)


theorem failed_completion_strands_witness:
  "\<exists>e1 st1 r. complete_session 40 50 sample_caller (SessionId ''s'')
      ((snapshot_at 700)\<lparr>cs_taxonomy_version := MkVersion 2 0 0\<rparr>)
      (engine_holding paused_session, StreamingState (RunId ''r'') (SessionId ''s'')) = ((e1, st1), r) \<and>
    map_option as_state (sessions_get (en_sessions (do_use_case (UDelete 60 sample_caller (SessionId ''s'')) e1))
      (TenantId ''t'') (SessionId ''s'')) = Some COMPLETING"
proof -
  let ?cfg = "(snapshot_at 700)\<lparr>cs_taxonomy_version := MkVersion 2 0 0\<rparr>"
  have st: "as_state paused_session \<in> {CAPTURING, PAUSED}" by (simp add: paused_session_def)
  have cfg: "cs_taxonomy_version ?cfg \<noteq> TAXONOMY_VERSION" by (simp add: TAXONOMY_VERSION_def)
  obtain e1 st1 r where run: "complete_session 40 50 sample_caller (SessionId ''s'') ?cfg
      (engine_holding paused_session, StreamingState (RunId ''r'') (SessionId ''s'')) = ((e1, st1), r)"
    by (metis prod.collapse)
  have "engine_reach e1 (do_use_case (UDelete 60 sample_caller (SessionId ''s'')) e1)"
    by (rule engine_reach_step [OF engine_reach_refl]) simp
  from failed_completion_strands [OF paused_engine st _ fresh_stream cfg run this] run
  show ?thesis by auto
qed

end
