(* ===== verification/Base64.thy ===== *)
theory Base64
  imports Prelude
begin

text \<open>
  Base64 as the standard library of Python computes it: \<open>base64.b64encode\<close>, \<open>binascii.a2b_base64\<close> with
  and without its strict mode, and the URL-safe variants. Bytes are numbers below 256.
\<close>

section \<open>The alphabet\<close>

definition b64_alphabet :: string where
  "b64_alphabet = ''ABCDEFGHIJKLMNOPQRSTUVWXYZabcdefghijklmnopqrstuvwxyz0123456789+/''"

definition b64_char :: "nat \<Rightarrow> char" where
  "b64_char n = b64_alphabet ! n"

fun position_of :: "'a \<Rightarrow> 'a list \<Rightarrow> nat option" where
  "position_of x [] = None"
| "position_of x (y # ys) = (if x = y then Some 0 else map_option Suc (position_of x ys))"

definition b64_index :: "char \<Rightarrow> nat option" where
  "b64_index c = position_of c b64_alphabet"

definition pad_char :: char where
  "pad_char = CHR ''=''"

lemma position_of_nth: "distinct xs \<Longrightarrow> i < length xs \<Longrightarrow> position_of (xs ! i) xs = Some i"
proof (induction xs arbitrary: i)
  case (Cons x xs)
  then show ?case by (cases i) (auto simp: nth_mem)
qed simp

lemma position_of_Some: "position_of x xs = Some i \<Longrightarrow> i < length xs \<and> xs ! i = x"
  by (induction xs arbitrary: i) (auto split: if_splits)

lemma b64_alphabet_facts: "length b64_alphabet = 64" "distinct b64_alphabet" "pad_char \<notin> set b64_alphabet"
  by (simp_all add: b64_alphabet_def pad_char_def)

lemma b64_index_char [simp]: "n < 64 \<Longrightarrow> b64_index (b64_char n) = Some n"
  using b64_alphabet_facts by (simp add: b64_index_def b64_char_def position_of_nth)

lemma b64_char_not_pad [simp]: "n < 64 \<Longrightarrow> b64_char n \<noteq> pad_char"
  using b64_alphabet_facts nth_mem [of n b64_alphabet] by (metis b64_char_def)

lemma b64_index_bound: "b64_index c = Some n \<Longrightarrow> n < 64"
  using position_of_Some [of c b64_alphabet n] b64_alphabet_facts by (simp add: b64_index_def)

section \<open>Encoding and decoding\<close>

fun b64encode :: "bytes \<Rightarrow> string" where
  "b64encode [] = []"
| "b64encode [a] = [b64_char (a div 4), b64_char (a mod 4 * 16), pad_char, pad_char]"
| "b64encode [a, b] =
     [b64_char (a div 4), b64_char (a mod 4 * 16 + b div 16), b64_char (b mod 16 * 4), pad_char]"
| "b64encode (a # b # c # rest) =
     [b64_char (a div 4), b64_char (a mod 4 * 16 + b div 16), b64_char (b mod 16 * 4 + c div 64),
      b64_char (c mod 64)] @ b64encode rest"

text \<open>
  The loop of \<open>binascii.a2b_base64\<close>: the position in the current group of four, the bits left over,
  the padding seen in this group, and whether any padding was seen. \<open>binascii.Error\<close> is a subclass of
  \<open>ValueError\<close>.
\<close>

fun a2b_loop :: "bool \<Rightarrow> nat \<Rightarrow> nat \<Rightarrow> nat \<Rightarrow> bool \<Rightarrow> string \<Rightarrow> bytes result" where
  "a2b_loop strict quad left pads started [] = (if quad = 0 then Inr [] else Inl ValueError)"
| "a2b_loop strict quad left pads started (ch # rest) =
     (if ch = pad_char then
        if 2 \<le> quad \<and> 4 \<le> quad + (pads + 1)
        then (if strict \<and> rest \<noteq> [] then Inl ValueError else Inr [])
        else a2b_loop strict quad left (if 2 \<le> quad then pads + 1 else pads) True rest
      else (case b64_index ch of
          None \<Rightarrow> if strict then Inl ValueError else a2b_loop strict quad left pads started rest
        | Some v \<Rightarrow>
            if strict \<and> started then Inl ValueError
            else if quad = 0 then a2b_loop strict 1 v 0 started rest
            else if quad = 1 then
              bindR (a2b_loop strict 2 (v mod 16) 0 started rest) (\<lambda>bs. Inr ((left * 4 + v div 16) # bs))
            else if quad = 2 then
              bindR (a2b_loop strict 3 (v mod 4) 0 started rest) (\<lambda>bs. Inr ((left * 16 + v div 4) # bs))
            else bindR (a2b_loop strict 0 0 0 started rest) (\<lambda>bs. Inr ((left * 64 + v) # bs))))"

definition b64decode :: "bool \<Rightarrow> string \<Rightarrow> bytes result" where
  "b64decode strict s =
     (if \<exists>c \<in> set s. 128 \<le> (of_char c :: nat) then Inl ValueError
      else if strict \<and> s \<noteq> [] \<and> hd s = pad_char then Inl ValueError
      else a2b_loop strict 0 0 0 False s)"

definition url_char :: "char \<Rightarrow> char" where
  "url_char c = (if c = CHR ''+'' then CHR ''-'' else if c = CHR ''/'' then CHR ''_'' else c)"

definition std_char :: "char \<Rightarrow> char" where
  "std_char c = (if c = CHR ''-'' then CHR ''+'' else if c = CHR ''_'' then CHR ''/'' else c)"

definition urlsafe_b64encode :: "bytes \<Rightarrow> string" where
  "urlsafe_b64encode bs = map url_char (b64encode bs)"

definition urlsafe_b64decode :: "string \<Rightarrow> bytes result" where
  "urlsafe_b64decode s =
     (if \<exists>c \<in> set s. 128 \<le> (of_char c :: nat) then Inl ValueError
      else b64decode False (map std_char s))"

section \<open>Round trips\<close>

lemma pack_div: "(y::nat) < n \<Longrightarrow> (x * n + y) div n = x"
  by simp

lemma pack_mod: "(y::nat) < n \<Longrightarrow> (x * n + y) mod n = y"
  by simp

lemma pack_less: "(x::nat) < k \<Longrightarrow> y < n \<Longrightarrow> x * n + y < k * n"
  by (metis add.commute add_less_cancel_left less_le_trans mult_Suc mult_le_mono1 Suc_leI)

text \<open>The four groups of six bits of three bytes, and the bytes read back from them.\<close>

lemma sextets:
  assumes "(a::nat) < 256" "b < 256" "c < 256"
  shows "a div 4 < 64" "a mod 4 * 16 + b div 16 < 64" "b mod 16 * 4 + c div 64 < 64" "c mod 64 < 64"
    "a div 4 * 4 + (a mod 4 * 16 + b div 16) div 16 = a"
    "(a mod 4 * 16 + b div 16) mod 16 * 16 + (b mod 16 * 4 + c div 64) div 4 = b"
    "(b mod 16 * 4 + c div 64) mod 4 * 64 + c mod 64 = c"
proof -
  have h: "b div 16 < 16" "c div 64 < 4" "a mod 4 < 4" "b mod 16 < 16"
    using assms by auto
  show "a div 4 < 64" "c mod 64 < 64" using assms by auto
  show "a mod 4 * 16 + b div 16 < 64" using pack_less [OF h(3,1)] by simp
  show "b mod 16 * 4 + c div 64 < 64" using pack_less [OF h(4,2)] by simp
  show "a div 4 * 4 + (a mod 4 * 16 + b div 16) div 16 = a"
    by (simp only: pack_div [OF h(1)] div_mult_mod_eq)
  show "(a mod 4 * 16 + b div 16) mod 16 * 16 + (b mod 16 * 4 + c div 64) div 4 = b"
    by (simp only: pack_mod [OF h(1)] pack_div [OF h(2)] div_mult_mod_eq)
  show "(b mod 16 * 4 + c div 64) mod 4 * 64 + c mod 64 = c"
    by (simp only: pack_mod [OF h(2)] div_mult_mod_eq)
qed

lemma a2b_char:
  assumes "v < 64"
  shows "a2b_loop strict quad left pads False (b64_char v # rest) =
    (if quad = 0 then a2b_loop strict 1 v 0 False rest
     else if quad = 1 then
       bindR (a2b_loop strict 2 (v mod 16) 0 False rest) (\<lambda>bs. Inr ((left * 4 + v div 16) # bs))
     else if quad = 2 then
       bindR (a2b_loop strict 3 (v mod 4) 0 False rest) (\<lambda>bs. Inr ((left * 16 + v div 4) # bs))
     else bindR (a2b_loop strict 0 0 0 False rest) (\<lambda>bs. Inr ((left * 64 + v) # bs)))"
  using assms by simp

lemma a2b_four:
  assumes "v1 < 64" "v2 < 64" "v3 < 64" "v4 < 64"
    and "v1 * 4 + v2 div 16 = a" "v2 mod 16 * 16 + v3 div 4 = b" "v3 mod 4 * 64 + v4 = c"
  shows "a2b_loop strict 0 0 0 False (b64_char v1 # b64_char v2 # b64_char v3 # b64_char v4 # rest) =
    bindR (a2b_loop strict 0 0 0 False rest) (\<lambda>bs. Inr (a # b # c # bs))"
  unfolding a2b_char [OF assms(1)] a2b_char [OF assms(2)] a2b_char [OF assms(3)] a2b_char [OF assms(4)]
  by (cases "a2b_loop strict 0 0 0 False rest") (simp_all add: assms(5-7) del: a2b_loop.simps)

lemma a2b_end:
  "a2b_loop strict 2 left 0 False [pad_char, pad_char] = Inr []"
  "a2b_loop strict 3 left 0 False [pad_char] = Inr []"
  by simp_all

lemma a2b_two:
  assumes "v1 < 64" "v2 < 64" and "v1 * 4 + v2 div 16 = a"
  shows "a2b_loop strict 0 0 0 False [b64_char v1, b64_char v2, pad_char, pad_char] = Inr [a]"
  unfolding a2b_char [OF assms(1)] a2b_char [OF assms(2)]
  by (simp add: assms(3) a2b_end del: a2b_loop.simps)

lemma a2b_three:
  assumes "v1 < 64" "v2 < 64" "v3 < 64" and "v1 * 4 + v2 div 16 = a" "v2 mod 16 * 16 + v3 div 4 = b"
  shows "a2b_loop strict 0 0 0 False [b64_char v1, b64_char v2, b64_char v3, pad_char] = Inr [a, b]"
  unfolding a2b_char [OF assms(1)] a2b_char [OF assms(2)] a2b_char [OF assms(3)]
  by (simp add: assms(4,5) a2b_end del: a2b_loop.simps)

lemma a2b_encode:
  assumes "\<forall>b \<in> set bs. b < 256"
  shows "a2b_loop strict 0 0 0 False (b64encode bs) = Inr bs"
  using assms
proof (induction bs rule: b64encode.induct)
  case 1
  then show ?case by simp
next
  case (2 a)
  then have a: "a < 256" by simp
  have w: "a mod 4 * 16 < 64" "a div 4 * 4 + a mod 4 * 16 div 16 = a"
    using sextets(2,5) [OF a, of 0 0] by simp_all
  show ?case unfolding b64encode.simps by (rule a2b_two [OF sextets(1) [OF a, of 0 0] w]) simp_all
next
  case (3 a b)
  then have ab: "a < 256" "b < 256" by simp_all
  have w: "b mod 16 * 4 < 64" "(a mod 4 * 16 + b div 16) mod 16 * 16 + b mod 16 * 4 div 4 = b"
    using sextets(3,6) [OF ab, of 0] by simp_all
  show ?case unfolding b64encode.simps
    by (rule a2b_three [OF sextets(1,2) [OF ab, of 0] w(1) sextets(5) [OF ab, of 0] w(2)]) simp_all
next
  case (4 a b c rest)
  then have abc: "a < 256" "b < 256" "c < 256" by simp_all
  have "a2b_loop strict 0 0 0 False (b64encode rest) = Inr rest" using 4 by simp
  then show ?case unfolding b64encode.simps append.simps
    by (simp only: a2b_four [OF sextets [OF abc]] bindR_simps)
qed

lemma b64_char_ascii: "n < 64 \<Longrightarrow> (of_char (b64_char n) :: nat) < 128"
proof -
  assume "n < 64"
  then have "b64_char n \<in> set b64_alphabet"
    using b64_alphabet_facts(1) by (simp add: b64_char_def)
  moreover have "\<forall>c \<in> set b64_alphabet. (of_char c :: nat) < 128" by (simp add: b64_alphabet_def)
  ultimately show ?thesis by blast
qed

lemma b64encode_ascii: "\<forall>b \<in> set bs. b < 256 \<Longrightarrow> c \<in> set (b64encode bs) \<Longrightarrow> (of_char c :: nat) < 128"
proof (induction bs rule: b64encode.induct)
  case (2 a)
  then have "a div 4 < 64" "a mod 4 * 16 < 64" by auto
  then show ?case using 2(2) b64_char_ascii by (auto simp: pad_char_def)
next
  case (3 a b)
  then have "a div 4 < 64" "a mod 4 * 16 + b div 16 < 64" "b mod 16 * 4 < 64" by auto
  then show ?case using 3(2) b64_char_ascii by (auto simp: pad_char_def)
next
  case (4 a b c' rest)
  then have "a div 4 < 64" "a mod 4 * 16 + b div 16 < 64" "b mod 16 * 4 + c' div 64 < 64" "c' mod 64 < 64" by auto
  then show ?case using 4 b64_char_ascii by auto
qed simp

lemma b64encode_hd: "\<forall>b \<in> set bs. b < 256 \<Longrightarrow> bs \<noteq> [] \<Longrightarrow> hd (b64encode bs) \<noteq> pad_char"
  by (cases bs rule: b64encode.cases) auto

text \<open>
  Base64 round trip. Whatever the bytes, decoding their encoding gives them back, in the strict mode of
  \<open>validate=True\<close> as well as in the lenient one.
\<close>

theorem b64_roundtrip:
  assumes "\<forall>b \<in> set bs. b < 256"
  shows "b64decode strict (b64encode bs) = Inr bs"
  using a2b_encode [OF assms, of strict] b64encode_ascii [OF assms] b64encode_hd [OF assms]
  by (cases "bs = []") (force simp: b64decode_def)+

text \<open>Whatever is decoded is bytes: the bits left over between characters stay in range.\<close>

definition left_ok :: "nat \<Rightarrow> nat \<Rightarrow> bool" where
  "left_ok quad left \<longleftrightarrow> quad < 4 \<and> (quad = 1 \<longrightarrow> left < 64) \<and> (quad = 2 \<longrightarrow> left < 16) \<and> (quad = 3 \<longrightarrow> left < 4)"

lemma byte_bounds:
  "(l::nat) < 64 \<Longrightarrow> v < 64 \<Longrightarrow> l * 4 + v div 16 < 256"
  "l < 16 \<Longrightarrow> v < 64 \<Longrightarrow> l * 16 + v div 4 < 256"
  "l < 4 \<Longrightarrow> v < 64 \<Longrightarrow> l * 64 + v < 256"
  using pack_less [of l 64 "v div 16" 4] pack_less [of l 16 "v div 4" 16] pack_less [of l 4 v 64]
  by (simp_all add: less_mult_imp_div_less)

lemma a2b_bytes:
  "a2b_loop strict quad left pads started s = Inr bs \<Longrightarrow> left_ok quad left \<Longrightarrow> b \<in> set bs \<Longrightarrow> b < 256"
proof (induction s arbitrary: quad left pads started bs b)
  case Nil
  then show ?case by (simp split: if_splits)
next
  case (Cons ch rest)
  show ?case
  proof (cases "ch = pad_char")
    case True
    with Cons.prems Cons.IH show ?thesis by (auto split: if_splits)
  next
    case False
    show ?thesis
    proof (cases "b64_index ch")
      case None
      with False Cons.prems Cons.IH show ?thesis by (auto split: if_splits)
    next
      case (Some v)
      note v = b64_index_bound [OF Some]
      consider "quad = 0" | "quad = 1" | "quad = 2" | "quad = 3"
        using Cons.prems(2) unfolding left_ok_def by linarith
      then show ?thesis
      proof cases
        case 1
        with False Some Cons.prems Cons.IH [of 1 v] v show ?thesis
          by (auto simp: left_ok_def split: if_splits)
      next
        case 2
        with False Some Cons.prems obtain bs' where
          "a2b_loop strict 2 (v mod 16) 0 started rest = Inr bs'" "bs = (left * 4 + v div 16) # bs'"
          by (auto split: if_splits)
        with 2 Cons.prems Cons.IH [OF this(1)] v byte_bounds(1) show ?thesis
          by (auto simp: left_ok_def)
      next
        case 3
        with False Some Cons.prems obtain bs' where
          "a2b_loop strict 3 (v mod 4) 0 started rest = Inr bs'" "bs = (left * 16 + v div 4) # bs'"
          by (auto split: if_splits)
        with 3 Cons.prems Cons.IH [OF this(1)] v byte_bounds(2) show ?thesis
          by (auto simp: left_ok_def)
      next
        case 4
        with False Some Cons.prems obtain bs' where
          "a2b_loop strict 0 0 0 started rest = Inr bs'" "bs = (left * 64 + v) # bs'"
          by (auto split: if_splits)
        with 4 Cons.prems Cons.IH [OF this(1)] v byte_bounds(3) show ?thesis
          by (auto simp: left_ok_def)
      qed
    qed
  qed
qed

lemma b64decode_bytes: "b64decode strict s = Inr bs \<Longrightarrow> b \<in> set bs \<Longrightarrow> b < 256"
  using a2b_bytes [of strict 0 0 0 False s bs b] by (auto simp: b64decode_def left_ok_def split: if_splits)

end
