(* ===== verification/WsProtocol.thy ===== *)
theory WsProtocol
  imports Base64 Document
begin

text \<open>
  The streaming protocol (\<open>adapters/inbound/websocket/protocol.py\<close>): one inbound JSON object into a
  typed message. The message is the dictionary that \<open>receive_json\<close> returned, with string keys.

  Python's \<open>str\<close> of a float, a list or an object and \<open>float\<close> of a string are arguments (\<open>texts\<close>,
  \<open>floats\<close>): the first is only shown or refused, the second is the parser of float literals.
\<close>

section \<open>Python's conversions of JSON values\<close>

definition ProtocolError :: exn where
  "ProtocolError = OtherError ''ProtocolError''"

definition TypeError :: exn where
  "TypeError = OtherError ''TypeError''"

record py_conversions =
  texts :: "json \<Rightarrow> string"
  floats :: "string \<Rightarrow> rat option"

fun py_str :: "py_conversions \<Rightarrow> json \<Rightarrow> string" where
  "py_str py (JStr s) = s"
| "py_str py (JInt i) = show_int i"
| "py_str py (JBool b) = (if b then ''True'' else ''False'')"
| "py_str py JNull = ''None''"
| "py_str py v = texts py v"

definition rat_trunc :: "rat \<Rightarrow> int" where
  "rat_trunc q = (if 0 \<le> q then \<lfloor>q\<rfloor> else \<lceil>q\<rceil>)"

fun to_int :: "json \<Rightarrow> int result" where
  "to_int (JInt i) = Inr i"
| "to_int (JBool b) = Inr (if b then 1 else 0)"
| "to_int (JFloat q) = Inr (rat_trunc q)"
| "to_int (JStr s) = (case py_int s of None \<Rightarrow> Inl ValueError | Some i \<Rightarrow> Inr i)"
| "to_int v = Inl TypeError"

fun to_float :: "py_conversions \<Rightarrow> json \<Rightarrow> rat result" where
  "to_float py (JInt i) = Inr (of_int i)"
| "to_float py (JBool b) = Inr (if b then 1 else 0)"
| "to_float py (JFloat q) = Inr q"
| "to_float py (JStr s) = (case floats py s of None \<Rightarrow> Inl ValueError | Some q \<Rightarrow> Inr q)"
| "to_float py v = Inl TypeError"

fun truthy :: "json \<Rightarrow> bool" where
  "truthy (JBool b) = b"
| "truthy (JInt i) = (i \<noteq> 0)"
| "truthy (JFloat q) = (q \<noteq> 0)"
| "truthy (JStr s) = (s \<noteq> [])"
| "truthy (JBytes s) = (s \<noteq> [])"
| "truthy (JSeq vs) = (vs \<noteq> [])"
| "truthy (JMap kvs) = (kvs \<noteq> [])"
| "truthy JNull = False"

text \<open>\<open>isinstance(value, int)\<close>: \<open>bool\<close> is a subclass of \<open>int\<close>.\<close>

fun as_int :: "json \<Rightarrow> int option" where
  "as_int (JInt i) = Some i"
| "as_int (JBool b) = Some (if b then 1 else 0)"
| "as_int v = None"

text \<open>\<open>isinstance(value, list)\<close>.\<close>

fun as_list :: "json \<Rightarrow> json list option" where
  "as_list (JSeq vs) = Some vs"
| "as_list v = None"

lemma as_list_Some: "as_list v = Some vs \<longleftrightarrow> v = JSeq vs"
  by (cases v) simp_all

definition get_or :: "(string \<times> json) list \<Rightarrow> string \<Rightarrow> json \<Rightarrow> json" where
  "get_or raw key d = (case map_of raw key of None \<Rightarrow> d | Some v \<Rightarrow> v)"

section \<open>Messages\<close>

datatype client_message_type =
    SESSION_CONFIGURE | AUDIO_CHUNK | VIDEO_FRAME | VISUAL_FEATURES
  | CAPTURE_PAUSE | CAPTURE_RESUME | SESSION_COMPLETE | CLIENT_HEARTBEAT

fun client_type_value :: "client_message_type \<Rightarrow> string" where
  "client_type_value SESSION_CONFIGURE = ''session.configure''"
| "client_type_value AUDIO_CHUNK = ''audio.chunk''"
| "client_type_value VIDEO_FRAME = ''video.frame''"
| "client_type_value VISUAL_FEATURES = ''visual.features''"
| "client_type_value CAPTURE_PAUSE = ''capture.pause''"
| "client_type_value CAPTURE_RESUME = ''capture.resume''"
| "client_type_value SESSION_COMPLETE = ''session.complete''"
| "client_type_value CLIENT_HEARTBEAT = ''client.heartbeat''"

definition client_message_types :: "client_message_type list" where
  "client_message_types = [SESSION_CONFIGURE, AUDIO_CHUNK, VIDEO_FRAME, VISUAL_FEATURES, CAPTURE_PAUSE,
     CAPTURE_RESUME, SESSION_COMPLETE, CLIENT_HEARTBEAT]"

record envelope =
  ev_schema_version :: string
  ev_session_id :: string
  ev_message_id :: string
  ev_monotonic_time_ms :: int
  ev_chunk_seq :: "int option"
  ev_event_seq :: "int option"

record audio_chunk =
  ach_envelope :: envelope
  ach_sequence :: int
  ach_samples :: bytes
  ach_sample_rate_hz :: int
  ach_duration_ms :: int
  ach_is_final :: bool

record video_frame_payload =
  vfp_envelope :: envelope
  vfp_sequence :: int
  vfp_session_position_ms :: int
  vfp_pixels :: "bytes option"
  vfp_landmarks :: "rat list"

record control_message =
  ctl_envelope :: envelope
  ctl_type :: client_message_type
  ctl_body :: "(string \<times> json) list"

record unknown_message =
  unk_raw_type :: string
  unk_envelope :: "envelope option"
  unk_reason :: string

datatype client_message =
    AudioMessage audio_chunk
  | VideoMessage video_frame_payload
  | ControlMessage control_message
  | UnknownMessage unknown_message

section \<open>Parsing\<close>

definition ENVELOPE_KEYS :: "string list" where
  "ENVELOPE_KEYS = [''schema_version'', ''session_id'', ''message_id'', ''monotonic_time_ms'', ''chunk_seq'',
     ''event_seq'']"

definition REQUIRED_KEYS :: "string list" where
  "REQUIRED_KEYS = [''schema_version'', ''session_id'', ''message_id'', ''monotonic_time_ms'']"

definition optional_int :: "(string \<times> json) list \<Rightarrow> string \<Rightarrow> int option result" where
  "optional_int raw key =
     (let v = get_or raw key JNull in
      if v = JNull then Inr None
      else case as_int v of
          None \<Rightarrow> Inl ProtocolError
        | Some i \<Rightarrow> if i < 0 then Inl ProtocolError else Inr (Some i))"

definition parse_envelope :: "py_conversions \<Rightarrow> (string \<times> json) list \<Rightarrow> envelope result" where
  "parse_envelope py raw =
     (if \<exists>key \<in> set REQUIRED_KEYS. map_of raw key = None then Inl ProtocolError
      else case as_int (get_or raw ''monotonic_time_ms'' JNull) of
          None \<Rightarrow> Inl ProtocolError
        | Some monotonic \<Rightarrow>
            if monotonic < 0 then Inl ProtocolError
            else bindR (optional_int raw ''chunk_seq'') (\<lambda>chunk_seq.
                 bindR (optional_int raw ''event_seq'') (\<lambda>event_seq.
                   Inr \<lparr>ev_schema_version = py_str py (get_or raw ''schema_version'' JNull),
                        ev_session_id = py_str py (get_or raw ''session_id'' JNull),
                        ev_message_id = py_str py (get_or raw ''message_id'' JNull),
                        ev_monotonic_time_ms = monotonic,
                        ev_chunk_seq = chunk_seq, ev_event_seq = event_seq\<rparr>)))"

text \<open>Decoding raises \<open>binascii.Error\<close> or \<open>ValueError\<close>, both turned into \<open>ProtocolError\<close>.\<close>

definition decode_field :: "py_conversions \<Rightarrow> (string \<times> json) list \<Rightarrow> string \<Rightarrow> bytes result" where
  "decode_field py raw key =
     (case b64decode True (py_str py (get_or raw key (JStr []))) of
        Inl _ \<Rightarrow> Inl ProtocolError
      | Inr bs \<Rightarrow> Inr bs)"

definition parse_audio :: "py_conversions \<Rightarrow> envelope \<Rightarrow> (string \<times> json) list \<Rightarrow> audio_chunk result" where
  "parse_audio py env raw =
     (case ev_chunk_seq env of
        None \<Rightarrow> Inl ProtocolError
      | Some sequence \<Rightarrow>
          bindR (decode_field py raw ''samples'') (\<lambda>samples.
          bindR (to_int (get_or raw ''sample_rate_hz'' (JInt 16000))) (\<lambda>rate.
          bindR (to_int (get_or raw ''duration_ms'' (JInt 0))) (\<lambda>duration.
            Inr \<lparr>ach_envelope = env, ach_sequence = sequence, ach_samples = samples,
                 ach_sample_rate_hz = rate, ach_duration_ms = duration,
                 ach_is_final = truthy (get_or raw ''is_final'' (JBool False))\<rparr>))))"

definition parse_video ::
  "py_conversions \<Rightarrow> envelope \<Rightarrow> (string \<times> json) list \<Rightarrow> client_message_type \<Rightarrow> video_frame_payload result"
where
  "parse_video py env raw message_type =
     (case ev_chunk_seq env of
        None \<Rightarrow> Inl ProtocolError
      | Some sequence \<Rightarrow>
          bindR (if message_type = VIDEO_FRAME
                 then bindR (decode_field py raw ''pixels'') (\<lambda>bs. Inr (Some bs)) else Inr None) (\<lambda>pixels.
          case as_list (get_or raw ''landmarks'' (JSeq [])) of
            Some landmarks \<Rightarrow>
              bindR (to_int (get_or raw ''session_position_ms'' (JInt (ev_monotonic_time_ms env)))) (\<lambda>position.
              bindR (mapR (to_float py) landmarks) (\<lambda>values.
                Inr \<lparr>vfp_envelope = env, vfp_sequence = sequence, vfp_session_position_ms = position,
                     vfp_pixels = pixels, vfp_landmarks = values\<rparr>))
          | None \<Rightarrow> Inl ProtocolError))"

definition parse_client_message :: "py_conversions \<Rightarrow> (string \<times> json) list \<Rightarrow> client_message result" where
  "parse_client_message py raw =
     bindR (parse_envelope py raw) (\<lambda>env.
       let raw_type = py_str py (get_or raw ''type'' (JStr [])) in
       case enum_of client_type_value client_message_types raw_type of
         None \<Rightarrow> Inr (UnknownMessage \<lparr>unk_raw_type = raw_type, unk_envelope = Some env,
             unk_reason = ''unrecognized message type for this schema version''\<rparr>)
       | Some message_type \<Rightarrow>
           if message_type = AUDIO_CHUNK then
             bindR (parse_audio py env raw) (\<lambda>m. Inr (AudioMessage m))
           else if message_type \<in> {VIDEO_FRAME, VISUAL_FEATURES} then
             bindR (parse_video py env raw message_type) (\<lambda>m. Inr (VideoMessage m))
           else Inr (ControlMessage \<lparr>ctl_envelope = env, ctl_type = message_type,
             ctl_body = filter (\<lambda>(k, _). k \<notin> set ENVELOPE_KEYS \<and> k \<noteq> ''type'') raw\<rparr>))"

section \<open>What a parsed message is\<close>

lemma as_int_get_or: "as_int (get_or raw k JNull) = Some i \<Longrightarrow> map_of raw k \<noteq> None"
  by (auto simp: get_or_def split: option.splits)

lemma optional_int_cases:
  "optional_int raw k = Inl x \<Longrightarrow> x = ProtocolError"
  "optional_int raw k = Inr (Some i) \<Longrightarrow> 0 \<le> i"
  by (auto simp: optional_int_def Let_def split: option.splits if_splits)

lemma parse_envelope_Inr:
  "parse_envelope py raw = Inr env \<Longrightarrow> 0 \<le> ev_monotonic_time_ms env \<and>
     (\<forall>i. ev_chunk_seq env = Some i \<longrightarrow> 0 \<le> i) \<and> (\<forall>i. ev_event_seq env = Some i \<longrightarrow> 0 \<le> i)"
  by (auto simp: parse_envelope_def dest: optional_int_cases split: if_splits option.splits)

lemma parse_envelope_Inl: "parse_envelope py raw = Inl x \<Longrightarrow> x = ProtocolError"
  by (auto simp: parse_envelope_def dest: optional_int_cases split: if_splits option.splits)

lemma decode_field_cases:
  "decode_field py raw k = Inl x \<Longrightarrow> x = ProtocolError"
  "decode_field py raw k = Inr bs \<Longrightarrow> list_all (\<lambda>b. b < 256) bs"
  by (auto simp: decode_field_def list_all_iff dest: b64decode_bytes split: sum.splits)

definition wf_message :: "client_message \<Rightarrow> bool" where
  "wf_message m = (case m of
     AudioMessage a \<Rightarrow> 0 \<le> ach_sequence a \<and> ev_chunk_seq (ach_envelope a) = Some (ach_sequence a) \<and>
       0 \<le> ev_monotonic_time_ms (ach_envelope a) \<and> list_all (\<lambda>b. b < 256) (ach_samples a)
   | VideoMessage v \<Rightarrow> 0 \<le> vfp_sequence v \<and> ev_chunk_seq (vfp_envelope v) = Some (vfp_sequence v) \<and>
       0 \<le> ev_monotonic_time_ms (vfp_envelope v) \<and>
       (case vfp_pixels v of None \<Rightarrow> True | Some bs \<Rightarrow> list_all (\<lambda>b. b < 256) bs)
   | ControlMessage c \<Rightarrow> ctl_type c \<notin> {AUDIO_CHUNK, VIDEO_FRAME, VISUAL_FEATURES} \<and>
       list_all (\<lambda>(k, v). k \<notin> set ENVELOPE_KEYS) (ctl_body c)
   | UnknownMessage u \<Rightarrow> \<not> list_ex (\<lambda>t. client_type_value t = unk_raw_type u) client_message_types)"

lemma parse_audio_Inr:
  "parse_audio py env raw = Inr m \<Longrightarrow> ach_envelope m = env \<and> ev_chunk_seq env = Some (ach_sequence m) \<and>
     list_all (\<lambda>b. b < 256) (ach_samples m)"
  by (auto simp: parse_audio_def dest: decode_field_cases split: option.splits)

lemma parse_video_Inr:
  "parse_video py env raw t = Inr m \<Longrightarrow> vfp_envelope m = env \<and> ev_chunk_seq env = Some (vfp_sequence m) \<and>
     (case vfp_pixels m of None \<Rightarrow> True | Some bs \<Rightarrow> list_all (\<lambda>b. b < 256) bs)"
  by (auto simp: parse_video_def split: option.splits if_splits; rule decode_field_cases(2); assumption)

text \<open>
  What a message can be (US-012). Every message that parses is well formed: a media message carries a
  non-negative sequence number, the one of its envelope, at a non-negative time, and payloads of
  bytes; a control message is of a control type and its body holds none of the envelope; and only a
  type that is not in the protocol becomes an unknown message.
\<close>

theorem parsed_message_wf:
  assumes "parse_client_message py raw = Inr m"
  shows "wf_message m"
proof -
  obtain env where env: "parse_envelope py raw = Inr env"
    using assms by (auto simp: parse_client_message_def)
  note e = parse_envelope_Inr [OF env]
  let ?t = "py_str py (get_or raw ''type'' (JStr []))"
  show ?thesis
  proof (cases "enum_of client_type_value client_message_types ?t")
    case None
    with assms env show ?thesis
      by (auto simp: parse_client_message_def Let_def wf_message_def list_ex_iff enum_of_None)
  next
    case (Some t)
    consider "t = AUDIO_CHUNK" | "t \<in> {VIDEO_FRAME, VISUAL_FEATURES}" | "t \<notin> {AUDIO_CHUNK, VIDEO_FRAME, VISUAL_FEATURES}"
      by blast
    then show ?thesis
    proof cases
      case 1
      with Some assms env obtain a where "parse_audio py env raw = Inr a" "m = AudioMessage a"
        by (auto simp: parse_client_message_def Let_def)
      with e parse_audio_Inr [of py env raw a] show ?thesis by (auto simp: wf_message_def)
    next
      case 2
      with Some assms env obtain v where "parse_video py env raw t = Inr v" "m = VideoMessage v"
        by (auto simp: parse_client_message_def Let_def)
      with e parse_video_Inr [of py env raw t v] show ?thesis by (auto simp: wf_message_def)
    next
      case 3
      with Some assms env show ?thesis
        by (auto simp: parse_client_message_def Let_def wf_message_def list_all_iff)
    qed
  qed
qed

section \<open>Exceptions of the parser\<close>

text \<open>The conversions a media message goes through.\<close>

definition bad_number :: "py_conversions \<Rightarrow> (string \<times> json) list \<Rightarrow> exn \<Rightarrow> bool" where
  "bad_number py raw x \<longleftrightarrow>
     (\<exists>k \<in> {''sample_rate_hz'', ''duration_ms'', ''session_position_ms''}. \<exists>v. map_of raw k = Some v \<and> to_int v = Inl x) \<or>
     (\<exists>vs v. map_of raw ''landmarks'' = Some (JSeq vs) \<and> v \<in> set vs \<and> to_float py v = Inl x)"

lemma bad_number_int:
  assumes "to_int (get_or raw k (JInt d)) = Inl x" and "k \<in> {''sample_rate_hz'', ''duration_ms'', ''session_position_ms''}"
  shows "bad_number py raw x"
proof -
  have "\<exists>v. map_of raw k = Some v \<and> to_int v = Inl x"
    using assms(1) by (auto simp: get_or_def split: option.splits)
  with assms(2) show ?thesis unfolding bad_number_def by blast
qed

lemma bad_number_float:
  assumes "as_list (get_or raw ''landmarks'' (JSeq [])) = Some vs" and "mapR (to_float py) vs = Inl x"
  shows "bad_number py raw x"
  using assms mapR_Inl_mem [OF assms(2)]
  by (auto simp: bad_number_def get_or_def as_list_Some split: option.splits)

lemmas bad_number_intros = bad_number_int [of _ "''sample_rate_hz''"] bad_number_int [of _ "''duration_ms''"]
  bad_number_int [of _ "''session_position_ms''"] bad_number_float

lemma parse_audio_Inl: "parse_audio py env raw = Inl x \<Longrightarrow> x = ProtocolError \<or> bad_number py raw x"
  by (auto simp: parse_audio_def dest: decode_field_cases(1) intro: bad_number_intros split: option.splits)

lemma parse_video_Inl: "parse_video py env raw t = Inl x \<Longrightarrow> x = ProtocolError \<or> bad_number py raw x"
  by (auto simp: parse_video_def dest: decode_field_cases(1) intro: bad_number_intros split: option.splits if_splits)

text \<open>
  The errors of the parser. Parsing raises \<open>ProtocolError\<close>, which costs the client one frame, or it
  raises what the conversion of a number of a media message raised, which nothing turns into a
  protocol error; with numbers that convert, \<open>ProtocolError\<close> is the only exception.
\<close>

theorem parse_error_classes:
  assumes "parse_client_message py raw = Inl x"
  shows "x = ProtocolError \<or> bad_number py raw x"
proof (cases "parse_envelope py raw")
  case (Inl y)
  with assms parse_envelope_Inl [OF Inl] show ?thesis by (simp add: parse_client_message_def)
next
  case (Inr env)
  with assms parse_audio_Inl [of py env raw x] parse_video_Inl [of py env raw _ x] show ?thesis
    by (auto simp: parse_client_message_def Let_def split: option.splits if_splits)
qed

definition sample_python :: py_conversions where
  "sample_python = \<lparr>texts = \<lambda>_. [], floats = \<lambda>_. None\<rparr>"

definition sample_raw :: "(string \<times> json) list \<Rightarrow> (string \<times> json) list" where
  "sample_raw rest = [(''schema_version'', JStr ''1.0.0''), (''session_id'', JStr ''s''),
     (''message_id'', JStr ''m1''), (''monotonic_time_ms'', JInt 20), (''chunk_seq'', JInt 0)] @ rest"

lemma parse_leaks_ValueError:
  "parse_client_message py (sample_raw [(''type'', JStr ''audio.chunk''), (''duration_ms'', JStr ''x'')]) =
     Inl ValueError"
  by (simp add: parse_client_message_def parse_envelope_def sample_raw_def REQUIRED_KEYS_def get_or_def
      optional_int_def Let_def enum_of_def client_message_types_def parse_audio_def decode_field_def
      b64decode_def py_int_def py_strip_def py_isspace_def digit_val_def)

theorem parse_error_classes_witness:
  "bad_number sample_python (sample_raw [(''type'', JStr ''audio.chunk''), (''duration_ms'', JStr ''x'')]) ValueError"
  using parse_error_classes [OF parse_leaks_ValueError] by (simp add: ProtocolError_def)

theorem parsed_message_wf_witness:
  "\<exists>m. parse_client_message sample_python (sample_raw [(''type'', JStr ''session.complete''), (''note'', JNull)]) = Inr m \<and>
    wf_message m"
proof -
  have "\<exists>m. parse_client_message sample_python (sample_raw [(''type'', JStr ''session.complete''), (''note'', JNull)]) = Inr m"
    by (simp add: parse_client_message_def parse_envelope_def sample_raw_def REQUIRED_KEYS_def get_or_def
      optional_int_def Let_def enum_of_def client_message_types_def)
  with parsed_message_wf show ?thesis by blast
qed

end
