(* ===== verification/WsHandler.thy ===== *)
theory WsHandler
  imports WsProtocol Completion Identity
begin

text \<open>
  The streaming endpoint: the event channel of a socket (\<open>adapters/inbound/websocket/channel.py\<close>) and
  the handler of a connection (\<open>handler.py\<close>), over the engine, the coordinator of the connection and
  the frames that were sent. A connection is driven by the list of what \<open>receive_json\<close> yields; each
  item comes with the readings of the clocks and the answers of the runtimes for that item. Sending
  and closing do not fail.
\<close>

section \<open>The event channel\<close>

fun server_type_value :: "server_message_type \<Rightarrow> string" where
  "server_type_value SESSION_ACCEPTED = ''session.accepted''"
| "server_type_value QUALITY_WARNING = ''quality.warning''"
| "server_type_value TRANSCRIPT_PARTIAL = ''transcript.partial''"
| "server_type_value TRANSCRIPT_FINAL = ''transcript.final''"
| "server_type_value SPEECH_EVENT_PARTIAL = ''speech_event.partial''"
| "server_type_value SPEECH_EVENT_FINAL = ''speech_event.final''"
| "server_type_value VISUAL_EVENT_FINAL = ''visual_event.final''"
| "server_type_value COOCCURRENCE_FINAL = ''cooccurrence.final''"
| "server_type_value BACKPRESSURE_REQUESTED = ''backpressure.requested''"
| "server_type_value PROCESSING_DEGRADED = ''processing.degraded''"
| "server_type_value SESSION_COMPLETED = ''session.completed''"
| "server_type_value ERROR = ''error''"

record ws_channel =
  ch_schema_version :: string
  ch_event_seq :: int
  ch_sent :: "(string \<times> json) list list"

definition WebSocketEventChannel :: "string \<Rightarrow> ws_channel" where
  "WebSocketEventChannel version = \<lparr>ch_schema_version = version, ch_event_seq = 0, ch_sent = []\<rparr>"

text \<open>\<open>uuid4().hex\<close> of the frame with a given number is an argument.\<close>

definition send_frame ::
  "(int \<Rightarrow> string) \<Rightarrow> server_message_type \<Rightarrow> session_id \<Rightarrow> int \<Rightarrow> (string \<times> json) list \<Rightarrow> ws_channel \<Rightarrow> ws_channel"
where
  "send_frame uuid t i monotonic payload ch =
     (let seq = ch_event_seq ch + 1;
          data = [(''schema_version'', JStr (ch_schema_version ch)),
                  (''session_id'', JStr (session_id_value i)),
                  (''message_id'', JStr (''msg_'' @ uuid seq)),
                  (''event_seq'', JInt seq),
                  (''monotonic_time_ms'', JInt monotonic),
                  (''type'', JStr (server_type_value t)),
                  (''payload'', JMap payload)]
      in ch\<lparr>ch_event_seq := seq, ch_sent := ch_sent ch @ [data]\<rparr>)"

definition channel_publish :: "(int \<Rightarrow> string) \<Rightarrow> outbound_event \<Rightarrow> ws_channel \<Rightarrow> ws_channel" where
  "channel_publish uuid e = send_frame uuid (oe_type e) (oe_session_id e) (oe_monotonic_time_ms e) (oe_payload e)"

definition channel_backpressure :: "(int \<Rightarrow> string) \<Rightarrow> session_id \<Rightarrow> int \<Rightarrow> ws_channel \<Rightarrow> ws_channel" where
  "channel_backpressure uuid i queue_depth =
     send_frame uuid BACKPRESSURE_REQUESTED i 0 [(''queue_depth'', JInt queue_depth)]"

definition send_error :: "(int \<Rightarrow> string) \<Rightarrow> session_id \<Rightarrow> string \<Rightarrow> string \<Rightarrow> ws_channel \<Rightarrow> ws_channel" where
  "send_error uuid i code message =
     send_frame uuid ERROR i 0 [(''code'', JStr code), (''message'', JStr message)]"

definition send_accepted :: "(int \<Rightarrow> string) \<Rightarrow> session_id \<Rightarrow> (string \<times> json) list \<Rightarrow> ws_channel \<Rightarrow> ws_channel" where
  "send_accepted uuid i body = send_frame uuid SESSION_ACCEPTED i 0 body"

definition send_completed :: "(int \<Rightarrow> string) \<Rightarrow> session_id \<Rightarrow> (string \<times> json) list \<Rightarrow> ws_channel \<Rightarrow> ws_channel" where
  "send_completed uuid i body = send_frame uuid SESSION_COMPLETED i 0 body"

definition deliver :: "(int \<Rightarrow> string) \<Rightarrow> channel_call \<Rightarrow> ws_channel \<Rightarrow> ws_channel" where
  "deliver uuid c = (case c of
     Publish e \<Rightarrow> channel_publish uuid e
   | RequestBackpressure i depth \<Rightarrow> channel_backpressure uuid i depth)"

section \<open>A connection\<close>

record connection =
  cn_engine :: engine
  cn_world :: world
  cn_channel :: ws_channel
  cn_closes :: "int list"
  cn_counters :: "(string \<times> string) list"

text \<open>What is fixed for the connection; \<open>error_text\<close> is \<open>str\<close> of an exception.\<close>

record connection_env =
  ce_python :: py_conversions
  ce_uuid :: "int \<Rightarrow> string"
  ce_error_text :: "exn \<Rightarrow> string"
  ce_calibrator :: calibrator
  ce_max_queue_depth :: int
  ce_lease_ttl_seconds :: int
  ce_pipeline_version :: semantic_version

text \<open>The clocks and the runtimes while one item is handled.\<close>

record moment =
  mo_wall_ms :: int
  mo_epoch_ms :: int
  mo_close_ms :: int
  mo_transcribe :: "audio_window \<Rightarrow> string + speech_result"
  mo_observe :: "visual_frame list \<Rightarrow> string + visual_result"

datatype incoming = Received moment "(string \<times> json) list" | Disconnected moment

definition CLOSE_POLICY_VIOLATION :: int where
  "CLOSE_POLICY_VIOLATION = 1008"

definition CLOSE_NORMAL :: int where
  "CLOSE_NORMAL = 1000"

definition on_channel :: "(ws_channel \<Rightarrow> ws_channel) \<Rightarrow> (connection, unit) action" where
  "on_channel f = modifyA (\<lambda>c. c\<lparr>cn_channel := f (cn_channel c)\<rparr>)"

definition close_socket :: "int \<Rightarrow> (connection, unit) action" where
  "close_socket code = modifyA (\<lambda>c. c\<lparr>cn_closes := cn_closes c @ [code]\<rparr>)"

definition count_event :: "string \<Rightarrow> string \<Rightarrow> (connection, unit) action" where
  "count_event name label = modifyA (\<lambda>c. c\<lparr>cn_counters := cn_counters c @ [(name, label)]\<rparr>)"

definition in_engine :: "(engine, 'a) action \<Rightarrow> (connection, 'a) action" where
  "in_engine m c = (case m (cn_engine c) of (e, r) \<Rightarrow> (c\<lparr>cn_engine := e\<rparr>, r))"

text \<open>A call of the coordinator: what it publishes goes out on the socket.\<close>

definition in_coordinator :: "(int \<Rightarrow> string) \<Rightarrow> (world, 'a) action \<Rightarrow> (connection, 'a) action" where
  "in_coordinator uuid m c =
     (case m (cn_world c) of (w, r) \<Rightarrow>
        (c\<lparr>cn_world := w,
           cn_channel := fold (deliver uuid) (drop (length (w_channel (cn_world c))) (w_channel w)) (cn_channel c)\<rparr>,
         r))"

section \<open>The handler\<close>

definition caller_from :: "stream_grant \<Rightarrow> authenticated_caller" where
  "caller_from g =
     \<lparr>ac_application = gr_application g, ac_tenant = gr_tenant g, ac_key_id = gr_key_id g,
      ac_scopes = gr_scopes g, ac_trace_id = ''ws_'' @ session_id_value (gr_session_id g)\<rparr>"

definition suppress_backpressure :: "('s, 'a) action \<Rightarrow> ('s, unit) action" where
  "suppress_backpressure m s =
     (case m s of
        (s', Inl (ApplicationError (BackpressureRequired _))) \<Rightarrow> (s', Inr ())
      | (s', Inl x) \<Rightarrow> (s', Inl x)
      | (s', Inr _) \<Rightarrow> (s', Inr ()))"

definition text_of_bytes :: "bytes \<Rightarrow> string" where
  "text_of_bytes bs = map char_of bs"

definition handle_audio ::
  "connection_env \<Rightarrow> coordinator_config \<Rightarrow> moment \<Rightarrow> audio_chunk \<Rightarrow> (connection, unit) action" where
  "handle_audio env cfg mo m =
     (let window = \<lparr>aw_session_position_ms = ev_monotonic_time_ms (ach_envelope m),
            aw_duration_ms = ach_duration_ms m, aw_sample_rate_hz = ach_sample_rate_hz m,
            aw_samples = text_of_bytes (ach_samples m), aw_is_final_window = ach_is_final m\<rparr>
      in suppress_backpressure
           (in_coordinator (ce_uuid env) (ingest_audio cfg (mo_transcribe mo) (ach_sequence m) window)))"

definition handle_video ::
  "connection_env \<Rightarrow> coordinator_config \<Rightarrow> moment \<Rightarrow> video_frame_payload \<Rightarrow> (connection, unit) action" where
  "handle_video env cfg mo m =
     (let frame = \<lparr>vf_session_position_ms = vfp_session_position_ms m,
            vf_pixels = map_option text_of_bytes (vfp_pixels m), vf_landmarks = vfp_landmarks m\<rparr>
      in suppress_backpressure
           (in_coordinator (ce_uuid env) (ingest_video cfg (mo_observe mo) (vfp_sequence m) [frame])))"

definition in_completion :: "(engine \<times> streaming_state, 'a) action \<Rightarrow> (connection, 'a) action" where
  "in_completion m c =
     (case m (cn_engine c, w_state (cn_world c)) of ((e, st), r) \<Rightarrow>
        (c\<lparr>cn_engine := e, cn_world := (cn_world c)\<lparr>w_state := st\<rparr>\<rparr>, r))"

definition completed_body :: "evidence_document \<Rightarrow> (string \<times> json) list" where
  "completed_body d =
     [(''run_id'', JStr (run_id_value (ed_run_id d))),
      (''speech_events'', JInt (int (length (ed_speech_events d)))),
      (''visual_events'', JInt (int (length (ed_visual_events d)))),
      (''cooccurrences'', JInt (int (length (ed_cooccurrences d)))),
      (''ranking_authority'', JStr (ranking_authority d))]"

definition handle_control ::
  "connection_env \<Rightarrow> coordinator_config \<Rightarrow> authenticated_caller \<Rightarrow> session_id \<Rightarrow> moment \<Rightarrow> control_message \<Rightarrow>
   (connection, bool) action" where
  "handle_control env cfg caller i mo m =
     (if ctl_type m = CLIENT_HEARTBEAT then returnA True
      else if ctl_type m = CAPTURE_PAUSE then
        bindA (in_engine (capture_pause (mo_wall_ms mo) caller i)) (\<lambda>_. returnA True)
      else if ctl_type m = CAPTURE_RESUME then
        bindA (in_engine (capture_resume (mo_wall_ms mo) caller i)) (\<lambda>_. returnA True)
      else if ctl_type m = SESSION_COMPLETE then
        bindA (in_completion (complete_session (mo_wall_ms mo) (mo_epoch_ms mo) caller i
                 (cc_configuration cfg))) (\<lambda>done.
        bindA (getA (\<lambda>c. ss_run_id (w_state (cn_world c)))) (\<lambda>run.
        seqA (in_engine (close_run (mo_close_ms mo) run True))
        (seqA (on_channel (send_completed (ce_uuid env) i (completed_body (cm_document done))))
          (returnA False))))
      else returnA True)"

definition dispatch ::
  "connection_env \<Rightarrow> coordinator_config \<Rightarrow> authenticated_caller \<Rightarrow> session_id \<Rightarrow> moment \<Rightarrow>
   (string \<times> json) list \<Rightarrow> (connection, bool) action" where
  "dispatch env cfg caller i mo raw =
     (case parse_client_message (ce_python env) raw of
        Inl x \<Rightarrow>
          if x = ProtocolError
          then seqA (on_channel (send_error (ce_uuid env) i ''protocol_error'' (ce_error_text env x))) (returnA True)
          else raiseA x
      | Inr (UnknownMessage m) \<Rightarrow> seqA (count_event ''stream.unknown_message'' (unk_raw_type m)) (returnA True)
      | Inr (AudioMessage m) \<Rightarrow> seqA (handle_audio env cfg mo m) (returnA True)
      | Inr (VideoMessage m) \<Rightarrow> seqA (handle_video env cfg mo m) (returnA True)
      | Inr (ControlMessage m) \<Rightarrow> handle_control env cfg caller i mo m)"

text \<open>The loop; it answers whether the socket is still being read.\<close>

fun receive_loop ::
  "connection_env \<Rightarrow> coordinator_config \<Rightarrow> authenticated_caller \<Rightarrow> session_id \<Rightarrow> run_id \<Rightarrow> incoming list \<Rightarrow>
   (connection, bool) action" where
  "receive_loop env cfg caller i run [] = returnA True"
| "receive_loop env cfg caller i run (Received mo raw # rest) =
     bindA (dispatch env cfg caller i mo raw) (\<lambda>keep_open.
       if keep_open then receive_loop env cfg caller i run rest else returnA False)"
| "receive_loop env cfg caller i run (Disconnected mo # rest) =
     seqA (count_event ''stream.disconnected'' [])
       (seqA (in_engine (close_run (mo_close_ms mo) run False)) (returnA False))"

text \<open>\<open>finally\<close>, for a body that may still be running (\<open>Inr True\<close>).\<close>

definition when_done :: "('s, bool) action \<Rightarrow> ('s, unit) action \<Rightarrow> ('s, bool) action" where
  "when_done m n s = (case m s of (s', Inr True) \<Rightarrow> (s', Inr True) | _ \<Rightarrow> finallyA m n s)"

definition open_world :: "run_id \<Rightarrow> session_id \<Rightarrow> world" where
  "open_world run i =
     \<lparr>w_state = StreamingState run i, w_ledger = EvidenceLedger run, w_channel = [], w_counters = []\<rparr>"

definition new_coordinator :: "connection_env \<Rightarrow> run_id \<Rightarrow> configuration_snapshot \<Rightarrow> coordinator_config" where
  "new_coordinator env run configuration =
     (let asm = \<lparr>asm_run_id = run, asm_configuration = configuration, asm_calibrator = ce_calibrator env\<rparr>
      in \<lparr>cc_configuration = configuration, cc_speech_assembler = asm, cc_visual_assembler = asm,
          cc_max_queue_depth = ce_max_queue_depth env\<rparr>)"

definition accepted_body :: "connection_env \<Rightarrow> run_id \<Rightarrow> configuration_snapshot \<Rightarrow> (string \<times> json) list" where
  "accepted_body env run configuration =
     [(''run_id'', JStr (run_id_value run)),
      (''configuration_id'', JStr (configuration_snapshot_id_value (cs_id configuration))),
      (''taxonomy_version'', JStr (version_str (cs_taxonomy_version configuration))),
      (''max_queue_depth'', JInt (ce_max_queue_depth env))]"

text \<open>\<open>try: begin; open_run except ApplicationError\<close>: a refusal is a value, any other exception leaves.\<close>

definition open_capture ::
  "connection_env \<Rightarrow> run_id \<Rightarrow> int \<Rightarrow> int \<Rightarrow> authenticated_caller \<Rightarrow> session_id \<Rightarrow>
   (connection, application_error + processing_run) action" where
  "open_capture env fresh_run wall_ms epoch_ms caller i c =
     (case in_engine (seqA (capture_begin wall_ms caller i)
             (open_run fresh_run epoch_ms (ce_pipeline_version env) caller i)) c of
        (c', Inl (ApplicationError x)) \<Rightarrow> (c', Inr (Inl x))
      | (c', Inl x) \<Rightarrow> (c', Inl x)
      | (c', Inr run) \<Rightarrow> (c', Inr (Inr run)))"

definition run_connection ::
  "connection_env \<Rightarrow> run_id \<Rightarrow> int \<Rightarrow> int \<Rightarrow> authenticated_caller \<Rightarrow> session_id \<Rightarrow> incoming list \<Rightarrow>
   (connection, bool) action" where
  "run_connection env fresh_run wall_ms epoch_ms caller i items =
     bindA (getA (\<lambda>c. config_current (en_configuration (cn_engine c)) (ac_tenant caller))) (\<lambda>configuration.
     bindA (open_capture env fresh_run wall_ms epoch_ms caller i) (\<lambda>opened.
       case opened of
         Inl x \<Rightarrow>
           seqA (on_channel (send_error (ce_uuid env) i ''cannot_begin_capture'' (ce_error_text env (ApplicationError x))))
             (seqA (close_socket CLOSE_POLICY_VIOLATION) (returnA False))
       | Inr run \<Rightarrow>
           seqA (modifyA (\<lambda>c. c\<lparr>cn_world := open_world (pr_id run) i\<rparr>))
           (seqA (on_channel (send_accepted (ce_uuid env) i (accepted_body env (pr_id run) configuration)))
             (when_done
               (receive_loop env (new_coordinator env (pr_id run) configuration) caller i (pr_id run) items)
               (close_socket CLOSE_NORMAL)))))"

text \<open>The endpoint; \<open>verified\<close> is what the minter made of the token, \<open>path_id\<close> the identifier in the URL.\<close>

definition refuse_socket :: "connection_env \<Rightarrow> session_id \<Rightarrow> string \<Rightarrow> string \<Rightarrow> (connection, bool) action" where
  "refuse_socket env i code message =
     seqA (on_channel (send_error (ce_uuid env) i code message))
       (seqA (close_socket CLOSE_POLICY_VIOLATION) (returnA False))"

definition take_lease :: "connection_env \<Rightarrow> int \<Rightarrow> session_id \<Rightarrow> (connection, bool) action" where
  "take_lease env lease_ms i =
     in_engine (zoomA en_stream (\<lambda>f e. e\<lparr>en_stream := f (en_stream e)\<rparr>)
       (\<lambda>s. Inr (acquire_lease lease_ms s i (ce_lease_ttl_seconds env))))"

definition drop_lease :: "session_id \<Rightarrow> (connection, unit) action" where
  "drop_lease i = in_engine (modifyA (\<lambda>e. e\<lparr>en_stream := release_lease (en_stream e) i\<rparr>))"

definition stream_connection ::
  "connection_env \<Rightarrow> run_id \<Rightarrow> int \<Rightarrow> int \<Rightarrow> int \<Rightarrow> string \<Rightarrow> stream_grant option \<Rightarrow> incoming list \<Rightarrow>
   (connection, bool) action" where
  "stream_connection env fresh_run lease_ms wall_ms epoch_ms path_id verified items =
     (case (case verified of
              None \<Rightarrow> None
            | Some g \<Rightarrow> if session_id_value (gr_session_id g) \<noteq> path_id then None else Some g) of
        None \<Rightarrow>
          bindA (liftA (Identifier SessionId path_id)) (\<lambda>i.
            refuse_socket env i ''invalid_stream_token'' ''the stream token is not valid'')
      | Some g \<Rightarrow>
          let i = gr_session_id g in
          bindA (take_lease env lease_ms i) (\<lambda>acquired.
            if \<not> acquired then
              refuse_socket env i ''session_busy'' ''another connection is already processing this session''
            else when_done (run_connection env fresh_run wall_ms epoch_ms (caller_from g) i items)
                   (drop_lease i)))"

end
