(* ===== verification/WsProperties.thy ===== *)
theory WsProperties
  imports WsHandler UseCaseProperties
begin

text \<open>
  What a client of the streaming endpoint can rely on: frames that are numbered without gaps, a lease
  that is given back however the connection ends, malformed frames that cost one frame; and what a
  dropped connection and a refused control message leave behind.
\<close>

section \<open>Frames\<close>

text \<open>Frame number \<open>n\<close>, of the version of the channel.\<close>

definition framed :: "string \<Rightarrow> int \<Rightarrow> (string \<times> json) list \<Rightarrow> bool" where
  "framed version n f \<longleftrightarrow> map fst f = [''schema_version'', ''session_id'', ''message_id'', ''event_seq'',
       ''monotonic_time_ms'', ''type'', ''payload''] \<and>
     map_of f ''schema_version'' = Some (JStr version) \<and> map_of f ''event_seq'' = Some (JInt n)"

definition numbered :: "ws_channel \<Rightarrow> bool" where
  "numbered ch \<longleftrightarrow> ch_event_seq ch = int (length (ch_sent ch)) \<and>
     (\<forall>k < length (ch_sent ch). framed (ch_schema_version ch) (int k + 1) (ch_sent ch ! k))"

definition frames_ok :: "string \<Rightarrow> connection \<Rightarrow> bool" where
  "frames_ok version c \<longleftrightarrow> ch_schema_version (cn_channel c) = version \<and> numbered (cn_channel c)"

lemma send_frame_numbered:
  "numbered ch \<Longrightarrow> numbered (send_frame uuid t i ms payload ch) \<and>
   ch_schema_version (send_frame uuid t i ms payload ch) = ch_schema_version ch"
  by (auto simp: numbered_def send_frame_def Let_def framed_def nth_append less_Suc_eq)

lemmas channel_send_defs = channel_publish_def channel_backpressure_def send_error_def send_accepted_def
  send_completed_def

lemma deliver_numbered: "numbered ch \<Longrightarrow> numbered (deliver uuid c ch) \<and>
    ch_schema_version (deliver uuid c ch) = ch_schema_version ch"
  by (cases c) (simp_all add: deliver_def channel_send_defs send_frame_numbered)

lemma fold_deliver_numbered: "numbered ch \<Longrightarrow> numbered (fold (deliver uuid) cs ch) \<and>
    ch_schema_version (fold (deliver uuid) cs ch) = ch_schema_version ch"
  by (induction cs arbitrary: ch) (simp_all add: deliver_numbered)

lemma on_channel_frames [preserves_rules]:
  "preserves (frames_ok v) (on_channel (send_error uuid i a b))"
  "preserves (frames_ok v) (on_channel (send_accepted uuid i body))"
  "preserves (frames_ok v) (on_channel (send_completed uuid i body))"
  by (auto simp: preserves_def on_channel_def frames_ok_def channel_send_defs send_frame_numbered)

lemma other_frames [preserves_rules]:
  "preserves (frames_ok v) (close_socket n)"
  "preserves (frames_ok v) (count_event a b)"
  "preserves (frames_ok v) (in_engine m)"
  "preserves (frames_ok v) (in_coordinator uuid m')"
  "preserves (frames_ok v) (in_completion m'')"
  by (auto simp: preserves_def close_socket_def count_event_def in_engine_def in_coordinator_def in_completion_def
      frames_ok_def fold_deliver_numbered split: prod.splits)

lemma suppress_preserves [preserves_rules]: "preserves P m \<Longrightarrow> preserves P (suppress_backpressure m)"
  by (auto simp: preserves_def suppress_backpressure_def split: prod.splits sum.splits exn.splits application_error.splits)

lemma when_done_preserves [preserves_rules]:
  "preserves P m \<Longrightarrow> preserves P n \<Longrightarrow> preserves P (when_done m n)"
  using preserves_finally [of P m n]
  by (auto simp: preserves_def when_done_def finallyA_def split: prod.splits sum.splits bool.splits)

lemma preserves_pure [preserves_rules]: "preserves P (\<lambda>s. (s, r))"
  by (simp add: preserves_def)

lemma dispatch_frames: "preserves (frames_ok v) (dispatch env cfg caller i mo raw)"
  by (auto simp: dispatch_def handle_audio_def handle_video_def handle_control_def Let_def
      intro!: preserves_rules split: sum.splits client_message.splits)

lemma loop_frames: "preserves (frames_ok v) (receive_loop env cfg caller i run items)"
  by (induction env cfg caller i run items rule: receive_loop.induct)
    (auto intro!: preserves_rules dispatch_frames)

lemma open_capture_frames: "preserves (frames_ok v) (open_capture env r w e caller i)"
  using other_frames(3) [of v "seqA (capture_begin w caller i) (open_run r e (ce_pipeline_version env) caller i)"]
  by (auto simp: preserves_def open_capture_def split: prod.splits sum.splits exn.splits)

lemma run_frames: "preserves (frames_ok v) (run_connection env r w e caller i items)"
  unfolding run_connection_def
  by (auto intro!: preserves_rules open_capture_frames loop_frames split: sum.splits)
    (simp add: preserves_def frames_ok_def)

lemma refuse_frames: "preserves (frames_ok v) (refuse_socket env i a b)"
  unfolding refuse_socket_def by (intro preserves_rules)

text \<open>
  Frames are numbered without gaps (US-012). However a connection goes, with whatever messages, refusals,
  runtime failures and exceptions, the frames it sent carry the sequence numbers 1, 2, 3 and so on,
  in the order they were sent, each with the whole envelope and the schema version of the engine.
\<close>

theorem frames_numbered:
  "let c = fst (stream_connection env fresh_run l w e path_id verified items
       \<lparr>cn_engine = eng, cn_world = wd, cn_channel = WebSocketEventChannel version, cn_closes = [], cn_counters = []\<rparr>)
   in ch_schema_version (cn_channel c) = version \<and> numbered (cn_channel c)"
proof -
  have "preserves (frames_ok version) (stream_connection env fresh_run l w e path_id verified items)"
    unfolding stream_connection_def take_lease_def drop_lease_def Let_def
    by (auto intro!: preserves_rules refuse_frames run_frames split: option.splits)
  then show ?thesis
    unfolding Let_def frames_ok_def [symmetric]
    by (rule preservesD) (simp add: frames_ok_def numbered_def WebSocketEventChannel_def)
qed

section \<open>The lease of a connection\<close>

lemma take_lease_run:
  "take_lease env t i c =
     (c\<lparr>cn_engine := (cn_engine c)\<lparr>en_stream := snd (acquire_lease t (en_stream (cn_engine c)) i (ce_lease_ttl_seconds env))\<rparr>\<rparr>,
      Inr (fst (acquire_lease t (en_stream (cn_engine c)) i (ce_lease_ttl_seconds env))))"
  by (simp add: take_lease_def in_engine_def zoomA_def split: prod.splits)

lemma drop_lease_run:
  "drop_lease i c = (c\<lparr>cn_engine := (cn_engine c)\<lparr>en_stream := release_lease (en_stream (cn_engine c)) i\<rparr>\<rparr>, Inr ())"
  by (simp add: drop_lease_def in_engine_def)

lemma released: "lease_until (release_lease s i) i = None"
  using lease_until_ops [of s 0 "Release i" i] by simp

lemma when_done_drop:
  "snd (when_done m (drop_lease i) c) \<noteq> Inr True \<Longrightarrow>
   lease_until (en_stream (cn_engine (fst (when_done m (drop_lease i) c)))) i = None"
  by (auto simp: when_done_def finallyA_def drop_lease_run released split: prod.splits sum.splits bool.splits)

definition lease_free :: "connection_env \<Rightarrow> int \<Rightarrow> session_id \<Rightarrow> connection \<Rightarrow> bool" where
  "lease_free env t i c \<longleftrightarrow> fst (acquire_lease t (en_stream (cn_engine c)) i (ce_lease_ttl_seconds env))"

definition leased :: "connection_env \<Rightarrow> int \<Rightarrow> session_id \<Rightarrow> connection \<Rightarrow> connection" where
  "leased env t i c = c\<lparr>cn_engine := (cn_engine c)\<lparr>en_stream :=
     snd (acquire_lease t (en_stream (cn_engine c)) i (ce_lease_ttl_seconds env))\<rparr>\<rparr>"

lemma stream_connection_leased:
  assumes "lease_free env l (gr_session_id g) c"
  shows "stream_connection env fresh l w ep (session_id_value (gr_session_id g)) (Some g) items c =
    when_done (run_connection env fresh w ep (caller_from g) (gr_session_id g) items) (drop_lease (gr_session_id g))
      (leased env l (gr_session_id g) c)"
  using assms by (simp add: stream_connection_def Let_def bindA_run take_lease_run lease_free_def leased_def)

text \<open>
  The lease is given back however the connection ends. When a connection took the lease of its session
  and is over, whether it was refused, completed, dropped or died of an exception, the session is
  free for the next handler.
\<close>

theorem lease_given_back:
  assumes "lease_free env l (gr_session_id g) c"
    and "stream_connection env fresh l w ep (session_id_value (gr_session_id g)) (Some g) items c = (c1, r)"
    and "r \<noteq> Inr True"
  shows "lease_until (en_stream (cn_engine c1)) (gr_session_id g) = None"
  using when_done_drop [of "run_connection env fresh w ep (caller_from g) (gr_session_id g) items"
      "gr_session_id g" "leased env l (gr_session_id g) c"] assms(2,3)
  by (simp add: stream_connection_leased [OF assms(1)])

section \<open>Frames that cost one frame\<close>

definition harmless :: "connection_env \<Rightarrow> incoming \<Rightarrow> bool" where
  "harmless env item = (case item of
     Received mo raw \<Rightarrow> (case parse_client_message (ce_python env) raw of
         Inl x \<Rightarrow> x = ProtocolError | Inr (UnknownMessage m) \<Rightarrow> True | _ \<Rightarrow> False)
   | Disconnected mo \<Rightarrow> False)"

definition malformed :: "connection_env \<Rightarrow> incoming \<Rightarrow> bool" where
  "malformed env item = (case item of
     Received mo raw \<Rightarrow> parse_client_message (ce_python env) raw = Inl ProtocolError
   | Disconnected mo \<Rightarrow> False)"

lemma sent_send_error [simp]: "length (ch_sent (send_error uuid i a b ch)) = length (ch_sent ch) + 1"
  by (simp add: send_error_def send_frame_def Let_def)

lemma harmless_prefix:
  assumes "list_all (harmless env) items"
  shows "\<exists>c1. receive_loop env cfg caller i run (items @ rest) c = receive_loop env cfg caller i run rest c1 \<and>
    cn_engine c1 = cn_engine c \<and> cn_world c1 = cn_world c \<and> cn_closes c1 = cn_closes c \<and>
    length (ch_sent (cn_channel c1)) = length (ch_sent (cn_channel c)) + length (filter (malformed env) items)"
  using assms
proof (induction items arbitrary: c)
  case Nil
  then show ?case by auto
next
  case (Cons item items)
  obtain mo raw where item: "item = Received mo raw"
    using Cons.prems by (cases item) (auto simp: harmless_def)
  define c0 where "c0 = fst (dispatch env cfg caller i mo raw c)"
  have d: "dispatch env cfg caller i mo raw c = (c0, Inr True) \<and> cn_engine c0 = cn_engine c \<and>
      cn_world c0 = cn_world c \<and> cn_closes c0 = cn_closes c \<and>
      length (ch_sent (cn_channel c0)) = length (ch_sent (cn_channel c)) + (if malformed env item then 1 else 0)"
    using Cons.prems unfolding c0_def
    by (auto simp: item harmless_def malformed_def dispatch_def bindA_run on_channel_def count_event_def
        split: sum.splits client_message.splits)
  obtain c1 where "receive_loop env cfg caller i run (items @ rest) c0 = receive_loop env cfg caller i run rest c1"
    "cn_engine c1 = cn_engine c0" "cn_world c1 = cn_world c0" "cn_closes c1 = cn_closes c0"
    "length (ch_sent (cn_channel c1)) = length (ch_sent (cn_channel c0)) + length (filter (malformed env) items)"
    using Cons.IH [of c0] Cons.prems by auto
  with d show ?case
    by (intro exI [of _ c1]) (auto simp: item bindA_run)
qed

text \<open>
  A malformed frame costs that frame. After any number of messages that cannot be parsed or whose type is
  unknown, the connection is still open and goes on exactly with the messages that follow; the
  engine and the coordinator are as they were, and one error frame was sent for each malformed
  message and none for the unknown ones.
\<close>

theorem malformed_frames_cost_nothing:
  assumes "list_all (harmless env) items"
  shows "\<exists>c1. receive_loop env cfg caller i run (items @ rest) c = receive_loop env cfg caller i run rest c1 \<and>
    cn_engine c1 = cn_engine c \<and> cn_world c1 = cn_world c \<and> cn_closes c1 = cn_closes c \<and>
    length (ch_sent (cn_channel c1)) = length (ch_sent (cn_channel c)) + length (filter (malformed env) items)"
  using harmless_prefix [OF assms] .

section \<open>What a dropped connection leaves behind\<close>

lemma begin_capture_total:
  assumes "clock_inv s" and "as_state s \<in> {CREATED, PAUSED}" and "as_consent s = Some r" and "consent_is_active r"
  shows "\<exists>s1. begin_capture s w = Inr s1 \<and> as_state s1 = CAPTURING \<and> as_consent s1 = Some r \<and> frozen_fields s s1"
proof -
  obtain k where "clock_start (as_clock s) w = Inr k"
    using assms(1) sc.start_total [of "as_clock s" w] by (auto simp: clock_inv_def)
  then have b: "begin_capture s w = Inr (s\<lparr>as_state := CAPTURING, as_clock := k\<rparr>)"
    using assms(2-4) by (auto simp: begin_capture_Inr)
  with assms(3) do_op_frozen [of BeginCapture s w] show ?thesis by simp
qed

lemma begin_on_capturing:
  assumes "as_state s = CAPTURING" and "as_consent s = Some r" and "consent_is_active r"
  shows "begin_capture s w = Inl (DomainError IllegalSessionTransition)"
  using assms
  by (simp add: begin_capture_def require_consent_for_media_def require_active_def require_transition_def
      can_transition_def)

lemma open_capture_on_capturing:
  assumes "sessions_get (en_sessions (cn_engine c)) (ac_tenant caller) i = Some s" and "as_state s = CAPTURING"
    and "as_consent s = Some r" and "consent_is_active r" and "caller_allows caller SESSIONS_WRITE"
  shows "open_capture env fresh w ep caller i c = (c, Inl (DomainError IllegalSessionTransition))"
  using assms begin_on_capturing [OF assms(2-4), of w]
  by (simp add: open_capture_def in_engine_def bindA_run capture_begin_def change_session_run)

text \<open>A connection for a session that is capturing dies of an exception nobody catches.\<close>

lemma stream_on_capturing:
  assumes "lease_free env l (gr_session_id g) c"
    and "sessions_get (en_sessions (cn_engine c)) (gr_tenant g) (gr_session_id g) = Some s"
    and "as_state s = CAPTURING" and "as_consent s = Some r" and "consent_is_active r"
    and "caller_allows (caller_from g) SESSIONS_WRITE"
  shows "snd (stream_connection env fresh l w ep (session_id_value (gr_session_id g)) (Some g) items c) =
      Inl (DomainError IllegalSessionTransition) \<and>
    cn_channel (fst (stream_connection env fresh l w ep (session_id_value (gr_session_id g)) (Some g) items c)) =
      cn_channel c \<and>
    en_sessions (cn_engine (fst (stream_connection env fresh l w ep (session_id_value (gr_session_id g)) (Some g) items c))) =
      en_sessions (cn_engine c) \<and>
    lease_until (en_stream (cn_engine (fst (stream_connection env fresh l w ep (session_id_value (gr_session_id g))
      (Some g) items c)))) (gr_session_id g) = None"
proof -
  let ?c = "leased env l (gr_session_id g) c"
  have "open_capture env fresh w ep (caller_from g) (gr_session_id g) ?c =
      (?c, Inl (DomainError IllegalSessionTransition))"
    by (rule open_capture_on_capturing [of ?c "caller_from g" "gr_session_id g" s r])
      (use assms(2-6) in \<open>simp_all add: leased_def caller_from_def\<close>)
  then have "run_connection env fresh w ep (caller_from g) (gr_session_id g) items ?c =
      (?c, Inl (DomainError IllegalSessionTransition))"
    by (simp add: run_connection_def bindA_run)
  then show ?thesis
    by (simp add: stream_connection_leased [OF assms(1)] when_done_def finallyA_def drop_lease_run leased_def released)
qed

lemma open_capture_opens:
  assumes "repo_inv (en_sessions (cn_engine c))"
    and "sessions_get (en_sessions (cn_engine c)) (ac_tenant caller) i = Some s"
    and "as_state s \<in> {CREATED, PAUSED}" and "as_consent s = Some r" and "consent_is_active r"
    and "caller_allows caller SESSIONS_WRITE"
  shows "\<exists>s1 run. open_capture env fresh w ep caller i c =
      (c\<lparr>cn_engine := (cn_engine c)\<lparr>en_sessions := sessions_save (en_sessions (cn_engine c)) s1,
          en_runs := runs_add (en_runs (cn_engine c)) run\<rparr>\<rparr>, Inr (Inr run)) \<and>
    as_state s1 = CAPTURING \<and> as_consent s1 = Some r \<and> frozen_fields s s1 \<and> pr_id run = fresh"
proof -
  note own = sessions_get_own [OF assms(1,2)]
  obtain s1 where s1: "begin_capture s w = Inr s1" "as_state s1 = CAPTURING" "as_consent s1 = Some r" "frozen_fields s s1"
    using begin_capture_total [OF own(3) assms(3-5)] by blast
  have "as_tenant_id s1 = ac_tenant caller" "as_id s1 = i"
    using own(1,2) s1(4) by (simp_all add: frozen_fields_def)
  with s1 assms(2,6) show ?thesis
    by (simp add: open_capture_def in_engine_def bindA_run capture_begin_def change_session_run open_run_def
        sessions_get_save Let_def)
      (rule exI [of _ s1], simp)
qed

lemma close_run_added:
  assumes "runs_get (en_runs e) i = Some run"
  shows "close_run t i ok e = (e\<lparr>en_runs := runs_save (en_runs e)
      (run\<lparr>pr_state := (if ok then RUN_COMPLETED else RUN_FAILED), pr_completed_at_ms := Some t\<rparr>)\<rparr>, Inr ())"
  using assms by (simp add: close_run_def bindA_run)

lemma loop_disconnected:
  assumes "runs_get (en_runs (cn_engine c)) run = Some pr"
  shows "receive_loop env cfg caller i run [Disconnected mo] c =
    (c\<lparr>cn_counters := cn_counters c @ [(''stream.disconnected'', [])],
       cn_engine := (cn_engine c)\<lparr>en_runs := runs_save (en_runs (cn_engine c))
         (pr\<lparr>pr_state := RUN_FAILED, pr_completed_at_ms := Some (mo_close_ms mo)\<rparr>)\<rparr>\<rparr>, Inr False)"
  by (simp add: bindA_run count_event_def in_engine_def close_run_added [OF assms])

lemma runs_get_add: "runs_get (runs_add r run) (pr_id run) = Some run"
  by (simp add: runs_get_def runs_add_def)

lemma lease_free_released: "lease_until (en_stream (cn_engine c)) i = None \<Longrightarrow> lease_free env t i c"
  by (simp add: lease_free_def acquire_lease_iff)

text \<open>A later attempt to connect: the grant it presents, the moment, the frames it would send, and the socket
  with its own channel, on the engine as it is by then.\<close>

record attempt =
  at_env :: connection_env
  at_run :: run_id
  at_lease_ms :: int
  at_wall_ms :: int
  at_epoch_ms :: int
  at_grant :: stream_grant
  at_items :: "incoming list"
  at_socket :: connection

definition attempt_run :: "attempt \<Rightarrow> engine \<Rightarrow> connection \<times> bool result" where
  "attempt_run a e =
     stream_connection (at_env a) (at_run a) (at_lease_ms a) (at_wall_ms a) (at_epoch_ms a)
       (session_id_value (gr_session_id (at_grant a))) (Some (at_grant a)) (at_items a) ((at_socket a)\<lparr>cn_engine := e\<rparr>)"

definition after_attempts :: "engine \<Rightarrow> attempt list \<Rightarrow> engine" where
  "after_attempts e later = foldl (\<lambda>e a. cn_engine (fst (attempt_run a e))) e later"

text \<open>A grant for the session of another, newly signed or not.\<close>

definition same_session :: "stream_grant \<Rightarrow> attempt \<Rightarrow> bool" where
  "same_session g a \<longleftrightarrow> gr_session_id (at_grant a) = gr_session_id g \<and> gr_tenant (at_grant a) = gr_tenant g \<and>
     caller_allows (caller_from (at_grant a)) SESSIONS_WRITE"

lemma attempt_on_capturing:
  assumes "same_session g a" and "lease_until (en_stream e) (gr_session_id g) = None"
    and "sessions_get (en_sessions e) (gr_tenant g) (gr_session_id g) = Some s" and "as_state s = CAPTURING"
    and "as_consent s = Some r" and "consent_is_active r"
  shows "snd (attempt_run a e) = Inl (DomainError IllegalSessionTransition) \<and>
    cn_channel (fst (attempt_run a e)) = cn_channel (at_socket a) \<and>
    en_sessions (cn_engine (fst (attempt_run a e))) = en_sessions e \<and>
    lease_until (en_stream (cn_engine (fst (attempt_run a e)))) (gr_session_id g) = None"
proof -
  let ?c = "(at_socket a)\<lparr>cn_engine := e\<rparr>"
  have ids: "gr_session_id (at_grant a) = gr_session_id g" "gr_tenant (at_grant a) = gr_tenant g"
      "caller_allows (caller_from (at_grant a)) SESSIONS_WRITE"
    using assms(1) by (simp_all add: same_session_def)
  have "lease_free (at_env a) (at_lease_ms a) (gr_session_id (at_grant a)) ?c"
    using assms(2) by (intro lease_free_released) (simp add: ids)
  from stream_on_capturing [OF this _ assms(4-6) ids(3), where fresh = "at_run a" and w = "at_wall_ms a" and
      ep = "at_epoch_ms a" and items = "at_items a"] show ?thesis
    using assms(3) by (simp add: attempt_run_def ids(1,2))
qed

lemma after_attempts_capturing:
  assumes "list_all (same_session g) later" and "lease_until (en_stream e) (gr_session_id g) = None"
    and "sessions_get (en_sessions e) (gr_tenant g) (gr_session_id g) = Some s" and "as_state s = CAPTURING"
    and "as_consent s = Some r" and "consent_is_active r"
  shows "en_sessions (after_attempts e later) = en_sessions e \<and>
    lease_until (en_stream (after_attempts e later)) (gr_session_id g) = None"
  using assms(1,2,3)
proof (induction later arbitrary: e)
  case (Cons a later)
  from attempt_on_capturing [OF _ Cons.prems(2,3) assms(4-6), of a] Cons.prems(1)
  have "en_sessions (cn_engine (fst (attempt_run a e))) = en_sessions e"
      "lease_until (en_stream (cn_engine (fst (attempt_run a e)))) (gr_session_id g) = None" by simp_all
  with Cons.IH [of "cn_engine (fst (attempt_run a e))"] Cons.prems show ?case by (simp add: after_attempts_def)
qed (simp add: after_attempts_def)

text \<open>
  C37: A dropped connection locks the session out of streaming. When the client of a session that was created
  or paused, with consent, connects and drops at any point before it sent anything that is
  understood, the run is closed as failed and the lease is given back, but the session stays
  capturing. Of the connections that follow, however many, at whatever times and with whatever valid grants
  for the session, newly signed ones included, every one ends in an uncaught \<open>IllegalSessionTransition\<close>,
  without a frame that says why, and leaves the session capturing, as long as nothing but connections
  touches the engine.
\<close>

theorem disconnect_blocks_reconnect:
  assumes "repo_inv (en_sessions (cn_engine c))"
    and "sessions_get (en_sessions (cn_engine c)) (gr_tenant g) (gr_session_id g) = Some s"
    and "as_state s \<in> {CREATED, PAUSED}" and "as_consent s = Some r" and "consent_is_active r"
    and "caller_allows (caller_from g) SESSIONS_WRITE"
    and "lease_free env l (gr_session_id g) c" and "list_all (harmless env) items"
    and "stream_connection env fresh l w ep (session_id_value (gr_session_id g)) (Some g)
           (items @ [Disconnected mo]) c = (c1, outcome)"
    and "list_all (same_session g) later" and "same_session g a"
  shows "let e = after_attempts (cn_engine c1) later in
    outcome = Inr False \<and>
    map_option pr_state (runs_get (en_runs (cn_engine c1)) fresh) = Some RUN_FAILED \<and>
    lease_until (en_stream (cn_engine c1)) (gr_session_id g) = None \<and>
    map_option as_state (sessions_get (en_sessions e) (gr_tenant g) (gr_session_id g)) = Some CAPTURING \<and>
    snd (attempt_run a e) = Inl (DomainError IllegalSessionTransition) \<and>
    cn_channel (fst (attempt_run a e)) = cn_channel (at_socket a)"
proof -
  let ?i = "gr_session_id g" and ?cl = "caller_from g"
  let ?c = "leased env l ?i c"
  obtain s1 run where opened: "open_capture env fresh w ep ?cl ?i ?c =
      (?c\<lparr>cn_engine := (cn_engine ?c)\<lparr>en_sessions := sessions_save (en_sessions (cn_engine ?c)) s1,
          en_runs := runs_add (en_runs (cn_engine ?c)) run\<rparr>\<rparr>, Inr (Inr run))"
      "as_state s1 = CAPTURING" "as_consent s1 = Some r" "frozen_fields s s1" "pr_id run = fresh"
    using open_capture_opens [of ?c ?cl ?i s r env fresh w ep] assms(1-6) by (auto simp: leased_def caller_from_def)
  define cfg where "cfg = new_coordinator env fresh (config_current (en_configuration (cn_engine ?c)) (ac_tenant ?cl))"
  define c2 where "c2 = (let c' = ?c\<lparr>cn_engine := (cn_engine ?c)\<lparr>en_sessions := sessions_save (en_sessions (cn_engine ?c)) s1,
          en_runs := runs_add (en_runs (cn_engine ?c)) run\<rparr>, cn_world := open_world fresh ?i\<rparr>
    in c'\<lparr>cn_channel := send_accepted (ce_uuid env) ?i
          (accepted_body env fresh (config_current (en_configuration (cn_engine ?c)) (ac_tenant ?cl))) (cn_channel c')\<rparr>)"
  have run_eq: "run_connection env fresh w ep ?cl ?i (items @ [Disconnected mo]) ?c =
      when_done (receive_loop env cfg ?cl ?i fresh (items @ [Disconnected mo])) (close_socket CLOSE_NORMAL) c2"
    using opened(5) by (simp add: run_connection_def bindA_run opened(1) cfg_def c2_def Let_def on_channel_def)
  have e2: "en_sessions (cn_engine c2) = sessions_save (en_sessions (cn_engine c)) s1"
      "runs_get (en_runs (cn_engine c2)) fresh = Some run"
    using opened(5) runs_get_add [of _ run] by (simp_all add: c2_def Let_def leased_def)
  obtain c3 where c3: "receive_loop env cfg ?cl ?i fresh (items @ [Disconnected mo]) c2 =
      receive_loop env cfg ?cl ?i fresh [Disconnected mo] c3" "cn_engine c3 = cn_engine c2"
    using harmless_prefix [OF assms(8), of cfg ?cl ?i fresh "[Disconnected mo]" c2] by blast
  have run3: "runs_get (en_runs (cn_engine c3)) fresh = Some run" by (simp add: c3(2) e2(2))
  define c4 where "c4 = fst (receive_loop env cfg ?cl ?i fresh [Disconnected mo] c3)"
  have loop: "receive_loop env cfg ?cl ?i fresh (items @ [Disconnected mo]) c2 = (c4, Inr False)"
    by (simp add: c3(1) c4_def loop_disconnected [OF run3] del: receive_loop.simps)
  have c4: "en_sessions (cn_engine c4) = sessions_save (en_sessions (cn_engine c)) s1"
      "map_option pr_state (runs_get (en_runs (cn_engine c4)) fresh) = Some RUN_FAILED"
    using e2(1) c3(2) opened(5)
    by (simp_all add: c4_def loop_disconnected [OF run3] runs_get_save del: receive_loop.simps)
  have "when_done (run_connection env fresh w ep ?cl ?i (items @ [Disconnected mo])) (drop_lease ?i) ?c = (c1, outcome)"
    using assms(9) by (simp add: stream_connection_leased [OF assms(7)])
  then have fin: "outcome = Inr False \<and>
      en_sessions (cn_engine c1) = sessions_save (en_sessions (cn_engine c)) s1 \<and>
      map_option pr_state (runs_get (en_runs (cn_engine c1)) fresh) = Some RUN_FAILED \<and>
      lease_until (en_stream (cn_engine c1)) ?i = None"
    using c4
    by (auto simp: when_done_def [of "run_connection _ _ _ _ _ _ _"] run_eq when_done_def loop finallyA_def
        close_socket_def drop_lease_run released)
  have get: "sessions_get (en_sessions (cn_engine c1)) (gr_tenant g) ?i = Some s1"
    using fin sessions_get_own(1,2) [OF assms(1,2)] opened(4) by (simp add: sessions_get_save frozen_fields_def)
  have lease: "lease_until (en_stream (cn_engine c1)) ?i = None" using fin by blast
  let ?e = "after_attempts (cn_engine c1) later"
  note later = after_attempts_capturing [OF assms(10) lease get opened(2,3) assms(5)]
  have "sessions_get (en_sessions ?e) (gr_tenant g) ?i = Some s1" using get later by simp
  from attempt_on_capturing [OF assms(11) _ this opened(2,3) assms(5)] this later fin opened(2)
  show ?thesis by (simp add: Let_def)
qed

section \<open>A sample connection\<close>

definition sample_env :: connection_env where
  "sample_env = \<lparr>ce_python = sample_python, ce_uuid = show_int, ce_error_text = \<lambda>_. ''e'',
     ce_calibrator = MkCalibrator [], ce_max_queue_depth = 8, ce_lease_ttl_seconds = 30,
     ce_pipeline_version = MkVersion 1 0 0\<rparr>"

definition sample_grant :: stream_grant where
  "sample_grant = \<lparr>gr_session_id = SessionId ''s'', gr_tenant = TenantId ''t'', gr_application = ApplicationId ''a'',
     gr_key_id = ApiKeyId ''k'', gr_expires_at_ms = 900, gr_scopes = STREAM_SCOPES\<rparr>"

definition sample_moment :: moment where
  "sample_moment = \<lparr>mo_wall_ms = 20, mo_epoch_ms = 20, mo_close_ms = 21, mo_transcribe = \<lambda>_. Inl ''TimeoutError'',
     mo_observe = \<lambda>_. Inl ''TimeoutError''\<rparr>"

definition consented_session :: analysis_session where
  "consented_session = sample_session\<lparr>as_consent := Some sample_receipt\<rparr>"

definition sample_connection :: "analysis_session \<Rightarrow> connection" where
  "sample_connection s = \<lparr>cn_engine = engine_holding s, cn_world = open_world (RunId ''r'') (SessionId ''s''),
     cn_channel = WebSocketEventChannel ''1.0.0'', cn_closes = [], cn_counters = []\<rparr>"

lemma sample_connection_facts:
  "repo_inv (en_sessions (cn_engine (sample_connection consented_session)))"
  "sessions_get (en_sessions (cn_engine (sample_connection consented_session))) (gr_tenant sample_grant)
     (gr_session_id sample_grant) = Some consented_session"
  "as_consent consented_session = Some sample_receipt" "as_state consented_session = CREATED"
  "consent_is_active sample_receipt" "caller_allows (caller_from sample_grant) SESSIONS_WRITE"
proof -
  have "clock_inv consented_session \<and> consent_inv consented_session"
    by (simp add: consented_session_def clock_inv_def consent_inv_def sample_session_def AnalysisSession_def
        fresh_clock_def wf_clock_def is_running_def sample_receipt_def)
  then show "repo_inv (en_sessions (cn_engine (sample_connection consented_session)))"
    by (simp add: sample_connection_def engine_holding_inv)
qed (simp_all add: sample_connection_def sample_grant_def consented_session_def engine_holding_get
    sample_receipt_def consent_is_active_def caller_allows_def caller_from_def STREAM_SCOPES_def)

lemma sample_lease_free: "lease_free env t i (sample_connection s)"
  by (simp add: lease_free_def acquire_lease_def sample_connection_def engine_holding_def new_engine_def
      empty_stream_state_def)

abbreviation empty_message :: incoming where
  "empty_message \<equiv> Received sample_moment []"

lemma empty_message_malformed: "malformed env empty_message" "harmless env empty_message"
  by (simp_all add: malformed_def harmless_def parse_client_message_def parse_envelope_def REQUIRED_KEYS_def)

text \<open>Two clients that come back later, each with a grant signed since.\<close>

definition sample_attempt :: "int \<Rightarrow> attempt" where
  "sample_attempt t = \<lparr>at_env = sample_env, at_run = RunId ''q'', at_lease_ms = t, at_wall_ms = t, at_epoch_ms = t,
     at_grant = sample_grant\<lparr>gr_expires_at_ms := t + 900\<rparr>, at_items = [],
     at_socket = sample_connection consented_session\<rparr>"

theorem disconnect_blocks_reconnect_witness:
  "\<exists>c1. stream_connection sample_env (RunId ''r'') 10 11 12 ''s'' (Some sample_grant)
      [empty_message, Disconnected sample_moment] (sample_connection consented_session) = (c1, Inr False) \<and>
    snd (attempt_run (sample_attempt 60000) (after_attempts (cn_engine c1) [sample_attempt 30])) =
      Inl (DomainError IllegalSessionTransition)"
proof -
  obtain c1 out where run: "stream_connection sample_env (RunId ''r'') 10 11 12 (session_id_value (gr_session_id sample_grant))
      (Some sample_grant) ([empty_message] @ [Disconnected sample_moment]) (sample_connection consented_session) = (c1, out)"
    by (metis prod.collapse)
  have "as_state consented_session \<in> {CREATED, PAUSED}" "list_all (harmless sample_env) [empty_message]"
    by (simp_all add: sample_connection_facts empty_message_malformed)
  moreover have same: "same_session sample_grant (sample_attempt t)" for t
    using sample_connection_facts(6) by (simp add: same_session_def sample_attempt_def caller_allows_def caller_from_def)
  ultimately show ?thesis
    using disconnect_blocks_reconnect [OF sample_connection_facts(1,2) _ sample_connection_facts(3,5,6)
      sample_lease_free _ run, of "[sample_attempt 30]" "sample_attempt 60000"] run
    by (auto simp: sample_grant_def Let_def)
qed

theorem lease_given_back_witness:
  "lease_until (en_stream (cn_engine (fst (stream_connection sample_env (RunId ''r'') 10 11 12 ''s'' (Some sample_grant) []
     (sample_connection (consented_session\<lparr>as_state := CAPTURING\<rparr>)))))) (SessionId ''s'') = None"
proof -
  let ?c = "sample_connection (consented_session\<lparr>as_state := CAPTURING\<rparr>)"
  obtain c1 out where run: "stream_connection sample_env (RunId ''r'') 10 11 12 (session_id_value (gr_session_id sample_grant))
      (Some sample_grant) [] ?c = (c1, out)"
    by (metis prod.collapse)
  have "sessions_get (en_sessions (cn_engine ?c)) (gr_tenant sample_grant) (gr_session_id sample_grant) =
      Some (consented_session\<lparr>as_state := CAPTURING\<rparr>)"
    by (simp add: sample_connection_def sample_grant_def engine_holding_get consented_session_def)
  from stream_on_capturing [OF sample_lease_free this, of sample_receipt sample_env "RunId ''r''" 10 11 12 "[]"] run
  have "out \<noteq> Inr True"
    by (simp add: sample_connection_facts)
  from lease_given_back [OF sample_lease_free run this] run show ?thesis
    by (simp add: sample_grant_def)
qed

theorem malformed_frames_cost_nothing_witness:
  "\<exists>c1. receive_loop sample_env (new_coordinator sample_env (RunId ''r'') (snapshot_at 700)) (caller_from sample_grant)
      (SessionId ''s'') (RunId ''r'') ([empty_message, empty_message] @ []) (sample_connection sample_session) =
        (c1, Inr True) \<and>
    length (ch_sent (cn_channel c1)) = 2"
  using malformed_frames_cost_nothing [of sample_env "[empty_message, empty_message]"
      "new_coordinator sample_env (RunId ''r'') (snapshot_at 700)" "caller_from sample_grant"
      "SessionId ''s''" "RunId ''r''" "[]" "sample_connection sample_session"]
  by (auto simp: empty_message_malformed sample_connection_def WebSocketEventChannel_def)

end
