(* ===== verification/AnnotationRecords.thy ===== *)
theory AnnotationRecords
  imports Taxonomy Document
begin

text \<open>
  The annotation records of the corpus (\<open>corpus/schema/records.py\<close>): intervals of a recording, words,
  disfluency annotations, speakers and the work of one annotator on one recording, each with the
  checks of its constructor.
\<close>

definition SchemaViolation :: exn where
  "SchemaViolation = OtherError ''SchemaViolation''"

definition SCHEMA_VERSION :: semantic_version where
  "SCHEMA_VERSION = MkVersion 1 0 0"

datatype annotation_pass = FIRST | SECOND | ADJUDICATED

fun pass_value :: "annotation_pass \<Rightarrow> string" where
  "pass_value FIRST = ''first''"
| "pass_value SECOND = ''second''"
| "pass_value ADJUDICATED = ''adjudicated''"

section \<open>Intervals\<close>

record span =
  sp_start_ms :: int
  sp_end_ms :: int

definition Span :: "int \<Rightarrow> int \<Rightarrow> span result" where
  "Span s e =
     (if s < 0 then Inl SchemaViolation
      else if e \<le> s then Inl SchemaViolation
      else Inr \<lparr>sp_start_ms = s, sp_end_ms = e\<rparr>)"

definition span_duration_ms :: "span \<Rightarrow> int" where
  "span_duration_ms a = sp_end_ms a - sp_start_ms a"

definition span_overlaps :: "span \<Rightarrow> span \<Rightarrow> bool" where
  "span_overlaps a b \<longleftrightarrow> sp_start_ms a < sp_end_ms b \<and> sp_start_ms b < sp_end_ms a"

definition intersection_ms :: "span \<Rightarrow> span \<Rightarrow> int" where
  "intersection_ms a b = max 0 (min (sp_end_ms a) (sp_end_ms b) - max (sp_start_ms a) (sp_start_ms b))"

definition union_ms :: "span \<Rightarrow> span \<Rightarrow> int" where
  "union_ms a b = span_duration_ms a + span_duration_ms b - intersection_ms a b"

definition iou :: "span \<Rightarrow> span \<Rightarrow> rat" where
  "iou a b = (let u = union_ms a b in if u \<noteq> 0 then of_int (intersection_ms a b) / of_int u else 0)"

definition wf_span :: "span \<Rightarrow> bool" where
  "wf_span a \<longleftrightarrow> 0 \<le> sp_start_ms a \<and> sp_start_ms a < sp_end_ms a"

lemma Span_Inr: "Span s e = Inr a \<longleftrightarrow> wf_span a \<and> sp_start_ms a = s \<and> sp_end_ms a = e"
  by (cases a) (auto simp: Span_def wf_span_def)

lemma span_overlaps_sym: "span_overlaps a b \<longleftrightarrow> span_overlaps b a"
  by (auto simp: span_overlaps_def)

lemma iou_sym: "iou a b = iou b a"
  by (simp add: iou_def union_ms_def intersection_ms_def min.commute max.commute add.commute)

lemma iou_bounds:
  assumes "wf_span a" and "wf_span b"
  shows "0 \<le> iou a b" "iou a b \<le> 1" "0 < iou a b \<longleftrightarrow> span_overlaps a b" "iou a b = 1 \<longleftrightarrow> a = b"
proof -
  let ?i = "intersection_ms a b" and ?u = "union_ms a b"
  have u: "0 < ?u" "0 \<le> ?i" "?i \<le> ?u"
    using assms by (auto simp: union_ms_def intersection_ms_def span_duration_ms_def wf_span_def)
  then show "0 \<le> iou a b" "iou a b \<le> 1" by (simp_all add: iou_def)
  have "0 < iou a b \<longleftrightarrow> 0 < ?i" using u by (simp add: iou_def zero_less_divide_iff)
  also have "\<dots> \<longleftrightarrow> span_overlaps a b"
    using assms by (auto simp: intersection_ms_def span_overlaps_def wf_span_def)
  finally show "0 < iou a b \<longleftrightarrow> span_overlaps a b" .
  have "iou a b = 1 \<longleftrightarrow> ?i = ?u" using u by (auto simp: iou_def)
  also have "\<dots> \<longleftrightarrow> a = b"
    using assms by (cases a; cases b)
      (auto simp: union_ms_def intersection_ms_def span_duration_ms_def wf_span_def max_def min_def split: if_splits)
  finally show "iou a b = 1 \<longleftrightarrow> a = b" .
qed

section \<open>Words and annotations\<close>

record word =
  wd_text :: string
  wd_interval :: span

definition Word :: "string \<Rightarrow> span \<Rightarrow> word result" where
  "Word text i = (if py_strip text = [] then Inl SchemaViolation else Inr \<lparr>wd_text = text, wd_interval = i\<rparr>)"

record disfluency_annotation =
  da_event_type :: speech_event_type
  da_interval :: span
  da_annotator_id :: string
  da_raw_text :: string
  da_context_role :: "contextual_role option"
  da_annotator_confidence :: rat
  da_note :: string

definition ANNOTATION_LEXICAL_CLASSES :: "speech_event_type list" where
  "ANNOTATION_LEXICAL_CLASSES = [LEXICAL_FILLER, REPETITION, FALSE_START, SELF_REPAIR]"

definition require_role_rules :: "disfluency_annotation \<Rightarrow> unit result" where
  "require_role_rules a =
     (if da_event_type a \<in> set ANNOTATION_LEXICAL_CLASSES then
        if py_strip (da_raw_text a) = [] then Inl SchemaViolation
        else if da_context_role a = None then Inl SchemaViolation
        else Inr ()
      else if da_context_role a \<noteq> None then Inl SchemaViolation
      else Inr ())"

definition DisfluencyAnnotation :: "disfluency_annotation \<Rightarrow> disfluency_annotation result" where
  "DisfluencyAnnotation a =
     (if py_strip (da_annotator_id a) = [] then Inl SchemaViolation
      else if \<not> (0 \<le> da_annotator_confidence a \<and> da_annotator_confidence a \<le> 1) then Inl SchemaViolation
      else bindR (require_known_speech_event (speech_type_value (da_event_type a))) (\<lambda>_.
           bindR (require_role_rules a) (\<lambda>_. Inr a)))"

definition annotation_is_uncertain :: "disfluency_annotation \<Rightarrow> bool" where
  "annotation_is_uncertain a \<longleftrightarrow> da_context_role a = Some UNCERTAIN"

section \<open>Speakers\<close>

text \<open>\<open>str.split()\<close>, and \<open>str.isdigit\<close> on Latin-1 code points (the superscripts count).\<close>

fun split_words :: "string \<Rightarrow> string \<Rightarrow> string list" where
  "split_words acc [] = (if acc = [] then [] else [rev acc])"
| "split_words acc (c # cs) =
     (if py_isspace c then (if acc = [] then split_words [] cs else rev acc # split_words [] cs)
      else split_words (c # acc) cs)"

definition py_split :: "string \<Rightarrow> string list" where
  "py_split s = split_words [] s"

definition digit_char :: "char \<Rightarrow> bool" where
  "digit_char c = (let n = (of_char c :: nat) in 48 \<le> n \<and> n \<le> 57 \<or> n \<in> {178, 179, 185})"

definition py_isdigit :: "string \<Rightarrow> bool" where
  "py_isdigit s \<longleftrightarrow> s \<noteq> [] \<and> list_all digit_char s"

record speaker =
  spk_pseudonym :: string
  spk_variety :: string
  spk_notes :: string

definition Speaker :: "string \<Rightarrow> string \<Rightarrow> string \<Rightarrow> speaker result" where
  "Speaker pseudonym variety notes =
     (if py_strip pseudonym = [] then Inl SchemaViolation
      else let lowered = py_lower pseudonym in
        if CHR ''@'' \<in> set lowered \<or>
           list_ex (\<lambda>part. py_isdigit part \<and> 6 < length part) (py_split lowered)
        then Inl SchemaViolation
        else Inr \<lparr>spk_pseudonym = pseudonym, spk_variety = variety, spk_notes = notes\<rparr>)"

section \<open>Recordings\<close>

record annotated_recording =
  ar_recording_id :: string
  ar_speaker :: speaker
  ar_annotator_id :: string
  ar_annotation_pass :: annotation_pass
  ar_duration_ms :: int
  ar_words :: "word list"
  ar_disfluencies :: "disfluency_annotation list"
  ar_schema_version :: semantic_version
  ar_taxonomy_version :: "semantic_version option"
  ar_note :: string

fun check_annotations :: "string \<Rightarrow> int \<Rightarrow> disfluency_annotation list \<Rightarrow> unit result" where
  "check_annotations annotator duration [] = Inr ()"
| "check_annotations annotator duration (a # as) =
     (if da_annotator_id a \<noteq> annotator then Inl SchemaViolation
      else if duration < sp_end_ms (da_interval a) then Inl SchemaViolation
      else check_annotations annotator duration as)"

definition AnnotatedRecording :: "annotated_recording \<Rightarrow> annotated_recording result" where
  "AnnotatedRecording r =
     (if py_strip (ar_recording_id r) = [] then Inl SchemaViolation
      else if ar_duration_ms r \<le> 0 then Inl SchemaViolation
      else bindR (check_annotations (ar_annotator_id r) (ar_duration_ms r) (ar_disfluencies r)) (\<lambda>_. Inr r))"

definition of_type :: "annotated_recording \<Rightarrow> speech_event_type \<Rightarrow> disfluency_annotation list" where
  "of_type r t = filter (\<lambda>a. da_event_type a = t) (ar_disfluencies r)"

definition uncertain_count :: "annotated_recording \<Rightarrow> nat" where
  "uncertain_count r = length (filter annotation_is_uncertain (ar_disfluencies r))"

section \<open>What the constructors accept\<close>

lemma check_annotations_Inr:
  "check_annotations annotator duration as = Inr () \<longleftrightarrow>
     list_all (\<lambda>a. da_annotator_id a = annotator \<and> sp_end_ms (da_interval a) \<le> duration) as"
  by (induction as) auto

lemma DisfluencyAnnotation_Inr:
  "DisfluencyAnnotation a = Inr b \<longleftrightarrow> b = a \<and> py_strip (da_annotator_id a) \<noteq> [] \<and>
     0 \<le> da_annotator_confidence a \<and> da_annotator_confidence a \<le> 1 \<and>
     (if da_event_type a \<in> set ANNOTATION_LEXICAL_CLASSES
      then py_strip (da_raw_text a) \<noteq> [] \<and> da_context_role a \<noteq> None else da_context_role a = None)"
  by (auto simp: DisfluencyAnnotation_def require_role_rules_def require_known_speech_event_Inr)

text \<open>
  An annotation that can be built is of a published class, names its annotator, carries a confidence in
  the unit interval, and has a role and a quoted expression exactly when its class is lexical, so
  the annotators' classes are the ones a speech event of the engine can have.
\<close>

theorem annotation_shape:
  "DisfluencyAnnotation a = Inr b \<longleftrightarrow>
     b = a \<and> (\<exists>c \<in> set (da_annotator_id a). \<not> py_isspace c) \<and>
     0 \<le> da_annotator_confidence a \<and> da_annotator_confidence a \<le> 1 \<and>
     (if da_event_type a \<in> {LEXICAL_FILLER, REPETITION, FALSE_START, SELF_REPAIR}
      then (\<exists>c \<in> set (da_raw_text a). \<not> py_isspace c) \<and> (\<exists>role. da_context_role a = Some role)
      else da_context_role a = None)"
  by (auto simp: DisfluencyAnnotation_Inr py_strip_Nil_iff ANNOTATION_LEXICAL_CLASSES_def)

end
