(* ===== verification/AnnotationValidation.thy ===== *)
theory AnnotationValidation
  imports AnnotationRecords
begin

text \<open>
  Validation of one annotator's work (\<open>corpus/schema/validation.py\<close>): six checks over a record that is
  well formed, each yielding graded findings, and the verdict whether the file may enter the
  agreement computation. The human-readable message of a finding is not modelled; its severity, code
  and position are.
\<close>

definition LOW_COVERAGE_RATIO :: rat where
  "LOW_COVERAGE_RATIO = 2 / 10"

text \<open>The curly quotation marks of the set lie outside Latin-1 and cannot occur in a modelled word.\<close>

definition ORTHOGRAPHIC_MARKS :: "char list" where
  "ORTHOGRAPHIC_MARKS =
     [CHR '','', CHR ''.'', CHR '';'', CHR '':'', char_of (191 :: nat), CHR ''?'', char_of (161 :: nat),
      CHR ''!'', CHR 0x22]"

datatype severity = ERROR | WARNING | INFO

record finding =
  fi_severity :: severity
  fi_code :: string
  fi_at_ms :: "int option"

record validation_report =
  vr_recording_id :: string
  vr_annotator_id :: string
  vr_findings :: "finding list"

definition report_errors :: "validation_report \<Rightarrow> finding list" where
  "report_errors v = filter (\<lambda>f. fi_severity f = ERROR) (vr_findings v)"

definition report_warnings :: "validation_report \<Rightarrow> finding list" where
  "report_warnings v = filter (\<lambda>f. fi_severity f = WARNING) (vr_findings v)"

definition is_usable :: "validation_report \<Rightarrow> bool" where
  "is_usable v \<longleftrightarrow> report_errors v = []"

section \<open>The checks\<close>

definition span_key :: "span \<Rightarrow> int \<times> int" where
  "span_key s = (sp_start_ms s, sp_end_ms s)"

definition group_by_class :: "disfluency_annotation list \<Rightarrow> (string \<times> disfluency_annotation list) list" where
  "group_by_class as =
     fold (\<lambda>a d. let k = speech_type_value (da_event_type a) in
             AList.update k ((case map_of d k of None \<Rightarrow> [] | Some g \<Rightarrow> g) @ [a]) d) as []"

definition same_class_overlaps :: "disfluency_annotation list \<Rightarrow> finding list" where
  "same_class_overlaps disfluencies =
     concat (map (\<lambda>(class_name, group).
       let ordered = sort_key (\<lambda>a. span_key (da_interval a)) group in
       concat (map (\<lambda>(earlier, later).
         if span_overlaps (da_interval earlier) (da_interval later)
         then [\<lparr>fi_severity = ERROR, fi_code = ''overlapping_same_class'',
                fi_at_ms = Some (sp_start_ms (da_interval later))\<rparr>] else [])
         (pairwise ordered))) (group_by_class disfluencies))"

definition word_ordering :: "word list \<Rightarrow> finding list" where
  "word_ordering words =
     (let ordered = sort_key (\<lambda>w. span_key (wd_interval w)) words in
      concat (map (\<lambda>(earlier, later).
        if span_overlaps (wd_interval earlier) (wd_interval later)
        then [\<lparr>fi_severity = WARNING, fi_code = ''overlapping_words'',
               fi_at_ms = Some (sp_start_ms (wd_interval later))\<rparr>] else [])
        (pairwise ordered)))"

definition orthography :: "word list \<Rightarrow> finding list" where
  "orthography words =
     concat (map (\<lambda>w.
       if filter (\<lambda>c. c \<in> set (wd_text w)) ORTHOGRAPHIC_MARKS \<noteq> []
       then [\<lparr>fi_severity = WARNING, fi_code = ''orthographic_marks'',
              fi_at_ms = Some (sp_start_ms (wd_interval w))\<rparr>] else []) words)"

definition unattested_expressions :: "annotated_recording \<Rightarrow> finding list" where
  "unattested_expressions r =
     concat (map (\<lambda>a.
       if da_event_type a \<notin> set ANNOTATION_LEXICAL_CLASSES \<or> py_strip (da_raw_text a) = [] then []
       else let spoken = map (\<lambda>w. py_strip (py_lower (wd_text w)))
                   (filter (\<lambda>w. span_overlaps (wd_interval w) (da_interval a)) (ar_words r));
                quoted = map py_lower (py_split (da_raw_text a));
                missing = filter (\<lambda>q. q \<notin> set spoken) quoted
            in if missing \<noteq> [] \<and> spoken \<noteq> []
               then [\<lparr>fi_severity = WARNING, fi_code = ''unattested_expression'',
                      fi_at_ms = Some (sp_start_ms (da_interval a))\<rparr>] else [])
       (ar_disfluencies r))"

definition coverage :: "annotated_recording \<Rightarrow> finding list" where
  "coverage r =
     (let covered = sum_list (map (\<lambda>w. span_duration_ms (wd_interval w)) (ar_words r));
          ratio = (if ar_duration_ms r \<noteq> 0 then of_int covered / of_int (ar_duration_ms r) else 0)
      in if ar_words r = []
         then [\<lparr>fi_severity = ERROR, fi_code = ''no_transcription'', fi_at_ms = None\<rparr>]
         else if ratio < LOW_COVERAGE_RATIO
         then [\<lparr>fi_severity = WARNING, fi_code = ''low_coverage'', fi_at_ms = None\<rparr>]
         else [])"

definition abstention :: "annotated_recording \<Rightarrow> finding list" where
  "abstention r =
     (let lexical = filter (\<lambda>a. da_event_type a \<in> set ANNOTATION_LEXICAL_CLASSES) (ar_disfluencies r)
      in if lexical = [] then []
         else [\<lparr>fi_severity = INFO, fi_code = ''abstention_rate'', fi_at_ms = None\<rparr>])"

definition validate :: "annotated_recording \<Rightarrow> validation_report" where
  "validate r =
     \<lparr>vr_recording_id = ar_recording_id r, vr_annotator_id = ar_annotator_id r,
      vr_findings = same_class_overlaps (ar_disfluencies r) @ word_ordering (ar_words r) @
        orthography (ar_words r) @ unattested_expressions r @ coverage r @ abstention r\<rparr>"

section \<open>Adjacent pairs of a sorted list decide overlap\<close>

lemma sorted_wrt_insort_sym:
  assumes "symp R"
  shows "sorted_wrt R (insort_key f x xs) \<longleftrightarrow> sorted_wrt R (x # xs)"
  using assms by (induction xs) (auto simp: set_insort_key dest: sympD)

lemma sorted_wrt_sort_sym: "symp R \<Longrightarrow> sorted_wrt R (sort_key f xs) \<longleftrightarrow> sorted_wrt R xs"
  by (induction xs) (simp_all add: sorted_wrt_insort_sym)

lemma sorted_wrt_filter_key:
  "(\<forall>c. sorted_wrt Q (filter (\<lambda>a. k a = c) xs)) \<longleftrightarrow> sorted_wrt (\<lambda>a b. k a = k b \<longrightarrow> Q a b) xs"
  by (induction xs) (auto split: if_splits)

lemma adjacent_disjoint:
  assumes "sorted (map (\<lambda>a. span_key (iv a)) xs)" and "\<forall>a \<in> set xs. wf_span (iv a)"
  shows "(\<forall>(a, b) \<in> set (pairwise xs). \<not> span_overlaps (iv a) (iv b)) \<longleftrightarrow>
         sorted_wrt (\<lambda>a b. \<not> span_overlaps (iv a) (iv b)) xs"
  using assms
proof (induction xs rule: induct_list012)
  case (3 x y zs)
  have IH: "(\<forall>(a, b) \<in> set (pairwise (y # zs)). \<not> span_overlaps (iv a) (iv b)) \<longleftrightarrow>
      sorted_wrt (\<lambda>a b. \<not> span_overlaps (iv a) (iv b)) (y # zs)"
    using 3 by simp
  have "\<not> span_overlaps (iv x) (iv z)" if "\<not> span_overlaps (iv x) (iv y)" and "z \<in> set zs" for z
  proof -
    have "sp_start_ms (iv x) \<le> sp_start_ms (iv y)" "sp_start_ms (iv y) \<le> sp_start_ms (iv z)"
      using 3(3) that(2) by (auto simp: span_key_def)
    then show ?thesis using that 3(4) by (auto simp: span_overlaps_def wf_span_def)
  qed
  then show ?case using IH by auto
qed simp_all

lemma sorted_no_overlap:
  assumes "\<forall>a \<in> set xs. wf_span (iv a)"
  shows "(\<forall>(a, b) \<in> set (pairwise (sort_key (\<lambda>a. span_key (iv a)) xs)). \<not> span_overlaps (iv a) (iv b)) \<longleftrightarrow>
         sorted_wrt (\<lambda>a b. \<not> span_overlaps (iv a) (iv b)) xs"
proof -
  have "symp (\<lambda>a b. \<not> span_overlaps (iv a) (iv b))"
    by (auto intro!: sympI simp: span_overlaps_sym)
  then show ?thesis
    using adjacent_disjoint [of iv "sort_key (\<lambda>a. span_key (iv a)) xs"] assms
    by (simp add: sorted_wrt_sort_sym)
qed

section \<open>The groups of the code\<close>

lemma group_fold:
  assumes "\<And>k. map_of d k = (let g = filter (\<lambda>a. speech_type_value (da_event_type a) = k) before in
                                 if g = [] then None else Some g)"
    and "distinct (map fst d)"
  shows "(let d' = fold (\<lambda>a d. let k = speech_type_value (da_event_type a) in
             AList.update k ((case map_of d k of None \<Rightarrow> [] | Some g \<Rightarrow> g) @ [a]) d) as d in
         distinct (map fst d') \<and>
         map_of d' k = (let g = filter (\<lambda>a. speech_type_value (da_event_type a) = k) (before @ as) in
                          if g = [] then None else Some g))"
  using assms
proof (induction as arbitrary: d before)
  case Nil
  then show ?case by (simp add: Let_def)
next
  case (Cons a as)
  let ?k = "speech_type_value (da_event_type a)"
  let ?d = "AList.update ?k ((case map_of d ?k of None \<Rightarrow> [] | Some g \<Rightarrow> g) @ [a]) d"
  have "map_of ?d k = (let g = filter (\<lambda>a. speech_type_value (da_event_type a) = k) (before @ [a]) in
                          if g = [] then None else Some g)" for k
    using Cons.prems(1) by (auto simp: Let_def)
  moreover have "distinct (map fst ?d)"
    using Cons.prems(2) by (rule distinct_update)
  ultimately show ?case
    using Cons.IH [of ?d "before @ [a]"] by (simp add: Let_def)
qed

lemma group_by_class_set:
  "set (group_by_class as) =
     {(k, filter (\<lambda>a. speech_type_value (da_event_type a) = k) as) | k.
        \<exists>a \<in> set as. speech_type_value (da_event_type a) = k}"
proof -
  have *: "distinct (map fst (group_by_class as)) \<and>
      map_of (group_by_class as) k = (let g = filter (\<lambda>a. speech_type_value (da_event_type a) = k) as in
                          if g = [] then None else Some g)" for k
    using group_fold [of "[]" "[]" as k] by (simp add: group_by_class_def Let_def)
  have "(k, g) \<in> set (group_by_class as) \<longleftrightarrow> map_of (group_by_class as) k = Some g" for k g
    by (rule map_of_eq_Some_iff [symmetric]) (use * in blast)
  then show ?thesis
    by (auto simp: * Let_def filter_empty_conv split: if_splits)
qed

lemma groups_all:
  assumes "P []"
  shows "(\<forall>(k, g) \<in> set (group_by_class as). P g) \<longleftrightarrow>
         (\<forall>c. P (filter (\<lambda>a. speech_type_value (da_event_type a) = c) as))"
proof -
  have "P (filter (\<lambda>a. speech_type_value (da_event_type a) = c) as)"
    if "\<not> (\<exists>a \<in> set as. speech_type_value (da_event_type a) = c)" for c
    using that assms by (subst filter_False) auto
  then show ?thesis unfolding group_by_class_set by blast
qed

lemma flag_Nil: "(if c then [f] else []) = [] \<longleftrightarrow> \<not> c"
  by simp

lemma concat_groups_Nil:
  "concat (map (\<lambda>(k, g). F k g) gs) = [] \<longleftrightarrow> (\<forall>(k, g) \<in> set gs. F k g = [])"
  by (induction gs) auto

lemma same_class_overlaps_Nil:
  assumes "\<forall>a \<in> set as. wf_span (da_interval a)"
  shows "same_class_overlaps as = [] \<longleftrightarrow>
     sorted_wrt (\<lambda>a b. da_event_type a = da_event_type b \<longrightarrow> \<not> span_overlaps (da_interval a) (da_interval b)) as"
proof -
  let ?k = "\<lambda>a. speech_type_value (da_event_type a)"
  let ?Q = "\<lambda>a b. \<not> span_overlaps (da_interval a) (da_interval b)"
  have g: "(\<forall>(a, b) \<in> set (pairwise (sort_key (\<lambda>a. span_key (da_interval a)) (filter (\<lambda>a. ?k a = c) as))). ?Q a b)
      \<longleftrightarrow> sorted_wrt ?Q (filter (\<lambda>a. ?k a = c) as)" for c
    using sorted_no_overlap [of "filter (\<lambda>a. ?k a = c) as" da_interval] assms by simp
  have "same_class_overlaps as = [] \<longleftrightarrow>
      (\<forall>(k, g) \<in> set (group_by_class as).
         \<forall>(a, b) \<in> set (pairwise (sort_key (\<lambda>a. span_key (da_interval a)) g)). ?Q a b)"
    unfolding same_class_overlaps_def Let_def concat_groups_Nil flag_Nil ..
  also have "\<dots> \<longleftrightarrow> (\<forall>(k, g) \<in> set (group_by_class as). sorted_wrt ?Q g)"
    by (rule ball_cong [OF refl]) (clarsimp simp only: group_by_class_set mem_Collect_eq prod.case prod.inject g)
  also have "\<dots> \<longleftrightarrow> (\<forall>c. sorted_wrt ?Q (filter (\<lambda>a. ?k a = c) as))"
    by (rule groups_all) simp
  also have "\<dots> \<longleftrightarrow> sorted_wrt (\<lambda>a b. ?k a = ?k b \<longrightarrow> ?Q a b) as"
    by (rule sorted_wrt_filter_key)
  finally show ?thesis by (simp add: speech_type_value_inj)
qed

lemma word_ordering_Nil:
  assumes "\<forall>w \<in> set ws. wf_span (wd_interval w)"
  shows "word_ordering ws = [] \<longleftrightarrow>
     sorted_wrt (\<lambda>v w. \<not> span_overlaps (wd_interval v) (wd_interval w)) ws"
  unfolding sorted_no_overlap [OF assms, symmetric] word_ordering_def Let_def concat_groups_Nil flag_Nil ..

section \<open>The verdict\<close>

lemma check_severities:
  "f \<in> set (same_class_overlaps as) \<Longrightarrow> fi_severity f = ERROR"
  "f \<in> set (word_ordering ws) \<Longrightarrow> fi_severity f = WARNING"
  "f \<in> set (orthography ws) \<Longrightarrow> fi_severity f = WARNING"
  "f \<in> set (unattested_expressions r) \<Longrightarrow> fi_severity f = WARNING"
  "f \<in> set (abstention r) \<Longrightarrow> fi_severity f = INFO"
  by (auto simp: same_class_overlaps_def word_ordering_def orthography_def unattested_expressions_def
        abstention_def Let_def split: prod.splits if_splits)

lemma report_errors_validate:
  "report_errors (validate r) = same_class_overlaps (ar_disfluencies r) @
     (if ar_words r = [] then coverage r else [])"
proof -
  have "filter (\<lambda>f. fi_severity f = ERROR) (same_class_overlaps as) = same_class_overlaps as" for as
    by (rule filter_True) (auto dest: check_severities)
  moreover have "filter (\<lambda>f. fi_severity f = ERROR) fs = []"
    if "fs \<in> {word_ordering (ar_words r), orthography (ar_words r), unattested_expressions r, abstention r}" for fs
    using that by (intro filter_False) (auto dest: check_severities)
  moreover have "filter (\<lambda>f. fi_severity f = ERROR) (coverage r) = (if ar_words r = [] then coverage r else [])"
    by (auto simp: coverage_def Let_def)
  ultimately show ?thesis by (simp add: report_errors_def validate_def)
qed

text \<open>
  A file enters the agreement computation exactly when it has a transcription and no two annotations
  of one class overlap. The check only looks at neighbours after sorting each class by start and
  end; that is enough for every pair. Nothing else blocks: all the other checks only warn.
\<close>

theorem validation_usable:
  assumes "list_all (\<lambda>a. wf_span (da_interval a)) (ar_disfluencies r)"
  shows "is_usable (validate r) \<longleftrightarrow>
     ar_words r \<noteq> [] \<and>
     sorted_wrt (\<lambda>a b. da_event_type a = da_event_type b \<longrightarrow>
         \<not> span_overlaps (da_interval a) (da_interval b)) (ar_disfluencies r)"
proof -
  have "is_usable (validate r) \<longleftrightarrow> ar_words r \<noteq> [] \<and> same_class_overlaps (ar_disfluencies r) = []"
    by (auto simp: is_usable_def report_errors_validate coverage_def)
  then show ?thesis
    using assms by (simp add: same_class_overlaps_Nil list_all_iff)
qed

definition mark :: "speech_event_type \<Rightarrow> int \<Rightarrow> int \<Rightarrow> disfluency_annotation" where
  "mark t s e = \<lparr>da_event_type = t, da_interval = \<lparr>sp_start_ms = s, sp_end_ms = e\<rparr>,
     da_annotator_id = ''a1'', da_raw_text = [], da_context_role = None, da_annotator_confidence = 1, da_note = []\<rparr>"

definition sample_recording :: "disfluency_annotation list \<Rightarrow> annotated_recording" where
  "sample_recording as =
     \<lparr>ar_recording_id = ''rec'', ar_speaker = \<lparr>spk_pseudonym = ''s01'', spk_variety = [], spk_notes = []\<rparr>,
      ar_annotator_id = ''a1'', ar_annotation_pass = FIRST, ar_duration_ms = 5000,
      ar_words = [\<lparr>wd_text = ''bueno'', wd_interval = \<lparr>sp_start_ms = 0, sp_end_ms = 3000\<rparr>\<rparr>],
      ar_disfluencies = as, ar_schema_version = SCHEMA_VERSION, ar_taxonomy_version = None, ar_note = []\<rparr>"

theorem validation_usable_witness:
  "\<not> is_usable (validate (sample_recording [mark FILLED_PAUSE 2000 2600, mark SILENT_PAUSE 100 300,
      mark FILLED_PAUSE 2500 2900]))"
  using validation_usable [of "sample_recording [mark FILLED_PAUSE 2000 2600, mark SILENT_PAUSE 100 300,
      mark FILLED_PAUSE 2500 2900]"]
  by (simp add: sample_recording_def mark_def wf_span_def span_overlaps_def)

end
