(* ===== verification/Matching.thy ===== *)
theory Matching
  imports AnnotationRecords
begin

text \<open>
  Pairing the events of two annotators (\<open>corpus/agreement/matching.py\<close>): the sparse weights of the
  admissible pairs, the dynamic program for the best non-crossing matching, and the partition of
  both sides into pairs and leftovers. Scores are exact rationals; the comparison with
  \<open>1e-12\<close> in the traceback is kept.
\<close>

section \<open>Data\<close>

definition DEFAULT_IOU_THRESHOLD :: rat where
  "DEFAULT_IOU_THRESHOLD = 1 / 2"

definition MATCH_TOLERANCE_MS :: int where
  "MATCH_TOLERANCE_MS = 250"

datatype match_criterion = IOU | MIDPOINT_TOLERANCE

record matched_pair =
  mp_left :: disfluency_annotation
  mp_right :: disfluency_annotation
  mp_iou :: rat

definition same_class :: "matched_pair \<Rightarrow> bool" where
  "same_class p \<longleftrightarrow> da_event_type (mp_left p) = da_event_type (mp_right p)"

definition same_role :: "matched_pair \<Rightarrow> bool" where
  "same_role p \<longleftrightarrow> da_context_role (mp_left p) = da_context_role (mp_right p)"

definition start_error_ms :: "matched_pair \<Rightarrow> int" where
  "start_error_ms p = \<bar>sp_start_ms (da_interval (mp_left p)) - sp_start_ms (da_interval (mp_right p))\<bar>"

definition end_error_ms :: "matched_pair \<Rightarrow> int" where
  "end_error_ms p = \<bar>sp_end_ms (da_interval (mp_left p)) - sp_end_ms (da_interval (mp_right p))\<bar>"

record matching =
  mt_pairs :: "matched_pair list"
  mt_left_only :: "disfluency_annotation list"
  mt_right_only :: "disfluency_annotation list"
  mt_criterion :: match_criterion
  mt_threshold :: rat

definition matched_count :: "matching \<Rightarrow> nat" where
  "matched_count m = length (mt_pairs m)"

definition positive_specific_agreement :: "matching \<Rightarrow> rat" where
  "positive_specific_agreement m =
     (let matched = length (mt_pairs m);
          unmatched = length (mt_left_only m) + length (mt_right_only m)
      in if matched = 0 \<and> unmatched = 0 then 1
         else of_nat (2 * matched) / of_nat (2 * matched + unmatched))"

section \<open>Weights\<close>

definition annotation_key :: "disfluency_annotation \<Rightarrow> int \<times> int \<times> string" where
  "annotation_key a =
     (sp_start_ms (da_interval a), sp_end_ms (da_interval a), speech_type_value (da_event_type a))"

definition ordered_annotations :: "disfluency_annotation list \<Rightarrow> disfluency_annotation list" where
  "ordered_annotations as = sort_key annotation_key as"

interpretation annotation_order: canonical_order annotation_key ordered_annotations
  unfolding ordered_annotations_def by (rule canonical_order_sort_key)

definition span_midpoint :: "span \<Rightarrow> rat" where
  "span_midpoint a = of_int (sp_start_ms a + sp_end_ms a) / 2"

text \<open>The score of a pair, when it is admissible.\<close>

definition pair_weight ::
  "match_criterion \<Rightarrow> rat \<Rightarrow> int \<Rightarrow> disfluency_annotation \<Rightarrow> disfluency_annotation \<Rightarrow> rat option" where
  "pair_weight criterion iou_threshold tolerance_ms a b =
     (if criterion = IOU then
        let score = iou (da_interval a) (da_interval b) in if iou_threshold \<le> score then Some score else None
      else if \<bar>span_midpoint (da_interval a) - span_midpoint (da_interval b)\<bar> \<le> of_int tolerance_ms
      then Some (iou (da_interval a) (da_interval b)) else None)"

type_synonym weights = "((nat \<times> nat) \<times> rat) list"

definition match_weights ::
  "disfluency_annotation list \<Rightarrow> disfluency_annotation list \<Rightarrow> match_criterion \<Rightarrow> rat \<Rightarrow> int \<Rightarrow> weights" where
  "match_weights left right criterion iou_threshold tolerance_ms =
     concat (map (\<lambda>(i, a). concat (map (\<lambda>(j, b).
         case pair_weight criterion iou_threshold tolerance_ms a b of
           None \<Rightarrow> [] | Some score \<Rightarrow> [((i, j), score)])
       (enumerate 0 right))) (enumerate 0 left))"

section \<open>The dynamic program\<close>

text \<open>One cell of the table, from the cell above, the cell to the left and the one before both.\<close>

definition best_cell :: "rat option \<Rightarrow> rat \<Rightarrow> rat \<Rightarrow> rat \<Rightarrow> rat" where
  "best_cell weight skip_left skip_right diagonal =
     (let candidate = (if skip_right \<le> skip_left then skip_left else skip_right) in
      case weight of
        None \<Rightarrow> candidate
      | Some w \<Rightarrow> let paired = diagonal + w in if candidate < paired then paired else candidate)"

text \<open>The inner loop: \<open>upper\<close> is row \<open>i - 1\<close>, the cells of row \<open>i\<close> so far come in and grow.\<close>

fun best_row :: "weights \<Rightarrow> nat \<Rightarrow> rat list \<Rightarrow> rat list \<Rightarrow> nat \<Rightarrow> nat \<Rightarrow> rat list" where
  "best_row ws i upper row j 0 = row"
| "best_row ws i upper row j (Suc n) =
     best_row ws i upper
       (row @ [best_cell (map_of ws (i - 1, j - 1)) (upper ! j) (row ! (j - 1)) (upper ! (j - 1))]) (j + 1) n"

fun best_rows :: "weights \<Rightarrow> nat \<Rightarrow> rat list list \<Rightarrow> nat \<Rightarrow> nat \<Rightarrow> rat list list" where
  "best_rows ws n_right rows i 0 = rows"
| "best_rows ws n_right rows i (Suc n) =
     best_rows ws n_right (rows @ [best_row ws i (rows ! (i - 1)) [0] 1 n_right]) (i + 1) n"

definition best_table :: "weights \<Rightarrow> nat \<Rightarrow> nat \<Rightarrow> rat list list" where
  "best_table ws n_left n_right = best_rows ws n_right [replicate (n_right + 1) 0] 1 n_left"

text \<open>The walk back through the table; it appends the pairs last first.\<close>

definition EPSILON :: rat where
  "EPSILON = 1 / 10 ^ 12"

function traceback :: "weights \<Rightarrow> rat list list \<Rightarrow> nat \<Rightarrow> nat \<Rightarrow> (nat \<times> nat) list" where
  "traceback ws best i j =
     (if 0 < i \<and> 0 < j then
        if (case map_of ws (i - 1, j - 1) of
              None \<Rightarrow> False
            | Some w \<Rightarrow> \<bar>best ! i ! j - (best ! (i - 1) ! (j - 1) + w)\<bar> < EPSILON)
        then (i - 1, j - 1) # traceback ws best (i - 1) (j - 1)
        else if best ! i ! j = best ! (i - 1) ! j then traceback ws best (i - 1) j
        else traceback ws best i (j - 1)
      else [])"
  by pat_completeness auto

termination by (relation "measure (\<lambda>(ws, best, i, j). i + j)") auto

declare traceback.simps [simp del]

definition optimal_non_crossing :: "weights \<Rightarrow> nat \<Rightarrow> nat \<Rightarrow> (nat \<times> nat) list" where
  "optimal_non_crossing ws n_left n_right = rev (traceback ws (best_table ws n_left n_right) n_left n_right)"

section \<open>Matching\<close>

definition unmatched :: "nat list \<Rightarrow> 'a list \<Rightarrow> 'a list" where
  "unmatched used xs = map snd (filter (\<lambda>(i, a). i \<notin> set used) (enumerate 0 xs))"

definition match_annotations ::
  "match_criterion \<Rightarrow> rat \<Rightarrow> int \<Rightarrow> disfluency_annotation list \<Rightarrow> disfluency_annotation list \<Rightarrow> matching" where
  "match_annotations criterion iou_threshold tolerance_ms left right =
     (let ordered_left = ordered_annotations left;
          ordered_right = ordered_annotations right;
          ws = match_weights ordered_left ordered_right criterion iou_threshold tolerance_ms;
          indices = optimal_non_crossing ws (length ordered_left) (length ordered_right)
      in \<lparr>mt_pairs = map (\<lambda>(i, j). \<lparr>mp_left = ordered_left ! i, mp_right = ordered_right ! j,
             mp_iou = iou (da_interval (ordered_left ! i)) (da_interval (ordered_right ! j))\<rparr>) indices,
          mt_left_only = unmatched (map fst indices) ordered_left,
          mt_right_only = unmatched (map snd indices) ordered_right,
          mt_criterion = criterion,
          mt_threshold = (if criterion = IOU then iou_threshold else of_int tolerance_ms)\<rparr>)"

section \<open>The table is the recurrence\<close>

fun best_score :: "weights \<Rightarrow> nat \<Rightarrow> nat \<Rightarrow> rat" where
  "best_score ws 0 j = 0"
| "best_score ws (Suc i) 0 = 0"
| "best_score ws (Suc i) (Suc j) =
     best_cell (map_of ws (i, j)) (best_score ws i (Suc j)) (best_score ws (Suc i) j) (best_score ws i j)"

lemma best_score_0 [simp]: "best_score ws i 0 = 0"
  by (cases i) simp_all

lemma best_row_eq:
  assumes "upper = map (best_score ws i) [0..<m + 1]" and "row = map (best_score ws (Suc i)) [0..<j]"
    and "0 < j" and "j + n = m + 1"
  shows "best_row ws (Suc i) upper row j n = map (best_score ws (Suc i)) [0..<m + 1]"
  using assms(2-4)
proof (induction n arbitrary: row j)
  case 0
  then show ?case by simp
next
  case (Suc n)
  obtain k where k: "j = Suc k" using Suc.prems(2) by (cases j) simp_all
  have row: "row ! k = best_score ws (Suc i) k" "upper ! j = best_score ws i j" "upper ! k = best_score ws i k"
    using Suc.prems assms(1) k by (simp_all add: nth_map_upt del: upt_Suc)
  have "row @ [best_cell (map_of ws (i, k)) (upper ! j) (row ! k) (upper ! k)] = map (best_score ws (Suc i)) [0..<Suc j]"
    using row Suc.prems(1) k by simp
  then show ?case using Suc.IH [of _ "j + 1"] Suc.prems k by simp
qed

lemma best_rows_eq:
  assumes "rows = map (\<lambda>i. map (best_score ws i) [0..<m + 1]) [0..<i]" and "0 < i"
  shows "best_rows ws m rows i n = map (\<lambda>i. map (best_score ws i) [0..<m + 1]) [0..<i + n]"
  using assms
proof (induction n arbitrary: rows i)
  case 0
  then show ?case by simp
next
  case (Suc n)
  obtain k where k: "i = Suc k" using Suc.prems(2) by (cases i) simp_all
  have "rows ! k = map (best_score ws k) [0..<m + 1]"
    using Suc.prems(1) k by (simp add: nth_map_upt del: upt_Suc)
  then have "best_row ws i (rows ! (i - 1)) [0] 1 m = map (best_score ws i) [0..<m + 1]"
    using best_row_eq [of "rows ! k" ws k m "[0]" 1 m] k by simp
  then have "rows @ [best_row ws i (rows ! (i - 1)) [0] 1 m] = map (\<lambda>i. map (best_score ws i) [0..<m + 1]) [0..<Suc i]"
    using Suc.prems(1) by simp
  from Suc.IH [OF this] show ?case by simp
qed

lemma best_table_eq: "best_table ws n m = map (\<lambda>i. map (best_score ws i) [0..<m + 1]) [0..<n + 1]"
proof -
  have "[0..<1] = [0::nat]" by simp
  moreover have "map (best_score ws 0) [0..<m + 1] = replicate (m + 1) 0"
    by (rule replicate_eqI) auto
  ultimately have "[replicate (m + 1) 0] = map (\<lambda>i. map (best_score ws i) [0..<m + 1]) [0..<1]"
    by simp
  from best_rows_eq [OF this, of n] show ?thesis by (simp add: best_table_def)
qed

lemma best_table_nth:
  "i \<le> n \<Longrightarrow> j \<le> m \<Longrightarrow> best_table ws n m ! i ! j = best_score ws i j"
  by (simp add: best_table_eq nth_map_upt del: upt_Suc)

section \<open>Matchings\<close>

text \<open>Pairs within the first \<open>i\<close> and \<open>j\<close> annotations, in order on both sides, all admissible.\<close>

definition non_crossing :: "(nat \<times> nat) list \<Rightarrow> bool" where
  "non_crossing ps \<longleftrightarrow> sorted_wrt (\<lambda>p q. fst p < fst q \<and> snd p < snd q) ps"

definition admissible :: "weights \<Rightarrow> nat \<Rightarrow> nat \<Rightarrow> (nat \<times> nat) list \<Rightarrow> bool" where
  "admissible ws i j ps \<longleftrightarrow> non_crossing ps \<and>
     list_all (\<lambda>p. fst p < i \<and> snd p < j \<and> map_of ws p \<noteq> None) ps"

definition total_weight :: "weights \<Rightarrow> (nat \<times> nat) list \<Rightarrow> rat" where
  "total_weight ws ps = sum_list (map (\<lambda>p. the (map_of ws p)) ps)"

lemma best_cell_ge:
  "a \<le> best_cell w a b d" "b \<le> best_cell w a b d" "w = Some x \<Longrightarrow> d + x \<le> best_cell w a b d"
  by (auto simp: best_cell_def Let_def split: option.splits)

lemma best_score_mono_left: "best_score ws i j \<le> best_score ws (Suc i) j"
  by (cases j) (simp_all add: best_cell_ge(1))

lemma admissible_snoc:
  "admissible ws i j (ps @ [(a, b)]) \<longleftrightarrow>
     admissible ws a b ps \<and> a < i \<and> b < j \<and> map_of ws (a, b) \<noteq> None"
  by (auto simp: admissible_def non_crossing_def sorted_wrt_append list_all_iff)

lemma total_weight_snoc: "total_weight ws (ps @ [p]) = total_weight ws ps + the (map_of ws p)"
  by (simp add: total_weight_def)

lemma best_score_nonneg: "0 \<le> best_score ws i j"
proof (induction ws i j rule: best_score.induct)
  case (3 ws i j)
  then show ?case using best_cell_ge(1) by (simp add: order_trans)
qed simp_all

text \<open>No admissible matching scores more than the table says.\<close>

lemma matching_le_best: "admissible ws i j ps \<Longrightarrow> total_weight ws ps \<le> best_score ws i j"
proof (induction ws i j arbitrary: ps rule: best_score.induct)
  case (1 ws j)
  then show ?case by (cases ps rule: rev_cases) (auto simp: total_weight_def admissible_snoc)
next
  case (2 ws i)
  then show ?case by (cases ps rule: rev_cases) (auto simp: total_weight_def admissible_snoc)
next
  case (3 ws i j)
  show ?case
  proof (cases ps rule: rev_cases)
    case Nil
    then show ?thesis using best_score_nonneg [of ws "Suc i" "Suc j"] by (simp add: total_weight_def)
  next
    case (snoc qs p)
    obtain a b where p: "p = (a, b)" by (cases p)
    have adm: "admissible ws a b qs" "a < Suc i" "b < Suc j" "map_of ws (a, b) \<noteq> None"
      using "3.prems" by (simp_all add: snoc p admissible_snoc)
    consider "a < i" | "a = i" "b < j" | "a = i" "b = j" using adm by linarith
    then show ?thesis
    proof cases
      case 1
      then have "total_weight ws ps \<le> best_score ws i (Suc j)"
        using adm "3.IH"(1) [of ps] by (simp add: snoc p admissible_snoc)
      then show ?thesis using best_cell_ge(1) by (simp add: order_trans)
    next
      case 2
      then have "total_weight ws ps \<le> best_score ws (Suc i) j"
        using adm "3.IH"(2) [of ps] by (simp add: snoc p admissible_snoc)
      then show ?thesis using best_cell_ge(2) by (simp add: order_trans)
    next
      case 3
      then obtain w where w: "map_of ws (i, j) = Some w" using adm by auto
      have "total_weight ws qs \<le> best_score ws i j"
        using adm "3.IH"(3) [of qs] 3 by simp
      then have "total_weight ws ps \<le> best_score ws i j + w"
        by (simp add: snoc p total_weight_snoc 3 w)
      also have "\<dots> \<le> best_score ws (Suc i) (Suc j)"
        by (simp add: best_cell_ge(3) [OF w])
      finally show ?thesis .
    qed
  qed
qed

text \<open>The walk back collects an admissible matching that loses at most \<open>1e-12\<close> for each pair.\<close>

lemma admissible_mono: "admissible ws i j ps \<Longrightarrow> i \<le> i' \<Longrightarrow> j \<le> j' \<Longrightarrow> admissible ws i' j' ps"
  by (auto simp: admissible_def list_all_iff)

lemma best_cell_cases:
  "best_cell w a b d = a \<or> best_cell w a b d = b \<or> (\<exists>x. w = Some x \<and> best_cell w a b d = d + x)"
  by (auto simp: best_cell_def Let_def split: option.splits)

lemma traceback_near_optimal:
  fixes ws :: weights and n m i j :: nat
  assumes "i \<le> n" and "j \<le> m"
  defines "ps \<equiv> rev (traceback ws (best_table ws n m) i j)"
  shows "admissible ws i j ps \<and> best_score ws i j \<le> total_weight ws ps + of_nat (length ps) * EPSILON"
  using assms(1,2) unfolding ps_def
proof (induction "i + j" arbitrary: i j rule: less_induct)
  case less
  note unfold = traceback.simps [of ws "best_table ws n m" i j]
  show ?case
  proof (cases "0 < i \<and> 0 < j")
    case False
    then have "i = 0 \<or> j = 0" by auto
    then show ?thesis by (auto simp: unfold admissible_def non_crossing_def total_weight_def)
  next
    case True
    then obtain k l where kl: "i = Suc k" "j = Suc l" by (cases i; cases j) auto
    have tbl: "best_table ws n m ! i ! j = best_score ws i j" "best_table ws n m ! k ! l = best_score ws k l"
      "best_table ws n m ! k ! j = best_score ws k j"
      using less.prems kl by (simp_all add: best_table_nth del: best_score.simps)
    have cell: "best_score ws i j = best_cell (map_of ws (k, l)) (best_score ws k j) (best_score ws i l) (best_score ws k l)"
      by (simp add: kl)
    let ?pair = "case map_of ws (k, l) of None \<Rightarrow> False
      | Some w \<Rightarrow> \<bar>best_score ws i j - (best_score ws k l + w)\<bar> < EPSILON"
    have im: "i - 1 = k" "j - 1 = l" using kl by simp_all
    have step: "traceback ws (best_table ws n m) i j =
        (if ?pair then (k, l) # traceback ws (best_table ws n m) k l
         else if best_score ws i j = best_score ws k j then traceback ws (best_table ws n m) k j
         else traceback ws (best_table ws n m) i l)"
      unfolding unfold im tbl using True by (simp only: simp_thms if_True)
    show ?thesis
    proof (cases ?pair)
      case True
      then obtain w where w: "map_of ws (k, l) = Some w" "\<bar>best_score ws i j - (best_score ws k l + w)\<bar> < EPSILON"
        by (auto split: option.splits)
      have t: "traceback ws (best_table ws n m) i j = (k, l) # traceback ws (best_table ws n m) k l"
        unfolding step using True by (simp only: if_True)
      have ih: "admissible ws k l (rev (traceback ws (best_table ws n m) k l)) \<and>
          best_score ws k l \<le> total_weight ws (rev (traceback ws (best_table ws n m) k l)) +
            of_nat (length (rev (traceback ws (best_table ws n m) k l))) * EPSILON"
        by (rule less.hyps) (use less.prems kl in simp_all)
      have "best_score ws i j \<le> best_score ws k l + w + EPSILON" using w(2) by linarith
      with ih w(1) show ?thesis
        unfolding t by (simp add: admissible_snoc total_weight_snoc kl algebra_simps del: best_score.simps)
    next
      case no_pair: False
      show ?thesis
      proof (cases "best_score ws i j = best_score ws k j")
        case True
        have t: "traceback ws (best_table ws n m) i j = traceback ws (best_table ws n m) k j"
          unfolding step if_not_P [OF no_pair] if_P [OF True] ..
        have ih: "admissible ws k j (rev (traceback ws (best_table ws n m) k j)) \<and>
            best_score ws k j \<le> total_weight ws (rev (traceback ws (best_table ws n m) k j)) +
              of_nat (length (rev (traceback ws (best_table ws n m) k j))) * EPSILON"
          by (rule less.hyps) (use less.prems kl in simp_all)
        have "admissible ws i j (rev (traceback ws (best_table ws n m) k j))"
          by (rule admissible_mono [OF conjunct1 [OF ih]]) (simp_all add: kl)
        with ih show ?thesis unfolding t True by simp
      next
        case False
        have eq: "best_score ws i j = best_score ws i l"
          using best_cell_cases [of "map_of ws (k, l)" "best_score ws k j" "best_score ws i l" "best_score ws k l"]
            no_pair False cell by (auto simp: EPSILON_def)
        have t: "traceback ws (best_table ws n m) i j = traceback ws (best_table ws n m) i l"
          unfolding step if_not_P [OF no_pair] if_not_P [OF False] ..
        have ih: "admissible ws i l (rev (traceback ws (best_table ws n m) i l)) \<and>
            best_score ws i l \<le> total_weight ws (rev (traceback ws (best_table ws n m) i l)) +
              of_nat (length (rev (traceback ws (best_table ws n m) i l))) * EPSILON"
          by (rule less.hyps) (use less.prems kl in simp_all)
        have "admissible ws i j (rev (traceback ws (best_table ws n m) i l))"
          by (rule admissible_mono [OF conjunct1 [OF ih]]) (simp_all add: kl)
        with ih show ?thesis unfolding t eq by simp
      qed
    qed
  qed
qed

section \<open>Weights and partition\<close>

lemma map_of_weights_row:
  "map_of (concat (map (\<lambda>(j, b). case f b of None \<Rightarrow> [] | Some x \<Rightarrow> [((i, j), x)]) (enumerate s bs))) (i', j) =
     (if i' = i \<and> s \<le> j \<and> j < s + length bs then f (bs ! (j - s)) else None)"
proof (induction bs arbitrary: s)
  case (Cons b bs)
  show ?case
    using Cons.IH [of "Suc s"]
    by (cases "f b"; cases "j = s") (auto simp: map_add_def nth_Cons' split: option.splits)
qed auto

lemma map_of_match_weights_aux:
  "map_of (concat (map (\<lambda>(i, a). concat (map (\<lambda>(j, b). case f a b of None \<Rightarrow> [] | Some x \<Rightarrow> [((i, j), x)])
       (enumerate 0 bs))) (enumerate s as))) (i, j) =
     (if s \<le> i \<and> i < s + length as \<and> j < length bs then f (as ! (i - s)) (bs ! j) else None)"
proof (induction as arbitrary: s)
  case (Cons a as)
  show ?case
    using Cons.IH [of "Suc s"]
    by (cases "i = s") (auto simp: map_add_def map_of_weights_row nth_Cons' split: option.splits)
qed auto

lemma map_of_match_weights:
  "map_of (match_weights left right criterion thr tol) (i, j) =
     (if i < length left \<and> j < length right then pair_weight criterion thr tol (left ! i) (right ! j) else None)"
  unfolding match_weights_def by (subst map_of_match_weights_aux) simp

lemma optimal_facts:
  "admissible ws n m (optimal_non_crossing ws n m)"
  "best_score ws n m \<le> total_weight ws (optimal_non_crossing ws n m) +
     of_nat (length (optimal_non_crossing ws n m)) * EPSILON"
  using traceback_near_optimal [of n n m m ws] by (simp_all add: optimal_non_crossing_def)

text \<open>
  C38: The matching is the best one that does not cross. The index pairs that the dynamic program returns are in
  order on both sides and every one of them is admissible, and no other admissible matching without
  crossings has a total score that is greater by more than \<open>1e-12\<close> for each returned pair.
\<close>

theorem matching_optimal:
  "let ps = optimal_non_crossing ws n m in
     admissible ws n m ps \<and>
     \<not> (\<exists>qs. admissible ws n m qs \<and> total_weight ws ps + of_nat (length ps) / 10 ^ 12 < total_weight ws qs)"
proof -
  have "total_weight ws qs \<le> total_weight ws (optimal_non_crossing ws n m) +
      of_nat (length (optimal_non_crossing ws n m)) / 10 ^ 12" if "admissible ws n m qs" for qs
    using matching_le_best [OF that] optimal_facts(2) [of ws n m] by (simp add: EPSILON_def)
  then show ?thesis
    unfolding Let_def using optimal_facts(1) [of ws n m] by (meson not_le)
qed

lemma enumerate_nth: "enumerate 0 xs = map (\<lambda>i. (i, xs ! i)) [0..<length xs]"
  by (rule nth_equalityI) (simp_all add: nth_enumerate_eq)

lemma sorted_index_filter:
  assumes "sorted_wrt (<) is" and "\<And>i. i \<in> set is \<Longrightarrow> i < length xs"
  shows "mset (map ((!) xs) is) + mset (unmatched is xs) = mset xs"
proof -
  have "distinct is" using assms(1) by (simp add: strict_sorted_iff)
  have "mset is = mset (filter (\<lambda>i. i \<in> set is) [0..<length xs])"
    using \<open>distinct is\<close> assms(2) by (intro set_eq_iff_mset_eq_distinct [THEN iffD1]) auto
  then have "mset (map ((!) xs) is) = mset (map ((!) xs) (filter (\<lambda>i. i \<in> set is) [0..<length xs]))"
    by (simp only: mset_map)
  moreover have "unmatched is xs = map ((!) xs) (filter (\<lambda>i. i \<notin> set is) [0..<length xs])"
    by (simp add: unmatched_def enumerate_nth filter_map comp_def)
  moreover have "mset (map ((!) xs) [0..<length xs]) = mset xs" by (simp only: map_nth)
  moreover have "image_mset ((!) xs) (filter_mset (\<lambda>i. i \<in> set is) M) +
      image_mset ((!) xs) (filter_mset (\<lambda>i. i \<notin> set is) M) = image_mset ((!) xs) M" for M
    by (metis image_mset_union multiset_partition)
  from this [of "mset [0..<length xs]"] have
    "mset (map ((!) xs) (filter (\<lambda>i. i \<in> set is) [0..<length xs])) +
     mset (map ((!) xs) (filter (\<lambda>i. i \<notin> set is) [0..<length xs])) = mset (map ((!) xs) [0..<length xs])"
    by (simp only: mset_map mset_filter)
  ultimately show ?thesis by simp
qed

lemma admissible_sorted:
  assumes "admissible ws n m ps"
  shows "sorted_wrt (<) (map fst ps)" "sorted_wrt (<) (map snd ps)"
    "\<And>i. i \<in> set (map fst ps) \<Longrightarrow> i < n" "\<And>j. j \<in> set (map snd ps) \<Longrightarrow> j < m"
  using assms by (auto simp: admissible_def non_crossing_def sorted_wrt_map list_all_iff elim: sorted_wrt_mono_rel [rotated])

lemma match_annotations_partition:
  fixes criterion thr tol left right
  defines "m \<equiv> match_annotations criterion thr tol left right"
  shows "mset (map mp_left (mt_pairs m)) + mset (mt_left_only m) = mset left"
    and "mset (map mp_right (mt_pairs m)) + mset (mt_right_only m) = mset right"
    and "list_all (\<lambda>p. pair_weight criterion thr tol (mp_left p) (mp_right p) = Some (mp_iou p)) (mt_pairs m)"
proof -
  let ?l = "ordered_annotations left" and ?r = "ordered_annotations right"
  let ?ws = "match_weights ?l ?r criterion thr tol"
  let ?ps = "optimal_non_crossing ?ws (length ?l) (length ?r)"
  note adm = optimal_facts(1) [of ?ws "length ?l" "length ?r"]
  note srt = admissible_sorted [OF adm]
  have m: "map mp_left (mt_pairs m) = map ((!) ?l) (map fst ?ps)" "map mp_right (mt_pairs m) = map ((!) ?r) (map snd ?ps)"
      "mt_left_only m = unmatched (map fst ?ps) ?l" "mt_right_only m = unmatched (map snd ?ps) ?r"
    by (simp_all add: m_def match_annotations_def Let_def case_prod_unfold)
  show "mset (map mp_left (mt_pairs m)) + mset (mt_left_only m) = mset left"
    unfolding m by (simp only: sorted_index_filter [OF srt(1,3)] annotation_order.mset_ordered)
  show "mset (map mp_right (mt_pairs m)) + mset (mt_right_only m) = mset right"
    unfolding m by (simp only: sorted_index_filter [OF srt(2,4)] annotation_order.mset_ordered)
  have "pair_weight criterion thr tol (?l ! i) (?r ! j) = Some (iou (da_interval (?l ! i)) (da_interval (?r ! j)))"
    if "(i, j) \<in> set ?ps" for i j
  proof -
    have "map_of ?ws (i, j) \<noteq> None" using adm that by (auto simp: admissible_def list_all_iff)
    then have "pair_weight criterion thr tol (?l ! i) (?r ! j) \<noteq> None"
      unfolding map_of_match_weights by (auto split: if_splits)
    then show ?thesis by (auto simp: pair_weight_def Let_def split: if_splits)
  qed
  then show "list_all (\<lambda>p. pair_weight criterion thr tol (mp_left p) (mp_right p) = Some (mp_iou p)) (mt_pairs m)"
    by (auto simp: m_def match_annotations_def Let_def list_all_iff)
qed

lemma share_bounds:
  fixes a b :: nat
  assumes "a + b \<noteq> 0"
  shows "0 \<le> rat_of_nat a / rat_of_nat (a + b)" "rat_of_nat a / rat_of_nat (a + b) \<le> 1"
    "rat_of_nat a / rat_of_nat (a + b) = 1 \<longleftrightarrow> b = 0"
proof -
  have pos: "0 < rat_of_nat (a + b)" using assms by (simp only: of_nat_0_less_iff)
  show "0 \<le> rat_of_nat a / rat_of_nat (a + b)" by simp
  show "rat_of_nat a / rat_of_nat (a + b) \<le> 1"
    using pos by (simp only: divide_le_eq_1_pos of_nat_le_iff)
  have "rat_of_nat a / rat_of_nat (a + b) = 1 \<longleftrightarrow> rat_of_nat a = rat_of_nat (a + b)"
    using pos by (simp only: divide_eq_eq_1) auto
  thus "rat_of_nat a / rat_of_nat (a + b) = 1 \<longleftrightarrow> b = 0" by (simp only: of_nat_eq_iff) simp
qed

lemma agreement_bounds:
  "0 \<le> positive_specific_agreement m" "positive_specific_agreement m \<le> 1"
  "positive_specific_agreement m = 1 \<longleftrightarrow> mt_left_only m = [] \<and> mt_right_only m = []"
proof -
  let ?p = "length (mt_pairs m)" and ?u = "length (mt_left_only m) + length (mt_right_only m)"
  have *: "0 \<le> positive_specific_agreement m \<and> positive_specific_agreement m \<le> 1 \<and>
      (positive_specific_agreement m = 1 \<longleftrightarrow> ?u = 0)"
  proof (cases "2 * ?p + ?u = 0")
    case True
    thus ?thesis by (simp add: positive_specific_agreement_def)
  next
    case False
    moreover from this have "positive_specific_agreement m = rat_of_nat (2 * ?p) / rat_of_nat (2 * ?p + ?u)"
      unfolding positive_specific_agreement_def Let_def by (subst if_not_P) auto
    ultimately show ?thesis using share_bounds [of "2 * ?p" ?u] by (simp only: simp_thms)
  qed
  show "0 \<le> positive_specific_agreement m" "positive_specific_agreement m \<le> 1"
    "positive_specific_agreement m = 1 \<longleftrightarrow> mt_left_only m = [] \<and> mt_right_only m = []"
    using * by auto
qed

text \<open>
  Matching accounts for every annotation. Each annotation of either annotator is in exactly one pair or in
  that annotator's leftovers; every pair satisfies the criterion and carries its own overlap; and
  the agreement is a number between 0 and 1 that is 1 exactly when nothing is left over.
\<close>

theorem matching_accounts:
  "let m = match_annotations criterion thr tol left right in
     mset (map mp_left (mt_pairs m)) + mset (mt_left_only m) = mset left \<and>
     mset (map mp_right (mt_pairs m)) + mset (mt_right_only m) = mset right \<and>
     list_all (\<lambda>p. pair_weight criterion thr tol (mp_left p) (mp_right p) = Some (mp_iou p)) (mt_pairs m) \<and>
     0 \<le> positive_specific_agreement m \<and> positive_specific_agreement m \<le> 1 \<and>
     (positive_specific_agreement m = 1 \<longleftrightarrow> mt_left_only m = [] \<and> mt_right_only m = [])"
  unfolding Let_def by (intro conjI match_annotations_partition agreement_bounds)

section \<open>The walk back ends\<close>

text \<open>The \<open>while\<close> loop as written, with a bound on the number of rounds: None when it is not done by then.\<close>

fun walk_back ::
  "nat \<Rightarrow> weights \<Rightarrow> rat list list \<Rightarrow> nat \<Rightarrow> nat \<Rightarrow> (nat \<times> nat) list \<Rightarrow> (nat \<times> nat) list option" where
  "walk_back 0 ws best i j pairs = (if 0 < i \<and> 0 < j then None else Some pairs)"
| "walk_back (Suc fuel) ws best i j pairs =
     (if 0 < i \<and> 0 < j then
        if (case map_of ws (i - 1, j - 1) of
              None \<Rightarrow> False
            | Some w \<Rightarrow> \<bar>best ! i ! j - (best ! (i - 1) ! (j - 1) + w)\<bar> < EPSILON)
        then walk_back fuel ws best (i - 1) (j - 1) (pairs @ [(i - 1, j - 1)])
        else if best ! i ! j = best ! (i - 1) ! j then walk_back fuel ws best (i - 1) j pairs
        else walk_back fuel ws best i (j - 1) pairs
      else Some pairs)"

lemma walk_back_traceback:
  "i + j \<le> fuel \<Longrightarrow> walk_back fuel ws best i j pairs = Some (pairs @ traceback ws best i j)"
proof (induction fuel arbitrary: i j pairs)
  case 0
  then show ?case by (simp add: traceback.simps [of ws best 0 0])
next
  case (Suc fuel)
  show ?case
  proof (cases "0 < i \<and> 0 < j")
    case True
    then have le: "i - 1 + (j - 1) \<le> fuel" "i - 1 + j \<le> fuel" "i + (j - 1) \<le> fuel" using Suc.prems by auto
    show ?thesis
      unfolding walk_back.simps traceback.simps [of ws best i j] if_P [OF True]
        Suc.IH [OF le(1)] Suc.IH [OF le(2)] Suc.IH [OF le(3)] by simp
  next
    case False
    show ?thesis
      unfolding walk_back.simps traceback.simps [of ws best i j] if_not_P [OF False] by simp
  qed
qed

text \<open>
  C39: The loop that recovers the matching from the table ends after at most as many rounds as there are
  annotations on both sides, whatever the table and the weights hold, and what it collects is the
  alignment, last pair first.
\<close>

theorem walk_back_terminates:
  "walk_back (n_left + n_right) ws (best_table ws n_left n_right) n_left n_right [] =
     Some (rev (optimal_non_crossing ws n_left n_right)) \<and>
   walk_back (i + j + spare) ws best i j pairs \<noteq> None"
  by (simp add: walk_back_traceback optimal_non_crossing_def)

section \<open>Pairs without overlap\<close>

definition sample_annotation :: "int \<Rightarrow> int \<Rightarrow> disfluency_annotation" where
  "sample_annotation s e = \<lparr>da_event_type = FILLED_PAUSE, da_interval = \<lparr>sp_start_ms = s, sp_end_ms = e\<rparr>,
     da_annotator_id = ''a'', da_raw_text = [], da_context_role = None, da_annotator_confidence = 1, da_note = []\<rparr>"

text \<open>
  Under the tolerance criterion an unrelated later event undoes a match. Two events of 100 ms whose
  midpoints are 110 ms apart, without overlap, are matched when nothing else was annotated; when
  the second annotator also marked an event five seconds later, the two are no longer matched: a
  score of 0 does not show in the table, and the walk back drops the left event first. With the
  annotators swapped the pair is kept, so the agreement is not symmetric there.
\<close>

theorem unrelated_event_undoes_match:
  "let a = sample_annotation 0 100; b = sample_annotation 110 210; later = sample_annotation 5000 5100;
       matched = match_annotations MIDPOINT_TOLERANCE DEFAULT_IOU_THRESHOLD MATCH_TOLERANCE_MS in
     positive_specific_agreement (matched [a] [b]) = 1 \<and>
     positive_specific_agreement (matched [a] [b, later]) = 0 \<and>
     positive_specific_agreement (matched [b, later] [a]) = 2 / 3"
  by code_simp

end
