(* ===== verification/Measures.thy ===== *)
theory Measures
  imports Prelude
begin

text \<open>
  Agreement coefficients over matched events (\<open>corpus/agreement/measures.py\<close>): the confusion matrix, its
  per-label figures, Cohen's kappa, Krippendorff's nominal alpha, and the boundary errors with their
  median and nearest-rank percentile. Labels are strings, counts are numbers of pairs.
\<close>

definition UndefinedUnitError :: exn where
  "UndefinedUnitError = OtherError ''UndefinedUnitError''"

type_synonym label_counts = "((string \<times> string) \<times> nat) list"

text \<open>\<open>sum(c for (a, b), c in counts.items() if ...)\<close>.\<close>

definition sum_counts :: "(string \<times> string \<Rightarrow> bool) \<Rightarrow> label_counts \<Rightarrow> nat" where
  "sum_counts P d = sum_list (map snd (filter (\<lambda>(k, c). P k) d))"

text \<open>\<open>counts[k] = counts.get(k, 0) + c\<close>.\<close>

definition add_count :: "string \<times> string \<Rightarrow> nat \<Rightarrow> label_counts \<Rightarrow> label_counts" where
  "add_count k c d = AList.update k ((case map_of d k of None \<Rightarrow> 0 | Some n \<Rightarrow> n) + c) d"

record confusion_matrix =
  cm_counts :: label_counts
  cm_labels :: "string list"

definition cm_total :: "confusion_matrix \<Rightarrow> nat" where
  "cm_total m = sum_list (map snd (cm_counts m))"

definition agreements :: "confusion_matrix \<Rightarrow> nat" where
  "agreements m = sum_counts (\<lambda>(a, b). a = b) (cm_counts m)"

definition observed_agreement :: "confusion_matrix \<Rightarrow> rat" where
  "observed_agreement m =
     (if cm_total m \<noteq> 0 then of_nat (agreements m) / of_nat (cm_total m) else 1)"

definition for_label :: "confusion_matrix \<Rightarrow> string \<Rightarrow> nat \<times> nat \<times> nat" where
  "for_label m label =
     ((case map_of (cm_counts m) (label, label) of None \<Rightarrow> 0 | Some n \<Rightarrow> n),
      sum_counts (\<lambda>(a, b). a = label \<and> b \<noteq> label) (cm_counts m),
      sum_counts (\<lambda>(a, b). b = label \<and> a \<noteq> label) (cm_counts m))"

definition specific_agreement :: "confusion_matrix \<Rightarrow> string \<Rightarrow> rat option" where
  "specific_agreement m label =
     (case for_label m label of (both, left_only, right_only) \<Rightarrow>
        if both = 0 \<and> left_only = 0 \<and> right_only = 0 then None
        else Some (of_nat (2 * both) / of_nat (2 * both + left_only + right_only)))"

definition confusion :: "(string \<times> string) list \<Rightarrow> confusion_matrix" where
  "confusion pairs =
     \<lparr>cm_counts = fold (\<lambda>p d. add_count p 1 d) pairs [],
      cm_labels = sorted_list_of_set (\<Union>(a, b) \<in> set pairs. {a, b})\<rparr>"

text \<open>\<open>math.isclose\<close> with its default tolerances.\<close>

definition isclose :: "rat \<Rightarrow> rat \<Rightarrow> bool" where
  "isclose a b \<longleftrightarrow> \<bar>a - b\<bar> \<le> max (1 / 10 ^ 9 * max \<bar>a\<bar> \<bar>b\<bar>) 0"

definition expected_agreement :: "confusion_matrix \<Rightarrow> rat" where
  "expected_agreement m =
     sum_list (map (\<lambda>label.
       of_nat (sum_counts (\<lambda>(a, _). a = label) (cm_counts m)) / of_nat (cm_total m) *
       (of_nat (sum_counts (\<lambda>(_, b). b = label) (cm_counts m)) / of_nat (cm_total m))) (cm_labels m))"

definition cohens_kappa :: "confusion_matrix \<Rightarrow> rat option" where
  "cohens_kappa m =
     (if cm_total m < 2 then None
      else let observed = observed_agreement m; expected = expected_agreement m in
        if isclose expected 1 then None else Some ((observed - expected) / (1 - expected)))"

definition coincidences :: "label_counts \<Rightarrow> label_counts" where
  "coincidences counts =
     fold (\<lambda>((left, right), c) d. add_count (right, left) c (add_count (left, right) c d)) counts []"

definition krippendorffs_alpha :: "confusion_matrix \<Rightarrow> rat option" where
  "krippendorffs_alpha m =
     (if cm_total m < 2 then None
      else let co = coincidences (cm_counts m);
               n = sum_list (map snd co);
               marginal = (\<lambda>label. sum_counts (\<lambda>(a, _). a = label) co);
               observed_disagreement = sum_counts (\<lambda>(a, b). a \<noteq> b) co;
               expected_disagreement =
                 sum_list (map (\<lambda>(a, b). marginal a * marginal b)
                   (filter (\<lambda>(a, b). a \<noteq> b) (List.product (cm_labels m) (cm_labels m))))
           in if expected_disagreement = 0 then None
              else Some (1 - of_nat ((n - 1) * observed_disagreement) / of_nat expected_disagreement))"

section \<open>Boundary errors\<close>

definition median :: "int list \<Rightarrow> rat option" where
  "median values =
     (if values = [] then None
      else let ordered = sort values; middle = length ordered div 2 in
        if length ordered mod 2 \<noteq> 0 then Some (of_int (ordered ! middle))
        else Some (of_int (ordered ! (middle - 1) + ordered ! middle) / 2))"

definition percentile :: "int list \<Rightarrow> int \<Rightarrow> rat option" where
  "percentile values p =
     (if values = [] then None
      else let ordered = sort values; rank = \<lceil>of_int p / 100 * rat_of_nat (length ordered)\<rceil> in
        Some (of_int (ordered ! nat (max rank 1 - 1))))"

record boundary_error =
  be_start_errors_ms :: "int list"
  be_end_errors_ms :: "int list"

definition boundary_count :: "boundary_error \<Rightarrow> nat" where
  "boundary_count b = length (be_start_errors_ms b)"

definition median_start_ms :: "boundary_error \<Rightarrow> rat option" where
  "median_start_ms b = median (be_start_errors_ms b)"

definition median_end_ms :: "boundary_error \<Rightarrow> rat option" where
  "median_end_ms b = median (be_end_errors_ms b)"

definition p95_start_ms :: "boundary_error \<Rightarrow> rat option" where
  "p95_start_ms b = percentile (be_start_errors_ms b) 95"

definition p95_end_ms :: "boundary_error \<Rightarrow> rat option" where
  "p95_end_ms b = percentile (be_end_errors_ms b) 95"

definition kappa_over_time_frames :: "rat result" where
  "kappa_over_time_frames = Inl UndefinedUnitError"

section \<open>Counts count pairs\<close>

lemma sum_counts_update:
  assumes "distinct (map fst d)"
  shows "sum_counts P (add_count k c d) = sum_counts P d + (if P k then c else 0)"
  using assms unfolding add_count_def
proof (induction d)
  case (Cons p d)
  obtain q n where p: "p = (q, n)" by (cases p)
  show ?case
  proof (cases "q = k")
    case True
    have "AList.update k v (p # d) = (k, v) # d" for v by (simp add: p True)
    then show ?thesis by (simp add: p True sum_counts_def)
  next
    case False
    then show ?thesis using Cons by (simp add: p sum_counts_def)
  qed
qed (simp add: sum_counts_def)

lemma distinct_add_count: "distinct (map fst d) \<Longrightarrow> distinct (map fst (add_count k c d))"
  unfolding add_count_def by (rule distinct_update)

lemma sum_counts_fold:
  "distinct (map fst d) \<Longrightarrow>
   distinct (map fst (fold (\<lambda>p d. add_count p 1 d) ps d)) \<and>
   sum_counts P (fold (\<lambda>p d. add_count p 1 d) ps d) = sum_counts P d + length (filter P ps)"
  by (induction ps arbitrary: d) (auto simp: distinct_add_count sum_counts_update)

lemma sum_counts_confusion [simp]: "sum_counts P (cm_counts (confusion ps)) = length (filter P ps)"
  using sum_counts_fold [of "[]" ps P] by (simp add: confusion_def sum_counts_def)

lemma distinct_confusion: "distinct (map fst (cm_counts (confusion ps)))"
  using sum_counts_fold [of "[]" ps "\<lambda>_. True"] by (simp add: confusion_def)

lemma total_counts: "sum_list (map snd d) = sum_counts (\<lambda>_. True) d"
  by (simp add: sum_counts_def)

lemma total_confusion [simp]: "cm_total (confusion ps) = length ps"
  by (simp add: cm_total_def total_counts)

lemma lookup_count:
  "distinct (map fst d) \<Longrightarrow> (case map_of d k of None \<Rightarrow> 0 | Some n \<Rightarrow> n) = sum_counts (\<lambda>q. q = k) d"
proof (induction d)
  case (Cons p d)
  have "sum_counts (\<lambda>q. q = k) d = 0" if "k \<notin> fst ` set d"
  proof -
    have "filter (\<lambda>(q, c). q = k) d = []" using that by (force simp: filter_empty_conv)
    then show ?thesis by (simp add: sum_counts_def)
  qed
  then show ?case using Cons by (cases p) (auto simp: sum_counts_def)
qed (simp add: sum_counts_def)

lemma for_label_confusion:
  "for_label (confusion ps) l =
     (length (filter (\<lambda>p. p = (l, l)) ps), length (filter (\<lambda>(a, b). a = l \<and> b \<noteq> l) ps),
      length (filter (\<lambda>(a, b). b = l \<and> a \<noteq> l) ps))"
  by (simp add: for_label_def lookup_count distinct_confusion)

lemma labels_confusion:
  "set (cm_labels (confusion ps)) = fst ` set ps \<union> snd ` set ps"
  "distinct (cm_labels (confusion ps))"
proof -
  have "finite (\<Union>(a, b) \<in> set ps. {a, b})" by auto
  then show "set (cm_labels (confusion ps)) = fst ` set ps \<union> snd ` set ps"
    by (simp add: confusion_def) force
  show "distinct (cm_labels (confusion ps))" by (simp add: confusion_def)
qed

section \<open>Marginals\<close>

definition left_count :: "(string \<times> string) list \<Rightarrow> string \<Rightarrow> nat" where
  "left_count ps l = length (filter (\<lambda>(a, _). a = l) ps)"

definition right_count :: "(string \<times> string) list \<Rightarrow> string \<Rightarrow> nat" where
  "right_count ps l = length (filter (\<lambda>(_, b). b = l) ps)"

definition single_category :: "(string \<times> string) list \<Rightarrow> bool" where
  "single_category ps \<longleftrightarrow> (case ps of [] \<Rightarrow> True | (a, _) # _ \<Rightarrow> list_all (\<lambda>p. p = (a, a)) ps)"

abbreviation labels_of :: "(string \<times> string) list \<Rightarrow> string set" where
  "labels_of ps \<equiv> fst ` set ps \<union> snd ` set ps"

lemma single_category_iff: "single_category ps \<longleftrightarrow> (\<exists>l. \<forall>p \<in> set ps. p = (l, l))"
  by (cases ps) (auto simp: single_category_def list_all_iff)

lemma sum_filter_classes:
  "finite S \<Longrightarrow> (\<Sum>l\<in>S. length (filter (\<lambda>p. f p = l) ps)) = length (filter (\<lambda>p. f p \<in> S) ps)"
proof (induction ps)
  case (Cons p ps)
  have "(\<Sum>l\<in>S. length (filter (\<lambda>p. f p = l) (p # ps))) =
      (\<Sum>l\<in>S. (if f p = l then 1 else 0)) + (\<Sum>l\<in>S. length (filter (\<lambda>p. f p = l) ps))"
    unfolding sum.distrib [symmetric] by (rule sum.cong) auto
  then show ?case using Cons by simp
qed simp

lemma sum_left_count: "sum (left_count ps) (labels_of ps) = length ps"
proof -
  have "sum (left_count ps) (labels_of ps) = length (filter (\<lambda>p. fst p \<in> labels_of ps) ps)"
    unfolding left_count_def using sum_filter_classes [of "labels_of ps" fst ps]
    by (simp add: case_prod_beta')
  also have "filter (\<lambda>p. fst p \<in> labels_of ps) ps = ps" by (rule filter_True) auto
  finally show ?thesis .
qed

lemma sum_right_count: "sum (right_count ps) (labels_of ps) = length ps"
proof -
  have "sum (right_count ps) (labels_of ps) = length (filter (\<lambda>p. snd p \<in> labels_of ps) ps)"
    unfolding right_count_def using sum_filter_classes [of "labels_of ps" snd ps]
    by (simp add: case_prod_beta')
  also have "filter (\<lambda>p. snd p \<in> labels_of ps) ps = ps" by (rule filter_True) auto
  finally show ?thesis .
qed

lemma left_count_pos: "0 < left_count ps l \<longleftrightarrow> l \<in> fst ` set ps"
  by (force simp: left_count_def length_greater_0_conv [symmetric] filter_empty_conv simp del: length_greater_0_conv)

lemma right_count_pos: "0 < right_count ps l \<longleftrightarrow> l \<in> snd ` set ps"
  by (force simp: right_count_def filter_empty_conv)

lemma length_filter_all: "length (filter P xs) = length xs \<longleftrightarrow> (\<forall>x \<in> set xs. P x)"
proof (induction xs)
  case (Cons x xs)
  then show ?case using length_filter_le [of P xs] by (auto simp del: length_filter_le)
qed simp

lemma right_count_all: "right_count ps l = length ps \<longleftrightarrow> (\<forall>p \<in> set ps. snd p = l)"
  unfolding right_count_def by (simp add: length_filter_all case_prod_beta')

section \<open>Kappa\<close>

text \<open>What is left of the square of the sample: pairs of judgements with different labels.\<close>

definition cross_disagreement :: "(string \<times> string) list \<Rightarrow> nat" where
  "cross_disagreement ps = (\<Sum>l\<in>labels_of ps. left_count ps l * (length ps - right_count ps l))"

lemma right_count_le: "right_count ps l \<le> length ps"
  by (simp add: right_count_def)

lemma cross_split:
  "(\<Sum>l\<in>labels_of ps. left_count ps l * right_count ps l) + cross_disagreement ps = length ps * length ps"
proof -
  have "(\<Sum>l\<in>labels_of ps. left_count ps l * right_count ps l) + cross_disagreement ps =
      (\<Sum>l\<in>labels_of ps. left_count ps l * length ps)"
    unfolding cross_disagreement_def sum.distrib [symmetric]
    by (rule sum.cong) (auto simp: distrib_left [symmetric] right_count_le)
  then show ?thesis by (simp add: sum_distrib_right [symmetric] sum_left_count)
qed

lemma ball_restrict: "(\<forall>l \<in> A \<union> B. l \<notin> A \<or> Q l) \<longleftrightarrow> (\<forall>l \<in> A. Q l)"
  by blast

lemma cross_zero_iff:
  "cross_disagreement ps = 0 \<longleftrightarrow> (\<forall>q \<in> set ps. \<forall>p \<in> set ps. snd p = fst q)"
proof -
  have left_zero: "left_count ps l = 0 \<longleftrightarrow> l \<notin> fst ` set ps" for l
    unfolding left_count_pos [symmetric] by simp
  have "cross_disagreement ps = 0 \<longleftrightarrow>
      (\<forall>l \<in> labels_of ps. left_count ps l = 0 \<or> right_count ps l = length ps)"
    unfolding cross_disagreement_def using right_count_le [of ps] by (auto simp: le_antisym)
  also have "\<dots> \<longleftrightarrow> (\<forall>l \<in> fst ` set ps. right_count ps l = length ps)"
    unfolding left_zero ball_restrict ..
  finally show ?thesis by (simp add: right_count_all)
qed

lemma single_category_cross: "single_category ps \<longleftrightarrow> cross_disagreement ps = 0"
proof (cases ps)
  case (Cons p qs)
  show ?thesis
    unfolding single_category_iff cross_zero_iff
  proof
    assume all: "\<forall>q \<in> set ps. \<forall>p \<in> set ps. snd p = fst q"
    have p: "p \<in> set ps" using Cons by simp
    have "q = (fst p, fst p)" if q: "q \<in> set ps" for q
      using all [rule_format, OF p q] all [rule_format, OF q p] all [rule_format, OF p p]
      by (simp add: prod_eq_iff)
    then show "\<exists>l. \<forall>p \<in> set ps. p = (l, l)" by blast
  next
    assume "\<exists>l. \<forall>p \<in> set ps. p = (l, l)"
    then obtain l where l: "\<And>p. p \<in> set ps \<Longrightarrow> p = (l, l)" by blast
    show "\<forall>q \<in> set ps. \<forall>p \<in> set ps. snd p = fst q"
    proof (intro ballI)
      fix q p assume "q \<in> set ps" and "p \<in> set ps"
      then show "snd p = fst q" using l [of p] l [of q] by simp
    qed
  qed
qed (simp add: single_category_def cross_disagreement_def)

lemma cross_large:
  assumes "cross_disagreement ps \<noteq> 0"
  shows "length ps \<le> cross_disagreement ps"
proof (cases "\<exists>k. right_count ps k = length ps")
  case True
  obtain l where l: "l \<in> labels_of ps" "left_count ps l * (length ps - right_count ps l) \<noteq> 0"
    using assms unfolding cross_disagreement_def by (metis (no_types, lifting) sum.neutral)
  obtain k where "\<forall>p \<in> set ps. snd p = k" using True right_count_all by blast
  moreover have "k \<noteq> l" using l calculation right_count_all [of ps l] by auto
  ultimately have "right_count ps l = 0" using right_count_pos [of ps l] by auto
  then have "length ps \<le> left_count ps l * (length ps - right_count ps l)"
    using l by (cases "left_count ps l") auto
  also have "\<dots> \<le> cross_disagreement ps"
    unfolding cross_disagreement_def by (rule member_le_sum) (use l in auto)
  finally show ?thesis .
next
  case False
  then have "left_count ps l * 1 \<le> left_count ps l * (length ps - right_count ps l)" for l
    using right_count_le [of ps l] by (intro mult_le_mono2) (metis Suc_leI diff_is_0_eq le_antisym not_gr_zero One_nat_def)
  then have "sum (left_count ps) (labels_of ps) \<le> cross_disagreement ps"
    unfolding cross_disagreement_def by (intro sum_mono) simp
  then show ?thesis by (simp only: sum_left_count)
qed

lemma expected_confusion:
  "expected_agreement (confusion ps) =
     of_nat (\<Sum>l\<in>labels_of ps. left_count ps l * right_count ps l) / of_nat (length ps * length ps)"
proof -
  have "expected_agreement (confusion ps) =
      (\<Sum>l\<in>labels_of ps. of_nat (left_count ps l) / of_nat (length ps) * (of_nat (right_count ps l) / of_nat (length ps)))"
    unfolding expected_agreement_def
    by (simp add: sum_list_distinct_conv_sum_set labels_confusion left_count_def right_count_def)
  then show ?thesis by (simp add: sum_divide_distrib)
qed

lemma expected_complement:
  assumes "ps \<noteq> []"
  shows "1 - expected_agreement (confusion ps) = of_nat (cross_disagreement ps) / of_nat (length ps * length ps)"
proof -
  let ?s = "\<Sum>l\<in>labels_of ps. left_count ps l * right_count ps l"
  have "rat_of_nat (length ps * length ps) = of_nat ?s + of_nat (cross_disagreement ps)"
    unfolding of_nat_add [symmetric] cross_split ..
  moreover have "rat_of_nat (length ps * length ps) \<noteq> 0" using assms by simp
  ultimately show ?thesis
    unfolding expected_confusion by (simp only: diff_eq_eq add_divide_distrib [symmetric]) (simp add: add.commute)
qed

lemma isclose_one:
  assumes "0 \<le> e" and "e \<le> 1"
  shows "isclose e 1 \<longleftrightarrow> 1 - e \<le> 1 / 10 ^ 9"
  using assms by (simp add: isclose_def)

lemma expected_bounds:
  assumes "ps \<noteq> []"
  shows "0 \<le> expected_agreement (confusion ps)" "expected_agreement (confusion ps) \<le> 1"
proof -
  show "0 \<le> expected_agreement (confusion ps)"
    unfolding expected_confusion by (intro divide_nonneg_nonneg of_nat_0_le_iff)
  have "0 \<le> 1 - expected_agreement (confusion ps)"
    unfolding expected_complement [OF assms] by (intro divide_nonneg_nonneg of_nat_0_le_iff)
  then show "expected_agreement (confusion ps) \<le> 1" by simp
qed

lemma kappa_None:
  assumes "length ps < 10 ^ 9"
  shows "cohens_kappa (confusion ps) = None \<longleftrightarrow> length ps < 2 \<or> single_category ps"
proof (cases "length ps < 2")
  case False
  then have ps: "ps \<noteq> []" by auto
  let ?n = "length ps" and ?d = "cross_disagreement ps"
  have n: "0 < rat_of_nat ?n" using ps by simp
  have "cohens_kappa (confusion ps) = None \<longleftrightarrow> rat_of_nat ?d / of_nat (?n * ?n) \<le> 1 / 10 ^ 9"
    using False by (simp add: cohens_kappa_def Let_def isclose_one [OF expected_bounds [OF ps]] expected_complement [OF ps])
  also have "\<dots> \<longleftrightarrow> ?d = 0"
  proof
    assume le: "rat_of_nat ?d / of_nat (?n * ?n) \<le> 1 / 10 ^ 9"
    show "?d = 0"
    proof (rule ccontr)
      assume "?d \<noteq> 0"
      then have "rat_of_nat ?n \<le> of_nat ?d" using cross_large [of ps] unfolding of_nat_le_iff by blast
      then have "1 / rat_of_nat ?n \<le> of_nat ?d / of_nat (?n * ?n)"
        using n by (simp add: divide_simps)
      then have "1 / rat_of_nat ?n \<le> 1 / 10 ^ 9" using le by (rule order_trans)
      then have "10 ^ 9 \<le> rat_of_nat ?n" using n by (simp add: divide_simps)
      then have "rat_of_nat (10 ^ 9) \<le> rat_of_nat ?n" by simp
      then show False using assms by (simp only: of_nat_le_iff)
    qed
  qed simp
  finally show ?thesis using False by (simp add: single_category_cross)
qed (simp add: cohens_kappa_def)

section \<open>Alpha\<close>

lemma coincidences_fold:
  "distinct (map fst d) \<Longrightarrow>
   (let d' = fold (\<lambda>((left, right), c) d. add_count (right, left) c (add_count (left, right) c d)) counts d in
    distinct (map fst d') \<and>
    sum_counts P d' = sum_counts P d + sum_counts P counts + sum_counts (\<lambda>(a, b). P (b, a)) counts)"
proof (induction counts arbitrary: d)
  case (Cons p counts)
  obtain a b c where p: "p = ((a, b), c)" by (metis surj_pair)
  have d: "distinct (map fst (add_count (b, a) c (add_count (a, b) c d)))"
    using Cons.prems by (simp add: distinct_add_count)
  show ?case
    using Cons.IH [OF d] Cons.prems
    by (simp add: p Let_def sum_counts_update distinct_add_count) (simp add: sum_counts_def)
qed (simp add: sum_counts_def)

lemma sum_coincidences:
  "sum_counts P (coincidences (cm_counts (confusion ps))) =
     length (filter P ps) + length (filter (\<lambda>(a, b). P (b, a)) ps)"
  using coincidences_fold [of "[]" "cm_counts (confusion ps)" P]
  by (simp add: coincidences_def Let_def sum_counts_def [of _ "[]"])

definition label_count :: "(string \<times> string) list \<Rightarrow> string \<Rightarrow> nat" where
  "label_count ps l = left_count ps l + right_count ps l"

lemma coincidence_marginal:
  "sum_counts (\<lambda>(a, _). a = l) (coincidences (cm_counts (confusion ps))) = label_count ps l"
  by (simp add: sum_coincidences label_count_def left_count_def right_count_def case_prod_beta')

lemma coincidence_disagreement:
  "sum_counts (\<lambda>(a, b). a \<noteq> b) (coincidences (cm_counts (confusion ps))) =
     2 * length (filter (\<lambda>(a, b). a \<noteq> b) ps)"
proof -
  have "(\<lambda>(a, b). case (b, a) of (a, b) \<Rightarrow> a \<noteq> b) = (\<lambda>(a :: string, b). a \<noteq> b)" by auto
  then show ?thesis by (simp add: sum_coincidences)
qed

lemma label_count_pos: "l \<in> labels_of ps \<Longrightarrow> 0 < label_count ps l"
  unfolding label_count_def using left_count_pos [of ps l] right_count_pos [of ps l] by (elim UnE) simp_all

definition expected_disagreement :: "(string \<times> string) list \<Rightarrow> nat" where
  "expected_disagreement ps =
     sum_list (map (\<lambda>(a, b). label_count ps a * label_count ps b)
       (filter (\<lambda>(a, b). a \<noteq> b) (List.product (cm_labels (confusion ps)) (cm_labels (confusion ps)))))"

lemma single_category_labels:
  "single_category ps \<longleftrightarrow> (\<forall>a \<in> labels_of ps. \<forall>b \<in> labels_of ps. a = b)"
proof
  assume "single_category ps"
  then obtain l where l: "\<And>p. p \<in> set ps \<Longrightarrow> p = (l, l)" unfolding single_category_iff by blast
  have l': "a = l" if "a \<in> labels_of ps" for a
    using that by (elim UnE imageE) (auto dest: l)
  show "\<forall>a \<in> labels_of ps. \<forall>b \<in> labels_of ps. a = b"
  proof (intro ballI)
    fix a b assume "a \<in> labels_of ps" and "b \<in> labels_of ps"
    then show "a = b" using l' [of a] l' [of b] by simp
  qed
next
  assume all: "\<forall>a \<in> labels_of ps. \<forall>b \<in> labels_of ps. a = b"
  have "snd p = fst q" if "p \<in> set ps" "q \<in> set ps" for p q
    by (rule all [rule_format]) (use that in auto)
  then show "single_category ps" unfolding single_category_cross cross_zero_iff by blast
qed

lemma split_paired_Ball: "(\<forall>x \<in> A. P x) \<longleftrightarrow> (\<forall>a b. (a, b) \<in> A \<longrightarrow> P (a, b))"
  by auto

lemma sum_product_zero:
  fixes f :: "'a \<Rightarrow> nat"
  shows "sum_list (map (\<lambda>(a, b). f a * f b) (filter (\<lambda>(a, b). a \<noteq> b) (List.product xs xs))) = 0 \<longleftrightarrow>
     (\<forall>a \<in> set xs. \<forall>b \<in> set xs. a \<noteq> b \<longrightarrow> f a * f b = 0)"
proof -
  have *: "(a, b) \<in> set (filter (\<lambda>(a, b). a \<noteq> b) (List.product xs xs)) \<longleftrightarrow>
      a \<in> set xs \<and> b \<in> set xs \<and> a \<noteq> b" for a b
    by auto
  show ?thesis
    unfolding sum_list_eq_0_iff list.set_map ball_simps(9) split_paired_Ball * prod.case by blast
qed

lemma positive_products:
  fixes f :: "'a \<Rightarrow> nat"
  assumes "\<And>l. l \<in> S \<Longrightarrow> 0 < f l"
  shows "(\<forall>a \<in> S. \<forall>b \<in> S. a \<noteq> b \<longrightarrow> f a * f b = 0) \<longleftrightarrow> (\<forall>a \<in> S. \<forall>b \<in> S. a = b)"
  using assms by fastforce

lemma expected_disagreement_zero: "expected_disagreement ps = 0 \<longleftrightarrow> single_category ps"
proof -
  have "expected_disagreement ps = 0 \<longleftrightarrow>
      (\<forall>a \<in> labels_of ps. \<forall>b \<in> labels_of ps. a \<noteq> b \<longrightarrow> label_count ps a * label_count ps b = 0)"
    unfolding expected_disagreement_def sum_product_zero labels_confusion ..
  also have "\<dots> \<longleftrightarrow> (\<forall>a \<in> labels_of ps. \<forall>b \<in> labels_of ps. a = b)"
    by (rule positive_products) (rule label_count_pos)
  finally show ?thesis by (simp only: single_category_labels)
qed

lemma alpha_confusion:
  "krippendorffs_alpha (confusion ps) =
     (if length ps < 2 \<or> single_category ps then None
      else Some (1 - of_nat ((2 * length ps - 1) * (2 * length (filter (\<lambda>(a, b). a \<noteq> b) ps))) /
                     of_nat (expected_disagreement ps)))"
proof -
  have "sum_list (map snd (coincidences (cm_counts (confusion ps)))) = 2 * length ps"
    by (simp add: total_counts sum_coincidences case_prod_beta')
  then show ?thesis
    unfolding krippendorffs_alpha_def Let_def coincidence_marginal coincidence_disagreement
      expected_disagreement_def [symmetric] expected_disagreement_zero total_confusion
    by simp
qed

section \<open>What the coefficients say\<close>

lemma agreements_confusion: "agreements (confusion ps) = length (filter (\<lambda>(a, b). a = b) ps)"
  by (simp add: agreements_def)

lemma observed_one:
  assumes "ps \<noteq> []"
  shows "observed_agreement (confusion ps) \<le> 1"
    "observed_agreement (confusion ps) = 1 \<longleftrightarrow> list_all (\<lambda>(a, b). a = b) ps"
  using assms by (simp_all add: observed_agreement_def agreements_confusion divide_le_eq divide_eq_eq
      length_filter_all list_all_iff)

lemma kappa_Some:
  assumes "cohens_kappa (confusion ps) = Some k"
  shows "k \<le> 1" "k = 1 \<longleftrightarrow> list_all (\<lambda>(a, b). a = b) ps"
proof -
  let ?o = "observed_agreement (confusion ps)" and ?e = "expected_agreement (confusion ps)"
  have ps: "ps \<noteq> []" and k: "k = (?o - ?e) / (1 - ?e)" and c: "\<not> isclose ?e 1"
    using assms by (auto simp: cohens_kappa_def Let_def split: if_splits)
  have "0 < 1 - ?e" using c by (simp add: isclose_one [OF expected_bounds [OF ps]])
  then show "k \<le> 1" "k = 1 \<longleftrightarrow> list_all (\<lambda>(a, b). a = b) ps"
    using observed_one [OF ps] by (auto simp: k divide_le_eq divide_eq_eq)
qed

lemma alpha_Some:
  assumes "krippendorffs_alpha (confusion ps) = Some k"
  shows "k \<le> 1" "k = 1 \<longleftrightarrow> list_all (\<lambda>(a, b). a = b) ps"
proof -
  let ?d = "(2 * length ps - 1) * (2 * length (filter (\<lambda>(a, b). a \<noteq> b) ps))"
  have k: "k = 1 - of_nat ?d / of_nat (expected_disagreement ps)"
    and pos: "expected_disagreement ps \<noteq> 0" and n: "2 \<le> length ps"
    using assms expected_disagreement_zero [of ps] by (auto simp: alpha_confusion split: if_splits)
  show "k \<le> 1" unfolding k by (simp only: diff_le_eq le_add_same_cancel1) (intro divide_nonneg_nonneg of_nat_0_le_iff)
  have "k = 1 \<longleftrightarrow> ?d = 0" unfolding k using pos by (simp only: diff_eq_eq of_nat_eq_0_iff) simp
  also have "\<dots> \<longleftrightarrow> filter (\<lambda>(a, b). a \<noteq> b) ps = []" using n by auto
  finally show "k = 1 \<longleftrightarrow> list_all (\<lambda>(a, b). a = b) ps"
    by (simp add: filter_empty_conv list_all_iff case_prod_beta')
qed

lemma swapped_counts:
  "left_count (map prod.swap ps) l = right_count ps l" "right_count (map prod.swap ps) l = left_count ps l"
  "labels_of (map prod.swap ps) = labels_of ps"
  by (auto simp: left_count_def right_count_def filter_map comp_def case_prod_beta' image_image)

lemma kappa_swap: "cohens_kappa (confusion (map prod.swap ps)) = cohens_kappa (confusion ps)"
proof -
  have "expected_agreement (confusion (map prod.swap ps)) = expected_agreement (confusion ps)"
    unfolding expected_confusion swapped_counts by (simp add: mult.commute)
  moreover have "observed_agreement (confusion (map prod.swap ps)) = observed_agreement (confusion ps)"
  proof -
    have "(\<lambda>(a, b). a = b) \<circ> prod.swap = (\<lambda>(a :: string, b). a = b)" by auto
    then show ?thesis by (simp add: observed_agreement_def agreements_confusion filter_map)
  qed
  ultimately show ?thesis by (simp add: cohens_kappa_def)
qed

text \<open>
  The chance-corrected coefficients. Neither ever exceeds 1, each is 1 exactly when every matched
  pair carries the same label, and exchanging the two annotators does not change kappa.
\<close>

theorem coefficients_perfect:
  "pred_option (\<lambda>k. k \<le> 1 \<and> (k = 1 \<longleftrightarrow> list_all (\<lambda>(a, b). a = b) ps)) (cohens_kappa (confusion ps)) \<and>
   pred_option (\<lambda>k. k \<le> 1 \<and> (k = 1 \<longleftrightarrow> list_all (\<lambda>(a, b). a = b) ps)) (krippendorffs_alpha (confusion ps)) \<and>
   cohens_kappa (confusion (map prod.swap ps)) = cohens_kappa (confusion ps)"
proof (intro conjI kappa_swap)
  show "pred_option (\<lambda>k. k \<le> 1 \<and> (k = 1 \<longleftrightarrow> list_all (\<lambda>(a, b). a = b) ps)) (cohens_kappa (confusion ps))"
    using kappa_Some [of ps] by (cases "cohens_kappa (confusion ps)") simp_all
  show "pred_option (\<lambda>k. k \<le> 1 \<and> (k = 1 \<longleftrightarrow> list_all (\<lambda>(a, b). a = b) ps)) (krippendorffs_alpha (confusion ps))"
    using alpha_Some [of ps] by (cases "krippendorffs_alpha (confusion ps)") simp_all
qed

text \<open>
  Both coefficients are undefined on the same samples: fewer than two matched pairs, or every
  judgement in a single category. The closeness test of kappa adds no other case below a thousand
  million pairs.
\<close>

theorem coefficients_undefined:
  assumes "length ps < 10 ^ 9"
  shows "(cohens_kappa (confusion ps) = None \<longleftrightarrow> length ps < 2 \<or> single_category ps) \<and>
         (krippendorffs_alpha (confusion ps) = None \<longleftrightarrow> length ps < 2 \<or> single_category ps)"
  by (simp add: kappa_None [OF assms] alpha_confusion)

theorem coefficients_undefined_witness:
  "cohens_kappa (confusion [(''silent_pause'', ''silent_pause''), (''silent_pause'', ''cut_off'')]) \<noteq> None"
  using coefficients_undefined [of "[(''silent_pause'', ''silent_pause''), (''silent_pause'', ''cut_off'')]"]
  by (simp add: single_category_def)

section \<open>Percentiles\<close>

lemma sorted_counts:
  assumes "sorted ys" and "i < length ys"
  shows "Suc i \<le> length (filter (\<lambda>x. x \<le> ys ! i) ys)" "length (filter (\<lambda>x. x < ys ! i) ys) \<le> i"
proof -
  have "length (filter (\<lambda>x. x \<le> ys ! i) (take (Suc i) ys)) = length (take (Suc i) ys)"
    unfolding length_filter_all
    using assms by (auto simp: in_set_conv_nth intro!: sorted_nth_mono)
  then show "Suc i \<le> length (filter (\<lambda>x. x \<le> ys ! i) ys)"
    using assms(2) filter_append [of "\<lambda>x. x \<le> ys ! i" "take (Suc i) ys" "drop (Suc i) ys"] by simp
  have "filter (\<lambda>x. x < ys ! i) (drop i ys) = []"
    using assms by (auto simp: filter_empty_conv in_set_conv_nth not_less intro!: sorted_nth_mono)
  then show "length (filter (\<lambda>x. x < ys ! i) ys) \<le> i"
    using assms(2) filter_append [of "\<lambda>x. x < ys ! i" "take i ys" "drop i ys"]
      length_filter_le [of "\<lambda>x. x < ys ! i" "take i ys"] by simp
qed

lemma filter_sort_length: "length (filter P (sort xs)) = length (filter P xs)"
  by (metis mset_filter mset_sort size_mset)

lemma percentile_Some:
  assumes "values \<noteq> []" and "0 < p" and "p \<le> 100"
  shows "\<exists>x. percentile values p = Some (of_int x) \<and> x \<in> set values \<and>
     of_int p / 100 * rat_of_nat (length values) \<le> of_nat (length (filter (\<lambda>y. y \<le> x) values)) \<and>
     of_nat (length (filter (\<lambda>y. y < x) values)) < of_int p / 100 * rat_of_nat (length values)"
proof -
  let ?n = "length values" and ?q = "of_int p / 100 * rat_of_nat (length values)"
  let ?r = "\<lceil>?q\<rceil>" and ?i = "nat (\<lceil>of_int p / 100 * rat_of_nat (length values)\<rceil> - 1)"
  have q: "0 < ?q" "?q \<le> of_nat ?n" using assms by (simp_all add: mult_le_cancel_right1)
  have r: "1 \<le> ?r" "?r \<le> int ?n" using q by (simp_all add: less_ceiling_iff ceiling_le_iff int_one_le_iff_zero_less)
  have i: "?i < ?n" "int ?i = ?r - 1" using r by linarith+
  let ?x = "sort values ! ?i"
  have x: "percentile values p = Some (of_int ?x)"
    using assms(1) by (simp only: percentile_def Let_def if_False length_sort max_absorb1 [OF r(1)])
  have "?x \<in> set values" using i by (metis length_sort nth_mem set_sort)
  moreover have "?q \<le> of_nat (length (filter (\<lambda>y. y \<le> ?x) values))"
  proof -
    have "?r \<le> int (length (filter (\<lambda>y. y \<le> ?x) values))"
      using sorted_counts(1) [of "sort values" ?i] i by (simp add: filter_sort_length)
    then show ?thesis by (simp add: ceiling_le_iff)
  qed
  moreover have "of_nat (length (filter (\<lambda>y. y < ?x) values)) < ?q"
  proof -
    have "int (length (filter (\<lambda>y. y < ?x) values)) < ?r"
      using sorted_counts(2) [OF sorted_sort, of ?i "values"] i
      unfolding filter_sort_length length_sort by linarith
    then show ?thesis by (simp add: less_ceiling_iff)
  qed
  ultimately show ?thesis using x by blast
qed

text \<open>
  The reported 95th percentile of the start errors is the nearest rank: an error that was measured,
  with at least 95 percent of the errors at or below it and less than 95 percent below it. It is
  missing only for an empty sample.
\<close>

theorem p95_nearest_rank:
  "case p95_start_ms b of
     None \<Rightarrow> be_start_errors_ms b = []
   | Some v \<Rightarrow> \<exists>x. v = of_int x \<and> x \<in> set (be_start_errors_ms b) \<and>
       95 / 100 * rat_of_nat (boundary_count b) \<le> of_nat (length (filter (\<lambda>y. y \<le> x) (be_start_errors_ms b))) \<and>
       of_nat (length (filter (\<lambda>y. y < x) (be_start_errors_ms b))) < 95 / 100 * rat_of_nat (boundary_count b)"
  using percentile_Some [of "be_start_errors_ms b" 95]
  by (cases "be_start_errors_ms b = []") (auto simp: p95_start_ms_def boundary_count_def percentile_def [of "[]"])

end
