(* ===== verification/AgreementReport.thy ===== *)
theory AgreementReport
  imports Matching Measures
begin

text \<open>
  The agreement report over two annotations of one recording (\<open>corpus/agreement/report.py\<close>): matching,
  boundary errors, coefficients, and the figures of every class and role. The text of a note is not
  modelled; which condition it reports is.
\<close>

definition WATCHED_CLASSES :: "speech_event_type list" where
  "WATCHED_CLASSES = [FALSE_START, SELF_REPAIR, LEXICAL_FILLER]"

definition MismatchedRecordings :: exn where
  "MismatchedRecordings = OtherError ''MismatchedRecordings''"

record class_agreement =
  ca_event_type :: string
  ca_both :: nat
  ca_left_only :: nat
  ca_right_only :: nat
  ca_specific_agreement :: "rat option"

datatype report_note = DIFFERENT_TAXONOMY_VERSIONS | FEW_MATCHED_EVENTS | NOTHING_MATCHED

record agreement_report =
  rp_recording_id :: string
  rp_left_annotator :: string
  rp_right_annotator :: string
  rp_criterion :: match_criterion
  rp_threshold :: rat
  rp_matched :: nat
  rp_left_only :: nat
  rp_right_only :: nat
  rp_positive_specific_agreement :: rat
  rp_boundary :: boundary_error
  rp_class_kappa :: "rat option"
  rp_class_alpha :: "rat option"
  rp_class_confusion :: confusion_matrix
  rp_per_class :: "class_agreement list"
  rp_role_kappa :: "rat option"
  rp_role_confusion :: confusion_matrix
  rp_role_agreement :: "class_agreement list"
  rp_left_uncertain :: nat
  rp_right_uncertain :: nat
  rp_notes :: "report_note list"

definition total_annotations :: "agreement_report \<Rightarrow> nat" where
  "total_annotations r = rp_matched r * 2 + rp_left_only r + rp_right_only r"

definition watched :: "agreement_report \<Rightarrow> class_agreement list" where
  "watched r = filter (\<lambda>c. ca_event_type c \<in> set (map speech_type_value WATCHED_CLASSES)) (rp_per_class r)"

section \<open>The parts of the report\<close>

definition boundary_error_of :: "matching \<Rightarrow> boundary_error" where
  "boundary_error_of m =
     \<lparr>be_start_errors_ms = map start_error_ms (mt_pairs m), be_end_errors_ms = map end_error_ms (mt_pairs m)\<rparr>"

text \<open>The dictionary of unmatched events per class: \<open>d[key] = d.get(key, 0) + 1\<close>.\<close>

definition tally :: "disfluency_annotation list \<Rightarrow> (string \<times> nat) list" where
  "tally as = fold (\<lambda>a d. let key = speech_type_value (da_event_type a) in
     AList.update key ((case map_of d key of None \<Rightarrow> 0 | Some n \<Rightarrow> n) + 1) d) as []"

definition tally_of :: "(string \<times> nat) list \<Rightarrow> string \<Rightarrow> nat" where
  "tally_of d key = (case map_of d key of None \<Rightarrow> 0 | Some n \<Rightarrow> n)"

definition per_class :: "confusion_matrix \<Rightarrow> matching \<Rightarrow> class_agreement list" where
  "per_class matrix m =
     (let unmatched_left = tally (mt_left_only m); unmatched_right = tally (mt_right_only m);
          labels = sorted_list_of_set
            (set (cm_labels matrix) \<union> set (map fst unmatched_left) \<union> set (map fst unmatched_right))
      in map (\<lambda>label.
           case for_label matrix label of (both, left_only, right_only) \<Rightarrow>
             let left_total = left_only + tally_of unmatched_left label;
                 right_total = right_only + tally_of unmatched_right label;
                 denominator = 2 * both + left_total + right_total
             in \<lparr>ca_event_type = label, ca_both = both, ca_left_only = left_total, ca_right_only = right_total,
                 ca_specific_agreement =
                   (if denominator \<noteq> 0 then Some (of_nat (2 * both) / of_nat denominator) else None)\<rparr>) labels)"

definition role_label :: "contextual_role option \<Rightarrow> string" where
  "role_label role = (case role of Some r \<Rightarrow> role_value r | None \<Rightarrow> ''none'')"

definition role_agreement :: "confusion_matrix \<Rightarrow> class_agreement list" where
  "role_agreement matrix =
     map (\<lambda>label.
       \<lparr>ca_event_type = label, ca_both = fst (for_label matrix label),
        ca_left_only = fst (snd (for_label matrix label)), ca_right_only = snd (snd (for_label matrix label)),
        ca_specific_agreement = specific_agreement matrix label\<rparr>) (cm_labels matrix)"

definition report_notes :: "annotated_recording \<Rightarrow> annotated_recording \<Rightarrow> matching \<Rightarrow> report_note list" where
  "report_notes left right m =
     (if ar_taxonomy_version left \<noteq> ar_taxonomy_version right then [DIFFERENT_TAXONOMY_VERSIONS] else []) @
     (if matched_count m < 20 then [FEW_MATCHED_EVENTS] else []) @
     (if matched_count m = 0 \<and> (mt_left_only m \<noteq> [] \<or> mt_right_only m \<noteq> []) then [NOTHING_MATCHED] else [])"

definition class_pairs :: "matching \<Rightarrow> (string \<times> string) list" where
  "class_pairs m = map (\<lambda>p. (speech_type_value (da_event_type (mp_left p)),
     speech_type_value (da_event_type (mp_right p)))) (mt_pairs m)"

definition role_pairs :: "matching \<Rightarrow> (string \<times> string) list" where
  "role_pairs m = map (\<lambda>p. (role_label (da_context_role (mp_left p)), role_label (da_context_role (mp_right p))))
     (filter (\<lambda>p. da_context_role (mp_left p) \<noteq> None \<or> da_context_role (mp_right p) \<noteq> None) (mt_pairs m))"

definition compare ::
  "annotated_recording \<Rightarrow> annotated_recording \<Rightarrow> match_criterion \<Rightarrow> rat \<Rightarrow> int \<Rightarrow> agreement_report result" where
  "compare left right criterion iou_threshold tolerance_ms =
     (if ar_recording_id left \<noteq> ar_recording_id right then Inl MismatchedRecordings
      else if ar_annotator_id left = ar_annotator_id right then Inl MismatchedRecordings
      else
        let m = match_annotations criterion iou_threshold tolerance_ms (ar_disfluencies left) (ar_disfluencies right);
            class_matrix = confusion (class_pairs m);
            role_matrix = confusion (role_pairs m)
        in Inr \<lparr>rp_recording_id = ar_recording_id left,
             rp_left_annotator = ar_annotator_id left, rp_right_annotator = ar_annotator_id right,
             rp_criterion = mt_criterion m, rp_threshold = mt_threshold m,
             rp_matched = matched_count m,
             rp_left_only = length (mt_left_only m), rp_right_only = length (mt_right_only m),
             rp_positive_specific_agreement = positive_specific_agreement m,
             rp_boundary = boundary_error_of m,
             rp_class_kappa = cohens_kappa class_matrix, rp_class_alpha = krippendorffs_alpha class_matrix,
             rp_class_confusion = class_matrix, rp_per_class = per_class class_matrix m,
             rp_role_kappa = cohens_kappa role_matrix, rp_role_confusion = role_matrix,
             rp_role_agreement = role_agreement role_matrix,
             rp_left_uncertain = uncertain_count left, rp_right_uncertain = uncertain_count right,
             rp_notes = report_notes left right m\<rparr>)"

section \<open>Every annotation is in the figures of its class\<close>

definition class_count :: "string \<Rightarrow> disfluency_annotation list \<Rightarrow> nat" where
  "class_count label as = length (filter (\<lambda>a. speech_type_value (da_event_type a) = label) as)"

lemma tally_fold:
  "tally_of (fold (\<lambda>a d. let key = speech_type_value (da_event_type a) in
     AList.update key ((case map_of d key of None \<Rightarrow> 0 | Some n \<Rightarrow> n) + 1) d) as d) l = tally_of d l + class_count l as"
  by (induction as arbitrary: d) (auto simp: tally_of_def class_count_def Let_def)

lemma tally_of_tally [simp]: "tally_of (tally as) l = class_count l as"
  unfolding tally_def tally_fold by (simp add: tally_of_def)

lemma keys_tally_fold:
  "fst ` set (fold (\<lambda>a d. let key = speech_type_value (da_event_type a) in
     AList.update key ((case map_of d key of None \<Rightarrow> 0 | Some n \<Rightarrow> n) + 1) d) as d) =
   fst ` set d \<union> (\<lambda>a. speech_type_value (da_event_type a)) ` set as"
  by (induction as arbitrary: d) (auto simp: Let_def dom_update [unfolded dom_map_of_conv_image_fst])

lemma keys_tally: "set (map fst (tally as)) = (\<lambda>a. speech_type_value (da_event_type a)) ` set as"
  unfolding tally_def list.set_map keys_tally_fold by simp

lemma class_count_mset: "mset as + mset bs = mset cs \<Longrightarrow> class_count l as + class_count l bs = class_count l cs"
  unfolding class_count_def by (metis filter_union_mset mset_filter size_mset size_union)

lemma class_count_pos: "class_count l as \<noteq> 0 \<longleftrightarrow> l \<in> (\<lambda>a. speech_type_value (da_event_type a)) ` set as"
  by (force simp: class_count_def filter_empty_conv)

lemma label_figures:
  "case for_label (confusion ps) l of (both, lo, ro) \<Rightarrow>
     2 * both + lo + ro = left_count ps l + right_count ps l"
proof -
  have "left_count ps l = length (filter (\<lambda>p. p = (l, l)) ps) + length (filter (\<lambda>(a, b). a = l \<and> b \<noteq> l) ps)"
    "right_count ps l = length (filter (\<lambda>p. p = (l, l)) ps) + length (filter (\<lambda>(a, b). b = l \<and> a \<noteq> l) ps)"
    unfolding left_count_def right_count_def by (induction ps) auto
  then show ?thesis by (simp add: for_label_confusion)
qed

lemma pair_class_counts:
  "left_count (class_pairs m) l = class_count l (map mp_left (mt_pairs m))"
  "right_count (class_pairs m) l = class_count l (map mp_right (mt_pairs m))"
  by (simp_all add: left_count_def right_count_def class_pairs_def class_count_def filter_map comp_def)

definition figures_total :: "class_agreement \<Rightarrow> nat" where
  "figures_total c = 2 * ca_both c + ca_left_only c + ca_right_only c"

lemma per_class_figures:
  assumes "c \<in> set (per_class (confusion (class_pairs m)) m)"
  shows "figures_total c = class_count (ca_event_type c) (map mp_left (mt_pairs m)) +
      class_count (ca_event_type c) (mt_left_only m) + (class_count (ca_event_type c) (map mp_right (mt_pairs m)) +
      class_count (ca_event_type c) (mt_right_only m))"
    "ca_specific_agreement c = (if figures_total c \<noteq> 0
       then Some (of_nat (2 * ca_both c) / of_nat (figures_total c)) else None)"
  using assms label_figures [of "class_pairs m" "ca_event_type c"]
  by (auto simp: per_class_def Let_def figures_total_def pair_class_counts split: prod.splits)

abbreviation class_of :: "disfluency_annotation \<Rightarrow> string" where
  "class_of a \<equiv> speech_type_value (da_event_type a)"

lemma per_class_labels:
  "map ca_event_type (per_class (confusion (class_pairs m)) m) =
     sorted_list_of_set (class_of ` (set (map mp_left (mt_pairs m)) \<union> set (mt_left_only m)) \<union>
       class_of ` (set (map mp_right (mt_pairs m)) \<union> set (mt_right_only m)))"
proof -
  have "map ca_event_type (per_class (confusion (class_pairs m)) m) =
      sorted_list_of_set (set (cm_labels (confusion (class_pairs m))) \<union>
        set (map fst (tally (mt_left_only m))) \<union> set (map fst (tally (mt_right_only m))))"
    by (simp add: per_class_def Let_def comp_def case_prod_beta')
  also have "set (cm_labels (confusion (class_pairs m))) \<union> set (map fst (tally (mt_left_only m))) \<union>
        set (map fst (tally (mt_right_only m))) =
      class_of ` (set (map mp_left (mt_pairs m)) \<union> set (mt_left_only m)) \<union>
      class_of ` (set (map mp_right (mt_pairs m)) \<union> set (mt_right_only m))"
    unfolding labels_confusion keys_tally class_pairs_def by (auto simp: image_iff)
  finally show ?thesis .
qed

lemma partition_set: "mset as + mset bs = mset cs \<Longrightarrow> set as \<union> set bs = set cs"
  by (metis set_mset_mset set_mset_union)

lemma sum_class_count:
  assumes "finite S" and "class_of ` set as \<subseteq> S"
  shows "(\<Sum>l\<in>S. class_count l as) = length as"
proof -
  have "(\<Sum>l\<in>S. class_count l as) = length (filter (\<lambda>a. class_of a \<in> S) as)"
    unfolding class_count_def by (rule sum_filter_classes [OF assms(1)])
  also have "filter (\<lambda>a. class_of a \<in> S) as = as" using assms(2) by (intro filter_True) auto
  finally show ?thesis .
qed

lemma per_class_match:
  fixes criterion thr tol left right
  defines "m \<equiv> match_annotations criterion thr tol left right"
  shows "map ca_event_type (per_class (confusion (class_pairs m)) m) =
      sorted_list_of_set (class_of ` (set left \<union> set right))"
    and "c \<in> set (per_class (confusion (class_pairs m)) m) \<Longrightarrow>
      figures_total c = class_count (ca_event_type c) left + class_count (ca_event_type c) right \<and>
      ca_specific_agreement c = Some (of_nat (2 * ca_both c) / of_nat (figures_total c))"
    and "sum_list (map figures_total (per_class (confusion (class_pairs m)) m)) = length left + length right"
proof -
  let ?pc = "per_class (confusion (class_pairs m)) m" and ?S = "class_of ` (set left \<union> set right)"
  note part = match_annotations_partition(1,2) [of criterion thr tol left right, folded m_def]
  show labels: "map ca_event_type ?pc = sorted_list_of_set ?S"
    unfolding per_class_labels partition_set [OF part(1)] partition_set [OF part(2)] image_Un ..
  have total: "figures_total c = class_count (ca_event_type c) left + class_count (ca_event_type c) right"
    if "c \<in> set ?pc" for c
    unfolding per_class_figures(1) [OF that] class_count_mset [OF part(1)] class_count_mset [OF part(2)] ..
  have used: "figures_total c \<noteq> 0" if c: "c \<in> set ?pc" for c
  proof -
    have "ca_event_type c \<in> set (map ca_event_type ?pc)" using c by simp
    then have "ca_event_type c \<in> ?S" unfolding labels by simp
    then show ?thesis
      unfolding total [OF c] using class_count_pos [of "ca_event_type c" left] class_count_pos [of "ca_event_type c" right]
      by (auto simp: image_Un)
  qed
  show "figures_total c = class_count (ca_event_type c) left + class_count (ca_event_type c) right \<and>
      ca_specific_agreement c = Some (of_nat (2 * ca_both c) / of_nat (figures_total c))" if "c \<in> set ?pc"
    using total [OF that] used [OF that] per_class_figures(2) [OF that] by simp
  have "sum_list (map figures_total ?pc) =
      sum_list (map (\<lambda>l. class_count l left + class_count l right) (map ca_event_type ?pc))"
    unfolding list.map_comp by (rule arg_cong [of _ _ sum_list], rule map_cong) (simp_all add: total)
  also have "\<dots> = (\<Sum>l\<in>?S. class_count l left) + (\<Sum>l\<in>?S. class_count l right)"
    unfolding labels by (simp add: sum_list_distinct_conv_sum_set sum.distrib)
  also have "\<dots> = length left + length right"
    by (simp add: sum_class_count image_mono)
  finally show "sum_list (map figures_total ?pc) = length left + length right" .
qed

lemma total_annotations_match:
  fixes criterion thr tol left right
  defines "m \<equiv> match_annotations criterion thr tol left right"
  shows "matched_count m * 2 + length (mt_left_only m) + length (mt_right_only m) = length left + length right"
  using match_annotations_partition(1,2) [of criterion thr tol left right, THEN arg_cong [of _ _ size], folded m_def]
  by (simp add: matched_count_def)

text \<open>
  C40: The report accounts for every annotation, class by class. It lists exactly the classes that either
  annotator used, in order; the figures of a class add up to what the two annotators marked with it,
  pairs with different classes and unmatched events included, so its agreement is defined; the
  classes add up to the whole. Comparison is refused only for different recordings or one annotator.
\<close>

theorem report_accounts:
  "case compare left right criterion thr tol of
     Inl e \<Rightarrow> e = MismatchedRecordings \<and>
       \<not> (ar_recording_id left = ar_recording_id right \<and> ar_annotator_id left \<noteq> ar_annotator_id right)
   | Inr r \<Rightarrow>
       map ca_event_type (rp_per_class r) =
         sorted_list_of_set (class_of ` (set (ar_disfluencies left) \<union> set (ar_disfluencies right))) \<and>
       list_all (\<lambda>c. figures_total c = class_count (ca_event_type c) (ar_disfluencies left) +
             class_count (ca_event_type c) (ar_disfluencies right) \<and>
           ca_specific_agreement c = Some (of_nat (2 * ca_both c) / of_nat (figures_total c))) (rp_per_class r) \<and>
       sum_list (map figures_total (rp_per_class r)) = total_annotations r \<and>
       total_annotations r = length (ar_disfluencies left) + length (ar_disfluencies right)"
proof (cases "ar_recording_id left = ar_recording_id right \<and> ar_annotator_id left \<noteq> ar_annotator_id right")
  case True
  note pc = per_class_match [where left = "ar_disfluencies left" and right = "ar_disfluencies right"
      and criterion = criterion and thr = thr and tol = tol]
  show ?thesis
    using True pc(1,3) pc(2) total_annotations_match [of criterion thr tol "ar_disfluencies left" "ar_disfluencies right"]
    by (simp add: compare_def Let_def total_annotations_def list_all_iff del: sorted_list_of_set_eq_Nil_iff)
qed (auto simp: compare_def)

text \<open>
  An adjudicated record is compared like any other: nothing in the comparison looks at the pass an
  annotation was made in.
\<close>

lemma compare_ignores_pass:
  "compare (left\<lparr>ar_annotation_pass := p\<rparr>) (right\<lparr>ar_annotation_pass := q\<rparr>) criterion thr tol =
   compare left right criterion thr tol"
  by (simp add: compare_def report_notes_def uncertain_count_def)

end
