(* ===== verification/Elan.thy ===== *)
theory Elan
  imports AnnotationValidation AgreementReport
begin

text \<open>
  ELAN files as annotations (\<open>corpus/io/elan.py\<close>) and the commands over them (\<open>corpus/cli/main.py\<close>).
  A file is its parsed element tree, or None where the XML parser refuses it; writing gives the
  element tree that is serialized. The tree navigation of \<open>xml.etree.ElementTree\<close> that the code uses
  (\<open>get\<close>, \<open>iterfind\<close>, \<open>findtext\<close>, \<open>SubElement\<close>) is defined here.
\<close>

datatype element =
  Element (tag: string) (attrib: "(string \<times> string) list") (text_of: "string option") (children: "element list")

definition get_attr :: "element \<Rightarrow> string \<Rightarrow> string option" where
  "get_attr e name = map_of (attrib e) name"

definition child_elements :: "string \<Rightarrow> element \<Rightarrow> element list" where
  "child_elements t e = filter (\<lambda>c. tag c = t) (children e)"

definition iterfind :: "string list \<Rightarrow> element \<Rightarrow> element list" where
  "iterfind path e = fold (\<lambda>t es. concat (map (child_elements t) es)) path [e]"

definition findtext :: "string \<Rightarrow> element \<Rightarrow> string" where
  "findtext t e =
     (case child_elements t e of [] \<Rightarrow> [] | c # _ \<Rightarrow> (case text_of c of None \<Rightarrow> [] | Some s \<Rightarrow> s))"

definition ElanError :: exn where
  "ElanError = OtherError ''ElanError''"

definition WORDS_TIER :: string where "WORDS_TIER = ''words''"
definition DISFLUENCY_TIER :: string where "DISFLUENCY_TIER = ''disfluency''"
definition ROLE_TIER :: string where "ROLE_TIER = ''role''"
definition TEXT_TIER :: string where "TEXT_TIER = ''text''"
definition NOTE_TIER :: string where "NOTE_TIER = ''note''"

definition PROP_ANNOTATOR :: string where "PROP_ANNOTATOR = ''annotator_id''"
definition PROP_SPEAKER :: string where "PROP_SPEAKER = ''speaker_pseudonym''"
definition PROP_PASS :: string where "PROP_PASS = ''annotation_pass''"
definition PROP_TAXONOMY :: string where "PROP_TAXONOMY = ''taxonomy_version''"
definition PROP_RECORDING :: string where "PROP_RECORDING = ''recording_id''"

lemmas elan_names = WORDS_TIER_def DISFLUENCY_TIER_def ROLE_TIER_def TEXT_TIER_def NOTE_TIER_def
  PROP_ANNOTATOR_def PROP_SPEAKER_def PROP_PASS_def PROP_TAXONOMY_def PROP_RECORDING_def

record elan_annotation =
  ea_annotation_id :: string
  ea_start_ms :: int
  ea_end_ms :: int
  ea_value :: string

section \<open>Reading\<close>

definition properties :: "element \<Rightarrow> (string \<times> string) list" where
  "properties doc =
     fold (\<lambda>e d. case get_attr e ''NAME'' of
              None \<Rightarrow> d
            | Some name \<Rightarrow> AList.update name (py_strip (case text_of e of None \<Rightarrow> [] | Some s \<Rightarrow> s)) d)
       (iterfind [''HEADER'', ''PROPERTY''] doc) []"

definition required_property :: "(string \<times> string) list \<Rightarrow> string \<Rightarrow> string result" where
  "required_property props name =
     (case map_of props name of
        None \<Rightarrow> Inl ElanError
      | Some v \<Rightarrow> if v = [] then Inl ElanError else Inr v)"

fun slots_of :: "element list \<Rightarrow> (string \<times> int) list \<Rightarrow> (string \<times> int) list result" where
  "slots_of [] d = Inr d"
| "slots_of (e # es) d =
     (case (get_attr e ''TIME_SLOT_ID'', get_attr e ''TIME_VALUE'') of
        (Some i, Some v) \<Rightarrow> (case py_int v of None \<Rightarrow> Inl ValueError | Some n \<Rightarrow> slots_of es (AList.update i n d))
      | _ \<Rightarrow> slots_of es d)"

definition time_slots :: "element \<Rightarrow> (string \<times> int) list result" where
  "time_slots doc = slots_of (iterfind [''TIME_ORDER'', ''TIME_SLOT''] doc) []"

definition tier_elements :: "element \<Rightarrow> string \<Rightarrow> string \<Rightarrow> element list" where
  "tier_elements doc tier_id kind =
     concat (map (iterfind [''ANNOTATION'', kind])
       (filter (\<lambda>t. get_attr t ''TIER_ID'' = Some tier_id) (iterfind [''TIER''] doc)))"

definition slot_ref :: "element \<Rightarrow> string \<Rightarrow> (string \<times> int) list \<Rightarrow> int option" where
  "slot_ref e name slots = map_of slots (case get_attr e name of None \<Rightarrow> [] | Some s \<Rightarrow> s)"

definition aligned :: "element \<Rightarrow> string \<Rightarrow> (string \<times> int) list \<Rightarrow> elan_annotation list result" where
  "aligned doc tier_id slots =
     bindR (mapR (\<lambda>e.
       case (get_attr e ''ANNOTATION_ID'', slot_ref e ''TIME_SLOT_REF1'' slots, slot_ref e ''TIME_SLOT_REF2'' slots) of
         (Some i, Some s, Some t) \<Rightarrow>
           Inr \<lparr>ea_annotation_id = i, ea_start_ms = s, ea_end_ms = t, ea_value = py_strip (findtext ''ANNOTATION_VALUE'' e)\<rparr>
       | _ \<Rightarrow> Inl ElanError) (tier_elements doc tier_id ''ALIGNABLE_ANNOTATION''))
     (\<lambda>found. Inr (sort_key (\<lambda>a. (ea_start_ms a, ea_end_ms a, ea_annotation_id a)) found))"

definition referenced :: "element \<Rightarrow> string \<Rightarrow> (string \<times> string) list" where
  "referenced doc tier_id =
     fold (\<lambda>e d. case get_attr e ''ANNOTATION_REF'' of
              None \<Rightarrow> d
            | Some r \<Rightarrow> AList.update r (py_strip (findtext ''ANNOTATION_VALUE'' e)) d)
       (tier_elements doc tier_id ''REF_ANNOTATION'') []"

definition get_text :: "(string \<times> string) list \<Rightarrow> string \<Rightarrow> string" where
  "get_text d k = (case map_of d k of None \<Rightarrow> [] | Some s \<Rightarrow> s)"

definition parse_role :: "string option \<Rightarrow> contextual_role option result" where
  "parse_role v =
     (case v of
        None \<Rightarrow> Inr None
      | Some s \<Rightarrow> if s = [] then Inr None
          else (case enum_of role_value contextual_roles s of None \<Rightarrow> Inl ElanError | Some r \<Rightarrow> Inr (Some r)))"

definition as_elan_error :: "'a result \<Rightarrow> 'a result" where
  "as_elan_error r = (case r of Inl e \<Rightarrow> Inl (if e = SchemaViolation then ElanError else e) | Inr x \<Rightarrow> Inr x)"

definition to_disfluency ::
  "string \<Rightarrow> (string \<times> string) list \<Rightarrow> (string \<times> string) list \<Rightarrow> (string \<times> string) list \<Rightarrow>
   elan_annotation \<Rightarrow> disfluency_annotation result" where
  "to_disfluency annotator_id roles texts notes item =
     (case enum_of speech_type_value speech_event_types (ea_value item) of
        None \<Rightarrow> Inl ElanError
      | Some event_type \<Rightarrow>
          bindR (parse_role (map_of roles (ea_annotation_id item))) (\<lambda>role.
          as_elan_error (bindR (Span (ea_start_ms item) (ea_end_ms item)) (\<lambda>interval.
            DisfluencyAnnotation
              \<lparr>da_event_type = event_type, da_interval = interval, da_annotator_id = annotator_id,
               da_raw_text = get_text texts (ea_annotation_id item), da_context_role = role,
               da_annotator_confidence = 1, da_note = get_text notes (ea_annotation_id item)\<rparr>))))"

definition elan_duration ::
  "(string \<times> int) list \<Rightarrow> word list \<Rightarrow> disfluency_annotation list \<Rightarrow> int result" where
  "elan_duration slots words disfluencies =
     (let candidates = (if slots = [] then 0 else Max (set (map snd slots))) #
            map (\<lambda>w. sp_end_ms (wd_interval w)) words @ map (\<lambda>a. sp_end_ms (da_interval a)) disfluencies;
          duration = Max (set candidates)
      in if duration \<le> 0 then Inl ElanError else Inr duration)"

definition elan_parse_version :: "string option \<Rightarrow> semantic_version option" where
  "elan_parse_version raw =
     (case raw of
        None \<Rightarrow> None
      | Some s \<Rightarrow> if s = [] then None else (case version_parse s of Inl _ \<Rightarrow> None | Inr v \<Rightarrow> Some v))"

definition pass_of :: "string \<Rightarrow> annotation_pass result" where
  "pass_of s =
     (case enum_of pass_value [FIRST, SECOND, ADJUDICATED] s of None \<Rightarrow> Inl ValueError | Some p \<Rightarrow> Inr p)"

definition word_of_item :: "elan_annotation \<Rightarrow> word result" where
  "word_of_item item = bindR (Span (ea_start_ms item) (ea_end_ms item)) (Word (ea_value item))"

text \<open>\<open>read(path)\<close>: the file's stem and its parsed root.\<close>

definition read_elan :: "string \<Rightarrow> element option \<Rightarrow> annotated_recording result" where
  "read_elan stem tree =
     (case tree of
        None \<Rightarrow> Inl ElanError
      | Some doc \<Rightarrow>
          let props = properties doc in
          bindR (time_slots doc) (\<lambda>slots.
          bindR (required_property props PROP_ANNOTATOR) (\<lambda>annotator_id.
          let recording_id = (case map_of props PROP_RECORDING of
                None \<Rightarrow> stem | Some r \<Rightarrow> if r = [] then stem else r) in
          bindR (aligned doc WORDS_TIER slots) (\<lambda>word_items.
          bindR (mapR word_of_item word_items) (\<lambda>words.
          let roles = referenced doc ROLE_TIER; texts = referenced doc TEXT_TIER;
              notes = referenced doc NOTE_TIER in
          bindR (aligned doc DISFLUENCY_TIER slots) (\<lambda>items.
          bindR (mapR (to_disfluency annotator_id roles texts notes) items) (\<lambda>disfluencies.
          bindR (elan_duration slots words disfluencies) (\<lambda>duration.
          bindR (required_property props PROP_SPEAKER) (\<lambda>pseudonym.
          bindR (Speaker pseudonym ''es-PE'' []) (\<lambda>speaker.
          bindR (pass_of (case map_of props PROP_PASS of None \<Rightarrow> pass_value FIRST | Some p \<Rightarrow> p)) (\<lambda>pass.
          AnnotatedRecording
            \<lparr>ar_recording_id = recording_id, ar_speaker = speaker, ar_annotator_id = annotator_id,
             ar_annotation_pass = pass, ar_duration_ms = duration, ar_words = words,
             ar_disfluencies = disfluencies, ar_schema_version = SCHEMA_VERSION,
             ar_taxonomy_version = elan_parse_version (map_of props PROP_TAXONOMY), ar_note = []\<rparr>)))))))))))"

section \<open>Writing the template\<close>

text \<open>\<open>Path(media_url).suffix\<close>: of the last component that is not empty and not a dot.\<close>

definition path_name :: "string \<Rightarrow> string" where
  "path_name s = (case rev (filter (\<lambda>c. c \<noteq> [] \<and> c \<noteq> ''.'') (split_on CHR ''/'' s)) of [] \<Rightarrow> [] | c # _ \<Rightarrow> c)"

definition path_suffix :: "string \<Rightarrow> string" where
  "path_suffix s =
     (let name = path_name s; after = rev (takeWhile (\<lambda>c. c \<noteq> CHR ''.'') (rev name)) in
      if length after = length name \<or> after = [] \<or> length name = length after + 1 then [] else CHR ''.'' # after)"

definition mime_for :: "string \<Rightarrow> string" where
  "mime_for media_url =
     (case map_of [(''.wav'', ''audio/x-wav''), (''.flac'', ''audio/flac''), (''.mp4'', ''video/mp4''),
                   (''.webm'', ''video/webm'')] (py_lower (path_suffix media_url)) of
        None \<Rightarrow> ''audio/x-wav'' | Some m \<Rightarrow> m)"

definition controlled_vocabulary :: "string \<Rightarrow> string \<Rightarrow> (string \<times> string) list \<Rightarrow> element" where
  "controlled_vocabulary cv_id description entries =
     Element ''CONTROLLED_VOCABULARY'' [(''CV_ID'', cv_id)] None
       (Element ''DESCRIPTION'' [(''LANG_REF'', ''und'')] (Some description) [] #
        map (\<lambda>(index, (value, meaning)).
          Element ''CV_ENTRY_ML'' [(''CVE_ID'', ''cve'' @ show_nat index)] None
            [Element ''CVE_VALUE'' [(''DESCRIPTION'', meaning), (''LANG_REF'', ''und'')] (Some value) []])
          (enumerate 1 entries))"

definition linguistic_type :: "(string \<times> string) list \<Rightarrow> element" where
  "linguistic_type attrs = Element ''LINGUISTIC_TYPE'' attrs None []"

definition template_tier :: "(string \<times> string) list \<Rightarrow> element" where
  "template_tier attrs = Element ''TIER'' attrs None []"

definition role_meanings :: "(string \<times> string) list" where
  "role_meanings =
     [(role_value FILLER, ''Hesitacion. No aporta contenido proposicional.''),
      (role_value SEMANTIC, ''Tiene significado lexico en esa posicion.''),
      (role_value DISCOURSE_MARKER, ''Estructura el discurso.''),
      (role_value UNCERTAIN, ''El contexto no lo decide. Se reporta asi; no se adivina.'')]"

definition class_meanings :: "(string \<times> string) list result" where
  "class_meanings =
     mapR (\<lambda>t. bindR (speech_definition_of t) (\<lambda>d. Inr (speech_type_value t, ed_definition_es d))) speech_event_types"

definition header_properties :: "string \<Rightarrow> string \<Rightarrow> string \<Rightarrow> annotation_pass \<Rightarrow> (string \<times> string) list" where
  "header_properties recording_id speaker_pseudonym annotator_id pass =
     [(PROP_RECORDING, recording_id), (PROP_SPEAKER, speaker_pseudonym), (PROP_ANNOTATOR, annotator_id),
      (PROP_PASS, pass_value pass), (PROP_TAXONOMY, version_str TAXONOMY_VERSION)]"

fun property_element :: "string \<times> string \<Rightarrow> element" where
  "property_element (name, value) = Element ''PROPERTY'' [(''NAME'', name)] (Some value) []"

definition write_template ::
  "string \<Rightarrow> string \<Rightarrow> string \<Rightarrow> string \<Rightarrow> annotation_pass \<Rightarrow> element result" where
  "write_template recording_id speaker_pseudonym annotator_id media_url pass =
     bindR class_meanings (\<lambda>meanings. Inr (
       Element ''ANNOTATION_DOCUMENT''
         [(''AUTHOR'', annotator_id), (''DATE'', ''2026-09-04T00:00:00+00:00''), (''FORMAT'', ''3.0''),
          (''VERSION'', ''3.0''), (''xmlns:xsi'', ''http://www.w3.org/2001/XMLSchema-instance'')] None
         [Element ''HEADER'' [(''MEDIA_FILE'', []), (''TIME_UNITS'', ''milliseconds'')] None
            (Element ''MEDIA_DESCRIPTOR''
               [(''MEDIA_URL'', media_url), (''MIME_TYPE'', mime_for media_url), (''RELATIVE_MEDIA_URL'', [])] None [] #
             map property_element
               (header_properties recording_id speaker_pseudonym annotator_id pass)),
          Element ''TIME_ORDER'' [] None [],
          template_tier [(''LINGUISTIC_TYPE_REF'', ''verbatim''), (''TIER_ID'', WORDS_TIER)],
          template_tier [(''LINGUISTIC_TYPE_REF'', ''disfluency_class''), (''TIER_ID'', DISFLUENCY_TIER)],
          template_tier [(''LINGUISTIC_TYPE_REF'', ''contextual_role''), (''PARENT_REF'', DISFLUENCY_TIER), (''TIER_ID'', ROLE_TIER)],
          template_tier [(''LINGUISTIC_TYPE_REF'', ''attached_text''), (''PARENT_REF'', DISFLUENCY_TIER), (''TIER_ID'', TEXT_TIER)],
          template_tier [(''LINGUISTIC_TYPE_REF'', ''attached_text''), (''PARENT_REF'', DISFLUENCY_TIER), (''TIER_ID'', NOTE_TIER)],
          linguistic_type [(''GRAPHIC_REFERENCES'', ''false''), (''LINGUISTIC_TYPE_ID'', ''verbatim''), (''TIME_ALIGNABLE'', ''true'')],
          linguistic_type [(''CONTROLLED_VOCABULARY_REF'', ''disfluency_classes''), (''GRAPHIC_REFERENCES'', ''false''),
            (''LINGUISTIC_TYPE_ID'', ''disfluency_class''), (''TIME_ALIGNABLE'', ''true'')],
          linguistic_type [(''CONSTRAINTS'', ''Symbolic_Association''), (''CONTROLLED_VOCABULARY_REF'', ''contextual_roles''),
            (''GRAPHIC_REFERENCES'', ''false''), (''LINGUISTIC_TYPE_ID'', ''contextual_role''), (''TIME_ALIGNABLE'', ''false'')],
          linguistic_type [(''CONSTRAINTS'', ''Symbolic_Association''), (''GRAPHIC_REFERENCES'', ''false''),
            (''LINGUISTIC_TYPE_ID'', ''attached_text''), (''TIME_ALIGNABLE'', ''false'')],
          Element ''CONSTRAINT'' [(''DESCRIPTION'', ''1-1 association with a parent annotation''),
            (''STEREOTYPE'', ''Symbolic_Association'')] None [],
          controlled_vocabulary ''disfluency_classes''
            ''Clases publicadas de la taxonomia. Generado; no editar a mano.'' meanings,
          controlled_vocabulary ''contextual_roles''
            ''Roles contextuales (FR-013). Solo para clases lexicas.'' role_meanings]))"

section \<open>Commands\<close>

text \<open>The exit status of \<open>corpus validate\<close> and the report of \<open>corpus agreement\<close>; \<open>main\<close> turns an
  \<open>ElanError\<close> into status 1 and lets every other exception through.\<close>

definition catch_elan :: "int result \<Rightarrow> int result" where
  "catch_elan r = (case r of Inl e \<Rightarrow> if e = ElanError then Inr 1 else Inl e | Inr n \<Rightarrow> Inr n)"

definition validate_command :: "(string \<times> element option) list \<Rightarrow> int result" where
  "validate_command files =
     catch_elan (bindR (mapR (\<lambda>(stem, tree). bindR (read_elan stem tree) (\<lambda>r. Inr (validate r))) files)
       (\<lambda>reports. Inr (if list_ex (\<lambda>v. report_errors v \<noteq> []) reports then 1 else 0)))"

definition agreement_command ::
  "string \<times> element option \<Rightarrow> string \<times> element option \<Rightarrow> match_criterion \<Rightarrow> rat \<Rightarrow> int \<Rightarrow> agreement_report result" where
  "agreement_command left right criterion iou_threshold tolerance_ms =
     bindR (read_elan (fst left) (snd left)) (\<lambda>l.
     bindR (read_elan (fst right) (snd right)) (\<lambda>r.
     compare l r criterion iou_threshold tolerance_ms))"

end
