(* ===== verification/ElanProperties.thy ===== *)
theory ElanProperties
  imports Elan
begin

text \<open>
  What reading an ELAN file guarantees, what a fresh template reads as, and the exit status of the
  validation command, from the file to the verdict.
\<close>

section \<open>The fresh template\<close>

lemma class_meanings_Inr: "\<exists>ms. class_meanings = Inr ms \<and> map fst ms = map speech_type_value speech_event_types"
proof -
  have one: "\<exists>y. bindR (speech_definition_of t) (\<lambda>d. Inr (speech_type_value t, ed_definition_es d)) = Inr y" for t
    using speech_definition_total [of t] by auto
  have "\<exists>ms. class_meanings = Inr ms"
    unfolding class_meanings_def by (rule mapR_Inr_ex) (rule one)
  then obtain ms where ms: "class_meanings = Inr ms" by blast
  then have "list_all2 (\<lambda>t m. fst m = speech_type_value t) speech_event_types ms"
    unfolding class_meanings_def mapR_eq_Inr by (auto elim!: list_all2_mono)
  then have "map fst ms = map speech_type_value speech_event_types"
    by (induction rule: list_all2_induct) simp_all
  then show ?thesis using ms by blast
qed

lemma iterfind_simps:
  "iterfind [] e = [e]"
  "iterfind [t] e = child_elements t e"
  "iterfind [t, u] e = concat (map (child_elements u) (child_elements t e))"
  "iterfind [t, u, v] e = concat (map (child_elements v) (concat (map (child_elements u) (child_elements t e))))"
  by (simp_all add: iterfind_def)

lemma child_elements_simps:
  "child_elements t (Element n as x []) = []"
  "child_elements t (Element n as x (c # cs)) =
     (if tag c = t then c # child_elements t (Element n as x cs) else child_elements t (Element n as x cs))"
  "child_elements t (Element n as x (cs @ ds)) =
     child_elements t (Element n as x cs) @ child_elements t (Element n as x ds)"
  by (simp_all add: child_elements_def)

lemma child_elements_map:
  "(\<And>y. tag (f y) = u) \<Longrightarrow> child_elements t (Element n as x (map f ys)) = (if u = t then map f ys else [])"
  by (induction ys) (auto simp: child_elements_def)

lemma tag_template [simp]:
  "tag (controlled_vocabulary i d es) = ''CONTROLLED_VOCABULARY''" "tag (linguistic_type as) = ''LINGUISTIC_TYPE''"
  "tag (template_tier as) = ''TIER''"
  by (simp_all add: controlled_vocabulary_def linguistic_type_def template_tier_def)

definition template_values :: "element \<Rightarrow> string option list" where
  "template_values doc = map text_of (iterfind [''CONTROLLED_VOCABULARY'', ''CV_ENTRY_ML'', ''CVE_VALUE''] doc)"

lemma vocabulary_values:
  "map text_of (concat (map (child_elements ''CVE_VALUE'') (child_elements ''CV_ENTRY_ML'' (controlled_vocabulary i d entries)))) =
   map (Some \<circ> fst) entries"
proof -
  have "child_elements ''CV_ENTRY_ML'' (controlled_vocabulary i d entries) =
      map (\<lambda>(index, (value, meaning)).
          Element ''CV_ENTRY_ML'' [(''CVE_ID'', ''cve'' @ show_nat index)] None
            [Element ''CVE_VALUE'' [(''DESCRIPTION'', meaning), (''LANG_REF'', ''und'')] (Some value) []])
          (enumerate 1 entries)"
    unfolding controlled_vocabulary_def child_elements_simps
    by (subst child_elements_map [of _ "''CV_ENTRY_ML''"]) auto
  moreover have "map text_of (concat (map (child_elements ''CVE_VALUE'')
      (map (\<lambda>(index, (value, meaning)).
          Element ''CV_ENTRY_ML'' [(''CVE_ID'', ''cve'' @ show_nat index)] None
            [Element ''CVE_VALUE'' [(''DESCRIPTION'', meaning), (''LANG_REF'', ''und'')] (Some value) []])
          (enumerate n entries)))) = map (Some \<circ> fst) entries" for n
    by (induction entries arbitrary: n) (auto simp: child_elements_simps)
  ultimately show ?thesis by simp
qed

lemma property_children:
  "child_elements ''PROPERTY'' (Element n as x (map property_element ps)) = map property_element ps"
  by (induction ps) (auto simp: child_elements_def)

lemma header_read:
  "fold (\<lambda>e d. case get_attr e ''NAME'' of
              None \<Rightarrow> d
            | Some name \<Rightarrow> AList.update name (py_strip (case text_of e of None \<Rightarrow> [] | Some s \<Rightarrow> s)) d)
     (map property_element (header_properties recording speaker annotator pass)) [] =
   map (\<lambda>(name, value). (name, py_strip value)) (header_properties recording speaker annotator pass)"
  by (simp add: header_properties_def get_attr_def elan_names)

lemma template_children:
  assumes "write_template recording speaker annotator media pass = Inr doc" and "class_meanings = Inr ms"
  shows "child_elements ''TIER'' doc =
      [template_tier [(''LINGUISTIC_TYPE_REF'', ''verbatim''), (''TIER_ID'', WORDS_TIER)],
       template_tier [(''LINGUISTIC_TYPE_REF'', ''disfluency_class''), (''TIER_ID'', DISFLUENCY_TIER)],
       template_tier [(''LINGUISTIC_TYPE_REF'', ''contextual_role''), (''PARENT_REF'', DISFLUENCY_TIER), (''TIER_ID'', ROLE_TIER)],
       template_tier [(''LINGUISTIC_TYPE_REF'', ''attached_text''), (''PARENT_REF'', DISFLUENCY_TIER), (''TIER_ID'', TEXT_TIER)],
       template_tier [(''LINGUISTIC_TYPE_REF'', ''attached_text''), (''PARENT_REF'', DISFLUENCY_TIER), (''TIER_ID'', NOTE_TIER)]]"
    and "child_elements ''TIME_ORDER'' doc = [Element ''TIME_ORDER'' [] None []]"
    and "child_elements ''CONTROLLED_VOCABULARY'' doc =
      [controlled_vocabulary ''disfluency_classes''
         ''Clases publicadas de la taxonomia. Generado; no editar a mano.'' ms,
       controlled_vocabulary ''contextual_roles''
         ''Roles contextuales (FR-013). Solo para clases lexicas.'' role_meanings]"
    and "concat (map (child_elements ''PROPERTY'') (child_elements ''HEADER'' doc)) =
      map property_element (header_properties recording speaker annotator pass)"
  using assms(1) unfolding write_template_def assms(2) bindR_simps
  by (simp_all only: sum.inject) (auto simp: child_elements_simps property_children)

lemma no_tier_elements: "child_elements t (template_tier as) = []"
  by (simp add: template_tier_def child_elements_def)

lemma template_facts:
  "\<exists>doc. write_template recording speaker annotator media pass = Inr doc \<and>
     properties doc = map (\<lambda>(name, value). (name, py_strip value)) (header_properties recording speaker annotator pass) \<and>
     template_values doc = map (Some \<circ> speech_type_value) speech_event_types @ map (Some \<circ> role_value) contextual_roles \<and>
     time_slots doc = Inr [] \<and> (\<forall>t k. tier_elements doc t k = [])"
proof -
  obtain ms where ms: "class_meanings = Inr ms" "map fst ms = map speech_type_value speech_event_types"
    using class_meanings_Inr by blast
  obtain doc where doc: "write_template recording speaker annotator media pass = Inr doc"
    unfolding write_template_def ms(1) bindR_simps by blast
  note ch = template_children [OF doc ms(1)]
  have "properties doc = map (\<lambda>(name, value). (name, py_strip value)) (header_properties recording speaker annotator pass)"
    unfolding properties_def iterfind_simps ch by (rule header_read)
  moreover have "map (Some \<circ> fst) ms = map (Some \<circ> speech_type_value) speech_event_types"
    using arg_cong [OF ms(2), of "map Some"] by (simp add: comp_def)
  then have "template_values doc = map (Some \<circ> speech_type_value) speech_event_types @ map (Some \<circ> role_value) contextual_roles"
    unfolding template_values_def iterfind_simps ch
    by (simp add: vocabulary_values role_meanings_def contextual_roles_def)
  moreover have "time_slots doc = Inr []"
    unfolding time_slots_def iterfind_simps ch by (simp add: child_elements_simps)
  moreover have "\<forall>t k. tier_elements doc t k = []"
    unfolding tier_elements_def iterfind_simps ch by (simp add: no_tier_elements iterfind_simps)
  ultimately show ?thesis using doc by blast
qed

text \<open>
  A template reads back what it was written for. Its properties are the five that were put in,
  stripped of surrounding blanks; its controlled vocabularies offer exactly the published classes and
  the contextual roles; and, with nothing annotated yet, reading it as an annotation fails with an
  \<open>ElanError\<close>, whatever its arguments.
\<close>

theorem template_roundtrip:
  "\<exists>doc. write_template recording speaker annotator media pass = Inr doc \<and>
     properties doc = map (\<lambda>(name, value). (name, py_strip value)) (header_properties recording speaker annotator pass) \<and>
     template_values doc = map (Some \<circ> speech_type_value) speech_event_types @ map (Some \<circ> role_value) contextual_roles \<and>
     read_elan stem (Some doc) = Inl ElanError"
proof -
  obtain doc where doc: "write_template recording speaker annotator media pass = Inr doc"
    and props: "properties doc = map (\<lambda>(name, value). (name, py_strip value)) (header_properties recording speaker annotator pass)"
    and vals: "template_values doc = map (Some \<circ> speech_type_value) speech_event_types @ map (Some \<circ> role_value) contextual_roles"
    and empty: "time_slots doc = Inr []" "\<And>t k. tier_elements doc t k = []"
    using template_facts [of recording speaker annotator media pass] by blast
  have "aligned doc t [] = Inr []" for t by (simp add: aligned_def empty)
  moreover have "elan_duration [] [] [] = Inl ElanError" by (simp add: elan_duration_def)
  moreover have "required_property ps n = Inl ElanError \<or> (\<exists>v. required_property ps n = Inr v)" for ps n
    by (auto simp: required_property_def split: option.splits)
  ultimately have "read_elan stem (Some doc) = Inl ElanError"
    unfolding read_elan_def option.case Let_def empty bindR_simps
    by (cases "required_property (properties doc) PROP_ANNOTATOR = Inl ElanError") auto
  then show ?thesis using doc props vals by blast
qed

section \<open>What reading guarantees\<close>

lemma Span_cases: "Span s e = Inl SchemaViolation \<or> Span s e = Inr \<lparr>sp_start_ms = s, sp_end_ms = e\<rparr> \<and> 0 \<le> s \<and> s < e"
  by (simp add: Span_def)

lemma DisfluencyAnnotation_cases: "DisfluencyAnnotation a = Inl SchemaViolation \<or> DisfluencyAnnotation a = Inr a"
proof -
  have "require_known_speech_event (speech_type_value (da_event_type a)) = Inr (da_event_type a)"
    by (simp add: require_known_speech_event_Inr)
  then show ?thesis by (simp add: DisfluencyAnnotation_def require_role_rules_def)
qed

lemma parse_role_cases: "parse_role v = Inl ElanError \<or> (\<exists>r. parse_role v = Inr r)"
  by (auto simp: parse_role_def split: option.splits)

lemma to_disfluency_cases:
  "to_disfluency annotator roles texts notes item = Inl ElanError \<or>
   (\<exists>a. to_disfluency annotator roles texts notes item = Inr a \<and> DisfluencyAnnotation a = Inr a \<and>
      wf_span (da_interval a) \<and> da_annotator_id a = annotator \<and>
      da_interval a = \<lparr>sp_start_ms = ea_start_ms item, sp_end_ms = ea_end_ms item\<rparr>)"
proof (cases "enum_of speech_type_value speech_event_types (ea_value item)")
  case (Some t)
  consider "parse_role (map_of roles (ea_annotation_id item)) = Inl ElanError"
    | role where "parse_role (map_of roles (ea_annotation_id item)) = Inr role"
    using parse_role_cases by blast
  then show ?thesis
  proof cases
    case 2
    let ?a = "\<lparr>da_event_type = t, da_interval = \<lparr>sp_start_ms = ea_start_ms item, sp_end_ms = ea_end_ms item\<rparr>,
      da_annotator_id = annotator, da_raw_text = get_text texts (ea_annotation_id item), da_context_role = role,
      da_annotator_confidence = 1, da_note = get_text notes (ea_annotation_id item)\<rparr>"
    show ?thesis
      using Span_cases [of "ea_start_ms item" "ea_end_ms item"] DisfluencyAnnotation_cases [of ?a]
      by (elim disjE conjE) (simp_all add: to_disfluency_def Some 2 as_elan_error_def wf_span_def)
  qed (simp add: to_disfluency_def Some)
qed (simp add: to_disfluency_def)

lemma Word_cases: "Word t i = Inl SchemaViolation \<or> Word t i = Inr \<lparr>wd_text = t, wd_interval = i\<rparr>"
  by (simp add: Word_def)

lemma word_of_item_cases:
  "word_of_item item = Inl SchemaViolation \<or>
   (\<exists>w. word_of_item item = Inr w \<and> wf_span (wd_interval w) \<and>
      wd_interval w = \<lparr>sp_start_ms = ea_start_ms item, sp_end_ms = ea_end_ms item\<rparr>)"
proof -
  let ?i = "\<lparr>sp_start_ms = ea_start_ms item, sp_end_ms = ea_end_ms item\<rparr>"
  show ?thesis
    using Span_cases [of "ea_start_ms item" "ea_end_ms item"] Word_cases [of "ea_value item" ?i]
    by (elim disjE conjE) (simp_all add: word_of_item_def wf_span_def)
qed

lemma time_slots_Inl: "time_slots doc = Inl e \<Longrightarrow> e = ValueError"
proof -
  have "slots_of es d = Inl e \<Longrightarrow> e = ValueError" for es d
    by (induction es d rule: slots_of.induct) (auto split: option.splits)
  then show "time_slots doc = Inl e \<Longrightarrow> e = ValueError" by (simp add: time_slots_def)
qed

lemma required_property_Inl: "required_property ps n = Inl e \<Longrightarrow> e = ElanError"
  by (auto simp: required_property_def split: option.splits if_splits)

lemma aligned_Inl: "aligned doc t slots = Inl e \<Longrightarrow> e = ElanError"
  by (auto simp: aligned_def dest!: mapR_Inl_mem split: option.splits)

lemma aligned_sorted:
  "aligned doc t slots = Inr items \<Longrightarrow> sorted (map (\<lambda>a. (ea_start_ms a, ea_end_ms a)) items)"
proof -
  assume "aligned doc t slots = Inr items"
  then have "sorted (map (\<lambda>a. (ea_start_ms a, ea_end_ms a, ea_annotation_id a)) items)"
    by (auto simp: aligned_def)
  then show ?thesis
    by (auto simp: sorted_map elim!: sorted_wrt_mono_rel [rotated])
qed

lemma mapR_cases_Inl:
  assumes "mapR f xs = Inl e" and "\<And>x. f x = Inl c \<or> (\<exists>y. f x = Inr y \<and> P x y)"
  shows "e = c"
proof -
  obtain x where "f x = Inl e" using mapR_Inl_mem [OF assms(1)] by blast
  then show ?thesis using assms(2) [of x] by auto
qed

lemma mapR_cases_Inr:
  assumes "mapR f xs = Inr ys" and "\<And>x. f x = Inl c \<or> (\<exists>y. f x = Inr y \<and> P x y)"
  shows "list_all2 P xs ys"
proof -
  have "P x y" if "f x = Inr y" for x y using assms(2) [of x] that by auto
  then show ?thesis using assms(1) unfolding mapR_eq_Inr by (auto elim: list_all2_mono)
qed

lemma list_all2_map_eq: "list_all2 (\<lambda>x y. g y = f x) xs ys \<Longrightarrow> map g ys = map f xs"
  by (induction rule: list_all2_induct) auto

lemma list_all2_all: "list_all2 (\<lambda>x y. P y) xs ys \<Longrightarrow> list_all P ys"
  by (induction rule: list_all2_induct) auto

lemma read_elan_Inr:
  assumes "read_elan stem tree = Inr r"
  obtains doc slots word_items items roles texts nts where
    "tree = Some doc" "aligned doc WORDS_TIER slots = Inr word_items"
    "mapR word_of_item word_items = Inr (ar_words r)"
    "aligned doc DISFLUENCY_TIER slots = Inr items"
    "mapR (to_disfluency (ar_annotator_id r) roles texts nts) items = Inr (ar_disfluencies r)"
    "AnnotatedRecording r = Inr r"
proof -
  obtain doc where doc: "tree = Some doc" using assms by (cases tree) (auto simp: read_elan_def)
  show ?thesis
    using assms unfolding doc read_elan_def option.case Let_def bindR_eq_Inr
    by (elim exE conjE, intro that [OF doc]) (auto simp: AnnotatedRecording_def split: if_splits)
qed

lemma Speaker_Inl: "Speaker p v n = Inl e \<Longrightarrow> e = SchemaViolation"
  by (auto simp: Speaker_def Let_def split: if_splits)

lemma AnnotatedRecording_Inl: "AnnotatedRecording r = Inl e \<Longrightarrow> e = SchemaViolation"
proof -
  have "check_annotations a d as = Inl e \<Longrightarrow> e = SchemaViolation" for a d as
    by (induction as) (auto split: if_splits)
  then show "AnnotatedRecording r = Inl e \<Longrightarrow> e = SchemaViolation"
    by (auto simp: AnnotatedRecording_def split: if_splits)
qed

lemma pass_of_Inl: "pass_of s = Inl e \<Longrightarrow> e = ValueError"
  by (simp add: pass_of_def split: option.splits)

lemma elan_duration_Inl: "elan_duration slots ws ds = Inl e \<Longrightarrow> e = ElanError"
  by (simp add: elan_duration_def Let_def split: if_splits)

lemma read_elan_Inl:
  assumes "read_elan stem tree = Inl e"
  shows "e \<in> {ElanError, SchemaViolation, ValueError}"
proof (cases tree)
  case None
  then show ?thesis using assms by (simp add: read_elan_def)
next
  case (Some doc)
  show ?thesis
    using assms unfolding Some read_elan_def option.case Let_def bindR_eq_Inl
    by (elim disjE exE conjE)
      (auto dest: time_slots_Inl required_property_Inl aligned_Inl mapR_cases_Inl [OF _ word_of_item_cases]
        mapR_cases_Inl [OF _ to_disfluency_cases] elan_duration_Inl Speaker_Inl pass_of_Inl AnnotatedRecording_Inl)
qed

definition read_record_ok :: "annotated_recording \<Rightarrow> bool" where
  "read_record_ok r \<longleftrightarrow>
     0 < ar_duration_ms r \<and>
     list_all (\<lambda>w. wf_span (wd_interval w)) (ar_words r) \<and>
     sorted (map (\<lambda>w. span_key (wd_interval w)) (ar_words r)) \<and>
     list_all (\<lambda>a. wf_span (da_interval a) \<and> DisfluencyAnnotation a = Inr a \<and>
        da_annotator_id a = ar_annotator_id r \<and> sp_end_ms (da_interval a) \<le> ar_duration_ms r) (ar_disfluencies r) \<and>
     sorted (map (\<lambda>a. span_key (da_interval a)) (ar_disfluencies r))"

lemma read_elan_ok:
  assumes "read_elan stem tree = Inr r"
  shows "read_record_ok r"
proof -
  obtain doc slots ws items roles texts nts where
    ws: "aligned doc WORDS_TIER slots = Inr ws" "mapR word_of_item ws = Inr (ar_words r)" and
    items: "aligned doc DISFLUENCY_TIER slots = Inr items"
      "mapR (to_disfluency (ar_annotator_id r) roles texts nts) items = Inr (ar_disfluencies r)" and
    r: "AnnotatedRecording r = Inr r"
    using assms by (rule read_elan_Inr)
  note w = mapR_cases_Inr [OF ws(2) word_of_item_cases]
  note a = mapR_cases_Inr [OF items(2) to_disfluency_cases]
  have "map (\<lambda>w. span_key (wd_interval w)) (ar_words r) = map (\<lambda>i. (ea_start_ms i, ea_end_ms i)) ws"
    by (rule list_all2_map_eq, rule list_all2_mono [OF w]) (simp add: span_key_def)
  moreover have "map (\<lambda>a. span_key (da_interval a)) (ar_disfluencies r) = map (\<lambda>i. (ea_start_ms i, ea_end_ms i)) items"
    by (rule list_all2_map_eq, rule list_all2_mono [OF a]) (simp add: span_key_def)
  moreover have "list_all (\<lambda>w. wf_span (wd_interval w)) (ar_words r)"
    by (rule list_all2_all, rule list_all2_mono [OF w]) blast
  moreover have "list_all (\<lambda>a. wf_span (da_interval a) \<and> DisfluencyAnnotation a = Inr a) (ar_disfluencies r)"
    by (rule list_all2_all, rule list_all2_mono [OF a]) blast
  moreover have "0 < ar_duration_ms r" "list_all (\<lambda>a. da_annotator_id a = ar_annotator_id r \<and>
      sp_end_ms (da_interval a) \<le> ar_duration_ms r) (ar_disfluencies r)"
    using r by (auto simp: AnnotatedRecording_def check_annotations_Inr split: if_splits)
  ultimately show ?thesis
    using aligned_sorted [OF ws(1)] aligned_sorted [OF items(1)]
    by (simp add: read_record_ok_def list_all_iff)
qed

text \<open>
  Whatever file is read, the outcome is one of three exceptions or a record that is fit for the
  agreement: positive intervals, words and events in temporal order, every event admitted by the
  schema, attributed to the file's annotator, and within the recording.
\<close>

theorem read_elan_shape:
  "case read_elan stem tree of
     Inl e \<Rightarrow> e \<in> {ElanError, SchemaViolation, ValueError}
   | Inr r \<Rightarrow> read_record_ok r"
  using read_elan_Inl [of stem tree] read_elan_ok [of stem tree] by (cases "read_elan stem tree") auto

section \<open>From the files to the exit status\<close>

definition file_usable :: "string \<times> element option \<Rightarrow> bool" where
  "file_usable f =
     (case read_elan (fst f) (snd f) of
        Inl _ \<Rightarrow> False
      | Inr r \<Rightarrow> ar_words r \<noteq> [] \<and>
          sorted_wrt (\<lambda>a b. da_event_type a = da_event_type b \<longrightarrow>
             \<not> span_overlaps (da_interval a) (da_interval b)) (ar_disfluencies r))"

lemma validate_read:
  assumes "read_elan stem tree = Inr r"
  shows "report_errors (validate r) = [] \<longleftrightarrow> ar_words r \<noteq> [] \<and>
    sorted_wrt (\<lambda>a b. da_event_type a = da_event_type b \<longrightarrow>
         \<not> span_overlaps (da_interval a) (da_interval b)) (ar_disfluencies r)"
proof -
  have "\<forall>a \<in> set (ar_disfluencies r). wf_span (da_interval a)"
    using read_elan_ok [OF assms] by (auto simp: read_record_ok_def list_all_iff)
  then show ?thesis
    by (auto simp: report_errors_validate same_class_overlaps_Nil coverage_def)
qed

lemma catch_elan_0: "catch_elan r = Inr 0 \<longleftrightarrow> r = Inr 0"
  by (auto simp: catch_elan_def split: sum.splits)

text \<open>
  \<open>corpus validate\<close> succeeds (status 0) exactly when every file can be read, has a transcription,
  and no two of its annotations of one class overlap.
\<close>

theorem validate_status:
  "validate_command files = Inr 0 \<longleftrightarrow> list_all file_usable files"
proof -
  have "validate_command files = Inr 0 \<longleftrightarrow>
      (\<exists>vs. mapR (\<lambda>(stem, tree). bindR (read_elan stem tree) (\<lambda>r. Inr (validate r))) files = Inr vs \<and>
         list_all (\<lambda>v. report_errors v = []) vs)"
    by (auto simp: validate_command_def catch_elan_0 list_all_iff list_ex_iff)
  also have "\<dots> \<longleftrightarrow> list_all file_usable files"
  proof (induction files)
    case (Cons f fs)
    obtain stem tree where f: "f = (stem, tree)" by (cases f)
    show ?case
    proof (cases "read_elan stem tree")
      case (Inr r)
      then show ?thesis using Cons by (auto simp: f file_usable_def validate_read [OF Inr])
    qed (simp add: f file_usable_def)
  qed simp
  finally show ?thesis .
qed

section \<open>Where the file format is stricter or looser than it says\<close>

definition sample_file :: "string \<Rightarrow> string \<Rightarrow> element" where
  "sample_file disfluency_tier word_value =
     Element ''ANNOTATION_DOCUMENT'' [] None
       [Element ''HEADER'' [] None
          [property_element (PROP_ANNOTATOR, ''a1''), property_element (PROP_SPEAKER, ''s01'')],
        Element ''TIME_ORDER'' [] None
          [Element ''TIME_SLOT'' [(''TIME_SLOT_ID'', ''t1''), (''TIME_VALUE'', ''0'')] None [],
           Element ''TIME_SLOT'' [(''TIME_SLOT_ID'', ''t2''), (''TIME_VALUE'', ''900'')] None []],
        Element ''TIER'' [(''TIER_ID'', ''words'')] None
          [Element ''ANNOTATION'' [] None
             [Element ''ALIGNABLE_ANNOTATION''
                [(''ANNOTATION_ID'', ''w1''), (''TIME_SLOT_REF1'', ''t1''), (''TIME_SLOT_REF2'', ''t2'')] None
                [Element ''ANNOTATION_VALUE'' [] (Some word_value) []]]],
        Element ''TIER'' [(''TIER_ID'', disfluency_tier)] None
          [Element ''ANNOTATION'' [] None
             [Element ''ALIGNABLE_ANNOTATION''
                [(''ANNOTATION_ID'', ''d1''), (''TIME_SLOT_REF1'', ''t1''), (''TIME_SLOT_REF2'', ''t2'')] None
                [Element ''ANNOTATION_VALUE'' [] (Some ''filled_pause'') []]]]]"

definition read_count :: "element \<Rightarrow> nat option" where
  "read_count doc = (case read_elan ''f'' (Some doc) of Inl _ \<Rightarrow> None | Inr r \<Rightarrow> Some (length (ar_disfluencies r)))"

text \<open>
  Reading skips what it does not know and lets a schema error through. With its tier named as
  published the event is read; with the tier's name capitalised the file still reads, without the
  event, and the validation passes it; and a blank word is refused with the schema's own exception,
  which the command does not turn into an error message.
\<close>

theorem tier_silently_dropped:
  "read_count (sample_file ''disfluency'' ''bueno'') = Some 1 \<and>
   read_count (sample_file ''Disfluency'' ''bueno'') = Some 0 \<and>
   validate_command [(''f'', Some (sample_file ''Disfluency'' ''bueno''))] = Inr 0 \<and>
   validate_command [(''f'', Some (sample_file ''disfluency'' '' ''))] = Inl SchemaViolation"
  by code_simp

end
