(* ===== verification/Json.thy ===== *)
theory Json
  imports Document
begin

text \<open>
  The part of Python's \<open>json\<close> module the engine uses: \<open>dumps\<close> with ASCII output, with
  \<open>separators=(",", ":")\<close> or with its default separators, and \<open>loads\<close>. A string outside Latin-1 and a number that is not finite have no value in
  the model and do not parse; the text of a float (\<open>repr\<close>) is an argument of the printer.
\<close>

section \<open>Printing\<close>

definition hex_digit :: "nat \<Rightarrow> char" where
  "hex_digit n = (if n < 10 then char_of (48 + n) else char_of (87 + n))"

definition escape_char :: "char \<Rightarrow> string" where
  "escape_char c =
     (let n = (of_char c :: nat) in
      if n = 34 then [CHR 0x5C, CHR 0x22]
      else if n = 92 then [CHR 0x5C, CHR 0x5C]
      else if n = 10 then [CHR 0x5C, CHR ''n'']
      else if n = 13 then [CHR 0x5C, CHR ''r'']
      else if n = 9 then [CHR 0x5C, CHR ''t'']
      else if n = 12 then [CHR 0x5C, CHR ''f'']
      else if n = 8 then [CHR 0x5C, CHR ''b'']
      else if 32 \<le> n \<and> n < 127 then [c]
      else [CHR 0x5C, CHR ''u'', CHR ''0'', CHR ''0'', hex_digit (n div 16), hex_digit (n mod 16)])"

definition quote_string :: "string \<Rightarrow> string" where
  "quote_string s = CHR 0x22 # concat (map escape_char s) @ [CHR 0x22]"

text \<open>The gap is what follows a comma or a colon.\<close>

fun dumps :: "string \<Rightarrow> (rat \<Rightarrow> string) \<Rightarrow> json \<Rightarrow> string"
  and dumps_items :: "string \<Rightarrow> (rat \<Rightarrow> string) \<Rightarrow> json list \<Rightarrow> string"
  and dumps_members :: "string \<Rightarrow> (rat \<Rightarrow> string) \<Rightarrow> (string \<times> json) list \<Rightarrow> string" where
  "dumps gap fr (JMap kvs) = CHR ''{'' # dumps_members gap fr kvs"
| "dumps gap fr (JSeq vs) = CHR ''['' # dumps_items gap fr vs"
| "dumps gap fr (JStr s) = quote_string s"
| "dumps gap fr (JBytes s) = []"
| "dumps gap fr (JInt i) = show_int i"
| "dumps gap fr (JFloat q) = fr q"
| "dumps gap fr (JBool b) = (if b then ''true'' else ''false'')"
| "dumps gap fr JNull = ''null''"
| "dumps_items gap fr [] = '']''"
| "dumps_items gap fr (v # vs) =
     dumps gap fr v @ (if vs = [] then '']'' else CHR '','' # gap @ dumps_items gap fr vs)"
| "dumps_members gap fr [] = ''}''"
| "dumps_members gap fr ((k, v) # kvs) =
     quote_string k @ CHR '':'' # gap @ dumps gap fr v @
     (if kvs = [] then ''}'' else CHR '','' # gap @ dumps_members gap fr kvs)"

fun dumpable :: "json \<Rightarrow> bool" where
  "dumpable (JMap kvs) = list_all (\<lambda>(k, v). dumpable v) kvs"
| "dumpable (JSeq vs) = list_all dumpable vs"
| "dumpable (JBytes s) = False"
| "dumpable _ = True"

definition json_dumps :: "string \<Rightarrow> (rat \<Rightarrow> string) \<Rightarrow> json \<Rightarrow> string result" where
  "json_dumps gap fr v = (if dumpable v then Inr (dumps gap fr v) else Inl (OtherError ''TypeError''))"

section \<open>Parsing\<close>

definition json_ws :: "char \<Rightarrow> bool" where
  "json_ws c \<longleftrightarrow> c = CHR '' '' \<or> c = CHR 0x09 \<or> c = CHR 0x0A \<or> c = CHR 0x0D"

abbreviation skip_ws :: "string \<Rightarrow> string" where
  "skip_ws \<equiv> dropWhile json_ws"

definition hex_value :: "char \<Rightarrow> nat option" where
  "hex_value c =
     (let n = (of_char c :: nat) in
      if 48 \<le> n \<and> n \<le> 57 then Some (n - 48)
      else if 97 \<le> n \<and> n \<le> 102 then Some (n - 87)
      else if 65 \<le> n \<and> n \<le> 70 then Some (n - 55)
      else None)"

definition unicode_escape :: "char \<Rightarrow> char \<Rightarrow> char \<Rightarrow> char \<Rightarrow> char option" where
  "unicode_escape a b c d =
     (case (hex_value a, hex_value b, hex_value c, hex_value d) of
        (Some w, Some x, Some y, Some z) \<Rightarrow> if w = 0 \<and> x = 0 then Some (char_of (y * 16 + z)) else None
      | _ \<Rightarrow> None)"

definition simple_escape :: "char \<Rightarrow> char option" where
  "simple_escape c =
     map_of [(CHR 0x22, CHR 0x22), (CHR 0x5C, CHR 0x5C), (CHR ''/'', CHR ''/''), (CHR ''b'', CHR 0x08),
             (CHR ''f'', CHR 0x0C), (CHR ''n'', CHR 0x0A), (CHR ''r'', CHR 0x0D), (CHR ''t'', CHR 0x09)] c"

text \<open>After a backslash: the character meant and the rest.\<close>

definition scan_escape :: "string \<Rightarrow> (char \<times> string) option" where
  "scan_escape s =
     (case s of
        [] \<Rightarrow> None
      | e # rest \<Rightarrow>
          if e = CHR ''u'' then
            (case rest of
               w # x # y # z # after \<Rightarrow> map_option (\<lambda>d. (d, after)) (unicode_escape w x y z)
             | _ \<Rightarrow> None)
          else map_option (\<lambda>d. (d, rest)) (simple_escape e))"

lemma scan_escape_shorter: "scan_escape s = Some (d, r) \<Longrightarrow> length r < length s"
  by (auto simp: scan_escape_def split: list.splits if_splits)

text \<open>After the opening quote. \<open>strict\<close>: control characters must be escaped.\<close>

function scan_string :: "string \<Rightarrow> (string \<times> string) option" where
  "scan_string [] = None"
| "scan_string (c # cs) =
     (if c = CHR 0x22 then Some ([], cs)
      else if c = CHR 0x5C then
        (case scan_escape cs of
           None \<Rightarrow> None
         | Some (d, rest) \<Rightarrow> map_option (\<lambda>(s, r). (d # s, r)) (scan_string rest))
      else if (of_char c :: nat) < 32 then None
      else map_option (\<lambda>(s, r). (c # s, r)) (scan_string cs))"
  by pat_completeness auto

termination
  by (relation "measure length") (auto dest: scan_escape_shorter)

definition is_digit :: "char \<Rightarrow> bool" where
  "is_digit c \<longleftrightarrow> digit_val c \<noteq> None"

abbreviation digit_run :: "string \<Rightarrow> string" where
  "digit_run \<equiv> takeWhile is_digit"

definition digits_value :: "string \<Rightarrow> int" where
  "digits_value s = (case py_int s of None \<Rightarrow> 0 | Some n \<Rightarrow> n)"

text \<open>The exponent of a number, with its sign, or none.\<close>

definition scan_exponent :: "string \<Rightarrow> (int \<times> string) option" where
  "scan_exponent s =
     (case s of
        e # rest \<Rightarrow>
          if e = CHR ''e'' \<or> e = CHR ''E'' then
            let (neg, t) = (case rest of
                  c # u \<Rightarrow> if c = CHR ''-'' then (True, u) else if c = CHR ''+'' then (False, u) else (False, rest)
                | [] \<Rightarrow> (False, rest));
                ds = digit_run t
            in if ds = [] then None
               else Some ((if neg then - digits_value ds else digits_value ds), drop (length ds) t)
          else None
      | [] \<Rightarrow> None)"

definition scan_fraction :: "string \<Rightarrow> string \<times> string" where
  "scan_fraction s =
     (case s of
        c # t \<Rightarrow> if c = CHR ''.'' \<and> digit_run t \<noteq> [] then (digit_run t, drop (length (digit_run t)) t) else ([], s)
      | [] \<Rightarrow> ([], s))"

text \<open>A number without its sign: one zero or a run of digits, a fraction, an exponent.\<close>

definition scan_magnitude :: "string \<Rightarrow> (json \<times> string) option" where
  "scan_magnitude s =
     (let run = digit_run s; whole = (if run \<noteq> [] \<and> hd run = CHR ''0'' then ''0'' else run);
          rest = drop (length whole) s
      in if whole = [] then None
         else case scan_fraction rest of (decimals, rest1) \<Rightarrow>
           (case scan_exponent rest1 of
              Some (e, rest2) \<Rightarrow>
                Some (JFloat (of_int (digits_value (whole @ decimals)) / 10 ^ length decimals * (10 powi e)), rest2)
            | None \<Rightarrow>
                if decimals = [] then Some (JInt (digits_value whole), rest1)
                else Some (JFloat (of_int (digits_value (whole @ decimals)) / 10 ^ length decimals), rest1)))"

definition scan_number :: "string \<Rightarrow> (json \<times> string) option" where
  "scan_number s =
     (case s of
        c # t \<Rightarrow>
          if c = CHR ''-'' then
            map_option (\<lambda>(v, r). (case v of JInt i \<Rightarrow> JInt (- i) | JFloat q \<Rightarrow> JFloat (- q) | _ \<Rightarrow> v, r)) (scan_magnitude t)
          else scan_magnitude s
      | [] \<Rightarrow> None)"

definition scan_literal :: "string \<Rightarrow> (json \<times> string) option" where
  "scan_literal s =
     (if take 4 s = ''null'' then Some (JNull, drop 4 s)
      else if take 4 s = ''true'' then Some (JBool True, drop 4 s)
      else if take 5 s = ''false'' then Some (JBool False, drop 5 s)
      else scan_number s)"

text \<open>Values, after the opening bracket the items, after the opening brace the members; the number
  bounds the depth of the calls.\<close>

fun scan_value :: "nat \<Rightarrow> string \<Rightarrow> (json \<times> string) option"
  and scan_items :: "nat \<Rightarrow> string \<Rightarrow> (json list \<times> string) option"
  and scan_members :: "nat \<Rightarrow> string \<Rightarrow> ((string \<times> json) list \<times> string) option" where
  "scan_value 0 s = None"
| "scan_value (Suc n) s =
     (case s of
        [] \<Rightarrow> None
      | c # t \<Rightarrow>
          if c = CHR 0x22 then map_option (\<lambda>(x, r). (JStr x, r)) (scan_string t)
          else if c = CHR ''['' then
            (case skip_ws t of
               d # u \<Rightarrow> if d = CHR '']'' then Some (JSeq [], u)
                       else map_option (\<lambda>(vs, r). (JSeq vs, r)) (scan_items n (d # u))
             | [] \<Rightarrow> None)
          else if c = CHR ''{'' then
            (case skip_ws t of
               d # u \<Rightarrow> if d = CHR ''}'' then Some (JMap [], u)
                       else map_option (\<lambda>(kvs, r). (JMap (fold (\<lambda>(k, v). AList.update k v) kvs []), r))
                              (scan_members n (d # u))
             | [] \<Rightarrow> None)
          else scan_literal s)"
| "scan_items 0 s = None"
| "scan_items (Suc n) s =
     (case scan_value n s of
        None \<Rightarrow> None
      | Some (v, r) \<Rightarrow>
          (case skip_ws r of
             [] \<Rightarrow> None
           | d # u \<Rightarrow>
               if d = CHR '']'' then Some ([v], u)
               else if d = CHR '','' then map_option (\<lambda>(vs, r). (v # vs, r)) (scan_items n (skip_ws u))
               else None))"
| "scan_members 0 s = None"
| "scan_members (Suc n) s =
     (case s of
        [] \<Rightarrow> None
      | c # t \<Rightarrow>
          if c \<noteq> CHR 0x22 then None
          else (case scan_string t of
             None \<Rightarrow> None
           | Some (k, r) \<Rightarrow>
               (case skip_ws r of
                  [] \<Rightarrow> None
                | d # u \<Rightarrow>
                    if d \<noteq> CHR '':'' then None
                    else (case scan_value n (skip_ws u) of
                       None \<Rightarrow> None
                     | Some (v, r1) \<Rightarrow>
                         (case skip_ws r1 of
                            [] \<Rightarrow> None
                          | e # w \<Rightarrow>
                              if e = CHR ''}'' then Some ([(k, v)], w)
                              else if e = CHR '','' then
                                map_option (\<lambda>(kvs, r). ((k, v) # kvs, r)) (scan_members n (skip_ws w))
                              else None)))))"

definition json_loads :: "string \<Rightarrow> json option" where
  "json_loads s =
     (case scan_value (2 * length s + 1) (skip_ws s) of
        None \<Rightarrow> None
      | Some (v, r) \<Rightarrow> if skip_ws r = [] then Some v else None)"

lemma json_samples:
  "json_loads '' {[CHR 0x22]''  = None"
  "json_loads ''[1, -20,0, 2.5e1]'' = Some (JSeq [JInt 1, JInt (-20), JInt 0, JFloat 25])"
  "json_loads (''{'' @ quote_string ''a'' @ '': [true , null]}'') = Some (JMap [(''a'', JSeq [JBool True, JNull])])"
  "json_loads ''01'' = None" "json_loads ''[1,]'' = None"
  by code_simp+

section \<open>The bound is enough\<close>

lemma skip_ws_le: "length (skip_ws s) \<le> length s"
  by (rule length_dropWhile_le)

lemma scan_string_shorter: "scan_string s = Some (x, r) \<Longrightarrow> length r < length s"
proof (induction s arbitrary: x r rule: scan_string.induct)
  case (2 c cs)
  show ?case
  proof (cases "c = CHR 0x5C")
    case True
    then obtain d rest y where "scan_escape cs = Some (d, rest)" "scan_string rest = Some (y, r)"
      using 2(3) by (auto split: option.splits)
    then show ?thesis using 2(1) True scan_escape_shorter by fastforce
  next
    case False
    then show ?thesis using 2(2,3) by (auto split: if_splits)
  qed
qed simp

lemma scan_fraction_shorter: "scan_fraction s = (d, r) \<Longrightarrow> length r \<le> length s"
  by (auto simp: scan_fraction_def split: list.splits if_splits)

lemma scan_exponent_shorter: "scan_exponent s = Some (e, r) \<Longrightarrow> length r \<le> length s"
  by (auto simp: scan_exponent_def Let_def split: list.splits if_splits)

lemma scan_magnitude_shorter:
  assumes "scan_magnitude s = Some (v, r)"
  shows "length r < length s"
proof -
  let ?run = "digit_run s"
  let ?whole = "if ?run \<noteq> [] \<and> hd ?run = CHR ''0'' then ''0'' else ?run"
  have "?whole \<noteq> []" using assms by (auto simp: scan_magnitude_def Let_def)
  moreover from this have "s \<noteq> []" by (cases s) auto
  ultimately have less: "length (drop (length ?whole) s) < length s" by simp
  obtain d r1 where f: "scan_fraction (drop (length ?whole) s) = (d, r1)" by fastforce
  have "length r \<le> length r1"
    using assms f by (auto simp: scan_magnitude_def Let_def split: option.splits if_splits dest: scan_exponent_shorter)
  then show ?thesis using scan_fraction_shorter [OF f] less by linarith
qed

lemma scan_literal_shorter: "scan_literal s = Some (v, r) \<Longrightarrow> length r < length s"
  by (cases s) (auto simp: scan_literal_def scan_number_def split: if_splits dest!: scan_magnitude_shorter)

lemma skip_ws_Cons: "skip_ws t = d # u \<Longrightarrow> length u < length t"
  using skip_ws_le [of t] by simp

lemma scan_value_Suc:
  "scan_value (Suc n) [] = None"
  "scan_value (Suc n) (c # t) =
     (if c = CHR 0x22 then map_option (\<lambda>(x, r). (JStr x, r)) (scan_string t)
      else if c = CHR ''['' then
        (case skip_ws t of
           d # u \<Rightarrow> if d = CHR '']'' then Some (JSeq [], u)
                   else map_option (\<lambda>(vs, r). (JSeq vs, r)) (scan_items n (d # u))
         | [] \<Rightarrow> None)
      else if c = CHR ''{'' then
        (case skip_ws t of
           d # u \<Rightarrow> if d = CHR ''}'' then Some (JMap [], u)
                   else map_option (\<lambda>(kvs, r). (JMap (fold (\<lambda>(k, v). AList.update k v) kvs []), r))
                          (scan_members n (d # u))
         | [] \<Rightarrow> None)
      else scan_literal (c # t))"
  by simp_all

lemmas scan_items_Suc = scan_items.simps(2)

lemmas scan_members_Suc = scan_members.simps(2)

declare scan_value.simps(2) [simp del] scan_items.simps(2) [simp del] scan_members.simps(2) [simp del]

lemma scan_shorter_all:
  "(\<forall>s v r. scan_value n s = Some (v, r) \<longrightarrow> length r < length s) \<and>
   (\<forall>s v r. scan_items n s = Some (v, r) \<longrightarrow> length r < length s) \<and>
   (\<forall>s v r. scan_members n s = Some (v, r) \<longrightarrow> length r < length s)"
proof (induction n)
  case (Suc n)
  then have v: "\<And>s v r. scan_value n s = Some (v, r) \<Longrightarrow> length r < length s"
    and i: "\<And>s v r. scan_items n s = Some (v, r) \<Longrightarrow> length r < length s"
    and m: "\<And>s v r. scan_members n s = Some (v, r) \<Longrightarrow> length r < length s"
    by blast+
  have "length r < length s" if h: "scan_value (Suc n) s = Some (x, r)" for s x r
  proof (cases s)
    case (Cons c t)
    show ?thesis
      using h unfolding Cons scan_value_Suc
      by (auto split: if_splits list.splits
          dest!: scan_string_shorter i m skip_ws_Cons scan_literal_shorter dest: less_SucI)
  qed (use h in \<open>simp add: scan_value_Suc\<close>)
  moreover have "length r < length s" if h: "scan_items (Suc n) s = Some (x, r)" for s x r
  proof -
    obtain y r1 where 1: "scan_value n s = Some (y, r1)"
      using h by (cases "scan_value n s") (auto simp: scan_items_Suc)
    obtain d u where 2: "skip_ws r1 = d # u" using h 1 by (auto simp: scan_items_Suc split: list.splits)
    have "length r \<le> length u"
      using h 1 2 skip_ws_le [of u] by (auto simp: scan_items_Suc split: if_splits dest!: i)
    then show ?thesis using v [OF 1] skip_ws_Cons [OF 2] by linarith
  qed
  moreover have "length r < length s" if h: "scan_members (Suc n) s = Some (x, r)" for s x r
  proof -
    obtain t where s: "s = CHR 0x22 # t" using h by (auto simp: scan_members_Suc split: list.splits if_splits)
    obtain k r0 where 0: "scan_string t = Some (k, r0)" using h s by (auto simp: scan_members_Suc split: option.splits)
    obtain w where 1: "skip_ws r0 = CHR '':'' # w" using h s 0 by (auto simp: scan_members_Suc split: list.splits if_splits)
    obtain y r1 where 2: "scan_value n (skip_ws w) = Some (y, r1)" using h s 0 1 by (auto simp: scan_members_Suc split: option.splits)
    obtain e u where 3: "skip_ws r1 = e # u" using h s 0 1 2 by (auto simp: scan_members_Suc split: list.splits)
    have "length r \<le> length u"
      using h s 0 1 2 3 skip_ws_le [of u] by (auto simp: scan_members_Suc split: if_splits dest!: m)
    then show ?thesis
      using scan_string_shorter [OF 0] skip_ws_Cons [OF 1] v [OF 2] skip_ws_le [of w] skip_ws_Cons [OF 3]
      by (simp add: s)
  qed
  ultimately show ?case by blast
qed simp

lemmas scan_shorter = scan_shorter_all [THEN conjunct1, rule_format]
  scan_shorter_all [THEN conjunct2, THEN conjunct1, rule_format]
  scan_shorter_all [THEN conjunct2, THEN conjunct2, rule_format]

lemma scan_enough_all:
  "(\<forall>s. 2 * length s < n \<longrightarrow> scan_value (Suc n) s = scan_value n s) \<and>
   (\<forall>s. 2 * length s + 1 < n \<longrightarrow> scan_items (Suc n) s = scan_items n s) \<and>
   (\<forall>s. 2 * length s + 1 < n \<longrightarrow> scan_members (Suc n) s = scan_members n s)"
proof (induction n)
  case (Suc n)
  then have v: "\<And>s. 2 * length s < n \<Longrightarrow> scan_value (Suc n) s = scan_value n s"
    and i: "\<And>s. 2 * length s + 1 < n \<Longrightarrow> scan_items (Suc n) s = scan_items n s"
    and m: "\<And>s. 2 * length s + 1 < n \<Longrightarrow> scan_members (Suc n) s = scan_members n s"
    by blast+
  have "scan_value (Suc (Suc n)) s = scan_value (Suc n) s" if len: "2 * length s < Suc n" for s
  proof (cases s)
    case (Cons c t)
    show ?thesis
    proof (cases "skip_ws t")
      case Nil
      show ?thesis unfolding \<open>s = c # t\<close> scan_value_Suc Nil list.case ..
    next
      case (Cons d u)
      have *: "scan_items (Suc n) (d # u) = scan_items n (d # u)" "scan_members (Suc n) (d # u) = scan_members n (d # u)"
        using skip_ws_Cons [OF Cons] len \<open>s = c # t\<close> by (auto intro!: i m)
      show ?thesis unfolding \<open>s = c # t\<close> scan_value_Suc Cons list.case * ..
    qed
  qed (simp add: scan_value_Suc)
  moreover have "scan_items (Suc (Suc n)) s = scan_items (Suc n) s" if len: "2 * length s + 1 < Suc n" for s
  proof -
    have 0: "scan_value (Suc n) s = scan_value n s" using len by (intro v) simp
    show ?thesis
    proof (cases "scan_value n s")
      case None
      show ?thesis unfolding scan_items_Suc 0 None option.case ..
    next
      case (Some p)
      obtain y r where p: "p = (y, r)" by (cases p)
      show ?thesis
      proof (cases "skip_ws r")
        case Nil
        show ?thesis unfolding scan_items_Suc [of "Suc n" s] scan_items_Suc [of n s] 0 Some p option.case prod.case Nil list.case ..
      next
        case (Cons d u)
        have *: "scan_items (Suc n) (skip_ws u) = scan_items n (skip_ws u)"
          using scan_shorter(1) [OF Some [unfolded p]] skip_ws_Cons [OF Cons] skip_ws_le [of u] len by (intro i) simp
        show ?thesis
          unfolding scan_items_Suc [of "Suc n" s] scan_items_Suc [of n s] 0 Some p option.case prod.case Cons list.case * ..
      qed
    qed
  qed
  moreover have "scan_members (Suc (Suc n)) s = scan_members (Suc n) s" if len: "2 * length s + 1 < Suc n" for s
  proof (cases s)
    case (Cons c t)
    have 0: "scan_value (Suc n) (skip_ws u) = scan_value n (skip_ws u)"
      if "scan_string t = Some (k, r)" "skip_ws r = d # u" for k r d u
      using scan_string_shorter [OF that(1)] skip_ws_Cons [OF that(2)] skip_ws_le [of u] len Cons by (intro v) simp
    have 1: "scan_members (Suc n) (skip_ws w) = scan_members n (skip_ws w)"
      if "scan_string t = Some (k, r)" "skip_ws r = d # u" "scan_value n (skip_ws u) = Some (y, r1)" "skip_ws r1 = e # w"
      for k r d u y r1 e w
      using scan_string_shorter [OF that(1)] skip_ws_Cons [OF that(2)] skip_ws_le [of u] scan_shorter(1) [OF that(3)]
        skip_ws_Cons [OF that(4)] skip_ws_le [of w] len Cons by (intro m) simp
    note unf = scan_members_Suc [of "Suc n" "c # t"] scan_members_Suc [of n "c # t"] list.case
    show ?thesis
    proof (cases "c = CHR 0x22")
      case True
      show ?thesis
      proof (cases "scan_string t")
        case None
        show ?thesis unfolding Cons unf None option.case ..
      next
        case (Some p)
        obtain k r where p: "p = (k, r)" by (cases p)
        show ?thesis
        proof (cases "skip_ws r")
          case Nil
          show ?thesis unfolding Cons unf Some p option.case prod.case Nil ..
        next
          fix d u assume du: "skip_ws r = d # u"
          show ?thesis
          proof (cases "scan_value n (skip_ws u)")
            case None
            show ?thesis unfolding Cons unf Some p option.case prod.case du 0 [OF Some [unfolded p] du] None ..
          next
            fix q assume q: "scan_value n (skip_ws u) = Some q"
            obtain y r1 where yr: "q = (y, r1)" by (cases q)
            note q' = q [unfolded yr]
            show ?thesis
            proof (cases "skip_ws r1")
              case Nil
              show ?thesis
                unfolding Cons unf Some p option.case prod.case du 0 [OF Some [unfolded p] du] q' Nil ..
            next
              fix e w assume ew: "skip_ws r1 = e # w"
              show ?thesis
                unfolding Cons unf Some p option.case prod.case du 0 [OF Some [unfolded p] du] q' ew
                  1 [OF Some [unfolded p] du q' ew] ..
            qed
          qed
        qed
      qed
    next
      case False
      show ?thesis unfolding Cons unf if_P [OF False] ..
    qed
  qed (simp add: scan_members_Suc)
  ultimately show ?case by blast
qed simp

lemma scan_value_enough:
  assumes "2 * length s < n"
  shows "scan_value (n + k) s = scan_value n s"
proof (induction k)
  case (Suc k)
  then show ?case using scan_enough_all [of "n + k"] assms by simp
qed simp

section \<open>What is printed parses back\<close>

lemma hex_value_digit: "k < 16 \<Longrightarrow> hex_value (hex_digit k) = Some k"
proof -
  assume "k < 16"
  then have "(of_char (hex_digit k) :: nat) = (if k < 10 then 48 + k else 87 + k)"
    by (simp add: hex_digit_def of_char_of)
  with \<open>k < 16\<close> show ?thesis by (auto simp: hex_value_def Let_def)
qed

lemma char_is: "(of_char c :: nat) = n \<Longrightarrow> c = char_of n"
  by (metis char_of_char)

lemma simple_escapes:
  "scan_escape (CHR 0x22 # t) = Some (CHR 0x22, t)" "scan_escape (CHR 0x5C # t) = Some (CHR 0x5C, t)"
  "scan_escape (CHR ''n'' # t) = Some (CHR 0x0A, t)" "scan_escape (CHR ''r'' # t) = Some (CHR 0x0D, t)"
  "scan_escape (CHR ''t'' # t) = Some (CHR 0x09, t)" "scan_escape (CHR ''f'' # t) = Some (CHR 0x0C, t)"
  "scan_escape (CHR ''b'' # t) = Some (CHR 0x08, t)"
  by (simp_all add: scan_escape_def simple_escape_def)

lemma char_code: "k < 256 \<Longrightarrow> (of_char c :: nat) = k \<longleftrightarrow> c = char_of k"
  by (auto simp: of_char_of dest: char_is)

lemma char_values:
  "char_of (34 :: nat) = CHR 0x22" "char_of (92 :: nat) = CHR 0x5C" "char_of (10 :: nat) = CHR 0x0A"
  "char_of (13 :: nat) = CHR 0x0D" "char_of (9 :: nat) = CHR 0x09" "char_of (12 :: nat) = CHR 0x0C"
  "char_of (8 :: nat) = CHR 0x08"
  by code_simp+

lemma special_chars:
  "(of_char c :: nat) = 34 \<longleftrightarrow> c = CHR 0x22" "(of_char c :: nat) = 92 \<longleftrightarrow> c = CHR 0x5C"
  "(of_char c :: nat) = 10 \<longleftrightarrow> c = CHR 0x0A" "(of_char c :: nat) = 13 \<longleftrightarrow> c = CHR 0x0D"
  "(of_char c :: nat) = 9 \<longleftrightarrow> c = CHR 0x09" "(of_char c :: nat) = 12 \<longleftrightarrow> c = CHR 0x0C"
  "(of_char c :: nat) = 8 \<longleftrightarrow> c = CHR 0x08"
  unfolding char_values [symmetric] by (rule char_code; simp)+

lemma scan_unicode_escape:
  "scan_escape (CHR ''u'' # CHR ''0'' # CHR ''0'' # hex_digit (of_char c div 16) # hex_digit (of_char c mod 16) # t) =
     Some (c, t)"
proof -
  have n: "(of_char c :: nat) < 256" by (rule nat_of_char_less_256)
  then have "(of_char c :: nat) div 16 < 16" using less_mult_imp_div_less [of "of_char c" 16 16] by simp
  moreover have "hex_value (CHR ''0'') = Some 0" by (simp add: hex_value_def)
  ultimately show ?thesis
    by (simp add: scan_escape_def unicode_escape_def hex_value_digit)
qed

lemma scan_string_escape:
  "scan_string (escape_char c @ t) = map_option (\<lambda>(s, r). (c # s, r)) (scan_string t)"
proof -
  let ?n = "of_char c :: nat"
  consider "?n \<in> {34, 92, 10, 13, 9, 12, 8}"
    | "?n \<notin> {34, 92, 10, 13, 9, 12, 8}" "32 \<le> ?n \<and> ?n < 127"
    | "?n \<notin> {34, 92, 10, 13, 9, 12, 8}" "\<not> (32 \<le> ?n \<and> ?n < 127)" by blast
  then show ?thesis
  proof cases
    case 1
    then show ?thesis
      by (auto simp: special_chars escape_char_def simple_escapes)
  next
    case 2
    then have "escape_char c = [c]" by (simp add: escape_char_def Let_def)
    then show ?thesis using 2 by (auto simp: special_chars [symmetric])
  next
    case 3
    then have "escape_char c = [CHR 0x5C, CHR ''u'', CHR ''0'', CHR ''0'', hex_digit (?n div 16), hex_digit (?n mod 16)]"
      unfolding escape_char_def Let_def by (simp only: insert_iff empty_iff if_False de_Morgan_disj)
    then show ?thesis by (simp add: scan_unicode_escape)
  qed
qed

lemma scan_string_quoted: "scan_string (concat (map escape_char s) @ CHR 0x22 # rest) = Some (s, rest)"
  by (induction s) (simp_all add: scan_string_escape)

lemma is_digit_show_nat: "c \<in> set (show_nat n) \<Longrightarrow> is_digit c"
  using show_nat_digit [of c n] by (auto simp: is_digit_def)

definition stops :: "string \<Rightarrow> bool" where
  "stops rest = (case rest of [] \<Rightarrow> True | c # _ \<Rightarrow> \<not> is_digit c \<and> c \<notin> {CHR ''.'', CHR ''e'', CHR ''E''})"

lemma digit_run_show_nat: "stops rest \<Longrightarrow> digit_run (show_nat n @ rest) = show_nat n"
  by (subst takeWhile_append2) (auto simp: is_digit_show_nat stops_def split: list.splits)

lemma show_nat_leading: "hd (show_nat n) = CHR ''0'' \<Longrightarrow> n = 0"
proof (induction n rule: show_nat.induct)
  case (1 n)
  show ?case
  proof (cases "n < 10")
    case True
    have "char_of (48 + n) = CHR ''0''" using "1.prems" True by (simp add: show_nat.simps [of n])
    from arg_cong [OF this, of "of_char :: char \<Rightarrow> nat"] show ?thesis using True by (simp add: of_char_of)
  next
    case False
    then have "n div 10 = 0" using 1 by (simp add: show_nat.simps [of n])
    then show ?thesis using False by simp
  qed
qed

lemma show_nat_0: "show_nat 0 = ''0''"
  by code_simp

lemma scan_magnitude_show_nat:
  assumes "stops rest"
  shows "scan_magnitude (show_nat n @ rest) = Some (JInt (int n), rest)"
proof -
  let ?run = "digit_run (show_nat n @ rest)"
  have whole: "(if ?run \<noteq> [] \<and> hd ?run = CHR ''0'' then ''0'' else ?run) = show_nat n"
    unfolding digit_run_show_nat [OF assms] using show_nat_leading [of n] show_nat_0 by auto
  have "scan_fraction rest = ([], rest)" "scan_exponent rest = None"
    using assms by (auto simp: scan_fraction_def scan_exponent_def stops_def split: list.splits)
  then show ?thesis
    unfolding scan_magnitude_def Let_def whole by (simp add: digits_value_def py_int_show_nat)
qed

lemma first_digit:
  obtains c t where "show_nat n = c # t" "is_digit c"
  by (cases "show_nat n") (use is_digit_show_nat [of _ n] in auto)

lemma digit_not_special:
  assumes "is_digit c"
  shows "c \<noteq> CHR ''-''" "c \<noteq> CHR ''n''" "c \<noteq> CHR ''t''" "c \<noteq> CHR ''f''" "c \<noteq> CHR 0x22" "c \<noteq> CHR ''[''" "c \<noteq> CHR ''{''"
    "\<not> json_ws c" "c \<noteq> CHR '']''" "c \<noteq> CHR ''}''"
  using assms by (auto simp: is_digit_def digit_val_def json_ws_def)

lemma scan_literal_int:
  assumes "stops rest"
  shows "scan_literal (show_int i @ rest) = Some (JInt i, rest)"
proof (cases "i < 0")
  case True
  then have "show_int i @ rest = CHR ''-'' # show_nat (nat (- i)) @ rest" by (simp add: show_int_def)
  then show ?thesis
    using True by (simp add: scan_literal_def scan_number_def scan_magnitude_show_nat [OF assms])
next
  case False
  obtain c t where c: "show_nat (nat i) = c # t" "is_digit c" by (rule first_digit)
  have "show_int i @ rest = c # t @ rest" using False c by (simp add: show_int_def)
  moreover have "scan_magnitude (c # t @ rest) = Some (JInt i, rest)"
    using scan_magnitude_show_nat [OF assms, of "nat i"] False c by simp
  ultimately show ?thesis
    using digit_not_special [OF c(2)] by (simp add: scan_literal_def scan_number_def)
qed

text \<open>Values that print and parse back: no bytes, no float, and the keys of a dict are distinct.\<close>

fun exact_json :: "json \<Rightarrow> bool"
  and exact_items :: "json list \<Rightarrow> bool"
  and exact_members :: "(string \<times> json) list \<Rightarrow> bool" where
  "exact_json (JMap kvs) \<longleftrightarrow> distinct (map fst kvs) \<and> exact_members kvs"
| "exact_json (JSeq vs) \<longleftrightarrow> exact_items vs"
| "exact_json (JBytes s) \<longleftrightarrow> False"
| "exact_json (JFloat q) \<longleftrightarrow> False"
| "exact_json _ \<longleftrightarrow> True"
| "exact_items [] \<longleftrightarrow> True"
| "exact_items (v # vs) \<longleftrightarrow> exact_json v \<and> exact_items vs"
| "exact_members [] \<longleftrightarrow> True"
| "exact_members ((k, v) # kvs) \<longleftrightarrow> exact_json v \<and> exact_members kvs"

lemma fold_update_fresh:
  "distinct (map fst (d @ kvs)) \<Longrightarrow> fold (\<lambda>(k, v). AList.update k v) kvs d = d @ kvs"
proof (induction kvs arbitrary: d)
  case (Cons p kvs)
  obtain k v where p: "p = (k, v)" by (cases p)
  have "AList.update k v d = d @ [(k, v)]" if "k \<notin> fst ` set d" for d :: "('a \<times> 'b) list"
    using that by (induction d) auto
  then have "AList.update k v d = d @ [(k, v)]" using Cons.prems p by auto
  then show ?case using Cons.IH [of "d @ [(k, v)]"] Cons.prems by (simp add: p)
qed simp

definition value_start :: "char \<Rightarrow> bool" where
  "value_start c \<longleftrightarrow> \<not> json_ws c \<and> c \<noteq> CHR '']'' \<and> c \<noteq> CHR ''}''"

lemma quote_string_start: "\<exists>t. quote_string s = CHR 0x22 # t"
  by (simp add: quote_string_def)

lemma dumps_start: "exact_json v \<Longrightarrow> \<exists>c t. dumps gap fr v = c # t \<and> value_start c"
proof (cases v)
  case (JInt i)
  obtain c t where "show_nat (nat i) = c # t" "is_digit c" by (rule first_digit)
  then show ?thesis
    using JInt digit_not_special [of c] by (auto simp: show_int_def value_start_def json_ws_def)
qed (auto simp: value_start_def json_ws_def quote_string_def)

lemma json_ws_sep:
  "\<not> json_ws CHR '',''" "\<not> json_ws CHR '':''" "\<not> json_ws CHR '']''" "\<not> json_ws CHR ''}''"
  "\<not> json_ws CHR 0x22"
  by (simp_all add: json_ws_def)

lemma skip_gap: "list_all json_ws gap \<Longrightarrow> skip_ws (gap @ s) = skip_ws s"
  by (induction gap) auto

lemma dumps_skip: "exact_json v \<Longrightarrow> skip_ws (dumps gap fr v @ rest) = dumps gap fr v @ rest"
  using dumps_start [of v gap fr] by (auto simp: value_start_def)

lemma stops_after: "stops (CHR '','' # t)" "stops (CHR '']'' # t)" "stops (CHR ''}'' # t)" "stops []"
  by (simp_all add: stops_def is_digit_def digit_val_def)

lemma scan_value_literal:
  "c \<notin> {CHR 0x22, CHR ''['', CHR ''{''} \<Longrightarrow> scan_value (Suc n) (c # t) = scan_literal (c # t)"
  by (simp add: scan_value_Suc)

lemma scan_value_int:
  assumes "stops rest"
  shows "scan_value (Suc n) (show_int i @ rest) = Some (JInt i, rest)"
proof -
  obtain d u where "show_nat (nat i) = d # u" "is_digit d" by (rule first_digit)
  then obtain c t where c: "show_int i = c # t" "c \<notin> {CHR 0x22, CHR ''['', CHR ''{''}"
    using digit_not_special [of d] by (cases "i < 0") (auto simp: show_int_def)
  then have "scan_value (Suc n) (show_int i @ rest) = scan_literal (show_int i @ rest)"
    by (simp add: scan_value_literal del: insert_iff)
  then show ?thesis by (simp only: scan_literal_int [OF assms])
qed

lemma scan_dumps:
  "list_all json_ws gap \<Longrightarrow> exact_json v \<Longrightarrow> stops rest \<Longrightarrow> 2 * length (dumps gap fr v @ rest) < n \<Longrightarrow>
     scan_value n (dumps gap fr v @ rest) = Some (v, rest)"
  "list_all json_ws gap \<Longrightarrow> exact_items vs \<Longrightarrow> vs \<noteq> [] \<Longrightarrow> 2 * length (dumps_items gap fr vs @ rest) + 1 < n \<Longrightarrow>
     scan_items n (dumps_items gap fr vs @ rest) = Some (vs, rest)"
  "list_all json_ws gap \<Longrightarrow> exact_members kvs \<Longrightarrow> kvs \<noteq> [] \<Longrightarrow> 2 * length (dumps_members gap fr kvs @ rest) + 1 < n \<Longrightarrow>
     scan_members n (dumps_members gap fr kvs @ rest) = Some (kvs, rest)"
proof (induction gap fr v and gap fr vs and gap fr kvs arbitrary: n rest and n rest and n rest rule: dumps_dumps_items_dumps_members.induct)
  case (1 gap fr kvs)
  then obtain m where n: "n = Suc m" by (cases n) auto
  show ?case
  proof (cases kvs)
    case Nil
    then show ?thesis by (simp add: n scan_value_Suc json_ws_def)
  next
    case (Cons p ps)
    obtain k w where p: "p = (k, w)" by (cases p)
    have "scan_members m (dumps_members gap fr kvs @ rest) = Some (kvs, rest)"
      using 1 n Cons by simp
    moreover obtain t where "dumps_members gap fr kvs @ rest = CHR 0x22 # t"
      using quote_string_start [of k] by (auto simp: Cons p)
    ultimately show ?thesis
      using 1(3) fold_update_fresh [of "[]" kvs] by (simp add: n scan_value_Suc json_ws_def)
  qed
next
  case (2 gap fr vs)
  then obtain m where n: "n = Suc m" by (cases n) auto
  show ?case
  proof (cases vs)
    case Nil
    then show ?thesis by (simp add: n scan_value_Suc json_ws_def)
  next
    case (Cons w ws)
    have "scan_items m (dumps_items gap fr vs @ rest) = Some (vs, rest)"
      using 2 n Cons by simp
    moreover obtain c t where "dumps_items gap fr vs @ rest = c # t" "value_start c"
      using dumps_start [of w gap fr] 2(3) by (auto simp: Cons)
    ultimately show ?thesis
      by (simp add: n scan_value_Suc value_start_def)
  qed
next
  case (3 gap fr s)
  then obtain m where n: "n = Suc m" by (cases n) auto
  show ?case by (simp add: n scan_value_Suc quote_string_def scan_string_quoted)
next
  case (5 gap fr i)
  then obtain m where n: "n = Suc m" by (cases n) auto
  show ?case using 5 by (simp add: n scan_value_int)
next
  case (7 gap fr b)
  then obtain m where n: "n = Suc m" by (cases n) auto
  show ?case by (simp add: n scan_value_literal scan_literal_def)
next
  case (8 gap fr)
  then obtain m where n: "n = Suc m" by (cases n) auto
  show ?case by (simp add: n scan_value_literal scan_literal_def)
next
  case (10 gap fr v vs)
  then obtain m where n: "n = Suc m" by (cases n) auto
  show ?case
  proof (cases vs)
    case Nil
    have "scan_value m (dumps gap fr v @ CHR '']'' # rest) = Some (v, CHR '']'' # rest)"
      using 10 Nil n by (intro "10.IH"(1)) (simp_all add: stops_after)
    then show ?thesis by (simp add: n Nil scan_items_Suc json_ws_def)
  next
    case (Cons w ws)
    have gap: "skip_ws (gap @ s) = skip_ws s" for s
      using 10 by (intro skip_gap) simp
    have "scan_value m (dumps gap fr v @ CHR '','' # gap @ dumps_items gap fr vs @ rest) = Some (v, CHR '','' # gap @ dumps_items gap fr vs @ rest)"
      using 10 Cons n by (intro "10.IH"(1)) (simp_all add: stops_after)
    moreover have "scan_items m (dumps_items gap fr vs @ rest) = Some (vs, rest)"
      using 10 Cons n by (intro "10.IH"(2)) simp_all
    moreover have "skip_ws (dumps_items gap fr vs @ rest) = dumps_items gap fr vs @ rest"
      using dumps_skip [of w] 10 Cons by simp
    ultimately show ?thesis by (simp add: n Cons scan_items_Suc json_ws_sep gap)
  qed
next
  case (12 gap fr k v kvs)
  then obtain m where n: "n = Suc m" by (cases n) auto
  have gap: "skip_ws (gap @ s) = skip_ws s" for s
    using 12 by (intro skip_gap) simp
  have key: "scan_string (concat (map escape_char k) @ CHR 0x22 # t) = Some (k, t)" for t
    by (rule scan_string_quoted)
  show ?case
  proof (cases kvs)
    case Nil
    have "scan_value m (dumps gap fr v @ CHR ''}'' # rest) = Some (v, CHR ''}'' # rest)"
      using 12 Nil n by (intro "12.IH"(1)) (simp_all add: stops_after quote_string_def)
    then show ?thesis
      using 12 Nil by (simp add: n scan_members_Suc quote_string_def key json_ws_sep gap dumps_skip)
  next
    case (Cons p ps)
    obtain k' w where p: "p = (k', w)" by (cases p)
    have "scan_value m (dumps gap fr v @ CHR '','' # gap @ dumps_members gap fr kvs @ rest) =
        Some (v, CHR '','' # gap @ dumps_members gap fr kvs @ rest)"
      using 12 Cons n by (intro "12.IH"(1)) (simp_all add: stops_after quote_string_def)
    moreover have "scan_members m (dumps_members gap fr kvs @ rest) = Some (kvs, rest)"
      using 12 Cons n by (intro "12.IH"(2)) (simp_all add: quote_string_def)
    moreover have "skip_ws (dumps_members gap fr kvs @ rest) = dumps_members gap fr kvs @ rest"
      by (simp add: Cons p quote_string_def json_ws_def)
    ultimately show ?thesis
      using 12 Cons by (simp add: n scan_members_Suc quote_string_def key json_ws_sep gap dumps_skip)
  qed
qed simp_all

lemma loads_dumps:
  assumes "exact_json v" and "list_all json_ws gap"
  shows "json_loads (dumps gap fr v) = Some v"
proof -
  have "scan_value (2 * length (dumps gap fr v) + 1) (dumps gap fr v @ []) = Some (v, [])"
    using assms by (intro scan_dumps) (simp_all add: stops_after)
  then show ?thesis using dumps_skip [OF assms(1), of gap fr "[]"] by (simp add: json_loads_def)
qed

end
