(* ===== verification/Tokens.thy ===== *)
theory Tokens
  imports Json Base64 Sha256 UseCases WsProtocol
begin

text \<open>
  Stream tokens (\<open>adapters/outbound/persistence/tokens.py\<close>): a grant as compact JSON, base64url without
  padding, and an HMAC-SHA256 tag over it. \<open>hmac\<close>, \<open>base64\<close> and \<open>json\<close> of the standard library are
  written out; \<open>str\<close> of a dict, list or float is the argument \<open>texts\<close> of \<open>py_conversions\<close>, and JSON bytes
  that are not UTF-8 of Latin-1 text do not decode.
\<close>

section \<open>HMAC and UTF-8\<close>

definition word_bytes :: "w32 \<Rightarrow> bytes" where
  "word_bytes w = map (\<lambda>i. unat w div 256 ^ i mod 256) [3, 2, 1, 0]"

definition sha256_digest :: "bytes \<Rightarrow> bytes" where
  "sha256_digest bs = concat (map word_bytes (sha256 bs))"

definition hmac_block :: "bytes \<Rightarrow> bytes" where
  "hmac_block key =
     (let k = (if 64 < length key then sha256_digest key else key) in k @ replicate (64 - length k) 0)"

definition xor_byte :: "nat \<Rightarrow> nat \<Rightarrow> nat" where
  "xor_byte a b = a XOR b"

definition hmac_sha256 :: "bytes \<Rightarrow> bytes \<Rightarrow> bytes" where
  "hmac_sha256 key msg =
     (let k = hmac_block key in
      sha256_digest (map (xor_byte 92) k @ sha256_digest (map (xor_byte 54) k @ msg)))"

fun utf8_decode :: "bytes \<Rightarrow> string option" where
  "utf8_decode [] = Some []"
| "utf8_decode (b # bs) =
     (if b < 128 then map_option (Cons (char_of b)) (utf8_decode bs)
      else if b \<in> {194, 195} then
        (case bs of
           c # cs \<Rightarrow> if 128 \<le> c \<and> c < 192 then map_option (Cons (char_of ((b - 192) * 64 + (c - 128)))) (utf8_decode cs)
                    else None
         | [] \<Rightarrow> None)
      else None)"

section \<open>The minter\<close>

definition MIN_SIGNING_KEY_LENGTH :: nat where
  "MIN_SIGNING_KEY_LENGTH = 32"

definition HmacStreamTokenMinter :: "string \<Rightarrow> bytes result" where
  "HmacStreamTokenMinter signing_key =
     (if length signing_key < MIN_SIGNING_KEY_LENGTH then Inl ValueError else Inr (utf8 signing_key))"

fun scope_value :: "scope \<Rightarrow> string" where
  "scope_value SESSIONS_WRITE = ''sessions:write''"
| "scope_value SESSIONS_READ = ''sessions:read''"
| "scope_value RESULTS_READ = ''results:read''"
| "scope_value EVIDENCE_DELETE = ''evidence:delete''"
| "scope_value JOBS_WRITE = ''jobs:write''"
| "scope_value ADMIN = ''admin''"

definition all_scopes :: "scope list" where
  "all_scopes = [SESSIONS_WRITE, SESSIONS_READ, RESULTS_READ, EVIDENCE_DELETE, JOBS_WRITE, ADMIN]"

definition b64_token :: "bytes \<Rightarrow> string" where
  "b64_token raw = rev (dropWhile (\<lambda>c. c = pad_char) (rev (urlsafe_b64encode raw)))"

definition encode_claims :: "(rat \<Rightarrow> string) \<Rightarrow> (string \<times> json) list \<Rightarrow> string result" where
  "encode_claims fr claims =
     bindR (json_dumps [] fr (JMap (sort_key fst claims))) (\<lambda>raw. Inr (b64_token (utf8 raw)))"

definition decode_claims :: "string \<Rightarrow> (string \<times> json) list result" where
  "decode_claims payload =
     (let padding = replicate (nat (- int (length payload) mod 4)) pad_char in
      bindR (urlsafe_b64decode (payload @ padding)) (\<lambda>raw.
        case utf8_decode raw of
          None \<Rightarrow> Inl ValueError
        | Some text \<Rightarrow>
            (case json_loads text of
               Some (JMap claims) \<Rightarrow> Inr claims
             | _ \<Rightarrow> Inl ValueError)))"

definition sign_payload :: "bytes \<Rightarrow> string \<Rightarrow> string" where
  "sign_payload key payload = b64_token (hmac_sha256 key (utf8 payload))"

definition grant_claims :: "stream_grant \<Rightarrow> (string \<times> json) list" where
  "grant_claims g =
     [(''sid'', JStr (session_id_value (gr_session_id g))),
      (''tid'', JStr (tenant_id_value (gr_tenant g))),
      (''aid'', JStr (application_id_value (gr_application g))),
      (''kid'', JStr (api_key_id_value (gr_key_id g))),
      (''exp'', JInt (gr_expires_at_ms g)),
      (''scp'', JSeq (map JStr (sort (map scope_value (gr_scopes g)))))]"

definition mint :: "(rat \<Rightarrow> string) \<Rightarrow> bytes \<Rightarrow> stream_grant \<Rightarrow> string result" where
  "mint fr key g =
     bindR (encode_claims fr (grant_claims g)) (\<lambda>payload. Inr (payload @ CHR ''.'' # sign_payload key payload))"

section \<open>Verification\<close>

text \<open>\<open>token.rsplit(".", 1)\<close>, None without a dot.\<close>

definition rsplit_dot :: "string \<Rightarrow> (string \<times> string) option" where
  "rsplit_dot s =
     (if CHR ''.'' \<in> set s
      then Some (rev (tl (dropWhile (\<lambda>c. c \<noteq> CHR ''.'') (rev s))), rev (takeWhile (\<lambda>c. c \<noteq> CHR ''.'') (rev s)))
      else None)"

definition is_ascii :: "string \<Rightarrow> bool" where
  "is_ascii s \<longleftrightarrow> list_all (\<lambda>c. (of_char c :: nat) < 128) s"

text \<open>\<open>hmac.compare_digest\<close> of two \<open>str\<close>: only ASCII is comparable.\<close>

definition compare_digest :: "string \<Rightarrow> string \<Rightarrow> bool result" where
  "compare_digest a b = (if is_ascii a \<and> is_ascii b then Inr (a = b) else Inl TypeError)"

definition claim_expiry :: "(string \<times> json) list \<Rightarrow> int option" where
  "claim_expiry claims =
     (case map_of claims ''exp'' of
        Some (JInt i) \<Rightarrow> Some i
      | Some (JBool b) \<Rightarrow> Some (if b then 1 else 0)
      | _ \<Rightarrow> None)"

definition claim_id :: "py_conversions \<Rightarrow> (string \<times> json) list \<Rightarrow> string \<Rightarrow> (string \<Rightarrow> 'i) \<Rightarrow> 'i result" where
  "claim_id py claims key con =
     (case map_of claims key of None \<Rightarrow> Inl KeyError | Some v \<Rightarrow> Identifier con (py_str py v))"

text \<open>What iterating a JSON value gives: the items, the keys, or the characters.\<close>

definition json_iter :: "json \<Rightarrow> json list result" where
  "json_iter v =
     (case v of
        JSeq vs \<Rightarrow> Inr vs
      | JMap kvs \<Rightarrow> Inr (map (\<lambda>(k, _). JStr k) kvs)
      | JStr s \<Rightarrow> Inr (map (\<lambda>c. JStr [c]) s)
      | _ \<Rightarrow> Inl TypeError)"

definition scope_of :: "json \<Rightarrow> scope result" where
  "scope_of v =
     (case v of
        JStr s \<Rightarrow> (case enum_of scope_value all_scopes s of None \<Rightarrow> Inl ValueError | Some sc \<Rightarrow> Inr sc)
      | _ \<Rightarrow> Inl ValueError)"

definition grant_of_claims :: "py_conversions \<Rightarrow> (string \<times> json) list \<Rightarrow> int \<Rightarrow> stream_grant result" where
  "grant_of_claims py claims expires =
     bindR (claim_id py claims ''sid'' SessionId) (\<lambda>sid.
     bindR (claim_id py claims ''tid'' TenantId) (\<lambda>tid.
     bindR (claim_id py claims ''aid'' ApplicationId) (\<lambda>aid.
     bindR (claim_id py claims ''kid'' ApiKeyId) (\<lambda>kid.
     bindR (json_iter (get_or claims ''scp'' (JSeq []))) (\<lambda>vs.
     bindR (mapR scope_of vs) (\<lambda>scopes.
       Inr \<lparr>gr_session_id = sid, gr_tenant = tid, gr_application = aid, gr_key_id = kid,
            gr_expires_at_ms = expires, gr_scopes = scopes\<rparr>))))))"

definition unusable_grant :: "exn \<Rightarrow> bool" where
  "unusable_grant e \<longleftrightarrow> e \<in> {KeyError, ValueError, DomainError InvalidIdentifier}"

definition verify_token :: "py_conversions \<Rightarrow> bytes \<Rightarrow> string \<Rightarrow> int \<Rightarrow> stream_grant option result" where
  "verify_token py key token now_ms =
     (case rsplit_dot token of
        None \<Rightarrow> Inr None
      | Some (payload, signature) \<Rightarrow>
          bindR (compare_digest signature (sign_payload key payload)) (\<lambda>equal.
            if \<not> equal then Inr None
            else case decode_claims payload of
              Inl _ \<Rightarrow> Inr None
            | Inr claims \<Rightarrow>
                (case claim_expiry claims of
                   None \<Rightarrow> Inr None
                 | Some expires \<Rightarrow>
                     if expires \<le> now_ms then Inr None
                     else (case grant_of_claims py claims expires of
                             Inr g \<Rightarrow> Inr (Some g)
                           | Inl e \<Rightarrow> if unusable_grant e then Inr None else Inl e))))"

end
