(* ===== verification/TokenProperties.thy ===== *)
theory TokenProperties
  imports Tokens WsHandler
begin

text \<open>
  What a stream token guarantees: what was minted verifies back until it expires, nothing is
  accepted whose tag was not computed with the key, and which tokens make the verification raise.
\<close>

section \<open>Padding comes off and goes back on\<close>

definition b64_set :: "char set" where
  "b64_set = set b64_alphabet"

lemma b64_char_in: "n < 64 \<Longrightarrow> b64_char n \<in> b64_set"
  using b64_alphabet_facts(1) by (simp add: b64_char_def b64_set_def)

lemma b64_url_chars:
  "list_all (\<lambda>c. std_char (url_char c) = c \<and> (of_char (url_char c) :: nat) < 128 \<and> url_char c \<noteq> CHR ''.'' \<and>
     url_char c \<noteq> pad_char) b64_alphabet"
  by code_simp

lemma url_char_facts:
  assumes "c \<in> b64_set"
  shows "std_char (url_char c) = c" "(of_char (url_char c) :: nat) < 128" "url_char c \<noteq> CHR ''.''" "url_char c \<noteq> pad_char"
  using assms b64_url_chars by (auto simp: b64_set_def list_all_iff)

lemma pad_facts: "url_char pad_char = pad_char" "std_char pad_char = pad_char" "(of_char pad_char :: nat) = 61"
    "pad_char \<noteq> CHR ''.''"
  by (simp_all add: pad_char_def url_char_def std_char_def)

lemma b64encode_shape:
  "\<forall>b \<in> set bs. b < 256 \<Longrightarrow>
   \<exists>core p. b64encode bs = core @ replicate p pad_char \<and> set core \<subseteq> b64_set \<and> p < 4 \<and> (length core + p) mod 4 = 0"
proof (induction bs rule: b64encode.induct)
  case 1
  have "b64encode [] = [] @ replicate 0 pad_char" by simp
  then show ?case by (intro exI conjI) auto
next
  case (2 a)
  then have "a div 4 < 64" "a mod 4 * 16 < 64" by auto
  then have "set [b64_char (a div 4), b64_char (a mod 4 * 16)] \<subseteq> b64_set" by (simp add: b64_char_in)
  moreover have "b64encode [a] = [b64_char (a div 4), b64_char (a mod 4 * 16)] @ replicate 2 pad_char"
    by (simp add: numeral_2_eq_2)
  ultimately show ?case
    by (intro exI [of _ "[b64_char (a div 4), b64_char (a mod 4 * 16)]"] exI [of _ 2] conjI) simp_all
next
  case (3 a b)
  then have "a div 4 < 64" "a mod 4 * 16 + b div 16 < 64" "b mod 16 * 4 < 64" by auto
  then have "set [b64_char (a div 4), b64_char (a mod 4 * 16 + b div 16), b64_char (b mod 16 * 4)] \<subseteq> b64_set"
    by (simp add: b64_char_in)
  moreover have "b64encode [a, b] =
      [b64_char (a div 4), b64_char (a mod 4 * 16 + b div 16), b64_char (b mod 16 * 4)] @ replicate 1 pad_char"
    by simp
  ultimately show ?case
    by (intro exI [of _ "[b64_char (a div 4), b64_char (a mod 4 * 16 + b div 16), b64_char (b mod 16 * 4)]"]
        exI [of _ 1] conjI) simp_all
next
  case (4 a b c rest)
  then obtain core p where *: "b64encode rest = core @ replicate p pad_char" "set core \<subseteq> b64_set" "p < 4"
      "(length core + p) mod 4 = 0" by auto
  have "a div 4 < 64" "a mod 4 * 16 + b div 16 < 64" "b mod 16 * 4 + c div 64 < 64" "c mod 64 < 64" using 4 by auto
  then have "set ([b64_char (a div 4), b64_char (a mod 4 * 16 + b div 16), b64_char (b mod 16 * 4 + c div 64),
      b64_char (c mod 64)] @ core) \<subseteq> b64_set" using * by (simp add: b64_char_in)
  moreover have "b64encode (a # b # c # rest) = ([b64_char (a div 4), b64_char (a mod 4 * 16 + b div 16),
      b64_char (b mod 16 * 4 + c div 64), b64_char (c mod 64)] @ core) @ replicate p pad_char"
    using * by simp
  moreover have "(length ([b64_char (a div 4), b64_char (a mod 4 * 16 + b div 16), b64_char (b mod 16 * 4 + c div 64),
      b64_char (c mod 64)] @ core) + p) mod 4 = 0" using * by simp
  ultimately show ?case using *(3) by (intro exI conjI)
qed

lemma strip_pad:
  assumes "pad_char \<notin> set core"
  shows "rev (dropWhile (\<lambda>c. c = pad_char) (rev (core @ replicate p pad_char))) = core"
proof -
  have "dropWhile (\<lambda>c. c = pad_char) (replicate p pad_char @ rev core) = rev core"
    using assms by (cases core rule: rev_cases) (auto simp: dropWhile_append)
  then show ?thesis by simp
qed

lemma b64_token_shape:
  assumes "\<forall>b \<in> set bs. b < 256"
  shows "\<exists>p. urlsafe_b64encode bs = b64_token bs @ replicate p pad_char \<and> p < 4 \<and>
      (length (b64_token bs) + p) mod 4 = 0 \<and> map std_char (b64_token bs @ replicate p pad_char) = b64encode bs"
    and "c \<in> set (b64_token bs) \<Longrightarrow> (of_char c :: nat) < 128 \<and> c \<noteq> CHR ''.''"
proof -
  obtain core p where *: "b64encode bs = core @ replicate p pad_char" "set core \<subseteq> b64_set" "p < 4"
      "(length core + p) mod 4 = 0" using b64encode_shape [OF assms] by - (elim exE conjE, rule that, assumption+)
  have enc: "urlsafe_b64encode bs = map url_char core @ replicate p pad_char"
    by (simp add: urlsafe_b64encode_def *(1) pad_facts)
  have "pad_char \<notin> set (map url_char core)" using *(2) url_char_facts(4) by force
  then have tok: "b64_token bs = map url_char core"
    unfolding b64_token_def enc by (rule strip_pad)
  have "map std_char (map url_char core) = core"
    using *(2) url_char_facts(1) by (auto intro!: map_idI simp: comp_def)
  then show "\<exists>p. urlsafe_b64encode bs = b64_token bs @ replicate p pad_char \<and> p < 4 \<and>
      (length (b64_token bs) + p) mod 4 = 0 \<and> map std_char (b64_token bs @ replicate p pad_char) = b64encode bs"
    using * enc tok by (intro exI [of _ p]) (simp add: pad_facts)
  show "c \<in> set (b64_token bs) \<Longrightarrow> (of_char c :: nat) < 128 \<and> c \<noteq> CHR ''.''"
    unfolding tok using *(2) url_char_facts(2,3) by force
qed

lemma pad_count: "p < 4 \<Longrightarrow> (n + p) mod 4 = 0 \<Longrightarrow> nat (- int n mod 4) = p"
proof -
  assume p: "p < 4" "(n + p) mod 4 = 0"
  then obtain k where "n + p = 4 * k" by (metis mod_0_imp_dvd dvdE)
  then have "- int n = int p + 4 * (- int k)" by linarith
  then have "- int n mod 4 = int p mod 4" by (metis mod_mult_self2)
  then show ?thesis using p(1) by simp
qed

lemma decode_b64_token:
  assumes "\<forall>b \<in> set bs. b < 256"
  shows "urlsafe_b64decode (b64_token bs @ replicate (nat (- int (length (b64_token bs)) mod 4)) pad_char) = Inr bs"
proof -
  obtain p where p: "urlsafe_b64encode bs = b64_token bs @ replicate p pad_char" "p < 4"
      "(length (b64_token bs) + p) mod 4 = 0" "map std_char (b64_token bs @ replicate p pad_char) = b64encode bs"
    using b64_token_shape(1) [OF assms] by - (elim exE conjE, rule that, assumption+)
  have "\<not> (\<exists>c \<in> set (b64_token bs @ replicate p pad_char). 128 \<le> (of_char c :: nat))"
    using b64_token_shape(2) [OF assms] pad_facts(3) by (auto simp: not_le)
  then show ?thesis
    unfolding urlsafe_b64decode_def pad_count [OF p(2,3)] p(4) using b64_roundtrip [OF assms] by simp
qed

section \<open>UTF-8\<close>

lemma utf8_bytes: "b \<in> set (utf8 s) \<Longrightarrow> b < 256"
proof -
  have "b < 256" if "b \<in> set (utf8_char c)" for c
  proof -
    have "(of_char c :: nat) < 256" by simp
    then have "(of_char c :: nat) div 64 < 4" using less_mult_imp_div_less [of "of_char c" 4 64] by simp
    then show ?thesis using that by (auto simp: utf8_char_def Let_def split: if_splits)
  qed
  then show "b \<in> set (utf8 s) \<Longrightarrow> b < 256" by (auto simp: utf8_def)
qed

lemma utf8_decode_char: "utf8_decode (utf8_char c @ t) = map_option (Cons c) (utf8_decode t)"
proof (cases "(of_char c :: nat) < 128")
  case True
  then show ?thesis by (simp add: utf8_char_def Let_def)
next
  case False
  let ?n = "of_char c :: nat"
  have "?n < 256" by simp
  then have "?n div 64 < 4" using less_mult_imp_div_less [of ?n 4 64] by simp
  moreover have "2 \<le> ?n div 64" using div_le_mono [of 128 ?n 64] False by simp
  ultimately have "?n div 64 = 2 \<or> ?n div 64 = 3" by linarith
  moreover have "(192 + ?n div 64 - 192) * 64 + (128 + ?n mod 64 - 128) = ?n" by simp
  moreover have "?n mod 64 < 64" by simp
  ultimately show ?thesis
    using False by (auto simp: utf8_char_def Let_def)
qed

lemma utf8_decode_utf8: "utf8_decode (utf8 s) = Some s"
proof (induction s)
  case (Cons c s)
  then show ?case using utf8_decode_char [of c "utf8 s"] by (simp add: utf8_def)
qed (simp add: utf8_def)

section \<open>Splitting at the dot\<close>

lemma rsplit_dot_Some:
  assumes "rsplit_dot s = Some (p, q)"
  shows "s = p @ CHR ''.'' # q"
proof -
  have dot: "CHR ''.'' \<in> set (rev s)" and p: "p = rev (tl (dropWhile (\<lambda>c. c \<noteq> CHR ''.'') (rev s)))"
    and q: "q = rev (takeWhile (\<lambda>c. c \<noteq> CHR ''.'') (rev s))"
    using assms by (auto simp: rsplit_dot_def split: if_splits)
  let ?d = "dropWhile (\<lambda>c. c \<noteq> CHR ''.'') (rev s)"
  have "?d \<noteq> []" using dot by (auto simp: dropWhile_eq_Nil_conv)
  then have "hd ?d = CHR ''.''" using hd_dropWhile [of "\<lambda>c. c \<noteq> CHR ''.''" "rev s"] by simp
  then have "?d = CHR ''.'' # tl ?d" using \<open>?d \<noteq> []\<close> by (metis list.collapse)
  then have "rev s = takeWhile (\<lambda>c. c \<noteq> CHR ''.'') (rev s) @ CHR ''.'' # tl ?d"
    by (metis takeWhile_dropWhile_id)
  then have "rev (rev s) = rev (takeWhile (\<lambda>c. c \<noteq> CHR ''.'') (rev s) @ CHR ''.'' # tl ?d)" by simp
  then show ?thesis by (simp add: p q)
qed

lemma rsplit_dot_append:
  assumes "CHR ''.'' \<notin> set q"
  shows "rsplit_dot (p @ CHR ''.'' # q) = Some (p, q)"
proof -
  have "takeWhile (\<lambda>c. c \<noteq> CHR ''.'') (rev q @ CHR ''.'' # rev p) = rev q"
    using assms by (subst takeWhile_append2) auto
  moreover have "dropWhile (\<lambda>c. c \<noteq> CHR ''.'') (rev q @ CHR ''.'' # rev p) = CHR ''.'' # rev p"
    using assms by (subst dropWhile_append2) auto
  ultimately show ?thesis by (simp add: rsplit_dot_def)
qed

section \<open>Minting and verifying\<close>

lemma digest_bytes: "b \<in> set (sha256_digest bs) \<Longrightarrow> b < 256"
  by (auto simp: sha256_digest_def word_bytes_def)

lemma signature_chars: "c \<in> set (sign_payload key payload) \<Longrightarrow> (of_char c :: nat) < 128 \<and> c \<noteq> CHR ''.''"
proof -
  have "\<forall>b \<in> set (hmac_sha256 key (utf8 payload)). b < 256"
    using digest_bytes by (simp add: hmac_sha256_def Let_def)
  then show "c \<in> set (sign_payload key payload) \<Longrightarrow> (of_char c :: nat) < 128 \<and> c \<noteq> CHR ''.''"
    unfolding sign_payload_def by (rule b64_token_shape(2))
qed

lemma own_signature: "compare_digest (sign_payload key payload) (sign_payload key payload) = Inr True"
  using signature_chars [of _ key payload] by (simp add: compare_digest_def is_ascii_def list_all_iff)

lemma decode_encode_claims:
  assumes "exact_json (JMap (sort_key fst claims))" and "dumpable (JMap (sort_key fst claims))"
  shows "\<exists>payload. encode_claims fr claims = Inr payload \<and> decode_claims payload = Inr (sort_key fst claims)"
proof -
  let ?text = "dumps [] fr (JMap (sort_key fst claims))"
  have "\<forall>b \<in> set (utf8 ?text). b < 256" using utf8_bytes by blast
  note dec = decode_b64_token [OF this]
  have loads: "json_loads ?text = Some (JMap (sort_key fst claims))"
    by (rule loads_dumps [OF assms(1)]) simp
  have "decode_claims (b64_token (utf8 ?text)) = Inr (sort_key fst claims)"
    unfolding decode_claims_def Let_def dec bindR_simps utf8_decode_utf8 option.case loads by simp
  then show ?thesis using assms(2) by (simp add: encode_claims_def json_dumps_def)
qed

lemma key_order:
  "sorted [''aid'', ''exp'', ''kid'', ''scp'', ''sid'', ''tid'' :: string]"
  "distinct [''sid'', ''tid'', ''aid'', ''kid'', ''exp'', ''scp'' :: string]"
  by code_simp+

lemma sorted_claims:
  "sort_key fst (grant_claims g) =
     [(''aid'', JStr (application_id_value (gr_application g))), (''exp'', JInt (gr_expires_at_ms g)),
      (''kid'', JStr (api_key_id_value (gr_key_id g))),
      (''scp'', JSeq (map JStr (sort (map scope_value (gr_scopes g))))),
      (''sid'', JStr (session_id_value (gr_session_id g))), (''tid'', JStr (tenant_id_value (gr_tenant g)))]"
  (is "_ = ?ys")
proof (rule sort_key_inj_key_eq)
  show "mset (grant_claims g) = mset ?ys" by (simp add: grant_claims_def)
  show "inj_on fst (set (grant_claims g))" by (auto simp: grant_claims_def inj_on_def)
  show "sorted (map fst ?ys)" using key_order(1) by (simp only: list.map fst_conv)
qed

lemma exact_items_strings: "exact_items (map JStr ss)" "list_all dumpable (map JStr ss)"
  by (induction ss) simp_all

lemma claims_exact:
  "exact_json (JMap (sort_key fst (grant_claims g)))" "dumpable (JMap (sort_key fst (grant_claims g)))"
  unfolding sorted_claims by (simp_all add: exact_items_strings)

lemma scope_value_inj: "scope_value a = scope_value b \<longleftrightarrow> a = b"
  by (cases a; cases b) simp_all

lemma scope_of_value: "scope_of (JStr (scope_value sc)) = Inr sc"
proof -
  have "sc \<in> set all_scopes" by (cases sc) (simp_all add: all_scopes_def)
  then show ?thesis by (simp add: scope_of_def enum_of_value scope_value_inj)
qed

lemma scopes_back:
  "mapR scope_of (map JStr (sort (map scope_value scs))) = Inr (sort_key scope_value scs)"
proof -
  have "sort (map scope_value scs) = map scope_value (sort_key scope_value scs)"
    by (rule properties_for_sort) simp_all
  moreover have "mapR scope_of (map JStr (map scope_value ys)) = Inr ys" for ys
    by (induction ys) (simp_all add: scope_of_value)
  ultimately show ?thesis by simp
qed

definition wf_grant :: "stream_grant \<Rightarrow> bool" where
  "wf_grant g \<longleftrightarrow> list_all (\<lambda>s. py_strip s \<noteq> [])
     [session_id_value (gr_session_id g), tenant_id_value (gr_tenant g), application_id_value (gr_application g),
      api_key_id_value (gr_key_id g)]"

lemma grant_back:
  assumes "wf_grant g"
  shows "grant_of_claims py (sort_key fst (grant_claims g)) (gr_expires_at_ms g) =
     Inr (g\<lparr>gr_scopes := sort_key scope_value (gr_scopes g)\<rparr>)"
  using assms unfolding sorted_claims
  by (auto simp: grant_of_claims_def claim_id_def Identifier_def wf_grant_def get_or_def json_iter_def scopes_back)

lemma verify_own:
  assumes "decode_claims payload = Inr claims"
  shows "verify_token py key (payload @ CHR ''.'' # sign_payload key payload) now =
     (case claim_expiry claims of
        None \<Rightarrow> Inr None
      | Some expires \<Rightarrow>
          if expires \<le> now then Inr None
          else (case grant_of_claims py claims expires of
                  Inr g \<Rightarrow> Inr (Some g) | Inl e \<Rightarrow> if unusable_grant e then Inr None else Inl e))"
proof -
  have "CHR ''.'' \<notin> set (sign_payload key payload)" using signature_chars by blast
  note split = rsplit_dot_append [OF this, of payload]
  show ?thesis
    unfolding verify_token_def split option.case prod.case own_signature bindR_simps assms by simp
qed

text \<open>
  C18: A minted token verifies back to its grant, with its scopes, at any time before it expires, under the
  same key, and to nothing from the moment it expires.
\<close>

theorem token_roundtrip:
  assumes "wf_grant g"
  shows "\<exists>token. mint fr key g = Inr token \<and>
     verify_token py key token now =
       Inr (if now < gr_expires_at_ms g then Some (g\<lparr>gr_scopes := sort_key scope_value (gr_scopes g)\<rparr>) else None)"
proof -
  obtain payload where enc: "encode_claims fr (grant_claims g) = Inr payload"
    and dec: "decode_claims payload = Inr (sort_key fst (grant_claims g))"
    using decode_encode_claims [OF claims_exact, of fr] by blast
  have "claim_expiry (sort_key fst (grant_claims g)) = Some (gr_expires_at_ms g)"
    unfolding sorted_claims by (simp add: claim_expiry_def)
  then have "verify_token py key (payload @ CHR ''.'' # sign_payload key payload) now =
      Inr (if now < gr_expires_at_ms g then Some (g\<lparr>gr_scopes := sort_key scope_value (gr_scopes g)\<rparr>) else None)"
    unfolding verify_own [OF dec] by (simp add: grant_back [OF assms])
  moreover have "mint fr key g = Inr (payload @ CHR ''.'' # sign_payload key payload)"
    by (simp add: mint_def enc)
  ultimately show ?thesis by blast
qed

definition token_grant :: stream_grant where
  "token_grant =
     \<lparr>gr_session_id = SessionId ''s1'', gr_tenant = TenantId ''t1'', gr_application = ApplicationId ''a1'',
      gr_key_id = ApiKeyId ''k1'', gr_expires_at_ms = 900, gr_scopes = STREAM_SCOPES\<rparr>"

theorem token_roundtrip_witness:
  "\<exists>token. mint (\<lambda>_. []) (replicate 32 7) token_grant = Inr token \<and>
     verify_token sample_python (replicate 32 7) token 899 =
       Inr (Some (token_grant\<lparr>gr_scopes := [SESSIONS_READ, SESSIONS_WRITE]\<rparr>))"
proof -
  have "wf_grant token_grant" by code_simp
  moreover have "sort_key scope_value (gr_scopes token_grant) = [SESSIONS_READ, SESSIONS_WRITE]" by code_simp
  moreover have "899 < gr_expires_at_ms token_grant" by (simp add: token_grant_def)
  ultimately show ?thesis
    using token_roundtrip [of token_grant "\<lambda>_. []" "replicate 32 7" sample_python 899] by simp
qed

section \<open>What is accepted, and what raises\<close>

lemma grant_of_claims_expiry: "grant_of_claims py claims expires = Inr g \<Longrightarrow> gr_expires_at_ms g = expires"
  by (auto simp: grant_of_claims_def)

lemma grant_of_claims_errors:
  "grant_of_claims py claims expires = Inl e \<Longrightarrow> unusable_grant e \<or> e = TypeError"
proof -
  have iter: "json_iter v = Inl e \<Longrightarrow> e = TypeError" for v
    by (auto simp: json_iter_def split: json.splits)
  have "scope_of v = Inl e \<Longrightarrow> unusable_grant e" for v
    by (auto simp: scope_of_def unusable_grant_def split: json.splits option.splits)
  then have scopes: "mapR scope_of vs = Inl e \<Longrightarrow> unusable_grant e" for vs
    by (auto dest: mapR_Inl_mem)
  have ids: "claim_id py claims ''sid'' SessionId = Inl e \<Longrightarrow> unusable_grant e"
    "claim_id py claims ''tid'' TenantId = Inl e \<Longrightarrow> unusable_grant e"
    "claim_id py claims ''aid'' ApplicationId = Inl e \<Longrightarrow> unusable_grant e"
    "claim_id py claims ''kid'' ApiKeyId = Inl e \<Longrightarrow> unusable_grant e"
    by (auto simp: claim_id_def Identifier_def unusable_grant_def split: option.splits if_splits)
  show "grant_of_claims py claims expires = Inl e \<Longrightarrow> unusable_grant e \<or> e = TypeError"
    unfolding grant_of_claims_def bindR_eq_Inl using ids iter scopes by auto
qed

definition signed_token :: "bytes \<Rightarrow> string \<Rightarrow> bool" where
  "signed_token key token \<longleftrightarrow> (\<exists>payload. token = payload @ CHR ''.'' # sign_payload key payload)"

lemma verify_cases:
  obtains (none) "verify_token py key token now = Inr None"
    | (raise) "verify_token py key token now = Inl TypeError" "\<not> is_ascii token"
    | (signed) payload where "token = payload @ CHR ''.'' # sign_payload key payload"
proof (cases "rsplit_dot token")
  case None
  then show ?thesis by (intro none) (simp add: verify_token_def)
next
  case (Some pq)
  obtain p q where pq: "pq = (p, q)" by (cases pq)
  note tok = rsplit_dot_Some [OF Some [unfolded pq]]
  have ascii: "is_ascii (sign_payload key p)"
    using signature_chars [of _ key p] by (simp add: is_ascii_def list_all_iff)
  consider "\<not> is_ascii q" | "is_ascii q" "q \<noteq> sign_payload key p" | "q = sign_payload key p" by blast
  then show ?thesis
  proof cases
    case 1
    then have "verify_token py key token now = Inl TypeError"
      by (simp add: verify_token_def Some pq compare_digest_def)
    moreover have "\<not> is_ascii token" using 1 by (simp add: tok is_ascii_def)
    ultimately show ?thesis by (rule raise)
  next
    case 2
    then show ?thesis using ascii by (intro none) (simp add: verify_token_def Some pq compare_digest_def)
  next
    case 3
    then show ?thesis using tok by (intro signed) simp
  qed
qed

lemma verify_signed:
  assumes "verify_token py key (payload @ CHR ''.'' # sign_payload key payload) now = Inr (Some g)"
  shows "now < gr_expires_at_ms g"
proof (cases "decode_claims payload")
  case (Inl e)
  have "CHR ''.'' \<notin> set (sign_payload key payload)" using signature_chars by blast
  note split = rsplit_dot_append [OF this, of payload]
  show ?thesis
    using assms unfolding verify_token_def split option.case prod.case own_signature bindR_simps Inl by simp
next
  case (Inr claims)
  show ?thesis
    using assms unfolding verify_own [OF Inr]
    by (auto split: option.splits sum.splits if_splits dest: grant_of_claims_expiry)
qed

lemma verify_signed_errors:
  assumes "verify_token py key (payload @ CHR ''.'' # sign_payload key payload) now = Inl e"
  shows "e = TypeError"
proof (cases "decode_claims payload")
  case (Inl x)
  have "CHR ''.'' \<notin> set (sign_payload key payload)" using signature_chars by blast
  note split = rsplit_dot_append [OF this, of payload]
  show ?thesis
    using assms unfolding verify_token_def split option.case prod.case own_signature bindR_simps Inl by simp
next
  case (Inr claims)
  show ?thesis
    using assms unfolding verify_own [OF Inr]
    by (auto split: option.splits sum.splits if_splits dest: grant_of_claims_errors)
qed

text \<open>
  Only the holder of the key makes a token that opens a stream. Whatever token is presented, a grant
  comes back only when the token ends in the tag of its own payload under the key, and only before the
  grant's expiry; every other token gives nothing, without telling why, except that a token that
  is neither signed nor ASCII raises a \<open>TypeError\<close>.
\<close>

theorem token_needs_signature:
  "case verify_token py key token now of
     Inr (Some g) \<Rightarrow> signed_token key token \<and> now < gr_expires_at_ms g
   | Inr None \<Rightarrow> True
   | Inl e \<Rightarrow> e = TypeError \<and> (if signed_token key token then True else \<not> is_ascii token)"
proof (cases rule: verify_cases [where py = py and key = key and token = token and now = now])
  case (signed payload)
  then have "signed_token key token" by (auto simp: signed_token_def)
  then show ?thesis
    using verify_signed [of py key payload now] verify_signed_errors [of py key payload now] signed
    by (auto split: sum.splits option.splits)
qed simp_all

text \<open>
  A garbled credential takes the connection down instead of being refused: a token whose tag is a
  single accented letter makes \<open>hmac.compare_digest\<close> raise.
\<close>

theorem non_ascii_token_raises:
  "verify_token py key (payload @ CHR ''.'' # [CHR 0xE9]) now = Inl TypeError"
proof -
  have "rsplit_dot (payload @ CHR ''.'' # [CHR 0xE9]) = Some (payload, [CHR 0xE9])"
    by (rule rsplit_dot_append) simp
  then show ?thesis by (simp add: verify_token_def compare_digest_def is_ascii_def)
qed

section \<open>The endpoint\<close>

text \<open>The first step of \<open>stream\<close> (\<open>adapters/inbound/websocket/handler.py\<close>): the token of the query is
  verified against the clock, with the socket already accepted.\<close>

definition stream_endpoint ::
  "connection_env \<Rightarrow> bytes \<Rightarrow> run_id \<Rightarrow> int \<Rightarrow> int \<Rightarrow> int \<Rightarrow> int \<Rightarrow> string \<Rightarrow> string \<Rightarrow> incoming list \<Rightarrow>
   (connection, bool) action" where
  "stream_endpoint env key fresh_run verify_ms lease_ms wall_ms epoch_ms path_id token items =
     bindA (liftA (verify_token (ce_python env) key token verify_ms)) (\<lambda>grant.
       stream_connection env fresh_run lease_ms wall_ms epoch_ms path_id grant items)"

text \<open>
  C19: Without a signature nothing behind the socket moves: the lease, the session, the evidence and the
  stream state are what they were, whatever frames follow.
\<close>

theorem unsigned_token_changes_nothing:
  "if signed_token key token then True
   else cn_engine (fst (stream_endpoint env key fresh v l w e path_id token items c)) = cn_engine c \<and>
        cn_world (fst (stream_endpoint env key fresh v l w e path_id token items c)) = cn_world c"
proof (cases rule: verify_cases [where py = "ce_python env" and key = key and token = token and now = v])
  case none
  show ?thesis
    by (cases "Identifier SessionId path_id")
      (simp_all add: stream_endpoint_def none stream_connection_def refuse_socket_def on_channel_def close_socket_def
        bindA_def seqA_def liftA_def raiseA_def returnA_def modifyA_def)
next
  case raise
  show ?thesis by (simp add: stream_endpoint_def raise bindA_def liftA_def)
next
  case (signed payload)
  then show ?thesis by (auto simp: signed_token_def)
qed

end
