(* ===== verification/Serialization.thy ===== *)
theory Serialization
  imports Document
begin

text \<open>
  Rendering the evidence document onto the wire (\<open>adapters/inbound/rest/serialization.py\<close>): one
  function per renderer, into the JSON values of Document. A float is \<open>JFloat\<close>, \<open>None\<close> is \<open>JNull\<close>.
  Nothing rendered carries a ranking key, an indicator without a value has no \<open>value\<close> key at all,
  and nothing is filtered or reordered.
\<close>

section \<open>Values\<close>

fun token_status_value :: "token_status \<Rightarrow> string" where
  "token_status_value PROVISIONAL = ''provisional''"
| "token_status_value FINAL = ''final''"

definition json_opt :: "('a \<Rightarrow> json) \<Rightarrow> 'a option \<Rightarrow> json" where
  "json_opt f x = (case x of None \<Rightarrow> JNull | Some v \<Rightarrow> f v)"

text \<open>\<open>body.update(other)\<close> and \<open>{**body, **other}\<close>.\<close>

definition dict_update :: "(string \<times> json) list \<Rightarrow> (string \<times> json) list \<Rightarrow> (string \<times> json) list" where
  "dict_update body other = fold (\<lambda>(k, v). AList.update k v) other body"

section \<open>Renderers\<close>

fun render_indicator :: "indicator \<Rightarrow> (string \<times> json) list" where
  "render_indicator (Measured v c u) =
     [(''value'', JFloat v), (''unit'', JStr u), (''confidence'', JFloat (conf_value c)),
      (''calibration'', JStr (calibration_value (conf_state c)))]"
| "render_indicator (Unavailable r d) = [(''reason'', JStr (reason_value r)), (''detail'', JStr d)]"

definition render_provenance :: "provenance \<Rightarrow> json" where
  "render_provenance p =
     JMap [(''modality'', JStr (modality_value (prov_modality p))),
       (''model_version'', JStr (model_version_id_value (prov_model_version p))),
       (''taxonomy_version'', JStr (version_str (prov_taxonomy_version p))),
       (''configuration_id'', JStr (configuration_snapshot_id_value (prov_configuration p))),
       (''evidence_ref'', JStr (evidence_ref_value (prov_evidence_ref p)))]"

definition render_token :: "word_token \<Rightarrow> (string \<times> json) list" where
  "render_token t =
     [(''id'', JStr (token_id_value (wt_id t))),
      (''raw_text'', JStr (wt_raw_text t)),
      (''start_ms'', JInt (start_ms (wt_interval t))),
      (''end_ms'', JInt (end_ms (wt_interval t))),
      (''tolerance_ms'', JInt (iv_tolerance_ms (wt_interval t))),
      (''confidence'', JFloat (conf_value (wt_confidence t))),
      (''calibration'', JStr (calibration_value (conf_state (wt_confidence t)))),
      (''status'', JStr (token_status_value (wt_status t)))]"

definition render_transcript :: "transcript \<Rightarrow> (string \<times> json) list result" where
  "render_transcript tr =
     bindR (finalized_frontier tr) (\<lambda>frontier.
       Inr [(''raw_text'', JStr (transcript_raw_text tr)),
            (''finalized_through_ms'', JInt (mt_ms frontier)),
            (''tokens'', JSeq (map (JMap \<circ> render_token) (tr_tokens tr)))])"

definition render_speech_event :: "speech_event \<Rightarrow> (string \<times> json) list" where
  "render_speech_event e =
     [(''id'', JStr (event_id_value (se_id e))),
      (''type'', JStr (speech_type_value (se_type e))),
      (''start_ms'', JInt (start_ms (se_interval e))),
      (''end_ms'', JInt (end_ms (se_interval e))),
      (''tolerance_ms'', JInt (iv_tolerance_ms (se_interval e))),
      (''confidence'', JFloat (conf_value (se_confidence e))),
      (''calibration'', JStr (calibration_value (conf_state (se_confidence e)))),
      (''raw_text'', JStr (se_raw_text e)),
      (''context_role'', json_opt (\<lambda>r. JStr (role_value r)) (se_context_role e)),
      (''counts_as_disfluency'', JBool (counts_as_disfluency e)),
      (''is_final'', JBool (se_is_final e)),
      (''provenance'', render_provenance (se_provenance e))]"

definition render_visual_event :: "visual_event \<Rightarrow> (string \<times> json) list" where
  "render_visual_event e =
     [(''id'', JStr (event_id_value (ve_id e))),
      (''type'', JStr (visual_type_value (ve_type e))),
      (''start_ms'', JInt (start_ms (ve_interval e))),
      (''end_ms'', JInt (end_ms (ve_interval e))),
      (''tolerance_ms'', JInt (iv_tolerance_ms (ve_interval e))),
      (''confidence'', JFloat (conf_value (ve_confidence e))),
      (''calibration'', JStr (calibration_value (conf_state (ve_confidence e)))),
      (''direction'', json_opt (\<lambda>d. JStr (gaze_value d)) (ve_direction e)),
      (''magnitude'', json_opt JFloat (ve_magnitude e)),
      (''describes_capture_quality'', JBool (describes_capture_quality e)),
      (''is_final'', JBool (ve_is_final e)),
      (''provenance'', render_provenance (ve_provenance e))]"

definition render_prosody :: "prosody_reading \<Rightarrow> (string \<times> json) list" where
  "render_prosody r =
     dict_update
       [(''indicator'', JStr (prosodic_value (pr_indicator r))),
        (''start_ms'', JInt (start_ms (pr_window r))),
        (''end_ms'', JInt (end_ms (pr_window r))),
        (''available'', JBool (prosody_is_available r))]
       (render_indicator (pr_value r))"

definition render_assessment :: "quality_assessment \<Rightarrow> (string \<times> json) list" where
  "render_assessment a =
     dict_update
       [(''modality'', JStr (modality_value (qa_modality a))),
        (''metric'', JStr (quality_metric_value (qa_metric a))),
        (''start_ms'', JInt (start_ms (qa_window a))),
        (''end_ms'', JInt (end_ms (qa_window a))),
        (''available'', JBool (assessment_is_available a))]
       (render_indicator (qa_value a))"

definition render_availability :: "modality_availability \<Rightarrow> (string \<times> json) list" where
  "render_availability m =
     [(''modality'', JStr (modality_value (ma_modality m))),
      (''start_ms'', JInt (start_ms (ma_window m))),
      (''end_ms'', JInt (end_ms (ma_window m))),
      (''usable'', JBool (ma_is_usable m)),
      (''reason'', json_opt (\<lambda>r. JStr (reason_value r)) (ma_reason m)),
      (''detail'', JStr (ma_detail m))]"

definition render_quality :: "quality_report \<Rightarrow> (string \<times> json) list" where
  "render_quality q =
     [(''assessments'', JSeq (map (JMap \<circ> render_assessment) (qr_assessments q))),
      (''availability'', JSeq (map (JMap \<circ> render_availability) (qr_availability q)))]"

definition render_cooccurrence :: "multimodal_cooccurrence \<Rightarrow> (string \<times> json) list" where
  "render_cooccurrence p =
     [(''speech_event_id'', JStr (event_id_value (mc_speech_event_id p))),
      (''visual_event_id'', JStr (event_id_value (mc_visual_event_id p))),
      (''temporal_distance_ms'', JInt (mc_temporal_distance_ms p)),
      (''fusion_window_ms'', JInt (fw_width_ms (mc_window p))),
      (''causal_inference'', JBool (causal_inference p))]"

definition render_manifest :: "provenance_manifest \<Rightarrow> (string \<times> json) list" where
  "render_manifest m =
     [(''pipeline_version'', JStr (version_str (pm_pipeline_version m))),
      (''schema_version'', JStr (version_str (pm_schema_version m))),
      (''taxonomy_version'', JStr (version_str (pm_taxonomy_version m))),
      (''configuration_id'', JStr (configuration_snapshot_id_value (pm_configuration m))),
      (''models'', JMap (map (\<lambda>(k, v). (modality_value k, JStr (model_version_id_value v))) (pm_models m)))]"

definition render_document :: "string \<Rightarrow> evidence_document \<Rightarrow> (string \<times> json) list result" where
  "render_document schema_version d =
     bindR (render_transcript (ed_transcript d)) (\<lambda>transcript.
       Inr [(''schema_version'', JStr schema_version),
            (''session_id'', JStr (session_id_value (ed_session_id d))),
            (''run_id'', JStr (run_id_value (ed_run_id d))),
            (''ranking_authority'', JStr (ranking_authority d)),
            (''manifest'', JMap (render_manifest (ed_manifest d))),
            (''transcript'', JMap transcript),
            (''speech_events'', JSeq (map (JMap \<circ> render_speech_event) (ed_speech_events d))),
            (''visual_events'', JSeq (map (JMap \<circ> render_visual_event) (ed_visual_events d))),
            (''prosody'', JSeq (map (JMap \<circ> render_prosody) (ed_prosody d))),
            (''cooccurrences'', JSeq (map (JMap \<circ> render_cooccurrence) (ed_cooccurrences d))),
            (''quality'', JMap (render_quality (ed_quality d)))])"

section \<open>No ranking\<close>

text \<open>A value in which no key, at any depth, is a forbidden name.\<close>

definition unranked :: "json \<Rightarrow> bool" where
  "unranked j \<longleftrightarrow> (\<forall>key. key_inside j key \<longrightarrow> \<not> forbidden_key key)"

lemma unranked_leaf [simp]:
  "unranked (JStr s)" "unranked (JInt i)" "unranked (JFloat q)" "unranked (JBool b)" "unranked JNull"
  by (simp_all add: unranked_def key_inside_simps)

lemma unranked_JMap: "unranked (JMap kvs) \<longleftrightarrow> list_all (\<lambda>(k, v). \<not> forbidden_key k \<and> unranked v) kvs"
  unfolding unranked_def list_all_iff by (simp only: key_inside_simps) blast

lemma unranked_JSeq: "unranked (JSeq vs) \<longleftrightarrow> list_all unranked vs"
  unfolding unranked_def list_all_iff by (simp only: key_inside_simps) blast

lemma unranked_json_opt [simp]: "(\<And>v. unranked (f v)) \<Longrightarrow> unranked (json_opt f x)"
  by (simp add: json_opt_def split: option.splits)

text \<open>Every key that a renderer writes.\<close>

definition PUBLISHED_KEYS :: "string list" where
  "PUBLISHED_KEYS =
     [''schema_version'', ''session_id'', ''run_id'', ''ranking_authority'', ''manifest'', ''transcript'',
      ''speech_events'', ''visual_events'', ''prosody'', ''cooccurrences'', ''quality'', ''pipeline_version'',
      ''taxonomy_version'', ''configuration_id'', ''models'', ''speech_event_id'', ''visual_event_id'',
      ''temporal_distance_ms'', ''fusion_window_ms'', ''causal_inference'', ''assessments'', ''availability'',
      ''modality'', ''start_ms'', ''end_ms'', ''usable'', ''reason'', ''detail'', ''metric'', ''available'',
      ''indicator'', ''value'', ''unit'', ''confidence'', ''calibration'', ''id'', ''type'', ''tolerance_ms'',
      ''direction'', ''magnitude'', ''describes_capture_quality'', ''is_final'', ''provenance'', ''raw_text'',
      ''context_role'', ''counts_as_disfluency'', ''finalized_through_ms'', ''tokens'', ''status'',
      ''model_version'', ''evidence_ref'', ''audio'', ''video'', ''multimodal'']"

lemma published_not_forbidden: "list_all (\<lambda>k. \<not> forbidden_key k) PUBLISHED_KEYS"
  by code_simp

lemma published: "k \<in> set PUBLISHED_KEYS \<Longrightarrow> \<not> forbidden_key k"
  using published_not_forbidden by (simp add: list_all_iff)

lemma unranked_map:
  assumes "list_all (\<lambda>(k, v). k \<in> set PUBLISHED_KEYS \<and> unranked v) kvs"
  shows "unranked (JMap kvs)"
  using assms published by (auto simp: unranked_JMap list_all_iff)


text \<open>A rendered mapping: its keys are published, its values unranked.\<close>

definition wire :: "(string \<times> json) list \<Rightarrow> bool" where
  "wire kvs \<longleftrightarrow> list_all (\<lambda>k. k \<in> set PUBLISHED_KEYS) (map fst kvs) \<and> list_all (unranked \<circ> snd) kvs"

lemma wire_unranked: "wire kvs \<Longrightarrow> unranked (JMap kvs)"
  by (rule unranked_map) (auto simp: wire_def list_all_iff)

lemma wireI:
  "list_all (\<lambda>k. k \<in> set PUBLISHED_KEYS) (map fst kvs) \<Longrightarrow> list_all (unranked \<circ> snd) kvs \<Longrightarrow> wire kvs"
  by (simp add: wire_def)

lemma wire_seq: "(\<And>x. wire (f x)) \<Longrightarrow> unranked (JSeq (map (JMap \<circ> f) xs))"
  by (auto simp: unranked_JSeq list_all_iff intro: wire_unranked)

lemma wire_update: "wire body \<Longrightarrow> wire other \<Longrightarrow> wire (dict_update body other)"
proof (induction other arbitrary: body)
  case (Cons kv other)
  obtain k v where kv: "kv = (k, v)" by (cases kv)
  have "wire (AList.update k v body)"
    using Cons.prems unfolding kv
    by (induction body) (auto simp: wire_def split: if_splits)
  moreover have "wire other" using Cons.prems(2) by (simp add: wire_def)
  ultimately show ?case using Cons.IH by (simp add: dict_update_def kv)
qed (simp add: dict_update_def)

lemma published_render:
  "wire (render_token t)"
  "wire (render_cooccurrence p)"
  "wire (render_availability m)"
  by (simp_all add: wire_def render_token_def render_cooccurrence_def render_availability_def PUBLISHED_KEYS_def)

lemma wire_provenance: "unranked (render_provenance p)"
  unfolding render_provenance_def by (rule wire_unranked) (simp add: wire_def PUBLISHED_KEYS_def)

lemma wire_events: "wire (render_speech_event e)" "wire (render_visual_event v)"
  by (simp_all add: wire_def render_speech_event_def render_visual_event_def PUBLISHED_KEYS_def wire_provenance)

lemma wire_indicator: "wire (render_indicator i)"
  by (cases i) (simp_all add: wire_def PUBLISHED_KEYS_def)

lemma wire_measures: "wire (render_prosody r)" "wire (render_assessment a)"
  unfolding render_prosody_def render_assessment_def
  by (rule wire_update [OF _ wire_indicator], simp add: wire_def PUBLISHED_KEYS_def)+

lemma wire_quality: "wire (render_quality q)"
  by (rule wireI)
    (simp_all add: render_quality_def PUBLISHED_KEYS_def wire_seq [OF wire_measures(2)]
      wire_seq [OF published_render(3)])

lemma wire_models:
  "unranked (JMap (map (\<lambda>(k, v). (modality_value k, JStr (model_version_id_value v))) ms))"
proof (rule wire_unranked)
  have "modality_value k \<in> set PUBLISHED_KEYS" for k
    by (cases k) (simp_all add: PUBLISHED_KEYS_def)
  then show "wire (map (\<lambda>(k, v). (modality_value k, JStr (model_version_id_value v))) ms)"
    by (auto simp: wire_def list_all_iff)
qed

lemma wire_manifest: "wire (render_manifest m)"
  using wire_models by (simp add: wire_def render_manifest_def PUBLISHED_KEYS_def)

lemma wire_transcript: "render_transcript tr = Inr body \<Longrightarrow> wire body"
  by (rule wireI) (auto simp: render_transcript_def PUBLISHED_KEYS_def wire_seq [OF published_render(1)])

lemma wire_document:
  assumes "render_document version d = Inr payload"
  shows "wire payload"
proof -
  obtain body where "render_transcript (ed_transcript d) = Inr body" and p: "payload =
      [(''schema_version'', JStr version),
            (''session_id'', JStr (session_id_value (ed_session_id d))),
            (''run_id'', JStr (run_id_value (ed_run_id d))),
            (''ranking_authority'', JStr (ranking_authority d)),
            (''manifest'', JMap (render_manifest (ed_manifest d))),
            (''transcript'', JMap body),
            (''speech_events'', JSeq (map (JMap \<circ> render_speech_event) (ed_speech_events d))),
            (''visual_events'', JSeq (map (JMap \<circ> render_visual_event) (ed_visual_events d))),
            (''prosody'', JSeq (map (JMap \<circ> render_prosody) (ed_prosody d))),
            (''cooccurrences'', JSeq (map (JMap \<circ> render_cooccurrence) (ed_cooccurrences d))),
            (''quality'', JMap (render_quality (ed_quality d)))]"
    using assms by (auto simp: render_document_def)
  then show ?thesis
    unfolding p using wire_unranked [OF wire_transcript]
    by (intro wireI)
      (simp_all add: PUBLISHED_KEYS_def wire_seq [OF wire_events(1)] wire_seq [OF wire_events(2)]
        wire_seq [OF wire_measures(1)] wire_seq [OF published_render(2)] wire_unranked [OF wire_quality]
        wire_unranked [OF wire_manifest])
qed

section \<open>Properties\<close>

text \<open>What the two branches of an indicator leave in its object.\<close>

lemma map_of_dict_update: "map_of (dict_update body other) k =
    (case map_of (rev other) k of Some v \<Rightarrow> Some v | None \<Rightarrow> map_of body k)"
  unfolding dict_update_def
  by (induction other arbitrary: body) (auto split: option.splits simp: map_add_def)

text \<open>
  C24: What is published is the document, and never a ranking. Every document whose transcript is well
  formed is rendered, and the whole payload, whatever the texts, identifiers and models in it, passes
  the ranking check at every depth; the events, readings, co-occurrences and tokens appear in the
  order of the document, none of them left out.
\<close>

theorem rendered_document_complete:
  assumes "wf_transcript (ed_transcript d)"
  shows "\<exists>payload body. render_document version d = Inr payload \<and>
    assert_carries_no_ranking payload = Inr () \<and>
    map_of payload ''speech_events'' = Some (JSeq (map (JMap \<circ> render_speech_event) (ed_speech_events d))) \<and>
    map_of payload ''visual_events'' = Some (JSeq (map (JMap \<circ> render_visual_event) (ed_visual_events d))) \<and>
    map_of payload ''prosody'' = Some (JSeq (map (JMap \<circ> render_prosody) (ed_prosody d))) \<and>
    map_of payload ''cooccurrences'' = Some (JSeq (map (JMap \<circ> render_cooccurrence) (ed_cooccurrences d))) \<and>
    map_of payload ''ranking_authority'' = Some (JStr ''none'') \<and>
    map_of payload ''transcript'' = Some (JMap body) \<and>
    map_of body ''finalized_through_ms'' = Some (JInt (frontier_ms (ed_transcript d))) \<and>
    map_of body ''tokens'' = Some (JSeq (map (JMap \<circ> render_token) (tr_tokens (ed_transcript d))))"
proof -
  obtain body where body: "render_transcript (ed_transcript d) = Inr body"
      "map_of body ''finalized_through_ms'' = Some (JInt (frontier_ms (ed_transcript d)))"
      "map_of body ''tokens'' = Some (JSeq (map (JMap \<circ> render_token) (tr_tokens (ed_transcript d))))"
    using finalized_frontier_eq [OF assms] by (auto simp: render_transcript_def)
  then obtain payload where p: "render_document version d = Inr payload" by (auto simp: render_document_def)
  have "unranked (JMap payload)" by (rule wire_unranked [OF wire_document [OF p]])
  then have "assert_carries_no_ranking payload = Inr ()"
    using forbidden_found(1) [of "JMap payload" "[]"]
    by (auto simp: assert_carries_no_ranking_def unranked_def)
  then show ?thesis
    using p body by (intro exI [of _ payload] exI [of _ body]) (auto simp: render_document_def ranking_authority_def)
qed

definition sample_document :: evidence_document where
  "sample_document =
     \<lparr>ed_session_id = SessionId ''s1'', ed_run_id = RunId ''r1'',
      ed_manifest = \<lparr>pm_pipeline_version = MkVersion 1 0 0, pm_schema_version = MkVersion 1 0 0,
        pm_taxonomy_version = TAXONOMY_VERSION, pm_configuration = ConfigurationSnapshotId ''c1'',
        pm_models = [(AUDIO, ModelVersionId ''score'')]\<rparr>,
      ed_transcript = \<lparr>tr_tokens =
        [\<lparr>wt_id = TokenId ''w1'', wt_raw_text = ''rank'', wt_interval = \<lparr>iv_start = MkTime 0,
          iv_end = MkTime 300, iv_tolerance_ms = 250\<rparr>, wt_confidence = MkConfidence (1/2) RAW, wt_status = FINAL\<rparr>]\<rparr>,
      ed_quality = \<lparr>qr_assessments = [], qr_availability = []\<rparr>,
      ed_speech_events = [], ed_visual_events = [], ed_prosody = [], ed_cooccurrences = []\<rparr>"

theorem rendered_document_complete_witness:
  "\<exists>payload. render_document ''1.0.0'' sample_document = Inr payload \<and>
     assert_carries_no_ranking payload = Inr ()"
proof -
  have "wf_transcript (ed_transcript sample_document)"
    by (simp add: sample_document_def wf_transcript_def wf_token_def wf_interval_def)
  from rendered_document_complete [OF this, of "''1.0.0''"] show ?thesis by blast
qed

text \<open>
  An indicator is a number or a reason, never both and never a null. In the object of a prosody reading
  there is a \<open>value\<close>, a \<open>unit\<close> and a \<open>confidence\<close> exactly when the reading was measured, and a \<open>reason\<close>
  exactly when it was not; \<open>available\<close> says which; the same holds of an assessment of quality.
\<close>

theorem indicator_value_or_reason:
  "(case pr_value r of
      Measured v c u \<Rightarrow>
        map (map_of (render_prosody r)) [''value'', ''unit'', ''confidence'', ''reason'', ''available''] =
          [Some (JFloat v), Some (JStr u), Some (JFloat (conf_value c)), None, Some (JBool True)]
    | Unavailable x t \<Rightarrow>
        map (map_of (render_prosody r)) [''value'', ''unit'', ''confidence'', ''reason'', ''available''] =
          [None, None, None, Some (JStr (reason_value x)), Some (JBool False)]) \<and>
   (case qa_value a of
      Measured v c u \<Rightarrow>
        map (map_of (render_assessment a)) [''value'', ''unit'', ''confidence'', ''reason'', ''available''] =
          [Some (JFloat v), Some (JStr u), Some (JFloat (conf_value c)), None, Some (JBool True)]
    | Unavailable x t \<Rightarrow>
        map (map_of (render_assessment a)) [''value'', ''unit'', ''confidence'', ''reason'', ''available''] =
          [None, None, None, Some (JStr (reason_value x)), Some (JBool False)])"
  unfolding render_prosody_def render_assessment_def prosody_is_available_def assessment_is_available_def
  by (simp add: map_of_dict_update split: indicator.split)

end
