(* ===== verification/RowMapping.thy ===== *)
theory RowMapping
  imports Session SpeechEvents VisualEvents Transcript WsProtocol Serialization
begin

text \<open>
  Rows and domain objects (\<open>adapters/outbound/persistence/postgres/mapping.py\<close>), with the columns of
  the tables in \<open>models.py\<close> as records. A nullable column is an option, a JSON column an association
  list. The readers rebuild the objects through the constructors of the domain, so each is a function
  into \<open>exn + object\<close>; calling an enumeration with a string that is none of its values raises
  \<open>ValueError\<close>. What the database does between writing and reading is not modelled.
\<close>

section \<open>Enumerations\<close>

definition enum_call :: "('e \<Rightarrow> string) \<Rightarrow> 'e list \<Rightarrow> string \<Rightarrow> 'e result" where
  "enum_call val members s = (case enum_of val members s of None \<Rightarrow> Inl ValueError | Some m \<Rightarrow> Inr m)"

definition session_modes :: "session_mode list" where
  "session_modes = [REALTIME, BATCH]"

definition session_states :: "session_state list" where
  "session_states = [CREATED, CAPTURING, PAUSED, COMPLETING, COMPLETED, FAILED, EVIDENCE_DELETED]"

definition calibration_states :: "calibration_state list" where
  "calibration_states = [RAW, CALIBRATED]"

definition token_statuses :: "token_status list" where
  "token_statuses = [PROVISIONAL, FINAL]"

definition prosodic_indicators :: "prosodic_indicator list" where
  "prosodic_indicators =
     [MEAN_INTENSITY_DB, PITCH_MEAN_HZ, PITCH_STABILITY, SPEAKING_RATE_WPM, ARTICULATION_RATE_SPS,
      MEAN_PAUSE_DURATION_MS, VOICED_RATIO]"

definition unavailability_reasons :: "unavailability_reason list" where
  "unavailability_reasons =
     [MODALITY_NOT_CAPTURED, QUALITY_BELOW_THRESHOLD, SUBJECT_NOT_OBSERVABLE, INPUT_GAP, PROCESSING_FAILED,
      CONFIDENCE_BELOW_THRESHOLD, INSUFFICIENT_OBSERVATION, EVIDENCE_DELETED_REASON]"

text \<open>A nullable column read with \<open>Enum(value) if value else None\<close>: the empty string reads as null.\<close>

definition enum_opt :: "('e \<Rightarrow> string) \<Rightarrow> 'e list \<Rightarrow> string option \<Rightarrow> 'e option result" where
  "enum_opt val members s =
     (case s of None \<Rightarrow> Inr None
      | Some v \<Rightarrow> if v = [] then Inr None else bindR (enum_call val members v) (\<lambda>m. Inr (Some m)))"

text \<open>\<open>value or default\<close> on a nullable text column.\<close>

definition text_or :: "string \<Rightarrow> string option \<Rightarrow> string" where
  "text_or d s = (case s of None \<Rightarrow> d | Some v \<Rightarrow> if v = [] then d else v)"

section \<open>Sessions\<close>

record session_row =
  srow_id :: string
  srow_tenant_id :: string
  srow_application_id :: string
  srow_mode :: string
  srow_locale :: string
  srow_state :: string
  srow_configuration_id :: string
  srow_capabilities :: "(string \<times> json) list"
  srow_created_at_ms :: int
  srow_completed_at_ms :: "int option"
  srow_clock_accumulated_ms :: int
  srow_clock_segment_started_at :: "int option"

record consent_row =
  crow_session_id :: string
  crow_policy_version :: string
  crow_retain_raw_media :: bool
  crow_raw_media_ttl_seconds :: int
  crow_retain_derived_aggregates :: bool
  crow_granted_at_ms :: int
  crow_withdrawn_at_ms :: "int option"

definition capabilities_to_json :: "negotiated_capabilities \<Rightarrow> (string \<times> json) list" where
  "capabilities_to_json c =
     [(''audio_codec'', JStr (audio_codec_value (cap_audio_codec c))),
      (''sample_rate_hz'', JInt (cap_sample_rate_hz c)),
      (''locale'', JStr (cap_locale c)),
      (''video_format'', json_opt (\<lambda>v. JStr (video_format_value v)) (cap_video_format c)),
      (''frame_rate_fps'', json_opt JInt (cap_frame_rate_fps c))]"

definition json_key :: "(string \<times> json) list \<Rightarrow> string \<Rightarrow> json result" where
  "json_key payload key = (case map_of payload key of None \<Rightarrow> Inl KeyError | Some v \<Rightarrow> Inr v)"

fun json_enum :: "('e \<Rightarrow> string) \<Rightarrow> 'e list \<Rightarrow> json \<Rightarrow> 'e result" where
  "json_enum val members (JStr s) = enum_call val members s"
| "json_enum val members _ = Inl ValueError"

text \<open>The frame rate is taken from the payload as it is; a value that is neither absent, null nor an
  integer cannot be represented in the field and counts as a type error here.\<close>

definition json_frame_rate :: "json \<Rightarrow> int option result" where
  "json_frame_rate v =
     (case v of JNull \<Rightarrow> Inr None
      | _ \<Rightarrow> (case as_int v of None \<Rightarrow> Inl TypeError | Some i \<Rightarrow> Inr (Some i)))"

definition capabilities_from_json ::
  "py_conversions \<Rightarrow> (string \<times> json) list \<Rightarrow> negotiated_capabilities result" where
  "capabilities_from_json py payload =
     (let video_format = get_or payload ''video_format'' JNull
      in bindR (bindR (json_key payload ''audio_codec'') (json_enum audio_codec_value audio_codecs)) (\<lambda>codec.
         bindR (bindR (json_key payload ''sample_rate_hz'') to_int) (\<lambda>rate.
         bindR (json_key payload ''locale'') (\<lambda>loc.
         bindR (if truthy video_format
                then bindR (json_enum video_format_value video_formats video_format) (\<lambda>v. Inr (Some v))
                else Inr None) (\<lambda>video.
         bindR (json_frame_rate (get_or payload ''frame_rate_fps'' JNull)) (\<lambda>fps.
         Inr \<lparr>cap_audio_codec = codec, cap_sample_rate_hz = rate, cap_locale = py_str py loc,
              cap_video_format = video, cap_frame_rate_fps = fps\<rparr>))))))"

definition session_to_row :: "analysis_session \<Rightarrow> session_row" where
  "session_to_row s =
     \<lparr>srow_id = session_id_value (as_id s), srow_tenant_id = tenant_id_value (as_tenant_id s),
      srow_application_id = application_id_value (as_application_id s),
      srow_mode = session_mode_value (as_mode s), srow_locale = as_locale s,
      srow_state = session_state_value (as_state s),
      srow_configuration_id = configuration_snapshot_id_value (as_configuration s),
      srow_capabilities = capabilities_to_json (as_capabilities s),
      srow_created_at_ms = as_created_at_ms s, srow_completed_at_ms = as_completed_at_ms s,
      srow_clock_accumulated_ms = accumulated_ms (as_clock s),
      srow_clock_segment_started_at = segment_started_at (as_clock s)\<rparr>"

definition consent_to_row :: "session_id \<Rightarrow> consent_receipt \<Rightarrow> consent_row" where
  "consent_to_row i r =
     \<lparr>crow_session_id = session_id_value i, crow_policy_version = version_str (cr_policy_version r),
      crow_retain_raw_media = rp_retain_raw_media (cr_retention r),
      crow_raw_media_ttl_seconds = rp_raw_media_ttl_seconds (cr_retention r),
      crow_retain_derived_aggregates = rp_retain_derived_aggregates (cr_retention r),
      crow_granted_at_ms = cr_granted_at_ms r, crow_withdrawn_at_ms = cr_withdrawn_at_ms r\<rparr>"

definition row_to_consent :: "consent_row \<Rightarrow> consent_receipt result" where
  "row_to_consent row =
     bindR (version_parse (crow_policy_version row)) (\<lambda>policy_version.
     bindR (Identifier SessionId (crow_session_id row)) (\<lambda>i.
     bindR (RetentionPolicy policy_version (crow_retain_raw_media row) (crow_raw_media_ttl_seconds row)
              (crow_retain_derived_aggregates row)) (\<lambda>retention.
     check_receipt \<lparr>cr_session_id = i, cr_policy_version = policy_version, cr_retention = retention,
       cr_granted_at_ms = crow_granted_at_ms row, cr_withdrawn_at_ms = crow_withdrawn_at_ms row\<rparr>)))"

definition row_to_session ::
  "py_conversions \<Rightarrow> session_row \<Rightarrow> consent_row option \<Rightarrow> analysis_session result" where
  "row_to_session py row consent =
     bindR (Identifier SessionId (srow_id row)) (\<lambda>i.
     bindR (Identifier ApplicationId (srow_application_id row)) (\<lambda>app.
     bindR (Identifier TenantId (srow_tenant_id row)) (\<lambda>tenant.
     bindR (enum_call session_mode_value session_modes (srow_mode row)) (\<lambda>mode.
     bindR (capabilities_from_json py (srow_capabilities row)) (\<lambda>caps.
     bindR (Identifier ConfigurationSnapshotId (srow_configuration_id row)) (\<lambda>conf.
     bindR (enum_call session_state_value session_states (srow_state row)) (\<lambda>state.
     bindR (SessionClock (srow_clock_accumulated_ms row) (srow_clock_segment_started_at row)) (\<lambda>clock.
     bindR (case consent of None \<Rightarrow> Inr None
            | Some c \<Rightarrow> bindR (row_to_consent c) (\<lambda>r. Inr (Some r))) (\<lambda>receipt.
     Inr \<lparr>as_id = i, as_application_id = app, as_tenant_id = tenant, as_mode = mode,
          as_locale = srow_locale row, as_capabilities = caps, as_configuration = conf,
          as_created_at_ms = srow_created_at_ms row, as_state = state, as_clock = clock,
          as_consent = receipt, as_completed_at_ms = srow_completed_at_ms row\<rparr>)))))))))"

section \<open>Evidence\<close>

record token_row =
  trow_id :: string
  trow_run_id :: string
  trow_tenant_id :: string
  trow_raw_text :: string
  trow_start_ms :: int
  trow_end_ms :: int
  trow_tolerance_ms :: int
  trow_confidence :: rat
  trow_calibration :: string
  trow_status :: string

definition token_to_row :: "word_token \<Rightarrow> string \<Rightarrow> tenant_id \<Rightarrow> token_row" where
  "token_to_row t run_id tenant =
     \<lparr>trow_id = token_id_value (wt_id t), trow_run_id = run_id, trow_tenant_id = tenant_id_value tenant,
      trow_raw_text = wt_raw_text t, trow_start_ms = start_ms (wt_interval t),
      trow_end_ms = end_ms (wt_interval t), trow_tolerance_ms = iv_tolerance_ms (wt_interval t),
      trow_confidence = conf_value (wt_confidence t),
      trow_calibration = calibration_value (conf_state (wt_confidence t)),
      trow_status = token_status_value (wt_status t)\<rparr>"

definition confidence_of_row :: "rat \<Rightarrow> string \<Rightarrow> confidence result" where
  "confidence_of_row v calibration =
     bindR (enum_call calibration_value calibration_states calibration) (Confidence v)"

definition row_to_token :: "token_row \<Rightarrow> word_token result" where
  "row_to_token row =
     bindR (Identifier TokenId (trow_id row)) (\<lambda>i.
     bindR (interval_of_tol (trow_start_ms row) (trow_end_ms row) (trow_tolerance_ms row)) (\<lambda>iv.
     bindR (confidence_of_row (trow_confidence row) (trow_calibration row)) (\<lambda>c.
     bindR (enum_call token_status_value token_statuses (trow_status row)) (\<lambda>status.
     WordToken i (trow_raw_text row) iv c status))))"

text \<open>The columns that speech and visual events share.\<close>

record event_row =
  erow_id :: string
  erow_run_id :: string
  erow_tenant_id :: string
  erow_type :: string
  erow_start_ms :: int
  erow_end_ms :: int
  erow_tolerance_ms :: int
  erow_confidence :: rat
  erow_calibration :: string
  erow_is_final :: bool
  erow_model_version :: string
  erow_taxonomy_version :: string
  erow_configuration_id :: string
  erow_evidence_ref :: string

record speech_event_row = event_row +
  erow_raw_text :: string
  erow_context_role :: "string option"

record visual_event_row = event_row +
  erow_direction :: "string option"
  erow_magnitude :: "rat option"

definition provenance_of_row :: "'a event_row_scheme \<Rightarrow> modality \<Rightarrow> provenance result" where
  "provenance_of_row row m =
     bindR (Identifier ModelVersionId (erow_model_version row)) (\<lambda>model.
     bindR (version_parse (erow_taxonomy_version row)) (\<lambda>taxonomy.
     bindR (Identifier ConfigurationSnapshotId (erow_configuration_id row)) (\<lambda>conf.
     bindR (Identifier EvidenceRef (erow_evidence_ref row)) (\<lambda>ref.
     Inr \<lparr>prov_modality = m, prov_model_version = model, prov_taxonomy_version = taxonomy,
          prov_configuration = conf, prov_evidence_ref = ref\<rparr>))))"

definition speech_event_to_row :: "speech_event \<Rightarrow> string \<Rightarrow> tenant_id \<Rightarrow> speech_event_row" where
  "speech_event_to_row e run_id tenant =
     \<lparr>erow_id = event_id_value (se_id e), erow_run_id = run_id, erow_tenant_id = tenant_id_value tenant,
      erow_type = speech_type_value (se_type e),
      erow_start_ms = start_ms (se_interval e), erow_end_ms = end_ms (se_interval e),
      erow_tolerance_ms = iv_tolerance_ms (se_interval e),
      erow_confidence = conf_value (se_confidence e),
      erow_calibration = calibration_value (conf_state (se_confidence e)),
      erow_is_final = se_is_final e,
      erow_model_version = model_version_id_value (prov_model_version (se_provenance e)),
      erow_taxonomy_version = version_str (prov_taxonomy_version (se_provenance e)),
      erow_configuration_id = configuration_snapshot_id_value (prov_configuration (se_provenance e)),
      erow_evidence_ref = evidence_ref_value (prov_evidence_ref (se_provenance e)),
      erow_raw_text = se_raw_text e,
      erow_context_role = map_option role_value (se_context_role e)\<rparr>"

definition row_to_speech_event :: "speech_event_row \<Rightarrow> speech_event result" where
  "row_to_speech_event row =
     bindR (Identifier EventId (erow_id row)) (\<lambda>i.
     bindR (enum_call speech_type_value speech_event_types (erow_type row)) (\<lambda>t.
     bindR (interval_of_tol (erow_start_ms row) (erow_end_ms row) (erow_tolerance_ms row)) (\<lambda>iv.
     bindR (confidence_of_row (erow_confidence row) (erow_calibration row)) (\<lambda>c.
     bindR (provenance_of_row row AUDIO) (\<lambda>p.
     bindR (enum_opt role_value contextual_roles (erow_context_role row)) (\<lambda>role.
     SpeechEvent i t iv c p (erow_raw_text row) role (erow_is_final row)))))))"

definition visual_event_to_row :: "visual_event \<Rightarrow> string \<Rightarrow> tenant_id \<Rightarrow> visual_event_row" where
  "visual_event_to_row e run_id tenant =
     \<lparr>erow_id = event_id_value (ve_id e), erow_run_id = run_id, erow_tenant_id = tenant_id_value tenant,
      erow_type = visual_type_value (ve_type e),
      erow_start_ms = start_ms (ve_interval e), erow_end_ms = end_ms (ve_interval e),
      erow_tolerance_ms = iv_tolerance_ms (ve_interval e),
      erow_confidence = conf_value (ve_confidence e),
      erow_calibration = calibration_value (conf_state (ve_confidence e)),
      erow_is_final = ve_is_final e,
      erow_model_version = model_version_id_value (prov_model_version (ve_provenance e)),
      erow_taxonomy_version = version_str (prov_taxonomy_version (ve_provenance e)),
      erow_configuration_id = configuration_snapshot_id_value (prov_configuration (ve_provenance e)),
      erow_evidence_ref = evidence_ref_value (prov_evidence_ref (ve_provenance e)),
      erow_direction = map_option gaze_value (ve_direction e),
      erow_magnitude = ve_magnitude e\<rparr>"

definition row_to_visual_event :: "visual_event_row \<Rightarrow> visual_event result" where
  "row_to_visual_event row =
     bindR (Identifier EventId (erow_id row)) (\<lambda>i.
     bindR (enum_call visual_type_value visual_event_types (erow_type row)) (\<lambda>t.
     bindR (interval_of_tol (erow_start_ms row) (erow_end_ms row) (erow_tolerance_ms row)) (\<lambda>iv.
     bindR (confidence_of_row (erow_confidence row) (erow_calibration row)) (\<lambda>c.
     bindR (provenance_of_row row VIDEO) (\<lambda>p.
     bindR (enum_opt gaze_value gaze_directions (erow_direction row)) (\<lambda>d.
     VisualEvent i t iv c p d (erow_magnitude row) (erow_is_final row)))))))"

record prosody_row =
  prow_run_id :: string
  prow_tenant_id :: string
  prow_indicator :: string
  prow_start_ms :: int
  prow_end_ms :: int
  prow_value :: "rat option"
  prow_unit :: "string option"
  prow_confidence :: "rat option"
  prow_calibration :: "string option"
  prow_reason :: "string option"
  prow_detail :: string

definition prosody_to_row :: "prosody_reading \<Rightarrow> string \<Rightarrow> tenant_id \<Rightarrow> prosody_row" where
  "prosody_to_row r run_id tenant =
     (let row = \<lparr>prow_run_id = run_id, prow_tenant_id = tenant_id_value tenant,
            prow_indicator = prosodic_value (pr_indicator r),
            prow_start_ms = start_ms (pr_window r), prow_end_ms = end_ms (pr_window r),
            prow_value = None, prow_unit = None, prow_confidence = None, prow_calibration = None,
            prow_reason = None, prow_detail = []\<rparr>
      in case pr_value r of
           Measured v c u \<Rightarrow>
             row\<lparr>prow_value := Some v, prow_unit := Some u, prow_confidence := Some (conf_value c),
                 prow_calibration := Some (calibration_value (conf_state c)), prow_detail := []\<rparr>
         | Unavailable reason detail \<Rightarrow>
             row\<lparr>prow_reason := Some (reason_value reason), prow_detail := detail\<rparr>)"

definition row_to_prosody :: "prosody_row \<Rightarrow> provenance \<Rightarrow> prosody_reading result" where
  "row_to_prosody row prov =
     bindR (interval_of (prow_start_ms row) (prow_end_ms row)) (\<lambda>window.
     bindR (enum_call prosodic_value prosodic_indicators (prow_indicator row)) (\<lambda>ind.
       (case (prow_value row, prow_unit row) of
          (Some v, Some u) \<Rightarrow>
            bindR (confidence_of_row (case prow_confidence row of None \<Rightarrow> 0 | Some c \<Rightarrow> c)
                     (text_or ''raw'' (prow_calibration row))) (\<lambda>c.
            ProsodyReading ind window (Measured v c u) prov)
        | _ \<Rightarrow>
            bindR (enum_call reason_value unavailability_reasons (text_or ''processing_failed'' (prow_reason row))) (\<lambda>r.
            ProsodyReading ind window (Unavailable r (prow_detail row)) prov))))"

end
