(* ===== verification/EvidenceRows.thy ===== *)
theory EvidenceRows
  imports RowMapping Stores
begin

text \<open>
  The evidence repository over PostgreSQL
  (\<open>adapters/outbound/persistence/postgres/evidence_repository.py\<close>) and the run and audit rows of
  \<open>repositories.py\<close>: which rows a bundle is written as, and how a bundle and a document are rebuilt
  from rows. The database is an argument: \<open>load_bundle\<close> and \<open>load_stored_document\<close> take the lookups
  by primary key and the rows that the queries return.
\<close>

section \<open>Rows\<close>

definition modalities :: "modality list" where
  "modalities = [AUDIO, VIDEO, MULTIMODAL]"

definition quality_metrics :: "quality_metric list" where
  "quality_metrics =
     [SIGNAL_TO_NOISE_DB, CLIPPING_RATIO, SILENCE_RATIO, INPUT_LEVEL_DBFS, FACE_VISIBILITY_RATIO,
      MEAN_LUMINANCE, FRAMING_COVERAGE, LANDMARK_CONFIDENCE, CHUNK_LOSS_RATIO, AUDIO_VIDEO_SKEW_MS,
      EFFECTIVE_FRAME_RATE_FPS]"

definition run_states :: "run_state list" where
  "run_states = [RUN_PENDING, RUN_RUNNING, RUN_COMPLETED, RUN_FAILED]"

fun run_state_value :: "run_state \<Rightarrow> string" where
  "run_state_value RUN_PENDING = ''pending''"
| "run_state_value RUN_RUNNING = ''running''"
| "run_state_value RUN_COMPLETED = ''completed''"
| "run_state_value RUN_FAILED = ''failed''"

record assessment_row =
  arow_run_id :: string
  arow_tenant_id :: string
  arow_modality :: string
  arow_metric :: string
  arow_start_ms :: int
  arow_end_ms :: int
  arow_value :: "rat option"
  arow_unit :: "string option"
  arow_reason :: "string option"
  arow_detail :: string

definition assessment_to_row :: "quality_assessment \<Rightarrow> string \<Rightarrow> tenant_id \<Rightarrow> assessment_row" where
  "assessment_to_row a run_id tenant =
     (let row = \<lparr>arow_run_id = run_id, arow_tenant_id = tenant_id_value tenant,
            arow_modality = modality_value (qa_modality a), arow_metric = quality_metric_value (qa_metric a),
            arow_start_ms = start_ms (qa_window a), arow_end_ms = end_ms (qa_window a),
            arow_value = None, arow_unit = None, arow_reason = None, arow_detail = []\<rparr>
      in case qa_value a of
           Measured v c u \<Rightarrow> row\<lparr>arow_value := Some v, arow_unit := Some u, arow_detail := []\<rparr>
         | Unavailable reason detail \<Rightarrow>
             row\<lparr>arow_reason := Some (reason_value reason), arow_detail := detail\<rparr>)"

definition row_to_assessment :: "assessment_row \<Rightarrow> quality_assessment result" where
  "row_to_assessment row =
     bindR (interval_of (arow_start_ms row) (arow_end_ms row)) (\<lambda>window.
     bindR (case arow_value row of
              Some v \<Rightarrow> bindR (Confidence 1 CALIBRATED) (\<lambda>c. Inr (Measured v c (text_or ''ratio'' (arow_unit row))))
            | None \<Rightarrow>
                bindR (enum_call reason_value unavailability_reasons (text_or ''processing_failed'' (arow_reason row)))
                  (\<lambda>r. Inr (Unavailable r (arow_detail row)))) (\<lambda>v.
     bindR (enum_call modality_value modalities (arow_modality row)) (\<lambda>m.
     bindR (enum_call quality_metric_value quality_metrics (arow_metric row)) (\<lambda>metric.
     Inr \<lparr>qa_modality = m, qa_metric = metric, qa_window = window, qa_value = v\<rparr>))))"

record availability_row =
  mrow_run_id :: string
  mrow_tenant_id :: string
  mrow_modality :: string
  mrow_start_ms :: int
  mrow_end_ms :: int
  mrow_is_usable :: bool
  mrow_reason :: "string option"
  mrow_detail :: string

definition availability_to_row :: "modality_availability \<Rightarrow> string \<Rightarrow> tenant_id \<Rightarrow> availability_row" where
  "availability_to_row m run_id tenant =
     \<lparr>mrow_run_id = run_id, mrow_tenant_id = tenant_id_value tenant,
      mrow_modality = modality_value (ma_modality m),
      mrow_start_ms = start_ms (ma_window m), mrow_end_ms = end_ms (ma_window m),
      mrow_is_usable = ma_is_usable m, mrow_reason = map_option reason_value (ma_reason m),
      mrow_detail = ma_detail m\<rparr>"

definition row_to_availability :: "availability_row \<Rightarrow> modality_availability result" where
  "row_to_availability row =
     bindR (enum_call modality_value modalities (mrow_modality row)) (\<lambda>m.
     bindR (interval_of (mrow_start_ms row) (mrow_end_ms row)) (\<lambda>window.
     bindR (enum_opt reason_value unavailability_reasons (mrow_reason row)) (\<lambda>reason.
     ModalityAvailability m window (mrow_is_usable row) reason (mrow_detail row))))"

record cooccurrence_row =
  xrow_run_id :: string
  xrow_tenant_id :: string
  xrow_speech_event_id :: string
  xrow_visual_event_id :: string
  xrow_temporal_distance_ms :: int
  xrow_fusion_window_ms :: int
  xrow_configuration_id :: string

definition cooccurrence_to_row :: "multimodal_cooccurrence \<Rightarrow> string \<Rightarrow> tenant_id \<Rightarrow> cooccurrence_row" where
  "cooccurrence_to_row p run_id tenant =
     \<lparr>xrow_run_id = run_id, xrow_tenant_id = tenant_id_value tenant,
      xrow_speech_event_id = event_id_value (mc_speech_event_id p),
      xrow_visual_event_id = event_id_value (mc_visual_event_id p),
      xrow_temporal_distance_ms = mc_temporal_distance_ms p,
      xrow_fusion_window_ms = fw_width_ms (mc_window p),
      xrow_configuration_id = configuration_snapshot_id_value (fw_configuration (mc_window p))\<rparr>"

definition row_to_cooccurrence :: "cooccurrence_row \<Rightarrow> multimodal_cooccurrence result" where
  "row_to_cooccurrence row =
     bindR (Identifier EventId (xrow_speech_event_id row)) (\<lambda>speech.
     bindR (Identifier EventId (xrow_visual_event_id row)) (\<lambda>visual.
     bindR (Identifier ConfigurationSnapshotId (xrow_configuration_id row)) (\<lambda>conf.
     bindR (FusionWindow (xrow_fusion_window_ms row) conf) (\<lambda>window.
     MultimodalCooccurrence speech visual (xrow_temporal_distance_ms row) window))))"

record run_row =
  rrow_id :: string
  rrow_session_id :: string
  rrow_pipeline_version :: string
  rrow_state :: string
  rrow_started_at_ms :: int
  rrow_completed_at_ms :: "int option"
  rrow_completed_stages :: "string list"

definition run_to_row :: "processing_run \<Rightarrow> run_row" where
  "run_to_row r =
     \<lparr>rrow_id = run_id_value (pr_id r), rrow_session_id = session_id_value (pr_session_id r),
      rrow_pipeline_version = version_str (pr_pipeline_version r), rrow_state = run_state_value (pr_state r),
      rrow_started_at_ms = pr_started_at_ms r, rrow_completed_at_ms = pr_completed_at_ms r,
      rrow_completed_stages = pr_completed_stages r\<rparr>"

definition row_to_run :: "run_row \<Rightarrow> processing_run result" where
  "row_to_run row =
     bindR (Identifier RunId (rrow_id row)) (\<lambda>i.
     bindR (Identifier SessionId (rrow_session_id row)) (\<lambda>session.
     bindR (version_parse (rrow_pipeline_version row)) (\<lambda>pipeline.
     bindR (enum_call run_state_value run_states (rrow_state row)) (\<lambda>state.
     Inr \<lparr>pr_id = i, pr_session_id = session, pr_pipeline_version = pipeline, pr_state = state,
          pr_started_at_ms = rrow_started_at_ms row, pr_completed_at_ms = rrow_completed_at_ms row,
          pr_completed_stages = rrow_completed_stages row\<rparr>))))"

section \<open>Bundles\<close>

record bundle_rows =
  br_tokens :: "token_row list"
  br_speech :: "speech_event_row list"
  br_visual :: "visual_event_row list"
  br_prosody :: "prosody_row list"
  br_assessments :: "assessment_row list"
  br_availability :: "availability_row list"
  br_cooccurrences :: "cooccurrence_row list"

definition no_rows :: bundle_rows where
  "no_rows = \<lparr>br_tokens = [], br_speech = [], br_visual = [], br_prosody = [], br_assessments = [],
     br_availability = [], br_cooccurrences = []\<rparr>"

definition write_bundle :: "evidence_bundle \<Rightarrow> bundle_rows" where
  "write_bundle b =
     (let run_id = run_id_value (eb_run_id b); tenant = eb_tenant b
      in \<lparr>br_tokens = map (\<lambda>t. token_to_row t run_id tenant) (tr_tokens (eb_transcript b)),
          br_speech = map (\<lambda>e. speech_event_to_row e run_id tenant) (eb_speech_events b),
          br_visual = map (\<lambda>e. visual_event_to_row e run_id tenant) (eb_visual_events b),
          br_prosody = map (\<lambda>r. prosody_to_row r run_id tenant) (eb_prosody b),
          br_assessments = map (\<lambda>a. assessment_to_row a run_id tenant) (qr_assessments (eb_quality b)),
          br_availability = map (\<lambda>m. availability_to_row m run_id tenant) (qr_availability (eb_quality b)),
          br_cooccurrences = map (\<lambda>p. cooccurrence_to_row p run_id tenant) (eb_cooccurrences b)\<rparr>)"

definition synthetic_audio_provenance :: "run_row \<Rightarrow> provenance result" where
  "synthetic_audio_provenance run =
     bindR (Identifier ModelVersionId ''unknown'') (\<lambda>model.
     bindR (Identifier ConfigurationSnapshotId ''unknown'') (\<lambda>conf.
     bindR (Identifier EvidenceRef (''audio:'' @ rrow_id run)) (\<lambda>ref.
     Inr \<lparr>prov_modality = AUDIO, prov_model_version = model, prov_taxonomy_version = TAXONOMY_VERSION,
          prov_configuration = conf, prov_evidence_ref = ref\<rparr>)))"

definition read_bundle :: "tenant_id \<Rightarrow> run_row \<Rightarrow> bundle_rows \<Rightarrow> evidence_bundle result" where
  "read_bundle tenant run rows =
     bindR (mapR row_to_speech_event (br_speech rows)) (\<lambda>speech.
     bindR (mapR row_to_visual_event (br_visual rows)) (\<lambda>visual.
     bindR (case speech of e # _ \<Rightarrow> Inr (se_provenance e) | [] \<Rightarrow> synthetic_audio_provenance run) (\<lambda>audio.
     bindR (Identifier RunId (rrow_id run)) (\<lambda>run_id.
     bindR (Identifier SessionId (rrow_session_id run)) (\<lambda>session.
     bindR (mapR row_to_token (br_tokens rows)) (\<lambda>tokens.
     bindR (mapR row_to_assessment (br_assessments rows)) (\<lambda>assessments.
     bindR (mapR row_to_availability (br_availability rows)) (\<lambda>availability.
     bindR (mapR (\<lambda>r. row_to_prosody r audio) (br_prosody rows)) (\<lambda>prosody.
     bindR (mapR row_to_cooccurrence (br_cooccurrences rows)) (\<lambda>cooccurrences.
     Inr \<lparr>eb_run_id = run_id, eb_session_id = session, eb_tenant = tenant,
          eb_transcript = transcript_build tokens,
          eb_quality = \<lparr>qr_assessments = assessments, qr_availability = availability\<rparr>,
          eb_speech_events = speech, eb_visual_events = visual, eb_prosody = prosody,
          eb_cooccurrences = cooccurrences\<rparr>))))))))))"

text \<open>The lookup of a run is by its key alone, the evidence rows are selected by run and tenant.\<close>

definition load_bundle ::
  "(string \<Rightarrow> run_row option) \<Rightarrow> (string \<Rightarrow> tenant_id \<Rightarrow> bundle_rows) \<Rightarrow> tenant_id \<Rightarrow> run_id \<Rightarrow>
   evidence_bundle option result" where
  "load_bundle get_run rows_of tenant run_id =
     (case get_run (run_id_value run_id) of
        None \<Rightarrow> Inr None
      | Some run \<Rightarrow> bindR (read_bundle tenant run (rows_of (rrow_id run) tenant)) (\<lambda>b. Inr (Some b)))"

section \<open>Documents\<close>

record document_row =
  drow_tenant_id :: string
  drow_session_id :: string
  drow_run_id :: string
  drow_schema_version :: string
  drow_document :: "(string \<times> json) list"

definition document_to_row ::
  "(evidence_document \<Rightarrow> (string \<times> json) list result) \<Rightarrow> evidence_document \<Rightarrow> tenant_id \<Rightarrow> document_row result"
where
  "document_to_row render d tenant =
     bindR (render d) (\<lambda>payload.
       Inr \<lparr>drow_tenant_id = tenant_id_value tenant, drow_session_id = session_id_value (ed_session_id d),
            drow_run_id = run_id_value (ed_run_id d),
            drow_schema_version = version_str (pm_schema_version (ed_manifest d)), drow_document = payload\<rparr>)"

text \<open>Reading values out of the stored JSON: subscripts, text methods and \<open>items\<close>.\<close>

definition AttributeError :: exn where
  "AttributeError = OtherError ''AttributeError''"

fun json_subscript :: "json \<Rightarrow> string \<Rightarrow> json result" where
  "json_subscript (JMap kvs) key = json_key kvs key"
| "json_subscript _ key = Inl TypeError"

fun json_items :: "json \<Rightarrow> (string \<times> json) list result" where
  "json_items (JMap kvs) = Inr kvs"
| "json_items _ = Inl AttributeError"

fun json_version :: "json \<Rightarrow> semantic_version result" where
  "json_version (JStr s) = version_parse s"
| "json_version _ = Inl AttributeError"

fun json_identifier :: "(string \<Rightarrow> 'i) \<Rightarrow> json \<Rightarrow> 'i result" where
  "json_identifier con (JStr s) = Identifier con s"
| "json_identifier con v = Inl (if truthy v then AttributeError else DomainError InvalidIdentifier)"

definition manifest_from :: "(string \<times> json) list \<Rightarrow> provenance_manifest result" where
  "manifest_from document =
     bindR (json_key document ''manifest'') (\<lambda>manifest.
     bindR (bindR (json_subscript manifest ''pipeline_version'') json_version) (\<lambda>pipeline.
     bindR (bindR (json_subscript manifest ''schema_version'') json_version) (\<lambda>schema.
     bindR (bindR (json_subscript manifest ''taxonomy_version'') json_version) (\<lambda>taxonomy.
     bindR (bindR (json_subscript manifest ''configuration_id'') (json_identifier ConfigurationSnapshotId)) (\<lambda>conf.
     bindR (bindR (json_subscript manifest ''models'') json_items) (\<lambda>items.
     bindR (mapR (\<lambda>(k, v). bindR (enum_call modality_value modalities k) (\<lambda>m.
                    bindR (json_identifier ModelVersionId v) (\<lambda>model. Inr (m, model)))) items) (\<lambda>models.
     ProvenanceManifest pipeline schema taxonomy conf models)))))))"

definition document_from :: "document_row \<Rightarrow> evidence_bundle \<Rightarrow> evidence_document result" where
  "document_from row b =
     bindR (json_key (drow_document row) ''manifest'') (\<lambda>_.
     bindR (Identifier SessionId (drow_session_id row)) (\<lambda>session.
     bindR (Identifier RunId (drow_run_id row)) (\<lambda>run.
     bindR (manifest_from (drow_document row)) (\<lambda>manifest.
     Inr \<lparr>ed_session_id = session, ed_run_id = run, ed_manifest = manifest,
          ed_transcript = eb_transcript b, ed_quality = eb_quality b,
          ed_speech_events = eb_speech_events b, ed_visual_events = eb_visual_events b,
          ed_prosody = eb_prosody b, ed_cooccurrences = eb_cooccurrences b\<rparr>))))"

definition load_stored_document ::
  "(tenant_id \<Rightarrow> session_id \<Rightarrow> document_row option) \<Rightarrow> (string \<Rightarrow> run_row option) \<Rightarrow>
   (string \<Rightarrow> tenant_id \<Rightarrow> bundle_rows) \<Rightarrow> tenant_id \<Rightarrow> session_id \<Rightarrow> evidence_document option result"
where
  "load_stored_document get_document get_run rows_of tenant i =
     (case get_document tenant i of
        None \<Rightarrow> Inr None
      | Some row \<Rightarrow>
          bindR (Identifier RunId (drow_run_id row)) (\<lambda>run_id.
          bindR (load_bundle get_run rows_of tenant run_id) (\<lambda>bundle.
            case bundle of
              None \<Rightarrow> Inr None
            | Some b \<Rightarrow> bindR (document_from row b) (\<lambda>d. Inr (Some d)))))"

section \<open>Constraints of the tables\<close>

text \<open>The check constraints of \<open>models.py\<close>, on non-null columns.\<close>

definition session_row_allowed :: "session_row \<Rightarrow> bool" where
  "session_row_allowed row \<longleftrightarrow> srow_mode row \<in> {''realtime'', ''batch''}"

definition token_row_allowed :: "token_row \<Rightarrow> bool" where
  "token_row_allowed row \<longleftrightarrow>
     trow_end_ms row \<ge> trow_start_ms row \<and> 0 \<le> trow_confidence row \<and> trow_confidence row \<le> 1"

definition speech_row_allowed :: "speech_event_row \<Rightarrow> bool" where
  "speech_row_allowed row \<longleftrightarrow>
     (case erow_context_role row of None \<Rightarrow> True
      | Some role \<Rightarrow> role \<in> {''filler'', ''semantic'', ''discourse_marker'', ''uncertain''}) \<and>
     0 \<le> erow_confidence row \<and> erow_confidence row \<le> 1"

definition visual_row_allowed :: "visual_event_row \<Rightarrow> bool" where
  "visual_row_allowed row \<longleftrightarrow> 0 \<le> erow_confidence row \<and> erow_confidence row \<le> 1"

definition prosody_row_allowed :: "prosody_row \<Rightarrow> bool" where
  "prosody_row_allowed row \<longleftrightarrow>
     prow_value row \<noteq> None \<and> prow_unit row \<noteq> None \<and> prow_reason row = None \<or>
     prow_value row = None \<and> prow_reason row \<noteq> None"

definition assessment_row_allowed :: "assessment_row \<Rightarrow> bool" where
  "assessment_row_allowed row \<longleftrightarrow>
     arow_value row \<noteq> None \<and> arow_reason row = None \<or> arow_value row = None \<and> arow_reason row \<noteq> None"

definition availability_row_allowed :: "availability_row \<Rightarrow> bool" where
  "availability_row_allowed row \<longleftrightarrow>
     mrow_is_usable row \<and> mrow_reason row = None \<or> \<not> mrow_is_usable row \<and> mrow_reason row \<noteq> None"

definition cooccurrence_row_allowed :: "cooccurrence_row \<Rightarrow> bool" where
  "cooccurrence_row_allowed row \<longleftrightarrow>
     xrow_temporal_distance_ms row \<ge> 0 \<and> xrow_temporal_distance_ms row \<le> xrow_fusion_window_ms row"

definition rows_allowed :: "bundle_rows \<Rightarrow> bool" where
  "rows_allowed rows \<longleftrightarrow>
     list_all token_row_allowed (br_tokens rows) \<and> list_all speech_row_allowed (br_speech rows) \<and>
     list_all visual_row_allowed (br_visual rows) \<and> list_all prosody_row_allowed (br_prosody rows) \<and>
     list_all assessment_row_allowed (br_assessments rows) \<and>
     list_all availability_row_allowed (br_availability rows) \<and>
     list_all cooccurrence_row_allowed (br_cooccurrences rows)"

text \<open>The primary keys the code assigns and the unique constraint of the co-occurrences, among the rows of
  one bundle. The other tables number their rows themselves.\<close>

definition token_keys_allowed :: "token_row list \<Rightarrow> bool" where
  "token_keys_allowed rows \<longleftrightarrow> distinct (map trow_id rows)"

definition speech_keys_allowed :: "speech_event_row list \<Rightarrow> bool" where
  "speech_keys_allowed rows \<longleftrightarrow> distinct (map erow_id rows)"

definition visual_keys_allowed :: "visual_event_row list \<Rightarrow> bool" where
  "visual_keys_allowed rows \<longleftrightarrow> distinct (map erow_id rows)"

definition pairs_allowed :: "cooccurrence_row list \<Rightarrow> bool" where
  "pairs_allowed rows \<longleftrightarrow>
     distinct (map (\<lambda>r. (xrow_run_id r, xrow_speech_event_id r, xrow_visual_event_id r)) rows)"

definition keys_allowed :: "bundle_rows \<Rightarrow> bool" where
  "keys_allowed rows \<longleftrightarrow>
     token_keys_allowed (br_tokens rows) \<and> speech_keys_allowed (br_speech rows) \<and>
     visual_keys_allowed (br_visual rows) \<and> pairs_allowed (br_cooccurrences rows)"

end
