(* ===== verification/RestApi.thy ===== *)
theory RestApi
  imports UseCases Identity Configuration Serialization EvidenceRows
begin

text \<open>
  The REST interface (\<open>adapters/inbound/rest\<close>): the caller and the trace of a request
  (\<open>dependencies.py\<close>), the routes over the use cases (\<open>sessions.py\<close> with the bodies of
  \<open>schemas.py\<close>), readiness (\<open>health.py\<close>) and the error contract (\<open>errors.py\<close>). The framework validates
  shapes before a route runs, so a route takes the validated body; clocks, fresh identifiers and the
  minter are arguments.
\<close>

section \<open>Dependencies\<close>

definition get_trace_id :: "string \<Rightarrow> string option \<Rightarrow> string" where
  "get_trace_id fresh_hex incoming =
     (case incoming of None \<Rightarrow> ''tr_'' @ fresh_hex | Some t \<Rightarrow> if t = [] then ''tr_'' @ fresh_hex else t)"

text \<open>A caller, or the detail of the 401.\<close>

definition get_caller ::
  "int \<Rightarrow> api_key_directory \<Rightarrow> string \<Rightarrow> string option \<Rightarrow> string + authenticated_caller" where
  "get_caller now directory trace_id authorization =
     (let header = (case authorization of None \<Rightarrow> [] | Some a \<Rightarrow> a) in
      if header = [] \<or> take (length ''bearer '') (py_lower header) \<noteq> ''bearer ''
      then Inl ''missing or malformed Authorization header''
      else let secret = py_strip (drop (length ''bearer '') header) in
        case authenticate now directory secret trace_id of
          None \<Rightarrow> Inl ''invalid credentials''
        | Some caller \<Rightarrow> Inr caller)"

section \<open>Errors\<close>

fun application_class :: "application_error \<Rightarrow> string" where
  "application_class NotAuthenticated = ''NotAuthenticated''"
| "application_class NotAuthorized = ''NotAuthorized''"
| "application_class SessionNotFound = ''SessionNotFound''"
| "application_class ResultNotReady = ''ResultNotReady''"
| "application_class (QuotaExceeded _) = ''QuotaExceeded''"
| "application_class SessionBusy = ''SessionBusy''"
| "application_class (BackpressureRequired _) = ''BackpressureRequired''"

fun domain_class :: "domain_error \<Rightarrow> string" where
  "domain_class InvalidIdentifier = ''InvalidIdentifier''"
| "domain_class InvalidInterval = ''InvalidInterval''"
| "domain_class InvalidConfidence = ''InvalidConfidence''"
| "domain_class FabricatedValue = ''FabricatedValue''"
| "domain_class ProhibitedLabel = ''ProhibitedLabel''"
| "domain_class IllegalSessionTransition = ''IllegalSessionTransition''"
| "domain_class EvidenceLedgerViolation = ''EvidenceLedgerViolation''"
| "domain_class UnsupportedCapability = ''UnsupportedCapability''"
| "domain_class ConsentViolation = ''ConsentViolation''"
| "domain_class TranscriptViolation = ''TranscriptViolation''"
| "domain_class SpeechEventViolation = ''SpeechEventViolation''"
| "domain_class ProsodyViolation = ''ProsodyViolation''"
| "domain_class VisualEventViolation = ''VisualEventViolation''"
| "domain_class CalibrationViolation = ''CalibrationViolation''"
| "domain_class QualityViolation = ''QualityViolation''"
| "domain_class FusionViolation = ''FusionViolation''"
| "domain_class ResultViolation = ''ResultViolation''"

text \<open>\<open>type(error)\<close>, and the classes an \<open>isinstance\<close> test accepts. The engine's classes are kept apart
  from the classes of other exceptions by the constructor.\<close>

datatype python_class = EngineClass string | OtherClass string

fun exn_class :: "exn \<Rightarrow> python_class" where
  "exn_class (ApplicationError a) = EngineClass (application_class a)"
| "exn_class (DomainError d) = EngineClass (domain_class d)"
| "exn_class ValueError = OtherClass ''ValueError''"
| "exn_class KeyError = OtherClass ''KeyError''"
| "exn_class (OtherError s) = OtherClass s"

fun class_name :: "python_class \<Rightarrow> string" where
  "class_name (EngineClass s) = s"
| "class_name (OtherClass s) = s"

fun exn_bases :: "exn \<Rightarrow> python_class list" where
  "exn_bases (ApplicationError a) = [EngineClass ''ApplicationError'']"
| "exn_bases (DomainError d) = [EngineClass ''DomainError'']"
| "exn_bases e = []"

definition MAPPING :: "(python_class \<times> nat \<times> string) list" where
  "MAPPING =
     [(EngineClass ''NotAuthenticated'', 401, ''not_authenticated''),
      (EngineClass ''NotAuthorized'', 403, ''insufficient_scope''),
      (EngineClass ''SessionNotFound'', 404, ''session_not_found''),
      (EngineClass ''ResultNotReady'', 409, ''result_not_ready''),
      (EngineClass ''SessionBusy'', 409, ''session_busy''),
      (EngineClass ''QuotaExceeded'', 429, ''quota_exceeded''),
      (EngineClass ''BackpressureRequired'', 429, ''backpressure_required''),
      (EngineClass ''UnsupportedCapability'', 422, ''unsupported_capability''),
      (EngineClass ''ConsentViolation'', 403, ''consent_required''),
      (EngineClass ''IllegalSessionTransition'', 409, ''illegal_transition''),
      (EngineClass ''ProhibitedLabel'', 500, ''prohibited_label'')]"

definition resolve_error :: "exn \<Rightarrow> nat \<times> string" where
  "resolve_error e =
     (case find (\<lambda>(c, _). exn_class e = c) MAPPING of
        Some (_, answer) \<Rightarrow> answer
      | None \<Rightarrow>
          (case find (\<lambda>(c, _). c \<in> set (exn_class e # exn_bases e)) MAPPING of
             Some (_, answer) \<Rightarrow> answer
           | None \<Rightarrow>
               (case e of
                  ApplicationError _ \<Rightarrow> (400, ''invalid_request'')
                | DomainError _ \<Rightarrow> (500, ''domain_invariant_violated'')
                | _ \<Rightarrow> (500, ''internal_error''))))"

fun retry_after_seconds :: "exn \<Rightarrow> int option" where
  "retry_after_seconds (ApplicationError (QuotaExceeded n)) = Some n"
| "retry_after_seconds e = None"

fun is_own_error :: "exn \<Rightarrow> bool" where
  "is_own_error (ApplicationError _) = True"
| "is_own_error (DomainError _) = True"
| "is_own_error e = False"

text \<open>Of the message only its origin is kept: the exception's own text, or the generic sentence.\<close>

record error_reply =
  er_status :: nat
  er_schema_version :: string
  er_code :: string
  er_own_message :: bool
  er_trace_id :: "string option"
  er_retry_after_seconds :: "int option"
  er_retry_header :: "string option"

definition handle_error :: "string \<Rightarrow> string option \<Rightarrow> exn \<Rightarrow> error_reply" where
  "handle_error schema_version trace_header e =
     (let (http_status, code) = resolve_error e;
          retry = (case retry_after_seconds e of None \<Rightarrow> None | Some n \<Rightarrow> if n = 0 then None else Some n)
      in \<lparr>er_status = http_status, er_schema_version = schema_version, er_code = code,
          er_own_message = is_own_error e, er_trace_id = trace_header, er_retry_after_seconds = retry,
          er_retry_header = map_option show_int retry\<rparr>)"

section \<open>Bodies\<close>

record create_session_body =
  cb_mode :: string
  cb_audio_codec :: string
  cb_sample_rate_hz :: int
  cb_locale :: string
  cb_video_format :: "string option"
  cb_frame_rate_fps :: "int option"
  cb_consent_policy_version :: string
  cb_retain_raw_media :: bool
  cb_raw_media_ttl_seconds :: int
  cb_retain_derived_aggregates :: bool

type_synonym reply = "nat \<times> (string \<times> json) list"

datatype http_response = Answer nat "(string \<times> json) list" | Refused error_reply | Unauthenticated string

definition render_capabilities :: "negotiated_capabilities \<Rightarrow> string \<Rightarrow> (string \<times> json) list" where
  "render_capabilities c schema_version =
     [(''schema_version'', JStr schema_version),
      (''audio_codec'', JStr (audio_codec_value (cap_audio_codec c))),
      (''sample_rate_hz'', JInt (cap_sample_rate_hz c)),
      (''locale'', JStr (cap_locale c)),
      (''video_format'', json_opt (\<lambda>v. JStr (video_format_value v)) (cap_video_format c)),
      (''frame_rate_fps'', json_opt JInt (cap_frame_rate_fps c)),
      (''lossy_audio_warning'', JBool (requires_quality_warning c))]"

definition render_created :: "created_session \<Rightarrow> string \<Rightarrow> (string \<times> json) list" where
  "render_created c schema_version =
     [(''schema_version'', JStr schema_version),
      (''session_id'', JStr (session_id_value (as_id (cd_session c)))),
      (''state'', JStr (session_state_value (as_state (cd_session c)))),
      (''mode'', JStr (session_mode_value (as_mode (cd_session c)))),
      (''capabilities'', JMap (render_capabilities (as_capabilities (cd_session c)) schema_version)),
      (''configuration_id'', JStr (configuration_snapshot_id_value (as_configuration (cd_session c)))),
      (''stream_token'', JStr (cd_stream_token c)),
      (''stream_token_expires_at_ms'', JInt (cd_stream_token_expires_at_ms c))]"

definition consent_active :: "analysis_session \<Rightarrow> bool" where
  "consent_active s \<longleftrightarrow> (case as_consent s of None \<Rightarrow> False | Some r \<Rightarrow> consent_is_active r)"

definition status_body :: "string \<Rightarrow> analysis_session \<Rightarrow> int \<Rightarrow> (string \<times> json) list" where
  "status_body schema_version s captured =
     [(''schema_version'', JStr schema_version),
      (''session_id'', JStr (session_id_value (as_id s))),
      (''state'', JStr (session_state_value (as_state s))),
      (''mode'', JStr (session_mode_value (as_mode s))),
      (''locale'', JStr (as_locale s)),
      (''created_at_ms'', JInt (as_created_at_ms s)),
      (''completed_at_ms'', json_opt JInt (as_completed_at_ms s)),
      (''captured_ms'', JInt captured),
      (''consent_active'', JBool (consent_active s))]"

definition deletion_body :: "string \<Rightarrow> deletion_receipt \<Rightarrow> (string \<times> json) list" where
  "deletion_body schema_version r =
     [(''schema_version'', JStr schema_version),
      (''session_id'', JStr (session_id_value (dr_session_id r))),
      (''media_objects_deleted'', JInt (dr_media_objects_deleted r)),
      (''evidence_records_deleted'', JInt (dr_evidence_records_deleted r)),
      (''already_deleted'', JBool (dr_was_already_deleted r))]"

definition json_strings :: "string list \<Rightarrow> json" where
  "json_strings ss = JSeq (map JStr ss)"

definition capabilities_body :: "capabilities \<Rightarrow> (string \<times> json) list" where
  "capabilities_body c =
     [(''schema_version'', JStr (version_str (cps_schema_version c))),
      (''taxonomy_version'', JStr (version_str (cps_taxonomy_version c))),
      (''audio_codecs'', json_strings (cps_audio_codecs c)),
      (''sample_rates_hz'', JSeq (map JInt (cps_sample_rates_hz c))),
      (''video_formats'', json_strings (cps_video_formats c)),
      (''frame_rate_range_fps'', JSeq [JInt (fst (cps_frame_rate_range_fps c)), JInt (snd (cps_frame_rate_range_fps c))]),
      (''locales'', json_strings (cps_locales c)),
      (''speech_event_types'', json_strings (cps_speech_event_types c)),
      (''visual_event_types'', json_strings (cps_visual_event_types c)),
      (''ranking_authority'', JStr ''none'')]"

section \<open>Routes\<close>

definition schema_version_of :: "semantic_version \<Rightarrow> string" where
  "schema_version_of schema = version_str (cps_schema_version (read_capabilities schema))"

definition command_of :: "create_session_body \<Rightarrow> string option \<Rightarrow> create_session_command result" where
  "command_of body idempotency_key =
     bindR (version_parse (cb_consent_policy_version body)) (\<lambda>policy_version.
     bindR (enum_call session_mode_value session_modes (cb_mode body)) (\<lambda>mode.
     bindR (RetentionPolicy policy_version (cb_retain_raw_media body) (cb_raw_media_ttl_seconds body)
              (cb_retain_derived_aggregates body)) (\<lambda>retention.
     Inr \<lparr>csc_mode = mode,
          csc_capabilities = \<lparr>req_audio_codec = cb_audio_codec body, req_sample_rate_hz = cb_sample_rate_hz body,
            req_locale = cb_locale body, req_video_format = cb_video_format body,
            req_frame_rate_fps = cb_frame_rate_fps body\<rparr>,
          csc_consent_policy_version = policy_version, csc_retention = retention,
          csc_idempotency_key = idempotency_key\<rparr>)))"

definition create_session_route ::
  "semantic_version \<Rightarrow> (stream_grant \<Rightarrow> string) \<Rightarrow> session_id \<Rightarrow> create_clock \<Rightarrow> authenticated_caller \<Rightarrow>
   string option \<Rightarrow> create_session_body \<Rightarrow> (engine, reply) action" where
  "create_session_route schema mint fresh clk caller idempotency_key body =
     bindA (liftA (command_of body idempotency_key)) (\<lambda>command.
     bindA (create_session mint fresh clk caller command) (\<lambda>created.
     returnA (if cd_was_existing created then 200 else 201,
       render_created created (schema_version_of schema))))"

definition read_session_route ::
  "semantic_version \<Rightarrow> int \<Rightarrow> authenticated_caller \<Rightarrow> string \<Rightarrow> (engine, reply) action" where
  "read_session_route schema wall_ms caller path_id =
     bindA (liftA (Identifier SessionId path_id)) (\<lambda>i.
     bindA (read_session caller i) (\<lambda>s.
     bindA (liftA (session_captured_ms s wall_ms)) (\<lambda>captured.
     returnA (200, status_body (schema_version_of schema) s captured))))"

definition read_result_route ::
  "semantic_version \<Rightarrow> authenticated_caller \<Rightarrow> string \<Rightarrow> (engine, reply) action" where
  "read_result_route schema caller path_id =
     bindA (liftA (Identifier SessionId path_id)) (\<lambda>i.
     bindA (read_result caller i) (\<lambda>document.
     bindA (liftA (render_document (schema_version_of schema) document)) (\<lambda>payload.
     returnA (200, payload))))"

definition delete_evidence_route ::
  "semantic_version \<Rightarrow> int \<Rightarrow> authenticated_caller \<Rightarrow> string \<Rightarrow> (engine, reply) action" where
  "delete_evidence_route schema epoch_ms caller path_id =
     bindA (liftA (Identifier SessionId path_id)) (\<lambda>i.
     bindA (delete_evidence epoch_ms caller i) (\<lambda>receipt.
     returnA (200, deletion_body (schema_version_of schema) receipt)))"

definition capabilities_route :: "semantic_version \<Rightarrow> authenticated_caller \<Rightarrow> (engine, reply) action" where
  "capabilities_route schema caller = returnA (200, capabilities_body (read_capabilities schema))"

text \<open>A request as the framework runs it: the caller first, then the route, and the installed handlers
  on whatever it raises.\<close>

definition serve ::
  "string \<Rightarrow> string option \<Rightarrow> string + authenticated_caller \<Rightarrow>
   (authenticated_caller \<Rightarrow> (engine, reply) action) \<Rightarrow> engine \<Rightarrow> engine \<times> http_response" where
  "serve schema_version trace_header caller route e =
     (case caller of
        Inl detail \<Rightarrow> (e, Unauthenticated detail)
      | Inr c \<Rightarrow>
          (case route c e of
             (e', Inr (http_status, body)) \<Rightarrow> (e', Answer http_status body)
           | (e', Inl x) \<Rightarrow> (e', Refused (handle_error schema_version trace_header x))))"

section \<open>Readiness\<close>

definition model_check :: "model_registry \<Rightarrow> modality \<Rightarrow> string" where
  "model_check r m =
     (case active_for r m of
        Inl failure \<Rightarrow> ''unavailable ('' @ class_name (exn_class failure) @ '')''
      | Inr version \<Rightarrow> ''ready ('' @ model_version_id_value (mv_id version) @ '')'')"

definition ready :: "model_registry \<Rightarrow> string \<Rightarrow> string \<Rightarrow> nat \<times> string \<times> (string \<times> string) list" where
  "ready r backend runtime_mode =
     (let checks = [(''model:'' @ modality_value AUDIO, model_check r AUDIO),
            (''model:'' @ modality_value VIDEO, model_check r VIDEO),
            (''backend'', backend), (''runtime_mode'', runtime_mode)];
          is_ready = list_all (\<lambda>(_, v). take (length ''unavailable'') v \<noteq> ''unavailable'') checks
      in (if is_ready then 200 else 503, if is_ready then ''ready'' else ''not_ready'', checks))"

end
