(* ===== verification/RestProperties.thy ===== *)
theory RestProperties
  imports RestApi UseCaseProperties
begin

text \<open>
  What a client of the REST interface can rely on: one code for every failure, reads that change
  nothing and answer by cases, and no change without a live key.
\<close>

section \<open>The error contract\<close>

text \<open>
  C23: The mapping of failures is total and stable. Every exception has the status and code below, whatever
  it carries; an unexpected exception is a 500 whose own message is withheld; a delay is announced, in
  the body and in the header alike, exactly for a quota with a delay other than zero.
\<close>

theorem error_contract:
  "resolve_error e =
     (case e of
        ApplicationError NotAuthenticated \<Rightarrow> (401, ''not_authenticated'')
      | ApplicationError NotAuthorized \<Rightarrow> (403, ''insufficient_scope'')
      | ApplicationError SessionNotFound \<Rightarrow> (404, ''session_not_found'')
      | ApplicationError ResultNotReady \<Rightarrow> (409, ''result_not_ready'')
      | ApplicationError SessionBusy \<Rightarrow> (409, ''session_busy'')
      | ApplicationError (QuotaExceeded _) \<Rightarrow> (429, ''quota_exceeded'')
      | ApplicationError (BackpressureRequired _) \<Rightarrow> (429, ''backpressure_required'')
      | DomainError d \<Rightarrow>
          (if d = UnsupportedCapability then (422, ''unsupported_capability'')
           else if d = ConsentViolation then (403, ''consent_required'')
           else if d = IllegalSessionTransition then (409, ''illegal_transition'')
           else if d = ProhibitedLabel then (500, ''prohibited_label'')
           else (500, ''domain_invariant_violated''))
      | _ \<Rightarrow> (500, ''internal_error'')) \<and>
   (case handle_error version trace e of reply \<Rightarrow>
      (er_status reply, er_code reply) = resolve_error e \<and>
      (er_own_message reply \<longleftrightarrow> er_code reply \<noteq> ''internal_error'') \<and>
      er_retry_header reply = map_option show_int (er_retry_after_seconds reply) \<and>
      er_retry_after_seconds reply =
        (case e of ApplicationError (QuotaExceeded n) \<Rightarrow> if n = 0 then None else Some n | _ \<Rightarrow> None))"
proof (cases e)
  case (DomainError d)
  then show ?thesis by (cases d) (simp_all add: resolve_error_def MAPPING_def handle_error_def Let_def)
next
  case (ApplicationError a)
  then show ?thesis by (cases a) (simp_all add: resolve_error_def MAPPING_def handle_error_def Let_def)
qed (simp_all add: resolve_error_def MAPPING_def handle_error_def Let_def)

section \<open>Reading a result\<close>

fun status_of :: "http_response \<Rightarrow> nat" where
  "status_of (Answer n _) = n"
| "status_of (Refused r) = er_status r"
| "status_of (Unauthenticated _) = 401"

lemma application_statuses:
  "er_status (handle_error v h (ApplicationError NotAuthorized)) = 403"
  "er_status (handle_error v h (ApplicationError SessionNotFound)) = 404"
  "er_status (handle_error v h (ApplicationError ResultNotReady)) = 409"
  "er_status (handle_error v h (DomainError InvalidIdentifier)) = 500"
  by (simp_all add: handle_error_def resolve_error_def MAPPING_def Let_def)

lemma serve_run:
  "serve v h (Inr c) route e =
     (fst (route c e), case snd (route c e) of Inr (n, body) \<Rightarrow> Answer n body | Inl x \<Rightarrow> Refused (handle_error v h x))"
  by (auto simp: serve_def split: prod.splits sum.splits)

text \<open>
  C21: Reading a result changes nothing, and the answer follows the state of the session, for a path that is
  not blank. A caller without the scope gets a 403; a session of another tenant and one that does not exist,
  neither of which the tenant's repository finds, get the same 404; a
  session that is not completed, or whose evidence was deleted, a 409; a completed session with its
  document a 200 with that document rendered.
\<close>

theorem read_result_answers:
  assumes "py_strip path \<noteq> []"
    and "case load_document (en_evidence e) (ac_tenant c) (SessionId path) of
      None \<Rightarrow> True | Some d \<Rightarrow> wf_transcript (ed_transcript d)"
  shows "case serve version trace (Inr c) (\<lambda>c. read_result_route schema c path) e of (e', answer) \<Rightarrow>
    e' = e \<and>
    (if \<not> caller_allows c RESULTS_READ then status_of answer = 403
     else case sessions_get (en_sessions e) (ac_tenant c) (SessionId path) of
        None \<Rightarrow> status_of answer = 404
      | Some s \<Rightarrow>
          if as_state s \<noteq> COMPLETED then status_of answer = 409
          else case load_document (en_evidence e) (ac_tenant c) (SessionId path) of
                 None \<Rightarrow> status_of answer = 409
               | Some d \<Rightarrow> \<exists>payload. render_document (version_str schema) d = Inr payload \<and> answer = Answer 200 payload)"
proof -
  have path: "Identifier SessionId path = Inr (SessionId path)"
    using assms(1) by (auto simp: Identifier_def)
  have total: "\<exists>payload. render_document (version_str schema) d = Inr payload"
    if "load_document (en_evidence e) (ac_tenant c) (SessionId path) = Some d" for d
    using assms(2) that finalized_frontier_eq [of "ed_transcript d"]
    by (auto simp: render_document_def render_transcript_def)
  show ?thesis
    unfolding serve_run read_result_route_def
    using total
    by (auto simp: bindA_run liftA_def path read_result_def application_statuses schema_version_of_def
        read_capabilities_def split: option.splits sum.splits)
qed

text \<open>A completed session with its document, in the engine of a fresh process.\<close>

definition sample_completed :: analysis_session where
  "sample_completed = sample_session\<lparr>as_id := SessionId ''s1'', as_state := COMPLETED\<rparr>"

definition sample_results :: engine where
  "sample_results = (new_engine (snapshot_at 700) [] 60)
     \<lparr>en_sessions := sessions_save empty_sessions sample_completed,
      en_evidence := store_document empty_evidence (sample_document, TenantId ''t'')\<rparr>"

theorem read_result_answers_witness:
  "\<exists>payload. serve ''1.0.0'' None
      (Inr \<lparr>ac_application = ApplicationId ''a'', ac_tenant = TenantId ''t'', ac_key_id = ApiKeyId ''k'',
         ac_scopes = [RESULTS_READ], ac_trace_id = ''tr''\<rparr>)
      (\<lambda>c. read_result_route (MkVersion 1 0 0) c ''s1'') sample_results = (sample_results, Answer 200 payload)"
proof -
  let ?c = "\<lparr>ac_application = ApplicationId ''a'', ac_tenant = TenantId ''t'', ac_key_id = ApiKeyId ''k'',
     ac_scopes = [RESULTS_READ], ac_trace_id = ''tr''\<rparr>"
  have path: "py_strip ''s1'' \<noteq> []" by (simp add: py_strip_Nil_iff py_isspace_def)
  have d: "load_document (en_evidence sample_results) (ac_tenant ?c) (SessionId ''s1'') = Some sample_document"
    by (simp add: sample_results_def load_document_def store_document_def empty_evidence_def sample_document_def)
  have s: "sessions_get (en_sessions sample_results) (ac_tenant ?c) (SessionId ''s1'') = Some sample_completed"
    by (simp add: sample_results_def sessions_get_def sessions_save_def empty_sessions_def sample_completed_def
        session_key_def sample_session_def AnalysisSession_def)
  have wf: "wf_transcript (ed_transcript sample_document)"
    by (simp add: sample_document_def wf_transcript_def wf_token_def wf_interval_def)
  have "caller_allows ?c RESULTS_READ" by (simp add: caller_allows_def)
  moreover have "as_state sample_completed = COMPLETED" by (simp add: sample_completed_def)
  ultimately show ?thesis
    using read_result_answers [where path = "''s1''" and e = sample_results and c = ?c and version = "''1.0.0''"
        and trace = None and schema = "MkVersion 1 0 0"] path d s wf
    by (auto split: prod.splits)
qed

text \<open>A blank identifier in the path is answered as a fault of the engine.\<close>

lemma blank_path_is_internal_fault:
  "snd (serve version trace (Inr c) (\<lambda>c. read_session_route schema w c '' '') e) =
     Refused (handle_error version trace (DomainError InvalidIdentifier)) \<and>
   resolve_error (DomainError InvalidIdentifier) = (500, ''domain_invariant_violated'')"
  by (simp add: serve_run read_session_route_def bindA_run liftA_def Identifier_def py_strip_Nil_iff
      py_isspace_def resolve_error_def MAPPING_def)

section \<open>Callers\<close>

lemma last_match_in: "last_match d c m = Some r \<Longrightarrow> m = Some r \<or> (c, r) \<in> set d"
proof (induction d arbitrary: m)
  case (Cons p d)
  obtain h r' where p: "p = (h, r')" by (cases p)
  from Cons.IH [of "if h = c then Some r' else m"] Cons.prems p show ?case by (auto split: if_splits)
qed simp

definition presented :: "string option \<Rightarrow> string" where
  "presented authorization = py_strip (drop 7 (case authorization of None \<Rightarrow> [] | Some a \<Rightarrow> a))"

lemma get_caller_key:
  assumes "get_caller now d trace authorization = Inr c"
  shows "\<exists>r. (hash_secret (presented authorization) (kd_pepper d), r) \<in> set (kd_by_hash d) \<and> is_usable r now \<and>
    ac_tenant c = ak_tenant r \<and> ac_application c = ak_application r \<and> ac_scopes c = ak_scopes r"
proof -
  have "authenticate now d (presented authorization) trace = Some c"
    using assms by (auto simp: get_caller_def presented_def Let_def eval_nat_numeral split: if_splits option.splits)
  then obtain r where r: "last_match (kd_by_hash d) (hash_secret (presented authorization) (kd_pepper d)) None = Some r"
      "is_usable r now" "ac_tenant c = ak_tenant r \<and> ac_application c = ak_application r \<and> ac_scopes c = ak_scopes r"
    by (auto simp: authenticate_def split: option.splits if_splits)
  from last_match_in [OF r(1)] r(2,3) show ?thesis by auto
qed

text \<open>
  C22: Nothing moves without a live key. Whatever route is asked for and whatever the header says, the
  engine is what it was unless the secret in the header hashes to a registered key that is neither
  revoked nor expired, and then the route runs for that key's application, tenant and scopes.
\<close>

theorem no_change_without_live_key:
  "if fst (serve version trace_header (get_caller now d trace authorization) route e) = e then True
   else \<exists>c r. get_caller now d trace authorization = Inr c \<and>
     (hash_secret (presented authorization) (kd_pepper d), r) \<in> set (kd_by_hash d) \<and> is_usable r now \<and> ac_tenant c = ak_tenant r \<and> ac_application c = ak_application r \<and>
     ac_scopes c = ak_scopes r \<and>
     fst (serve version trace_header (get_caller now d trace authorization) route e) = fst (route c e)"
proof (cases "get_caller now d trace authorization")
  case (Inl x)
  then show ?thesis by (simp add: serve_def)
next
  case (Inr c)
  with get_caller_key [OF Inr] show ?thesis by (auto simp: serve_run)
qed

section \<open>Readiness\<close>

lemma ready_iff_models:
  assumes "take (length ''unavailable'') backend \<noteq> ''unavailable''" and "take (length ''unavailable'') runtime_mode \<noteq> ''unavailable''"
  shows "fst (ready r backend runtime_mode) = 200 \<longleftrightarrow>
    (\<exists>v. active_for r AUDIO = Inr v) \<and> (\<exists>v. active_for r VIDEO = Inr v)"
proof -
  have "take (length ''unavailable'') (model_check r m) = ''unavailable'' \<longleftrightarrow> \<not> (\<exists>v. active_for r m = Inr v)" for m
    by (cases "active_for r m") (simp_all add: model_check_def)
  then show ?thesis using assms by (simp add: ready_def Let_def)
qed

end
