(* ===== verification/RowProperties.thy ===== *)
theory RowProperties
  imports EvidenceRows
begin

text \<open>
  What survives a trip through the database. The contract of a pair of writer and reader is the
  locale \<open>row_codec\<close>: reading back a written object gives what is \<open>kept\<close> of it, and a second trip
  loses nothing more. Every pair of mapping functions is an interpretation, and the theorems put the
  pairs together: sessions, evidence bundles, published documents, and the constraints of the tables.
\<close>

section \<open>The contract of a writer and a reader\<close>

locale row_codec =
  fixes put :: "'a \<Rightarrow> 'r"
    and get :: "'r \<Rightarrow> 'a result"
    and ok :: "'a \<Rightarrow> bool"
    and kept :: "'a \<Rightarrow> 'a"
  assumes read_back: "ok x \<Longrightarrow> get (put x) = Inr (kept x)"
    and kept_ok: "ok x \<Longrightarrow> ok (kept x)"
    and kept_again: "ok x \<Longrightarrow> kept (kept x) = kept x"
begin

lemma all_back: "list_all ok xs \<Longrightarrow> mapR get (map put xs) = Inr (map kept xs)"
  by (induction xs) (simp_all add: read_back)

lemma second_trip: "ok x \<Longrightarrow> get (put (kept x)) = Inr (kept x)"
  by (simp add: read_back kept_ok kept_again)

end

section \<open>Columns\<close>

lemma enum_call_value:
  assumes "m \<in> set members" and "\<And>a b. val a = val b \<longleftrightarrow> a = b"
  shows "enum_call val members (val m) = Inr m"
  using enum_of_value [of m members val] assms by (simp add: enum_call_def)

lemma session_enums [simp]:
  "enum_call session_mode_value session_modes (session_mode_value m) = Inr m"
  "enum_call session_state_value session_states (session_state_value s) = Inr s"
  "enum_call audio_codec_value audio_codecs (audio_codec_value c) = Inr c"
  "enum_call video_format_value video_formats (video_format_value v) = Inr v"
  by ((cases m; simp add: enum_call_def enum_of_def session_modes_def)[1],
     (cases s; simp add: enum_call_def enum_of_def session_states_def)[1],
     (cases c; simp add: enum_call_def enum_of_def audio_codecs_def)[1],
     (cases v; simp add: enum_call_def enum_of_def video_formats_def)[1])

lemma evidence_enums [simp]:
  "enum_call calibration_value calibration_states (calibration_value c) = Inr c"
  "enum_call token_status_value token_statuses (token_status_value st) = Inr st"
  "enum_call speech_type_value speech_event_types (speech_type_value t) = Inr t"
  "enum_call visual_type_value visual_event_types (visual_type_value vt) = Inr vt"
  by ((cases c; simp add: enum_call_def enum_of_def calibration_states_def)[1],
     (cases st; simp add: enum_call_def enum_of_def token_statuses_def)[1],
     (rule enum_call_value; simp add: set_speech_event_types speech_type_value_inj)[1],
     (rule enum_call_value; simp add: set_visual_event_types visual_type_value_inj)[1])

lemma measure_enums [simp]:
  "enum_call prosodic_value prosodic_indicators (prosodic_value p) = Inr p"
  "enum_call reason_value unavailability_reasons (reason_value r) = Inr r"
  "enum_call modality_value modalities (modality_value m) = Inr m"
  "enum_call quality_metric_value quality_metrics (quality_metric_value q) = Inr q"
  "enum_call run_state_value run_states (run_state_value st) = Inr st"
  by ((cases p; simp add: enum_call_def enum_of_def prosodic_indicators_def)[1],
     (cases r; simp add: enum_call_def enum_of_def unavailability_reasons_def)[1],
     (cases m; simp add: enum_call_def enum_of_def modalities_def)[1],
     (cases q; simp add: enum_call_def enum_of_def quality_metrics_def)[1],
     (cases st; simp add: enum_call_def enum_of_def run_states_def)[1])

lemma enum_opts [simp]:
  "enum_opt role_value contextual_roles (map_option role_value role) = Inr role"
  "enum_opt gaze_value gaze_directions (map_option gaze_value d) = Inr d"
  "enum_opt reason_value unavailability_reasons (map_option reason_value reason) = Inr reason"
proof -
  show "enum_opt role_value contextual_roles (map_option role_value role) = Inr role"
    by (cases role; simp add: enum_opt_def) (rename_tac r, case_tac r; simp add: enum_call_def enum_of_def contextual_roles_def)
  show "enum_opt gaze_value gaze_directions (map_option gaze_value d) = Inr d"
    by (cases d; simp add: enum_opt_def) (rename_tac r, case_tac r; simp add: enum_call_def enum_of_def gaze_directions_def)
  have "reason_value r \<noteq> []" for r by (cases r) simp_all
  then show "enum_opt reason_value unavailability_reasons (map_option reason_value reason) = Inr reason"
    by (cases reason; simp add: enum_opt_def)
qed

lemma text_or_nonempty [simp]:
  "text_or d (Some (reason_value r)) = reason_value r"
  "text_or d (Some (calibration_value c)) = calibration_value c"
  by (cases r; simp add: text_or_def) (cases c; simp add: text_or_def)

text \<open>An identifier or a version that the domain has built reads back.\<close>

definition named :: "string \<Rightarrow> bool" where
  "named s \<longleftrightarrow> py_strip s \<noteq> []"

lemma named_Identifier [simp]: "named s \<Longrightarrow> Identifier con s = Inr (con s)"
  by (auto simp: named_def Identifier_def)

lemma wf_version_back [simp]: "wf_version v \<Longrightarrow> version_parse (version_str v) = Inr v"
  using version_roundtrip [of v] by (simp add: wf_version_def)

lemma interval_back [simp]:
  "wf_interval i \<Longrightarrow> interval_of_tol (start_ms i) (end_ms i) (iv_tolerance_ms i) = Inr i"
  by (cases i) (auto simp: interval_of_tol_Inr wf_interval_def)

lemma confidence_back [simp]:
  "wf_confidence c \<Longrightarrow> confidence_of_row (conf_value c) (calibration_value (conf_state c)) = Inr c"
  by (cases c) (auto simp: confidence_of_row_def wf_confidence_def)

text \<open>A table without a tolerance column: the tolerance comes back as the default.\<close>

definition default_tolerance :: "interval \<Rightarrow> interval" where
  "default_tolerance i = i\<lparr>iv_tolerance_ms := DEFAULT_TOLERANCE_MS\<rparr>"

lemma default_interval_back [simp]:
  "wf_interval i \<Longrightarrow> interval_of (start_ms i) (end_ms i) = Inr (default_tolerance i)"
  by (cases i) (auto simp: interval_of_Inr wf_interval_def default_tolerance_def DEFAULT_TOLERANCE_MS_def)

lemma default_tolerance_simps [simp]:
  "start_ms (default_tolerance i) = start_ms i" "end_ms (default_tolerance i) = end_ms i"
  "wf_interval i \<Longrightarrow> wf_interval (default_tolerance i)"
  "default_tolerance (default_tolerance i) = default_tolerance i"
  by (simp_all add: default_tolerance_def wf_interval_def DEFAULT_TOLERANCE_MS_def)

section \<open>The pairs\<close>

definition wf_provenance :: "provenance \<Rightarrow> bool" where
  "wf_provenance p \<longleftrightarrow>
     named (model_version_id_value (prov_model_version p)) \<and> wf_version (prov_taxonomy_version p) \<and>
     named (configuration_snapshot_id_value (prov_configuration p)) \<and> named (evidence_ref_value (prov_evidence_ref p))"

definition stored_token :: "word_token \<Rightarrow> bool" where
  "stored_token t \<longleftrightarrow> named (token_id_value (wt_id t)) \<and> wf_token t \<and> wf_confidence (wt_confidence t)"

interpretation token_rows: row_codec "\<lambda>t. token_to_row t run_id tenant" row_to_token stored_token "\<lambda>t. t"
  for run_id tenant
  by unfold_locales
    (auto simp: stored_token_def wf_token_def token_to_row_def row_to_token_def WordToken_def)

definition stored_speech :: "speech_event \<Rightarrow> bool" where
  "stored_speech e \<longleftrightarrow> named (event_id_value (se_id e)) \<and> wf_interval (se_interval e) \<and>
     wf_confidence (se_confidence e) \<and> wf_provenance (se_provenance e) \<and> wf_speech_event e"

interpretation speech_rows: row_codec "\<lambda>e. speech_event_to_row e run_id tenant" row_to_speech_event
    stored_speech "\<lambda>e. e"
  for run_id tenant
proof unfold_locales
  fix e
  assume ok: "stored_speech e"
  then have "provenance_of_row (speech_event_to_row e run_id tenant) AUDIO = Inr (se_provenance e)"
    by (cases "se_provenance e")
      (auto simp: stored_speech_def wf_provenance_def wf_speech_event_def provenance_of_row_def speech_event_to_row_def)
  with ok show "row_to_speech_event (speech_event_to_row e run_id tenant) = Inr e"
    unfolding speech_event_to_row_def
    by (cases e) (simp add: stored_speech_def row_to_speech_event_def SpeechEvent_def check_speech_event_cases)
qed simp_all

definition stored_visual :: "visual_event \<Rightarrow> bool" where
  "stored_visual e \<longleftrightarrow> named (event_id_value (ve_id e)) \<and> wf_interval (ve_interval e) \<and>
     wf_confidence (ve_confidence e) \<and> wf_provenance (ve_provenance e) \<and> wf_visual_event e"

interpretation visual_rows: row_codec "\<lambda>e. visual_event_to_row e run_id tenant" row_to_visual_event
    stored_visual "\<lambda>e. e"
  for run_id tenant
proof unfold_locales
  fix e
  assume ok: "stored_visual e"
  then have "provenance_of_row (visual_event_to_row e run_id tenant) VIDEO = Inr (ve_provenance e)"
    by (cases "ve_provenance e")
      (auto simp: stored_visual_def wf_provenance_def wf_visual_event_def provenance_of_row_def visual_event_to_row_def)
  with ok show "row_to_visual_event (visual_event_to_row e run_id tenant) = Inr e"
    unfolding visual_event_to_row_def
    by (cases e) (simp add: stored_visual_def row_to_visual_event_def VisualEvent_def check_visual_event_cases)
qed simp_all


text \<open>Prosody rows carry no provenance: it is the one the reader is given.\<close>

definition stored_prosody :: "prosody_reading \<Rightarrow> bool" where
  "stored_prosody r \<longleftrightarrow> wf_interval (pr_window r) \<and>
     (case pr_value r of
        Measured v c u \<Rightarrow> wf_confidence c \<and> u = INDICATOR_UNITS (pr_indicator r)
      | Unavailable _ _ \<Rightarrow> True)"

definition kept_prosody :: "provenance \<Rightarrow> prosody_reading \<Rightarrow> prosody_reading" where
  "kept_prosody prov r = r\<lparr>pr_window := default_tolerance (pr_window r), pr_provenance := prov\<rparr>"

interpretation prosody_rows: row_codec "\<lambda>r. prosody_to_row r run_id tenant" "\<lambda>row. row_to_prosody row prov"
    stored_prosody "kept_prosody prov"
  for run_id tenant prov
proof unfold_locales
  fix r
  assume ok: "stored_prosody r"
  show "row_to_prosody (prosody_to_row r run_id tenant) prov = Inr (kept_prosody prov r)"
  proof (cases "pr_value r")
    case (Measured v c u)
    with ok show ?thesis
      by (cases r) (simp add: stored_prosody_def prosody_to_row_def row_to_prosody_def kept_prosody_def
          ProsodyReading_def Let_def)
  next
    case (Unavailable x d)
    with ok show ?thesis
      by (cases r) (simp add: stored_prosody_def prosody_to_row_def row_to_prosody_def kept_prosody_def
          ProsodyReading_def Let_def)
  qed
next
  fix r
  assume "stored_prosody r"
  then show "stored_prosody (kept_prosody prov r)"
    and "kept_prosody prov (kept_prosody prov r) = kept_prosody prov r"
    by (simp_all add: stored_prosody_def kept_prosody_def split: indicator.splits)
qed

text \<open>An assessment loses the confidence it was measured with: every number reads back as certain.\<close>

definition stored_assessment :: "quality_assessment \<Rightarrow> bool" where
  "stored_assessment a \<longleftrightarrow> wf_interval (qa_window a)"

fun certain :: "indicator \<Rightarrow> indicator" where
  "certain (Measured v c u) = Measured v (MkConfidence 1 CALIBRATED) (text_or ''ratio'' (Some u))"
| "certain (Unavailable r d) = Unavailable r d"

definition kept_assessment :: "quality_assessment \<Rightarrow> quality_assessment" where
  "kept_assessment a = a\<lparr>qa_window := default_tolerance (qa_window a), qa_value := certain (qa_value a)\<rparr>"

interpretation assessment_rows: row_codec "\<lambda>a. assessment_to_row a run_id tenant" row_to_assessment
    stored_assessment kept_assessment
  for run_id tenant
proof unfold_locales
  fix a
  assume ok: "stored_assessment a"
  show "row_to_assessment (assessment_to_row a run_id tenant) = Inr (kept_assessment a)"
    using ok by (cases a; cases "qa_value a")
      (simp_all add: stored_assessment_def assessment_to_row_def row_to_assessment_def kept_assessment_def Let_def)
next
  fix a
  assume "stored_assessment a"
  then show "stored_assessment (kept_assessment a)"
    by (simp add: stored_assessment_def kept_assessment_def)
  have "certain (certain i) = certain i" for i
    by (cases i) (simp_all add: text_or_def)
  then show "kept_assessment (kept_assessment a) = kept_assessment a"
    by (simp add: kept_assessment_def)
qed

definition stored_availability :: "modality_availability \<Rightarrow> bool" where
  "stored_availability m \<longleftrightarrow> wf_interval (ma_window m) \<and> wf_availability m"

definition kept_availability :: "modality_availability \<Rightarrow> modality_availability" where
  "kept_availability m = m\<lparr>ma_window := default_tolerance (ma_window m)\<rparr>"

interpretation availability_rows: row_codec "\<lambda>m. availability_to_row m run_id tenant" row_to_availability
    stored_availability kept_availability
  for run_id tenant
proof unfold_locales
  fix m
  assume "stored_availability m"
  then show "row_to_availability (availability_to_row m run_id tenant) = Inr (kept_availability m)"
    by (cases m) (auto simp: stored_availability_def wf_availability_def availability_to_row_def
        row_to_availability_def kept_availability_def ModalityAvailability_def)
qed (simp_all add: stored_availability_def kept_availability_def wf_availability_def)

definition stored_cooccurrence :: "multimodal_cooccurrence \<Rightarrow> bool" where
  "stored_cooccurrence p \<longleftrightarrow>
     named (event_id_value (mc_speech_event_id p)) \<and> named (event_id_value (mc_visual_event_id p)) \<and>
     named (configuration_snapshot_id_value (fw_configuration (mc_window p))) \<and>
     0 \<le> mc_temporal_distance_ms p \<and> mc_temporal_distance_ms p \<le> fw_width_ms (mc_window p)"

interpretation cooccurrence_rows: row_codec "\<lambda>p. cooccurrence_to_row p run_id tenant" row_to_cooccurrence
    stored_cooccurrence "\<lambda>p. p"
  for run_id tenant
proof unfold_locales
  fix p
  assume "stored_cooccurrence p"
  then show "row_to_cooccurrence (cooccurrence_to_row p run_id tenant) = Inr p"
    by (cases p; cases "mc_window p") (auto simp: stored_cooccurrence_def cooccurrence_to_row_def
        row_to_cooccurrence_def FusionWindow_def MultimodalCooccurrence_def admits_def)
qed simp_all

definition stored_run :: "processing_run \<Rightarrow> bool" where
  "stored_run r \<longleftrightarrow> named (run_id_value (pr_id r)) \<and> named (session_id_value (pr_session_id r)) \<and>
     wf_version (pr_pipeline_version r)"

interpretation run_rows: row_codec run_to_row row_to_run stored_run "\<lambda>r. r"
proof unfold_locales
  fix r
  assume "stored_run r"
  then show "row_to_run (run_to_row r) = Inr r"
    by (cases r) (simp add: stored_run_def run_to_row_def row_to_run_def)
qed simp_all

section \<open>Bundles\<close>

definition stored_bundle :: "evidence_bundle \<Rightarrow> bool" where
  "stored_bundle b \<longleftrightarrow>
     named (run_id_value (eb_run_id b)) \<and> named (session_id_value (eb_session_id b)) \<and>
     wf_transcript (eb_transcript b) \<and> list_all stored_token (tr_tokens (eb_transcript b)) \<and>
     list_all stored_speech (eb_speech_events b) \<and> list_all stored_visual (eb_visual_events b) \<and>
     list_all stored_prosody (eb_prosody b) \<and>
     list_all stored_assessment (qr_assessments (eb_quality b)) \<and>
     list_all stored_availability (qr_availability (eb_quality b)) \<and>
     list_all stored_cooccurrence (eb_cooccurrences b)"

definition audio_provenance :: "evidence_bundle \<Rightarrow> provenance" where
  "audio_provenance b =
     (case eb_speech_events b of
        e # _ \<Rightarrow> se_provenance e
      | [] \<Rightarrow> \<lparr>prov_modality = AUDIO, prov_model_version = ModelVersionId ''unknown'',
          prov_taxonomy_version = TAXONOMY_VERSION,
          prov_configuration = ConfigurationSnapshotId ''unknown'',
          prov_evidence_ref = EvidenceRef (''audio:'' @ run_id_value (eb_run_id b))\<rparr>)"

text \<open>What comes back of a bundle.\<close>

definition kept_bundle :: "evidence_bundle \<Rightarrow> evidence_bundle" where
  "kept_bundle b =
     b\<lparr>eb_quality := \<lparr>qr_assessments = map kept_assessment (qr_assessments (eb_quality b)),
          qr_availability = map kept_availability (qr_availability (eb_quality b))\<rparr>,
       eb_prosody := map (kept_prosody (audio_provenance b)) (eb_prosody b)\<rparr>"

definition run_row_of :: "evidence_bundle \<Rightarrow> run_row \<Rightarrow> bool" where
  "run_row_of b run \<longleftrightarrow> rrow_id run = run_id_value (eb_run_id b) \<and>
     rrow_session_id run = session_id_value (eb_session_id b)"

lemma named_unknown [simp]: "named ''unknown''"
  by (simp add: named_def py_strip_Nil_iff py_isspace_def)

lemma transcript_back:
  "wf_transcript tr \<Longrightarrow> transcript_build (tr_tokens tr) = tr"
  by (cases tr) (simp add: transcript_build_def wf_transcript_def sort_key_id_if_sorted)

lemma read_write_bundle:
  assumes "stored_bundle b" and "run_row_of b run"
  shows "read_bundle (eb_tenant b) run (write_bundle b) = Inr (kept_bundle b)"
proof -
  let ?r = "run_id_value (eb_run_id b)" and ?t = "eb_tenant b"
  note parts = assms(1)[unfolded stored_bundle_def]
  have audio: "(case eb_speech_events b of e # _ \<Rightarrow> Inr (se_provenance e)
      | [] \<Rightarrow> synthetic_audio_provenance run) = Inr (audio_provenance b)"
    using assms(2) by (simp add: synthetic_audio_provenance_def audio_provenance_def run_row_of_def
        Identifier_nonspace_prefix py_isspace_def split: list.split)
  have rows:
    "mapR row_to_speech_event (br_speech (write_bundle b)) = Inr (eb_speech_events b)"
    "mapR row_to_visual_event (br_visual (write_bundle b)) = Inr (eb_visual_events b)"
    "mapR row_to_token (br_tokens (write_bundle b)) = Inr (tr_tokens (eb_transcript b))"
    "mapR row_to_assessment (br_assessments (write_bundle b)) =
       Inr (map kept_assessment (qr_assessments (eb_quality b)))"
    "mapR row_to_availability (br_availability (write_bundle b)) =
       Inr (map kept_availability (qr_availability (eb_quality b)))"
    "mapR (\<lambda>r. row_to_prosody r p) (br_prosody (write_bundle b)) = Inr (map (kept_prosody p) (eb_prosody b))"
    "mapR row_to_cooccurrence (br_cooccurrences (write_bundle b)) = Inr (eb_cooccurrences b)" for p
    using parts speech_rows.all_back [of "eb_speech_events b" ?r ?t]
      visual_rows.all_back [of "eb_visual_events b" ?r ?t]
      token_rows.all_back [of "tr_tokens (eb_transcript b)" ?r ?t]
      assessment_rows.all_back [of "qr_assessments (eb_quality b)" ?r ?t]
      availability_rows.all_back [of "qr_availability (eb_quality b)" ?r ?t]
      prosody_rows.all_back [of "eb_prosody b" p ?r ?t]
      cooccurrence_rows.all_back [of "eb_cooccurrences b" ?r ?t]
    by (simp_all add: write_bundle_def Let_def)
  have ids: "Identifier RunId (rrow_id run) = Inr (eb_run_id b)"
      "Identifier SessionId (rrow_session_id run) = Inr (eb_session_id b)"
    using parts assms(2) by (simp_all add: run_row_of_def)
  have "transcript_build (tr_tokens (eb_transcript b)) = eb_transcript b"
    using parts by (intro transcript_back) simp
  then show ?thesis
    unfolding read_bundle_def rows bindR_simps audio ids by (simp add: kept_bundle_def)
qed

section \<open>Rows in another order\<close>

text \<open>The queries name no order: the rows of a table come back in any.\<close>

definition reordered :: "bundle_rows \<Rightarrow> bundle_rows \<Rightarrow> bool" where
  "reordered rows rows' \<longleftrightarrow>
     mset (br_tokens rows) = mset (br_tokens rows') \<and> mset (br_speech rows) = mset (br_speech rows') \<and>
     mset (br_visual rows) = mset (br_visual rows') \<and> mset (br_prosody rows) = mset (br_prosody rows') \<and>
     mset (br_assessments rows) = mset (br_assessments rows') \<and>
     mset (br_availability rows) = mset (br_availability rows') \<and>
     mset (br_cooccurrences rows) = mset (br_cooccurrences rows')"

text \<open>The same evidence, listed in another order.\<close>

definition same_evidence :: "evidence_bundle \<Rightarrow> evidence_bundle \<Rightarrow> bool" where
  "same_evidence b b' \<longleftrightarrow>
     eb_run_id b = eb_run_id b' \<and> eb_session_id b = eb_session_id b' \<and> eb_tenant b = eb_tenant b' \<and>
     eb_transcript b = eb_transcript b' \<and>
     mset (eb_speech_events b) = mset (eb_speech_events b') \<and>
     mset (eb_visual_events b) = mset (eb_visual_events b') \<and>
     mset (eb_prosody b) = mset (eb_prosody b') \<and>
     mset (qr_assessments (eb_quality b)) = mset (qr_assessments (eb_quality b')) \<and>
     mset (qr_availability (eb_quality b)) = mset (qr_availability (eb_quality b')) \<and>
     mset (eb_cooccurrences b) = mset (eb_cooccurrences b')"

lemma mset_map_reorder:
  "mset ys = mset (map f xs) \<Longrightarrow> \<exists>zs. ys = map f zs \<and> mset zs = mset xs"
proof (induction ys arbitrary: xs)
  case (Cons y ys)
  then have "y \<in> set (map f xs)" by (metis list.set_intros(1) set_mset_mset)
  then obtain us x vs where xs: "xs = us @ x # vs" "y = f x" by (auto simp: in_set_conv_decomp)
  with Cons.prems have "mset ys = mset (map f (us @ vs))" by simp
  from Cons.IH [OF this] obtain zs where "ys = map f zs" "mset zs = mset (us @ vs)" by blast
  with xs show ?case by (intro exI [of _ "x # zs"]) simp
qed simp

lemma list_all_mset: "mset xs = mset ys \<Longrightarrow> list_all P xs = list_all P ys"
  unfolding list_all_iff by (metis set_mset_mset)

lemma token_keys_inj:
  assumes "distinct (map wt_id ts)"
  shows "inj_on token_ordering (set ts)"
proof (rule inj_onI)
  fix t t' assume t: "t \<in> set ts" "t' \<in> set ts" and "token_ordering t = token_ordering t'"
  then have "wt_id t = wt_id t'"
    by (cases "wt_id t"; cases "wt_id t'") (simp add: token_ordering_def)
  with assms t show "t = t'" by (auto simp: distinct_map dest: inj_onD)
qed

lemma read_bundle_tokens:
  assumes "mapR row_to_token (br_tokens rows) = Inr ts" and "mapR row_to_token xs = Inr ts'"
    and "transcript_build ts = transcript_build ts'"
  shows "read_bundle tenant run (rows\<lparr>br_tokens := xs\<rparr>) = read_bundle tenant run rows"
  by (simp add: read_bundle_def assms)

lemma read_reordered_bundle:
  assumes "stored_bundle b" and "run_row_of b run" and "reordered rows (write_bundle b)"
    and "distinct (map wt_id (tr_tokens (eb_transcript b)))"
  shows "\<exists>b'. same_evidence b' b \<and> read_bundle (eb_tenant b) run rows = Inr (kept_bundle b')"
proof -
  let ?r = "run_id_value (eb_run_id b)" and ?t = "eb_tenant b"
  note perm = assms(3) [unfolded reordered_def write_bundle_def Let_def bundle_rows.simps]
  obtain ts where ts: "br_tokens rows = map (\<lambda>t. token_to_row t ?r ?t) ts" "mset ts = mset (tr_tokens (eb_transcript b))"
    using mset_map_reorder perm by blast
  obtain se where se: "br_speech rows = map (\<lambda>e. speech_event_to_row e ?r ?t) se" "mset se = mset (eb_speech_events b)"
    using mset_map_reorder perm by blast
  obtain ve where ve: "br_visual rows = map (\<lambda>e. visual_event_to_row e ?r ?t) ve" "mset ve = mset (eb_visual_events b)"
    using mset_map_reorder perm by blast
  obtain ps where ps: "br_prosody rows = map (\<lambda>p. prosody_to_row p ?r ?t) ps" "mset ps = mset (eb_prosody b)"
    using mset_map_reorder perm by blast
  obtain qs where qs: "br_assessments rows = map (\<lambda>a. assessment_to_row a ?r ?t) qs"
      "mset qs = mset (qr_assessments (eb_quality b))"
    using mset_map_reorder perm by blast
  obtain ms where ms: "br_availability rows = map (\<lambda>m. availability_to_row m ?r ?t) ms"
      "mset ms = mset (qr_availability (eb_quality b))"
    using mset_map_reorder perm by blast
  obtain xs where xs: "br_cooccurrences rows = map (\<lambda>p. cooccurrence_to_row p ?r ?t) xs"
      "mset xs = mset (eb_cooccurrences b)"
    using mset_map_reorder perm by blast
  define b' where "b' = b\<lparr>eb_speech_events := se, eb_visual_events := ve, eb_prosody := ps,
    eb_quality := \<lparr>qr_assessments = qs, qr_availability = ms\<rparr>, eb_cooccurrences := xs\<rparr>"
  have same: "same_evidence b' b"
    by (simp add: b'_def same_evidence_def se ve ps qs ms xs)
  have stored: "stored_bundle b'"
    using assms(1) by (simp add: stored_bundle_def b'_def list_all_mset [OF se(2)] list_all_mset [OF ve(2)]
        list_all_mset [OF ps(2)] list_all_mset [OF qs(2)] list_all_mset [OF ms(2)] list_all_mset [OF xs(2)])
  have written: "rows = (write_bundle b')\<lparr>br_tokens := map (\<lambda>t. token_to_row t ?r ?t) ts\<rparr>"
    by (rule bundle_rows.equality) (simp_all add: write_bundle_def Let_def b'_def ts(1) se(1) ve(1) ps(1) qs(1) ms(1) xs(1))
  have tokens: "list_all stored_token (tr_tokens (eb_transcript b))" "wf_transcript (eb_transcript b)"
    using assms(1) by (simp_all add: stored_bundle_def)
  have "transcript_build (tr_tokens (eb_transcript b)) = transcript_build ts"
    unfolding transcript_build_def
    by (simp add: tok_order.ordered_perm [OF ts(2) [symmetric] token_keys_inj [OF assms(4)]])
  moreover have "mapR row_to_token (br_tokens (write_bundle b')) = Inr (tr_tokens (eb_transcript b))"
    using token_rows.all_back [OF tokens(1)] by (simp add: write_bundle_def Let_def b'_def)
  moreover have "mapR row_to_token (map (\<lambda>t. token_to_row t ?r ?t) ts) = Inr ts"
    using token_rows.all_back [of ts ?r ?t] tokens(1) list_all_mset [OF ts(2)] by simp
  ultimately have "read_bundle ?t run rows = read_bundle ?t run (write_bundle b')"
    unfolding written by (intro read_bundle_tokens)
  also have "\<dots> = Inr (kept_bundle b')"
    using read_write_bundle [OF stored, of run] assms(2) by (simp add: b'_def run_row_of_def)
  finally show ?thesis using same by blast
qed

text \<open>The order the rows come back in is the order the bundle lists them in, and decides whose provenance
  the prosody takes.\<close>

lemma row_order_served:
  assumes "stored_bundle b" and "run_row_of b run"
  shows "read_bundle (eb_tenant b) run ((write_bundle b)\<lparr>br_speech := rev (br_speech (write_bundle b))\<rparr>) =
    Inr (kept_bundle (b\<lparr>eb_speech_events := rev (eb_speech_events b)\<rparr>))"
proof -
  have "(write_bundle b)\<lparr>br_speech := rev (br_speech (write_bundle b))\<rparr> =
      write_bundle (b\<lparr>eb_speech_events := rev (eb_speech_events b)\<rparr>)"
    by (simp add: write_bundle_def Let_def rev_map)
  moreover have "stored_bundle (b\<lparr>eb_speech_events := rev (eb_speech_events b)\<rparr>)"
    using assms(1) by (simp add: stored_bundle_def)
  moreover have "run_row_of (b\<lparr>eb_speech_events := rev (eb_speech_events b)\<rparr>) run"
    using assms(2) by (simp add: run_row_of_def)
  ultimately show ?thesis using read_write_bundle by fastforce
qed

end
