(* ===== verification/StorageProperties.thy ===== *)
theory StorageProperties
  imports RowProperties Completion
begin

text \<open>
  What storage in PostgreSQL preserves: a session with its clock and its receipt, after whatever
  history; a published document with its bundle, in whatever order its rows come back; and that the rows
  the engine writes keep the check constraints of their tables. Then what is lost or cannot be read.
\<close>

section \<open>Sessions\<close>

definition valid_receipt :: "consent_receipt \<Rightarrow> bool" where
  "valid_receipt r \<longleftrightarrow> wf_receipt r \<and> wf_version (cr_policy_version r) \<and>
     named (session_id_value (cr_session_id r)) \<and> 0 \<le> rp_raw_media_ttl_seconds (cr_retention r) \<and>
     (rp_retain_raw_media (cr_retention r) \<longleftrightarrow> 0 < rp_raw_media_ttl_seconds (cr_retention r))"

lemma consent_back:
  assumes "valid_receipt r" and "cr_session_id r = i"
  shows "row_to_consent (consent_to_row i r) = Inr r"
  using assms
  by (cases r; cases "cr_retention r")
    (auto simp: valid_receipt_def wf_receipt_def row_to_consent_def consent_to_row_def RetentionPolicy_Inr
      check_receipt_Inr)

lemma capabilities_back: "capabilities_from_json py (capabilities_to_json c) = Inr c"
proof -
  have video: "video_format_value v \<noteq> []" for v by (cases v) simp_all
  show ?thesis
    by (cases c; cases "cap_video_format c"; cases "cap_frame_rate_fps c")
      (simp_all add: capabilities_from_json_def capabilities_to_json_def json_key_def get_or_def json_opt_def
        json_frame_rate_def video)
qed

definition stored_session :: "analysis_session \<Rightarrow> bool" where
  "stored_session s \<longleftrightarrow> wf_clock (as_clock s) \<and>
     list_all named [session_id_value (as_id s), application_id_value (as_application_id s),
       tenant_id_value (as_tenant_id s), configuration_snapshot_id_value (as_configuration s)] \<and>
     (case as_consent s of None \<Rightarrow> True | Some r \<Rightarrow> valid_receipt r \<and> cr_session_id r = as_id s)"

lemma session_back:
  assumes "stored_session s"
  shows "row_to_session py (session_to_row s) (map_option (consent_to_row (as_id s)) (as_consent s)) = Inr s"
proof -
  have "SessionClock (accumulated_ms (as_clock s)) (segment_started_at (as_clock s)) = Inr (as_clock s)"
    using assms by (cases "as_clock s") (simp add: stored_session_def wf_clock_def SessionClock_def)
  moreover have "(case map_option (consent_to_row (as_id s)) (as_consent s) of None \<Rightarrow> Inr None
      | Some c \<Rightarrow> bindR (row_to_consent c) (\<lambda>r. Inr (Some r))) = Inr (as_consent s)"
    using assms by (auto simp: stored_session_def consent_back split: option.split)
  ultimately show ?thesis
    using assms unfolding row_to_session_def
    by (simp add: stored_session_def session_to_row_def capabilities_back)
qed

definition gives_valid :: "int \<times> session_op \<Rightarrow> bool" where
  "gives_valid p \<longleftrightarrow> (case snd p of GiveConsent r \<Rightarrow> valid_receipt r | _ \<Rightarrow> True)"

lemma withdraw_valid: "valid_receipt r \<Longrightarrow> withdraw r w = Inr r' \<Longrightarrow> valid_receipt r'"
  by (auto simp: withdraw_def valid_receipt_def check_receipt_Inr split: if_splits)

lemma apply_op_valid:
  assumes "gives_valid p" and "pred_option valid_receipt (as_consent s)"
  shows "pred_option valid_receipt (as_consent (apply_op s p))"
proof (cases "do_op (snd p) s (fst p)")
  case (Inr s')
  then have "pred_option valid_receipt (as_consent s')"
    using assms by (cases "snd p")
      (auto simp: gives_valid_def session_op_defs withdraw_valid split: if_splits option.splits)
  with Inr show ?thesis by (simp add: apply_op_def)
qed (simp add: apply_op_def assms)

lemma run_ops_valid:
  assumes "list_all gives_valid ops" and "pred_option valid_receipt (as_consent s)"
  shows "pred_option valid_receipt (as_consent (run_ops s ops))"
  using assms
proof (induction ops rule: rev_induct)
  case (snoc p ops)
  then show ?case using apply_op_valid [of p "run_ops s ops"] by (simp add: run_ops_def)
qed (simp add: run_ops_def)

text \<open>
  C11: A session survives storage at any point of its life. Whatever operations a new session has been
  through, refused ones included, the row and the receipt row it is saved as rebuild exactly that
  session: lifecycle state, running or suspended clock, capabilities, consent and withdrawal.
\<close>

theorem session_survives_storage:
  assumes "list_all named [session_id_value i, application_id_value app, tenant_id_value tenant,
      configuration_snapshot_id_value conf]"
    and "list_all gives_valid ops"
  shows "let s = run_ops (AnalysisSession i app tenant mode loc caps conf t0) ops
    in row_to_session py (session_to_row s) (map_option (consent_to_row (as_id s)) (as_consent s)) = Inr s \<and>
       session_row_allowed (session_to_row s)"
proof -
  let ?new = "AnalysisSession i app tenant mode loc caps conf t0"
  let ?s = "run_ops ?new ops"
  have inv: "clock_inv ?s \<and> consent_inv ?s \<and> frozen_fields ?new ?s"
    by (rule reach_invariants [OF run_ops_reach [OF session_reach_refl] AnalysisSession_inv])
  moreover have "pred_option valid_receipt (as_consent ?s)"
    by (rule run_ops_valid [OF assms(2)]) (simp add: AnalysisSession_def)
  ultimately have "stored_session ?s"
    using assms(1) by (auto simp: stored_session_def clock_inv_def consent_inv_def frozen_fields_def
        AnalysisSession_def split: option.split)
  moreover have "session_mode_value m \<in> {''realtime'', ''batch''}" for m by (cases m) simp_all
  then have "session_row_allowed (session_to_row ?s)"
    by (simp add: session_row_allowed_def session_to_row_def)
  ultimately show ?thesis by (simp add: session_back Let_def)
qed

theorem session_survives_storage_witness:
  "let s = run_ops sample_session [(5, GiveConsent sample_receipt), (10, BeginCapture), (40, PauseCapture)]
   in row_to_session sample_python (session_to_row s) (map_option (consent_to_row (as_id s)) (as_consent s)) = Inr s"
proof -
  have "list_all named [''s'', ''a'', ''t'', ''c'']" by code_simp
  moreover have "list_all gives_valid
      [(5, GiveConsent sample_receipt), (10, BeginCapture), (40, PauseCapture)]"
    by (simp add: gives_valid_def valid_receipt_def sample_receipt_def wf_receipt_def wf_version_def named_def
        py_strip_Nil_iff py_isspace_def)
  ultimately show ?thesis
    unfolding sample_session_def Let_def
    by (intro session_survives_storage [unfolded Let_def, THEN conjunct1]) simp_all
qed

section \<open>Documents and their evidence\<close>

definition stored_manifest :: "provenance_manifest \<Rightarrow> bool" where
  "stored_manifest m \<longleftrightarrow> wf_version (pm_pipeline_version m) \<and> wf_version (pm_schema_version m) \<and>
     wf_version (pm_taxonomy_version m) \<and> named (configuration_snapshot_id_value (pm_configuration m)) \<and>
     list_all (\<lambda>(k, v). named (model_version_id_value v)) (pm_models m)"

text \<open>The document that completion publishes over a bundle.\<close>

definition document_of :: "evidence_bundle \<Rightarrow> provenance_manifest \<Rightarrow> evidence_document" where
  "document_of b m =
     \<lparr>ed_session_id = eb_session_id b, ed_run_id = eb_run_id b, ed_manifest = m,
      ed_transcript = eb_transcript b, ed_quality = eb_quality b, ed_speech_events = eb_speech_events b,
      ed_visual_events = eb_visual_events b, ed_prosody = eb_prosody b,
      ed_cooccurrences = eb_cooccurrences b\<rparr>"

lemma assembled_document_of:
  "assemble_document c i cfg q st = Inr (b, d) \<Longrightarrow> d = document_of b (ed_manifest d)"
  by (auto simp: assemble_document_def document_of_def Let_def)

lemma models_back:
  assumes "list_all (\<lambda>(k, v). named (model_version_id_value v)) ms"
  shows "mapR (\<lambda>(k, v). bindR (enum_call modality_value modalities k) (\<lambda>m.
      bindR (json_identifier ModelVersionId v) (\<lambda>model. Inr (m, model))))
    (map (\<lambda>(k, v). (modality_value k, JStr (model_version_id_value v))) ms) = Inr ms"
  using assms by (induction ms) auto

text \<open>Reading a manifest back runs its constructor again, with today's taxonomy.\<close>

lemma manifest_back:
  assumes "stored_manifest m" and "map_of payload ''manifest'' = Some (JMap (render_manifest m))"
  shows "manifest_from payload =
    (if pm_taxonomy_version m = TAXONOMY_VERSION then Inr m else Inl (DomainError ResultViolation))"
  using assms models_back [of "pm_models m"]
  by (cases m)
    (simp add: manifest_from_def json_key_def render_manifest_def stored_manifest_def ProvenanceManifest_def)

lemma document_row_of:
  assumes "stored_bundle b"
  shows "\<exists>row. document_to_row (render_document version) (document_of b m) (eb_tenant b) = Inr row \<and>
    drow_session_id row = session_id_value (eb_session_id b) \<and> drow_run_id row = run_id_value (eb_run_id b) \<and>
    map_of (drow_document row) ''manifest'' = Some (JMap (render_manifest m))"
proof -
  have "wf_transcript (eb_transcript b)" using assms by (simp add: stored_bundle_def)
  from finalized_frontier_eq [OF this] show ?thesis
    by (simp add: document_to_row_def render_document_def render_transcript_def document_of_def)
qed

lemma distinct_map_inj: "inj f \<Longrightarrow> distinct (map (\<lambda>x. f (g x)) xs) = distinct (map g xs)"
  by (auto simp: distinct_map inj_on_def)

lemma keys_of_written:
  "keys_allowed (write_bundle b) \<longleftrightarrow>
     distinct (map wt_id (tr_tokens (eb_transcript b))) \<and> distinct (map se_id (eb_speech_events b)) \<and>
     distinct (map ve_id (eb_visual_events b)) \<and>
     distinct (map (\<lambda>p. (mc_speech_event_id p, mc_visual_event_id p)) (eb_cooccurrences b))"
proof -
  have ids: "inj token_id_value" "inj event_id_value"
    by (rule injI, rename_tac x y, case_tac x, case_tac y, simp)+
  have two: "inj (\<lambda>(x, y). (r, event_id_value x, event_id_value y))" for r :: string
    using ids(2) by (auto simp: inj_on_def)
  show ?thesis
    using distinct_map_inj [OF two, where g = "\<lambda>p :: multimodal_cooccurrence. (mc_speech_event_id p, mc_visual_event_id p)"]
    by (simp add: distinct_map_inj [OF ids(1)] distinct_map_inj [OF ids(2)] keys_allowed_def token_keys_allowed_def speech_keys_allowed_def
        visual_keys_allowed_def pairs_allowed_def write_bundle_def Let_def token_to_row_def speech_event_to_row_def
        visual_event_to_row_def cooccurrence_to_row_def comp_def)
qed

lemma load_written:
  assumes "stored_bundle b" and "keys_allowed (write_bundle b)" and "stored_manifest m"
    and "get_run (run_id_value (eb_run_id b)) = Some run" and "run_row_of b run"
    and "reordered (rows_of (run_id_value (eb_run_id b)) (eb_tenant b)) (write_bundle b)"
  shows "\<exists>row b'. document_to_row (render_document version) (document_of b m) (eb_tenant b) = Inr row \<and>
    same_evidence b' b \<and>
    load_stored_document (\<lambda>_ _. Some row) get_run rows_of (eb_tenant b) (eb_session_id b) =
      (if pm_taxonomy_version m = TAXONOMY_VERSION then Inr (Some (document_of (kept_bundle b') m))
       else Inl (DomainError ResultViolation))"
proof -
  obtain row where row: "document_to_row (render_document version) (document_of b m) (eb_tenant b) = Inr row"
      "drow_session_id row = session_id_value (eb_session_id b)" "drow_run_id row = run_id_value (eb_run_id b)"
      "map_of (drow_document row) ''manifest'' = Some (JMap (render_manifest m))"
    using document_row_of [OF assms(1), of version m] by - (elim exE conjE, rule that, assumption+)
  obtain b' where b': "same_evidence b' b"
      "read_bundle (eb_tenant b) run (rows_of (run_id_value (eb_run_id b)) (eb_tenant b)) = Inr (kept_bundle b')"
    using read_reordered_bundle [OF assms(1,5,6)] assms(2) unfolding keys_of_written by blast
  have ids: "Identifier RunId (drow_run_id row) = Inr (eb_run_id b)"
      "Identifier SessionId (drow_session_id row) = Inr (eb_session_id b)"
    using assms(1) row by (simp_all add: stored_bundle_def)
  have run: "rrow_id run = run_id_value (eb_run_id b)" using assms(5) by (simp add: run_row_of_def)
  have loaded: "load_bundle get_run rows_of (eb_tenant b) (eb_run_id b) = Inr (Some (kept_bundle b'))"
    by (simp add: load_bundle_def assms(4) run b'(2))
  have doc: "document_from row (kept_bundle b') = (if pm_taxonomy_version m = TAXONOMY_VERSION
      then Inr (document_of (kept_bundle b') m) else Inl (DomainError ResultViolation))"
    using b'(1) unfolding document_from_def ids bindR_simps manifest_back [OF assms(3) row(4)]
    by (simp add: json_key_def row(4) document_of_def kept_bundle_def same_evidence_def)
  show ?thesis
    by (intro exI [of _ row] exI [of _ b'] conjI row(1) b'(1)) (simp add: load_stored_document_def ids loaded doc)
qed

text \<open>
  C10: A published document survives storage. Take a document over well-formed evidence whose rows the
  tables admit (no identifier of a token or event twice). It is stored; and when the queries return the
  rows of its bundle in any order, since they name none, loading it gives back the same session, run and
  manifest, exactly the transcript that was published, and exactly the speech events, visual events and
  co-occurrences, in some order. The prosody readings and the quality report come back in some order with
  the default tolerance, prosody with the provenance of the speech event that comes back first, quality
  measurements as certain; nothing is dropped, nothing is added, and nothing raises.
\<close>

theorem document_survives_storage:
  assumes "stored_bundle b" and "keys_allowed (write_bundle b)"
    and "stored_manifest m" and "pm_taxonomy_version m = TAXONOMY_VERSION"
    and "get_run (run_id_value (eb_run_id b)) = Some run" and "run_row_of b run"
    and "reordered (rows_of (run_id_value (eb_run_id b)) (eb_tenant b)) (write_bundle b)"
  shows "\<exists>row d. document_to_row (render_document version) (document_of b m) (eb_tenant b) = Inr row \<and>
    load_stored_document (\<lambda>_ _. Some row) get_run rows_of (eb_tenant b) (eb_session_id b) = Inr (Some d) \<and>
    ed_session_id d = eb_session_id b \<and> ed_run_id d = eb_run_id b \<and> ed_manifest d = m \<and>
    ed_transcript d = eb_transcript b \<and> mset (ed_speech_events d) = mset (eb_speech_events b) \<and>
    mset (ed_visual_events d) = mset (eb_visual_events b) \<and>
    mset (ed_cooccurrences d) = mset (eb_cooccurrences b) \<and>
    mset (ed_prosody d) = mset (map (kept_prosody (audio_provenance
      (b\<lparr>eb_speech_events := ed_speech_events d\<rparr>))) (eb_prosody b)) \<and>
    mset (qr_assessments (ed_quality d)) = mset (map kept_assessment (qr_assessments (eb_quality b))) \<and>
    mset (qr_availability (ed_quality d)) = mset (map kept_availability (qr_availability (eb_quality b)))"
proof -
  obtain row b' where got: "document_to_row (render_document version) (document_of b m) (eb_tenant b) = Inr row"
      "same_evidence b' b"
      "load_stored_document (\<lambda>_ _. Some row) get_run rows_of (eb_tenant b) (eb_session_id b) =
        Inr (Some (document_of (kept_bundle b') m))"
    using load_written [where b = b and get_run = get_run and rows_of = rows_of and run = run and version = version, OF assms(1-3,5-7)] assms(4) by auto
  moreover have "audio_provenance (b\<lparr>eb_speech_events := eb_speech_events b'\<rparr>) = audio_provenance b'"
    using got(2) by (simp add: audio_provenance_def same_evidence_def split: list.split)
  ultimately show ?thesis
    by (intro exI [of _ row] exI [of _ "document_of (kept_bundle b') m"])
      (simp add: document_of_def kept_bundle_def same_evidence_def)
qed

text \<open>A document whose taxonomy is no longer the current one is written to the table and cannot be read.\<close>

lemma old_taxonomy_unreadable:
  assumes "stored_bundle b" and "keys_allowed (write_bundle b)"
    and "stored_manifest m" and "pm_taxonomy_version m \<noteq> TAXONOMY_VERSION"
    and "get_run (run_id_value (eb_run_id b)) = Some run" and "run_row_of b run"
    and "reordered (rows_of (run_id_value (eb_run_id b)) (eb_tenant b)) (write_bundle b)"
  shows "\<exists>row. document_to_row (render_document version) (document_of b m) (eb_tenant b) = Inr row \<and>
    load_stored_document (\<lambda>_ _. Some row) get_run rows_of (eb_tenant b) (eb_session_id b) =
      Inl (DomainError ResultViolation)"
  using load_written [where b = b and get_run = get_run and rows_of = rows_of and run = run and version = version, OF assms(1-3,5-7)] assms(4) by auto

text \<open>Another tenant's run is found by its key: the answer is an empty bundle naming the session,
  where the in-memory repository answers \<open>None\<close>.\<close>

lemma foreign_load_answers:
  assumes "get_run (run_id_value r) = Some run" and "named (rrow_id run)" and "named (rrow_session_id run)"
    and "rows_of (rrow_id run) tenant = no_rows"
  shows "\<exists>b. load_bundle get_run rows_of tenant r = Inr (Some b) \<and>
    eb_session_id b = SessionId (rrow_session_id run) \<and> tr_tokens (eb_transcript b) = []"
  using assms
  by (simp add: load_bundle_def read_bundle_def no_rows_def synthetic_audio_provenance_def transcript_build_def
      Identifier_nonspace_prefix py_isspace_def)

text \<open>
  C25: What is written keeps the constraints of the tables. Every row of a well-formed bundle satisfies the
  check constraints of its table: a prosody value never appears without its unit or beside a reason, and
  where a value is missing a reason is given; a quality value never appears without its unit either, which
  its table does not check. Among the rows of the bundle, the primary keys and the unique constraint of the
  co-occurrences hold exactly when no token and no event has the identifier of another and no pair is
  listed twice. Foreign keys, the lengths of text columns, and rows already in the tables are left out.
\<close>

theorem rows_satisfy_constraints:
  assumes "stored_bundle b"
  shows "rows_allowed (write_bundle b) \<and>
    list_all (\<lambda>row. arow_value row = None \<longleftrightarrow> arow_unit row = None) (br_assessments (write_bundle b)) \<and>
    (keys_allowed (write_bundle b) \<longleftrightarrow>
       distinct (map wt_id (tr_tokens (eb_transcript b))) \<and> distinct (map se_id (eb_speech_events b)) \<and>
       distinct (map ve_id (eb_visual_events b)) \<and>
       distinct (map (\<lambda>p. (mc_speech_event_id p, mc_visual_event_id p)) (eb_cooccurrences b)))"
proof (intro conjI keys_of_written)
  show "list_all (\<lambda>row. arow_value row = None \<longleftrightarrow> arow_unit row = None) (br_assessments (write_bundle b))"
    by (auto simp: write_bundle_def Let_def list_all_iff assessment_to_row_def split: indicator.splits)
  have "token_row_allowed (token_to_row t r tn)" if "stored_token t" for t r tn
    using that by (simp add: stored_token_def wf_token_def wf_interval_def wf_confidence_def
        token_row_allowed_def token_to_row_def)
  moreover have "role_value x \<in> {''filler'', ''semantic'', ''discourse_marker'', ''uncertain''}" for x
    by (cases x) simp_all
  then have "speech_row_allowed (speech_event_to_row e r tn)" if "stored_speech e" for e r tn
    using that by (simp add: stored_speech_def wf_confidence_def speech_row_allowed_def speech_event_to_row_def
        split: option.split)
  moreover have "visual_row_allowed (visual_event_to_row e r tn)" if "stored_visual e" for e r tn
    using that by (simp add: stored_visual_def wf_confidence_def visual_row_allowed_def visual_event_to_row_def)
  moreover have "prosody_row_allowed (prosody_to_row p r tn)" for p r tn
    by (cases "pr_value p") (simp_all add: prosody_row_allowed_def prosody_to_row_def Let_def)
  moreover have "assessment_row_allowed (assessment_to_row a r tn)" for a r tn
    by (cases "qa_value a") (simp_all add: assessment_row_allowed_def assessment_to_row_def Let_def)
  moreover have "availability_row_allowed (availability_to_row m r tn)" if "stored_availability m" for m r tn
    using that by (auto simp: stored_availability_def wf_availability_def availability_row_allowed_def
        availability_to_row_def)
  moreover have "cooccurrence_row_allowed (cooccurrence_to_row x r tn)" if "stored_cooccurrence x" for x r tn
    using that by (simp add: stored_cooccurrence_def cooccurrence_row_allowed_def cooccurrence_to_row_def)
  ultimately show "rows_allowed (write_bundle b)"
    using assms unfolding rows_allowed_def write_bundle_def stored_bundle_def Let_def bundle_rows.simps list.pred_map
    by (auto simp: list_all_iff)
qed

section \<open>A stored bundle\<close>

definition sample_speech :: "string \<Rightarrow> string \<Rightarrow> speech_event" where
  "sample_speech i model =
     \<lparr>se_id = EventId i, se_type = LEXICAL_FILLER, se_interval = \<lparr>iv_start = MkTime 0,
        iv_end = MkTime 300, iv_tolerance_ms = 250\<rparr>, se_confidence = MkConfidence (1/2) RAW,
      se_provenance = \<lparr>prov_modality = AUDIO, prov_model_version = ModelVersionId model,
        prov_taxonomy_version = TAXONOMY_VERSION, prov_configuration = ConfigurationSnapshotId ''c1'',
        prov_evidence_ref = EvidenceRef ''audio:r1''\<rparr>,
      se_raw_text = ''eh'', se_context_role = Some FILLER, se_is_final = True\<rparr>"

definition sample_bundle :: evidence_bundle where
  "sample_bundle =
     \<lparr>eb_run_id = RunId ''r1'', eb_session_id = SessionId ''s1'', eb_tenant = TenantId ''t1'',
      eb_transcript = \<lparr>tr_tokens =
        [\<lparr>wt_id = TokenId ''w1'', wt_raw_text = ''eh'', wt_interval = \<lparr>iv_start = MkTime 0,
          iv_end = MkTime 300, iv_tolerance_ms = 250\<rparr>, wt_confidence = MkConfidence (1/2) RAW, wt_status = FINAL\<rparr>,
         \<lparr>wt_id = TokenId ''w2'', wt_raw_text = ''uh'', wt_interval = \<lparr>iv_start = MkTime 400,
          iv_end = MkTime 700, iv_tolerance_ms = 250\<rparr>, wt_confidence = MkConfidence 1 RAW, wt_status = FINAL\<rparr>]\<rparr>,
      eb_quality = \<lparr>qr_assessments = [\<lparr>qa_modality = AUDIO, qa_metric = CLIPPING_RATIO,
          qa_window = \<lparr>iv_start = MkTime 0, iv_end = MkTime 300, iv_tolerance_ms = 250\<rparr>,
          qa_value = Measured (1/4) (MkConfidence 1 CALIBRATED) ''ratio''\<rparr>],
        qr_availability =
        [\<lparr>ma_modality = VIDEO, ma_window = \<lparr>iv_start = MkTime 0, iv_end = MkTime 300, iv_tolerance_ms = 250\<rparr>,
          ma_is_usable = False, ma_reason = Some INPUT_GAP, ma_detail = []\<rparr>]\<rparr>,
      eb_speech_events = [sample_speech ''e1'' ''m1'', sample_speech ''e2'' ''m2''],
      eb_visual_events = [], eb_prosody = [], eb_cooccurrences = []\<rparr>"

lemma sample_bundle_stored: "stored_bundle sample_bundle"
  by (simp add: sample_bundle_def sample_speech_def stored_bundle_def named_def py_strip_Nil_iff py_isspace_def
      wf_transcript_def token_ordering_def wf_token_def wf_interval_def stored_token_def stored_speech_def
      wf_confidence_def wf_provenance_def wf_version_def TAXONOMY_VERSION_def wf_speech_event_def LEXICAL_CLASSES_def
      stored_availability_def wf_availability_def stored_assessment_def)

theorem rows_satisfy_constraints_witness:
  "rows_allowed (write_bundle sample_bundle) \<and> keys_allowed (write_bundle sample_bundle) \<and>
   map arow_unit (br_assessments (write_bundle sample_bundle)) = [Some ''ratio'']"
proof -
  have "map arow_unit (br_assessments (write_bundle sample_bundle)) = [Some ''ratio'']"
    by (simp add: sample_bundle_def write_bundle_def Let_def assessment_to_row_def)
  then show ?thesis
    using rows_satisfy_constraints [OF sample_bundle_stored] by (simp add: sample_bundle_def sample_speech_def)
qed

definition sample_run_row :: run_row where
  "sample_run_row = \<lparr>rrow_id = ''r1'', rrow_session_id = ''s1'', rrow_pipeline_version = ''1.0.0'',
     rrow_state = ''completed'', rrow_started_at_ms = 0, rrow_completed_at_ms = None, rrow_completed_stages = []\<rparr>"

text \<open>The tables give the tokens and the speech events back in the reverse order.\<close>

definition sample_rows :: "string \<Rightarrow> tenant_id \<Rightarrow> bundle_rows" where
  "sample_rows k t =
     (if k = ''r1'' \<and> t = TenantId ''t1''
      then (write_bundle sample_bundle)\<lparr>br_tokens := rev (br_tokens (write_bundle sample_bundle)),
        br_speech := rev (br_speech (write_bundle sample_bundle))\<rparr>
      else no_rows)"

theorem document_survives_storage_witness:
  "\<exists>row d. load_stored_document (\<lambda>_ _. Some row) (\<lambda>k. if k = ''r1'' then Some sample_run_row else None)
      sample_rows (TenantId ''t1'') (SessionId ''s1'') = Inr (Some d) \<and>
    ed_transcript d = eb_transcript sample_bundle \<and>
    mset (ed_speech_events d) = mset (eb_speech_events sample_bundle)"
proof -
  let ?m = "ed_manifest sample_document"
  have m: "stored_manifest ?m" "pm_taxonomy_version ?m = TAXONOMY_VERSION"
    by (simp_all add: sample_document_def stored_manifest_def wf_version_def TAXONOMY_VERSION_def named_def
        py_strip_Nil_iff py_isspace_def)
  have keys: "run_id_value (eb_run_id sample_bundle) = ''r1''" "eb_tenant sample_bundle = TenantId ''t1''"
      "eb_session_id sample_bundle = SessionId ''s1''" "run_row_of sample_bundle sample_run_row"
    by (simp_all add: sample_bundle_def run_row_of_def sample_run_row_def)
  have rows: "keys_allowed (write_bundle sample_bundle)"
      "reordered (sample_rows ''r1'' (TenantId ''t1'')) (write_bundle sample_bundle)"
    by (simp add: keys_of_written sample_bundle_def sample_speech_def) (simp add: reordered_def sample_rows_def)
  show ?thesis
    using document_survives_storage [OF sample_bundle_stored rows(1) m, where run = sample_run_row and version = "''1.0.0''"
        and get_run = "\<lambda>k. if k = ''r1'' then Some sample_run_row else None" and rows_of = sample_rows]
    unfolding keys(1-3) using keys(4) rows(2) by auto
qed

end
