(* ===== verification/ControlPlane.thy ===== *)
theory ControlPlane
  imports Configuration Identity Tokens RowProperties
begin

text \<open>
  The control plane over PostgreSQL (\<open>adapters/outbound/persistence/postgres/control_plane.py\<close>): API
  keys, configuration snapshots and the model registry. The rows that the statements select are
  arguments, the rows that are added or changed are results; the statements themselves belong to the
  database.
\<close>

definition ControlPlaneError :: exn where
  "ControlPlaneError = OtherError ''ControlPlaneError''"

section \<open>API keys\<close>

record api_key_row =
  krow_id :: string
  krow_application_id :: string
  krow_tenant_id :: string
  krow_hashed_secret :: string
  krow_prefix :: string
  krow_scopes :: "string list"
  krow_expires_at_ms :: "int option"
  krow_revoked_at_ms :: "int option"

text \<open>\<open>authenticate\<close>, given the row selected by the hash of the secret.\<close>

definition authenticate_row ::
  "int \<Rightarrow> string \<Rightarrow> string \<Rightarrow> string \<Rightarrow> (string \<Rightarrow> api_key_row option) \<Rightarrow> authenticated_caller option result" where
  "authenticate_row now_ms pepper presented_secret trace_id select_by_hash =
     (let candidate = hash_secret presented_secret pepper in
      case select_by_hash candidate of
        None \<Rightarrow> Inr None
      | Some row \<Rightarrow>
          bindR (compare_digest (krow_hashed_secret row) candidate) (\<lambda>same.
            if \<not> same then Inr None
            else if krow_revoked_at_ms row \<noteq> None then Inr None
            else if (case krow_expires_at_ms row of None \<Rightarrow> False | Some t \<Rightarrow> now_ms \<ge> t) then Inr None
            else bindR (Identifier ApplicationId (krow_application_id row)) (\<lambda>app.
                 bindR (Identifier TenantId (krow_tenant_id row)) (\<lambda>tenant.
                 bindR (Identifier ApiKeyId (krow_id row)) (\<lambda>key_id.
                 bindR (mapR (enum_call scope_value all_scopes) (krow_scopes row)) (\<lambda>scopes.
                 Inr (Some \<lparr>ac_application = app, ac_tenant = tenant, ac_key_id = key_id,
                   ac_scopes = scopes, ac_trace_id = trace_id\<rparr>)))))))"

text \<open>\<open>revoke\<close>: the rows after the update, and whether there was one.\<close>

definition revoke_rows :: "api_key_row list \<Rightarrow> api_key_id \<Rightarrow> int \<Rightarrow> bool \<times> api_key_row list" where
  "revoke_rows rows key_id at_ms =
     (let matches = (\<lambda>row. krow_id row = api_key_id_value key_id);
          rowcount = length (filter matches rows)
      in (rowcount \<noteq> 0, map (\<lambda>row. if matches row then row\<lparr>krow_revoked_at_ms := Some at_ms\<rparr> else row) rows))"

section \<open>Configuration snapshots\<close>

record snapshot_row =
  snrow_id :: string
  snrow_taxonomy_version :: string
  snrow_pipeline_version :: string
  snrow_schema_version :: string
  snrow_payload :: "(string \<times> json) list"

definition thresholds_json :: "(string \<times> rat) list \<Rightarrow> json" where
  "thresholds_json d = JMap (map (\<lambda>(k, q). (k, JFloat q)) d)"

definition calibration_json :: "visual_calibration \<Rightarrow> json" where
  "calibration_json c =
     JMap [(''baseline_yaw_degrees'', JFloat (vc_baseline_yaw_degrees c)),
       (''baseline_pitch_degrees'', JFloat (vc_baseline_pitch_degrees c)),
       (''baseline_torso_degrees'', JFloat (vc_baseline_torso_degrees c)),
       (''gaze_cone_degrees'', JFloat (vc_gaze_cone_degrees c)),
       (''posture_deviation_degrees'', JFloat (vc_posture_deviation_degrees c)),
       (''min_landmark_visibility'', JFloat (vc_min_landmark_visibility c))]"

definition snapshot_to_json :: "configuration_snapshot \<Rightarrow> (string \<times> json) list" where
  "snapshot_to_json s =
     [(''fusion_window_ms'', JInt (fw_width_ms (cs_fusion_window s))),
      (''speech_thresholds'', thresholds_json (cs_speech_thresholds s)),
      (''visual_thresholds'', thresholds_json (cs_visual_thresholds s)),
      (''silence_threshold_ms'', JInt (cs_silence_threshold_ms s)),
      (''calibration'', json_opt calibration_json (cs_calibration s))]"

definition snapshot_to_row :: "configuration_snapshot \<Rightarrow> snapshot_row" where
  "snapshot_to_row s =
     \<lparr>snrow_id = configuration_snapshot_id_value (cs_id s),
      snrow_taxonomy_version = version_str (cs_taxonomy_version s),
      snrow_pipeline_version = version_str (cs_pipeline_version s),
      snrow_schema_version = version_str (cs_schema_version s), snrow_payload = snapshot_to_json s\<rparr>"

text \<open>A value of a field declared as a float: the code takes it as it is, so a value that is no number
  has no place in the model and counts as a type error.\<close>

fun json_number :: "json \<Rightarrow> rat result" where
  "json_number (JFloat q) = Inr q"
| "json_number (JInt i) = Inr (of_int i)"
| "json_number (JBool b) = Inr (if b then 1 else 0)"
| "json_number _ = Inl TypeError"

fun json_thresholds :: "json \<Rightarrow> (string \<times> rat) list result" where
  "json_thresholds (JMap kvs) = mapR (\<lambda>(k, v). bindR (json_number v) (\<lambda>q. Inr (k, q))) kvs"
| "json_thresholds _ = Inl TypeError"

definition CALIBRATION_FIELDS :: "string list" where
  "CALIBRATION_FIELDS =
     [''baseline_yaw_degrees'', ''baseline_pitch_degrees'', ''baseline_torso_degrees'',
      ''gaze_cone_degrees'', ''posture_deviation_degrees'', ''min_landmark_visibility'']"

text \<open>\<open>VisualCalibration(**calibration)\<close>: an unknown keyword or a missing one without a default is a
  \<open>TypeError\<close>.\<close>

definition calibration_field :: "(string \<times> json) list \<Rightarrow> string \<Rightarrow> rat option \<Rightarrow> rat result" where
  "calibration_field kvs key d =
     (case map_of kvs key of
        Some v \<Rightarrow> json_number v
      | None \<Rightarrow> (case d of None \<Rightarrow> Inl TypeError | Some q \<Rightarrow> Inr q))"

fun calibration_from :: "json \<Rightarrow> visual_calibration result" where
  "calibration_from (JMap kvs) =
     (if \<not> set (map fst kvs) \<subseteq> set CALIBRATION_FIELDS then Inl TypeError
      else bindR (calibration_field kvs ''baseline_yaw_degrees'' None) (\<lambda>yaw.
           bindR (calibration_field kvs ''baseline_pitch_degrees'' None) (\<lambda>pitch.
           bindR (calibration_field kvs ''baseline_torso_degrees'' None) (\<lambda>torso.
           bindR (calibration_field kvs ''gaze_cone_degrees'' (Some DEFAULT_GAZE_CONE_DEGREES)) (\<lambda>cone.
           bindR (calibration_field kvs ''posture_deviation_degrees'' (Some DEFAULT_POSTURE_DEVIATION_DEGREES)) (\<lambda>posture.
           bindR (calibration_field kvs ''min_landmark_visibility'' (Some DEFAULT_MIN_LANDMARK_VISIBILITY)) (\<lambda>visibility.
           VisualCalibration yaw pitch torso cone posture visibility)))))))"
| "calibration_from _ = Inl TypeError"

definition row_to_snapshot :: "snapshot_row \<Rightarrow> configuration_snapshot result" where
  "row_to_snapshot row =
     (let payload = snrow_payload row; calibration = get_or payload ''calibration'' JNull
      in bindR (Identifier ConfigurationSnapshotId (snrow_id row)) (\<lambda>i.
         bindR (version_parse (snrow_taxonomy_version row)) (\<lambda>taxonomy.
         bindR (version_parse (snrow_pipeline_version row)) (\<lambda>pipeline.
         bindR (version_parse (snrow_schema_version row)) (\<lambda>schema.
         bindR (bindR (json_key payload ''fusion_window_ms'') to_int) (\<lambda>width.
         bindR (FusionWindow width i) (\<lambda>window.
         bindR (json_thresholds (get_or payload ''speech_thresholds'' (JMap []))) (\<lambda>speech.
         bindR (json_thresholds (get_or payload ''visual_thresholds'' (JMap []))) (\<lambda>visual.
         bindR (to_int (get_or payload ''silence_threshold_ms'' (JInt 700))) (\<lambda>silence.
         bindR (if truthy calibration then bindR (calibration_from calibration) (\<lambda>c. Inr (Some c))
                else Inr None) (\<lambda>cal.
         Inr \<lparr>cs_id = i, cs_taxonomy_version = taxonomy, cs_pipeline_version = pipeline,
              cs_schema_version = schema, cs_fusion_window = window, cs_speech_thresholds = speech,
              cs_visual_thresholds = visual, cs_silence_threshold_ms = silence,
              cs_calibration = cal\<rparr>)))))))))))"

text \<open>\<open>==\<close> of two payloads: numbers by value, mappings without order.\<close>

fun py_equal :: "json \<Rightarrow> json \<Rightarrow> bool" where
  "py_equal (JMap kvs) w =
     (case w of
        JMap kvs' \<Rightarrow> length kvs = length kvs' \<and>
          list_all (\<lambda>(k, v). case map_of kvs' k of None \<Rightarrow> False | Some v' \<Rightarrow> py_equal v v') kvs
      | _ \<Rightarrow> False)"
| "py_equal (JSeq vs) w = (case w of JSeq vs' \<Rightarrow> list_all2 py_equal vs vs' | _ \<Rightarrow> False)"
| "py_equal (JStr s) w = (w = JStr s)"
| "py_equal (JBytes s) w = (w = JBytes s)"
| "py_equal JNull w = (w = JNull)"
| "py_equal v w = (case (json_number v, json_number w) of (Inr p, Inr q) \<Rightarrow> p = q | _ \<Rightarrow> False)"

text \<open>\<open>freeze\<close>, given the row of the snapshot's identifier: the row to add, if any.\<close>

definition freeze_row :: "snapshot_row option \<Rightarrow> configuration_snapshot \<Rightarrow> snapshot_row option result" where
  "freeze_row existing snapshot =
     (case existing of
        None \<Rightarrow> Inr (Some (snapshot_to_row snapshot))
      | Some row \<Rightarrow>
          if \<not> py_equal (JMap (snrow_payload row)) (JMap (snapshot_to_json snapshot))
          then Inl ControlPlaneError else Inr None)"

text \<open>\<open>current\<close> and \<open>get\<close>, given the selected row.\<close>

definition current_row :: "configuration_snapshot \<Rightarrow> snapshot_row option \<Rightarrow> configuration_snapshot result" where
  "current_row default_snapshot row = (case row of None \<Rightarrow> Inr default_snapshot | Some r \<Rightarrow> row_to_snapshot r)"

definition get_row ::
  "configuration_snapshot \<Rightarrow> configuration_snapshot_id \<Rightarrow> snapshot_row option \<Rightarrow>
   configuration_snapshot option result" where
  "get_row default_snapshot i row =
     (case row of
        Some r \<Rightarrow> bindR (row_to_snapshot r) (\<lambda>s. Inr (Some s))
      | None \<Rightarrow> Inr (if i = cs_id default_snapshot then Some default_snapshot else None))"

section \<open>The model registry\<close>

fun approval_value :: "approval_state \<Rightarrow> string" where
  "approval_value DRAFT = ''draft''"
| "approval_value EVALUATED = ''evaluated''"
| "approval_value APPROVED = ''approved''"
| "approval_value CANARY = ''canary''"
| "approval_value PRODUCTION = ''production''"
| "approval_value ROLLED_BACK = ''rolled_back''"
| "approval_value DISABLED = ''disabled''"

definition approval_states :: "approval_state list" where
  "approval_states = [DRAFT, EVALUATED, APPROVED, CANARY, PRODUCTION, ROLLED_BACK, DISABLED]"

record model_row =
  vrow_id :: string
  vrow_modality :: string
  vrow_artifact_digest :: string
  vrow_dataset_version :: string
  vrow_approval :: string
  vrow_metrics :: "(string \<times> rat) list"
  vrow_rollback_to :: "string option"
  vrow_is_active :: bool

definition row_to_model :: "model_row \<Rightarrow> model_version result" where
  "row_to_model row =
     bindR (Identifier ModelVersionId (vrow_id row)) (\<lambda>i.
     bindR (enum_call modality_value modalities (vrow_modality row)) (\<lambda>m.
     bindR (enum_call approval_value approval_states (vrow_approval row)) (\<lambda>approval.
     bindR (case vrow_rollback_to row of
              None \<Rightarrow> Inr None
            | Some t \<Rightarrow> if t = [] then Inr None
                else bindR (Identifier ModelVersionId t) (\<lambda>target. Inr (Some target))) (\<lambda>rollback.
     Inr \<lparr>mv_id = i, mv_modality = m, mv_artifact_digest = vrow_artifact_digest row,
          mv_dataset_version = vrow_dataset_version row, mv_approval = approval,
          mv_metrics = vrow_metrics row, mv_rollback_to = rollback\<rparr>))))"

text \<open>\<open>active_for\<close>, given the active row of a modality; \<open>get\<close>, given the row of a key; \<open>list_versions\<close>,
  over the rows of the table.\<close>

definition active_for_row :: "(string \<Rightarrow> model_row option) \<Rightarrow> modality \<Rightarrow> model_version result" where
  "active_for_row active_row m =
     (case active_row (modality_value m) of None \<Rightarrow> Inl ControlPlaneError | Some row \<Rightarrow> row_to_model row)"

definition model_get_row :: "(string \<Rightarrow> model_row option) \<Rightarrow> model_version_id \<Rightarrow> model_version option result" where
  "model_get_row get i =
     (case get (model_version_id_value i) of
        None \<Rightarrow> Inr None
      | Some row \<Rightarrow> bindR (row_to_model row) (\<lambda>v. Inr (Some v)))"

definition list_version_rows :: "model_row list \<Rightarrow> modality \<Rightarrow> model_version list result" where
  "list_version_rows rows m = mapR row_to_model (filter (\<lambda>row. vrow_modality row = modality_value m) rows)"

text \<open>\<open>promote\<close>, given the row of the model and the active row of its modality: the two rows as they
  are written. When both are the same row the second component is not used.\<close>

definition promote_rows ::
  "model_row option \<Rightarrow> model_row option \<Rightarrow> int \<Rightarrow> (model_row \<times> model_row option) result" where
  "promote_rows found previous canary_percent =
     (if \<not> (0 \<le> canary_percent \<and> canary_percent \<le> 100) then Inl ControlPlaneError
      else case found of
        None \<Rightarrow> Inl ControlPlaneError
      | Some row \<Rightarrow>
          bindR (enum_call approval_value approval_states (vrow_approval row)) (\<lambda>approval.
            if approval \<notin> set PROMOTABLE then Inl ControlPlaneError
            else
              let (row', previous') =
                (case previous of
                   Some p \<Rightarrow> if vrow_id p \<noteq> vrow_id row
                     then (row\<lparr>vrow_rollback_to := Some (vrow_id p)\<rparr>, Some (p\<lparr>vrow_is_active := False\<rparr>))
                     else (row, previous)
                 | None \<Rightarrow> (row, previous));
                  row'' = row'\<lparr>vrow_is_active := True,
                    vrow_approval := approval_value (if canary_percent = 100 then PRODUCTION else CANARY)\<rparr>
              in bindR (row_to_model row'') (\<lambda>_. Inr (row'', previous'))))"

text \<open>\<open>rollback\<close>, given the active row and the lookup of a row by its key.\<close>

definition rollback_rows ::
  "model_row option \<Rightarrow> (string \<Rightarrow> model_row option) \<Rightarrow> (model_row \<times> model_row) result" where
  "rollback_rows current get =
     (case current of
        None \<Rightarrow> Inl ControlPlaneError
      | Some row \<Rightarrow>
          (case vrow_rollback_to row of
             None \<Rightarrow> Inl ControlPlaneError
           | Some t \<Rightarrow>
               (case get t of
                  None \<Rightarrow> Inl ControlPlaneError
                | Some target \<Rightarrow>
                    let row' = row\<lparr>vrow_is_active := False, vrow_approval := approval_value ROLLED_BACK\<rparr>;
                        target' = target\<lparr>vrow_is_active := True\<rparr>
                    in bindR (row_to_model target') (\<lambda>_. Inr (row', target')))))"

end
