(* ===== verification/ControlPlaneProperties.thy ===== *)
theory ControlPlaneProperties
  imports ControlPlane
begin

text \<open>
  What the control plane keeps: a snapshot read back from its row, a promotion and the rollback that
  undoes it, the answer of a key row against the in-memory directory, and what \<open>freeze\<close> does not
  compare.
\<close>

section \<open>Snapshots\<close>

definition stored_snapshot :: "configuration_snapshot \<Rightarrow> bool" where
  "stored_snapshot s \<longleftrightarrow> named (configuration_snapshot_id_value (cs_id s)) \<and>
     wf_version (cs_taxonomy_version s) \<and> wf_version (cs_pipeline_version s) \<and> wf_version (cs_schema_version s) \<and>
     0 \<le> fw_width_ms (cs_fusion_window s) \<and> fw_configuration (cs_fusion_window s) = cs_id s \<and>
     (case cs_calibration s of None \<Rightarrow> True
      | Some c \<Rightarrow> VisualCalibration (vc_baseline_yaw_degrees c) (vc_baseline_pitch_degrees c)
          (vc_baseline_torso_degrees c) (vc_gaze_cone_degrees c) (vc_posture_deviation_degrees c)
          (vc_min_landmark_visibility c) = Inr c)"

lemma thresholds_back: "json_thresholds (thresholds_json d) = Inr d"
proof -
  have "mapR (\<lambda>(k, v). bindR (json_number v) (\<lambda>q. Inr (k, q))) (map (\<lambda>(k, q). (k, JFloat q)) d) = Inr d"
    by (induction d) auto
  then show ?thesis by (simp add: thresholds_json_def)
qed

lemma calibration_back:
  "calibration_from (calibration_json c) =
     VisualCalibration (vc_baseline_yaw_degrees c) (vc_baseline_pitch_degrees c) (vc_baseline_torso_degrees c)
       (vc_gaze_cone_degrees c) (vc_posture_deviation_degrees c) (vc_min_landmark_visibility c)"
  by (simp add: calibration_json_def calibration_field_def CALIBRATION_FIELDS_def)

text \<open>
  A configuration snapshot survives its row: windows, thresholds per class, silence threshold and the
  speaker's calibration read back as the snapshot that was frozen.
\<close>

theorem snapshot_survives_row:
  assumes "stored_snapshot s"
  shows "row_to_snapshot (snapshot_to_row s) = Inr s"
proof -
  have window: "FusionWindow (fw_width_ms (cs_fusion_window s)) (cs_id s) = Inr (cs_fusion_window s)"
    using assms by (cases "cs_fusion_window s") (simp add: stored_snapshot_def FusionWindow_def)
  have payload:
    "json_key (snapshot_to_json s) ''fusion_window_ms'' = Inr (JInt (fw_width_ms (cs_fusion_window s)))"
    "get_or (snapshot_to_json s) ''speech_thresholds'' (JMap []) = thresholds_json (cs_speech_thresholds s)"
    "get_or (snapshot_to_json s) ''visual_thresholds'' (JMap []) = thresholds_json (cs_visual_thresholds s)"
    "get_or (snapshot_to_json s) ''silence_threshold_ms'' (JInt 700) = JInt (cs_silence_threshold_ms s)"
    "get_or (snapshot_to_json s) ''calibration'' JNull = json_opt calibration_json (cs_calibration s)"
    by (simp_all add: snapshot_to_json_def json_key_def get_or_def)
  have cal: "(if truthy (json_opt calibration_json (cs_calibration s))
      then bindR (calibration_from (json_opt calibration_json (cs_calibration s))) (\<lambda>c. Inr (Some c))
      else Inr None) = Inr (cs_calibration s)"
  proof (cases "cs_calibration s")
    case (Some c)
    have "truthy (calibration_json c)" by (simp add: calibration_json_def)
    with assms Some show ?thesis by (simp add: json_opt_def calibration_back stored_snapshot_def)
  qed (simp add: json_opt_def)
  have ids: "Identifier ConfigurationSnapshotId (configuration_snapshot_id_value (cs_id s)) = Inr (cs_id s)"
      "version_parse (version_str (cs_taxonomy_version s)) = Inr (cs_taxonomy_version s)"
      "version_parse (version_str (cs_pipeline_version s)) = Inr (cs_pipeline_version s)"
      "version_parse (version_str (cs_schema_version s)) = Inr (cs_schema_version s)"
    using assms by (simp_all add: stored_snapshot_def)
  show ?thesis
    unfolding row_to_snapshot_def snapshot_to_row_def snapshot_row.simps Let_def ids payload thresholds_back
      bindR_simps to_int.simps window cal
    by simp
qed

definition sample_snapshot :: configuration_snapshot where
  "sample_snapshot =
     \<lparr>cs_id = ConfigurationSnapshotId ''c1'', cs_taxonomy_version = MkVersion 1 0 0,
      cs_pipeline_version = MkVersion 1 2 0, cs_schema_version = MkVersion 1 0 0,
      cs_fusion_window = \<lparr>fw_width_ms = 500, fw_configuration = ConfigurationSnapshotId ''c1''\<rparr>,
      cs_speech_thresholds = [(''repetition'', 3/5)], cs_visual_thresholds = [], cs_silence_threshold_ms = 700,
      cs_calibration = Some \<lparr>vc_baseline_yaw_degrees = 2, vc_baseline_pitch_degrees = - 7,
        vc_baseline_torso_degrees = 1, vc_gaze_cone_degrees = 20, vc_posture_deviation_degrees = 15,
        vc_min_landmark_visibility = 1/2\<rparr>\<rparr>"

theorem snapshot_survives_row_witness:
  "row_to_snapshot (snapshot_to_row sample_snapshot) = Inr sample_snapshot"
proof -
  have "stored_snapshot sample_snapshot"
    by (simp add: stored_snapshot_def sample_snapshot_def wf_version_def VisualCalibration_def named_def
        py_strip_Nil_iff py_isspace_def)
  then show ?thesis by (rule snapshot_survives_row)
qed

text \<open>\<open>freeze\<close> compares payloads only, and the payload holds neither the taxonomy nor the pipeline nor
  the schema version: the same identifier is accepted under other versions.\<close>

definition plain_snapshot :: "semantic_version \<Rightarrow> configuration_snapshot" where
  "plain_snapshot taxonomy =
     \<lparr>cs_id = ConfigurationSnapshotId ''c1'', cs_taxonomy_version = taxonomy,
      cs_pipeline_version = MkVersion 1 0 0, cs_schema_version = MkVersion 1 0 0,
      cs_fusion_window = \<lparr>fw_width_ms = 500, fw_configuration = ConfigurationSnapshotId ''c1''\<rparr>,
      cs_speech_thresholds = [], cs_visual_thresholds = [], cs_silence_threshold_ms = 700,
      cs_calibration = None\<rparr>"

lemma freeze_ignores_versions:
  "freeze_row (Some (snapshot_to_row (plain_snapshot v))) (plain_snapshot w) = Inr None"
  by (simp add: freeze_row_def snapshot_to_row_def plain_snapshot_def snapshot_to_json_def thresholds_json_def
      json_opt_def)

section \<open>Promotion and rollback\<close>

lemma approval_back [simp]: "enum_call approval_value approval_states (approval_value a) = Inr a"
  by (cases a; simp add: enum_call_def enum_of_def approval_states_def)

definition model_row_ok :: "model_row \<Rightarrow> bool" where
  "model_row_ok r \<longleftrightarrow> named (vrow_id r) \<and> vrow_modality r \<in> set (map modality_value modalities) \<and>
     vrow_approval r \<in> set (map approval_value approval_states)"

lemma row_to_model_total:
  assumes "model_row_ok r" and "vrow_rollback_to r = None \<or> (\<exists>t. vrow_rollback_to r = Some t \<and> named t)"
  shows "\<exists>m. row_to_model r = Inr m"
proof -
  obtain m where "vrow_modality r = modality_value m" using assms(1) by (auto simp: model_row_ok_def)
  moreover obtain a where "vrow_approval r = approval_value a" using assms(1) by (auto simp: model_row_ok_def)
  ultimately show ?thesis
    using assms by (auto simp: row_to_model_def model_row_ok_def named_def)
qed

lemma approvals_listed [simp]: "approval_value a \<in> approval_value ` set approval_states"
  by (cases a) (simp_all add: approval_states_def)

lemma promote_over_previous:
  assumes "model_row_ok row" and "vrow_approval row = approval_value a" and "a \<in> set PROMOTABLE"
    and "named (vrow_id p)" and "vrow_id p \<noteq> vrow_id row" and "0 \<le> n" "n \<le> 100"
  shows "promote_rows (Some row) (Some p) n =
    Inr (row\<lparr>vrow_rollback_to := Some (vrow_id p), vrow_is_active := True,
           vrow_approval := approval_value (if n = 100 then PRODUCTION else CANARY)\<rparr>,
         Some (p\<lparr>vrow_is_active := False\<rparr>))"
proof -
  let ?r = "row\<lparr>vrow_rollback_to := Some (vrow_id p), vrow_is_active := True,
      vrow_approval := approval_value (if n = 100 then PRODUCTION else CANARY)\<rparr>"
  obtain m where "row_to_model ?r = Inr m"
    using row_to_model_total [of ?r] assms(1,4) by (auto simp: model_row_ok_def)
  then show ?thesis using assms by (simp add: promote_rows_def)
qed

lemma repeated_promotion:
  assumes "model_row_ok row" and "vrow_approval row = approval_value a" and "a \<in> set PROMOTABLE"
    and "vrow_rollback_to row = Some t" and "named t" and "0 \<le> n" "n \<le> 100"
  shows "promote_rows (Some row) (Some row) n =
    Inr (row\<lparr>vrow_is_active := True, vrow_approval := approval_value (if n = 100 then PRODUCTION else CANARY)\<rparr>,
         Some row)"
proof -
  let ?r = "row\<lparr>vrow_is_active := True,
      vrow_approval := approval_value (if n = 100 then PRODUCTION else CANARY)\<rparr>"
  obtain m where "row_to_model ?r = Inr m"
    using row_to_model_total [of ?r] assms(1,4,5) by (auto simp: model_row_ok_def)
  then show ?thesis using assms by (simp add: promote_rows_def)
qed

text \<open>
  A canary that is taken to full traffic can still be rolled back. Promoting a model over the active
  one, at any percentage below full, promoting it again to full traffic and then rolling back
  re-activates exactly the model that was active before, with its approval, leaves the promoted one
  inactive and rolled back, and at no step are both active.
\<close>

theorem canary_rollback_restores:
  assumes "model_row_ok row" and "model_row_ok p" and "vrow_approval row = approval_value EVALUATED"
    and "vrow_id p \<noteq> vrow_id row" and "vrow_is_active p"
    and "vrow_rollback_to p = None" and "0 \<le> n" "n < 100"
  shows "\<exists>r1 p1 r2 r3. promote_rows (Some row) (Some p) n = Inr (r1, Some p1) \<and>
    vrow_is_active r1 \<and> \<not> vrow_is_active p1 \<and>
    promote_rows (Some r1) (Some r1) 100 = Inr (r2, Some r1) \<and> vrow_is_active r2 \<and>
    rollback_rows (Some r2) (\<lambda>k. if k = vrow_id p then Some p1 else None) = Inr (r3, p) \<and>
    \<not> vrow_is_active r3 \<and> vrow_approval r3 = ''rolled_back''"
proof -
  let ?r1 = "row\<lparr>vrow_rollback_to := Some (vrow_id p), vrow_is_active := True, vrow_approval := approval_value CANARY\<rparr>"
  let ?p1 = "p\<lparr>vrow_is_active := False\<rparr>"
  let ?r2 = "?r1\<lparr>vrow_is_active := True, vrow_approval := approval_value PRODUCTION\<rparr>"
  let ?r3 = "?r2\<lparr>vrow_is_active := False, vrow_approval := approval_value ROLLED_BACK\<rparr>"
  have one: "promote_rows (Some row) (Some p) n = Inr (?r1, Some ?p1)"
    using promote_over_previous [of row EVALUATED p n] assms by (simp add: PROMOTABLE_def model_row_ok_def)
  have two: "promote_rows (Some ?r1) (Some ?r1) 100 = Inr (?r2, Some ?r1)"
    using repeated_promotion [of ?r1 CANARY "vrow_id p" 100] assms(1,2)
    by (simp add: PROMOTABLE_def model_row_ok_def approval_states_def)
  obtain m where "row_to_model p = Inr m" using row_to_model_total [of p] assms(2,6) by auto
  moreover have "?p1\<lparr>vrow_is_active := True\<rparr> = p" using assms(5) by (cases p) simp
  ultimately have three: "rollback_rows (Some ?r2) (\<lambda>k. if k = vrow_id p then Some ?p1 else None) = Inr (?r3, p)"
    by (simp add: rollback_rows_def Let_def)
  show ?thesis
    by (intro exI [of _ ?r1] exI [of _ ?p1] exI [of _ ?r2] exI [of _ ?r3] conjI one two three) simp_all
qed

definition sample_model_row :: "string \<Rightarrow> approval_state \<Rightarrow> bool \<Rightarrow> model_row" where
  "sample_model_row i a active =
     \<lparr>vrow_id = i, vrow_modality = ''audio'', vrow_artifact_digest = ''d'', vrow_dataset_version = ''v'',
      vrow_approval = approval_value a, vrow_metrics = [], vrow_rollback_to = None, vrow_is_active = active\<rparr>"

theorem canary_rollback_restores_witness:
  "\<exists>r1 p1 r2 r3. promote_rows (Some (sample_model_row ''b'' EVALUATED False))
      (Some (sample_model_row ''a'' PRODUCTION True)) 10 = Inr (r1, Some p1) \<and>
    promote_rows (Some r1) (Some r1) 100 = Inr (r2, Some r1) \<and>
    rollback_rows (Some r2) (\<lambda>k. if k = ''a'' then Some p1 else None) =
      Inr (r3, sample_model_row ''a'' PRODUCTION True)"
proof -
  let ?row = "sample_model_row ''b'' EVALUATED False" and ?p = "sample_model_row ''a'' PRODUCTION True"
  have "model_row_ok ?row" "model_row_ok ?p"
    by (simp_all add: model_row_ok_def sample_model_row_def named_def py_strip_Nil_iff py_isspace_def
        modalities_def approval_states_def)
  then show ?thesis
    using canary_rollback_restores [of ?row ?p 10] by (auto simp: sample_model_row_def)
qed

section \<open>Keys\<close>

text \<open>A row that holds a record of the in-memory directory answers as the directory does.\<close>

definition key_row_of :: "api_key_record \<Rightarrow> api_key_row" where
  "key_row_of r =
     \<lparr>krow_id = api_key_id_value (ak_id r), krow_application_id = application_id_value (ak_application r),
      krow_tenant_id = tenant_id_value (ak_tenant r), krow_hashed_secret = ak_hashed_secret r,
      krow_prefix = ak_prefix r, krow_scopes = map scope_value (ak_scopes r),
      krow_expires_at_ms = ak_expires_at_ms r, krow_revoked_at_ms = ak_revoked_at_ms r\<rparr>"

definition nameable_key :: "api_key_record \<Rightarrow> bool" where
  "nameable_key r \<longleftrightarrow> named (api_key_id_value (ak_id r)) \<and> named (application_id_value (ak_application r)) \<and>
     named (tenant_id_value (ak_tenant r)) \<and> is_ascii (ak_hashed_secret r)"

lemma scopes_read: "mapR (enum_call scope_value all_scopes) (map scope_value scs) = Inr scs"
proof -
  have "enum_call scope_value all_scopes (scope_value s) = Inr s" for s
    by (cases s; simp add: enum_call_def enum_of_def all_scopes_def)
  then show ?thesis by (induction scs) simp_all
qed

text \<open>Revocation agrees as well, where no two records share an identifier.\<close>

lemma api_key_id_text: "api_key_id_value i = api_key_id_value j \<longleftrightarrow> i = j"
  by (cases i; cases j) simp

lemma revoke_rows_Cons:
  "revoke_rows (row # rows) i t =
     (case revoke_rows rows i t of (b, rows') \<Rightarrow>
        if krow_id row = api_key_id_value i then (True, row\<lparr>krow_revoked_at_ms := Some t\<rparr> # rows')
        else (b, row # rows'))"
  by (simp add: revoke_rows_def Let_def)

lemma key_row_of_revoked: "(key_row_of r)\<lparr>krow_revoked_at_ms := Some t\<rparr> = key_row_of (r\<lparr>ak_revoked_at_ms := Some t\<rparr>)"
  by (simp add: key_row_of_def)

lemma key_row_id: "krow_id (key_row_of r) = api_key_id_value i \<longleftrightarrow> ak_id r = i"
  by (simp add: key_row_of_def api_key_id_text)

lemma revoke_rows_absent:
  "i \<notin> set (map (ak_id \<circ> snd) d) \<Longrightarrow>
   revoke_rows (map (key_row_of \<circ> snd) d) i t = (False, map (key_row_of \<circ> snd) d)"
proof (induction d)
  case (Cons x d)
  then show ?case by (auto simp: revoke_rows_Cons key_row_id)
qed (simp add: revoke_rows_def)

lemma revocations_agree:
  "distinct (map (ak_id \<circ> snd) d) \<Longrightarrow>
   revoke_rows (map (key_row_of \<circ> snd) d) i t =
     (case revoke_first d i t of (b, d') \<Rightarrow> (b, map (key_row_of \<circ> snd) d'))"
proof (induction d)
  case (Cons x d)
  obtain hashed r where x: "x = (hashed, r)" by (cases x)
  show ?case
  proof (cases "ak_id r = i")
    case True
    then have "i \<notin> set (map (ak_id \<circ> snd) d)" using Cons.prems x by auto
    from revoke_rows_absent [OF this, of t] True show ?thesis
      by (simp add: x revoke_rows_Cons key_row_id key_row_of_revoked o_def)
  next
    case False
    with Cons show ?thesis by (simp add: x revoke_rows_Cons key_row_id o_def split: prod.splits)
  qed
qed (simp add: revoke_rows_def)

text \<open>
  C26: The two directories agree. Over rows that hold the records of an in-memory directory, the PostgreSQL
  directory answers every presented secret, at every time, exactly as the in-memory one does: the same
  caller with the same scopes, and the same silence on unknown, revoked and expired keys.
\<close>

theorem key_directories_agree:
  assumes "wf_directory d" and "list_all (\<lambda>(h, r). nameable_key r) (kd_by_hash d)"
  shows "authenticate_row now (kd_pepper d) secret trace (\<lambda>h. map_option key_row_of (map_of (kd_by_hash d) h)) =
    Inr (authenticate now d secret trace)"
proof -
  let ?c = "hash_secret secret (kd_pepper d)"
  show ?thesis
  proof (cases "map_of (kd_by_hash d) ?c")
    case None
    with assms(1) show ?thesis
      by (simp add: authenticate_row_def authenticate_def last_match_lookup wf_directory_def)
  next
    case (Some r)
    then have mem: "(?c, r) \<in> set (kd_by_hash d)" by (rule map_of_SomeD)
    have r: "nameable_key r" "ak_hashed_secret r = ?c"
      using mem assms by (auto simp: list_all_iff wf_directory_def)
    with Some assms(1) show ?thesis
      by (auto simp: authenticate_row_def authenticate_def last_match_lookup wf_directory_def key_row_of_def
          nameable_key_def compare_digest_def is_usable_def scopes_read split: option.splits)
  qed
qed

text \<open>A hash is hexadecimal, so comparing two of them never raises.\<close>

lemma hex_char_ascii:
  assumes "n < 16"
  shows "(of_char (hex_char n) :: nat) < 128"
proof -
  have "list_all (\<lambda>n. (of_char (hex_char n) :: nat) < 128) [0..<16]" by code_simp
  with assms show ?thesis by (simp add: list_all_iff)
qed

lemma hash_is_ascii: "is_ascii (hash_secret secret pepper)"
proof -
  have "x AND 15 = take_bit 4 x" for x :: w32
    by (simp add: take_bit_eq_mask mask_eq_exp_minus_1)
  then have "unat (x AND 15) < 16" for x :: w32
    using take_bit_nat_less_exp [of 4 "unat x"] by (simp add: unsigned_take_bit_eq)
  then show ?thesis
    by (auto simp: is_ascii_def hash_secret_def sha256_hexdigest_def list_all_iff hex_word_def intro!: hex_char_ascii)
qed

lemma hashes_compare: "compare_digest (hash_secret x p) (hash_secret y q) = Inr (hash_secret x p = hash_secret y q)"
  by (simp add: compare_digest_def hash_is_ascii)

definition sample_key :: api_key_record where
  "sample_key = \<lparr>ak_id = ApiKeyId ''k'', ak_application = ApplicationId ''a'', ak_tenant = TenantId ''t'',
     ak_hashed_secret = hash_secret ''x'' ''p'', ak_prefix = ''oek'', ak_scopes = [RESULTS_READ],
     ak_expires_at_ms = Some 90, ak_revoked_at_ms = None\<rparr>"

theorem key_directories_agree_witness:
  "authenticate_row 50 ''p'' ''x'' ''t'' (\<lambda>h. map_option key_row_of (map_of [(hash_secret ''x'' ''p'', sample_key)] h)) =
     Inr (Some \<lparr>ac_application = ApplicationId ''a'', ac_tenant = TenantId ''t'', ac_key_id = ApiKeyId ''k'',
       ac_scopes = [RESULTS_READ], ac_trace_id = ''t''\<rparr>) \<and>
   authenticate_row 90 ''p'' ''x'' ''t'' (\<lambda>h. map_option key_row_of (map_of [(hash_secret ''x'' ''p'', sample_key)] h)) =
     Inr None"
proof -
  let ?d = "\<lparr>kd_pepper = ''p'', kd_by_hash = [(hash_secret ''x'' ''p'', sample_key)]\<rparr>"
  have wf: "wf_directory ?d" by (simp add: wf_directory_def sample_key_def)
  have names: "list_all (\<lambda>(h, r). nameable_key r) (kd_by_hash ?d)"
    by (simp add: nameable_key_def sample_key_def named_def py_strip_Nil_iff py_isspace_def hash_is_ascii)
  have known: "authenticate now ?d ''x'' ''t'' = (if now < 90 then Some \<lparr>ac_application = ApplicationId ''a'',
      ac_tenant = TenantId ''t'', ac_key_id = ApiKeyId ''k'', ac_scopes = [RESULTS_READ], ac_trace_id = ''t''\<rparr>
      else None)" for now
    by (simp add: authenticate_def compare_digest_def is_usable_def sample_key_def)
  show ?thesis
    using key_directories_agree [OF wf names, of 50 "''x''" "''t''"] key_directories_agree [OF wf names, of 90 "''x''" "''t''"]
    by (simp add: known)
qed

end
