(* ===== verification/Deterministic.thy ===== *)
theory Deterministic
  imports Ports Actions
begin

text \<open>
  The deterministic runtimes (\<open>adapters/outbound/model_runtime/deterministic.py\<close>): scripts of words,
  disfluencies and visual observations, replayed window by window and batch by batch. A runtime is an
  action on its own state: the windows it has seen and how far it has declared its output stable.
\<close>

definition RuntimeError :: exn where
  "RuntimeError = OtherError ''RuntimeError''"

section \<open>Speech\<close>

definition DEFAULT_INSTABILITY_TAIL_MS :: int where
  "DEFAULT_INSTABILITY_TAIL_MS = 400"

record scripted_word =
  sw_text :: string
  sw_start_ms :: int
  sw_end_ms :: int
  sw_score :: rat

record scripted_speech_event =
  sx_type :: speech_event_type
  sx_start_ms :: int
  sx_end_ms :: int
  sx_score :: rat
  sx_raw_text :: string
  sx_context_role :: "contextual_role option"

record speech_script =
  sc_words :: "scripted_word list"
  sc_events :: "scripted_speech_event list"
  sc_model_version :: model_version_id
  sc_instability_tail_ms :: int
  sc_fail_after_window :: "int option"

record speech_runtime =
  dr_windows_seen :: int
  dr_stable_ms :: int

definition SpeechRuntime :: speech_runtime where
  "SpeechRuntime = \<lparr>dr_windows_seen = 0, dr_stable_ms = 0\<rparr>"

definition stable_through :: "speech_script \<Rightarrow> int \<Rightarrow> bool \<Rightarrow> int" where
  "stable_through script window_end_ms is_final =
     (if is_final then window_end_ms else max 0 (window_end_ms - sc_instability_tail_ms script))"

definition scripted_prosody :: "speech_script \<Rightarrow> int \<Rightarrow> int \<Rightarrow> prosody_hypothesis list" where
  "scripted_prosody script from_ms to_ms =
     (let has_speech = list_ex (\<lambda>w. from_ms \<le> sw_start_ms w \<and> sw_start_ms w < to_ms) (sc_words script)
      in [\<lparr>ph_indicator = MEAN_INTENSITY_DB, ph_start_ms = from_ms, ph_end_ms = to_ms,
            ph_value = Some (if has_speech then - 45/2 else - 60), ph_score = 9/10\<rparr>,
          \<lparr>ph_indicator = PITCH_MEAN_HZ, ph_start_ms = from_ms, ph_end_ms = to_ms,
            ph_value = (if has_speech then Some 132 else None),
            ph_score = (if has_speech then 4/5 else 0)\<rparr>,
          \<lparr>ph_indicator = VOICED_RATIO, ph_start_ms = from_ms, ph_end_ms = to_ms,
            ph_value = Some (if has_speech then 37/50 else 0), ph_score = 19/20\<rparr>])"

definition word_of_script :: "scripted_word \<Rightarrow> word_hypothesis" where
  "word_of_script w = \<lparr>wh_raw_text = sw_text w, wh_start_ms = sw_start_ms w, wh_end_ms = sw_end_ms w,
     wh_score = sw_score w\<rparr>"

definition event_of_script :: "scripted_speech_event \<Rightarrow> speech_event_hypothesis" where
  "event_of_script x = \<lparr>sh_type = sx_type x, sh_start_ms = sx_start_ms x, sh_end_ms = sx_end_ms x,
     sh_score = sx_score x, sh_raw_text = sx_raw_text x, sh_context_role = sx_context_role x\<rparr>"

definition scripted_failure :: "int option \<Rightarrow> int \<Rightarrow> bool" where
  "scripted_failure fail_after seen \<longleftrightarrow> (case fail_after of None \<Rightarrow> False | Some n \<Rightarrow> seen > n)"

definition transcribe :: "speech_script \<Rightarrow> audio_window \<Rightarrow> (speech_runtime, speech_result) action" where
  "transcribe script window =
     seqA (modifyA (\<lambda>r. r\<lparr>dr_windows_seen := dr_windows_seen r + 1\<rparr>))
     (bindA (getA id) (\<lambda>r.
        if scripted_failure (sc_fail_after_window script) (dr_windows_seen r) then raiseA RuntimeError
        else
          let window_end_ms = aw_session_position_ms window + aw_duration_ms window;
              active_from_ms = dr_stable_ms r;
              words = map word_of_script (filter (\<lambda>w. sw_end_ms w > active_from_ms \<and> sw_start_ms w < window_end_ms)
                (sc_words script));
              events = map event_of_script (filter (\<lambda>x. sx_end_ms x > active_from_ms \<and> sx_start_ms x < window_end_ms)
                (sc_events script));
              stable_through_ms = stable_through script window_end_ms (aw_is_final_window window)
          in seqA (modifyA (\<lambda>r. r\<lparr>dr_stable_ms := max (dr_stable_ms r) stable_through_ms\<rparr>))
               (returnA \<lparr>sr_model_version = sc_model_version script, sr_words = words, sr_events = events,
                  sr_prosody = scripted_prosody script (aw_session_position_ms window) window_end_ms,
                  sr_stable_through_ms = stable_through_ms\<rparr>)))"

section \<open>Vision\<close>

record scripted_visual_event =
  sv_type :: visual_event_type
  sv_start_ms :: int
  sv_end_ms :: int
  sv_score :: rat
  sv_direction :: "gaze_direction option"
  sv_magnitude :: "rat option"

record visual_script =
  vs_events :: "scripted_visual_event list"
  vs_model_version :: model_version_id
  vs_face_visibility :: rat
  vs_mean_luminance :: rat
  vs_framing_coverage :: rat
  vs_landmark_confidence :: rat
  vs_fail_after_batch :: "int option"

definition visual_of_script :: "scripted_visual_event \<Rightarrow> visual_event_hypothesis" where
  "visual_of_script x = \<lparr>vh_type = sv_type x, vh_start_ms = sv_start_ms x, vh_end_ms = sv_end_ms x,
     vh_score = sv_score x, vh_direction = sv_direction x, vh_magnitude = sv_magnitude x\<rparr>"

text \<open>\<open>min\<close> and \<open>max\<close> of a non-empty list.\<close>

definition observe :: "visual_script \<Rightarrow> visual_frame list \<Rightarrow> (int, visual_result) action" where
  "observe script frames =
     seqA (modifyA (\<lambda>batches_seen. batches_seen + 1))
     (bindA (getA id) (\<lambda>batches_seen.
        if scripted_failure (vs_fail_after_batch script) batches_seen then raiseA RuntimeError
        else
          case map vf_session_position_ms frames of
            [] \<Rightarrow> returnA \<lparr>vr_model_version = vs_model_version script, vr_events = [], vr_quality = []\<rparr>
          | p # ps \<Rightarrow>
              let from_ms = fold min ps p; to_ms = fold max ps p + 1;
                  events = map visual_of_script (filter (\<lambda>x. from_ms \<le> sv_start_ms x \<and> sv_start_ms x < to_ms)
                    (vs_events script))
              in returnA \<lparr>vr_model_version = vs_model_version script, vr_events = events,
                   vr_quality = [\<lparr>vq_start_ms = from_ms, vq_end_ms = to_ms,
                     vq_face_visibility = vs_face_visibility script, vq_mean_luminance = vs_mean_luminance script,
                     vq_framing_coverage = vs_framing_coverage script,
                     vq_landmark_confidence = vs_landmark_confidence script\<rparr>]\<rparr>))"

end
