(* ===== verification/DeterministicProperties.thy ===== *)
theory DeterministicProperties
  imports Deterministic StreamingProperties
begin

text \<open>
  A scripted presentation streamed through the transcript, and through the coordinator: when the words of
  the script follow one another, no hypothesis of the runtime is ever refused, whatever the windows, and
  after a last window that covers the script the transcript is the script, word for word and final.
\<close>

section \<open>The pipeline\<close>

text \<open>What the coordinator does to the transcript with one result (\<open>extend_speech\<close>, then
  \<open>coordinator_finalize_through\<close>).\<close>

definition absorb :: "assembler \<Rightarrow> transcript \<Rightarrow> speech_result \<Rightarrow> transcript result" where
  "absorb a tr r =
     bindR (mapR (assemble_token a) (sr_words r)) (\<lambda>tokens.
     bindR (with_provisional tr tokens) (\<lambda>tr'.
     bindR (finalized_frontier tr') (\<lambda>frontier.
       if sr_stable_through_ms r \<le> mt_ms frontier then Inr tr'
       else bindR (MonotonicTime (sr_stable_through_ms r)) (finalize_through tr'))))"

fun replay_script ::
  "assembler \<Rightarrow> speech_script \<Rightarrow> audio_window list \<Rightarrow> speech_runtime \<Rightarrow> transcript \<Rightarrow>
   (speech_runtime \<times> transcript) result" where
  "replay_script a script [] r tr = Inr (r, tr)"
| "replay_script a script (w # ws) r tr =
     (case transcribe script w r of
        (r', Inl e) \<Rightarrow> Inl e
      | (r', Inr res) \<Rightarrow> bindR (absorb a tr res) (\<lambda>tr'. replay_script a script ws r' tr'))"

text \<open>The same windows through the coordinator: the runtime answers, the coordinator takes the answer in.\<close>

fun replay_stream ::
  "coordinator_config \<Rightarrow> speech_script \<Rightarrow> audio_window list \<Rightarrow> speech_runtime \<Rightarrow> world \<Rightarrow>
   (speech_runtime \<times> world) result" where
  "replay_stream cfg script [] r w = Inr (r, w)"
| "replay_stream cfg script (x # xs) r w =
     (case transcribe script x r of
        (r', Inl e) \<Rightarrow> Inl e
      | (r', Inr res) \<Rightarrow>
          (case ingest_audio_end cfg ACCEPTED (Inr res) w of
             (w', Inl e) \<Rightarrow> Inl e
           | (w', Inr _) \<Rightarrow> replay_stream cfg script xs r' w'))"

section \<open>The coordinator does this to its transcript\<close>

text \<open>Everything but the two writes of the transcript leaves it alone.\<close>

abbreviation holding :: "transcript \<Rightarrow> world \<Rightarrow> bool" where
  "holding tr w \<equiv> ss_transcript (w_state w) = tr"

lemma preserves_run: "preserves P m \<Longrightarrow> m w = (w', r) \<Longrightarrow> P w \<Longrightarrow> P w'"
  using preservesD by fastforce

lemma bindA_returned:
  "bindA m f w = (w', Inr x) \<longleftrightarrow> (\<exists>w1 y. m w = (w1, Inr y) \<and> f y w1 = (w', Inr x))"
  by (auto simp: bindA_def split: prod.splits sum.splits)

lemma holding_writes:
  "preserves (holding tr) (publish e)" "preserves (holding tr) (put_speech_event k x)"
  "preserves (holding tr) (record_event x)" "preserves (holding tr) read_frontier"
  by (simp_all add: preserves_def publish_def put_speech_event_def modify_state_def record_event_def bindA_run
      ledger_action_def zoomA_def read_frontier_def split: sum.split prod.split)

lemma holding_publishes:
  "preserves (holding tr) (publish_speech es f)" "preserves (holding tr) (publish_transcript f)"
  unfolding publish_speech_def publish_transcript_def Let_def by (intro preserves_rules holding_writes)+

lemma holding_pauses: "preserves (holding tr) (derive_pauses cfg es)"
proof -
  have "preserves (holding tr) (derive_pause e)" for e
    unfolding derive_pause_def by (intro preserves_rules holding_writes)
  then have "preserves (holding tr) (case p of None \<Rightarrow> returnA []
      | Some prov \<Rightarrow> bindA (liftA (silent_pauses ts th prov r)) (\<lambda>pauses.
          bindA (forA derive_pause pauses) (\<lambda>derived. returnA (concat derived))))" for p ts th r
    by (cases p) (auto intro!: preserves_rules)
  then show ?thesis
    unfolding derive_pauses_def Let_def by (intro preserves_rules)
qed

lemma holding_item: "preserves (holding tr) (finalize_speech_item b it)"
  unfolding finalize_speech_item_def Let_def by (intro preserves_rules holding_writes)

text \<open>What follows the write of the finalised transcript.\<close>

definition after_settling :: "coordinator_config \<Rightarrow> int \<Rightarrow> (world, unit) action" where
  "after_settling cfg b =
     bindA (getA (\<lambda>w. ss_speech_events (w_state w))) (\<lambda>items.
     bindA (forA (finalize_speech_item b) items) (\<lambda>finalized.
     bindA (derive_pauses cfg (concat finalized)) (\<lambda>pauses.
     seqA (publish_transcript True) (publish_speech (concat finalized @ pauses) True))))"

lemma after_settling_holding: "preserves (holding tr) (after_settling cfg b)"
  unfolding after_settling_def by (intro preserves_rules holding_item holding_pauses holding_publishes)

lemma coordinator_finalize_run:
  "coordinator_finalize_through cfg b w =
     (case finalized_frontier (ss_transcript (w_state w)) of
        Inl e \<Rightarrow> (w, Inl e)
      | Inr frontier \<Rightarrow>
          if b \<le> mt_ms frontier then (w, Inr ())
          else (case bindR (MonotonicTime b) (finalize_through (ss_transcript (w_state w))) of
                  Inl e \<Rightarrow> (w, Inl e)
                | Inr tr \<Rightarrow> after_settling cfg b (w\<lparr>w_state := (w_state w)\<lparr>ss_transcript := tr\<rparr>\<rparr>)))"
  unfolding coordinator_finalize_through_def read_frontier_def frontier_now_def put_transcript_def
    after_settling_def [symmetric] Let_def
  by (cases "finalized_frontier (ss_transcript (w_state w))"; cases "MonotonicTime b")
    (simp_all add: bindA_run [where m = "getA x" for x] bindA_run [where m = "liftA x" for x]
      bindA_run [where m = "bindA x y" for x y] modify_state_def bindR_def del: MonotonicTime_Inr MonotonicTime_Inl split: sum.split)

lemma settled_transcript:
  assumes "coordinator_finalize_through cfg b w = (w', Inr ())"
  shows "bindR (finalized_frontier (ss_transcript (w_state w))) (\<lambda>frontier.
      if b \<le> mt_ms frontier then Inr (ss_transcript (w_state w))
      else bindR (MonotonicTime b) (finalize_through (ss_transcript (w_state w)))) = Inr (ss_transcript (w_state w'))"
proof -
  have "holding tr w'" if "after_settling cfg b (w\<lparr>w_state := (w_state w)\<lparr>ss_transcript := tr\<rparr>\<rparr>) = (w', Inr ())" for tr
    using preserves_run [OF after_settling_holding that, of tr] by simp
  with assms show ?thesis
    by (fastforce simp: coordinator_finalize_run split: sum.splits if_splits)
qed

lemma extended_transcript:
  assumes "extend_speech s w = (w', Inr ())"
  shows "with_provisional (ss_transcript (w_state w)) (asp_tokens s) = Inr (ss_transcript (w_state w'))"
proof -
  have rest: "preserves (holding tr) (seqA (bindA (forA (\<lambda>e. put_speech_event (event_id_value (se_id e)) e) es)
      (\<lambda>_. returnA ())) (modify_state (\<lambda>x. x\<lparr>ss_prosody := ss_prosody x @ ps\<rparr>)))" for tr es ps
    unfolding modify_state_def by (intro preserves_rules holding_writes preserves_modify) simp
  obtain tr where "with_provisional (ss_transcript (w_state w)) (asp_tokens s) = Inr tr"
      "seqA (bindA (forA (\<lambda>e. put_speech_event (event_id_value (se_id e)) e) (asp_events s)) (\<lambda>_. returnA ()))
        (modify_state (\<lambda>x. x\<lparr>ss_prosody := ss_prosody x @ asp_prosody s\<rparr>))
        (w\<lparr>w_state := (w_state w)\<lparr>ss_transcript := tr\<rparr>\<rparr>) = (w', Inr ())"
    using assms unfolding extend_speech_def put_transcript_def seqA_def [of "bindA (liftA x) y" for x y] bindA_returned [of "getA x" for x]
      bindA_returned [of "bindA x y" "\<lambda>_. z" for x y z] bindA_returned [of "liftA x" for x]
    by (auto simp: modify_state_def)
  with preserves_run [OF rest this(2), of tr] show ?thesis by simp
qed

lemma absorb_is_ingest:
  assumes "ingest_audio_end cfg v (Inr res) w = (w', Inr v')"
  shows "absorb (cc_speech_assembler cfg) (ss_transcript (w_state w)) res = Inr (ss_transcript (w_state w'))"
proof -
  let ?w1 = "w\<lparr>w_state := (w_state w)\<lparr>ss_in_flight := ss_in_flight (w_state w) - 1\<rparr>\<rparr>"
  obtain w2 w3 s where steps: "assemble_speech (cc_speech_assembler cfg) res = Inr s"
      "extend_speech s ?w1 = (w2, Inr ())" "publish_speech (asp_events s) False w2 = (w3, Inr ())"
      "coordinator_finalize_through cfg (asp_stable_through_ms s) w3 = (w', Inr ())"
    using assms unfolding ingest_audio_end_def sum.case seqA_def bindA_returned add_in_flight_def modify_state_def
    by (auto simp: bindA_returned)
  then have words: "mapR (assemble_token (cc_speech_assembler cfg)) (sr_words res) = Inr (asp_tokens s)"
      "asp_stable_through_ms s = sr_stable_through_ms res"
    by (auto simp: assemble_speech_def)
  have same: "ss_transcript (w_state w3) = ss_transcript (w_state w2)"
    by (rule preserves_run [OF holding_publishes(1) steps(3) refl])
  have "with_provisional (ss_transcript (w_state w)) (asp_tokens s) = Inr (ss_transcript (w_state w2))"
    using extended_transcript [OF steps(2)] by simp
  then show ?thesis
    unfolding absorb_def words(1) words(2) [symmetric] bindR_simps
    using settled_transcript [OF steps(4)] unfolding same by simp
qed

lemma replay_stream_transcript:
  assumes "replay_stream cfg script ws r w = Inr (r', w')"
  shows "replay_script (cc_speech_assembler cfg) script ws r (ss_transcript (w_state w)) = Inr (r', ss_transcript (w_state w'))"
  using assms
proof (induction ws arbitrary: r w)
  case (Cons x xs)
  obtain r1 res where heard: "transcribe script x r = (r1, Inr res)"
    using Cons.prems by (auto split: prod.splits sum.splits)
  then obtain w1 v where taken: "ingest_audio_end cfg ACCEPTED (Inr res) w = (w1, Inr v)"
      "replay_stream cfg script xs r1 w1 = Inr (r', w')"
    using Cons.prems by (auto split: prod.splits sum.splits)
  show ?case
    using Cons.IH [OF taken(2)] heard absorb_is_ingest [OF taken(1)] by simp
qed simp

text \<open>A result without events is taken in whenever its transcript is.\<close>

lemma publish_no_speech: "publish_speech [] f w = (w, Inr ())"
  by (simp add: publish_speech_def bindA_run)

lemma after_settling_words:
  assumes "ss_speech_events (w_state w) = []"
  shows "\<exists>w'. after_settling cfg b w = (w', Inr ()) \<and> ss_speech_events (w_state w') = []"
proof -
  have "derive_pauses cfg [] w = (w, Inr [])"
    using assms by (simp add: derive_pauses_def bindA_run Let_def borrowed_provenance_def)
  moreover have "\<exists>w'. publish_transcript True w = (w', Inr ()) \<and> ss_speech_events (w_state w') = []"
    using assms by (simp add: publish_transcript_def bindA_run Let_def publish_def)
  ultimately show ?thesis
    using assms by (auto simp: after_settling_def bindA_run publish_no_speech)
qed

lemma coordinator_finalize_words:
  assumes "bindR (finalized_frontier (ss_transcript (w_state w))) (\<lambda>frontier.
      if b \<le> mt_ms frontier then Inr (ss_transcript (w_state w))
      else bindR (MonotonicTime b) (finalize_through (ss_transcript (w_state w)))) = Inr tr"
    and "ss_speech_events (w_state w) = []"
  shows "\<exists>w'. coordinator_finalize_through cfg b w = (w', Inr ()) \<and> ss_speech_events (w_state w') = []"
proof -
  obtain frontier where f: "finalized_frontier (ss_transcript (w_state w)) = Inr frontier"
    using assms(1) by (cases "finalized_frontier (ss_transcript (w_state w))") simp_all
  show ?thesis
  proof (cases "b \<le> mt_ms frontier")
    case True
    then show ?thesis by (simp add: coordinator_finalize_run f assms(2))
  next
    case False
    with assms(1) f have "bindR (MonotonicTime b) (finalize_through (ss_transcript (w_state w))) = Inr tr" by simp
    then show ?thesis
      unfolding coordinator_finalize_run f sum.case if_not_P [OF False]
      by (simp only: sum.case) (rule after_settling_words, simp add: assms(2))
  qed
qed

lemma ingest_words:
  assumes "assemble_speech (cc_speech_assembler cfg) res = Inr s" and "asp_events s = []"
    and "ss_speech_events (w_state w) = []"
    and "absorb (cc_speech_assembler cfg) (ss_transcript (w_state w)) res = Inr tr"
  shows "\<exists>w'. ingest_audio_end cfg v (Inr res) w = (w', Inr v) \<and> ss_speech_events (w_state w') = []"
proof -
  have words: "mapR (assemble_token (cc_speech_assembler cfg)) (sr_words res) = Inr (asp_tokens s)"
      "asp_stable_through_ms s = sr_stable_through_ms res"
    using assms(1) by (auto simp: assemble_speech_def)
  then obtain tr1 where tr1: "with_provisional (ss_transcript (w_state w)) (asp_tokens s) = Inr tr1"
    using assms(4) by (auto simp: absorb_def)
  let ?w1 = "w\<lparr>w_state := (w_state w)\<lparr>ss_in_flight := ss_in_flight (w_state w) - 1\<rparr>\<rparr>"
  let ?w2 = "?w1\<lparr>w_state := (w_state ?w1)\<lparr>ss_transcript := tr1,
      ss_prosody := ss_prosody (w_state w) @ asp_prosody s\<rparr>\<rparr>"
  have "extend_speech s ?w1 = (?w2, Inr ())"
    by (simp add: extend_speech_def bindA_run put_transcript_def modify_state_def tr1 assms(2))
  moreover have "\<exists>w'. coordinator_finalize_through cfg (asp_stable_through_ms s) ?w2 = (w', Inr ()) \<and>
      ss_speech_events (w_state w') = []"
  proof (rule coordinator_finalize_words)
    show "bindR (finalized_frontier (ss_transcript (w_state ?w2))) (\<lambda>frontier.
        if asp_stable_through_ms s \<le> mt_ms frontier then Inr (ss_transcript (w_state ?w2))
        else bindR (MonotonicTime (asp_stable_through_ms s)) (finalize_through (ss_transcript (w_state ?w2)))) = Inr tr"
      using assms(4) unfolding absorb_def words(1) words(2) [symmetric] tr1 bindR_simps by (simp cong: if_cong)
  qed (simp add: assms(3))
  ultimately show ?thesis
    by (auto simp: ingest_audio_end_def bindA_run add_in_flight_def modify_state_def assms(1,2) publish_no_speech)
qed

section \<open>Scripts\<close>

definition follows :: "scripted_word \<Rightarrow> scripted_word \<Rightarrow> bool" where
  "follows v w \<longleftrightarrow> sw_end_ms v \<le> sw_start_ms w"

text \<open>Words one after the other, each with a duration, and each a word the assembler accepts.\<close>

definition speakable :: "assembler \<Rightarrow> speech_script \<Rightarrow> bool" where
  "speakable a script \<longleftrightarrow>
     sorted_wrt follows (sc_words script) \<and> 0 \<le> sc_instability_tail_ms script \<and>
     list_all (\<lambda>w. 0 \<le> sw_start_ms w \<and> sw_start_ms w < sw_end_ms w \<and>
       \<not> isl (assemble_token a (word_of_script w))) (sc_words script)"

definition token_for :: "assembler \<Rightarrow> bool \<Rightarrow> scripted_word \<Rightarrow> word_token" where
  "token_for a final w =
     (projr (assemble_token a (word_of_script w)))\<lparr>wt_status := if final then FINAL else PROVISIONAL\<rparr>"

lemma token_for:
  assumes "\<not> isl (assemble_token a (word_of_script w))"
  shows "assemble_token a (word_of_script w) = Inr (token_for a False w)"
    and "wf_token (token_for a f w)" "token_is_final (token_for a f w) = f"
    and "start_ms (wt_interval (token_for a f w)) = sw_start_ms w"
    and "end_ms (wt_interval (token_for a f w)) = sw_end_ms w"
    and "wt_raw_text (token_for a f w) = sw_text w"
    and "token_finalize (token_for a f w) = Inr (token_for a True w)"
proof -
  obtain t where t: "assemble_token a (word_of_script w) = Inr t" 
    using assms by (cases "assemble_token a (word_of_script w)") auto
  then have facts: "wt_status t = PROVISIONAL" "wt_raw_text t = sw_text w" "wt_raw_text t \<noteq> []"
      "interval_of (sw_start_ms w) (sw_end_ms w) = Inr (wt_interval t)"
    by (auto simp: assemble_token_def word_of_script_def WordToken_Inr)
  have tf: "token_for a f w = t\<lparr>wt_status := if f then FINAL else PROVISIONAL\<rparr>" for f
    by (simp add: token_for_def t)
  show "assemble_token a (word_of_script w) = Inr (token_for a False w)"
    using t facts(1) by (cases t) (simp add: token_for_def)
  show "wf_token (token_for a f w)" "token_is_final (token_for a f w) = f"
    "start_ms (wt_interval (token_for a f w)) = sw_start_ms w"
    "end_ms (wt_interval (token_for a f w)) = sw_end_ms w"
    "wt_raw_text (token_for a f w) = sw_text w"
    using facts interval_of_wf [OF facts(4)] interval_of_ends [OF facts(4)]
    by (simp_all add: tf wf_token_def token_is_final_def)
  show "token_finalize (token_for a f w) = Inr (token_for a True w)"
    using facts(3) by (cases t) (simp add: tf token_finalize_def token_is_final_def WordToken_def)
qed

lemma follows_total:
  "sorted_wrt follows ws \<Longrightarrow> v \<in> set ws \<Longrightarrow> w \<in> set ws \<Longrightarrow> v = w \<or> follows v w \<or> follows w v"
  by (induction ws) auto

text \<open>The words that are stable up to \<open>s\<close>, then those that are not and have begun before \<open>e\<close>.\<close>

lemma heard_split:
  assumes "sorted_wrt follows ws" and "list_all (\<lambda>w. sw_start_ms w < sw_end_ms w) ws"
  shows "filter (\<lambda>w. sw_end_ms w \<le> s) ws @ filter (\<lambda>w. sw_end_ms w > s \<and> sw_start_ms w < e) ws =
    filter (\<lambda>w. sw_end_ms w \<le> s \<or> sw_start_ms w < e) ws"
  using assms
proof (induction ws)
  case (Cons w ws)
  show ?case
  proof (cases "sw_end_ms w \<le> s")
    case True
    with Cons show ?thesis by simp
  next
    case False
    with Cons.prems have "filter (\<lambda>w. sw_end_ms w \<le> s) ws = []"
      by (fastforce simp: filter_empty_conv follows_def list_all_iff)
    with False Cons show ?thesis by simp
  qed
qed simp

section \<open>The transcript so far\<close>

definition heard :: "assembler \<Rightarrow> speech_script \<Rightarrow> int \<Rightarrow> int \<Rightarrow> word_token list" where
  "heard a script s e =
     map (\<lambda>w. token_for a (sw_end_ms w \<le> s) w)
       (filter (\<lambda>w. sw_end_ms w \<le> s \<or> sw_start_ms w < e) (sc_words script))"

lemma speakableD:
  assumes "speakable a script"
  shows "sorted_wrt follows (sc_words script)" "list_all (\<lambda>w. sw_start_ms w < sw_end_ms w) (sc_words script)"
    and "0 \<le> sc_instability_tail_ms script"
    and "w \<in> set (sc_words script) \<Longrightarrow> \<not> isl (assemble_token a (word_of_script w))"
    and "w \<in> set (sc_words script) \<Longrightarrow> 0 \<le> sw_start_ms w \<and> sw_start_ms w < sw_end_ms w"
  using assms by (auto simp: speakable_def list_all_iff)

lemma ordered_tokens:
  assumes "speakable a script"
  shows "sorted (map token_ordering (map (\<lambda>w. token_for a (f w) w) (filter P (sc_words script))))"
proof -
  have "sorted_wrt follows (filter P (sc_words script))"
    using speakableD(1) [OF assms] by (rule sorted_wrt_filter)
  moreover have "token_ordering (token_for a (f v) v) \<le> token_ordering (token_for a (f w) w)"
    if "v \<in> set (filter P (sc_words script))" "w \<in> set (filter P (sc_words script))" "follows v w" for v w
  proof -
    have v: "v \<in> set (sc_words script)" and w: "w \<in> set (sc_words script)" using that by auto
    have "sw_start_ms v < sw_start_ms w"
      using speakableD(5) [OF assms v] that(3) by (simp add: follows_def)
    then show ?thesis
      by (simp add: token_ordering_def token_for(4) [OF speakableD(4) [OF assms v]]
          token_for(4) [OF speakableD(4) [OF assms w]] less_eq_prod_def)
  qed
  ultimately have "sorted_wrt (\<lambda>v w. token_ordering (token_for a (f v) v) \<le> token_ordering (token_for a (f w) w))
      (filter P (sc_words script))"
    by (rule sorted_wrt_mono_rel [rotated])
  then show ?thesis by (simp add: sorted_wrt_map comp_def)
qed

lemma wf_heard: "speakable a script \<Longrightarrow> wf_transcript \<lparr>tr_tokens = heard a script s e\<rparr>"
  using ordered_tokens [of a script "\<lambda>w. sw_end_ms w \<le> s"]
  by (auto simp: wf_transcript_def heard_def token_for(2) speakableD(4))

lemma final_heard:
  assumes "speakable a script"
  shows "final_tokens \<lparr>tr_tokens = heard a script s e\<rparr> =
    map (token_for a True) (filter (\<lambda>w. sw_end_ms w \<le> s) (sc_words script))"
proof -
  have "filter (\<lambda>w. token_is_final (token_for a (sw_end_ms w \<le> s) w))
      (filter (\<lambda>w. sw_end_ms w \<le> s \<or> sw_start_ms w < e) (sc_words script)) =
    filter (\<lambda>w. sw_end_ms w \<le> s) (sc_words script)"
    using token_for(3) [OF speakableD(4) [OF assms]] by (auto intro!: filter_cong simp: filter_filter)
  then show ?thesis
    by (auto simp: final_tokens_def heard_def filter_map comp_def)
qed

lemma frontier_heard:
  assumes "speakable a script" and "0 \<le> b"
    and "\<And>w. w \<in> set (sc_words script) \<Longrightarrow> sw_end_ms w \<le> s \<Longrightarrow> sw_end_ms w \<le> b"
  shows "frontier_ms \<lparr>tr_tokens = heard a script s e\<rparr> \<le> b"
  using assms(2,3) by (auto simp: frontier_le_iff final_heard [OF assms(1)] token_for(5) [OF speakableD(4) [OF assms(1)]])

section \<open>One window\<close>

lemma frontier_of_heard:
  "speakable a script \<Longrightarrow> finalized_frontier \<lparr>tr_tokens = heard a script s e\<rparr> =
     Inr (MkTime (frontier_ms \<lparr>tr_tokens = heard a script s e\<rparr>))"
  by (rule finalized_frontier_eq [OF wf_heard])

lemma hear_more:
  assumes "speakable a script"
  shows "with_provisional \<lparr>tr_tokens = heard a script s e\<rparr>
      (map (token_for a False) (filter (\<lambda>w. sw_end_ms w > s \<and> sw_start_ms w < e') (sc_words script))) =
    Inr \<lparr>tr_tokens = heard a script s e'\<rparr>"
proof -
  let ?ws = "sc_words script" and ?tr = "\<lparr>tr_tokens = heard a script s e\<rparr>"
  let ?new = "filter (\<lambda>w. sw_end_ms w > s \<and> sw_start_ms w < e') ?ws"
  have "frontier_ms ?tr \<le> start_ms (wt_interval (token_for a False w))" if "w \<in> set ?new" for w
  proof -
    have w: "w \<in> set ?ws" "s < sw_end_ms w" using that by auto
    have "sw_end_ms v \<le> sw_start_ms w" if "v \<in> set ?ws" "sw_end_ms v \<le> s" for v
      using follows_total [OF speakableD(1) [OF assms] that(1) w(1)] speakableD(5) [OF assms that(1)] that(2) w(2)
      by (auto simp: follows_def)
    with speakableD(5) [OF assms w(1)] have "frontier_ms ?tr \<le> sw_start_ms w"
      by (intro frontier_heard [OF assms]) auto
    then show ?thesis by (simp add: token_for(4) [OF speakableD(4) [OF assms w(1)]])
  qed
  then have fresh: "\<not> (\<exists>t \<in> set (map (token_for a False) ?new). start_ms (wt_interval t) < frontier_ms ?tr)"
    by fastforce
  have inc: "sort_key token_ordering (map (token_for a False) ?new) = map (token_for a False) ?new"
    using ordered_tokens [OF assms, of "\<lambda>_. False"] by (intro sort_key_id_if_sorted) simp
  have "map (token_for a True) (filter (\<lambda>w. sw_end_ms w \<le> s) ?ws) @ map (token_for a False) ?new =
      map (\<lambda>w. token_for a (sw_end_ms w \<le> s) w) (filter (\<lambda>w. sw_end_ms w \<le> s) ?ws @ ?new)"
    by simp
  also have "\<dots> = heard a script s e'"
    unfolding heard_split [OF speakableD(1,2) [OF assms]] heard_def ..
  finally have joined: "final_tokens ?tr @ sort_key token_ordering (map (token_for a False) ?new) = heard a script s e'"
    unfolding final_heard [OF assms] inc .
  have "transcript_build (heard a script s e') = \<lparr>tr_tokens = heard a script s e'\<rparr>"
    using wf_heard [OF assms, of s e'] by (simp add: transcript_build_def wf_transcript_def sort_key_id_if_sorted)
  then show ?thesis
    unfolding with_provisional_eq [OF wf_heard [OF assms]] joined using fresh by simp
qed

lemma mapR_map_Inr:
  "(\<And>x. x \<in> set xs \<Longrightarrow> f (g x) = Inr (h x)) \<Longrightarrow> mapR f (map g xs) = Inr (map h xs)"
  by (induction xs) simp_all

lemma settle:
  assumes "speakable a script" and "frontier_ms \<lparr>tr_tokens = heard a script s e\<rparr> \<le> b" and "b \<le> e \<or> b \<le> 0"
  shows "finalize_through \<lparr>tr_tokens = heard a script s e\<rparr> (MkTime b) = Inr \<lparr>tr_tokens = heard a script (max s b) e\<rparr>"
proof -
  let ?ws = "sc_words script"
  have one: "(if end_ms (wt_interval (token_for a (sw_end_ms w \<le> s) w)) \<le> b
        then token_finalize (token_for a (sw_end_ms w \<le> s) w) else Inr (token_for a (sw_end_ms w \<le> s) w)) =
      Inr (token_for a (sw_end_ms w \<le> max s b) w)" if "w \<in> set ?ws" for w
    by (cases "sw_end_ms w \<le> s"; cases "sw_end_ms w \<le> b")
      (simp_all add: token_for(5,7) [OF speakableD(4) [OF assms(1) that]] le_max_iff_disj)
  have "mapR (\<lambda>t. if end_ms (wt_interval t) \<le> b then token_finalize t else Inr t) (heard a script s e) =
      Inr (map (\<lambda>w. token_for a (sw_end_ms w \<le> max s b) w)
        (filter (\<lambda>w. sw_end_ms w \<le> s \<or> sw_start_ms w < e) ?ws))"
    unfolding heard_def by (rule mapR_map_Inr) (rule one, simp)
  moreover have "filter (\<lambda>w. sw_end_ms w \<le> s \<or> sw_start_ms w < e) ?ws =
      filter (\<lambda>w. sw_end_ms w \<le> max s b \<or> sw_start_ms w < e) ?ws"
  proof (rule filter_cong [OF refl])
    fix w assume "w \<in> set ?ws"
    then have "0 \<le> sw_start_ms w \<and> sw_start_ms w < sw_end_ms w" by (rule speakableD(5) [OF assms(1)])
    then show "(sw_end_ms w \<le> s \<or> sw_start_ms w < e) = (sw_end_ms w \<le> max s b \<or> sw_start_ms w < e)"
      using assms(3) by linarith
  qed
  ultimately have marked: "mapR (\<lambda>t. if end_ms (wt_interval t) \<le> b then token_finalize t else Inr t)
      (heard a script s e) = Inr (heard a script (max s b) e)"
    by (simp only: heard_def)
  have open_bound: "\<not> b < frontier_ms \<lparr>tr_tokens = heard a script s e\<rparr>" using assms(2) by simp
  show ?thesis
    unfolding finalize_through_eq [OF wf_heard [OF assms(1)]] monotonic_time.sel transcript.select_convs marked
      if_not_P [OF open_bound] bindR_simps ..
qed

definition window_end :: "audio_window \<Rightarrow> int" where
  "window_end w = aw_session_position_ms w + aw_duration_ms w"

lemma transcribe_run:
  assumes "sc_fail_after_window script = None"
  shows "transcribe script w r =
    (let t = stable_through script (window_end w) (aw_is_final_window w)
     in (r\<lparr>dr_windows_seen := dr_windows_seen r + 1, dr_stable_ms := max (dr_stable_ms r) t\<rparr>,
         Inr \<lparr>sr_model_version = sc_model_version script,
           sr_words = map word_of_script (filter (\<lambda>x. sw_end_ms x > dr_stable_ms r \<and> sw_start_ms x < window_end w) (sc_words script)),
           sr_events = map event_of_script (filter (\<lambda>x. sx_end_ms x > dr_stable_ms r \<and> sx_start_ms x < window_end w) (sc_events script)),
           sr_prosody = scripted_prosody script (aw_session_position_ms w) (window_end w),
           sr_stable_through_ms = t\<rparr>))"
  by (simp add: transcribe_def bindA_run scripted_failure_def assms window_end_def Let_def)

text \<open>A window moves the stable point and hears up to its own end, nothing else.\<close>

lemma absorb_window:
  assumes "speakable a script" and "sc_fail_after_window script = None" and "0 \<le> dr_stable_ms r"
  shows "\<exists>r' res. transcribe script w r = (r', Inr res) \<and>
    absorb a \<lparr>tr_tokens = heard a script (dr_stable_ms r) e\<rparr> res =
      Inr \<lparr>tr_tokens = heard a script (dr_stable_ms r') (window_end w)\<rparr> \<and>
    dr_stable_ms r' = max (dr_stable_ms r) (stable_through script (window_end w) (aw_is_final_window w))"
proof -
  let ?s = "dr_stable_ms r" and ?e = "window_end w"
  let ?t = "stable_through script ?e (aw_is_final_window w)"
  let ?new = "filter (\<lambda>x. sw_end_ms x > ?s \<and> sw_start_ms x < ?e) (sc_words script)"
  let ?tr = "\<lparr>tr_tokens = heard a script ?s ?e\<rparr>"
  have words: "mapR (assemble_token a) (map word_of_script ?new) = Inr (map (token_for a False) ?new)"
    by (rule mapR_map_Inr) (simp add: token_for(1) speakableD(4) [OF assms(1)])
  have fr: "frontier_ms ?tr \<le> ?s"
    by (rule frontier_heard [OF assms(1,3)]) simp
  have reach: "?t \<le> ?e \<or> ?t \<le> 0"
    using speakableD(3) [OF assms(1)] by (auto simp: stable_through_def)
  have nonneg: "0 \<le> frontier_ms ?tr" by (rule frontier_nonneg)
  have "(if ?t \<le> frontier_ms ?tr then Inr ?tr else bindR (MonotonicTime ?t) (finalize_through ?tr)) =
      Inr \<lparr>tr_tokens = heard a script (max ?s ?t) ?e\<rparr>"
  proof (cases "?t \<le> frontier_ms ?tr")
    case True
    then have "max ?s ?t = ?s" using fr by simp
    with True show ?thesis by simp
  next
    case False
    then have "MonotonicTime ?t = Inr (MkTime ?t)" using nonneg by simp
    with False settle [OF assms(1) _ reach, of ?s] show ?thesis by simp
  qed
  then have "absorb a \<lparr>tr_tokens = heard a script ?s e\<rparr> \<lparr>sr_model_version = sc_model_version script,
      sr_words = map word_of_script ?new, sr_events = evs, sr_prosody = ps, sr_stable_through_ms = ?t\<rparr> =
    Inr \<lparr>tr_tokens = heard a script (max ?s ?t) ?e\<rparr>" for evs ps
    unfolding absorb_def speech_result.select_convs words bindR_simps hear_more [OF assms(1)]
      frontier_of_heard [OF assms(1)] monotonic_time.sel .
  then show ?thesis
    unfolding transcribe_run [OF assms(2)] Let_def by (intro exI conjI) (rule refl, simp_all)
qed

lemma replay_heard:
  assumes "speakable a script" and "sc_fail_after_window script = None" and "0 \<le> dr_stable_ms r"
  shows "\<exists>r' e'. replay_script a script ws r \<lparr>tr_tokens = heard a script (dr_stable_ms r) e\<rparr> =
      Inr (r', \<lparr>tr_tokens = heard a script (dr_stable_ms r') e'\<rparr>) \<and> 0 \<le> dr_stable_ms r'"
  using assms(3)
proof (induction ws arbitrary: r e)
  case Nil
  then show ?case by auto
next
  case (Cons w ws)
  obtain r1 res where one: "transcribe script w r = (r1, Inr res)"
      "absorb a \<lparr>tr_tokens = heard a script (dr_stable_ms r) e\<rparr> res =
        Inr \<lparr>tr_tokens = heard a script (dr_stable_ms r1) (window_end w)\<rparr>"
      "dr_stable_ms r1 = max (dr_stable_ms r) (stable_through script (window_end w) (aw_is_final_window w))"
    using absorb_window [OF assms(1,2) Cons.prems, of w e] by - (elim exE conjE, rule that, assumption+)
  have "0 \<le> dr_stable_ms r1" using one(3) Cons.prems by simp
  from Cons.IH [OF this, of "window_end w"] show ?case by (simp add: one(1,2))
qed

lemma replay_append:
  "replay_script a script (ws @ vs) r tr =
     bindR (replay_script a script ws r tr) (\<lambda>(r', tr'). replay_script a script vs r' tr')"
proof (induction ws arbitrary: r tr)
  case (Cons w ws)
  then show ?case
    by (cases "transcribe script w r"; cases "snd (transcribe script w r)") (auto simp: bindR_def split: sum.splits)
qed simp

section \<open>The whole presentation\<close>

text \<open>
  C20: The transcript of a replay is the script. Take a script whose words follow one another without
  overlap, each with a duration and each accepted by the assembler, with a tail that is not negative and no
  failure scripted. Whatever windows the runtime is handed, overlapping, out of order or with gaps, no
  result is refused by the transcript; and once a final window reaches past the last word, the transcript
  holds every word of the script exactly once, in order, with its text unchanged, and every one of them is
  final. A coordinator that takes every window in (none stops in the assembly of an event or of a prosody
  reading) and starts with an empty transcript holds exactly that transcript.
\<close>

theorem replay_is_script:
  assumes "speakable (cc_speech_assembler cfg) script" and "sc_fail_after_window script = None"
    and "aw_is_final_window x" and "list_all (\<lambda>v. sw_end_ms v \<le> window_end x) (sc_words script)"
  shows "\<exists>r tr. replay_script (cc_speech_assembler cfg) script (xs @ [x]) SpeechRuntime \<lparr>tr_tokens = []\<rparr> = Inr (r, tr) \<and>
    map wt_raw_text (tr_tokens tr) = map sw_text (sc_words script) \<and>
    map (\<lambda>t. start_ms (wt_interval t)) (tr_tokens tr) = map sw_start_ms (sc_words script) \<and>
    list_all token_is_final (tr_tokens tr) \<and>
    (\<forall>w r' w'. ss_transcript (w_state w) = \<lparr>tr_tokens = []\<rparr> \<longrightarrow>
       replay_stream cfg script (xs @ [x]) SpeechRuntime w = Inr (r', w') \<longrightarrow> r' = r \<and> ss_transcript (w_state w') = tr)"
proof -
  let ?a = "cc_speech_assembler cfg"
  have "filter (\<lambda>v. sw_end_ms v \<le> 0 \<or> sw_start_ms v < 0) (sc_words script) = []"
    using speakableD(5) [OF assms(1)] by (fastforce simp: filter_empty_conv)
  then have empty: "heard ?a script (dr_stable_ms SpeechRuntime) 0 = []"
    by (simp add: heard_def SpeechRuntime_def)
  obtain r1 e1 where one: "replay_script ?a script xs SpeechRuntime \<lparr>tr_tokens = []\<rparr> =
      Inr (r1, \<lparr>tr_tokens = heard ?a script (dr_stable_ms r1) e1\<rparr>)" "0 \<le> dr_stable_ms r1"
    using replay_heard [OF assms(1,2), of SpeechRuntime xs 0] empty by (auto simp: SpeechRuntime_def)
  obtain r2 res where two: "transcribe script x r1 = (r2, Inr res)"
      "absorb ?a \<lparr>tr_tokens = heard ?a script (dr_stable_ms r1) e1\<rparr> res =
        Inr \<lparr>tr_tokens = heard ?a script (dr_stable_ms r2) (window_end x)\<rparr>"
      "dr_stable_ms r2 = max (dr_stable_ms r1) (stable_through script (window_end x) (aw_is_final_window x))"
    using absorb_window [OF assms(1,2) one(2), of x e1] by - (elim exE conjE, rule that, assumption+)
  have past: "sw_end_ms v \<le> dr_stable_ms r2" if "v \<in> set (sc_words script)" for v
  proof -
    have "stable_through script (window_end x) (aw_is_final_window x) = window_end x"
      using assms(3) by (simp add: stable_through_def)
    with assms(4) that two(3) show ?thesis by (simp add: list_all_iff le_max_iff_disj)
  qed
  have "filter (\<lambda>v. sw_end_ms v \<le> dr_stable_ms r2 \<or> sw_start_ms v < window_end x) (sc_words script) = sc_words script"
    using past by (intro filter_True) simp
  then have all: "heard ?a script (dr_stable_ms r2) (window_end x) = map (token_for ?a True) (sc_words script)"
    using past by (simp add: heard_def)
  have run: "replay_script ?a script (xs @ [x]) SpeechRuntime \<lparr>tr_tokens = []\<rparr> =
      Inr (r2, \<lparr>tr_tokens = map (token_for ?a True) (sc_words script)\<rparr>)"
    by (simp add: replay_append one(1) two(1,2) all)
  have carried: "r' = r2 \<and> ss_transcript (w_state w') = \<lparr>tr_tokens = map (token_for ?a True) (sc_words script)\<rparr>"
    if "ss_transcript (w_state w) = \<lparr>tr_tokens = []\<rparr>"
      "replay_stream cfg script (xs @ [x]) SpeechRuntime w = Inr (r', w')" for w r' w'
    using replay_stream_transcript [OF that(2)] that(1) run by simp
  note facts = token_for [OF speakableD(4) [OF assms(1)]]
  have "map wt_raw_text (map (token_for ?a True) (sc_words script)) = map sw_text (sc_words script)"
      "map (\<lambda>t. start_ms (wt_interval t)) (map (token_for ?a True) (sc_words script)) = map sw_start_ms (sc_words script)"
      "list_all token_is_final (map (token_for ?a True) (sc_words script))"
    by (simp_all add: facts(3,4,6) list_all_iff)
  with run carried show ?thesis
    by (intro exI [of _ r2] exI [of _ "\<lparr>tr_tokens = map (token_for ?a True) (sc_words script)\<rparr>"])
      (simp only: transcript.select_convs, blast)
qed

text \<open>Two words: the first is heard twice and finalised by the second window, the other by the last.\<close>

definition sample_script :: speech_script where
  "sample_script = \<lparr>sc_words = [\<lparr>sw_text = ''hola'', sw_start_ms = 0, sw_end_ms = 300, sw_score = 1\<rparr>,
       \<lparr>sw_text = ''todos'', sw_start_ms = 320, sw_end_ms = 800, sw_score = 1/2\<rparr>],
     sc_events = [], sc_model_version = ModelVersionId ''deterministic-speech-v1'',
     sc_instability_tail_ms = DEFAULT_INSTABILITY_TAIL_MS, sc_fail_after_window = None\<rparr>"

definition script_window :: "int \<Rightarrow> int \<Rightarrow> bool \<Rightarrow> audio_window" where
  "script_window from_ms to_ms is_last = \<lparr>aw_session_position_ms = from_ms, aw_duration_ms = to_ms - from_ms,
     aw_sample_rate_hz = 16000, aw_samples = [], aw_is_final_window = is_last\<rparr>"

lemma prosody_taken:
  assumes "0 \<le> aw_session_position_ms x" and "aw_session_position_ms x \<le> window_end x"
  shows "\<exists>ps. mapR (assemble_prosody (sample_assembler []) prov)
    (scripted_prosody script (aw_session_position_ms x) (window_end x)) = Inr ps"
proof -
  obtain iv where "interval_of (aw_session_position_ms x) (window_end x) = Inr iv"
    using assms by (auto simp: interval_of_Inr)
  then show ?thesis
    by (simp add: scripted_prosody_def Let_def assemble_prosody_def sample_assembler_def calibrate_def confidence_raw_def
        clamp_unit_def Confidence_def prosody_measured_def prosody_unavailable_def ProsodyReading_def)
qed

text \<open>A script of words alone goes through the coordinator whole.\<close>

lemma words_carried:
  assumes "replay_script (sample_assembler []) script xs r tr = Inr (r', tr')" and "sc_events script = []"
    and "list_all (\<lambda>x. 0 \<le> aw_session_position_ms x \<and> aw_session_position_ms x \<le> window_end x) xs"
    and "sc_fail_after_window script = None" and "ss_transcript (w_state w) = tr" and "ss_speech_events (w_state w) = []"
  shows "\<exists>w'. replay_stream sample_cfg script xs r w = Inr (r', w')"
  using assms(1,3,5,6)
proof (induction xs arbitrary: r tr w)
  case (Cons x xs)
  obtain r1 res where heard: "transcribe script x r = (r1, Inr res)"
    using transcribe_run [OF assms(4), of x r] by (simp add: Let_def)
  then have res: "sr_events res = []" "sr_prosody res = scripted_prosody script (aw_session_position_ms x) (window_end x)"
    using assms(2) by (auto simp: transcribe_run [OF assms(4)] Let_def)
  obtain tr1 where tr1: "absorb (sample_assembler []) tr res = Inr tr1"
      "replay_script (sample_assembler []) script xs r1 tr1 = Inr (r', tr')"
    using Cons.prems(1) heard by auto
  obtain prov where prov: "speech_provenance (sample_assembler []) res = Inr prov"
    by (simp add: speech_provenance_def make_provenance_def sample_assembler_def Identifier_def py_strip_Nil_iff
        py_isspace_def)
  obtain ps where ps: "mapR (assemble_prosody (sample_assembler []) prov) (sr_prosody res) = Inr ps"
    unfolding res(2) using prosody_taken [of x prov script] Cons.prems(2) by auto
  obtain tokens where "mapR (assemble_token (sample_assembler [])) (sr_words res) = Inr tokens"
    using tr1(1) by (auto simp: absorb_def)
  then have "assemble_speech (cc_speech_assembler sample_cfg) res = Inr \<lparr>asp_tokens = tokens, asp_events = [],
      asp_prosody = ps, asp_stable_through_ms = sr_stable_through_ms res\<rparr>"
    by (simp add: sample_cfg_asm assemble_speech_def prov ps res(1))
  from ingest_words [OF this _ Cons.prems(4)] tr1(1) Cons.prems(3) obtain w1 where
      w1: "ingest_audio_end sample_cfg ACCEPTED (Inr res) w = (w1, Inr ACCEPTED)" "ss_speech_events (w_state w1) = []"
    by (auto simp: sample_cfg_asm)
  have "ss_transcript (w_state w1) = tr1"
    using absorb_is_ingest [OF w1(1)] tr1(1) Cons.prems(3) by (simp add: sample_cfg_asm)
  with Cons.IH [OF tr1(2) _ _ w1(2)] Cons.prems(2) show ?case by (simp add: heard w1(1))
qed simp

theorem replay_is_script_witness:
  "\<exists>r w. replay_stream sample_cfg sample_script
       [script_window 0 400 False, script_window 300 710 False, script_window 600 900 True] SpeechRuntime
       sample_world = Inr (r, w) \<and>
     map wt_raw_text (tr_tokens (ss_transcript (w_state w))) = [''hola'', ''todos''] \<and>
     list_all token_is_final (tr_tokens (ss_transcript (w_state w)))"
proof -
  have spans: "\<exists>iv. interval_of 0 300 = Inr iv" "\<exists>iv. interval_of 320 800 = Inr iv"
    by (simp_all add: interval_of_Inr)
  obtain c1 c2 where scores: "Confidence 1 RAW = Inr c1" "Confidence (1 / 2) RAW = Inr c2"
    by (simp add: Confidence_def)
  from spans have "speakable (cc_speech_assembler sample_cfg) sample_script"
    by (auto simp: sample_cfg_asm scores speakable_def sample_script_def follows_def DEFAULT_INSTABILITY_TAIL_MS_def assemble_token_def
        word_of_script_def sample_assembler_def calibrate_def derive_token_id_total
        confidence_raw_def clamp_unit_def WordToken_def)
  moreover have "sc_fail_after_window sample_script = None" by (simp add: sample_script_def)
  moreover have "aw_is_final_window (script_window 600 900 True)" by (simp add: script_window_def)
  moreover have "list_all (\<lambda>x. sw_end_ms x \<le> window_end (script_window 600 900 True)) (sc_words sample_script)"
    by (simp add: sample_script_def script_window_def window_end_def)
  ultimately obtain r tr where script: "replay_script (cc_speech_assembler sample_cfg) sample_script
      ([script_window 0 400 False, script_window 300 710 False] @ [script_window 600 900 True]) SpeechRuntime
      \<lparr>tr_tokens = []\<rparr> = Inr (r, tr)" "map wt_raw_text (tr_tokens tr) = map sw_text (sc_words sample_script)"
      "list_all token_is_final (tr_tokens tr)"
    and carried: "\<And>w r' w'. ss_transcript (w_state w) = \<lparr>tr_tokens = []\<rparr> \<Longrightarrow> replay_stream sample_cfg sample_script
      ([script_window 0 400 False, script_window 300 710 False] @ [script_window 600 900 True]) SpeechRuntime w =
      Inr (r', w') \<Longrightarrow> r' = r \<and> ss_transcript (w_state w') = tr"
    using replay_is_script by metis
  have new: "ss_transcript (w_state sample_world) = \<lparr>tr_tokens = []\<rparr>" "ss_speech_events (w_state sample_world) = []"
    by (simp_all add: sample_world_def new_world_def fresh_world_def StreamingState_def)
  have "\<exists>w'. replay_stream sample_cfg sample_script
      ([script_window 0 400 False, script_window 300 710 False] @ [script_window 600 900 True]) SpeechRuntime sample_world =
      Inr (r, w')"
    using script(1) new unfolding sample_cfg_asm(1)
    by (rule_tac words_carried) (simp_all add: sample_script_def script_window_def window_end_def)
  then obtain w' where w': "replay_stream sample_cfg sample_script
      ([script_window 0 400 False, script_window 300 710 False] @ [script_window 600 900 True]) SpeechRuntime sample_world =
      Inr (r, w')" by blast
  moreover have "ss_transcript (w_state w') = tr" using carried [OF new(1) w'] by blast
  moreover have "map sw_text (sc_words sample_script) = [''hola'', ''todos'']" by (simp add: sample_script_def)
  ultimately show ?thesis using script(2,3) by (intro exI [of _ r] exI [of _ w']) simp
qed

section \<open>Words that overlap\<close>

text \<open>Of two overlapping words the first is final while the second is not yet: the second is emitted again
  with the next window, begins before the frontier, and the whole window is refused.\<close>

definition overlapping_script :: speech_script where
  "overlapping_script = sample_script\<lparr>sc_words := [\<lparr>sw_text = ''hola'', sw_start_ms = 0, sw_end_ms = 300, sw_score = 1\<rparr>,
     \<lparr>sw_text = ''todos'', sw_start_ms = 200, sw_end_ms = 600, sw_score = 1\<rparr>]\<rparr>"

lemma overlapping_script_refused:
  "replay_script (sample_assembler []) overlapping_script [script_window 0 700 False, script_window 700 1000 False]
     SpeechRuntime \<lparr>tr_tokens = []\<rparr> = Inl (DomainError TranscriptViolation)"
proof -
  have spans: "interval_of 0 300 = Inr \<lparr>iv_start = MkTime 0, iv_end = MkTime 300, iv_tolerance_ms = 250\<rparr>"
      "interval_of 200 600 = Inr \<lparr>iv_start = MkTime 200, iv_end = MkTime 600, iv_tolerance_ms = 250\<rparr>"
    by (simp_all add: interval_of_Inr)
  show ?thesis
    by (simp add: overlapping_script_def sample_script_def script_window_def transcribe_def bindA_run scripted_failure_def
        stable_through_def SpeechRuntime_def DEFAULT_INSTABILITY_TAIL_MS_def absorb_def word_of_script_def assemble_token_def
        sample_assembler_def calibrate_def derive_token_id_total confidence_raw_def clamp_unit_def WordToken_def spans
        with_provisional_def finalized_frontier_def final_tokens_def token_is_final_def token_ordering_def max_default_def
        finalize_through_def token_finalize_def Confidence_def Let_def)
qed

end
