(* ===== verification/SqlRepositories.thy ===== *)
theory SqlRepositories
  imports EvidenceRows
begin

text \<open>
  The PostgreSQL repositories (\<open>postgres/repositories.py\<close>, with the deletion of
  \<open>postgres/evidence_repository.py\<close>). The database is a service outside the repository: its state is a
  type variable, and its statements are a record of functions, an argument of every definition. A table
  is read as the list of its rows in the order a query without ORDER BY happens to give them; the WHERE
  clauses are written out. A transaction that raises leaves the state it started from.
\<close>

section \<open>The database\<close>

record claim_row =
  icrow_application_id :: string
  icrow_key :: string
  icrow_session_id :: string

record audit_row =
  urow_actor :: string
  urow_action :: string
  urow_resource :: string
  urow_tenant_id :: "string option"
  urow_timestamp_ms :: int
  urow_trace_id :: string
  urow_outcome :: string
  urow_detail :: string

datatype evidence_row =
    TokenRow token_row
  | SpeechRow speech_event_row
  | VisualRow visual_event_row
  | ProsodyRow prosody_row
  | AssessmentRow assessment_row
  | AvailabilityRow availability_row
  | PairRow cooccurrence_row

datatype evidence_table =
    WORD_TOKEN | SPEECH_EVENT | VISUAL_EVENT | PROSODY_READING | QUALITY_ASSESSMENT | MODALITY_AVAILABILITY
  | COOCCURRENCE

fun table_of :: "evidence_row \<Rightarrow> evidence_table" where
  "table_of (TokenRow _) = WORD_TOKEN"
| "table_of (SpeechRow _) = SPEECH_EVENT"
| "table_of (VisualRow _) = VISUAL_EVENT"
| "table_of (ProsodyRow _) = PROSODY_READING"
| "table_of (AssessmentRow _) = QUALITY_ASSESSMENT"
| "table_of (AvailabilityRow _) = MODALITY_AVAILABILITY"
| "table_of (PairRow _) = COOCCURRENCE"

fun run_of_row :: "evidence_row \<Rightarrow> string" where
  "run_of_row (TokenRow r) = trow_run_id r"
| "run_of_row (SpeechRow r) = erow_run_id r"
| "run_of_row (VisualRow r) = erow_run_id r"
| "run_of_row (ProsodyRow r) = prow_run_id r"
| "run_of_row (AssessmentRow r) = arow_run_id r"
| "run_of_row (AvailabilityRow r) = mrow_run_id r"
| "run_of_row (PairRow r) = xrow_run_id r"

fun tenant_of_row :: "evidence_row \<Rightarrow> string" where
  "tenant_of_row (TokenRow r) = trow_tenant_id r"
| "tenant_of_row (SpeechRow r) = erow_tenant_id r"
| "tenant_of_row (VisualRow r) = erow_tenant_id r"
| "tenant_of_row (ProsodyRow r) = prow_tenant_id r"
| "tenant_of_row (AssessmentRow r) = arow_tenant_id r"
| "tenant_of_row (AvailabilityRow r) = mrow_tenant_id r"
| "tenant_of_row (PairRow r) = xrow_tenant_id r"

text \<open>Rows read, \<open>merge\<close>, \<open>add\<close> with its commit (None: an \<open>IntegrityError\<close>), and \<open>delete ... where\<close> with
  its row count.\<close>

record 'd database =
  db_sessions :: "'d \<Rightarrow> session_row list"
  db_consents :: "'d \<Rightarrow> consent_row list"
  db_claims :: "'d \<Rightarrow> claim_row list"
  db_runs :: "'d \<Rightarrow> run_row list"
  db_documents :: "'d \<Rightarrow> document_row list"
  db_evidence :: "'d \<Rightarrow> evidence_row list"
  db_merge_session :: "'d \<Rightarrow> session_row \<Rightarrow> 'd"
  db_merge_consent :: "'d \<Rightarrow> consent_row \<Rightarrow> 'd"
  db_merge_run :: "'d \<Rightarrow> run_row \<Rightarrow> 'd"
  db_add_session :: "'d \<Rightarrow> session_row \<Rightarrow> 'd option"
  db_add_consent :: "'d \<Rightarrow> consent_row \<Rightarrow> 'd option"
  db_add_run :: "'d \<Rightarrow> run_row \<Rightarrow> 'd option"
  db_add_claim :: "'d \<Rightarrow> claim_row \<Rightarrow> 'd option"
  db_delete_evidence :: "'d \<Rightarrow> evidence_table \<Rightarrow> string list \<Rightarrow> string \<Rightarrow> int \<times> 'd"
  db_delete_document :: "'d \<Rightarrow> string \<Rightarrow> string \<Rightarrow> int \<times> 'd"

definition IntegrityError :: exn where
  "IntegrityError = OtherError ''IntegrityError''"

section \<open>Sessions\<close>

definition consent_for :: "'d database \<Rightarrow> 'd \<Rightarrow> string \<Rightarrow> consent_row option" where
  "consent_for db d session = find (\<lambda>c. crow_session_id c = session) (db_consents db d)"

definition pg_add :: "'d database \<Rightarrow> 'd \<Rightarrow> analysis_session \<Rightarrow> 'd result" where
  "pg_add db d s =
     (case db_add_session db d (session_to_row s) of
        None \<Rightarrow> Inl IntegrityError
      | Some d1 \<Rightarrow>
          (case as_consent s of
             None \<Rightarrow> Inr d1
           | Some r \<Rightarrow>
               (case db_add_consent db d1 (consent_to_row (as_id s) r) of
                  None \<Rightarrow> Inl IntegrityError
                | Some d2 \<Rightarrow> Inr d2)))"

definition pg_get ::
  "py_conversions \<Rightarrow> 'd database \<Rightarrow> 'd \<Rightarrow> tenant_id \<Rightarrow> session_id \<Rightarrow> analysis_session option result" where
  "pg_get py db d tenant i =
     (case find (\<lambda>row. srow_tenant_id row = tenant_id_value tenant \<and> srow_id row = session_id_value i) (db_sessions db d) of
        None \<Rightarrow> Inr None
      | Some row \<Rightarrow> bindR (row_to_session py row (consent_for db d (session_id_value i))) (\<lambda>s. Inr (Some s)))"

definition pg_save :: "'d database \<Rightarrow> 'd \<Rightarrow> analysis_session \<Rightarrow> 'd" where
  "pg_save db d s =
     (let d1 = db_merge_session db d (session_to_row s) in
      case as_consent s of
        None \<Rightarrow> d1
      | Some r \<Rightarrow> db_merge_consent db d1 (consent_to_row (as_id s) r))"

definition pg_find_by_idempotency_key ::
  "py_conversions \<Rightarrow> 'd database \<Rightarrow> 'd \<Rightarrow> application_id \<Rightarrow> string \<Rightarrow> analysis_session option result" where
  "pg_find_by_idempotency_key py db d app key =
     (case find (\<lambda>c. icrow_application_id c = application_id_value app \<and> icrow_key c = key) (db_claims db d) of
        None \<Rightarrow> Inr None
      | Some claim \<Rightarrow>
          (case find (\<lambda>row. srow_id row = icrow_session_id claim \<and> srow_application_id row = application_id_value app)
              (db_sessions db d) of
             None \<Rightarrow> Inr None
           | Some row \<Rightarrow> bindR (row_to_session py row (consent_for db d (srow_id row))) (\<lambda>s. Inr (Some s))))"

definition pg_claim_idempotency_key :: "'d database \<Rightarrow> 'd \<Rightarrow> application_id \<Rightarrow> string \<Rightarrow> session_id \<Rightarrow> bool \<times> 'd" where
  "pg_claim_idempotency_key db d app key i =
     (case db_add_claim db d \<lparr>icrow_application_id = application_id_value app, icrow_key = key,
         icrow_session_id = session_id_value i\<rparr> of
        None \<Rightarrow> (False, d)
      | Some d' \<Rightarrow> (True, d'))"

section \<open>Runs\<close>

definition pg_run_add :: "'d database \<Rightarrow> 'd \<Rightarrow> processing_run \<Rightarrow> 'd result" where
  "pg_run_add db d run = (case db_add_run db d (run_to_row run) of None \<Rightarrow> Inl IntegrityError | Some d' \<Rightarrow> Inr d')"

definition pg_run_get :: "'d database \<Rightarrow> 'd \<Rightarrow> run_id \<Rightarrow> processing_run option result" where
  "pg_run_get db d i =
     (case find (\<lambda>row. rrow_id row = run_id_value i) (db_runs db d) of
        None \<Rightarrow> Inr None
      | Some row \<Rightarrow> bindR (row_to_run row) (\<lambda>r. Inr (Some r)))"

definition pg_run_save :: "'d database \<Rightarrow> 'd \<Rightarrow> processing_run \<Rightarrow> 'd" where
  "pg_run_save db d run = db_merge_run db d (run_to_row run)"

text \<open>\<open>ORDER BY started_at_ms DESC LIMIT 1\<close>: rows that started together come in any order, here the one
  of the table.\<close>

definition pg_latest_for_session :: "'d database \<Rightarrow> 'd \<Rightarrow> session_id \<Rightarrow> processing_run option result" where
  "pg_latest_for_session db d i =
     (case sort_key (\<lambda>row. - rrow_started_at_ms row) (filter (\<lambda>row. rrow_session_id row = session_id_value i) (db_runs db d)) of
        [] \<Rightarrow> Inr None
      | row # _ \<Rightarrow> bindR (row_to_run row) (\<lambda>r. Inr (Some r)))"

section \<open>The audit log\<close>

text \<open>The rows of the table in the order of their serial numbers.\<close>

definition pg_record :: "audit_row list \<Rightarrow> audit_record \<Rightarrow> audit_row list" where
  "pg_record rows e =
     rows @ [\<lparr>urow_actor = au_actor e, urow_action = au_action e, urow_resource = au_resource e,
       urow_tenant_id = map_option tenant_id_value (au_tenant e), urow_timestamp_ms = au_timestamp_ms e,
       urow_trace_id = au_trace_id e, urow_outcome = au_outcome e, urow_detail = au_detail e\<rparr>]"

definition audit_of_row :: "audit_row \<Rightarrow> audit_record result" where
  "audit_of_row row =
     bindR (case urow_tenant_id row of
        None \<Rightarrow> Inr None
      | Some t \<Rightarrow> if t = [] then Inr None else bindR (Identifier TenantId t) (\<lambda>x. Inr (Some x))) (\<lambda>tenant.
     Inr \<lparr>au_actor = urow_actor row, au_action = urow_action row, au_resource = urow_resource row,
          au_timestamp_ms = urow_timestamp_ms row, au_trace_id = urow_trace_id row,
          au_outcome = urow_outcome row, au_tenant = tenant, au_detail = urow_detail row\<rparr>)"

text \<open>\<open>ORDER BY id DESC LIMIT n\<close>, reversed.\<close>

definition pg_for_resource :: "audit_row list \<Rightarrow> string \<Rightarrow> nat \<Rightarrow> audit_record list result" where
  "pg_for_resource rows resource limit =
     mapR audit_of_row (rev (take limit (rev (filter (\<lambda>row. urow_resource row = resource) rows))))"

section \<open>Deletion\<close>

definition EVIDENCE_TABLES :: "evidence_table list" where
  "EVIDENCE_TABLES = [WORD_TOKEN, SPEECH_EVENT, VISUAL_EVENT, PROSODY_READING, QUALITY_ASSESSMENT,
     MODALITY_AVAILABILITY, COOCCURRENCE]"

fun purge_tables :: "'d database \<Rightarrow> evidence_table list \<Rightarrow> string list \<Rightarrow> string \<Rightarrow> int \<times> 'd \<Rightarrow> int \<times> 'd" where
  "purge_tables db [] run_ids tenant (removed, d) = (removed, d)"
| "purge_tables db (t # ts) run_ids tenant (removed, d) =
     (case db_delete_evidence db d t run_ids tenant of
        (rowcount, d') \<Rightarrow> purge_tables db ts run_ids tenant (removed + rowcount, d'))"

definition purge_session_rows :: "'d database \<Rightarrow> 'd \<Rightarrow> tenant_id \<Rightarrow> session_id \<Rightarrow> int \<times> 'd" where
  "purge_session_rows db d tenant i =
     (let run_ids = map rrow_id (filter (\<lambda>row. rrow_session_id row = session_id_value i) (db_runs db d));
          (removed, d1) = (if run_ids = [] then (0, d)
            else purge_tables db EVIDENCE_TABLES run_ids (tenant_id_value tenant) (0, d));
          (rowcount, d2) = db_delete_document db d1 (tenant_id_value tenant) (session_id_value i)
      in (removed + rowcount, d2))"

section \<open>What the code relies on\<close>

text \<open>Of a database: \<open>merge\<close> replaces the row of a key or adds one; \<open>add\<close> fails exactly on a taken key;
  deletion removes the rows of its condition and counts them; and a statement leaves the tables it does
  not name alone. The order of the rows is not assumed.\<close>

definition consents_kept :: "'d database \<Rightarrow> 'd \<Rightarrow> 'd \<Rightarrow> bool" where
  "consents_kept db d d' \<longleftrightarrow> db_consents db d' = db_consents db d \<and> db_claims db d' = db_claims db d"

definition sessions_kept :: "'d database \<Rightarrow> 'd \<Rightarrow> 'd \<Rightarrow> bool" where
  "sessions_kept db d d' \<longleftrightarrow> db_sessions db d' = db_sessions db d \<and> db_claims db d' = db_claims db d"

definition session_statements :: "'d database \<Rightarrow> bool" where
  "session_statements db \<longleftrightarrow> (\<forall>d row.
     (case db_merge_session db d row of d' \<Rightarrow> consents_kept db d d' \<and>
        set (db_sessions db d') = insert row {r \<in> set (db_sessions db d). srow_id r \<noteq> srow_id row}) \<and>
     (case db_add_session db d row of
        None \<Rightarrow> srow_id row \<in> srow_id ` set (db_sessions db d)
      | Some d' \<Rightarrow> consents_kept db d d' \<and> srow_id row \<notin> srow_id ` set (db_sessions db d) \<and>
          set (db_sessions db d') = insert row (set (db_sessions db d))))"

definition consent_statements :: "'d database \<Rightarrow> bool" where
  "consent_statements db \<longleftrightarrow> (\<forall>d row.
     (case db_merge_consent db d row of d' \<Rightarrow> sessions_kept db d d' \<and>
        set (db_consents db d') = insert row {r \<in> set (db_consents db d). crow_session_id r \<noteq> crow_session_id row}) \<and>
     (case db_add_consent db d row of
        None \<Rightarrow> crow_session_id row \<in> crow_session_id ` set (db_consents db d)
      | Some d' \<Rightarrow> sessions_kept db d d' \<and> crow_session_id row \<notin> crow_session_id ` set (db_consents db d) \<and>
          set (db_consents db d') = insert row (set (db_consents db d))))"

definition claim_pk :: "claim_row \<Rightarrow> string \<times> string" where
  "claim_pk c = (icrow_application_id c, icrow_key c)"

definition claim_statements :: "'d database \<Rightarrow> bool" where
  "claim_statements db \<longleftrightarrow> (\<forall>d row.
     case db_add_claim db d row of
       None \<Rightarrow> claim_pk row \<in> claim_pk ` set (db_claims db d)
     | Some d' \<Rightarrow> claim_pk row \<notin> claim_pk ` set (db_claims db d) \<and>
         set (db_claims db d') = insert row (set (db_claims db d)) \<and>
         db_sessions db d' = db_sessions db d \<and> db_consents db d' = db_consents db d)"

text \<open>A deletion leaves the tables of sessions, receipts, claims and runs alone.\<close>

definition others_kept :: "'d database \<Rightarrow> 'd \<Rightarrow> 'd \<Rightarrow> bool" where
  "others_kept db d d' \<longleftrightarrow> db_sessions db d' = db_sessions db d \<and> db_consents db d' = db_consents db d \<and>
     db_claims db d' = db_claims db d \<and> db_runs db d' = db_runs db d"

definition row_matches :: "evidence_table \<Rightarrow> string list \<Rightarrow> string \<Rightarrow> evidence_row \<Rightarrow> bool" where
  "row_matches t run_ids tenant r \<longleftrightarrow> table_of r = t \<and> run_of_row r \<in> set run_ids \<and> tenant_of_row r = tenant"

definition deletion_statements :: "'d database \<Rightarrow> bool" where
  "deletion_statements db \<longleftrightarrow> (\<forall>d t run_ids tenant session.
     (case db_delete_evidence db d t run_ids tenant of (n, d') \<Rightarrow>
        n = int (length (filter (row_matches t run_ids tenant) (db_evidence db d))) \<and>
        mset (db_evidence db d') = filter_mset (\<lambda>r. \<not> row_matches t run_ids tenant r) (mset (db_evidence db d)) \<and>
        db_documents db d' = db_documents db d \<and> others_kept db d d') \<and>
     (case db_delete_document db d tenant session of (n, d') \<Rightarrow>
        n = int (length (filter (\<lambda>r. drow_tenant_id r = tenant \<and> drow_session_id r = session) (db_documents db d))) \<and>
        mset (db_documents db d') =
          filter_mset (\<lambda>r. \<not> (drow_tenant_id r = tenant \<and> drow_session_id r = session)) (mset (db_documents db d)) \<and>
        mset (db_evidence db d') = mset (db_evidence db d) \<and> others_kept db d d'))"

end
