(* ===== verification/SqlProperties.thy ===== *)
theory SqlProperties
  imports SqlRepositories StorageProperties
begin

text \<open>
  The repositories in PostgreSQL against the ones in memory: the same sessions, the same winners of an
  idempotency key, the same trail; and a deletion that leaves nothing of a session in any table.
\<close>

section \<open>Calls\<close>

datatype session_call =
    AddSession analysis_session
  | SaveSession analysis_session
  | ClaimKey application_id string session_id

fun pg_call :: "'d database \<Rightarrow> 'd \<Rightarrow> session_call \<Rightarrow> 'd" where
  "pg_call db d (AddSession s) = (case pg_add db d s of Inl _ \<Rightarrow> d | Inr d' \<Rightarrow> d')"
| "pg_call db d (SaveSession s) = pg_save db d s"
| "pg_call db d (ClaimKey app key i) = snd (pg_claim_idempotency_key db d app key i)"

fun memory_session_call :: "session_repository \<Rightarrow> session_call \<Rightarrow> session_repository" where
  "memory_session_call r (AddSession s) = sessions_add r s"
| "memory_session_call r (SaveSession s) = sessions_save r s"
| "memory_session_call r (ClaimKey app key i) = snd (claim_idempotency_key r app key i)"

text \<open>Sessions as the use cases store them: a new session has a fresh identifier, a session keeps its
  tenant, and a receipt once given is never dropped.\<close>

fun admissible_calls :: "analysis_session list \<Rightarrow> session_call list \<Rightarrow> bool" where
  "admissible_calls seen [] \<longleftrightarrow> True"
| "admissible_calls seen (AddSession s # cs) \<longleftrightarrow>
     stored_session s \<and> list_all (\<lambda>s'. as_id s' \<noteq> as_id s) seen \<and> admissible_calls (s # seen) cs"
| "admissible_calls seen (SaveSession s # cs) \<longleftrightarrow>
     stored_session s \<and>
     list_all (\<lambda>s'. if as_id s' = as_id s
       then as_tenant_id s' = as_tenant_id s \<and> (as_consent s' = None \<or> as_consent s \<noteq> None) else True) seen \<and>
     admissible_calls (s # seen) cs"
| "admissible_calls seen (ClaimKey _ _ _ # cs) \<longleftrightarrow> admissible_calls seen cs"

section \<open>The same sessions in both\<close>

definition sessions_in :: "session_repository \<Rightarrow> analysis_session set" where
  "sessions_in r = snd ` set (sp_sessions r)"

definition consent_rows :: "analysis_session set \<Rightarrow> consent_row set" where
  "consent_rows V = (\<lambda>s. consent_to_row (as_id s) (the (as_consent s))) ` {s \<in> V. as_consent s \<noteq> None}"

definition claim_of :: "tenant_key \<times> session_id \<Rightarrow> claim_row" where
  "claim_of p = (case p of ((app, key), i) \<Rightarrow>
     \<lparr>icrow_application_id = app, icrow_key = key, icrow_session_id = session_id_value i\<rparr>)"

definition same_sessions :: "'d database \<Rightarrow> 'd \<Rightarrow> session_repository \<Rightarrow> analysis_session list \<Rightarrow> bool" where
  "same_sessions db d r seen \<longleftrightarrow>
     distinct (map fst (sp_sessions r)) \<and> distinct (map fst (sp_idempotency r)) \<and>
     (\<forall>(k, s) \<in> set (sp_sessions r). k = session_key s) \<and>
     inj_on as_id (sessions_in r) \<and> sessions_in r \<subseteq> set seen \<and> (\<forall>s \<in> sessions_in r. stored_session s) \<and>
     set (db_sessions db d) = session_to_row ` sessions_in r \<and>
     set (db_consents db d) = consent_rows (sessions_in r) \<and>
     set (db_claims db d) = claim_of ` set (sp_idempotency r)"

lemma session_text [simp]: "session_id_value i = session_id_value j \<longleftrightarrow> i = j"
  by (cases i; cases j) simp

lemma tenant_text [simp]: "tenant_id_value i = tenant_id_value j \<longleftrightarrow> i = j"
  by (cases i; cases j) simp

lemma application_text [simp]: "application_id_value i = application_id_value j \<longleftrightarrow> i = j"
  by (cases i; cases j) simp

lemma row_ids [simp]:
  "srow_id (session_to_row s) = session_id_value (as_id s)"
  "srow_tenant_id (session_to_row s) = tenant_id_value (as_tenant_id s)"
  "srow_application_id (session_to_row s) = application_id_value (as_application_id s)"
  "crow_session_id (consent_to_row i c) = session_id_value i"
  by (simp_all add: session_to_row_def consent_to_row_def)

lemma find_in: "find P xs = Some x \<Longrightarrow> x \<in> set xs \<and> P x"
  by (induction xs) (auto split: if_splits)

lemma find_eq:
  assumes "x \<in> set xs" and "P x" and "\<And>y. y \<in> set xs \<Longrightarrow> P y \<Longrightarrow> y = x"
  shows "find P xs = Some x"
proof (cases "find P xs")
  case None
  with assms(1,2) show ?thesis by (auto simp: find_None_iff)
next
  case (Some y)
  then have "y \<in> set xs" "P y" by (auto simp: find_Some_iff)
  with assms(3) Some show ?thesis by simp
qed

lemma sessions_in_save:
  assumes "distinct (map fst (sp_sessions r))" "\<forall>(k, s) \<in> set (sp_sessions r). k = session_key s"
    and "\<And>s'. s' \<in> sessions_in r \<Longrightarrow> as_id s' = as_id s \<Longrightarrow> as_tenant_id s' = as_tenant_id s"
  shows "sessions_in (sessions_save r s) = insert s {s' \<in> sessions_in r. as_id s' \<noteq> as_id s}"
proof -
  have keys: "fst p = session_key (snd p)" if "p \<in> set (sp_sessions r)" for p
    using assms(2) that by (cases p) auto
  have other: "fst p \<noteq> session_key s \<longleftrightarrow> as_id (snd p) \<noteq> as_id s" if "p \<in> set (sp_sessions r)" for p
  proof -
    have "snd p \<in> sessions_in r" using that by (simp add: sessions_in_def)
    from assms(3) [OF this] show ?thesis unfolding keys [OF that] session_key_def prod.inject tenant_text session_text by blast
  qed
  then have "{p \<in> set (sp_sessions r). fst p \<noteq> session_key s} = {p \<in> set (sp_sessions r). as_id (snd p) \<noteq> as_id s}"
    by blast
  moreover have "snd ` {p \<in> set (sp_sessions r). as_id (snd p) \<noteq> as_id s} = {s' \<in> sessions_in r. as_id s' \<noteq> as_id s}"
    unfolding sessions_in_def by blast
  moreover have "set (sp_sessions (sessions_save r s)) = insert (session_key s, s) {p \<in> set (sp_sessions r). fst p \<noteq> session_key s}"
    using entries_of_update [OF assms(1)] by (simp add: sessions_save_def)
  ultimately show ?thesis unfolding sessions_in_def by (simp only: image_insert snd_conv)
qed

lemma consent_rows_insert:
  "consent_rows (insert s V) =
     (case as_consent s of None \<Rightarrow> consent_rows V | Some c \<Rightarrow> insert (consent_to_row (as_id s) c) (consent_rows V))"
proof (cases "as_consent s")
  case (Some c)
  then have "{s' \<in> insert s V. as_consent s' \<noteq> None} = insert s {s' \<in> V. as_consent s' \<noteq> None}" by auto
  with Some show ?thesis by (simp add: consent_rows_def)
next
  case None
  then have "{s' \<in> insert s V. as_consent s' \<noteq> None} = {s' \<in> V. as_consent s' \<noteq> None}" by auto
  with None show ?thesis by (simp add: consent_rows_def)
qed

lemma consent_rows_without:
  "{c \<in> consent_rows V. crow_session_id c \<noteq> session_id_value i} = consent_rows {s \<in> V. as_id s \<noteq> i}"
  by (auto simp: consent_rows_def)

lemma session_rows_without:
  "{r \<in> session_to_row ` V. srow_id r \<noteq> session_id_value i} = session_to_row ` {s \<in> V. as_id s \<noteq> i}"
  by auto

lemma same_sessions_save_memory:
  assumes "same_sessions db d r seen"
    and "\<And>s'. s' \<in> set seen \<Longrightarrow> as_id s' = as_id s \<Longrightarrow> as_tenant_id s' = as_tenant_id s"
    and "stored_session s"
    and "set (db_sessions db d') = session_to_row ` insert s {s' \<in> sessions_in r. as_id s' \<noteq> as_id s}"
    and "set (db_consents db d') = consent_rows (insert s {s' \<in> sessions_in r. as_id s' \<noteq> as_id s})"
    and "db_claims db d' = db_claims db d"
  shows "same_sessions db d' (sessions_save r s) (s # seen)"
proof -
  note same = assms(1) [unfolded same_sessions_def]
  have old: "distinct (map fst (sp_sessions r))" "\<forall>(k, s) \<in> set (sp_sessions r). k = session_key s"
      "inj_on as_id (sessions_in r)" "sessions_in r \<subseteq> set seen" "\<forall>s \<in> sessions_in r. stored_session s"
      "distinct (map fst (sp_idempotency r))" "set (db_claims db d) = claim_of ` set (sp_idempotency r)"
    using same by simp_all
  have V: "sessions_in (sessions_save r s) = insert s {s' \<in> sessions_in r. as_id s' \<noteq> as_id s}"
    by (rule sessions_in_save [OF old(1,2)]) (rule assms(2), rule subsetD [OF old(4)])
  have idem: "sp_idempotency (sessions_save r s) = sp_idempotency r" by (simp add: sessions_save_def)
  show ?thesis
    unfolding same_sessions_def idem V assms(4-6)
  proof (intro conjI refl old(6,7))
    show "distinct (map fst (sp_sessions (sessions_save r s)))"
      using old(1) by (simp add: sessions_save_def distinct_update)
    show "\<forall>(k, s') \<in> set (sp_sessions (sessions_save r s)). k = session_key s'"
      using old(2) entries_of_update [OF old(1), of "session_key s" s] unfolding sessions_save_def
      by (auto simp: case_prod_unfold)
    show "inj_on as_id (insert s {s' \<in> sessions_in r. as_id s' \<noteq> as_id s})"
      using old(3) by (auto simp: inj_on_def)
    show "insert s {s' \<in> sessions_in r. as_id s' \<noteq> as_id s} \<subseteq> set (s # seen)" using old(4) by auto
    show "\<forall>s' \<in> insert s {s' \<in> sessions_in r. as_id s' \<noteq> as_id s}. stored_session s'" using old(5) assms(3) by blast
  qed
qed

lemma same_sessionsD:
  assumes "same_sessions db d r seen"
  shows "set (db_sessions db d) = session_to_row ` sessions_in r"
    and "set (db_consents db d) = consent_rows (sessions_in r)"
    and "set (db_claims db d) = claim_of ` set (sp_idempotency r)"
    and "sessions_in r \<subseteq> set seen"
  using assms by (simp_all add: same_sessions_def)

lemma save_same:
  assumes same: "same_sessions db d r seen" and laws: "session_statements db" "consent_statements db"
    and ok: "admissible_calls seen [SaveSession s]"
  shows "same_sessions db (pg_save db d s) (sessions_save r s) (s # seen)"
proof -
  let ?rest = "{s' \<in> sessions_in r. as_id s' \<noteq> as_id s}"
  define d1 where "d1 = db_merge_session db d (session_to_row s)"
  have d1: "set (db_sessions db d1) = session_to_row ` insert s ?rest" "consents_kept db d d1"
    using laws(1) same_sessionsD(1) [OF same] session_rows_without [of "sessions_in r" "as_id s"]
    unfolding session_statements_def d1_def by (simp_all add: Let_def)
  have seen: "as_tenant_id s' = as_tenant_id s \<and> (as_consent s' = None \<or> as_consent s \<noteq> None)"
    if "s' \<in> set seen" "as_id s' = as_id s" for s'
    using ok that by (auto simp: list_all_iff split: if_splits)
  have d2: "set (db_sessions db (pg_save db d s)) = session_to_row ` insert s ?rest \<and>
      set (db_consents db (pg_save db d s)) = consent_rows (insert s ?rest) \<and>
      db_claims db (pg_save db d s) = db_claims db d"
  proof (cases "as_consent s")
    case None
    have "consent_rows ?rest = consent_rows (sessions_in r)"
    proof -
      have "{s' \<in> ?rest. as_consent s' \<noteq> None} = {s' \<in> sessions_in r. as_consent s' \<noteq> None}"
        using seen [OF subsetD [OF same_sessionsD(4) [OF same]]] None by auto
      then show ?thesis by (simp only: consent_rows_def)
    qed
    moreover have "pg_save db d s = d1" by (simp add: pg_save_def None d1_def)
    ultimately show ?thesis
      using d1 None same_sessionsD(2) [OF same] by (simp add: consents_kept_def consent_rows_insert)
  next
    case (Some c)
    let ?d2 = "db_merge_consent db d1 (consent_to_row (as_id s) c)"
    have "set (db_consents db ?d2) = insert (consent_to_row (as_id s) c) (consent_rows ?rest)"
        "sessions_kept db d1 ?d2"
      using laws(2) d1(2) same_sessionsD(2) [OF same] consent_rows_without [of "sessions_in r" "as_id s"]
      unfolding consent_statements_def consents_kept_def by (simp_all add: Let_def)
    moreover have "pg_save db d s = ?d2" by (simp add: pg_save_def Some d1_def)
    ultimately show ?thesis
      using d1 Some by (simp add: consents_kept_def sessions_kept_def consent_rows_insert)
  qed
  have "stored_session s" using ok by simp
  then show ?thesis
    using d2 seen by (intro same_sessions_save_memory [OF same]) simp_all
qed

lemma add_same:
  assumes same: "same_sessions db d r seen" and laws: "session_statements db" "consent_statements db"
    and ok: "admissible_calls seen [AddSession s]"
  shows "\<exists>d'. pg_add db d s = Inr d' \<and> same_sessions db d' (sessions_save r s) (s # seen)"
proof -
  let ?V = "sessions_in r"
  have fresh: "as_id s' \<noteq> as_id s" if "s' \<in> set seen" for s'
    using ok that by (simp add: list_all_iff)
  then have new: "as_id s' \<noteq> as_id s" if "s' \<in> ?V" for s'
    using subsetD [OF same_sessionsD(4) [OF same] that] by blast
  then have rest: "{s' \<in> ?V. as_id s' \<noteq> as_id s} = ?V" by blast
  have "srow_id (session_to_row s) \<notin> srow_id ` set (db_sessions db d)"
    using new same_sessionsD(1) [OF same] by force
  then obtain d1 where d1: "db_add_session db d (session_to_row s) = Some d1" "consents_kept db d d1"
      "set (db_sessions db d1) = session_to_row ` insert s ?V"
    using laws(1) [unfolded session_statements_def, rule_format, of d "session_to_row s"] same_sessionsD(1) [OF same]
    by (auto split: option.splits)
  have "\<exists>d'. pg_add db d s = Inr d' \<and> set (db_sessions db d') = session_to_row ` insert s ?V \<and>
      set (db_consents db d') = consent_rows (insert s ?V) \<and> db_claims db d' = db_claims db d"
  proof (cases "as_consent s")
    case None
    with d1 show ?thesis
      using same_sessionsD(2) [OF same] by (simp add: pg_add_def consents_kept_def consent_rows_insert)
  next
    case (Some c)
    have "crow_session_id (consent_to_row (as_id s) c) \<notin> crow_session_id ` set (db_consents db d1)"
      using d1(2) new same_sessionsD(2) [OF same] by (force simp: consents_kept_def consent_rows_def)
    then obtain d2 where "db_add_consent db d1 (consent_to_row (as_id s) c) = Some d2" "sessions_kept db d1 d2"
        "set (db_consents db d2) = insert (consent_to_row (as_id s) c) (set (db_consents db d1))"
      using laws(2) [unfolded consent_statements_def, rule_format, of d1 "consent_to_row (as_id s) c"]
      by (auto split: option.splits)
    with d1 Some show ?thesis
      using same_sessionsD(2) [OF same]
      by (simp add: pg_add_def consents_kept_def sessions_kept_def consent_rows_insert)
  qed
  then obtain d' where d': "pg_add db d s = Inr d'" "set (db_sessions db d') = session_to_row ` insert s ?V"
      "set (db_consents db d') = consent_rows (insert s ?V)" "db_claims db d' = db_claims db d"
    by blast
  have "same_sessions db d' (sessions_save r s) (s # seen)"
    using ok fresh d'(2-4) by (intro same_sessions_save_memory [OF same]) (simp_all add: rest)
  with d'(1) show ?thesis by blast
qed

lemma claim_pk_of: "claim_pk (claim_of p) = fst p"
  by (simp add: claim_pk_def claim_of_def split: prod.split)

lemma claim_same:
  assumes same: "same_sessions db d r seen" and laws: "claim_statements db"
  shows "fst (pg_claim_idempotency_key db d app key i) = fst (claim_idempotency_key r app key i)"
    and "same_sessions db (snd (pg_claim_idempotency_key db d app key i)) (snd (claim_idempotency_key r app key i)) seen"
proof -
  let ?k = "(application_id_value app, key)"
  let ?row = "claim_of (?k, i)"
  have old: "distinct (map fst (sp_idempotency r))" using same by (simp add: same_sessions_def)
  have row: "\<lparr>icrow_application_id = application_id_value app, icrow_key = key, icrow_session_id = session_id_value i\<rparr> = ?row"
    by (simp add: claim_of_def)
  have taken: "claim_pk ?row \<in> claim_pk ` set (db_claims db d) \<longleftrightarrow> map_of (sp_idempotency r) ?k \<noteq> None"
    unfolding same_sessionsD(3) [OF same] image_image claim_pk_of map_of_eq_None_iff by simp
  have "fst (pg_claim_idempotency_key db d app key i) = fst (claim_idempotency_key r app key i) \<and>
    same_sessions db (snd (pg_claim_idempotency_key db d app key i)) (snd (claim_idempotency_key r app key i)) seen"
  proof (cases "db_add_claim db d ?row")
    case None
    then have "map_of (sp_idempotency r) ?k \<noteq> None"
      using laws [unfolded claim_statements_def, rule_format, where d = d and row = ?row] taken by simp
    with None same show ?thesis
      unfolding pg_claim_idempotency_key_def row claim_idempotency_key_def by simp
  next
    case (Some d')
    then have free: "map_of (sp_idempotency r) ?k = None"
      and d': "set (db_claims db d') = insert ?row (set (db_claims db d))" "db_sessions db d' = db_sessions db d"
        "db_consents db d' = db_consents db d"
      using laws [unfolded claim_statements_def, rule_format, where d = d and row = ?row] taken by simp_all
    have "{p \<in> set (sp_idempotency r). fst p \<noteq> ?k} = set (sp_idempotency r)"
      using free by (force simp: map_of_eq_None_iff)
    then have upd: "set (AList.update ?k i (sp_idempotency r)) = insert (?k, i) (set (sp_idempotency r))"
      unfolding entries_of_update [OF old] by simp
    have "same_sessions db d' (r\<lparr>sp_idempotency := AList.update ?k i (sp_idempotency r)\<rparr>) seen"
      using same unfolding same_sessions_def sessions_in_def d' by (simp add: distinct_update upd)
    with Some free show ?thesis
      unfolding pg_claim_idempotency_key_def row claim_idempotency_key_def by simp
  qed
  then show "fst (pg_claim_idempotency_key db d app key i) = fst (claim_idempotency_key r app key i)"
    "same_sessions db (snd (pg_claim_idempotency_key db d app key i)) (snd (claim_idempotency_key r app key i)) seen"
    by blast+
qed

section \<open>Reading\<close>

lemma consent_for_same:
  assumes same: "same_sessions db d r seen" and s: "s \<in> sessions_in r"
  shows "consent_for db d (session_id_value (as_id s)) = map_option (consent_to_row (as_id s)) (as_consent s)"
proof -
  have inj: "inj_on as_id (sessions_in r)" using same by (simp add: same_sessions_def)
  have rows: "c \<in> set (db_consents db d) \<and> crow_session_id c = session_id_value (as_id s) \<longleftrightarrow>
      as_consent s \<noteq> None \<and> c = consent_to_row (as_id s) (the (as_consent s))" for c
    unfolding same_sessionsD(2) [OF same] consent_rows_def using s inj_onD [OF inj _ _ s] by force
  show ?thesis
  proof (cases "as_consent s")
    case None
    with rows show ?thesis by (auto simp: consent_for_def find_None_iff)
  next
    case (Some c)
    then show ?thesis
      unfolding consent_for_def using rows by (intro find_eq [THEN trans]) auto
  qed
qed

lemma session_row_read:
  assumes same: "same_sessions db d r seen" and s: "s \<in> sessions_in r"
  shows "row_to_session py (session_to_row s) (consent_for db d (session_id_value (as_id s))) = Inr s"
proof -
  have "stored_session s" using same s by (simp add: same_sessions_def)
  then show ?thesis unfolding consent_for_same [OF same s] by (rule session_back)
qed

lemma find_rows:
  assumes same: "same_sessions db d r seen"
    and P: "\<And>s. s \<in> sessions_in r \<Longrightarrow> P (session_to_row s) \<longleftrightarrow> Q s" and Q: "\<And>s. Q s \<Longrightarrow> as_id s = i"
    and L: "set L = sessions_in r"
  shows "find P (db_sessions db d) = map_option session_to_row (find Q L)"
proof (cases "find Q L")
  case None
  then have "\<not> P (session_to_row s)" if "s \<in> sessions_in r" for s
    using P [OF that] that L by (simp add: find_None_iff)
  then have "find P (db_sessions db d) = None"
    unfolding find_None_iff same_sessionsD(1) [OF same] by blast
  with None show ?thesis by simp
next
  case (Some s)
  then have s: "s \<in> sessions_in r" "Q s" using L find_in by fastforce+
  have inj: "inj_on as_id (sessions_in r)" using same by (simp add: same_sessions_def)
  have "find P (db_sessions db d) = Some (session_to_row s)"
  proof (rule find_eq)
    show "session_to_row s \<in> set (db_sessions db d)" unfolding same_sessionsD(1) [OF same] using s(1) by blast
    show "P (session_to_row s)" using P s by blast
    fix row assume "row \<in> set (db_sessions db d)" "P row"
    then obtain s' where s': "s' \<in> sessions_in r" "row = session_to_row s'" "Q s'"
      unfolding same_sessionsD(1) [OF same] using P by blast
    then have "s' = s" using inj_onD [OF inj _ s'(1) s(1)] Q s(2) by metis
    with s'(2) show "row = session_to_row s" by simp
  qed
  with Some show ?thesis by simp
qed

lemma lookup_by_value:
  "\<forall>(k, s) \<in> set xs. k = session_key s \<Longrightarrow>
   map_of xs (tenant_id_value tenant, session_id_value i) =
     find (\<lambda>s. as_tenant_id s = tenant \<and> as_id s = i) (map snd xs)"
  by (induction xs) (auto simp: session_key_def)

lemma get_same:
  assumes same: "same_sessions db d r seen"
  shows "pg_get py db d tenant i = Inr (sessions_get r tenant i)"
proof -
  let ?Q = "\<lambda>s. as_tenant_id s = tenant \<and> as_id s = i"
  have rows: "find (\<lambda>row. srow_tenant_id row = tenant_id_value tenant \<and> srow_id row = session_id_value i) (db_sessions db d) =
      map_option session_to_row (find ?Q (map snd (sp_sessions r)))"
    by (rule find_rows [OF same, where i = i]) (simp_all add: sessions_in_def)
  have keys: "\<forall>(k, s) \<in> set (sp_sessions r). k = session_key s" using same by (simp add: same_sessions_def)
  have "sessions_get r tenant i = find ?Q (map snd (sp_sessions r))"
    using keys lookup_by_value [of "sp_sessions r" tenant i] by (simp add: sessions_get_def)
  moreover have "pg_get py db d tenant i = Inr (find ?Q (map snd (sp_sessions r)))"
  proof (cases "find ?Q (map snd (sp_sessions r))")
    case None
    with rows show ?thesis by (simp add: pg_get_def)
  next
    case (Some s)
    from find_in [OF this] have s: "s \<in> sessions_in r" "as_id s = i" by (auto simp: sessions_in_def)
    from session_row_read [OF same s(1)] rows Some s(2) show ?thesis by (simp add: pg_get_def)
  qed
  ultimately show ?thesis by simp
qed

lemma find_same:
  assumes same: "same_sessions db d r seen"
  shows "pg_find_by_idempotency_key py db d app key = Inr (find_by_idempotency_key r app key)"
proof -
  let ?k = "(application_id_value app, key)"
  have old: "distinct (map fst (sp_idempotency r))" using same by (simp add: same_sessions_def)
  have claims: "find (\<lambda>c. icrow_application_id c = application_id_value app \<and> icrow_key c = key) (db_claims db d) =
      map_option (\<lambda>i. claim_of (?k, i)) (map_of (sp_idempotency r) ?k)"
  proof (cases "map_of (sp_idempotency r) ?k")
    case None
    then have "\<not> (icrow_application_id c = application_id_value app \<and> icrow_key c = key)" if "c \<in> set (db_claims db d)" for c
      using that unfolding same_sessionsD(3) [OF same] by (auto simp: claim_of_def map_of_eq_None_iff image_iff)
    with None show ?thesis by (auto simp: find_None_iff)
  next
    case (Some i)
    have "find (\<lambda>c. icrow_application_id c = application_id_value app \<and> icrow_key c = key) (db_claims db d) =
        Some (claim_of (?k, i))"
    proof (rule find_eq)
      show "claim_of (?k, i) \<in> set (db_claims db d)"
        unfolding same_sessionsD(3) [OF same] using map_of_SomeD [OF Some] by blast
      show "icrow_application_id (claim_of (?k, i)) = application_id_value app \<and> icrow_key (claim_of (?k, i)) = key"
        by (simp add: claim_of_def)
      fix c assume "c \<in> set (db_claims db d)" "icrow_application_id c = application_id_value app \<and> icrow_key c = key"
      then obtain j where "(?k, j) \<in> set (sp_idempotency r)" "c = claim_of (?k, j)"
        unfolding same_sessionsD(3) [OF same] by (auto simp: claim_of_def)
      with Some old show "c = claim_of (?k, i)" by (simp add: map_of_eq_Some_iff)
    qed
    with Some show ?thesis by simp
  qed
  show ?thesis
  proof (cases "map_of (sp_idempotency r) ?k")
    case None
    with claims show ?thesis by (simp add: pg_find_by_idempotency_key_def find_by_idempotency_key_def)
  next
    case (Some i)
    let ?Q = "\<lambda>s. as_id s = i \<and> as_application_id s = app"
    have rows: "find (\<lambda>row. srow_id row = session_id_value i \<and> srow_application_id row = application_id_value app)
        (db_sessions db d) = map_option session_to_row (find ?Q (map snd (sp_sessions r)))"
      by (rule find_rows [OF same, where i = i]) (simp_all add: sessions_in_def)
    show ?thesis
    proof (cases "find ?Q (map snd (sp_sessions r))")
      case None
      with claims rows Some show ?thesis
        by (simp add: pg_find_by_idempotency_key_def find_by_idempotency_key_def claim_of_def)
    next
      case (Some s)
      from find_in [OF this] have s: "s \<in> sessions_in r" "as_id s = i" by (auto simp: sessions_in_def)
      from session_row_read [OF same s(1)] claims rows Some s(2) \<open>map_of (sp_idempotency r) ?k = Some i\<close> show ?thesis
        by (simp add: pg_find_by_idempotency_key_def find_by_idempotency_key_def claim_of_def)
    qed
  qed
qed

section \<open>Refinement\<close>

lemma calls_same:
  assumes "session_statements db" "consent_statements db" "claim_statements db"
  shows "same_sessions db d r seen \<Longrightarrow> admissible_calls seen cs \<Longrightarrow>
    \<exists>seen'. same_sessions db (foldl (pg_call db) d cs) (foldl memory_session_call r cs) seen'"
proof (induction cs arbitrary: d r seen)
  case (Cons x cs)
  show ?case
  proof (cases x)
    case (AddSession s)
    then obtain d' where "pg_add db d s = Inr d'" "same_sessions db d' (sessions_save r s) (s # seen)"
      using add_same [OF Cons.prems(1) assms(1,2), of s] Cons.prems(2) by auto
    with Cons.IH [of d' "sessions_save r s" "s # seen"] AddSession Cons.prems(2) show ?thesis
      by (simp add: sessions_add_save)
  next
    case (SaveSession s)
    then have "same_sessions db (pg_save db d s) (sessions_save r s) (s # seen)"
      using save_same [OF Cons.prems(1) assms(1,2), of s] Cons.prems(2) by simp
    from Cons.IH [OF this] SaveSession Cons.prems(2) show ?thesis by simp
  next
    case (ClaimKey app key i)
    from Cons.IH [OF claim_same(2) [OF Cons.prems(1) assms(3)]] ClaimKey Cons.prems(2) show ?thesis by simp
  qed
qed auto

text \<open>
  C12: The session repository in PostgreSQL refines the one in memory. Over any database that keeps the laws
  of its statements, starting from empty tables, after any calls that add, save and claim as the use
  cases do, a session read by tenant and identifier, a session found by its idempotency key, and the
  winner of the next claim are the same in both.
\<close>

theorem postgres_sessions_refine_memory:
  assumes "session_statements db" and "consent_statements db" and "claim_statements db"
    and "db_sessions db d = []" and "db_consents db d = []" and "db_claims db d = []"
    and "admissible_calls [] calls"
  shows "case (foldl (pg_call db) d calls, foldl memory_session_call empty_sessions calls) of (d', r) \<Rightarrow>
    pg_get py db d' tenant i = Inr (sessions_get r tenant i) \<and>
    pg_find_by_idempotency_key py db d' app key = Inr (find_by_idempotency_key r app key) \<and>
    fst (pg_claim_idempotency_key db d' app key i) = fst (claim_idempotency_key r app key i)"
proof -
  have "same_sessions db d empty_sessions []"
    by (simp add: same_sessions_def empty_sessions_def sessions_in_def consent_rows_def assms(4-6))
  from calls_same [OF assms(1-3) this assms(7)]
  obtain seen where "same_sessions db (foldl (pg_call db) d calls) (foldl memory_session_call empty_sessions calls) seen"
    by blast
  from get_same [OF this] find_same [OF this] claim_same(1) [OF this assms(3)] show ?thesis by simp
qed

text \<open>Tables kept as lists, at which the hypotheses are instantiated.\<close>

record tables =
  tb_sessions :: "session_row list"
  tb_consents :: "consent_row list"
  tb_claims :: "claim_row list"
  tb_runs :: "run_row list"
  tb_documents :: "document_row list"
  tb_evidence :: "evidence_row list"

definition no_tables :: tables where
  "no_tables = \<lparr>tb_sessions = [], tb_consents = [], tb_claims = [], tb_runs = [], tb_documents = [], tb_evidence = []\<rparr>"

definition upsert :: "('r \<Rightarrow> 'k) \<Rightarrow> 'r \<Rightarrow> 'r list \<Rightarrow> 'r list" where
  "upsert key row rows = row # filter (\<lambda>r. key r \<noteq> key row) rows"

definition insert_row :: "('r \<Rightarrow> 'k) \<Rightarrow> 'r \<Rightarrow> 'r list \<Rightarrow> 'r list option" where
  "insert_row key row rows = (if key row \<in> key ` set rows then None else Some (row # rows))"

definition delete_rows :: "('r \<Rightarrow> bool) \<Rightarrow> 'r list \<Rightarrow> int \<times> 'r list" where
  "delete_rows P rows = (int (length (filter P rows)), filter (\<lambda>r. \<not> P r) rows)"

definition listed_database :: "tables database" where
  "listed_database =
     \<lparr>db_sessions = tb_sessions, db_consents = tb_consents, db_claims = tb_claims, db_runs = tb_runs,
      db_documents = tb_documents, db_evidence = tb_evidence,
      db_merge_session = (\<lambda>d r. d\<lparr>tb_sessions := upsert srow_id r (tb_sessions d)\<rparr>),
      db_merge_consent = (\<lambda>d r. d\<lparr>tb_consents := upsert crow_session_id r (tb_consents d)\<rparr>),
      db_merge_run = (\<lambda>d r. d\<lparr>tb_runs := upsert rrow_id r (tb_runs d)\<rparr>),
      db_add_session = (\<lambda>d r. map_option (\<lambda>rs. d\<lparr>tb_sessions := rs\<rparr>) (insert_row srow_id r (tb_sessions d))),
      db_add_consent = (\<lambda>d r. map_option (\<lambda>rs. d\<lparr>tb_consents := rs\<rparr>) (insert_row crow_session_id r (tb_consents d))),
      db_add_run = (\<lambda>d r. map_option (\<lambda>rs. d\<lparr>tb_runs := rs\<rparr>) (insert_row rrow_id r (tb_runs d))),
      db_add_claim = (\<lambda>d r. map_option (\<lambda>rs. d\<lparr>tb_claims := rs\<rparr>) (insert_row claim_pk r (tb_claims d))),
      db_delete_evidence = (\<lambda>d t run_ids tenant.
        case delete_rows (row_matches t run_ids tenant) (tb_evidence d) of (n, rs) \<Rightarrow> (n, d\<lparr>tb_evidence := rs\<rparr>)),
      db_delete_document = (\<lambda>d tenant session.
        case delete_rows (\<lambda>r. drow_tenant_id r = tenant \<and> drow_session_id r = session) (tb_documents d) of
          (n, rs) \<Rightarrow> (n, d\<lparr>tb_documents := rs\<rparr>))\<rparr>"

lemma listed_database_laws:
  "session_statements listed_database" "consent_statements listed_database" "claim_statements listed_database"
  "deletion_statements listed_database"
  unfolding session_statements_def consent_statements_def claim_statements_def deletion_statements_def
    others_kept_def consents_kept_def sessions_kept_def listed_database_def database.select_convs upsert_def insert_row_def delete_rows_def
  by (auto; fail)+

lemma sample_session_stored: "stored_session sample_session"
  by (simp add: stored_session_def sample_session_def AnalysisSession_def fresh_clock_def wf_clock_def named_def
      py_strip_Nil_iff py_isspace_def)

theorem postgres_sessions_refine_memory_witness:
  "case (foldl (pg_call listed_database) no_tables
           [AddSession sample_session, ClaimKey (ApplicationId ''a'') ''key'' (SessionId ''s''),
            SaveSession (sample_session\<lparr>as_state := CAPTURING\<rparr>)],
         foldl memory_session_call empty_sessions
           [AddSession sample_session, ClaimKey (ApplicationId ''a'') ''key'' (SessionId ''s''),
            SaveSession (sample_session\<lparr>as_state := CAPTURING\<rparr>)]) of (d', r) \<Rightarrow>
    pg_get sample_python listed_database d' (TenantId ''t'') (SessionId ''s'') =
      Inr (sessions_get r (TenantId ''t'') (SessionId ''s'')) \<and>
    pg_find_by_idempotency_key sample_python listed_database d' (ApplicationId ''a'') ''key'' =
      Inr (find_by_idempotency_key r (ApplicationId ''a'') ''key'') \<and>
    fst (pg_claim_idempotency_key listed_database d' (ApplicationId ''a'') ''key'' (SessionId ''s'')) =
      fst (claim_idempotency_key r (ApplicationId ''a'') ''key'' (SessionId ''s''))"
proof (rule postgres_sessions_refine_memory [OF listed_database_laws(1-3)])
  have "stored_session (sample_session\<lparr>as_state := CAPTURING\<rparr>)"
    using sample_session_stored by (simp add: stored_session_def split: option.splits)
  then show "admissible_calls [] [AddSession sample_session, ClaimKey (ApplicationId ''a'') ''key'' (SessionId ''s''),
      SaveSession (sample_session\<lparr>as_state := CAPTURING\<rparr>)]"
    using sample_session_stored by (cases "as_consent sample_session") simp_all
qed (simp_all add: listed_database_def no_tables_def)

section \<open>Deletion\<close>

definition row_of_session :: "'d database \<Rightarrow> 'd \<Rightarrow> tenant_id \<Rightarrow> session_id \<Rightarrow> evidence_row \<Rightarrow> bool" where
  "row_of_session db d tenant i r \<longleftrightarrow> tenant_of_row r = tenant_id_value tenant \<and>
     run_of_row r \<in> rrow_id ` {run \<in> set (db_runs db d). rrow_session_id run = session_id_value i}"

definition document_of_session :: "tenant_id \<Rightarrow> session_id \<Rightarrow> document_row \<Rightarrow> bool" where
  "document_of_session tenant i r \<longleftrightarrow>
     drow_tenant_id r = tenant_id_value tenant \<and> drow_session_id r = session_id_value i"

lemmas deletion_law = deletion_statements_def [THEN iffD1, THEN spec, THEN spec, THEN spec, THEN spec, THEN spec]

lemma delete_evidence_law:
  assumes "deletion_statements db"
  shows "case db_delete_evidence db d t run_ids tenant of (n, d') \<Rightarrow>
    n = int (length (filter (row_matches t run_ids tenant) (db_evidence db d))) \<and>
    mset (db_evidence db d') = filter_mset (\<lambda>r. \<not> row_matches t run_ids tenant r) (mset (db_evidence db d)) \<and>
    db_documents db d' = db_documents db d \<and> others_kept db d d'"
  by (rule conjunct1 [OF deletion_law [OF assms]])

lemma delete_document_law:
  assumes "deletion_statements db"
  shows "case db_delete_document db d tenant session of (n, d') \<Rightarrow>
    n = int (length (filter (\<lambda>r. drow_tenant_id r = tenant \<and> drow_session_id r = session) (db_documents db d))) \<and>
    mset (db_documents db d') =
      filter_mset (\<lambda>r. \<not> (drow_tenant_id r = tenant \<and> drow_session_id r = session)) (mset (db_documents db d)) \<and>
    mset (db_evidence db d') = mset (db_evidence db d) \<and> others_kept db d d'"
  by (rule conjunct2 [OF deletion_law [OF assms]])

lemma row_matches_eq:
  "row_matches t ids tenant = (\<lambda>r. table_of r = t \<and> run_of_row r \<in> set ids \<and> tenant_of_row r = tenant)"
  by (simp add: row_matches_def fun_eq_iff)

lemma document_of_session_eq:
  "document_of_session tenant i =
     (\<lambda>r. drow_tenant_id r = tenant_id_value tenant \<and> drow_session_id r = session_id_value i)"
  by (simp add: document_of_session_def fun_eq_iff)

lemma purge_tables_effect:
  assumes "deletion_statements db"
  shows "purge_tables db ts ids tenant (removed, d) = (n, d') \<Longrightarrow>
    (let P = (\<lambda>r. table_of r \<in> set ts \<and> run_of_row r \<in> set ids \<and> tenant_of_row r = tenant) in
     n = removed + int (size (filter_mset P (mset (db_evidence db d)))) \<and>
     mset (db_evidence db d') = filter_mset (\<lambda>r. \<not> P r) (mset (db_evidence db d)) \<and>
     db_documents db d' = db_documents db d \<and> others_kept db d d')"
proof (induction ts arbitrary: removed d)
  case (Cons t ts)
  let ?M = "mset (db_evidence db d)" and ?mine = "\<lambda>r. run_of_row r \<in> set ids \<and> tenant_of_row r = tenant"
  obtain m d1 where one: "db_delete_evidence db d t ids tenant = (m, d1)" by fastforce
  then have d1: "m = int (size (filter_mset (\<lambda>r. table_of r = t \<and> ?mine r) ?M))"
      "mset (db_evidence db d1) = filter_mset (\<lambda>r. \<not> (table_of r = t \<and> ?mine r)) ?M"
      "db_documents db d1 = db_documents db d" "others_kept db d d1"
    using delete_evidence_law [OF assms, where d = d and t = t and run_ids = ids and tenant = tenant]
    unfolding row_matches_eq by (simp_all flip: mset_filter)
  have rest: "purge_tables db ts ids tenant (removed + m, d1) = (n, d')" using Cons.prems one by simp
  have split: "size (filter_mset (\<lambda>r. table_of r = t \<and> ?mine r) ?M) +
      size (filter_mset (\<lambda>r. table_of r \<in> set ts \<and> ?mine r) (filter_mset (\<lambda>r. \<not> (table_of r = t \<and> ?mine r)) ?M)) =
      size (filter_mset (\<lambda>r. table_of r \<in> set (t # ts) \<and> ?mine r) ?M)"
  proof -
    have "filter_mset (\<lambda>r. table_of r \<in> set (t # ts) \<and> ?mine r) ?M =
        filter_mset (\<lambda>r. table_of r = t \<and> ?mine r) ?M +
        filter_mset (\<lambda>r. table_of r \<in> set ts \<and> ?mine r) (filter_mset (\<lambda>r. \<not> (table_of r = t \<and> ?mine r)) ?M)"
      by (rule multiset_eqI) auto
    then show ?thesis by (simp only: size_union)
  qed
  have kept: "filter_mset (\<lambda>r. \<not> (table_of r \<in> set ts \<and> ?mine r)) (filter_mset (\<lambda>r. \<not> (table_of r = t \<and> ?mine r)) ?M) =
      filter_mset (\<lambda>r. \<not> (table_of r \<in> set (t # ts) \<and> ?mine r)) ?M"
    by (rule multiset_eqI) auto
  from Cons.IH [OF rest] d1 split kept show ?case
    by (simp only: Let_def) (simp add: others_kept_def)
qed (simp add: others_kept_def)

text \<open>
  C13: A deletion leaves no evidence of the session, and touches nothing else. The rows of the session's
  runs under that tenant go, in all seven tables of evidence, and its published document; every other row
  of these tables stays, those of other tenants and sessions among them; the tables of sessions,
  receipts, idempotency keys and runs are as they were, so the session itself and its runs remain; and
  the number reported is the number of rows that went.
\<close>

theorem purge_removes_exactly:
  assumes "deletion_statements db"
  shows "case purge_session_rows db d tenant i of (n, d') \<Rightarrow>
    mset (db_evidence db d') = filter_mset (\<lambda>r. \<not> row_of_session db d tenant i r) (mset (db_evidence db d)) \<and>
    mset (db_documents db d') = filter_mset (\<lambda>r. \<not> document_of_session tenant i r) (mset (db_documents db d)) \<and>
    db_sessions db d' = db_sessions db d \<and> db_consents db d' = db_consents db d \<and>
    db_claims db d' = db_claims db d \<and> db_runs db d' = db_runs db d \<and>
    n = int (size (filter_mset (row_of_session db d tenant i) (mset (db_evidence db d)))) +
        int (size (filter_mset (document_of_session tenant i) (mset (db_documents db d))))"
proof -
  define ids where "ids = map rrow_id (filter (\<lambda>row. rrow_session_id row = session_id_value i) (db_runs db d))"
  have mine: "row_of_session db d tenant i = (\<lambda>r. table_of r \<in> set EVIDENCE_TABLES \<and> run_of_row r \<in> set ids \<and>
      tenant_of_row r = tenant_id_value tenant)"
    by (rule ext, case_tac r) (auto simp: row_of_session_def ids_def EVIDENCE_TABLES_def)
  obtain m d1 where one: "(if ids = [] then (0, d)
      else purge_tables db EVIDENCE_TABLES ids (tenant_id_value tenant) (0, d)) = (m, d1)" by fastforce
  have d1: "m = int (size (filter_mset (row_of_session db d tenant i) (mset (db_evidence db d)))) \<and>
      mset (db_evidence db d1) = filter_mset (\<lambda>r. \<not> row_of_session db d tenant i r) (mset (db_evidence db d)) \<and>
      db_documents db d1 = db_documents db d \<and> others_kept db d d1"
  proof (cases "ids = []")
    case True
    then have "\<not> row_of_session db d tenant i r" for r by (simp add: mine)
    with True one show ?thesis by (simp add: others_kept_def)
  next
    case False
    with one purge_tables_effect [OF assms, of EVIDENCE_TABLES ids "tenant_id_value tenant" 0 d m d1] show ?thesis
      by (simp add: mine Let_def)
  qed
  obtain k d2 where two: "db_delete_document db d1 (tenant_id_value tenant) (session_id_value i) = (k, d2)" by fastforce
  then have d2: "k = int (size (filter_mset (document_of_session tenant i) (mset (db_documents db d1))))"
      "mset (db_documents db d2) = filter_mset (\<lambda>r. \<not> document_of_session tenant i r) (mset (db_documents db d1))"
      "mset (db_evidence db d2) = mset (db_evidence db d1)" "others_kept db d1 d2"
    using delete_document_law [OF assms, where d = d1 and tenant = "tenant_id_value tenant" and session = "session_id_value i"]
    unfolding document_of_session_eq by (simp_all flip: mset_filter)
  have "purge_session_rows db d tenant i = (m + k, d2)"
    unfolding purge_session_rows_def Let_def ids_def [symmetric] one two prod.case ..
  with d1 d2 show ?thesis by (simp add: others_kept_def)
qed

definition purged_tables :: tables where
  "purged_tables = no_tables\<lparr>
     tb_runs := [\<lparr>rrow_id = ''r'', rrow_session_id = ''s'', rrow_pipeline_version = ''1.0.0'', rrow_state = ''succeeded'',
       rrow_started_at_ms = 0, rrow_completed_at_ms = None, rrow_completed_stages = []\<rparr>],
     tb_evidence := map TokenRow [
       \<lparr>trow_id = ''w1'', trow_run_id = ''r'', trow_tenant_id = ''t'', trow_raw_text = ''hola'', trow_start_ms = 0,
        trow_end_ms = 1, trow_tolerance_ms = 250, trow_confidence = 1, trow_calibration = ''raw'', trow_status = ''final''\<rparr>,
       \<lparr>trow_id = ''w2'', trow_run_id = ''other'', trow_tenant_id = ''t'', trow_raw_text = ''hola'', trow_start_ms = 0,
        trow_end_ms = 1, trow_tolerance_ms = 250, trow_confidence = 1, trow_calibration = ''raw'', trow_status = ''final''\<rparr>]\<rparr>"

theorem purge_removes_exactly_witness:
  "case purge_session_rows listed_database purged_tables (TenantId ''t'') (SessionId ''s'') of (n, d') \<Rightarrow>
     n = 1 \<and> size (mset (tb_evidence d')) = 1"
proof -
  obtain n d' where p: "purge_session_rows listed_database purged_tables (TenantId ''t'') (SessionId ''s'') = (n, d')"
    by fastforce
  have mine: "row_of_session listed_database purged_tables (TenantId ''t'') (SessionId ''s'') =
      (\<lambda>r. tenant_of_row r = ''t'' \<and> run_of_row r = ''r'')"
  proof -
    have "rrow_id ` {run \<in> set (db_runs listed_database purged_tables). rrow_session_id run = session_id_value (SessionId ''s'')} = {''r''}"
      unfolding set_filter [symmetric] set_map [symmetric] by (simp add: purged_tables_def no_tables_def listed_database_def)
    then show ?thesis unfolding row_of_session_def by simp
  qed
  have lists: "db_evidence listed_database = tb_evidence" "db_documents listed_database = tb_documents"
      "tb_documents purged_tables = []"
    by (simp_all add: listed_database_def purged_tables_def no_tables_def)
  have effect: "mset (tb_evidence d') =
      filter_mset (\<lambda>r. \<not> (tenant_of_row r = ''t'' \<and> run_of_row r = ''r'')) (mset (tb_evidence purged_tables))"
    "n = int (size (filter_mset (\<lambda>r. tenant_of_row r = ''t'' \<and> run_of_row r = ''r'') (mset (tb_evidence purged_tables))))"
    using purge_removes_exactly [OF listed_database_laws(4), of purged_tables "TenantId ''t''" "SessionId ''s''"]
    unfolding p prod.case mine lists by simp_all
  have "length (filter (\<lambda>r. \<not> (tenant_of_row r = ''t'' \<and> run_of_row r = ''r'')) (tb_evidence purged_tables)) = 1"
    by (simp add: purged_tables_def)
  moreover have "size (mset (tb_evidence d')) =
      length (filter (\<lambda>r. \<not> (tenant_of_row r = ''t'' \<and> run_of_row r = ''r'')) (tb_evidence purged_tables))"
    unfolding effect(1) by (simp only: mset_filter [symmetric] size_mset)
  moreover have "n = int (length (filter (\<lambda>r. tenant_of_row r = ''t'' \<and> run_of_row r = ''r'') (tb_evidence purged_tables)))"
    unfolding effect(2) by (simp only: mset_filter [symmetric] size_mset)
  moreover have "length (filter (\<lambda>r. tenant_of_row r = ''t'' \<and> run_of_row r = ''r'') (tb_evidence purged_tables)) = 1"
    by (simp add: purged_tables_def)
  ultimately show ?thesis unfolding p prod.case by (simp only: of_nat_1)
qed

section \<open>The trail\<close>

text \<open>With a positive limit, the trail of a resource is the same in both logs; with limit 0 the one in memory
  gives everything and the one in PostgreSQL nothing.\<close>

definition audit_row_of :: "audit_record \<Rightarrow> audit_row" where
  "audit_row_of e = hd (pg_record [] e)"

lemma pg_record_rows: "foldl pg_record rows es = rows @ map audit_row_of es"
  by (induction es arbitrary: rows) (simp_all add: pg_record_def audit_row_of_def)

definition nameable_entry :: "audit_record \<Rightarrow> bool" where
  "nameable_entry e \<longleftrightarrow> (case au_tenant e of None \<Rightarrow> True | Some t \<Rightarrow> named (tenant_id_value t))"

lemma audit_row_back: "nameable_entry e \<Longrightarrow> audit_of_row (audit_row_of e) = Inr e"
  by (cases e; cases "au_tenant e")
    (auto simp: audit_of_row_def audit_row_of_def pg_record_def nameable_entry_def named_Identifier named_def)

lemma trail_same:
  assumes "list_all nameable_entry es" and "0 < limit"
  shows "pg_for_resource (foldl pg_record [] es) resource limit =
    Inr (for_resource (foldl audit_append [] es) resource (int limit))"
proof -
  have log: "foldl audit_append xs es = xs @ es" for xs
    by (induction es arbitrary: xs) (simp_all add: audit_append_def)
  have "filter (\<lambda>row. urow_resource row = resource) (map audit_row_of es) =
      map audit_row_of (filter (\<lambda>e. au_resource e = resource) es)"
    by (induction es) (simp_all add: audit_row_of_def pg_record_def)
  moreover have "mapR audit_of_row (map audit_row_of xs) = Inr xs" if "list_all nameable_entry xs" for xs
    using that by (induction xs) (simp_all add: audit_row_back)
  moreover have "rev (take limit (rev (map audit_row_of xs))) = map audit_row_of (drop (length xs - limit) xs)" for xs
    by (simp add: take_rev drop_map)
  moreover have "list_all nameable_entry (drop k (filter P es))" for k P
    using assms(1) by (auto simp: list_all_iff dest: in_set_dropD)
  ultimately show ?thesis
    using assms(2) by (simp add: pg_for_resource_def pg_record_rows log for_resource_def slice_from_def Let_def)
qed

text \<open>The latest run is the same as in memory, ties included, when the table gives its rows in the order in
  which they were added.\<close>

lemma max_by_Cons:
  "max_by f b (x # xs) = (if f b < f (max_by f x xs) then max_by f x xs else b)"
proof (induction xs arbitrary: b x)
  case (Cons y ys)
  have "max_by f b (x # y # ys) = max_by f (if f b < f x then x else b) (y # ys)" by simp
  also have "\<dots> = (if f (if f b < f x then x else b) < f (max_by f y ys) then max_by f y ys
      else if f b < f x then x else b)" by (rule Cons.IH)
  finally show ?case using Cons.IH [of x y] by auto
qed simp

lemma insort_key_of_map: "insort_key g (h x) (map h xs) = map h (insort_key (\<lambda>x. g (h x)) x xs)"
  by (induction xs) simp_all

lemma sort_key_of_map: "sort_key g (map h xs) = map h (sort_key (\<lambda>x. g (h x)) xs)"
  by (induction xs) (simp_all add: insort_key_of_map)

lemma hd_sort_key: "\<exists>ys. sort_key (\<lambda>x. - f x) (x # xs) = max_by f x xs # (ys :: 'a list)" for f :: "'a \<Rightarrow> int"
proof (induction xs arbitrary: x)
  case (Cons y ys)
  then obtain zs where "sort_key (\<lambda>x. - f x) (y # ys) = max_by f y ys # zs" by blast
  then show ?case
    unfolding sort_key_simps(2) [of _ x] max_by_Cons by simp
qed simp

lemma latest_run_agrees:
  assumes "db_runs db d = map (run_to_row \<circ> snd) (rp_runs r)" and "\<forall>run \<in> snd ` set (rp_runs r). stored_run run"
  shows "pg_latest_for_session db d i = Inr (latest_for_session r i)"
proof -
  let ?runs = "filter (\<lambda>run. pr_session_id run = i) (map snd (rp_runs r))"
  have same: "session_id_value a = session_id_value i \<longleftrightarrow> a = i" for a by (cases a; cases i) simp
  have rows: "filter (\<lambda>row. rrow_session_id row = session_id_value i) (db_runs db d) = map run_to_row ?runs"
    by (simp add: assms(1) filter_map o_def run_to_row_def same)
  show ?thesis
  proof (cases ?runs)
    case Nil
    then show ?thesis by (simp add: pg_latest_for_session_def latest_for_session_def rows)
  next
    case (Cons x xs)
    obtain ys where sorted: "sort_key (\<lambda>run. - pr_started_at_ms run) (x # xs) = max_by pr_started_at_ms x xs # ys"
      using hd_sort_key [of pr_started_at_ms x xs] by blast
    have first: "sort_key (\<lambda>row. - rrow_started_at_ms row) (map run_to_row (x # xs)) =
        run_to_row (max_by pr_started_at_ms x xs) # map run_to_row ys"
      using sorted unfolding sort_key_of_map by (simp add: run_to_row_def del: sort_key_simps)
    have "stored_run (max_by pr_started_at_ms x xs)"
      using max_by_greatest [of pr_started_at_ms x xs] assms(2) Cons
      by (metis (no_types, lifting) filter_is_subset image_set subsetD)
    then show ?thesis
      unfolding pg_latest_for_session_def latest_for_session_def rows Cons first list.case
      by (simp add: run_rows.read_back)
  qed
qed

lemma trail_limit_zero: "pg_for_resource rows resource 0 = Inr [] \<and> for_resource es resource 0 = filter (\<lambda>e. au_resource e = resource) es"
  by (simp add: pg_for_resource_def for_resource_zero)

end
