(* ===== verification/S3Store.thy ===== *)
theory S3Store
  imports MediaStore EventIdentity
begin

text \<open>
  The S3 media store (\<open>adapters/outbound/object_storage/s3.py\<close>). The bucket is a service outside the
  repository: its state is a type variable and its operations are a record of functions, an argument of
  every definition. What the code relies on is the predicate \<open>bucket_laws\<close>.
\<close>

section \<open>The bucket\<close>

record s3_object =
  ob_body :: bytes
  ob_content_type :: string
  ob_encryption :: string
  ob_metadata :: "(string \<times> string) list"

text \<open>\<open>put_object\<close>; \<open>head_object\<close> and \<open>get_object\<close>, None when the call raises; the keys of all pages of
  \<open>list_objects_v2\<close> under a prefix; \<open>delete_object\<close> and \<open>delete_objects\<close>, None when the call raises: one
  request deletes at most 1000 keys, as the service documents.\<close>

record 'b bucket =
  bk_put :: "'b \<Rightarrow> string \<Rightarrow> s3_object \<Rightarrow> 'b"
  bk_head :: "'b \<Rightarrow> string \<Rightarrow> s3_object option"
  bk_keys :: "'b \<Rightarrow> string \<Rightarrow> string list"
  bk_delete :: "'b \<Rightarrow> string list \<Rightarrow> 'b option"

definition DELETE_LIMIT :: nat where
  "DELETE_LIMIT = 1000"

definition bucket_laws :: "'b bucket \<Rightarrow> bool" where
  "bucket_laws c \<longleftrightarrow>
     (\<forall>b k v k'. bk_head c (bk_put c b k v) k' = (if k' = k then Some v else bk_head c b k')) \<and>
     (\<forall>b ks. case bk_delete c b ks of
        None \<Rightarrow> DELETE_LIMIT < length ks
      | Some b' \<Rightarrow> length ks \<le> DELETE_LIMIT \<and>
          (\<forall>k. bk_head c b' k = (if k \<in> set ks then None else bk_head c b k))) \<and>
     (\<forall>b p. distinct (bk_keys c b p) \<and> set (bk_keys c b p) = {k. prefix p k \<and> bk_head c b k \<noteq> None})"

section \<open>The store\<close>

definition ClientError :: exn where
  "ClientError = OtherError ''ClientError''"

definition EXPIRES_METADATA :: string where
  "EXPIRES_METADATA = ''expires-at-ms''"

definition server_side_encryption :: string where
  "server_side_encryption = ''AES256''"

definition s3_key :: "tenant_id \<Rightarrow> session_id \<Rightarrow> string \<Rightarrow> string" where
  "s3_key tenant i ref = tenant_id_value tenant @ ''/'' @ session_id_value i @ ''/'' @ ref"

definition payload_digest :: "bytes \<Rightarrow> string" where
  "payload_digest payload = take 16 (bytes_hexdigest payload)"

definition s3_put ::
  "'b bucket \<Rightarrow> 'b \<Rightarrow> tenant_id \<Rightarrow> session_id \<Rightarrow> media_kind \<Rightarrow> string \<Rightarrow> bytes \<Rightarrow> int \<Rightarrow> (stored_object \<times> 'b) result"
where
  "s3_put c b tenant i kind content_type payload expires_at_ms =
     (let digest = payload_digest payload in
      bindR (Identifier EvidenceRef (media_kind_value kind @ '':'' @ session_id_value i @ '':'' @ digest)) (\<lambda>ref.
        Inr (\<lparr>so_ref = ref, so_tenant = tenant, so_session_id = i, so_kind = kind,
               so_size_bytes = int (length payload), so_content_type = content_type,
               so_expires_at_ms = expires_at_ms\<rparr>,
             bk_put c b (s3_key tenant i (media_kind_value kind @ ''-'' @ digest))
               \<lparr>ob_body = payload, ob_content_type = content_type, ob_encryption = server_side_encryption,
                ob_metadata = [(EXPIRES_METADATA, show_int expires_at_ms)]\<rparr>)))"

text \<open>\<open>text.split(sep, n)\<close>.\<close>

fun split_max :: "nat \<Rightarrow> char \<Rightarrow> string \<Rightarrow> string list" where
  "split_max 0 c s = [s]"
| "split_max (Suc n) c s =
     (if c \<in> set s then takeWhile (\<lambda>x. x \<noteq> c) s # split_max n c (tl (dropWhile (\<lambda>x. x \<noteq> c) s)) else [s])"

definition s3_resolve :: "'b bucket \<Rightarrow> int \<Rightarrow> 'b \<Rightarrow> tenant_id \<Rightarrow> evidence_ref \<Rightarrow> string option result" where
  "s3_resolve c now b tenant ref =
     (case split_max 2 CHR '':'' (evidence_ref_value ref) of
        [kind, session_value, digest] \<Rightarrow>
          bindR (Identifier SessionId session_value) (\<lambda>i.
            let key = s3_key tenant i (kind @ ''-'' @ digest) in
            case bk_head c b key of
              None \<Rightarrow> Inr None
            | Some head \<Rightarrow>
                (case map_of (ob_metadata head) EXPIRES_METADATA of
                   None \<Rightarrow> Inr (Some key)
                 | Some expires_at \<Rightarrow>
                     (case py_int expires_at of
                        None \<Rightarrow> Inl ValueError
                      | Some t \<Rightarrow> Inr (if now \<ge> t then None else Some key))))
      | _ \<Rightarrow> Inl ValueError)"

definition s3_open :: "'b bucket \<Rightarrow> int \<Rightarrow> 'b \<Rightarrow> tenant_id \<Rightarrow> evidence_ref \<Rightarrow> bytes result" where
  "s3_open c now b tenant ref =
     bindR (s3_resolve c now b tenant ref) (\<lambda>key.
       case key of
         None \<Rightarrow> Inl (OtherError ''FileNotFoundError'')
       | Some k \<Rightarrow> (case bk_head c b k of None \<Rightarrow> Inl ClientError | Some o' \<Rightarrow> Inr (ob_body o')))"

definition s3_exists :: "'b bucket \<Rightarrow> int \<Rightarrow> 'b \<Rightarrow> tenant_id \<Rightarrow> evidence_ref \<Rightarrow> bool result" where
  "s3_exists c now b tenant ref = bindR (s3_resolve c now b tenant ref) (\<lambda>key. Inr (key \<noteq> None))"

definition s3_delete :: "'b bucket \<Rightarrow> int \<Rightarrow> 'b \<Rightarrow> tenant_id \<Rightarrow> evidence_ref \<Rightarrow> (bool \<times> 'b) result" where
  "s3_delete c now b tenant ref =
     bindR (s3_resolve c now b tenant ref) (\<lambda>key.
       case key of
         None \<Rightarrow> Inr (False, b)
       | Some k \<Rightarrow> (case bk_delete c b [k] of None \<Rightarrow> Inl ClientError | Some b' \<Rightarrow> Inr (True, b')))"

definition list_keys :: "'b bucket \<Rightarrow> 'b \<Rightarrow> tenant_id \<Rightarrow> session_id \<Rightarrow> string list" where
  "list_keys c b tenant i = bk_keys c b (tenant_id_value tenant @ ''/'' @ session_id_value i @ ''/'')"

definition s3_delete_for_session :: "'b bucket \<Rightarrow> 'b \<Rightarrow> tenant_id \<Rightarrow> session_id \<Rightarrow> (int \<times> 'b) result" where
  "s3_delete_for_session c b tenant i =
     (let keys = list_keys c b tenant i in
      if keys = [] then Inr (0, b)
      else (case bk_delete c b keys of None \<Rightarrow> Inl ClientError | Some b' \<Rightarrow> Inr (int (length keys), b')))"

definition s3_count_for_session :: "'b bucket \<Rightarrow> 'b \<Rightarrow> tenant_id \<Rightarrow> session_id \<Rightarrow> int" where
  "s3_count_for_session c b tenant i = int (length (list_keys c b tenant i))"

text \<open>A presigned URL lets its holder put one object under the key, with this content type and
  encryption and no metadata; \<open>url_for\<close> is what \<open>generate_presigned_url\<close> returned for the key.\<close>

definition s3_sign_upload ::
  "(string \<Rightarrow> string) \<Rightarrow> int \<Rightarrow> tenant_id \<Rightarrow> session_id \<Rightarrow> media_kind \<Rightarrow> int \<Rightarrow> string \<times> signed_url" where
  "s3_sign_upload url_for now tenant i kind ttl_seconds =
     (let key = s3_key tenant i (media_kind_value kind @ ''-upload'')
      in (key, \<lparr>su_url = url_for key, su_expires_at_ms = now + ttl_seconds * 1000\<rparr>))"

definition signed_put :: "'b bucket \<Rightarrow> 'b \<Rightarrow> string \<Rightarrow> string \<Rightarrow> bytes \<Rightarrow> 'b" where
  "signed_put c b key content_type payload =
     bk_put c b key \<lparr>ob_body = payload, ob_content_type = content_type, ob_encryption = server_side_encryption,
       ob_metadata = []\<rparr>"

definition s3_revoke_signatures :: "'b bucket \<Rightarrow> 'b \<Rightarrow> tenant_id \<Rightarrow> session_id \<Rightarrow> 'b result" where
  "s3_revoke_signatures c b tenant i = bindR (s3_delete_for_session c b tenant i) (\<lambda>(_, b'). Inr b')"

section \<open>The laws\<close>

lemma bucket_put: "bucket_laws c \<Longrightarrow> bk_head c (bk_put c b k v) k' = (if k' = k then Some v else bk_head c b k')"
  by (simp add: bucket_laws_def)

lemma bucket_delete:
  assumes "bucket_laws c"
  shows "case bk_delete c b ks of
      None \<Rightarrow> DELETE_LIMIT < length ks
    | Some b' \<Rightarrow> length ks \<le> DELETE_LIMIT \<and>
        (\<forall>k. bk_head c b' k = (if k \<in> set ks then None else bk_head c b k))"
  using assms unfolding bucket_laws_def by blast

lemma bucket_deletes:
  assumes "bucket_laws c" and "length ks \<le> DELETE_LIMIT"
  obtains b' where "bk_delete c b ks = Some b'"
    "\<And>k. bk_head c b' k = (if k \<in> set ks then None else bk_head c b k)"
  using bucket_delete [OF assms(1), where b = b and ks = ks] assms(2) that by (cases "bk_delete c b ks") auto

lemma bucket_keys:
  "bucket_laws c \<Longrightarrow> distinct (bk_keys c b p)"
  "bucket_laws c \<Longrightarrow> set (bk_keys c b p) = {k. prefix p k \<and> bk_head c b k \<noteq> None}"
  by (simp_all add: bucket_laws_def)

text \<open>A bucket kept as an association list, at which the hypothesis is instantiated.\<close>

definition listed_bucket :: "(string \<times> s3_object) list bucket" where
  "listed_bucket =
     \<lparr>bk_put = (\<lambda>b k v. AList.update k v b), bk_head = map_of,
      bk_keys = (\<lambda>b p. remdups (map fst (filter (\<lambda>(k, _). prefix p k) b))),
      bk_delete = (\<lambda>b ks. if DELETE_LIMIT < length ks then None else Some (filter (\<lambda>(k, _). k \<notin> set ks) b))\<rparr>"

lemma map_of_filter_keys: "map_of (filter (\<lambda>(k, _). P k) b) k = (if P k then map_of b k else None)"
  by (induction b) auto

lemma listed_bucket_laws: "bucket_laws listed_bucket"
  unfolding bucket_laws_def listed_bucket_def
  by (auto simp: update_conv' map_of_filter_keys map_of_eq_None_iff split: prod.splits)

section \<open>Keys\<close>

text \<open>A name without the separators of keys and references.\<close>

definition plain :: "string \<Rightarrow> bool" where
  "plain s \<longleftrightarrow> CHR ''/'' \<notin> set s \<and> CHR '':'' \<notin> set s"

lemma kind_chars: "CHR '':'' \<notin> set (media_kind_value k)" "CHR ''-'' \<notin> set (media_kind_value k)"
  by (cases k; simp)+

lemma sep_eq:
  "c \<notin> set xs \<Longrightarrow> c \<notin> set ys \<Longrightarrow> xs @ c # xs' = ys @ c # ys' \<longleftrightarrow> xs = ys \<and> xs' = ys'"
  by (metis append_Cons append_sep_eq)

lemma split_max_Suc: "c \<notin> set xs \<Longrightarrow> split_max (Suc n) c (xs @ c # ys) = xs # split_max n c ys"
  by (subst split_max.simps, subst takeWhile_append2, blast, subst dropWhile_append2, blast) simp

lemma split_ref:
  "CHR '':'' \<notin> set s \<Longrightarrow>
   split_max 2 CHR '':'' (media_kind_value kind @ CHR '':'' # s @ CHR '':'' # d) = [media_kind_value kind, s, d]"
  using split_max_Suc [OF kind_chars(1) [of kind], of 1 "s @ CHR '':'' # d"] split_max_Suc [of "CHR '':''" s 0 d]
  by (simp add: numeral_2_eq_2)

lemma prefix_sep: "c \<notin> set xs \<Longrightarrow> c \<notin> set ys \<Longrightarrow> prefix (xs @ c # xs') (ys @ c # ys') \<longleftrightarrow> xs = ys \<and> prefix xs' ys'"
  unfolding prefix_def by (metis append.assoc append_Cons sep_eq)

lemma session_text_eq: "session_id_value i = session_id_value j \<longleftrightarrow> i = j"
  by (cases i; cases j) simp

lemma s3_key_eq:
  assumes "plain (tenant_id_value t)" "plain (tenant_id_value t')" "plain (session_id_value i)" "plain (session_id_value i')"
  shows "s3_key t i (media_kind_value k @ CHR ''-'' # d) = s3_key t' i' (media_kind_value k' @ CHR ''-'' # d') \<longleftrightarrow>
    t = t' \<and> i = i' \<and> media_kind_value k = media_kind_value k' \<and> d = d'"
  using assms by (simp add: s3_key_def plain_def sep_eq kind_chars session_text_eq)

lemma s3_key_prefix:
  assumes "plain (tenant_id_value t)" "plain (tenant_id_value t')" "plain (session_id_value i)" "plain (session_id_value i')"
  shows "prefix (tenant_id_value t @ ''/'' @ session_id_value i @ ''/'') (s3_key t' i' ref) \<longleftrightarrow> t' = t \<and> i' = i"
  using assms by (auto simp: s3_key_def plain_def prefix_sep session_text_eq)

lemma ref_eq:
  assumes "plain (session_id_value i)" "plain (session_id_value i')"
  shows "media_kind_value k @ CHR '':'' # session_id_value i @ CHR '':'' # d =
      media_kind_value k' @ CHR '':'' # session_id_value i' @ CHR '':'' # d' \<longleftrightarrow>
    media_kind_value k = media_kind_value k' \<and> i = i' \<and> d = d'"
  using assms by (simp add: plain_def sep_eq kind_chars session_text_eq)

section \<open>Against the store in memory\<close>

datatype store_call =
    StoreMedia tenant_id session_id media_kind string bytes int
  | PurgeSession tenant_id session_id

fun memory_call :: "media_store \<Rightarrow> store_call \<Rightarrow> media_store" where
  "memory_call s (StoreMedia t i kind ct payload deadline) =
     (case media_put s t i kind ct payload deadline of Inl _ \<Rightarrow> s | Inr (_, s') \<Rightarrow> s')"
| "memory_call s (PurgeSession t i) = snd (media_delete_for_session s t i)"

fun s3_call :: "'b bucket \<Rightarrow> 'b \<Rightarrow> store_call \<Rightarrow> 'b" where
  "s3_call c b (StoreMedia t i kind ct payload deadline) =
     (case s3_put c b t i kind ct payload deadline of Inl _ \<Rightarrow> b | Inr (_, b') \<Rightarrow> b')"
| "s3_call c b (PurgeSession t i) = (case s3_delete_for_session c b t i of Inl _ \<Rightarrow> b | Inr (_, b') \<Rightarrow> b')"

fun stores_for :: "tenant_id \<Rightarrow> session_id \<Rightarrow> store_call \<Rightarrow> bool" where
  "stores_for t i (StoreMedia t' i' _ _ _ _) \<longleftrightarrow> t' = t \<and> i' = i"
| "stores_for t i (PurgeSession _ _) \<longleftrightarrow> False"

fun plain_call :: "store_call \<Rightarrow> bool" where
  "plain_call (StoreMedia t i _ _ _ _) \<longleftrightarrow> plain (tenant_id_value t) \<and> plain (session_id_value i)"
| "plain_call (PurgeSession t i) \<longleftrightarrow> plain (tenant_id_value t) \<and> plain (session_id_value i)"

text \<open>The object of one reference, in both stores.\<close>

definition holds_entry :: "s3_object option \<Rightarrow> media_entry option \<Rightarrow> session_id \<Rightarrow> bool" where
  "holds_entry object entry i \<longleftrightarrow>
     (case entry of
        None \<Rightarrow> object = None
      | Some e \<Rightarrow> so_session_id (me_stored e) = i \<and>
          (case object of
             None \<Rightarrow> False
           | Some x \<Rightarrow> ob_body x = me_payload e \<and>
               ob_metadata x = [(EXPIRES_METADATA, show_int (so_expires_at_ms (me_stored e)))]))"

definition mirrors :: "'b bucket \<Rightarrow> 'b \<Rightarrow> media_store \<Rightarrow> bool" where
  "mirrors c b s \<longleftrightarrow> distinct (map fst (ms_objects s)) \<and>
     (\<forall>t i k d. plain (tenant_id_value t) \<longrightarrow> plain (session_id_value i) \<longrightarrow>
       holds_entry (bk_head c b (s3_key t i (media_kind_value k @ CHR ''-'' # d)))
         (map_of (ms_objects s) (tenant_id_value t, media_kind_value k @ CHR '':'' # session_id_value i @ CHR '':'' # d)) i)"

lemma map_of_filter_distinct:
  "distinct (map fst xs) \<Longrightarrow> map_of (filter P xs) k =
     (case map_of xs k of None \<Rightarrow> None | Some v \<Rightarrow> if P (k, v) then Some v else None)"
  by (induction xs) (auto split: option.splits dest: map_of_SomeD simp: rev_image_eqI)

lemma distinct_filter_keys: "distinct (map fst xs) \<Longrightarrow> distinct (map fst (filter P xs))"
  by (induction xs) auto

lemma s3_put_total:
  "s3_put c b t i kind ct payload deadline =
     Inr (\<lparr>so_ref = EvidenceRef (media_ref_text kind i payload), so_tenant = t, so_session_id = i, so_kind = kind,
           so_size_bytes = int (length payload), so_content_type = ct, so_expires_at_ms = deadline\<rparr>,
       bk_put c b (s3_key t i (media_kind_value kind @ CHR ''-'' # payload_digest payload))
         \<lparr>ob_body = payload, ob_content_type = ct, ob_encryption = server_side_encryption,
          ob_metadata = [(EXPIRES_METADATA, show_int deadline)]\<rparr>)"
  using media_kind_nonblank [of kind i payload]
  by (simp add: s3_put_def Let_def payload_digest_def media_ref_text_def)

lemma delete_for_session_head:
  assumes "bucket_laws c" and "length (list_keys c b t i) \<le> DELETE_LIMIT"
  obtains b' where "s3_delete_for_session c b t i = Inr (int (length (list_keys c b t i)), b')"
    "\<And>k. bk_head c b' k =
      (if prefix (tenant_id_value t @ ''/'' @ session_id_value i @ ''/'') k then None else bk_head c b k)"
proof -
  obtain b1 where b1: "bk_delete c b (list_keys c b t i) = Some b1"
      "\<And>k. bk_head c b1 k = (if k \<in> set (list_keys c b t i) then None else bk_head c b k)"
    using bucket_deletes [OF assms] by blast
  have keys: "set (list_keys c b t i) =
      {k. prefix (tenant_id_value t @ ''/'' @ session_id_value i @ ''/'') k \<and> bk_head c b k \<noteq> None}"
    unfolding list_keys_def by (rule bucket_keys(2) [OF assms(1)])
  show thesis
  proof (cases "list_keys c b t i = []")
    case True
    have "bk_head c b k = (if prefix (tenant_id_value t @ ''/'' @ session_id_value i @ ''/'') k then None
        else bk_head c b k)" for k
      using keys True by auto
    with True show thesis by (intro that [of b]) (simp_all add: s3_delete_for_session_def)
  next
    case False
    have "bk_head c b1 k = (if prefix (tenant_id_value t @ ''/'' @ session_id_value i @ ''/'') k then None
        else bk_head c b k)" for k
      using b1(2) [of k] unfolding keys by auto
    with False b1(1) show thesis by (intro that [of b1]) (simp_all add: s3_delete_for_session_def)
  qed
qed

text \<open>What a session holds and is still sent fits in one deletion.\<close>

definition room :: "'b bucket \<Rightarrow> 'b \<Rightarrow> store_call list \<Rightarrow> bool" where
  "room c b calls \<longleftrightarrow> (\<forall>t i. plain (tenant_id_value t) \<longrightarrow> plain (session_id_value i) \<longrightarrow>
     length (list_keys c b t i) + length (filter (stores_for t i) calls) \<le> DELETE_LIMIT)"

lemma list_keys_length:
  assumes "bucket_laws c"
  shows "length (list_keys c b t i) =
    card {k. prefix (tenant_id_value t @ ''/'' @ session_id_value i @ ''/'') k \<and> bk_head c b k \<noteq> None}"
    and "finite {k. prefix (tenant_id_value t @ ''/'' @ session_id_value i @ ''/'') k \<and> bk_head c b k \<noteq> None}"
  using bucket_keys [OF assms, of b "tenant_id_value t @ ''/'' @ session_id_value i @ ''/''"]
    distinct_card [of "list_keys c b t i"] finite_set [of "list_keys c b t i"]
  by (simp_all add: list_keys_def)

lemma list_keys_mono:
  assumes "bucket_laws c" and "\<And>k. bk_head c b k = None \<Longrightarrow> bk_head c b' k = None"
  shows "length (list_keys c b' t i) \<le> length (list_keys c b t i)"
  unfolding list_keys_length(1) [OF assms(1)]
proof (intro card_mono list_keys_length(2) [OF assms(1)] subsetI)
  fix k assume "k \<in> {k. prefix (tenant_id_value t @ ''/'' @ session_id_value i @ ''/'') k \<and> bk_head c b' k \<noteq> None}"
  with assms(2) [of k] show "k \<in> {k. prefix (tenant_id_value t @ ''/'' @ session_id_value i @ ''/'') k \<and> bk_head c b k \<noteq> None}"
    by (cases "bk_head c b k") simp_all
qed

lemma list_keys_put:
  assumes "bucket_laws c" and "plain (tenant_id_value t)" "plain (tenant_id_value t')"
    "plain (session_id_value i)" "plain (session_id_value i')"
  shows "length (list_keys c (bk_put c b (s3_key t' i' r) v) t i) \<le>
    length (list_keys c b t i) + (if t' = t \<and> i' = i then 1 else 0)"
proof (cases "t' = t \<and> i' = i")
  case True
  let ?K = "{k. prefix (tenant_id_value t @ ''/'' @ session_id_value i @ ''/'') k \<and> bk_head c b k \<noteq> None}"
  have "card {k. prefix (tenant_id_value t @ ''/'' @ session_id_value i @ ''/'') k \<and>
      bk_head c (bk_put c b (s3_key t' i' r) v) k \<noteq> None} \<le> card (insert (s3_key t' i' r) ?K)"
    using list_keys_length(2) [OF assms(1), of t i b] by (intro card_mono) (auto simp: bucket_put [OF assms(1)])
  also have "\<dots> \<le> card ?K + 1" by (simp add: card_insert_le_m1 card_insert_if list_keys_length(2) [OF assms(1)])
  finally show ?thesis using True by (simp add: list_keys_length(1) [OF assms(1)])
next
  case False
  then have "\<not> prefix (tenant_id_value t @ ''/'' @ session_id_value i @ ''/'') (s3_key t' i' r)"
    using s3_key_prefix [OF assms(2-5)] by simp
  then have "{k. prefix (tenant_id_value t @ ''/'' @ session_id_value i @ ''/'') k \<and>
      bk_head c (bk_put c b (s3_key t' i' r) v) k \<noteq> None} =
    {k. prefix (tenant_id_value t @ ''/'' @ session_id_value i @ ''/'') k \<and> bk_head c b k \<noteq> None}"
    by (auto simp: bucket_put [OF assms(1)])
  with False show ?thesis by (simp only: list_keys_length(1) [OF assms(1)] if_False)
qed

lemma room_call:
  assumes "bucket_laws c" and "room c b (x # xs)" and "plain_call x"
  shows "room c (s3_call c b x) xs"
  unfolding room_def
proof (intro allI impI)
  fix t i assume ids: "plain (tenant_id_value t)" "plain (session_id_value i)"
  then have before: "length (list_keys c b t i) + length (filter (stores_for t i) (x # xs)) \<le> DELETE_LIMIT"
    using assms(2) by (simp only: room_def)
  show "length (list_keys c (s3_call c b x) t i) + length (filter (stores_for t i) xs) \<le> DELETE_LIMIT"
  proof (cases x)
    case (StoreMedia t' i' kind ct payload deadline)
    with assms(3) have ids': "plain (tenant_id_value t')" "plain (session_id_value i')" by simp_all
    have "length (list_keys c (s3_call c b x) t i) \<le> length (list_keys c b t i) + (if t' = t \<and> i' = i then 1 else 0)"
      unfolding StoreMedia s3_call.simps s3_put_total sum.case prod.case
      by (rule list_keys_put [OF assms(1) ids(1) ids'(1) ids(2) ids'(2)])
    with before show ?thesis by (cases "t' = t \<and> i' = i") (simp_all add: StoreMedia del: s3_call.simps)
  next
    case (PurgeSession t' i')
    have "length (list_keys c (s3_call c b x) t i) \<le> length (list_keys c b t i)"
    proof (rule list_keys_mono [OF assms(1)])
      fix k assume "bk_head c b k = None"
      then show "bk_head c (s3_call c b x) k = None"
        using bucket_delete [OF assms(1), where b = b and ks = "list_keys c b t' i'"]
        by (auto simp: PurgeSession s3_delete_for_session_def Let_def split: option.splits)
    qed
    with before show ?thesis by (simp add: PurgeSession)
  qed
qed

lemma mirrors_put:
  assumes "bucket_laws c" and "mirrors c b s" and "plain_call (StoreMedia t i kind ct payload deadline)"
  shows "mirrors c (s3_call c b (StoreMedia t i kind ct payload deadline))
    (memory_call s (StoreMedia t i kind ct payload deadline))"
proof -
  have ids: "plain (tenant_id_value t)" "plain (session_id_value i)" using assms(3) by simp_all
  have ref: "media_ref_text kind i payload =
      media_kind_value kind @ CHR '':'' # session_id_value i @ CHR '':'' # payload_digest payload"
    by (simp add: media_ref_text_def payload_digest_def)
  show ?thesis
    using assms(2) unfolding mirrors_def memory_call.simps s3_call.simps media_put_total s3_put_total ref
    by (auto simp: distinct_update bucket_put [OF assms(1)] s3_key_eq ids ref_eq holds_entry_def)
qed

lemma mirrors_purge:
  assumes "bucket_laws c" and "mirrors c b s" and "plain_call (PurgeSession t i)"
    and "length (list_keys c b t i) \<le> DELETE_LIMIT"
  shows "mirrors c (s3_call c b (PurgeSession t i)) (memory_call s (PurgeSession t i))"
proof -
  have ids: "plain (tenant_id_value t)" "plain (session_id_value i)" using assms(3) by simp_all
  have unique: "distinct (map fst (ms_objects s))" using assms(2) by (simp add: mirrors_def)
  obtain b' where b': "s3_delete_for_session c b t i = Inr (int (length (list_keys c b t i)), b')"
      "\<And>k. bk_head c b' k =
        (if prefix (tenant_id_value t @ ''/'' @ session_id_value i @ ''/'') k then None else bk_head c b k)"
    using delete_for_session_head [OF assms(1,4)] by blast
  have "holds_entry (bk_head c b' (s3_key t' i' (media_kind_value k @ CHR ''-'' # d)))
      (map_of (filter (\<lambda>ke. \<not> object_of_session t i ke) (ms_objects s))
        (tenant_id_value t', media_kind_value k @ CHR '':'' # session_id_value i' @ CHR '':'' # d)) i'"
    if "plain (tenant_id_value t')" "plain (session_id_value i')" for t' i' k d
  proof -
    have "holds_entry (bk_head c b (s3_key t' i' (media_kind_value k @ CHR ''-'' # d)))
        (map_of (ms_objects s) (tenant_id_value t', media_kind_value k @ CHR '':'' # session_id_value i' @ CHR '':'' # d)) i'"
      using assms(2) that unfolding mirrors_def by blast
    moreover have "(object_of_session t i ((tenant_id_value t', x), e)) = (t' = t \<and> i' = i)"
      if "so_session_id (me_stored e) = i'" for x e
      using that by (simp add: object_of_session_def)
    ultimately show ?thesis
      unfolding map_of_filter_distinct [OF unique] b'(2) s3_key_prefix [OF ids(1) that(1) ids(2) that(2)]
      by (cases "t' = t \<and> i' = i") (auto simp: holds_entry_def split: option.split_asm)
  qed
  moreover have "ms_objects (memory_call s (PurgeSession t i)) =
      filter (\<lambda>ke. \<not> object_of_session t i ke) (ms_objects s)"
    by (simp add: media_delete_for_session_def)
  ultimately show ?thesis
    using distinct_filter_keys [OF unique] unfolding mirrors_def s3_call.simps b'(1) sum.case prod.case by presburger
qed

lemma mirrors_calls:
  assumes "bucket_laws c"
  shows "mirrors c b s \<Longrightarrow> room c b calls \<Longrightarrow> list_all plain_call calls \<Longrightarrow>
    mirrors c (foldl (s3_call c) b calls) (foldl memory_call s calls)"
proof (induction calls arbitrary: b s)
  case (Cons x xs)
  have "mirrors c (s3_call c b x) (memory_call s x)"
  proof (cases x)
    case (StoreMedia t i kind ct payload deadline)
    with Cons.prems show ?thesis using mirrors_put [OF assms] by (simp del: s3_call.simps memory_call.simps)
  next
    case (PurgeSession t i)
    with Cons.prems have "plain (tenant_id_value t)" "plain (session_id_value i)" by simp_all
    with Cons.prems(2) have "length (list_keys c b t i) \<le> DELETE_LIMIT"
      unfolding room_def by (meson add_leD1)
    with PurgeSession Cons.prems show ?thesis
      using mirrors_purge [OF assms] by (simp del: s3_call.simps memory_call.simps)
  qed
  moreover have "room c (s3_call c b x) xs" by (rule room_call [OF assms Cons.prems(2)]) (use Cons.prems in simp)
  ultimately show ?case using Cons by simp
qed simp

lemma session_named: "py_strip (session_id_value i) \<noteq> [] \<Longrightarrow> Identifier SessionId (session_id_value i) = Inr i"
  by (auto simp: Identifier_def)

lemma open_mirrored:
  assumes "mirrors c b s" and "plain (tenant_id_value t)" "plain (session_id_value i)"
    and "Identifier SessionId (session_id_value i) = Inr i"
  shows "s3_open c now b t (EvidenceRef (media_kind_value k @ CHR '':'' # session_id_value i @ CHR '':'' # d)) =
    fst (media_open now s t (EvidenceRef (media_kind_value k @ CHR '':'' # session_id_value i @ CHR '':'' # d)))"
proof -
  let ?key = "s3_key t i (media_kind_value k @ CHR ''-'' # d)"
  let ?ref = "media_kind_value k @ CHR '':'' # session_id_value i @ CHR '':'' # d"
  have held: "holds_entry (bk_head c b ?key) (map_of (ms_objects s) (tenant_id_value t, ?ref)) i"
    using assms(1-3) by (simp add: mirrors_def)
  have "s3_resolve c now b t (EvidenceRef ?ref) =
      Inr (case map_of (ms_objects s) (tenant_id_value t, ?ref) of
        None \<Rightarrow> None | Some e \<Rightarrow> if expired now e then None else Some ?key)"
    using held assms(3,4) unfolding s3_resolve_def evidence_ref.sel split_ref [OF assms(3) [unfolded plain_def, THEN conjunct2]]
    by (auto simp: holds_entry_def py_int_show_int expired_def split: option.splits)
  then show ?thesis
    using held by (auto simp: s3_open_def media_open_def live_def Let_def holds_entry_def split: option.splits)
qed

text \<open>
  C14: The media store in S3 behaves as the one in memory. After any sequence of stores and of deletions of
  sessions, by any tenants, opening at any time a reference of the shape the stores give out
  (\<open>kind:session:digest\<close>, whether or not an object was stored under it) gives the same bytes or the same
  failure in both. This holds over any bucket that keeps the laws of its service and starts empty, for
  tenants and sessions whose identifiers have no slash and no colon in them, and as long as no session is
  sent more than 1000 objects, the most that one request of the service deletes.
\<close>

theorem s3_refines_memory:
  assumes "bucket_laws c" and "bk_head c b = (\<lambda>_. None)" and "list_all plain_call calls"
    and "\<And>t i. length (filter (stores_for t i) calls) \<le> 1000"
    and "plain (tenant_id_value t)" "plain (session_id_value i)" "py_strip (session_id_value i) \<noteq> []"
  shows "let ref = EvidenceRef (media_kind_value k @ '':'' @ session_id_value i @ '':'' @ d) in
    s3_open c now (foldl (s3_call c) b calls) t ref =
      fst (media_open now (foldl memory_call empty_media calls) t ref)"
proof -
  have "mirrors c b empty_media"
    by (simp add: mirrors_def empty_media_def assms(2) holds_entry_def)
  moreover have "room c b calls"
    using assms(4) by (simp add: room_def list_keys_length(1) [OF assms(1)] assms(2) DELETE_LIMIT_def)
  ultimately have "mirrors c (foldl (s3_call c) b calls) (foldl memory_call empty_media calls)"
    by (rule mirrors_calls [OF assms(1)]) (rule assms(3))
  then show ?thesis
    using open_mirrored [OF _ assms(5,6) session_named [OF assms(7)]] by (simp add: Let_def)
qed

theorem s3_refines_memory_witness:
  "s3_open listed_bucket 9 (foldl (s3_call listed_bucket) []
       [StoreMedia (TenantId ''t'') (SessionId ''s'') RAW_MEDIA ''audio/wav'' [1, 2] 10,
        StoreMedia (TenantId ''t'') (SessionId ''u'') RAW_MEDIA ''audio/wav'' [3] 10,
        PurgeSession (TenantId ''t'') (SessionId ''u'')])
     (TenantId ''t'') (EvidenceRef (''raw_media:s:'' @ payload_digest [1, 2])) =
   fst (media_open 9 (foldl memory_call empty_media
       [StoreMedia (TenantId ''t'') (SessionId ''s'') RAW_MEDIA ''audio/wav'' [1, 2] 10,
        StoreMedia (TenantId ''t'') (SessionId ''u'') RAW_MEDIA ''audio/wav'' [3] 10,
        PurgeSession (TenantId ''t'') (SessionId ''u'')])
     (TenantId ''t'') (EvidenceRef (''raw_media:s:'' @ payload_digest [1, 2])))"
  using s3_refines_memory [where c = listed_bucket and b = "[]" and t = "TenantId ''t''" and i = "SessionId ''s''"
      and k = RAW_MEDIA and d = "payload_digest [1, 2]" and now = 9 and
      calls = "[StoreMedia (TenantId ''t'') (SessionId ''s'') RAW_MEDIA ''audio/wav'' [1, 2] 10,
        StoreMedia (TenantId ''t'') (SessionId ''u'') RAW_MEDIA ''audio/wav'' [3] 10,
        PurgeSession (TenantId ''t'') (SessionId ''u'')]", OF listed_bucket_laws _ _ le_trans [OF length_filter_le]]
  by (simp add: Let_def plain_def listed_bucket_def py_strip_Nil_iff py_isspace_def del: foldl_Cons)

section \<open>Where it does not\<close>

text \<open>A deletion revokes the signatures first, and revoking deletes: the deletion that follows always
  counts nothing, whatever was erased.\<close>

lemma deletion_counts_nothing:
  assumes "bucket_laws c" and "s3_revoke_signatures c b t i = Inr b'"
  shows "s3_delete_for_session c b' t i = Inr (0, b')"
proof (cases "length (list_keys c b t i) \<le> DELETE_LIMIT")
  case True
  obtain b1 where b1: "s3_delete_for_session c b t i = Inr (int (length (list_keys c b t i)), b1)"
      "\<And>k. bk_head c b1 k =
        (if prefix (tenant_id_value t @ ''/'' @ session_id_value i @ ''/'') k then None else bk_head c b k)"
    using delete_for_session_head [OF assms(1) True] by blast
  with assms(2) have "b1 = b'" by (simp add: s3_revoke_signatures_def)
  with b1(2) have "list_keys c b' t i = []"
    using bucket_keys(2) [OF assms(1)] by (simp add: list_keys_def flip: set_empty2)
  then show ?thesis by (simp add: s3_delete_for_session_def)
next
  case False
  then have "s3_delete_for_session c b t i = Inl ClientError"
    using bucket_delete [OF assms(1), where b = b and ks = "list_keys c b t i"]
    by (auto simp: s3_delete_for_session_def Let_def split: option.splits)
  with assms(2) show ?thesis by (simp add: s3_revoke_signatures_def)
qed

text \<open>A session with more than 1000 objects cannot be erased: its keys go in one request, which the service
  refuses.\<close>

lemma large_session_not_deletable:
  assumes "bucket_laws c" and "1000 < length (list_keys c b t i)"
  shows "s3_delete_for_session c b t i = Inl ClientError"
  using bucket_delete [OF assms(1), where b = b and ks = "list_keys c b t i"] assms(2)
  by (auto simp: s3_delete_for_session_def Let_def DELETE_LIMIT_def split: option.splits)

text \<open>A reference of another shape fails differently in the two stores.\<close>

lemma malformed_reference_differs:
  "s3_open c now b t (EvidenceRef ''x'') = Inl ValueError \<and>
   fst (media_open now empty_media t (EvidenceRef ''x'')) = Inl (OtherError ''FileNotFoundError'')"
  by (simp add: s3_open_def s3_resolve_def media_open_def live_def empty_media_def numeral_2_eq_2)

text \<open>An object uploaded through a signed URL has no deadline: it opens at any time.\<close>

lemma signed_upload_never_expires:
  assumes "bucket_laws c" and "plain (session_id_value i)" and "py_strip (session_id_value i) \<noteq> []"
  shows "s3_open c now (signed_put c b (fst (s3_sign_upload url_for signed_at t i kind ttl)) ct payload) t
    (EvidenceRef (media_kind_value kind @ CHR '':'' # session_id_value i @ CHR '':'' # ''upload'')) = Inr payload"
  unfolding s3_open_def s3_resolve_def evidence_ref.sel split_ref [OF assms(2) [unfolded plain_def, THEN conjunct2]]
  by (simp add: session_named [OF assms(3)] s3_sign_upload_def signed_put_def Let_def bucket_put [OF assms(1)])

text \<open>A tenant whose name continues another tenant's with a separator loses its media to the deletion of
  the other's session.\<close>

lemma deletion_crosses_tenants:
  assumes "bucket_laws c" and "s3_delete_for_session c b (TenantId ''a'') (SessionId ''b'') = Inr (n, b')"
  shows "bk_head c b' (s3_key (TenantId ''a/b'') (SessionId ''c'') ref) = None"
proof (cases "length (list_keys c b (TenantId ''a'') (SessionId ''b'')) \<le> DELETE_LIMIT")
  case True
  then show ?thesis
    using assms(2) by (elim delete_for_session_head [OF assms(1)]) (simp add: s3_key_def)
next
  case False
  then show ?thesis
    using large_session_not_deletable [OF assms(1)] assms(2) by (simp add: DELETE_LIMIT_def)
qed

end
