(* ===== verification/RedisStream.thy ===== *)
theory RedisStream
  imports Cache Json RowMapping
begin

text \<open>
  The stream state and the leases in Redis (\<open>RedisStreamState\<close> of \<open>adapters/outbound/cache/redis_state.py\<close>),
  against the ones in memory. The server is an argument as in RedisQuota: a type variable for its state,
  its commands as a record of functions at the server's time in milliseconds, and \<open>string_commands\<close> for
  what the code relies on.
\<close>

section \<open>The service\<close>

text \<open>\<open>GET\<close>; \<open>SET\<close> with \<open>EX\<close>; \<open>SET\<close> with \<open>NX\<close> and \<open>EX\<close>, true when the key was set; \<open>DEL\<close>.\<close>

record 'r redis_strings =
  rs_get :: "'r \<Rightarrow> int \<Rightarrow> string \<Rightarrow> string option"
  rs_set :: "'r \<Rightarrow> int \<Rightarrow> string \<Rightarrow> string \<Rightarrow> int \<Rightarrow> 'r"
  rs_set_nx :: "'r \<Rightarrow> int \<Rightarrow> string \<Rightarrow> string \<Rightarrow> int \<Rightarrow> bool \<times> 'r"
  rs_delete :: "'r \<Rightarrow> string list \<Rightarrow> 'r"

text \<open>A key that was set with a positive time to live holds its value until its deadline; \<open>NX\<close> sets it
  only when it is absent; and nothing else changes.\<close>

definition set_law :: "'r redis_strings \<Rightarrow> bool" where
  "set_law c \<longleftrightarrow> (\<forall>r now k v ttl later k'. if 0 < ttl \<and> now \<le> later
     then rs_get c (rs_set c r now k v ttl) later k' =
       (if k' = k then (if later < now + ttl * 1000 then Some v else None) else rs_get c r later k')
     else True)"

definition set_nx_law :: "'r redis_strings \<Rightarrow> bool" where
  "set_nx_law c \<longleftrightarrow> (\<forall>r now k v ttl. if 0 < ttl
     then rs_set_nx c r now k v ttl = (if rs_get c r now k = None then (True, rs_set c r now k v ttl) else (False, r))
     else True)"

definition delete_law :: "'r redis_strings \<Rightarrow> bool" where
  "delete_law c \<longleftrightarrow> (\<forall>r ks now k.
     rs_get c (rs_delete c r ks) now k = (if k \<in> set ks then None else rs_get c r now k))"

definition string_commands :: "'r redis_strings \<Rightarrow> bool" where
  "string_commands c \<longleftrightarrow> set_law c \<and> set_nx_law c \<and> delete_law c"

section \<open>Snapshots as JSON\<close>

definition STATE_PREFIX :: string where
  "STATE_PREFIX = ''stream:state:''"

definition LEASE_PREFIX :: string where
  "LEASE_PREFIX = ''stream:lease:''"

definition snapshot_payload :: "stream_snapshot \<Rightarrow> json" where
  "snapshot_payload sn =
     JMap [(''session_id'', JStr (session_id_value (sn_session_id sn))),
       (''highest_audio_seq'', JInt (sn_highest_audio_seq sn)),
       (''highest_video_seq'', JInt (sn_highest_video_seq sn)),
       (''finalized_through_ms'', JInt (sn_finalized_through_ms sn)),
       (''queue_depth'', JInt (sn_queue_depth sn)),
       (''gaps'', JSeq (map (\<lambda>gap. JSeq [JInt (first_missing gap), JInt (last_missing gap)]) (sn_gaps sn)))]"

text \<open>A value of another type than the field's cannot be represented in it and counts as a type error.\<close>

definition payload_number :: "json \<Rightarrow> int result" where
  "payload_number v = (case as_int v of None \<Rightarrow> Inl TypeError | Some i \<Rightarrow> Inr i)"

fun payload_text :: "json \<Rightarrow> string result" where
  "payload_text (JStr s) = Inr s"
| "payload_text _ = Inl TypeError"

fun gap_of_json :: "json \<Rightarrow> sequence_gap result" where
  "gap_of_json (JSeq [first, final]) =
     bindR (payload_number first) (\<lambda>a. bindR (payload_number final) (\<lambda>b.
       Inr \<lparr>first_missing = a, last_missing = b\<rparr>))"
| "gap_of_json (JSeq _) = Inl ValueError"
| "gap_of_json _ = Inl TypeError"

fun gaps_of_json :: "json \<Rightarrow> sequence_gap list result" where
  "gaps_of_json (JSeq vs) = mapR gap_of_json vs"
| "gaps_of_json _ = Inl TypeError"

definition snapshot_of_payload :: "(string \<times> json) list \<Rightarrow> stream_snapshot result" where
  "snapshot_of_payload payload =
     bindR (bindR (bindR (json_key payload ''session_id'') payload_text) (Identifier SessionId)) (\<lambda>i.
     bindR (bindR (json_key payload ''highest_audio_seq'') payload_number) (\<lambda>audio.
     bindR (bindR (json_key payload ''highest_video_seq'') payload_number) (\<lambda>video.
     bindR (bindR (json_key payload ''finalized_through_ms'') payload_number) (\<lambda>through.
     bindR (bindR (json_key payload ''queue_depth'') payload_number) (\<lambda>depth.
     bindR (gaps_of_json (get_or payload ''gaps'' (JSeq []))) (\<lambda>gaps.
       Inr \<lparr>sn_session_id = i, sn_highest_audio_seq = audio, sn_highest_video_seq = video,
            sn_finalized_through_ms = through, sn_queue_depth = depth, sn_gaps = gaps\<rparr>))))))"

section \<open>The store\<close>

definition redis_load :: "'r redis_strings \<Rightarrow> int \<Rightarrow> 'r \<Rightarrow> session_id \<Rightarrow> stream_snapshot option result" where
  "redis_load c now r i =
     (case rs_get c r now (STATE_PREFIX @ session_id_value i) of
        None \<Rightarrow> Inr None
      | Some raw \<Rightarrow>
          (case json_loads raw of
             None \<Rightarrow> Inl ValueError
           | Some (JMap payload) \<Rightarrow> bindR (snapshot_of_payload payload) (\<lambda>sn. Inr (Some sn))
           | Some _ \<Rightarrow> Inl TypeError))"

text \<open>The payload has no float: the printer of floats is not used.\<close>

definition redis_save :: "'r redis_strings \<Rightarrow> int \<Rightarrow> 'r \<Rightarrow> stream_snapshot \<Rightarrow> int \<Rightarrow> 'r result" where
  "redis_save c now r sn ttl_seconds =
     bindR (json_dumps '' '' (\<lambda>_. []) (snapshot_payload sn)) (\<lambda>raw.
       Inr (rs_set c r now (STATE_PREFIX @ session_id_value (sn_session_id sn)) raw ttl_seconds))"

definition redis_clear :: "'r redis_strings \<Rightarrow> 'r \<Rightarrow> session_id \<Rightarrow> 'r" where
  "redis_clear c r i = rs_delete c r [STATE_PREFIX @ session_id_value i, LEASE_PREFIX @ session_id_value i]"

definition redis_acquire_lease :: "'r redis_strings \<Rightarrow> int \<Rightarrow> 'r \<Rightarrow> session_id \<Rightarrow> int \<Rightarrow> bool \<times> 'r" where
  "redis_acquire_lease c now r i ttl_seconds = rs_set_nx c r now (LEASE_PREFIX @ session_id_value i) ''held'' ttl_seconds"

definition redis_release_lease :: "'r redis_strings \<Rightarrow> 'r \<Rightarrow> session_id \<Rightarrow> 'r" where
  "redis_release_lease c r i = rs_delete c r [LEASE_PREFIX @ session_id_value i]"

text \<open>The calls of Cache, on the server; a call that raises changes nothing.\<close>

fun do_redis_op :: "'r redis_strings \<Rightarrow> 'r \<Rightarrow> int \<times> stream_op \<Rightarrow> 'r" where
  "do_redis_op c r (now, Load i) = r"
| "do_redis_op c r (now, Save sn ttl) = (case redis_save c now r sn ttl of Inl _ \<Rightarrow> r | Inr r' \<Rightarrow> r')"
| "do_redis_op c r (now, Clear i) = redis_clear c r i"
| "do_redis_op c r (now, Acquire i ttl) = snd (redis_acquire_lease c now r i ttl)"
| "do_redis_op c r (now, Release i) = redis_release_lease c r i"

section \<open>A snapshot read back\<close>

lemma exact_items_map: "(\<And>x. x \<in> set xs \<Longrightarrow> exact_json (f x)) \<Longrightarrow> exact_items (map f xs)"
  by (induction xs) simp_all

lemma snapshot_exact: "exact_json (snapshot_payload sn)"
  by (simp add: snapshot_payload_def exact_items_map)

lemma snapshot_dumpable: "dumpable (snapshot_payload sn)"
  by (simp add: snapshot_payload_def list_all_iff)

lemma gaps_read_back:
  "mapR gap_of_json (map (\<lambda>gap. JSeq [JInt (first_missing gap), JInt (last_missing gap)]) gaps) = Inr gaps"
  by (induction gaps) (simp_all add: payload_number_def)

lemma snapshot_read_back:
  assumes "py_strip (session_id_value (sn_session_id sn)) \<noteq> []"
  shows "\<exists>payload. json_loads (dumps '' '' fr (snapshot_payload sn)) = Some (JMap payload) \<and>
    snapshot_of_payload payload = Inr sn"
proof -
  have "json_loads (dumps '' '' fr (snapshot_payload sn)) = Some (snapshot_payload sn)"
    by (rule loads_dumps [OF snapshot_exact]) (simp add: json_ws_def)
  moreover have "Identifier SessionId (session_id_value (sn_session_id sn)) = Inr (sn_session_id sn)"
    using assms by (cases "sn_session_id sn") (auto simp: Identifier_def)
  ultimately show ?thesis
    by (simp add: snapshot_payload_def snapshot_of_payload_def json_key_def payload_number_def gaps_read_back get_or_def)
qed

section \<open>Against the state in memory\<close>

definition saved_text :: "stream_snapshot \<Rightarrow> string" where
  "saved_text sn = dumps '' '' (\<lambda>_. []) (snapshot_payload sn)"

fun timely :: "int \<times> stream_op \<Rightarrow> bool" where
  "timely (now, Save sn ttl) \<longleftrightarrow> 0 < ttl \<and> py_strip (session_id_value (sn_session_id sn)) \<noteq> []"
| "timely (now, Acquire i ttl) \<longleftrightarrow> 0 < ttl"
| "timely _ \<longleftrightarrow> True"

text \<open>From an instant on, a key is there exactly as long as its entry in memory has not expired.\<close>

definition live_entry :: "int \<Rightarrow> ('a \<times> int) option \<Rightarrow> 'a option" where
  "live_entry now entry = (case entry of None \<Rightarrow> None | Some (x, deadline) \<Rightarrow> if now < deadline then Some x else None)"

definition same_stream :: "'r redis_strings \<Rightarrow> int \<Rightarrow> 'r \<Rightarrow> stream_state \<Rightarrow> bool" where
  "same_stream c from r s \<longleftrightarrow> (\<forall>t i. from \<le> t \<longrightarrow>
     rs_get c r t (STATE_PREFIX @ session_id_value i) =
       map_option saved_text (live_entry t (map_of (st_snapshots s) (session_id_value i))) \<and>
     rs_get c r t (LEASE_PREFIX @ session_id_value i) =
       live_entry t (map_option (Pair ''held'') (map_of (st_leases s) (session_id_value i))))"

lemma key_simps [simp]:
  "STATE_PREFIX @ x = STATE_PREFIX @ y \<longleftrightarrow> x = y" "LEASE_PREFIX @ x = LEASE_PREFIX @ y \<longleftrightarrow> x = y"
  "STATE_PREFIX @ x \<noteq> LEASE_PREFIX @ y" "LEASE_PREFIX @ x \<noteq> STATE_PREFIX @ y"
  by (simp_all add: STATE_PREFIX_def LEASE_PREFIX_def)

lemma set_law: "string_commands c \<Longrightarrow> 0 < ttl \<Longrightarrow> now \<le> later \<Longrightarrow>
    rs_get c (rs_set c r now k v ttl) later k' =
      (if k' = k then (if later < now + ttl * 1000 then Some v else None) else rs_get c r later k')"
  by (simp add: string_commands_def set_law_def)

lemma set_nx_law: "string_commands c \<Longrightarrow> 0 < ttl \<Longrightarrow>
    rs_set_nx c r now k v ttl = (if rs_get c r now k = None then (True, rs_set c r now k v ttl) else (False, r))"
  by (simp add: string_commands_def set_nx_law_def)

lemma delete_law: "string_commands c \<Longrightarrow>
    rs_get c (rs_delete c r ks) now k = (if k \<in> set ks then None else rs_get c r now k)"
  by (simp add: string_commands_def delete_law_def)

lemma same_streamD:
  assumes "same_stream c from r s" and "from \<le> t"
  shows "rs_get c r t (STATE_PREFIX @ session_id_value i) =
      map_option saved_text (live_entry t (map_of (st_snapshots s) (session_id_value i)))"
    and "rs_get c r t (LEASE_PREFIX @ session_id_value i) =
      live_entry t (map_option (Pair ''held'') (map_of (st_leases s) (session_id_value i)))"
  using assms by (simp_all add: same_stream_def)

lemma save_text: "redis_save c now r sn ttl =
    Inr (rs_set c r now (STATE_PREFIX @ session_id_value (sn_session_id sn)) (saved_text sn) ttl)"
  by (simp add: redis_save_def json_dumps_def snapshot_dumpable saved_text_def)

lemma acquire_same:
  assumes "string_commands c" and "same_stream c from r s" and "from \<le> now" and "0 < ttl"
  shows "fst (redis_acquire_lease c now r i ttl) = fst (acquire_lease now s i ttl)"
  using same_streamD(2) [OF assms(2,3), of i]
  by (cases "map_of (st_leases s) (session_id_value i)")
    (auto simp: redis_acquire_lease_def set_nx_law [OF assms(1,4)] acquire_lease_def live_entry_def)

lemma same_stream_op:
  assumes "string_commands c" and "same_stream c from r s" and "from \<le> now" and "timely (now, oper)"
  shows "same_stream c now (do_redis_op c r (now, oper)) (do_stream_op s (now, oper))"
proof (cases oper)
  case (Load i)
  show ?thesis
    using assms(3) same_streamD [OF assms(2)] unfolding same_stream_def
    by (auto simp: Load stream_load_def delete_conv' live_entry_def split: option.splits)
next
  case (Save sn ttl)
  then show ?thesis
    using assms(3,4) same_streamD [OF assms(2)] unfolding same_stream_def
    by (auto simp: save_text stream_save_def set_law [OF assms(1)] update_conv' live_entry_def)
next
  case (Clear i)
  then show ?thesis
    using assms(3) same_streamD [OF assms(2)] unfolding same_stream_def
    by (auto simp: redis_clear_def stream_clear_def delete_law [OF assms(1)] delete_conv' live_entry_def)
next
  case (Acquire i ttl)
  then have ttl: "0 < ttl" using assms(4) by simp
  show ?thesis
    using assms(3) ttl same_streamD [OF assms(2)] same_streamD(2) [OF assms(2,3), of i] unfolding same_stream_def
    by (cases "map_of (st_leases s) (session_id_value i)")
      (auto simp: Acquire redis_acquire_lease_def acquire_lease_def set_nx_law [OF assms(1)] set_law [OF assms(1)]
        update_conv' live_entry_def)
next
  case (Release i)
  then show ?thesis
    using assms(3) same_streamD [OF assms(2)] unfolding same_stream_def
    by (auto simp: redis_release_lease_def release_lease_def delete_law [OF assms(1)] delete_conv' live_entry_def)
qed

lemma load_same:
  assumes "same_stream c from r s" and "from \<le> now"
    and "\<And>sn deadline. map_of (st_snapshots s) (session_id_value i) = Some (sn, deadline) \<Longrightarrow>
      py_strip (session_id_value (sn_session_id sn)) \<noteq> []"
  shows "redis_load c now r i = Inr (fst (stream_load now s i))"
proof (cases "map_of (st_snapshots s) (session_id_value i)")
  case None
  then show ?thesis
    using same_streamD(1) [OF assms(1,2), of i] by (simp add: redis_load_def stream_load_def live_entry_def)
next
  case (Some p)
  obtain sn deadline where p: "p = (sn, deadline)" by (cases p)
  obtain payload where "json_loads (saved_text sn) = Some (JMap payload)" "snapshot_of_payload payload = Inr sn"
    using snapshot_read_back [OF assms(3), of sn deadline "\<lambda>_. []"] Some p by (auto simp: saved_text_def)
  then show ?thesis
    using same_streamD(1) [OF assms(1,2), of i] Some p by (auto simp: redis_load_def stream_load_def live_entry_def)
qed

definition named_snapshots :: "stream_state \<Rightarrow> bool" where
  "named_snapshots s \<longleftrightarrow> (\<forall>i sn deadline. map_of (st_snapshots s) i = Some (sn, deadline) \<longrightarrow>
     py_strip (session_id_value (sn_session_id sn)) \<noteq> [])"

lemma named_snapshots_op: "timely x \<Longrightarrow> named_snapshots s \<Longrightarrow> named_snapshots (do_stream_op s x)"
  by (cases "(s, x)" rule: do_stream_op.cases)
    (auto simp: named_snapshots_def stream_load_def stream_save_def stream_clear_def acquire_lease_def
      release_lease_def update_conv' delete_conv' split: option.splits if_splits)

lemma same_stream_ops:
  assumes "string_commands c"
  shows "same_stream c from r s \<Longrightarrow> named_snapshots s \<Longrightarrow> sorted (from # map fst ops) \<Longrightarrow> list_all timely ops \<Longrightarrow>
    last (from # map fst ops) \<le> now \<Longrightarrow>
    same_stream c now (foldl (do_redis_op c) r ops) (foldl do_stream_op s ops) \<and>
    named_snapshots (foldl do_stream_op s ops)"
proof (induction ops arbitrary: "from" r s)
  case Nil
  then show ?case by (auto simp: same_stream_def)
next
  case (Cons x ops)
  obtain t oper where x: "x = (t, oper)" by (cases x)
  have "same_stream c t (do_redis_op c r x) (do_stream_op s x)"
    unfolding x using Cons.prems x by (intro same_stream_op [OF assms]) auto
  moreover have "named_snapshots (do_stream_op s x)"
    using Cons.prems by (intro named_snapshots_op) auto
  ultimately show ?case using Cons.IH [of t "do_redis_op c r x" "do_stream_op s x"] Cons.prems x by simp
qed

text \<open>
  C15: The stream state in Redis behaves as the one in memory. After any calls of any handlers, in the order
  of the server's clock and with positive times to live, loading the snapshot of a session gives the same
  snapshot or the same absence, read back from its JSON, and an attempt at a lease succeeds in both or in
  neither.
\<close>

theorem redis_stream_refines_memory:
  assumes "string_commands c" and "\<And>t k. rs_get c r t k = None"
    and "sorted (map fst ops)" and "list_all (\<lambda>x. timely x \<and> fst x \<le> now) ops" and "0 < ttl"
  shows "redis_load c now (foldl (do_redis_op c) r ops) i =
      Inr (fst (stream_load now (foldl do_stream_op empty_stream_state ops) i)) \<and>
    fst (redis_acquire_lease c now (foldl (do_redis_op c) r ops) i ttl) =
      fst (acquire_lease now (foldl do_stream_op empty_stream_state ops) i ttl)"
proof -
  have start: "same_stream c t r empty_stream_state" "named_snapshots empty_stream_state" for t
    using assms(2) by (simp_all add: same_stream_def empty_stream_state_def live_entry_def named_snapshots_def)
  let ?from = "case ops of [] \<Rightarrow> now | x # _ \<Rightarrow> fst x"
  have "sorted (?from # map fst ops)" using assms(3) by (cases ops) auto
  moreover have "last (?from # map fst ops) \<le> now"
    using assms(4) last_in_set [of "map fst ops"] by (cases ops) (auto simp: list_all_iff)
  moreover have "list_all timely ops" using assms(4) by (simp add: list_all_iff)
  ultimately have same: "same_stream c now (foldl (do_redis_op c) r ops) (foldl do_stream_op empty_stream_state ops)"
      "named_snapshots (foldl do_stream_op empty_stream_state ops)"
    using same_stream_ops [OF assms(1) start(1) start(2)] by blast+
  show ?thesis
  proof
    show "redis_load c now (foldl (do_redis_op c) r ops) i =
        Inr (fst (stream_load now (foldl do_stream_op empty_stream_state ops) i))"
      using same(2) by (intro load_same [OF same(1)]) (auto simp: named_snapshots_def)
  qed (rule acquire_same [OF assms(1) same(1) order_refl assms(5)])
qed

text \<open>A server that keeps every key with its deadline, at which the hypothesis is instantiated.\<close>

definition listed_strings :: "(string \<times> string \<times> int) list redis_strings" where
  "listed_strings =
     (let get = (\<lambda>r now k. live_entry now (map_of r k)); set' = (\<lambda>r now k v ttl. AList.update k (v, now + ttl * 1000) r)
      in \<lparr>rs_get = get, rs_set = set',
          rs_set_nx = (\<lambda>r now k v ttl. if get r now k = None then (True, set' r now k v ttl) else (False, r)),
          rs_delete = (\<lambda>r ks. filter (\<lambda>(k, _). k \<notin> set ks) r)\<rparr>)"

lemma map_of_without: "map_of (filter (\<lambda>(k, _). k \<notin> K) r) k = (if k \<in> K then None else map_of r k)"
  by (induction r) auto

lemma listed_strings_commands: "string_commands listed_strings"
  by (auto simp: string_commands_def set_law_def set_nx_law_def delete_law_def listed_strings_def Let_def
      update_conv' live_entry_def map_of_without split: option.splits)

definition sample_snapshot :: stream_snapshot where
  "sample_snapshot = \<lparr>sn_session_id = SessionId ''s1'', sn_highest_audio_seq = 4, sn_highest_video_seq = - 1,
     sn_finalized_through_ms = 1500, sn_queue_depth = 2, sn_gaps = [\<lparr>first_missing = 2, last_missing = 3\<rparr>]\<rparr>"

theorem redis_stream_refines_memory_witness:
  "redis_load listed_strings 31000
      (foldl (do_redis_op listed_strings) [] [(0, Acquire (SessionId ''s1'') 30), (1000, Save sample_snapshot 60)])
      (SessionId ''s1'') = Inr (Some sample_snapshot) \<and>
    fst (redis_acquire_lease listed_strings 31000
      (foldl (do_redis_op listed_strings) [] [(0, Acquire (SessionId ''s1'') 30), (1000, Save sample_snapshot 60)])
      (SessionId ''s1'') 30)"
proof -
  let ?ops = "[(0, Acquire (SessionId ''s1'') 30), (1000, Save sample_snapshot 60)]"
  let ?m = "foldl do_stream_op empty_stream_state ?ops"
  have named: "py_strip ''s1'' \<noteq> []" by (simp add: py_strip_Nil_iff py_isspace_def)
  have "fst (stream_load 31000 ?m (SessionId ''s1'')) = Some sample_snapshot"
    "fst (acquire_lease 31000 ?m (SessionId ''s1'') 30)"
    by (simp_all add: stream_load_def stream_save_def acquire_lease_def empty_stream_state_def sample_snapshot_def)
  moreover have "rs_get listed_strings [] t k = None" for t k
    by (simp add: listed_strings_def live_entry_def)
  moreover have "list_all (\<lambda>x. timely x \<and> fst x \<le> 31000) ?ops"
    using named by (simp add: sample_snapshot_def)
  ultimately show ?thesis
    using redis_stream_refines_memory [OF listed_strings_commands, where r = "[]" and ops = ?ops and now = 31000 and
        i = "SessionId ''s1''" and ttl = 30] by simp
qed

end
