(* ===== verification/RedisQuota.thy ===== *)
theory RedisQuota
  imports Cache EventIdentity
begin

text \<open>
  The quota guard in Redis (\<open>adapters/outbound/cache/redis_state.py\<close>), against the one in memory. Redis
  is a service outside the repository: its state is a type variable, its commands are a record of
  functions, each at the server's time in milliseconds, and \<open>counter_commands\<close> is what the code relies on.
\<close>

section \<open>The service\<close>

text \<open>\<open>GET\<close>; \<open>TTL\<close>; and \<open>INCRBY\<close> with \<open>EXPIRE\<close> in one transaction.\<close>

record 'r redis =
  rd_get :: "'r \<Rightarrow> int \<Rightarrow> string \<Rightarrow> string option"
  rd_ttl :: "'r \<Rightarrow> int \<Rightarrow> string \<Rightarrow> int"
  rd_incrby_expire :: "'r \<Rightarrow> int \<Rightarrow> string \<Rightarrow> int \<Rightarrow> int \<Rightarrow> 'r"

definition counter_value :: "string option \<Rightarrow> int option" where
  "counter_value v = (case v of None \<Rightarrow> Some 0 | Some s \<Rightarrow> if s = [] then Some 0 else py_int s)"

text \<open>A counter holds the sum until its deadline, and other keys are left alone. Nothing is said of what
  becomes of a counter at or after its deadline.\<close>

definition counter_commands :: "'r redis \<Rightarrow> bool" where
  "counter_commands c \<longleftrightarrow> (\<forall>r now k n ttl later k' old.
     (if k' \<noteq> k then rd_get c (rd_incrby_expire c r now k n ttl) later k' = rd_get c r later k'
      else if now \<le> later \<and> later < now + ttl * 1000 \<and> counter_value (rd_get c r now k) = Some old
      then rd_get c (rd_incrby_expire c r now k n ttl) later k = Some (show_int (old + n))
      else True))"

section \<open>The guard\<close>

record redis_quota =
  rq_limits :: "(string \<times> int) list"
  rq_window_seconds :: int

definition redis_quota_key :: "redis_quota \<Rightarrow> int \<Rightarrow> application_id \<Rightarrow> string \<Rightarrow> string" where
  "redis_quota_key q now app u =
     (let seconds = now div 1000; window = seconds div rq_window_seconds q
      in ''quota:'' @ application_id_value app @ '':'' @ u @ '':'' @ show_int window)"

text \<open>Two readings of the server's time: when the key is derived, and when it is read.\<close>

definition redis_quota_check ::
  "'r redis \<Rightarrow> redis_quota \<Rightarrow> int \<Rightarrow> int \<Rightarrow> 'r \<Rightarrow> application_id \<Rightarrow> string \<Rightarrow> int \<Rightarrow> quota_decision result" where
  "redis_quota_check c q keyed read r app u amount =
     (case map_of (rq_limits q) u of
        None \<Rightarrow> Inr \<lparr>qd_allowed = True, qd_remaining = - 1, qd_retry_after_seconds = 0, qd_reason = []\<rparr>
      | Some limit \<Rightarrow>
          let key = redis_quota_key q keyed app u in
          (case counter_value (rd_get c r read key) of
             None \<Rightarrow> Inl ValueError
           | Some used \<Rightarrow>
               let remaining = limit - used in
               if used + amount > limit
               then Inr \<lparr>qd_allowed = False, qd_remaining = max remaining 0,
                      qd_retry_after_seconds = max (rd_ttl c r read key) 1,
                      qd_reason = u @ '' quota of '' @ show_int limit @ '' per window exhausted''\<rparr>
               else Inr \<lparr>qd_allowed = True, qd_remaining = remaining - amount, qd_retry_after_seconds = 0, qd_reason = []\<rparr>))"

definition redis_quota_consume ::
  "'r redis \<Rightarrow> redis_quota \<Rightarrow> int \<Rightarrow> int \<Rightarrow> 'r \<Rightarrow> application_id \<Rightarrow> string \<Rightarrow> int \<Rightarrow> 'r" where
  "redis_quota_consume c q keyed now r app u amount =
     rd_incrby_expire c r now (redis_quota_key q keyed app u) amount (rq_window_seconds q)"

section \<open>Against the guard in memory\<close>

text \<open>A use of the quota: what is consumed, by whom, at which time.\<close>

type_synonym quota_use = "int \<times> application_id \<times> string \<times> int"

definition redis_use :: "'r redis \<Rightarrow> redis_quota \<Rightarrow> 'r \<Rightarrow> quota_use \<Rightarrow> 'r" where
  "redis_use c q r x = (case x of (now, app, u, n) \<Rightarrow> redis_quota_consume c q now now r app u n)"

definition memory_use :: "quota_guard \<Rightarrow> quota_use \<Rightarrow> quota_guard" where
  "memory_use g x = (case x of (now, app, u, n) \<Rightarrow> quota_consume now g app u n)"

text \<open>A unit without a colon. The key joins application, unit and window with colons: it is read back from
  the right, so an application may have colons in its name, a unit may not. The only unit the engine
  consumes is \<open>sessions\<close>.\<close>

definition separable :: "string \<Rightarrow> bool" where
  "separable u \<longleftrightarrow> CHR '':'' \<notin> set u"

lemma window_index: "0 < w \<Longrightarrow> (now div 1000) div w = now div (1000 * w :: int)"
  by (simp add: zdiv_zmult2_eq)

lemma last_sep_eq:
  assumes "c \<notin> set us" and "c \<notin> set vs" and "xs @ c # us = ys @ c # vs"
  shows "xs = ys \<and> us = vs"
proof -
  have "rev us @ c # rev xs = rev vs @ c # rev ys" using arg_cong [OF assms(3), of rev] by simp
  from append_sep_eq [OF _ _ this] assms(1,2) show ?thesis by simp
qed

lemma show_int_no_colon: "CHR '':'' \<notin> set (show_int i)"
  using show_nat_digit [of "CHR '':''"] by (auto simp: show_int_def digit_val_def)

lemma redis_quota_key_eq:
  assumes "separable u" "separable u'"
  shows "redis_quota_key q t app u = redis_quota_key q t' app' u' \<longleftrightarrow>
    app = app' \<and> u = u' \<and> t div 1000 div rq_window_seconds q = t' div 1000 div rq_window_seconds q"
proof
  let ?w = "show_int (t div 1000 div rq_window_seconds q)" and ?w' = "show_int (t' div 1000 div rq_window_seconds q)"
  assume "redis_quota_key q t app u = redis_quota_key q t' app' u'"
  then have "(application_id_value app @ CHR '':'' # u) @ CHR '':'' # ?w =
      (application_id_value app' @ CHR '':'' # u') @ CHR '':'' # ?w'"
    by (simp add: redis_quota_key_def Let_def)
  from last_sep_eq [OF show_int_no_colon show_int_no_colon this] have w: "?w = ?w'"
      and "application_id_value app @ CHR '':'' # u = application_id_value app' @ CHR '':'' # u'" by blast+
  from last_sep_eq [OF _ _ this(2)] assms have "application_id_value app = application_id_value app'" "u = u'"
    by (auto simp: separable_def)
  with w show "app = app' \<and> u = u' \<and> t div 1000 div rq_window_seconds q = t' div 1000 div rq_window_seconds q"
    by (cases app; cases app') (simp add: show_int_inj)
qed (simp add: redis_quota_key_def)

text \<open>With a colon in a unit two counters are one: the application \<open>a\<close> that uses the unit \<open>b:c\<close> spends what
  the application \<open>a:b\<close> may use of the unit \<open>c\<close>.\<close>

lemma colon_units_share_a_counter:
  "redis_quota_key q t (ApplicationId ''a'') ''b:c'' = redis_quota_key q t (ApplicationId ''a:b'') ''c''"
  by (simp add: redis_quota_key_def Let_def)

text \<open>What Redis holds from an instant on is what was consumed, in the window of every later instant.\<close>

definition counts_match :: "'r redis \<Rightarrow> redis_quota \<Rightarrow> int \<Rightarrow> 'r \<Rightarrow> quota_guard \<Rightarrow> bool" where
  "counts_match c q from r g \<longleftrightarrow> (\<forall>t app u. from \<le> t \<longrightarrow> separable u \<longrightarrow>
     counter_value (rd_get c r t (redis_quota_key q t app u)) = Some (consumed t g app u))"

definition same_windows :: "redis_quota \<Rightarrow> quota_guard \<Rightarrow> bool" where
  "same_windows q g \<longleftrightarrow> 0 < rq_window_seconds q \<and> qg_window_ms g = rq_window_seconds q * 1000 \<and>
     qg_limits g = rq_limits q"

lemma show_int_not_Nil: "show_int i \<noteq> []"
  by (simp add: show_int_def show_nat_not_Nil)

lemma counter_value_show: "counter_value (Some (show_int i)) = Some i"
  by (simp add: counter_value_def show_int_not_Nil py_int_show_int)

lemma same_window_near:
  fixes t now w :: int
  assumes "0 < w" and "t div 1000 div w = now div 1000 div w"
  shows "t < now + w * 1000"
proof -
  define W where "W = 1000 * w"
  have "W * (t div W) = W * (now div W)" using assms by (simp add: W_def window_index)
  moreover have "W * (t div W) + t mod W = t" "W * (now div W) + now mod W = now" by simp_all
  moreover have "t mod W < W" "0 \<le> now mod W" using assms(1) by (simp_all add: W_def)
  ultimately have "t < now + W" by linarith
  then show ?thesis by (simp add: W_def)
qed

lemma consumed_window:
  "t div qg_window_ms g = t' div qg_window_ms g \<Longrightarrow> consumed t g app u = consumed t' g app u"
  by (simp add: consumed_def quota_key_def)

lemma counts_match_use:
  assumes "counter_commands c" and "same_windows q g" and "counts_match c q from r g" and "from \<le> now" and "separable u"
  shows "counts_match c q now (redis_use c q r (now, app, u, n)) (memory_use g (now, app, u, n))"
  unfolding counts_match_def
proof (intro allI impI)
  fix t app' u' assume t: "now \<le> t" and s: "separable u'"
  let ?w = "rq_window_seconds q"
  let ?key = "redis_quota_key q now app u" and ?key' = "redis_quota_key q t app' u'"
  have w: "0 < ?w" "qg_window_ms g = 1000 * ?w" using assms(2) by (simp_all add: same_windows_def)
  have law: "if ?key' \<noteq> ?key then rd_get c (rd_incrby_expire c r now ?key n ?w) t ?key' = rd_get c r t ?key'
      else if now \<le> t \<and> t < now + ?w * 1000 \<and> counter_value (rd_get c r now ?key) = Some (consumed now g app u)
      then rd_get c (rd_incrby_expire c r now ?key n ?w) t ?key = Some (show_int (consumed now g app u + n)) else True"
    using assms(1) unfolding counter_commands_def by blast
  have before: "counter_value (rd_get c r t ?key') = Some (consumed t g app' u')"
    using assms(3,4) t s by (simp add: counts_match_def)
  have now: "counter_value (rd_get c r now ?key) = Some (consumed now g app u)"
    using assms(3,4,5) by (simp add: counts_match_def)
  have same: "?key' = ?key \<longleftrightarrow> app' = app \<and> u' = u \<and> t div qg_window_ms g = now div qg_window_ms g"
    unfolding redis_quota_key_eq [OF s assms(5)] w(2) window_index [OF w(1)] ..
  show "counter_value (rd_get c (redis_use c q r (now, app, u, n)) t ?key') =
      Some (consumed t (memory_use g (now, app, u, n)) app' u')"
  proof (cases "?key' = ?key")
    case True
    then have win: "app' = app" "u' = u" "t div qg_window_ms g = now div qg_window_ms g" using same by blast+
    have "t < now + ?w * 1000"
      using win(3) w by (intro same_window_near [OF w(1)]) (simp add: window_index)
    with law True now t have "rd_get c (redis_use c q r (now, app, u, n)) t ?key' = Some (show_int (consumed now g app u + n))"
      by (simp add: redis_use_def redis_quota_consume_def)
    then show ?thesis
      using win consumed_window [OF win(3), of app u] by (simp add: counter_value_show memory_use_def consumed_consume)
  next
    case False
    then have other: "\<not> (app' = app \<and> u' = u \<and> t div qg_window_ms g = now div qg_window_ms g)" using same by blast
    from False law have "rd_get c (redis_use c q r (now, app, u, n)) t ?key' = rd_get c r t ?key'"
      by (simp add: redis_use_def redis_quota_consume_def)
    then show ?thesis
      unfolding memory_use_def prod.case consumed_consume if_not_P [OF other] using before by simp
  qed
qed

lemma memory_use_frame: "same_windows q g \<Longrightarrow> same_windows q (memory_use g x)"
  by (simp add: same_windows_def memory_use_def split: prod.split)

lemma counts_match_uses:
  assumes "counter_commands c"
  shows "same_windows q g \<Longrightarrow> counts_match c q from r g \<Longrightarrow> sorted (from # map fst uses) \<Longrightarrow>
    list_all (\<lambda>(_, _, u, _). separable u) uses \<Longrightarrow> last (from # map fst uses) \<le> now \<Longrightarrow>
    counts_match c q now (foldl (redis_use c q) r uses) (foldl memory_use g uses) \<and>
    same_windows q (foldl memory_use g uses)"
proof (induction uses arbitrary: "from" r g)
  case Nil
  then show ?case by (auto simp: counts_match_def)
next
  case (Cons x uses)
  obtain t app u n where x: "x = (t, app, u, n)" by (cases x)
  have "counts_match c q t (redis_use c q r x) (memory_use g x)"
    unfolding x using Cons.prems x by (intro counts_match_use [OF assms]) auto
  moreover have "same_windows q (memory_use g x)" by (rule memory_use_frame [OF Cons.prems(1)])
  ultimately show ?case using Cons.IH [of "memory_use g x" t "redis_use c q r x"] Cons.prems x by simp
qed

text \<open>
  C16: The quota in Redis decides as the one in memory. After any uses by any applications of units without
  a colon in their names (the engine's only unit is \<open>sessions\<close>), in the order of the server's clock, a
  request for such a unit is allowed or refused alike, with the same remainder: the counter of a window
  never expires before its window ends, although every use sets its deadline anew, and no two applications
  share a counter, whatever their names. Only the announced delay differs. The server starts empty, and the
  clock does not pass into another window between the two readings a check makes of it.
\<close>

theorem redis_quota_refines_memory:
  assumes "counter_commands c" and "\<And>t k. rd_get c r t k = None" and "0 < rq_window_seconds q"
    and "sorted (map fst uses)" and "list_all (\<lambda>(t, _, u, _). t \<le> now \<and> separable u) uses"
    and "separable u"
  shows "\<exists>d. redis_quota_check c q now now (foldl (redis_use c q) r uses) app u amount = Inr d \<and>
    (case fst (quota_check now now (foldl memory_use (QuotaGuard (rq_limits q) (rq_window_seconds q)) uses) app u amount) of
       m \<Rightarrow> qd_allowed d = qd_allowed m \<and> qd_remaining d = qd_remaining m \<and> qd_reason d = qd_reason m)"
proof -
  let ?new = "QuotaGuard (rq_limits q) (rq_window_seconds q)"
  let ?g = "foldl memory_use ?new uses" and ?r = "foldl (redis_use c q) r uses"
  have start: "same_windows q ?new" "counts_match c q t r ?new" for t
    using assms(3) by (simp_all add: same_windows_def QuotaGuard_def counts_match_def consumed_def assms(2) counter_value_def)
  have match: "counts_match c q now ?r ?g \<and> same_windows q ?g"
  proof (cases uses)
    case Nil
    then show ?thesis using start by simp
  next
    case (Cons x xs)
    have "last (fst x # map fst uses) \<le> now"
      using assms(5) last_in_set [of "map fst uses"] Cons by (auto simp: list_all_iff)
    moreover have "list_all (\<lambda>(_, _, u, _). separable u) uses"
      using assms(5) by (auto simp: list_all_iff)
    ultimately show ?thesis
      using assms(4) Cons by (intro counts_match_uses [OF assms(1) start(1) start(2) [of "fst x"]]) simp_all
  qed
  then have held: "counter_value (rd_get c ?r now (redis_quota_key q now app u)) = Some (consumed now ?g app u)"
      and limits: "qg_limits ?g = rq_limits q"
    using assms(6) by (simp_all add: counts_match_def same_windows_def)
  obtain counts where used: "counts_get (qg_counts ?g) (quota_key now ?g app u) = (consumed now ?g app u, counts)"
    using counts_get_fst [of "qg_counts ?g" "quota_key now ?g app u"]
    by (cases "counts_get (qg_counts ?g) (quota_key now ?g app u)") (simp add: consumed_def)
  show ?thesis
    by (cases "map_of (rq_limits q) u")
      (simp_all add: redis_quota_check_def quota_check_def held limits used Let_def)
qed

text \<open>A server that keeps every counter with its deadline, at which the hypothesis is instantiated.\<close>

definition listed_redis :: "(string \<times> string \<times> int) list redis" where
  "listed_redis =
     (let get = (\<lambda>r now k. case map_of r k of None \<Rightarrow> None | Some (v, deadline) \<Rightarrow> if now < deadline then Some v else None)
      in \<lparr>rd_get = get, rd_ttl = (\<lambda>r now k. case map_of r k of None \<Rightarrow> - 2 | Some (v, deadline) \<Rightarrow> (deadline - now) div 1000),
          rd_incrby_expire = (\<lambda>r now k n ttl.
            AList.update k (show_int ((case counter_value (get r now k) of None \<Rightarrow> 0 | Some old \<Rightarrow> old) + n), now + ttl * 1000) r)\<rparr>)"

lemma listed_redis_commands: "counter_commands listed_redis"
  by (simp add: counter_commands_def listed_redis_def Let_def update_conv')

theorem redis_quota_refines_memory_witness:
  "\<exists>d. redis_quota_check listed_redis \<lparr>rq_limits = [(''sessions'', 2)], rq_window_seconds = 60\<rparr> 59000 59000
      (foldl (redis_use listed_redis \<lparr>rq_limits = [(''sessions'', 2)], rq_window_seconds = 60\<rparr>) []
        [(1000, ApplicationId ''a'', ''sessions'', 1), (58000, ApplicationId ''a'', ''sessions'', 1)])
      (ApplicationId ''a'') ''sessions'' 1 = Inr d \<and>
    (case fst (quota_check 59000 59000 (foldl memory_use (QuotaGuard [(''sessions'', 2)] 60)
        [(1000, ApplicationId ''a'', ''sessions'', 1), (58000, ApplicationId ''a'', ''sessions'', 1)])
        (ApplicationId ''a'') ''sessions'' 1) of
       m \<Rightarrow> qd_allowed d = qd_allowed m \<and> qd_remaining d = qd_remaining m)"
  using redis_quota_refines_memory [OF listed_redis_commands, where r = "[]" and now = 59000 and amount = 1 and
      q = "\<lparr>rq_limits = [(''sessions'', 2)], rq_window_seconds = 60\<rparr>" and app = "ApplicationId ''a''" and
      u = "''sessions''" and uses = "[(1000, ApplicationId ''a'', ''sessions'', 1), (58000, ApplicationId ''a'', ''sessions'', 1)]"]
  by (auto simp: listed_redis_def separable_def simp del: foldl_Cons)

end
