(* ===== verification/Telemetry.thy ===== *)
theory Telemetry
  imports Document Sequencing
begin

text \<open>
  \<open>adapters/outbound/telemetry\<close>: the counters, histograms and structured events of
  \<open>structured.py\<close> with the redaction of their fields, and the frozen clock of \<open>clock.py\<close>. Log lines are
  a list, in the order in which they are emitted.
\<close>

section \<open>Redaction\<close>

definition REDACTED_SUBSTRINGS :: "string list" where
  "REDACTED_SUBSTRINGS = [''text'', ''transcript'', ''token'', ''utterance'', ''word'', ''secret'', ''key'', ''audio'', ''frame'']"

definition REDACTED :: string where
  "REDACTED = ''[redacted]''"

text \<open>\<open>needle in text\<close>.\<close>

fun occurs_in :: "string \<Rightarrow> string \<Rightarrow> bool" where
  "occurs_in needle [] \<longleftrightarrow> needle = []"
| "occurs_in needle (c # cs) \<longleftrightarrow> take (length needle) (c # cs) = needle \<or> occurs_in needle cs"

definition redact :: "string \<Rightarrow> json \<Rightarrow> json" where
  "redact field v =
     (let lowered = py_lower field in
      if list_ex (\<lambda>marker. occurs_in marker lowered) REDACTED_SUBSTRINGS then JStr REDACTED else v)"

section \<open>Counters, histograms and events\<close>

record log_line =
  ll_name :: string
  ll_trace_id :: string
  ll_fields :: "(string \<times> json) list"

record structlog_telemetry =
  tm_counters :: "(string \<times> int) list"
  tm_histograms :: "(string \<times> rat list) list"
  tm_log :: "log_line list"

definition StructlogTelemetry :: structlog_telemetry where
  "StructlogTelemetry = \<lparr>tm_counters = [], tm_histograms = [], tm_log = []\<rparr>"

text \<open>The separator between the items of a joined list.\<close>

fun join_with :: "string \<Rightarrow> string list \<Rightarrow> string" where
  "join_with sep [] = []"
| "join_with sep [s] = s"
| "join_with sep (s # ss) = s @ sep @ join_with sep ss"

definition label_key :: "string \<Rightarrow> (string \<times> string) list \<Rightarrow> string" where
  "label_key name labels =
     (if labels = [] then name
      else name @ ''{'' @ join_with '','' (map (\<lambda>(k, v). k @ ''='' @ v) (sort_key fst labels)) @ ''}'')"

definition telemetry_counter ::
  "structlog_telemetry \<Rightarrow> string \<Rightarrow> int \<Rightarrow> (string \<times> string) list \<Rightarrow> structlog_telemetry" where
  "telemetry_counter t name v labels =
     (let k = label_key name labels; old = (case map_of (tm_counters t) k of None \<Rightarrow> 0 | Some n \<Rightarrow> n)
      in t\<lparr>tm_counters := AList.update k (old + v) (tm_counters t)\<rparr>)"

definition telemetry_histogram ::
  "structlog_telemetry \<Rightarrow> string \<Rightarrow> rat \<Rightarrow> (string \<times> string) list \<Rightarrow> structlog_telemetry" where
  "telemetry_histogram t name v labels =
     (let k = label_key name labels; old = (case map_of (tm_histograms t) k of None \<Rightarrow> [] | Some vs \<Rightarrow> vs)
      in t\<lparr>tm_histograms := AList.update k (old @ [v]) (tm_histograms t)\<rparr>)"

definition telemetry_event ::
  "structlog_telemetry \<Rightarrow> string \<Rightarrow> string \<Rightarrow> (string \<times> json) list \<Rightarrow> structlog_telemetry" where
  "telemetry_event t name trace_id given =
     (let safe = map (\<lambda>(field, v). (field, redact field v)) given
      in t\<lparr>tm_log := tm_log t @ [\<lparr>ll_name = name, ll_trace_id = trace_id, ll_fields = safe\<rparr>]\<rparr>)"

section \<open>The frozen clock\<close>

definition clock_advance :: "int \<Rightarrow> int \<Rightarrow> int result" where
  "clock_advance now_ms delta_ms = (if delta_ms < 0 then Inl ValueError else Inr (now_ms + delta_ms))"

definition clock_set :: "int \<Rightarrow> int \<Rightarrow> int result" where
  "clock_set now_ms to_ms = (if to_ms < now_ms then Inl ValueError else Inr to_ms)"

section \<open>What reaches the log\<close>

lemma occurs_in_iff: "occurs_in needle s \<longleftrightarrow> (\<exists>before after. s = before @ needle @ after)"
proof (induction s)
  case (Cons c cs)
  have "take (length needle) (c # cs) = needle \<longleftrightarrow> (\<exists>after. c # cs = needle @ after)"
    by (metis append_eq_conv_conj append_take_drop_id)
  with Cons show ?case
    by (auto simp: Cons_eq_append_conv)
qed simp

text \<open>Two sets of labels may share a counter: a label whose value holds the separator.\<close>

lemma labels_collide: "label_key n [(''a'', ''1,b=2'')] = label_key n [(''a'', ''1''), (''b'', ''2'')]"
  by (simp add: label_key_def)

fun evidence_field :: "string \<Rightarrow> bool" where
  "evidence_field field \<longleftrightarrow>
     (\<exists>marker \<in> set REDACTED_SUBSTRINGS. \<exists>before after. py_lower field = before @ marker @ after)"

fun run_events :: "structlog_telemetry \<Rightarrow> (string \<times> string \<times> (string \<times> json) list) list \<Rightarrow> structlog_telemetry" where
  "run_events t [] = t"
| "run_events t ((name, trace, given) # es) = run_events (telemetry_event t name trace given) es"

lemma redact_iff: "redact field v = (if evidence_field field then JStr REDACTED else v)"
  by (auto simp: redact_def list_ex_iff occurs_in_iff)

lemma run_events_log:
  "tm_log (run_events t es) = tm_log t @ map (\<lambda>(name, trace, given).
     \<lparr>ll_name = name, ll_trace_id = trace, ll_fields = map (\<lambda>(f, v). (f, redact f v)) given\<rparr>) es"
  by (induction t es rule: run_events.induct) (simp_all add: telemetry_event_def Let_def)

text \<open>
  Evidence does not reach the operational log (NFR-018). Whatever events are emitted, every line has
  the name, the trace and the fields of its event, in order; the value of a field is the constant
  \<open>[redacted]\<close> exactly when its name, in any case, contains one of the markers, and is the event's own
  otherwise.
\<close>

theorem log_redacts_evidence:
  "list_all2 (\<lambda>(name, trace, given) line. ll_name line = name \<and> ll_trace_id line = trace \<and>
      list_all2 (\<lambda>(f, v) (f', v'). f' = f \<and> v' = (if evidence_field f then JStr REDACTED else v)) given (ll_fields line))
    es (tm_log (run_events StructlogTelemetry es))"
proof -
  have "list_all2 (\<lambda>(f, v) (f', v'). f' = f \<and> v' = (if evidence_field f then JStr REDACTED else v)) given
      (map (\<lambda>(f, v). (f, redact f v)) given)" for given
    by (induction given) (auto simp: redact_iff simp del: evidence_field.simps)
  then show ?thesis
    by (simp add: run_events_log StructlogTelemetry_def list_all2_conv_all_nth case_prod_unfold del: evidence_field.simps)
qed

end
