(* ===== verification/Bootstrap.thy ===== *)
theory Bootstrap
  imports RestApi Tokens Deterministic Telemetry ScoreCalibration
begin

text \<open>
  The composition root (\<open>bootstrap/settings.py\<close> and \<open>bootstrap/container.py\<close>): the settings with their
  checks, the default configuration, and the container of the in-memory backend. The adapters of the
  persistent backend need clients of services outside the repository, so for that backend only the
  checks before the wiring are modelled. Reading the environment is the framework's.
\<close>

section \<open>Settings\<close>

datatype backend = MEMORY | POSTGRES

datatype runtime_mode = DETERMINISTIC | MANAGED

fun backend_value :: "backend \<Rightarrow> string" where
  "backend_value MEMORY = ''memory''"
| "backend_value POSTGRES = ''postgres''"

fun runtime_mode_value :: "runtime_mode \<Rightarrow> string" where
  "runtime_mode_value DETERMINISTIC = ''deterministic''"
| "runtime_mode_value MANAGED = ''managed''"

record settings =
  sg_environment :: string
  sg_backend :: backend
  sg_runtime_mode :: runtime_mode
  sg_api_key_pepper :: string
  sg_stream_token_signing_key :: string
  sg_database_url :: string
  sg_redis_url :: string
  sg_object_storage_endpoint :: string
  sg_object_storage_bucket :: string
  sg_object_storage_access_key :: string
  sg_object_storage_secret_key :: string
  sg_max_queue_depth :: int
  sg_stream_lease_ttl_seconds :: int
  sg_sessions_per_minute :: int

definition PLACEHOLDERS :: "string list" where
  "PLACEHOLDERS = [''changeme'', ''placeholder'', ''secret'', ''password'', ''xxxx'']"

definition reject_obvious_placeholders :: "string \<Rightarrow> string result" where
  "reject_obvious_placeholders v =
     (let lowered = py_lower v in
      if list_ex (\<lambda>placeholder. occurs_in placeholder lowered) PLACEHOLDERS then Inl ValueError else Inr v)"

text \<open>The bounds of the fields and the validator of the two secrets.\<close>

definition Settings :: "settings \<Rightarrow> settings result" where
  "Settings s =
     (if length (sg_api_key_pepper s) < 32 \<or> length (sg_stream_token_signing_key s) < 32 \<or>
         \<not> (1 \<le> sg_max_queue_depth s \<and> sg_max_queue_depth s \<le> 256) \<or>
         sg_stream_lease_ttl_seconds s < 5 \<or> sg_sessions_per_minute s < 0
      then Inl ValueError
      else bindR (reject_obvious_placeholders (sg_api_key_pepper s)) (\<lambda>_.
           bindR (reject_obvious_placeholders (sg_stream_token_signing_key s)) (\<lambda>_. Inr s)))"

definition missing_infrastructure :: "settings \<Rightarrow> string list" where
  "missing_infrastructure s =
     map fst (filter (\<lambda>(_, v). v = [])
       [(''ENGINE_DATABASE_URL'', sg_database_url s), (''ENGINE_REDIS_URL'', sg_redis_url s),
        (''ENGINE_OBJECT_STORAGE_ENDPOINT'', sg_object_storage_endpoint s),
        (''ENGINE_OBJECT_STORAGE_ACCESS_KEY'', sg_object_storage_access_key s),
        (''ENGINE_OBJECT_STORAGE_SECRET_KEY'', sg_object_storage_secret_key s)])"

definition require_infrastructure :: "settings \<Rightarrow> unit result" where
  "require_infrastructure s =
     (if sg_backend s \<noteq> POSTGRES then Inr ()
      else if missing_infrastructure s \<noteq> [] then Inl ValueError else Inr ())"

section \<open>The default configuration\<close>

definition SCHEMA_VERSION :: semantic_version where
  "SCHEMA_VERSION = MkVersion 1 0 0"

definition PIPELINE_VERSION :: semantic_version where
  "PIPELINE_VERSION = MkVersion 0 1 0"

definition default_configuration :: "configuration_snapshot result" where
  "default_configuration =
     bindR (Identifier ConfigurationSnapshotId ''config-default-v1'') (\<lambda>snapshot_id.
     bindR (FusionWindow DEFAULT_FUSION_WINDOW_MS snapshot_id) (\<lambda>window.
     Inr \<lparr>cs_id = snapshot_id, cs_taxonomy_version = TAXONOMY_VERSION, cs_pipeline_version = PIPELINE_VERSION,
          cs_schema_version = SCHEMA_VERSION, cs_fusion_window = window, cs_speech_thresholds = [],
          cs_visual_thresholds = [], cs_silence_threshold_ms = 700, cs_calibration = None\<rparr>))"

section \<open>The container\<close>

text \<open>The profile shown to the transports, and the ports. The use cases hold no state of their own; the
  four repositories, the media store, the stream state, the quota and the configuration are one engine.\<close>

record container =
  ct_settings :: settings
  ct_backend :: string
  ct_runtime_mode :: string
  ct_max_queue_depth :: int
  ct_stream_lease_ttl_seconds :: int
  ct_telemetry :: structlog_telemetry
  ct_engine :: engine
  ct_registry :: model_registry
  ct_api_keys :: api_key_directory
  ct_signing_key :: bytes
  ct_speech :: speech_script
  ct_vision :: visual_script
  ct_calibrator :: calibrator

definition quota_limits :: "settings \<Rightarrow> (string \<times> int) list" where
  "quota_limits s = (if sg_sessions_per_minute s > 0 then [(''sessions'', sg_sessions_per_minute s)] else [])"

definition NotImplementedError :: exn where
  "NotImplementedError = OtherError ''NotImplementedError''"

definition empty_speech_script :: "speech_script result" where
  "empty_speech_script = bindR (Identifier ModelVersionId ''deterministic-speech-v1'') (\<lambda>model.
     Inr \<lparr>sc_words = [], sc_events = [], sc_model_version = model,
       sc_instability_tail_ms = DEFAULT_INSTABILITY_TAIL_MS, sc_fail_after_window = None\<rparr>)"

definition empty_visual_script :: "visual_script result" where
  "empty_visual_script = bindR (Identifier ModelVersionId ''deterministic-vision-v1'') (\<lambda>model.
     Inr \<lparr>vs_events = [], vs_model_version = model, vs_face_visibility = 19/20, vs_mean_luminance = 11/20,
       vs_framing_coverage = 9/10, vs_landmark_confidence = 87/100, vs_fail_after_batch = None\<rparr>)"

definition deterministic_version :: "modality \<Rightarrow> model_version_id \<Rightarrow> model_version" where
  "deterministic_version m i =
     \<lparr>mv_id = i, mv_modality = m, mv_artifact_digest = ''sha256:deterministic-'' @ modality_value m,
      mv_dataset_version = ''none'', mv_approval = EVALUATED, mv_metrics = [], mv_rollback_to = None\<rparr>"

text \<open>The runtimes and, in memory, the registry with the versions they report.\<close>

definition build_runtimes ::
  "settings \<Rightarrow> model_registry \<Rightarrow> speech_script option \<Rightarrow> visual_script option \<Rightarrow>
   ((speech_script \<times> visual_script) \<times> model_registry) result" where
  "build_runtimes s registry speech vision =
     (if sg_runtime_mode s = MANAGED then Inl NotImplementedError
      else
        bindR (case speech of Some x \<Rightarrow> Inr x | None \<Rightarrow> empty_speech_script) (\<lambda>sp.
        bindR (case vision of Some x \<Rightarrow> Inr x | None \<Rightarrow> empty_visual_script) (\<lambda>vi.
        bindR (Identifier ModelVersionId ''deterministic-speech-v1'') (\<lambda>audio_id.
        bindR (Identifier ModelVersionId ''deterministic-vision-v1'') (\<lambda>video_id.
          Inr ((sp, vi),
            registry_register (registry_register registry (deterministic_version AUDIO audio_id) True)
              (deterministic_version VIDEO video_id) True))))))"

definition memory_engine :: "configuration_snapshot \<Rightarrow> settings \<Rightarrow> engine" where
  "memory_engine snapshot s =
     \<lparr>en_sessions = empty_sessions, en_runs = empty_runs, en_evidence = empty_evidence, en_audit = [],
      en_media = empty_media, en_stream = empty_stream_state, en_quota = QuotaGuard (quota_limits s) 60,
      en_configuration = ConfigurationStore snapshot\<rparr>"

definition build_memory_container ::
  "settings \<Rightarrow> speech_script option \<Rightarrow> visual_script option \<Rightarrow> container result" where
  "build_memory_container s speech vision =
     bindR (require_infrastructure s) (\<lambda>_.
     bindR default_configuration (\<lambda>snapshot.
     bindR (HmacStreamTokenMinter (sg_stream_token_signing_key s)) (\<lambda>key.
     bindR (build_runtimes s empty_registry speech vision) (\<lambda>((sp, vi), registry).
     Inr \<lparr>ct_settings = s, ct_backend = backend_value (sg_backend s),
          ct_runtime_mode = runtime_mode_value (sg_runtime_mode s),
          ct_max_queue_depth = sg_max_queue_depth s, ct_stream_lease_ttl_seconds = sg_stream_lease_ttl_seconds s,
          ct_telemetry = StructlogTelemetry, ct_engine = memory_engine snapshot s, ct_registry = registry,
          ct_api_keys = ApiKeyDirectory (sg_api_key_pepper s), ct_signing_key = key,
          ct_speech = sp, ct_vision = vi, ct_calibrator = MkCalibrator []\<rparr>))))"

end
