(* ===== verification/BootstrapProperties.thy ===== *)
theory BootstrapProperties
  imports Bootstrap UseCaseProperties Configuration
begin

text \<open>What a process started with accepted settings is: ready, with the engine of \<open>UseCaseProperties\<close>, and
  with no calibrated confidence.\<close>

lemma Settings_Inr: "Settings s = Inr s' \<Longrightarrow> s' = s \<and> 32 \<le> length (sg_stream_token_signing_key s) \<and> 32 \<le> length (sg_api_key_pepper s)"
  by (auto simp: Settings_def bindR_def split: if_splits sum.splits)

lemma default_configuration_eq:
  "default_configuration = Inr \<lparr>cs_id = ConfigurationSnapshotId ''config-default-v1'', cs_taxonomy_version = TAXONOMY_VERSION,
     cs_pipeline_version = PIPELINE_VERSION, cs_schema_version = SCHEMA_VERSION,
     cs_fusion_window = \<lparr>fw_width_ms = 500, fw_configuration = ConfigurationSnapshotId ''config-default-v1''\<rparr>,
     cs_speech_thresholds = [], cs_visual_thresholds = [], cs_silence_threshold_ms = 700, cs_calibration = None\<rparr>"
  by (simp add: default_configuration_def Identifier_nonspace_prefix py_isspace_def FusionWindow_def DEFAULT_FUSION_WINDOW_MS_def)

definition started_registry :: model_registry where
  "started_registry = registry_register
     (registry_register empty_registry (deterministic_version AUDIO (ModelVersionId ''deterministic-speech-v1'')) True)
     (deterministic_version VIDEO (ModelVersionId ''deterministic-vision-v1'')) True"

lemma started_registry_checks:
  "model_check started_registry AUDIO = ''ready (deterministic-speech-v1)''"
  "model_check started_registry VIDEO = ''ready (deterministic-vision-v1)''"
  by (simp_all add: model_check_def active_for_def registry_version_def started_registry_def registry_register_def
      empty_registry_def deterministic_version_def)

lemma started_registry_ready: "fst (ready started_registry ''memory'' ''deterministic'') = 200"
  by (simp add: ready_def started_registry_checks Let_def)

lemma started_registry_wf: "wf_registry started_registry"
  by (simp add: wf_registry_def started_registry_def registry_register_def empty_registry_def deterministic_version_def)

text \<open>With no curve fitted, every score is published as raw.\<close>

lemma empty_calibrator_raw: "calibrate (MkCalibrator []) cls q = Inr (MkConfidence (clamp_unit q) RAW)"
  by (auto simp: calibrate_def confidence_raw_def clamp_unit_def)

text \<open>
  C17: Starting the process. Settings are accepted only with the two secrets at least 32 characters long.
  With accepted settings for the in-memory backend, a managed runtime refuses to start; otherwise the
  container is built, it reports itself ready with a consistent registry, its engine is the empty one
  with the default configuration and no limit unless one is set, it runs the scripts it was given, and
  none of its confidences opens any gate, whatever the class, the score and the threshold.
\<close>

theorem container_starts_ready:
  assumes "Settings s = Inr s'" and "sg_backend s' = MEMORY"
  shows "s' = s \<and> 32 \<le> length (sg_stream_token_signing_key s) \<and> 32 \<le> length (sg_api_key_pepper s) \<and>
    (if sg_runtime_mode s = MANAGED then build_memory_container s speech vision = Inl NotImplementedError
     else \<exists>ct snapshot. build_memory_container s speech vision = Inr ct \<and>
       default_configuration = Inr snapshot \<and>
       ct_engine ct = new_engine snapshot (quota_limits s) 60 \<and>
       ((quota_limits s = []) = (sg_sessions_per_minute s = 0)) \<and>
       fst (ready (ct_registry ct) (ct_backend ct) (ct_runtime_mode ct)) = 200 \<and> wf_registry (ct_registry ct) \<and>
       (case speech of None \<Rightarrow> sc_words (ct_speech ct) = [] \<and> sc_events (ct_speech ct) = [] | Some x \<Rightarrow> ct_speech ct = x) \<and>
       (case vision of None \<Rightarrow> vs_events (ct_vision ct) = [] | Some x \<Rightarrow> ct_vision ct = x) \<and>
       (\<forall>cls q threshold. case calibrate (ct_calibrator ct) cls q of
          Inl _ \<Rightarrow> False | Inr confidence \<Rightarrow> \<not> meets confidence threshold))"
proof -
  have s: "s' = s" and keys: "32 \<le> length (sg_stream_token_signing_key s)" "32 \<le> length (sg_api_key_pepper s)"
    and limit: "0 \<le> sg_sessions_per_minute s"
    using Settings_Inr [OF assms(1)] assms(1) by (auto simp: Settings_def split: if_splits)
  have infra: "require_infrastructure s = Inr ()"
    using assms(2) s by (simp add: require_infrastructure_def)
  have key: "HmacStreamTokenMinter (sg_stream_token_signing_key s) = Inr (utf8 (sg_stream_token_signing_key s))"
    using keys by (simp add: HmacStreamTokenMinter_def MIN_SIGNING_KEY_LENGTH_def)
  show ?thesis
  proof (cases "sg_runtime_mode s")
    case MANAGED
    then show ?thesis
      using s keys by (simp add: build_memory_container_def infra key default_configuration_eq build_runtimes_def)
  next
    case DETERMINISTIC
    then have mode: "sg_runtime_mode s = DETERMINISTIC" .
    have backend: "sg_backend s = MEMORY" using assms(2) s by simp
    show ?thesis
      using s keys limit mode started_registry_ready started_registry_wf
      by (cases speech; cases vision)
        (simp_all add: build_memory_container_def infra key default_configuration_eq build_runtimes_def
          empty_speech_script_def empty_visual_script_def Identifier_nonspace_prefix py_isspace_def
          started_registry_def [symmetric] memory_engine_def new_engine_def quota_limits_def backend
          empty_calibrator_raw meets_def is_calibrated_def)
  qed
qed

definition local_settings :: settings where
  "local_settings = \<lparr>sg_environment = ''local'', sg_backend = MEMORY, sg_runtime_mode = DETERMINISTIC,
     sg_api_key_pepper = replicate 32 CHR ''p'', sg_stream_token_signing_key = replicate 32 CHR ''k'',
     sg_database_url = [], sg_redis_url = [], sg_object_storage_endpoint = [], sg_object_storage_bucket = ''evidence-engine'',
     sg_object_storage_access_key = [], sg_object_storage_secret_key = [],
     sg_max_queue_depth = 8, sg_stream_lease_ttl_seconds = 60, sg_sessions_per_minute = 5\<rparr>"

lemma local_settings_accepted: "Settings local_settings = Inr local_settings"
  by (code_simp)

theorem container_starts_ready_witness:
  "\<exists>ct. build_memory_container local_settings None None = Inr ct \<and>
     fst (ready (ct_registry ct) (ct_backend ct) (ct_runtime_mode ct)) = 200"
proof -
  have "sg_backend local_settings = MEMORY" "sg_runtime_mode local_settings \<noteq> MANAGED"
    by (simp_all add: local_settings_def)
  then show ?thesis
    using container_starts_ready [OF local_settings_accepted, where speech = None and vision = None] by auto
qed

end
