(* ===== verification/Spec2Isabelle.thy ===== *)
theory Spec2Isabelle
  imports
    Timeline Measurement Provenance Taxonomy SessionClock Lifecycle Capabilities Consent Session
    Sequencing Finalizable Transcript SpeechEvents VisualEvents Quality AppendOnly EvidenceLedger
    Cooccurrence Document Sha256 Ports ScoreCalibration EventIdentity SpeechAssembly VisualAssembly
    Actions Streaming StreamingFacts StreamingProperties
    Stores Cache MediaStore Configuration Identity UseCases Completion UseCaseFacts UseCaseProperties
    CompletionProperties Base64 WsProtocol WsHandler WsProperties
    AnnotationRecords AnnotationValidation Matching Measures AgreementReport Elan ElanProperties
    Json Tokens TokenProperties Serialization
    RestApi RestProperties RowMapping EvidenceRows RowProperties StorageProperties
    ControlPlane ControlPlaneProperties Deterministic DeterministicProperties
    SqlRepositories SqlProperties S3Store RedisStream RedisQuota Telemetry Bootstrap BootstrapProperties
begin

text \<open>
  The evidence engine of ORATORIA (\<open>src/src/evidence_engine\<close>): a service that turns the audio and
  video of a practice presentation into evidence (a transcript, speech and visual events, prosody,
  capture quality), never into a grade; and the tools of its annotation corpus (\<open>src/src/corpus\<close>).

  \<^bold>\<open>How the parts interact.\<close> A client creates a session over REST and gets a signed stream token; it
  opens a WebSocket with it, and the handler takes the session's lease, begins the capture, and hands
  every chunk to the streaming coordinator. The coordinator sequences the chunks, asks the runtimes for
  hypotheses, assembles them into tokens and events, and freezes what has become stable in the
  transcript and in an append-only ledger. Completion fuses the finalized events, assembles the
  document and publishes it; queries read it back; deletion erases it. The use cases see only ports,
  behind which stand adapters in memory, in PostgreSQL, Redis and S3.

  \<^bold>\<open>Conventions.\<close> See Prelude: integers are \<open>int\<close>, floats are \<open>rat\<close> (exact; no NaN), strings are
  Latin-1, a dict is an association list in insertion order, a raised exception is \<open>Inl\<close> with its
  class. A frozen dataclass is a record, its \<open>__post_init__\<close> a function into \<open>exn + record\<close>. Stateful
  code is written in the state and exception monad of Actions, in which an exception keeps the
  state reached so far, as in Python. Readings of clocks, random identifiers and secrets are arguments,
  in the order in which the code takes them.

  \<^bold>\<open>Domain.\<close>
  \<^item> Timeline, Measurement, Provenance, Taxonomy: \<open>domain/shared\<close>.
  \<^item> SessionClock, Lifecycle, Capabilities, Consent, Session: \<open>domain/sessions\<close>, with the session as
    a step relation, its invariant, and its clock against the real time spent capturing.
  \<^item> Sequencing: \<open>domain/sessions/sequencing.py\<close>; verdicts and gaps against the set of offered numbers.
  \<^item> Transcript, SpeechEvents, VisualEvents, Quality: \<open>domain/transcript\<close>, \<open>speech_events\<close>,
    \<open>visual_events\<close>, \<open>quality\<close>. Finalizable is the interface that tokens and events share.
  \<^item> EvidenceLedger, Cooccurrence, Document: \<open>domain/evidence\<close>. AppendOnly is the contract of a
    history that is only extended and that freezes what is final.

  \<^bold>\<open>Application.\<close>
  \<^item> Ports: the values of \<open>application/ports\<close>.
  \<^item> ScoreCalibration, EventIdentity (with Sha256), SpeechAssembly, VisualAssembly:
    \<open>application/services\<close>.
  \<^item> Streaming: \<open>application/workflows/streaming.py\<close> over one world of state, ledger, channel and
    counters; StreamingFacts and StreamingProperties hold its lemmas and theorems: what is final is
    never rewritten, redelivery changes nothing, the queue is bounded. The runtimes behind the ports
    are arguments: any function from windows to a failure or a result.
  \<^item> UseCases, Completion: \<open>application/commands\<close> and \<open>application/queries\<close> over one engine of
    in-memory adapters. UseCaseFacts holds what each use case changes; UseCaseProperties the invariant
    of the stored sessions, idempotent creation, isolation of tenants and complete deletion;
    CompletionProperties that a completed session has a published document, and what a failure leaves.

  \<^bold>\<open>Adapters in memory.\<close>
  \<^item> Stores, Cache, MediaStore, Configuration, Identity: \<open>adapters/outbound\<close> (\<open>persistence\<close>, \<open>cache\<close>,
    \<open>object_storage\<close>). Stores states the contracts of a keyed store and of the isolation of tenants
    as locales and interprets them on every repository.
  \<^item> Tokens, over Base64, Json and Sha256: \<open>persistence/tokens.py\<close> with the parts of the standard
    library it uses (HMAC, base64, UTF-8, the JSON reader and writer) written out. TokenProperties: a
    minted token verifies back, an unsigned one opens nothing.
  \<^item> Deterministic: \<open>model_runtime/deterministic.py\<close>. DeterministicProperties: whatever the windows, the
    transcript of a replay is the script, also through the coordinator, for scripts without overlap.

  \<^bold>\<open>Adapters of external services.\<close> The service is a type variable for its state and a record of
  functions for its operations; what the code relies on are named predicates, met by a concrete instance.
  \<^item> S3Store: \<open>object_storage/s3.py\<close>, which answers as the media store in memory does while no session has
    more than the 1000 objects that the service deletes in one request.
  \<^item> RedisStream, RedisQuota: \<open>cache/redis_state.py\<close>: the snapshots, through their JSON, the leases and
    the quota answer as those in memory do.
  \<^item> Telemetry: \<open>telemetry/structured.py\<close> and the frozen clock of \<open>telemetry/clock.py\<close>: evidence is
    redacted before a line reaches the log.

  \<^bold>\<open>Start.\<close>
  \<^item> Bootstrap, BootstrapProperties: \<open>bootstrap/settings.py\<close> and the in-memory wiring of
    \<open>bootstrap/container.py\<close>: accepted settings give a ready process with the engine that the theorems
    of UseCaseProperties start from, and with no confidence that opens a gate.

  \<^bold>\<open>Interfaces.\<close>
  \<^item> WsProtocol, WsHandler: \<open>adapters/inbound/websocket\<close>: parsing of frames, the receive loop and the
    endpoint around it. WsProperties: the lease is given back, malformed frames cost nothing, what a
    dropped connection leaves behind.
  \<^item> RestApi, Serialization: \<open>adapters/inbound/rest\<close>. RestProperties: one code for every failure, reads
    that change nothing, no change without a live key.

  \<^bold>\<open>PostgreSQL.\<close>
  \<^item> RowMapping, EvidenceRows: \<open>postgres/mapping.py\<close>, \<open>evidence_repository.py\<close>, the row classes of
    \<open>models.py\<close> and their CHECK constraints. RowProperties interprets one locale, a codec between
    entities and rows, on every pair; StorageProperties: what is stored reads back, in whatever order
    the rows are returned, and satisfies the constraints.
  \<^item> SqlRepositories, SqlProperties: \<open>postgres/repositories.py\<close> over a database given by its statements:
    the sessions answer as those in memory do, and deletion removes exactly the evidence rows of the session.
  \<^item> ControlPlane, ControlPlaneProperties: \<open>postgres/control_plane.py\<close>: keys, snapshots, model versions.

  \<^bold>\<open>Corpus.\<close>
  \<^item> AnnotationRecords, AnnotationValidation: \<open>corpus/schema\<close>.
  \<^item> Matching, Measures, AgreementReport: \<open>corpus/agreement\<close>: the dynamic programme is optimal among
    all non-crossing matchings, and the report accounts for every annotation.
  \<^item> Elan, ElanProperties: \<open>corpus/io/elan.py\<close> and the commands of \<open>corpus/cli/main.py\<close>.

  \<^bold>\<open>Recursion and fuel.\<close> Loops are structural recursion or \<open>fun\<close> with a proved measure, except two. The
  walk back through the table of Matching has fuel \<open>i + j\<close>, its starting indices, each step lowering
  one of them (\<open>walk_back_terminates\<close>). The JSON reader has fuel for twice the length of its text
  plus one, and \<open>scan_value_enough\<close> shows that more fuel never changes its answer.

  \<^bold>\<open>Not modelled.\<close> What belongs to a service outside the repository is an argument where a definition
  uses it: a database, a bucket, a Redis server, the XML parser, the printing of a float. Transactions
  of the database and the construction of its engine, the migrations that create its tables and the
  scripts that render documentation are left out, and so are the wiring of the persistent backend and
  the FastAPI application (\<open>bootstrap\<close>), the declarations of \<open>application/api.py\<close>, argument parsing and
  printing of the corpus command line, and the shapes that pydantic checks before a route runs. The text
  of an error message is kept only where code depends on it.
\<close>

end
